(* ===== verification/Apollo_Prelude.thy ===== *)
theory Apollo_Prelude
  imports Complex_Main "HOL-Library.Word" "HOL-Library.Multiset"
begin

unbundle bit_operations_syntax

text \<open>
  Shared vocabulary of the development.

  Machine integers keep their width: \<open>u8\<close>, \<open>u16\<close>, \<open>u32\<close>, \<open>u64\<close> and
  \<open>u128\<close> are words, \<open>+\<close> on them wraps as a release build of the code does (the
  workspace sets no \<open>overflow-checks\<close>), and Rust's \<open>saturating_add\<close>,
  \<open>saturating_sub\<close> and \<open>saturating_mul\<close> are \<open>sat_add\<close>, \<open>sat_sub\<close> and
  \<open>sat_mul\<close>. Signed 64-bit quantities are \<open>int\<close> with the saturation written out
  (\<open>i64_clamp\<close>). A \<open>usize\<close> that only counts the elements of a collection is
  \<open>nat\<close>. An \<open>Instant\<close> or \<open>Duration\<close> is a \<open>nat\<close> number of nanoseconds of
  the monotonic clock; \<open>duration_since\<close> and \<open>elapsed\<close> saturate at zero, which is
  subtraction on \<open>nat\<close>.

  The collection \<open>word_nat\<close> moves comparisons and saturating arithmetic of words to
  \<open>nat\<close>, where linear arithmetic decides them.

  Two interfaces recur in every component and are stated here as locales: a machine whose
  steps keep an invariant, and a FIFO whose insertions are bounded by a capacity.
\<close>

named_theorems word_nat \<open>comparisons and saturating operations of words, read as naturals\<close>

type_synonym u8 = "8 word"
type_synonym u16 = "16 word"
type_synonym u32 = "32 word"
type_synonym u64 = "64 word"
type_synonym u128 = "128 word"
type_synonym i32 = int
type_synonym i64 = int
type_synonym instant = nat
type_synonym duration = nat

subsection \<open>Saturating arithmetic\<close>

definition sat_add :: "'a::len word \<Rightarrow> 'a word \<Rightarrow> 'a word" where
  "sat_add a b = (if unat a + unat b < 2 ^ LENGTH('a) then a + b else - 1)"

definition sat_sub :: "'a::len word \<Rightarrow> 'a word \<Rightarrow> 'a word" where
  "sat_sub a b = (if b \<le> a then a - b else 0)"

definition sat_mul :: "'a::len word \<Rightarrow> 'a word \<Rightarrow> 'a word" where
  "sat_mul a b = (if unat a * unat b < 2 ^ LENGTH('a) then a * b else - 1)"

definition i64_clamp :: "int \<Rightarrow> i64" where
  "i64_clamp x = max (- (2 ^ 63)) (min (2 ^ 63 - 1) x)"

definition i64_sat_add :: "i64 \<Rightarrow> i64 \<Rightarrow> i64" where
  "i64_sat_add a b = i64_clamp (a + b)"

definition i64_sat_sub :: "i64 \<Rightarrow> i64 \<Rightarrow> i64" where
  "i64_sat_sub a b = i64_clamp (a - b)"

definition i64_sat_neg :: "i64 \<Rightarrow> i64" where
  "i64_sat_neg a = i64_clamp (- a)"

definition is_i64 :: "int \<Rightarrow> bool" where
  "is_i64 x \<longleftrightarrow> - (2 ^ 63) \<le> x \<and> x < 2 ^ 63"

definition duration_from_secs :: "u64 \<Rightarrow> duration" where
  "duration_from_secs s = unat s * 1000000000"

lemma unat_minus_one_word: "unat (- 1 :: 'a::len word) = 2 ^ LENGTH('a) - 1"
  by (simp add: unsigned_minus_1_eq_mask mask_eq_exp_minus_1)

lemma unat_sat_add [word_nat]:
  "unat (sat_add a b) = min (unat a + unat b) (2 ^ LENGTH('a) - 1)"
  for a b :: "'a::len word"
  by (auto simp: sat_add_def unat_word_ariths unat_minus_one_word)

lemma unat_sat_sub [word_nat]: "unat (sat_sub a b) = unat a - unat b"
  for a b :: "'a::len word"
  by (auto simp: sat_sub_def unat_sub word_le_nat_alt)

lemma unat_sat_mul [word_nat]:
  "unat (sat_mul a b) = min (unat a * unat b) (2 ^ LENGTH('a) - 1)"
  for a b :: "'a::len word"
  by (auto simp: sat_mul_def unat_word_ariths unat_minus_one_word)

lemmas [word_nat] = word_le_nat_alt word_less_nat_alt

lemma unat_bound: "unat a < 2 ^ LENGTH('a)" for a :: "'a::len word"
  by simp

lemma unat_le_max: "unat a \<le> 2 ^ LENGTH('a) - 1" for a :: "'a::len word"
  using unat_bound [of a] by linarith

lemma unat_sat_inc: "unat (sat_add a 1) = min (Suc (unat a)) (2 ^ LENGTH('a) - 1)"
  for a :: "'a::len word"
  by (simp add: unat_sat_add)

lemma sat_add_ge [simp]: "a \<le> sat_add a b" for a b :: "'a::len word"
  using unat_le_max [of a] by (simp add: word_nat)

lemma sat_add_zero [simp]: "sat_add a 0 = a" for a :: "'a::len word"
  by (simp add: sat_add_def)

lemma unat_ucast_up:
  fixes w :: "'a::len word"
  assumes "LENGTH('a) \<le> LENGTH('b)"
  shows "unat (ucast w :: 'b::len word) = unat w"
proof -
  have "(2::nat) ^ LENGTH('a) \<le> 2 ^ LENGTH('b)" using assms by simp
  then have "unat w < 2 ^ LENGTH('b)" using unat_bound [of w] by linarith
  then show ?thesis by (simp add: unsigned_ucast_eq take_bit_nat_eq_self)
qed

lemma sat_add_commute: "sat_add a b = sat_add b a" for a b :: "'a::len word"
  by (simp add: sat_add_def add.commute)

lemma sat_add_assoc: "sat_add (sat_add a b) c = sat_add a (sat_add b c)" for a b c :: "'a::len word"
proof -
  have "min (min (x + y) m + z) m = min (x + min (y + z) m) m" for x y z m :: nat by linarith
  then show ?thesis by (simp only: word_unat_eq_iff unat_sat_add)
qed

lemma sat_add_left_commute: "sat_add a (sat_add b c) = sat_add b (sat_add a c)" for a b c :: "'a::len word"
  by (metis sat_add_assoc sat_add_commute)

lemmas sat_add_ac = sat_add_assoc sat_add_commute sat_add_left_commute

lemma sat_sub_le [simp]: "sat_sub a b \<le> a" for a b :: "'a::len word"
  by (simp add: word_nat)

lemma sat_inc_eq_self_iff: "sat_add a 1 = a \<longleftrightarrow> a = - 1" for a :: "'a::len word"
proof
  assume "sat_add a 1 = a"
  then have "unat (sat_add a 1) = unat a" by simp
  then have "unat a = 2 ^ LENGTH('a) - 1"
    using unat_le_max [of a] by (simp add: unat_sat_inc)
  then show "a = - 1" by (metis unat_minus_one_word word_unat_eq_iff)
next
  assume "a = - 1"
  then show "sat_add a 1 = a"
    by (simp add: sat_add_def unat_minus_one_word)
qed

lemma i64_clamp_range [simp]: "is_i64 (i64_clamp x)"
  by (auto simp: is_i64_def i64_clamp_def)

lemma i64_clamp_id [simp]: "is_i64 x \<Longrightarrow> i64_clamp x = x"
  by (auto simp: is_i64_def i64_clamp_def)

subsection \<open>Comparisons of 64-bit floats\<close>

text \<open>
  The components modelled so far only compare floats, never compute with them. A double is
  one of the two infinities, NaN or an exact rational; every comparison with NaN is false.
  The two zeros are one value here, because no comparison tells them apart.
\<close>

datatype f64 = F_NaN | F_Inf bool | F_Fin rat

fun f64_is_finite :: "f64 \<Rightarrow> bool" where
  "f64_is_finite (F_Fin _) = True"
| "f64_is_finite _ = False"

fun f64_le :: "f64 \<Rightarrow> f64 \<Rightarrow> bool" where
  "f64_le F_NaN _ = False"
| "f64_le _ F_NaN = False"
| "f64_le (F_Inf False) _ = True"
| "f64_le _ (F_Inf True) = True"
| "f64_le (F_Inf True) _ = False"
| "f64_le _ (F_Inf False) = False"
| "f64_le (F_Fin a) (F_Fin b) = (a \<le> b)"

subsection \<open>Lists used as queues\<close>

lemma length_drop_Suc_append [simp]: "xs \<noteq> [] \<Longrightarrow> length (tl xs @ [x]) = length xs"
  by (cases xs) auto

lemma count_filter_partition:
  "length (filter P xs) + length (filter (\<lambda>x. \<not> P x) xs) = length xs"
  by (rule sum_length_filter_compl)

lemma set_takeWhile_dropWhile: "set xs = set (takeWhile P xs) \<union> set (dropWhile P xs)"
  by (metis set_append takeWhile_dropWhile_id)

lemma length_filter_mono: "(\<And>x. x \<in> set xs \<Longrightarrow> P x \<Longrightarrow> Q x) \<Longrightarrow>
    length (filter P xs) \<le> length (filter Q xs)"
  by (induction xs) auto

lemma filter_update_length:
  "i < length xs \<Longrightarrow> length (xs[i := x]) = length xs"
  by simp

text \<open>Rust's \<open>Iterator::position\<close>: the index of the first match.\<close>

fun find_index :: "('a \<Rightarrow> bool) \<Rightarrow> 'a list \<Rightarrow> nat option" where
  "find_index P [] = None"
| "find_index P (x # xs) = (if P x then Some 0 else map_option Suc (find_index P xs))"

lemma find_index_Some: "find_index P xs = Some i \<Longrightarrow> i < length xs \<and> P (xs ! i)"
  by (induction xs arbitrary: i) (auto split: if_splits)

lemma find_index_None: "find_index P xs = None \<longleftrightarrow> (\<forall>x \<in> set xs. \<not> P x)"
  by (induction xs) auto

lemma inj_on_distinct: "distinct (map f xs) \<Longrightarrow> x \<in> set xs \<Longrightarrow> y \<in> set xs \<Longrightarrow> f x = f y \<Longrightarrow> x = y"
  by (meson distinct_map inj_onD)

lemma find_index_unique:
  assumes "distinct (map f xs)" "x \<in> set xs"
  obtains i where "find_index (\<lambda>y. f y = f x) xs = Some i" "i < length xs" "xs ! i = x"
proof -
  have "find_index (\<lambda>y. f y = f x) xs \<noteq> None"
    using assms(2) by (induction xs) auto
  then obtain i where i: "find_index (\<lambda>y. f y = f x) xs = Some i" by auto
  note fi = find_index_Some [OF i]
  then have "xs ! i \<in> set xs" by simp
  then have "xs ! i = x" using inj_on_distinct [OF assms(1) _ assms(2)] fi by auto
  then show ?thesis using that i fi by blast
qed

lemma find_index_update: "find_index P xs = Some i \<Longrightarrow> P y \<Longrightarrow> find_index P (xs[i := y]) = Some i"
  by (induction xs arbitrary: i) (auto split: if_splits nat.splits)

text \<open>Rust's \<open>swap_remove\<close>: the last element takes the place of the removed one.\<close>

definition swap_remove :: "nat \<Rightarrow> 'a list \<Rightarrow> 'a list" where
  "swap_remove i xs = (if i < length xs then butlast (xs[i := last xs]) else xs)"

lemma mset_swap_remove:
  assumes "i < length xs"
  shows "mset (swap_remove i xs) = mset xs - {#xs ! i#}"
proof -
  define ys where "ys = xs[i := last xs]"
  have ne: "xs \<noteq> []" using assms by auto
  have ys: "mset ys = add_mset (last xs) (mset xs - {#xs ! i#})"
    using assms by (simp add: ys_def mset_update)
  have "ys \<noteq> []" and "last ys = last xs"
    using assms ne by (auto simp: ys_def last_conv_nth nth_list_update)
  then have "mset ys = add_mset (last xs) (mset (butlast ys))"
    by (metis append_butlast_last_id mset.simps(2) mset_append mset.simps(1) add_mset_add_single)
  with ys have "mset (butlast ys) = mset xs - {#xs ! i#}" by simp
  then show ?thesis using assms by (simp add: swap_remove_def ys_def)
qed

lemma set_swap_remove: "i < length xs \<Longrightarrow> set (swap_remove i xs) \<subseteq> set xs"
  by (metis in_diffD mset_swap_remove set_mset_mset subsetI)

lemma distinct_swap_remove:
  assumes "distinct xs" and "i < length xs"
  shows "distinct (swap_remove i xs)" and "xs ! i \<notin> set (swap_remove i xs)"
proof -
  have "mset (xs ! i # swap_remove i xs) = mset xs"
    using assms(2) by (simp add: mset_swap_remove)
  then have "distinct (xs ! i # swap_remove i xs)"
    using assms(1) mset_eq_imp_distinct_iff by blast
  then show "distinct (swap_remove i xs)" "xs ! i \<notin> set (swap_remove i xs)" by simp_all
qed

lemma map_swap_remove: "i < length xs \<Longrightarrow> map f (swap_remove i xs) = swap_remove i (map f xs)"
  by (cases "xs = []") (simp_all add: swap_remove_def map_butlast map_update last_map)

lemma length_swap_remove [simp]: "i < length xs \<Longrightarrow> length (swap_remove i xs) = length xs - 1"
  by (simp add: swap_remove_def)

subsection \<open>Machines that keep an invariant\<close>

text \<open>
  A component is driven by a sequence of calls. What it promises its callers is an
  invariant that every call keeps; the lemmas below lift it to any sequence of calls.
\<close>

locale invariant_machine =
  fixes step :: "'e \<Rightarrow> 's \<Rightarrow> 's"
    and inv :: "'s \<Rightarrow> bool"
  assumes step_inv: "inv s \<Longrightarrow> inv (step e s)"
begin

lemma run_inv: "inv s \<Longrightarrow> inv (fold step es s)"
  by (induction es arbitrary: s) (auto intro: step_inv)

lemma run_prefix_inv: "inv s \<Longrightarrow> inv (fold step (take n es) s)"
  by (rule run_inv)

end

text \<open>
  A quantity that no call lowers: sequence numbers, generations, and closed sets such as
  the producers a store has admitted.
\<close>

locale monotone_machine =
  fixes step :: "'e \<Rightarrow> 's \<Rightarrow> 's"
    and level :: "'s \<Rightarrow> 'm::preorder"
  assumes step_mono: "level s \<le> level (step e s)"
begin

lemma run_mono: "level s \<le> level (fold step es s)"
proof (induction es arbitrary: s)
  case Nil
  show ?case by simp
next
  case (Cons e es)
  have "level s \<le> level (step e s)" by (rule step_mono)
  also have "\<dots> \<le> level (fold step es (step e s))" by (rule Cons.IH)
  finally show ?case by simp
qed

end

subsection \<open>Bounded FIFO memories\<close>

text \<open>
  The code remembers identifiers in bounded queues that forget the oldest entry. The
  client only relies on three laws: the bound is kept, nothing is invented, and the newest
  entry is remembered.
\<close>

locale bounded_fifo =
  fixes push :: "'a \<Rightarrow> 'a list \<Rightarrow> 'a list"
    and cap :: nat
  assumes push_bound: "length q \<le> cap \<Longrightarrow> length (push x q) \<le> cap"
    and push_subset: "set (push x q) \<subseteq> insert x (set q)"
    and push_newest: "x \<in> set (push x q)"
begin

lemma pushes_bound: "length q \<le> cap \<Longrightarrow> length (fold push xs q) \<le> cap"
  by (induction xs arbitrary: q) (auto intro: push_bound)

lemma pushes_subset: "set (fold push xs q) \<subseteq> set xs \<union> set q"
proof (induction xs arbitrary: q)
  case Nil
  show ?case by simp
next
  case (Cons x xs)
  show ?case using Cons.IH [of "push x q"] push_subset [of x q] by auto
qed

end

text \<open>The queue of the code: drop the front when full, then append.\<close>

definition push_bounded :: "nat \<Rightarrow> 'a \<Rightarrow> 'a list \<Rightarrow> 'a list" where
  "push_bounded cap x q = (if length q \<ge> cap then tl q else q) @ [x]"

lemma push_bounded_length: "0 < cap \<Longrightarrow> length q \<le> cap \<Longrightarrow> length (push_bounded cap x q) \<le> cap"
  by (cases q) (auto simp: push_bounded_def)

lemma push_bounded_set: "set (push_bounded cap x q) \<subseteq> insert x (set q)"
  by (cases q) (auto simp: push_bounded_def)

lemma push_bounded_newest [simp]: "x \<in> set (push_bounded cap x q)"
  by (simp add: push_bounded_def)

lemma push_bounded_distinct: "distinct q \<Longrightarrow> x \<notin> set q \<Longrightarrow> distinct (push_bounded cap x q)"
  by (cases q) (auto simp: push_bounded_def)

text \<open>An entry is remembered until as many others as the bound have followed it.\<close>

lemma push_bounded_remembers:
  assumes "x \<in> set (drop (length q - n) q)" and "Suc n \<le> cap" and "n \<le> length q"
  shows "x \<in> set (drop (length (push_bounded cap y q) - Suc n) (push_bounded cap y q))"
proof (cases "length q \<ge> cap")
  case True
  then have "drop (length (push_bounded cap y q) - Suc n) (push_bounded cap y q) = drop (length q - n) q @ [y]"
    using assms(2,3) by (cases q) (auto simp: push_bounded_def Suc_diff_le)
  then show ?thesis using assms(1) by simp
next
  case False
  then have "drop (length (push_bounded cap y q) - Suc n) (push_bounded cap y q) = drop (length q - n) q @ [y]"
    using assms(3) by (simp add: push_bounded_def)
  then show ?thesis using assms(1) by simp
qed

end
