(* ===== verification/Hash_Map.thy ===== *)
theory Hash_Map
  imports Apollo_Prelude
begin

text \<open>
  The interface of Rust's \<open>HashMap\<close> as the components use it, and the implementation the
  models share: an association list with distinct keys. The iteration order of a
  \<open>HashMap\<close> is unspecified; where the code iterates over one, the model iterates in list
  order, one of the orders the code may see, and no property depends on it.
\<close>

type_synonym ('k, 'v) hmap = "('k \<times> 'v) list"

definition hm_wf :: "('k, 'v) hmap \<Rightarrow> bool" where
  "hm_wf m \<longleftrightarrow> distinct (map fst m)"

definition hm_keys :: "('k, 'v) hmap \<Rightarrow> 'k set" where
  "hm_keys m = fst ` set m"

definition hm_get :: "('k, 'v) hmap \<Rightarrow> 'k \<Rightarrow> 'v option" where
  "hm_get m k = map_of m k"

definition hm_contains :: "('k, 'v) hmap \<Rightarrow> 'k \<Rightarrow> bool" where
  "hm_contains m k \<longleftrightarrow> hm_get m k \<noteq> None"

definition hm_remove :: "'k \<Rightarrow> ('k, 'v) hmap \<Rightarrow> ('k, 'v) hmap" where
  "hm_remove k m = filter (\<lambda>p. fst p \<noteq> k) m"

definition hm_insert :: "'k \<Rightarrow> 'v \<Rightarrow> ('k, 'v) hmap \<Rightarrow> ('k, 'v) hmap" where
  "hm_insert k v m = (k, v) # hm_remove k m"

definition hm_retain :: "('k \<Rightarrow> 'v \<Rightarrow> bool) \<Rightarrow> ('k, 'v) hmap \<Rightarrow> ('k, 'v) hmap" where
  "hm_retain P m = filter (\<lambda>(k, v). P k v) m"

definition hm_len :: "('k, 'v) hmap \<Rightarrow> nat" where
  "hm_len m = length m"

definition hm_from_list :: "('k \<times> 'v) list \<Rightarrow> ('k, 'v) hmap" where
  "hm_from_list xs = fold (\<lambda>(k, v). hm_insert k v) xs []"

subsection \<open>The interface\<close>

locale hash_map =
  fixes wf :: "'m \<Rightarrow> bool"
    and keys :: "'m \<Rightarrow> 'k set"
    and get :: "'m \<Rightarrow> 'k \<Rightarrow> 'v option"
    and insert_kv :: "'k \<Rightarrow> 'v \<Rightarrow> 'm \<Rightarrow> 'm"
    and remove :: "'k \<Rightarrow> 'm \<Rightarrow> 'm"
    and retain :: "('k \<Rightarrow> 'v \<Rightarrow> bool) \<Rightarrow> 'm \<Rightarrow> 'm"
    and len :: "'m \<Rightarrow> nat"
    and empty :: "'m"
  assumes wf_empty: "wf empty"
    and wf_insert: "wf m \<Longrightarrow> wf (insert_kv k v m)"
    and wf_remove: "wf m \<Longrightarrow> wf (remove k m)"
    and wf_retain: "wf m \<Longrightarrow> wf (retain P m)"
    and get_empty: "get empty k = None"
    and get_insert: "get (insert_kv k v m) k' = (if k' = k then Some v else get m k')"
    and get_remove: "get (remove k m) k' = (if k' = k then None else get m k')"
    and get_retain: "wf m \<Longrightarrow> get (retain P m) k =
      (case get m k of None \<Rightarrow> None | Some v \<Rightarrow> if P k v then Some v else None)"
    and keys_get: "k \<in> keys m \<longleftrightarrow> get m k \<noteq> None"
    and keys_finite: "finite (keys m)"
    and len_card: "wf m \<Longrightarrow> len m = card (keys m)"
begin

lemma keys_insert: "keys (insert_kv k v m) = insert k (keys m)"
  by (auto simp: keys_get get_insert split: if_splits)

lemma keys_remove: "keys (remove k m) = keys m - {k}"
  by (auto simp: keys_get get_remove split: if_splits)

lemma keys_retain: "wf m \<Longrightarrow> keys (retain P m) \<subseteq> keys m"
  by (auto simp: keys_get get_retain split: option.splits if_splits)

lemma len_insert_new: "wf m \<Longrightarrow> get m k = None \<Longrightarrow> len (insert_kv k v m) = Suc (len m)"
  by (simp add: len_card wf_insert keys_insert keys_finite keys_get)

lemma len_insert_old: "wf m \<Longrightarrow> get m k \<noteq> None \<Longrightarrow> len (insert_kv k v m) = len m"
  by (simp add: len_card wf_insert keys_insert keys_get insert_absorb)

lemma len_insert_le: "wf m \<Longrightarrow> len (insert_kv k v m) \<le> Suc (len m)"
  by (cases "get m k") (simp_all add: len_insert_new len_insert_old)

lemma len_remove_le: "wf m \<Longrightarrow> len (remove k m) \<le> len m"
  by (simp add: len_card wf_remove keys_remove keys_finite card_mono)

lemma len_retain_le: "wf m \<Longrightarrow> len (retain P m) \<le> len m"
  by (simp add: len_card wf_retain keys_finite card_mono keys_retain)

end

subsection \<open>The association list provides it\<close>

lemma map_of_filter_fst: "map_of (filter (\<lambda>p. fst p \<noteq> k) m) k' = (if k' = k then None else map_of m k')"
  by (induction m) auto

lemma map_of_filter_wf: "distinct (map fst m) \<Longrightarrow> map_of (filter (\<lambda>(k, v). P k v) m) k =
    (case map_of m k of None \<Rightarrow> None | Some v \<Rightarrow> if P k v then Some v else None)"
  by (induction m) (auto split: option.splits simp: map_of_eq_None_iff image_iff dest: map_of_SomeD)

interpretation hm: hash_map hm_wf hm_keys hm_get hm_insert hm_remove hm_retain hm_len "[]"
proof unfold_locales
  fix m :: "('k, 'v) hmap" and P :: "'k \<Rightarrow> 'v \<Rightarrow> bool" and k :: 'k
  assume "hm_wf m"
  then show "hm_get (hm_retain P m) k =
      (case hm_get m k of None \<Rightarrow> None | Some v \<Rightarrow> if P k v then Some v else None)"
    unfolding hm_wf_def hm_get_def hm_retain_def by (rule map_of_filter_wf)
next
  fix m :: "('k, 'v) hmap"
  assume "hm_wf m"
  then show "hm_len m = card (hm_keys m)"
    by (simp add: hm_wf_def hm_len_def hm_keys_def distinct_card flip: set_map)
qed (auto simp: hm_wf_def hm_keys_def hm_get_def hm_insert_def hm_remove_def hm_retain_def
      map_of_filter_fst map_of_eq_None_iff distinct_map_filter)

lemmas hm_wf_intros [simp, intro] = hm.wf_empty hm.wf_insert hm.wf_remove hm.wf_retain

lemmas hm_simps [simp] = hm.get_empty hm.get_insert hm.get_remove hm.keys_insert hm.keys_remove

lemma hm_wf_from_list [simp]: "hm_wf (hm_from_list xs)"
proof -
  have "hm_wf m \<Longrightarrow> hm_wf (fold (\<lambda>(k, v). hm_insert k v) xs m)" for m :: "('a, 'b) hmap"
    by (induction xs arbitrary: m) auto
  then show ?thesis by (simp add: hm_from_list_def)
qed

lemma hm_get_in_set: "hm_get m k = Some v \<Longrightarrow> (k, v) \<in> set m"
  by (simp add: hm_get_def map_of_SomeD)

lemma hm_in_set_get: "hm_wf m \<Longrightarrow> (k, v) \<in> set m \<Longrightarrow> hm_get m k = Some v"
  by (simp add: hm_get_def hm_wf_def)

lemma hm_get_from_list:
  "distinct (map fst xs) \<Longrightarrow> hm_get (hm_from_list xs) k = map_of xs k"
proof -
  have "distinct (map fst xs) \<Longrightarrow> hm_get (fold (\<lambda>(k, v). hm_insert k v) xs m) k =
      (case map_of xs k of None \<Rightarrow> hm_get m k | Some v \<Rightarrow> Some v)" for m :: "('a, 'b) hmap"
    by (induction xs arbitrary: m) (auto split: option.splits simp: map_of_eq_None_iff image_iff dest: map_of_SomeD)
  then show "distinct (map fst xs) \<Longrightarrow> hm_get (hm_from_list xs) k = map_of xs k"
    by (simp add: hm_from_list_def split: option.splits)
qed

end
