(* ===== verification/Root_Action.thy ===== *)
theory Root_Action
  imports Apollo_Prelude
begin

text \<open>
  The action vocabulary: \<open>engine/action_types.rs\<close>, the decision reasons of
  \<open>engine/audit_types.rs\<close>, the sysctl ranges of \<open>engine/safety.rs\<close> and the clamp of
  \<open>engine/sysctl_limits.rs\<close>. The sealed constructor of sysctl actions parses and prints
  decimal numbers; both directions of Rust's \<open>i64\<close> conversion are modelled.
\<close>

datatype decision_reason =
    WaitGraphBlocker | InteractiveFocus | CausalInference | OutcomeIneffective | IpcProtected
  | AnomalyDetected | IoBurst | WakeupVampire | DramBandwidth | MLWorkload | DisplayPipeline
  | CompositorPriority | PressureContext | MemoryBudget | CriticalBypass | HysteresisRecovery
  | UserActiveSkip | HrpoSkip | SwarmThrottling | GraduatedIdle | ThreadQoSRouting
  | OtherReason string

record set_sysctl_action =
  ssa_key :: string
  ssa_value :: string
  ssa_reason :: string
  ssa_decision_reason :: decision_reason

text \<open>Constructor arguments are in the order of the variant's fields.\<close>

datatype root_action =
    BoostProcess u32 string string decision_reason u64 u64
  | ThrottleProcess u32 string bool string decision_reason u64 u64
  | FreezeProcess u32 string string decision_reason u64 u64
  | UnfreezeProcess u32 string string decision_reason u64 u64
  | SetSysctl set_sysctl_action
  | SetMemorystatus u32 i32 string decision_reason
  | ToggleSpotlight bool string decision_reason
  | QuarantineDaemon string bool string decision_reason
  | SetThreadQoS u32 string u32 string string decision_reason "u32 option" u64 u64

definition default_decision_reason :: decision_reason where
  "default_decision_reason = PressureContext"

fun action_class :: "root_action \<Rightarrow> string" where
  "action_class (BoostProcess _ _ _ _ _ _) = ''boost''"
| "action_class (ThrottleProcess _ _ _ _ _ _ _) = ''throttle''"
| "action_class (FreezeProcess _ _ _ _ _ _) = ''freeze''"
| "action_class (UnfreezeProcess _ _ _ _ _ _) = ''unfreeze''"
| "action_class (SetSysctl _) = ''set_sysctl''"
| "action_class (SetMemorystatus _ _ _ _) = ''set_memorystatus''"
| "action_class (ToggleSpotlight _ _ _) = ''toggle_spotlight''"
| "action_class (QuarantineDaemon _ _ _ _) = ''quarantine_daemon''"
| "action_class (SetThreadQoS _ _ _ _ _ _ _ _ _) = ''set_thread_qos''"

fun action_decision_reason :: "root_action \<Rightarrow> decision_reason" where
  "action_decision_reason (BoostProcess _ _ _ d _ _) = d"
| "action_decision_reason (ThrottleProcess _ _ _ _ d _ _) = d"
| "action_decision_reason (FreezeProcess _ _ _ d _ _) = d"
| "action_decision_reason (UnfreezeProcess _ _ _ d _ _) = d"
| "action_decision_reason (SetMemorystatus _ _ _ d) = d"
| "action_decision_reason (ToggleSpotlight _ _ d) = d"
| "action_decision_reason (QuarantineDaemon _ _ _ d) = d"
| "action_decision_reason (SetThreadQoS _ _ _ _ _ d _ _ _) = d"
| "action_decision_reason (SetSysctl a) = ssa_decision_reason a"

fun action_reason :: "root_action \<Rightarrow> string" where
  "action_reason (BoostProcess _ _ r _ _ _) = r"
| "action_reason (ThrottleProcess _ _ _ r _ _ _) = r"
| "action_reason (FreezeProcess _ _ r _ _ _) = r"
| "action_reason (UnfreezeProcess _ _ r _ _ _) = r"
| "action_reason (SetMemorystatus _ _ r _) = r"
| "action_reason (ToggleSpotlight _ r _) = r"
| "action_reason (QuarantineDaemon _ _ r _) = r"
| "action_reason (SetThreadQoS _ _ _ _ r _ _ _ _) = r"
| "action_reason (SetSysctl a) = ssa_reason a"

fun identity_fields :: "root_action \<Rightarrow> (u32 \<times> string option \<times> u64 \<times> u64) option" where
  "identity_fields (ThrottleProcess pid name _ _ _ s us) = Some (pid, Some name, s, us)"
| "identity_fields (FreezeProcess pid name _ _ s us) = Some (pid, Some name, s, us)"
| "identity_fields (BoostProcess pid name _ _ s us) = Some (pid, Some name, s, us)"
| "identity_fields (SetThreadQoS pid name _ _ _ _ _ s us) = Some (pid, Some name, s, us)"
| "identity_fields (UnfreezeProcess pid name _ _ s us) = Some (pid, Some name, s, us)"
| "identity_fields (SetMemorystatus pid _ _ _) = Some (pid, None, 0, 0)"
| "identity_fields (SetSysctl _) = None"
| "identity_fields (ToggleSpotlight _ _ _) = None"
| "identity_fields (QuarantineDaemon _ _ _ _) = None"

definition throttle_full ::
  "u32 \<Rightarrow> string \<Rightarrow> bool \<Rightarrow> string \<Rightarrow> u64 \<Rightarrow> u64 \<Rightarrow> decision_reason \<Rightarrow> root_action" where
  "throttle_full pid name aggressive reason ss su d = ThrottleProcess pid name aggressive reason d ss su"

definition throttle :: "u32 \<Rightarrow> string \<Rightarrow> bool \<Rightarrow> string \<Rightarrow> decision_reason \<Rightarrow> root_action" where
  "throttle pid name aggressive reason d = throttle_full pid name aggressive reason 0 0 d"

definition freeze_full ::
  "u32 \<Rightarrow> string \<Rightarrow> string \<Rightarrow> u64 \<Rightarrow> u64 \<Rightarrow> decision_reason \<Rightarrow> root_action" where
  "freeze_full pid name reason ss su d = FreezeProcess pid name reason d ss su"

definition freeze :: "u32 \<Rightarrow> string \<Rightarrow> string \<Rightarrow> decision_reason \<Rightarrow> root_action" where
  "freeze pid name reason d = freeze_full pid name reason 0 0 d"

definition set_memorystatus :: "u32 \<Rightarrow> i32 \<Rightarrow> string \<Rightarrow> decision_reason \<Rightarrow> root_action" where
  "set_memorystatus pid priority reason d = SetMemorystatus pid priority reason d"

definition toggle_spotlight :: "bool \<Rightarrow> string \<Rightarrow> decision_reason \<Rightarrow> root_action" where
  "toggle_spotlight enabled reason d = ToggleSpotlight enabled reason d"

definition unfreeze_full ::
  "u32 \<Rightarrow> string \<Rightarrow> string \<Rightarrow> u64 \<Rightarrow> u64 \<Rightarrow> decision_reason \<Rightarrow> root_action" where
  "unfreeze_full pid name reason ss su d = UnfreezeProcess pid name reason d ss su"

text \<open>The process lookup of \<open>ProcessIdentity::from_pid\<close> reads the kernel: a parameter.\<close>

definition unfreeze ::
  "(u32 \<Rightarrow> (u64 \<times> u64) option) \<Rightarrow> u32 \<Rightarrow> string \<Rightarrow> string \<Rightarrow> decision_reason \<Rightarrow> root_action" where
  "unfreeze from_pid pid name reason d =
     (let (ss, su) = (case from_pid pid of Some i \<Rightarrow> i | None \<Rightarrow> (0, 0))
      in unfreeze_full pid name reason ss su d)"

subsection \<open>Decimal integers\<close>

definition digit_of_char :: "char \<Rightarrow> nat option" where
  "digit_of_char c = (let n = of_char c :: nat in if 48 \<le> n \<and> n \<le> 57 then Some (n - 48) else None)"

fun parse_digits :: "nat \<Rightarrow> string \<Rightarrow> nat option" where
  "parse_digits acc [] = Some acc"
| "parse_digits acc (c # cs) =
     (case digit_of_char c of None \<Rightarrow> None | Some d \<Rightarrow> parse_digits (10 * acc + d) cs)"

definition in_i64 :: "int \<Rightarrow> i64 option" where
  "in_i64 n = (if is_i64 n then Some n else None)"

text \<open>
  \<open>str::parse::<i64>\<close>: an optional sign, at least one digit, nothing else, in range. The
  standard library checks for overflow digit by digit; a magnitude only grows, so checking the
  final value accepts the same strings.
\<close>

definition parse_i64 :: "string \<Rightarrow> i64 option" where
  "parse_i64 s =
     (case s of
        [] \<Rightarrow> None
      | c # cs \<Rightarrow>
          if c = CHR ''-'' then
            (if cs = [] then None
             else case parse_digits 0 cs of None \<Rightarrow> None | Some n \<Rightarrow> in_i64 (- int n))
          else if c = CHR ''+'' then
            (if cs = [] then None
             else case parse_digits 0 cs of None \<Rightarrow> None | Some n \<Rightarrow> in_i64 (int n))
          else (case parse_digits 0 s of None \<Rightarrow> None | Some n \<Rightarrow> in_i64 (int n)))"

definition char_of_digit :: "nat \<Rightarrow> char" where
  "char_of_digit d = char_of (48 + d)"

fun nat_to_string :: "nat \<Rightarrow> string" where
  "nat_to_string n =
     (if n < 10 then [char_of_digit n] else nat_to_string (n div 10) @ [char_of_digit (n mod 10)])"

declare nat_to_string.simps [simp del]

definition i64_to_string :: "i64 \<Rightarrow> string" where
  "i64_to_string n = (if n < 0 then CHR ''-'' # nat_to_string (nat (- n)) else nat_to_string (nat n))"

lemma digit_of_char_of_digit [simp]: "d < 10 \<Longrightarrow> digit_of_char (char_of_digit d) = Some d"
  by (simp add: digit_of_char_def char_of_digit_def Let_def)

lemma char_of_digit_sign: "d < 10 \<Longrightarrow> char_of_digit d \<noteq> CHR ''-'' \<and> char_of_digit d \<noteq> CHR ''+''"
  using digit_of_char_of_digit [of d] by (auto simp: digit_of_char_def)

lemma parse_digits_append: "parse_digits acc (xs @ ys) =
    (case parse_digits acc xs of None \<Rightarrow> None | Some n \<Rightarrow> parse_digits n ys)"
  by (induction xs arbitrary: acc) (auto split: option.splits)

lemma parse_nat_to_string: "parse_digits 0 (nat_to_string n) = Some n"
proof (induction n rule: nat_to_string.induct)
  case (1 n)
  then show ?case
    by (subst nat_to_string.simps) (auto simp: parse_digits_append)
qed

lemma nat_to_string_head:
  "\<exists>d cs. d < 10 \<and> nat_to_string n = char_of_digit d # cs"
proof (induction n rule: nat_to_string.induct)
  case (1 n)
  then show ?case
    by (cases "n < 10") (auto simp: nat_to_string.simps [of n])
qed

lemma parse_i64_to_string [simp]: "is_i64 n \<Longrightarrow> parse_i64 (i64_to_string n) = Some n"
proof -
  assume r: "is_i64 n"
  obtain d cs where d: "d < 10" and s: "nat_to_string (nat n) = char_of_digit d # cs"
    using nat_to_string_head by blast
  have "nat_to_string (nat (- n)) \<noteq> []" using nat_to_string_head [of "nat (- n)"] by auto
  then show ?thesis
    using r d char_of_digit_sign [OF d] parse_nat_to_string [of "nat n"]
    by (auto simp: parse_i64_def i64_to_string_def parse_nat_to_string s in_i64_def)
qed

subsection \<open>Sealed sysctl actions\<close>

record sysctl_range =
  sr_key :: string
  sr_min :: i64
  sr_max :: i64

definition rng :: "string \<Rightarrow> i64 \<Rightarrow> i64 \<Rightarrow> sysctl_range" where
  "rng k lo hi = \<lparr> sr_key = k, sr_min = lo, sr_max = hi \<rparr>"

definition allowlisted_sysctls_with_ranges :: "sysctl_range list" where
  "allowlisted_sysctls_with_ranges = [
     rng ''debug.lowpri_throttle_enabled'' 0 1,
     rng ''net.inet.tcp.sendspace'' 4096 1048576,
     rng ''net.inet.tcp.recvspace'' 4096 1048576,
     rng ''net.inet.tcp.delayed_ack'' 0 3,
     rng ''net.inet.tcp.min_iaj_win'' 0 64,
     rng ''net.inet.tcp.win_scale_factor'' 1 14,
     rng ''net.inet.tcp.autorcvbufmax'' 65536 16777216,
     rng ''net.inet.tcp.autosndbufmax'' 65536 16777216,
     rng ''vm.compressor_poll_interval'' 1 1000,
     rng ''vm.compressor_eval_period_in_msecs'' 100 500,
     rng ''vm.compressor_sample_min_in_msecs'' 250 1000,
     rng ''vm.compressor_sample_min'' 0 1000,
     rng ''kern.maxvnodes'' 10000 1000000,
     rng ''kern.maxfiles'' 65536 1048576,
     rng ''kern.maxfilesperproc'' 2048 524288,
     rng ''kern.ipc.somaxconn'' 128 65535,
     rng ''kern.ipc.maxsockbuf'' 65536 67108864,
     rng ''iogpu.wired_limit_mb'' 256 65536,
     rng ''debug.iogpu.wired_limit'' 256 65536 ]"

definition allowlisted_sysctls :: "string set" where
  "allowlisted_sysctls = set (map sr_key allowlisted_sysctls_with_ranges)"

definition clamp_to_allowed_range :: "string \<Rightarrow> i64 \<Rightarrow> i64" where
  "clamp_to_allowed_range key proposed =
     (case find (\<lambda>r. sr_key r = key) allowlisted_sysctls_with_ranges of
        Some r \<Rightarrow> max (sr_min r) (min (sr_max r) proposed)
      | None \<Rightarrow> proposed)"

definition new_clamped :: "string \<Rightarrow> string \<Rightarrow> string \<Rightarrow> decision_reason \<Rightarrow> set_sysctl_action" where
  "new_clamped key value reason d =
     (let clamped =
        (case parse_i64 value of
           Some n \<Rightarrow>
             (let limited = clamp_to_allowed_range key n
              in if limited \<noteq> n then i64_to_string limited else value)
         | None \<Rightarrow> value)
      in \<lparr> ssa_key = key, ssa_value = clamped, ssa_reason = reason, ssa_decision_reason = d \<rparr>)"

definition set_sysctl :: "string \<Rightarrow> string \<Rightarrow> string \<Rightarrow> decision_reason \<Rightarrow> root_action" where
  "set_sysctl key value reason d = SetSysctl (new_clamped key value reason d)"

lemma allowlist_ranges_sane:
  "r \<in> set allowlisted_sysctls_with_ranges \<Longrightarrow> sr_min r \<le> sr_max r \<and> is_i64 (sr_min r) \<and> is_i64 (sr_max r)"
  by (auto simp: allowlisted_sysctls_with_ranges_def rng_def is_i64_def)

lemma clamp_in_range:
  assumes "find (\<lambda>r. sr_key r = key) allowlisted_sysctls_with_ranges = Some r"
  shows "sr_min r \<le> clamp_to_allowed_range key n" "clamp_to_allowed_range key n \<le> sr_max r"
    "is_i64 (clamp_to_allowed_range key n)"
proof -
  have "r \<in> set allowlisted_sysctls_with_ranges" using assms by (auto simp: find_Some_iff)
  note sane = allowlist_ranges_sane [OF this]
  show "sr_min r \<le> clamp_to_allowed_range key n" "clamp_to_allowed_range key n \<le> sr_max r"
    using assms sane by (auto simp: clamp_to_allowed_range_def)
  then show "is_i64 (clamp_to_allowed_range key n)" using sane by (auto simp: is_i64_def)
qed

lemma parse_i64_range: "parse_i64 s = Some n \<Longrightarrow> is_i64 n"
  by (auto simp: parse_i64_def in_i64_def split: list.splits if_splits option.splits)

lemma find_allowlist_None: "find (\<lambda>r. sr_key r = key) allowlisted_sysctls_with_ranges = None \<longleftrightarrow>
    key \<notin> allowlisted_sysctls"
  by (auto simp: find_None_iff allowlisted_sysctls_def)

text \<open>
  C9: the seal on sysctl actions. Whatever key and value a caller proposes, the constructed
  action keeps the key, and it carries either a non-numeric value exactly as proposed, or a
  number; for an allowlisted key that number lies in the key's range and is the proposed one
  whenever that was in range, and for any other key it is the proposed text unchanged.
\<close>

theorem sysctl_seal:
  "ssa_key (new_clamped key value reason d) = key \<and>
   (case parse_i64 value of
      None \<Rightarrow> ssa_value (new_clamped key value reason d) = value
    | Some n \<Rightarrow>
        (case find (\<lambda>r. sr_key r = key) allowlisted_sysctls_with_ranges of
           None \<Rightarrow> ssa_value (new_clamped key value reason d) = value
         | Some r \<Rightarrow>
             (\<exists>m. parse_i64 (ssa_value (new_clamped key value reason d)) = Some m \<and>
                sr_min r \<le> m \<and> m \<le> sr_max r \<and> (sr_min r \<le> n \<and> n \<le> sr_max r \<longrightarrow> m = n))))"
proof (cases "parse_i64 value")
  case None
  then show ?thesis by (simp add: new_clamped_def)
next
  case (Some n)
  show ?thesis
  proof (cases "find (\<lambda>r. sr_key r = key) allowlisted_sysctls_with_ranges")
    case None
    then show ?thesis using Some by (simp add: new_clamped_def clamp_to_allowed_range_def)
  next
    case f: (Some r)
    have "parse_i64 (ssa_value (new_clamped key value reason d)) = Some (clamp_to_allowed_range key n)"
      using Some clamp_in_range(3) [OF f] by (auto simp: new_clamped_def Let_def)
    moreover have "sr_min r \<le> n \<and> n \<le> sr_max r \<longrightarrow> clamp_to_allowed_range key n = n"
      using f by (auto simp: clamp_to_allowed_range_def)
    ultimately show ?thesis using Some f clamp_in_range [OF f, of n] by (simp add: new_clamped_def)
  qed
qed

theorem sysctl_seal_witness:
  "parse_i64 ''4194304'' = Some 4194304 \<and>
   ssa_key (new_clamped ''net.inet.tcp.sendspace'' ''4194304'' ''r'' IoBurst) = ''net.inet.tcp.sendspace''"
  using sysctl_seal [of "''net.inet.tcp.sendspace''" "''4194304''" "''r''" IoBurst]
  by (simp add: parse_i64_def digit_of_char_def in_i64_def is_i64_def)

end
