(* ===== verification/Recently_Applied.thy ===== *)
theory Recently_Applied
  imports Hash_Map Root_Action
begin

text \<open>
  \<open>engine/recently_applied.rs\<close>: the cross-cycle cache of applied actions, its cache keys and
  its two-strike eviction of dead processes. The clocks (\<open>Instant::now\<close>, the wall clock,
  the uptime) are arguments; the decoded contents of the cache file are an argument of
  \<open>load_records\<close>, whose checks are those of \<open>load_from_disk\<close>.
\<close>

datatype governor_decision = GovAllow | GovThrottle | GovFreeze | GovKill

datatype cached_action_kind =
  KThrottle | KFreeze | KBoost | KUnfreeze | KSetMemorystatus | KSetThreadQoS

type_synonym pid_key = "u32 \<times> cached_action_kind \<times> u32"

definition thread_qos_discriminator :: "u32 \<Rightarrow> string \<Rightarrow> u32" where
  "thread_qos_discriminator thread_index tier =
     (let tier_code = (if tier = ''interactive'' then 3 else if tier = ''background'' then 1 else 2)
      in push_bit 2 thread_index OR tier_code)"

fun from_governor :: "governor_decision \<Rightarrow> cached_action_kind option" where
  "from_governor GovThrottle = Some KThrottle"
| "from_governor GovFreeze = Some KFreeze"
| "from_governor GovKill = Some KFreeze"
| "from_governor GovAllow = None"

fun from_root_action :: "root_action \<Rightarrow> pid_key option" where
  "from_root_action (ThrottleProcess pid _ _ _ _ _ _) = Some (pid, KThrottle, 0)"
| "from_root_action (FreezeProcess pid _ _ _ _ _) = Some (pid, KFreeze, 0)"
| "from_root_action (UnfreezeProcess pid _ _ _ _ _) = Some (pid, KUnfreeze, 0)"
| "from_root_action (BoostProcess pid _ _ _ _ _) = Some (pid, KBoost, 0)"
| "from_root_action (SetMemorystatus pid _ _ _) = Some (pid, KSetMemorystatus, 0)"
| "from_root_action (SetThreadQoS pid _ ti tier _ _ _ _ _) =
     Some (pid, KSetThreadQoS, thread_qos_discriminator ti tier)"
| "from_root_action _ = None"

subsection \<open>The cache\<close>

record recently_applied =
  ra_map :: "(pid_key, instant) hmap"
  ra_ttl :: duration
  ra_capacity :: nat
  absence_strikes :: "(u32, u8) hmap"

definition MIN_ABSENCE_STRIKES :: u8 where
  "MIN_ABSENCE_STRIKES = 2"

definition ra_with_ttl :: "duration \<Rightarrow> recently_applied" where
  "ra_with_ttl ttl = \<lparr> ra_map = [], ra_ttl = ttl, ra_capacity = 5000, absence_strikes = [] \<rparr>"

definition ra_new :: recently_applied where
  "ra_new = ra_with_ttl (duration_from_secs 30)"

text \<open>The first entry, in iteration order, with the least instant (\<open>min_by_key\<close>).\<close>

fun oldest_entry :: "(pid_key, instant) hmap \<Rightarrow> (pid_key \<times> instant) option" where
  "oldest_entry [] = None"
| "oldest_entry (e # es) =
     (case oldest_entry es of None \<Rightarrow> Some e | Some b \<Rightarrow> if snd e \<le> snd b then Some e else Some b)"

definition evict_oldest :: "recently_applied \<Rightarrow> recently_applied" where
  "evict_oldest c =
     (case oldest_entry (ra_map c) of
        None \<Rightarrow> c
      | Some (k, _) \<Rightarrow> c\<lparr> ra_map := hm_remove k (ra_map c) \<rparr>)"

definition record_scoped ::
  "instant \<Rightarrow> u32 \<Rightarrow> cached_action_kind \<Rightarrow> u32 \<Rightarrow> recently_applied \<Rightarrow> recently_applied" where
  "record_scoped now pid kind disc c =
     (let c = (if hm_len (ra_map c) \<ge> ra_capacity c then evict_oldest c else c)
      in c\<lparr> ra_map := hm_insert (pid, kind, disc) now (ra_map c) \<rparr>)"

definition ra_record :: "instant \<Rightarrow> u32 \<Rightarrow> cached_action_kind \<Rightarrow> recently_applied \<Rightarrow> recently_applied" where
  "ra_record now pid kind c = record_scoped now pid kind 0 c"

definition is_recent_scoped ::
  "instant \<Rightarrow> u32 \<Rightarrow> cached_action_kind \<Rightarrow> u32 \<Rightarrow> recently_applied \<Rightarrow> bool" where
  "is_recent_scoped now pid kind disc c =
     (case hm_get (ra_map c) (pid, kind, disc) of
        Some t \<Rightarrow> now - t \<le> ra_ttl c
      | None \<Rightarrow> False)"

definition is_recent :: "instant \<Rightarrow> u32 \<Rightarrow> cached_action_kind \<Rightarrow> recently_applied \<Rightarrow> bool" where
  "is_recent now pid kind c = is_recent_scoped now pid kind 0 c"

definition record_governor ::
  "instant \<Rightarrow> u32 \<Rightarrow> governor_decision \<Rightarrow> recently_applied \<Rightarrow> recently_applied" where
  "record_governor now pid d c =
     (case from_governor d of Some k \<Rightarrow> ra_record now pid k c | None \<Rightarrow> c)"

definition is_recent_governor ::
  "instant \<Rightarrow> u32 \<Rightarrow> governor_decision \<Rightarrow> recently_applied \<Rightarrow> bool" where
  "is_recent_governor now pid d c =
     (case from_governor d of Some k \<Rightarrow> is_recent now pid k c | None \<Rightarrow> False)"

definition cleanup_expired :: "instant \<Rightarrow> recently_applied \<Rightarrow> nat \<times> recently_applied" where
  "cleanup_expired now c =
     (let m = hm_retain (\<lambda>_ t. now - t \<le> ra_ttl c) (ra_map c)
      in (hm_len (ra_map c) - hm_len m, c\<lparr> ra_map := m \<rparr>))"

definition ra_invalidate_all :: "recently_applied \<Rightarrow> recently_applied" where
  "ra_invalidate_all c = c\<lparr> ra_map := [] \<rparr>"

definition invalidate_pid :: "u32 \<Rightarrow> recently_applied \<Rightarrow> recently_applied" where
  "invalidate_pid pid c = c\<lparr> ra_map := hm_retain (\<lambda>k _. fst k \<noteq> pid) (ra_map c) \<rparr>"

definition strike :: "u32 list \<Rightarrow> u32 \<Rightarrow> (u32, u8) hmap \<Rightarrow> (u32, u8) hmap" where
  "strike live pid s =
     (if pid \<in> set live then hm_remove pid s
      else hm_insert pid (sat_add (case hm_get s pid of Some n \<Rightarrow> n | None \<Rightarrow> 0) 1) s)"

definition invalidate_dead_pids :: "u32 list \<Rightarrow> recently_applied \<Rightarrow> nat \<times> recently_applied" where
  "invalidate_dead_pids live c =
     (let cached = remdups (map (fst \<circ> fst) (ra_map c));
          s1 = fold (strike live) cached (absence_strikes c);
          s2 = hm_retain (\<lambda>pid _. pid \<in> set cached) s1;
          m = hm_retain (\<lambda>k _. case hm_get s2 (fst k) of Some n \<Rightarrow> n < MIN_ABSENCE_STRIKES | None \<Rightarrow> True)
                (ra_map c)
      in (hm_len (ra_map c) - hm_len m, c\<lparr> ra_map := m, absence_strikes := s2 \<rparr>))"

subsection \<open>Persistence\<close>

record persist_record =
  pr_pid :: u32
  pr_kind :: cached_action_kind
  pr_discriminator :: u32
  pr_wall_unix_sec :: u64

datatype restore_status =
  RsMissing | RsRestoredN u32 | RsDiscardedCorrupt | RsDiscardedClockDelta | RsDiscardedBootCrossed

definition to_persist_records :: "u64 \<Rightarrow> instant \<Rightarrow> recently_applied \<Rightarrow> persist_record list" where
  "to_persist_records now_unix now c =
     map (\<lambda>((pid, kind, disc), t).
        \<lparr> pr_pid = pid, pr_kind = kind, pr_discriminator = disc,
          pr_wall_unix_sec = sat_sub now_unix (of_nat ((now - t) div 1000000000)) \<rparr>) (ra_map c)"

definition restore_one ::
  "u64 \<Rightarrow> instant \<Rightarrow> persist_record \<Rightarrow> u32 \<times> recently_applied \<Rightarrow> u32 \<times> recently_applied" where
  "restore_one now_unix now r st =
     (let (restored, c) = st; age = unat (sat_sub now_unix (pr_wall_unix_sec r))
      in if age > ra_ttl c div 1000000000 then st
         else
           (let at_entry = (if age * 1000000000 \<le> now then now - age * 1000000000 else now)
            in (restored + 1,
                c\<lparr> ra_map := hm_insert (pr_pid r, pr_kind r, pr_discriminator r) at_entry (ra_map c) \<rparr>)))"

definition restore_from_records ::
  "u64 \<Rightarrow> instant \<Rightarrow> persist_record list \<Rightarrow> recently_applied \<Rightarrow> u32 \<times> recently_applied" where
  "restore_from_records now_unix now rs c = fold (restore_one now_unix now) rs (0, c)"

text \<open>\<open>None\<close>: no file; \<open>Some None\<close>: the file does not parse.\<close>

definition load_records ::
  "u64 \<Rightarrow> instant \<Rightarrow> u64 \<Rightarrow> persist_record list option option \<Rightarrow> recently_applied \<times> restore_status" where
  "load_records now_unix now uptime content =
     (case content of
        None \<Rightarrow> (ra_new, RsMissing)
      | Some None \<Rightarrow> (ra_new, RsDiscardedCorrupt)
      | Some (Some rs) \<Rightarrow>
          if (\<exists>r \<in> set rs. pr_wall_unix_sec r > now_unix + 15) then (ra_new, RsDiscardedClockDelta)
          else
            (let oldest = (if rs = [] then now_unix else Min (set (map pr_wall_unix_sec rs)));
                 record_age = sat_sub now_unix oldest
             in if uptime > 0 \<and> record_age > uptime then (ra_new, RsDiscardedBootCrossed)
                else (let (n, c) = restore_from_records now_unix now rs ra_new in (c, RsRestoredN n))))"

subsection \<open>The invariant\<close>

definition ra_inv :: "recently_applied \<Rightarrow> bool" where
  "ra_inv c \<longleftrightarrow> hm_wf (ra_map c) \<and> hm_wf (absence_strikes c)"

lemma oldest_entry_None: "oldest_entry m = None \<longleftrightarrow> m = []"
  by (cases m) (auto split: option.splits)

lemma oldest_entry_least:
  "oldest_entry m = Some e \<Longrightarrow> e \<in> set m \<and> (\<forall>x \<in> set m. snd e \<le> snd x)"
proof (induction m arbitrary: e)
  case Nil
  then show ?case by simp
next
  case (Cons x m)
  show ?case
  proof (cases "oldest_entry m")
    case None
    then show ?thesis using Cons.prems by (simp add: oldest_entry_None)
  next
    case (Some b)
    then show ?thesis
      using Cons.prems Cons.IH [OF Some] by (fastforce split: if_splits)
  qed
qed

lemma hm_wf_strikes [simp]: "hm_wf s \<Longrightarrow> hm_wf (fold (strike live) ps s)"
  by (induction ps arbitrary: s) (auto simp: strike_def)

lemma ra_inv_new [simp]: "ra_inv (ra_with_ttl ttl)"
  by (simp add: ra_inv_def ra_with_ttl_def)

lemma ra_inv_record: "ra_inv c \<Longrightarrow> ra_inv (record_scoped now pid kind disc c)"
  by (auto simp: ra_inv_def record_scoped_def evict_oldest_def Let_def split: option.splits)

lemma ra_inv_invalidate_dead: "ra_inv c \<Longrightarrow> ra_inv (snd (invalidate_dead_pids live c))"
  by (auto simp: ra_inv_def invalidate_dead_pids_def Let_def)

text \<open>Recording never grows a cache beyond its capacity: a full cache gives up its oldest entry.\<close>

lemma record_scoped_bound:
  assumes "ra_inv c" and "0 < ra_capacity c" and "hm_len (ra_map c) \<le> ra_capacity c"
  shows "hm_len (ra_map (record_scoped now pid kind disc c)) \<le> ra_capacity c"
proof (cases "hm_len (ra_map c) \<ge> ra_capacity c")
  case True
  then have "ra_map c \<noteq> []" using assms(2) by (auto simp: hm_len_def)
  then obtain k t where kt: "oldest_entry (ra_map c) = Some (k, t)"
    using oldest_entry_None [of "ra_map c"] by (cases "oldest_entry (ra_map c)") auto
  have wf: "hm_wf (ra_map c)" using assms(1) by (simp add: ra_inv_def)
  have "hm_get (ra_map c) k = Some t"
    using oldest_entry_least [OF kt] hm_in_set_get [OF wf] by blast
  then have "k \<in> hm_keys (ra_map c)" by (simp add: hm.keys_get)
  then have "card (hm_keys (ra_map c) - {k}) < card (hm_keys (ra_map c))"
    by (rule card_Diff1_less [OF hm.keys_finite])
  then have "hm_len (hm_remove k (ra_map c)) < hm_len (ra_map c)"
    using wf by (simp only: hm.len_card hm.wf_remove hm.keys_remove)
  then show ?thesis
    using True kt wf assms(3) hm.len_insert_le [of "hm_remove k (ra_map c)" "(pid, kind, disc)" now]
    by (simp add: record_scoped_def evict_oldest_def)
next
  case False
  then show ?thesis
    using assms hm.len_insert_le [of "ra_map c" "(pid, kind, disc)" now]
    by (simp add: record_scoped_def ra_inv_def)
qed

subsection \<open>The two-strike guard\<close>

abbreviation sweep :: "u32 list \<Rightarrow> recently_applied \<Rightarrow> recently_applied" where
  "sweep live c \<equiv> snd (invalidate_dead_pids live c)"

lemma strikes_get:
  "distinct ps \<Longrightarrow> hm_get (fold (strike live) ps s) pid =
     (if pid \<in> set ps then
        (if pid \<in> set live then None
         else Some (sat_add (case hm_get s pid of Some n \<Rightarrow> n | None \<Rightarrow> 0) 1))
      else hm_get s pid)"
  by (induction ps arbitrary: s) (auto simp: strike_def split: option.splits)

definition cached_pid :: "recently_applied \<Rightarrow> u32 \<Rightarrow> bool" where
  "cached_pid c pid \<longleftrightarrow> pid \<in> set (map (fst \<circ> fst) (ra_map c))"

lemma cached_pid_get: "hm_get (ra_map c) k \<noteq> None \<Longrightarrow> cached_pid c (fst k)"
  by (force simp: cached_pid_def dest: hm_get_in_set)

lemma sweep_strikes:
  assumes "ra_inv c"
  shows "hm_get (absence_strikes (sweep live c)) pid =
    (if cached_pid c pid \<and> pid \<notin> set live
     then Some (sat_add (case hm_get (absence_strikes c) pid of Some n \<Rightarrow> n | None \<Rightarrow> 0) 1)
     else None)"
  using assms
  by (auto simp: invalidate_dead_pids_def Let_def hm.get_retain ra_inv_def strikes_get cached_pid_def
      split: option.splits)

lemma sweep_get:
  assumes "ra_inv c"
  shows "hm_get (ra_map (sweep live c)) k =
    (case hm_get (absence_strikes (sweep live c)) (fst k) of
       None \<Rightarrow> hm_get (ra_map c) k
     | Some n \<Rightarrow> if n < MIN_ABSENCE_STRIKES then hm_get (ra_map c) k else None)"
proof -
  let ?s = "absence_strikes (sweep live c)"
  have "ra_map (sweep live c) = hm_retain (\<lambda>k _. case hm_get ?s (fst k) of
      Some n \<Rightarrow> n < MIN_ABSENCE_STRIKES | None \<Rightarrow> True) (ra_map c)"
    by (simp add: invalidate_dead_pids_def Let_def)
  then show ?thesis
    using assms by (simp only:) (auto simp: hm.get_retain ra_inv_def split: option.splits)
qed

lemma sweeps_inv: "ra_inv c \<Longrightarrow> ra_inv (fold sweep lives c)"
  by (induction lives arbitrary: c) (auto intro: ra_inv_invalidate_dead)

definition absent_twice :: "u32 \<Rightarrow> u32 list list \<Rightarrow> bool" where
  "absent_twice pid lives \<longleftrightarrow>
     (\<exists>i. Suc i < length lives \<and> pid \<notin> set (lives ! i) \<and> pid \<notin> set (lives ! Suc i))"

lemma absent_twice_snoc:
  "absent_twice pid (lives @ [l]) \<longleftrightarrow>
     absent_twice pid lives \<or> (lives \<noteq> [] \<and> pid \<notin> set (last lives) \<and> pid \<notin> set l)"
proof
  assume "absent_twice pid (lives @ [l])"
  then obtain i where i: "i < length lives" "pid \<notin> set ((lives @ [l]) ! i)" "pid \<notin> set ((lives @ [l]) ! Suc i)"
    by (auto simp: absent_twice_def)
  show "absent_twice pid lives \<or> (lives \<noteq> [] \<and> pid \<notin> set (last lives) \<and> pid \<notin> set l)"
  proof (cases "Suc i < length lives")
    case True
    then show ?thesis using i by (auto simp: absent_twice_def nth_append)
  next
    case False
    then have "i = length lives - 1" "lives \<noteq> []" using i(1) by auto
    then show ?thesis using i by (auto simp: nth_append last_conv_nth)
  qed
next
  assume "absent_twice pid lives \<or> (lives \<noteq> [] \<and> pid \<notin> set (last lives) \<and> pid \<notin> set l)"
  then show "absent_twice pid (lives @ [l])"
  proof
    assume "absent_twice pid lives"
    then obtain i where i: "Suc i < length lives" "pid \<notin> set (lives ! i)" "pid \<notin> set (lives ! Suc i)"
      by (auto simp: absent_twice_def)
    then show ?thesis
      unfolding absent_twice_def by (intro exI [of _ i]) (simp add: nth_append)
  next
    assume "lives \<noteq> [] \<and> pid \<notin> set (last lives) \<and> pid \<notin> set l"
    then show ?thesis
      unfolding absent_twice_def
      by (intro exI [of _ "length lives - 1"]) (auto simp: nth_append last_conv_nth)
  qed
qed

lemma sweeps_state:
  assumes "ra_inv c" and "absence_strikes c = []" and "hm_get (ra_map c) k = Some t"
  shows "hm_get (ra_map (fold sweep lives c)) k = (if absent_twice (fst k) lives then None else Some t)
    \<and> (\<not> absent_twice (fst k) lives \<longrightarrow> hm_get (absence_strikes (fold sweep lives c)) (fst k) =
         (if lives \<noteq> [] \<and> fst k \<notin> set (last lives) then Some 1 else None))"
proof (induction lives rule: rev_induct)
  case Nil
  then show ?case using assms by (simp add: absent_twice_def)
next
  case (snoc l lives)
  let ?c = "fold sweep lives c"
  have inv: "ra_inv ?c" by (rule sweeps_inv [OF assms(1)])
  note step = sweep_get [OF inv, of l k] sweep_strikes [OF inv, of l "fst k"]
  show ?case
  proof (cases "absent_twice (fst k) lives")
    case True
    then have "hm_get (ra_map ?c) k = None" using snoc.IH by simp
    then show ?thesis using True step by (simp add: absent_twice_snoc split: option.splits)
  next
    case False
    then have g: "hm_get (ra_map ?c) k = Some t"
      and s: "hm_get (absence_strikes ?c) (fst k) =
        (if lives \<noteq> [] \<and> fst k \<notin> set (last lives) then Some 1 else None)"
      using snoc.IH by simp_all
    have "cached_pid ?c (fst k)" using g by (intro cached_pid_get) simp
    then show ?thesis using False g s step
      by (auto simp: absent_twice_snoc MIN_ABSENCE_STRIKES_def sat_add_def)
  qed
qed

text \<open>
  the two-strike guard. However many sweeps of dead processes run, an entry recorded in a
  cache without pending strikes is dropped exactly when its process was missing from two
  consecutive snapshots of live processes; a single missing snapshot never drops it, and a
  process that is seen again starts over.
\<close>

theorem two_strike_eviction:
  assumes "ra_inv c" and "absence_strikes c = []"
  shows "hm_get (ra_map (fold sweep lives c)) k =
    (if absent_twice (fst k) lives then None else hm_get (ra_map c) k)"
proof (cases "hm_get (ra_map c) k")
  case (Some t)
  then show ?thesis using sweeps_state [OF assms Some] by simp
next
  case None
  have "hm_get (ra_map d) k = None \<Longrightarrow> ra_inv d \<Longrightarrow> hm_get (ra_map (fold sweep lives d)) k = None" for d
    by (induction lives arbitrary: d) (auto simp: sweep_get ra_inv_invalidate_dead split: option.splits)
  then show ?thesis using None assms(1) by simp
qed

theorem two_strike_eviction_witness:
  "hm_get (ra_map (fold sweep [[7], [], [7], []] (ra_record 5 7 KFreeze ra_new))) (7, KFreeze, 0) = Some 5"
  by (subst two_strike_eviction)
    (auto simp: ra_record_def ra_inv_record ra_new_def absent_twice_def less_Suc_eq nth_Cons'
      record_scoped_def hm_len_def ra_with_ttl_def ra_inv_def)

subsection \<open>Persist and restore\<close>

definition restored_instant :: "instant \<Rightarrow> duration \<Rightarrow> instant \<Rightarrow> instant option" where
  "restored_instant now ttl t =
     (let age = (now - t) div 1000000000
      in if age \<le> ttl div 1000000000 then Some (now - age * 1000000000) else None)"

abbreviation to_record :: "u64 \<Rightarrow> instant \<Rightarrow> pid_key \<times> instant \<Rightarrow> persist_record" where
  "to_record now_unix now \<equiv> (\<lambda>((pid, kind, disc), t).
      \<lparr> pr_pid = pid, pr_kind = kind, pr_discriminator = disc,
        pr_wall_unix_sec = sat_sub now_unix (of_nat ((now - t) div 1000000000)) \<rparr>)"

lemma persisted_age:
  fixes now_unix :: u64
  assumes "now div 1000000000 \<le> unat now_unix"
  shows "unat (sat_sub now_unix (sat_sub now_unix (of_nat ((now - t) div 1000000000)))) = (now - t) div 1000000000"
proof -
  have "(now - t) div 1000000000 \<le> now div 1000000000" by (simp add: div_le_mono)
  then have le: "(now - t) div 1000000000 \<le> unat now_unix" using assms by simp
  then have "(now - t) div 1000000000 < 2 ^ 64"
    using unat_bound [of now_unix] by (simp add: le_less_trans)
  then show ?thesis using le by (simp add: word_nat unat_of_nat)
qed

lemma restore_one_record:
  assumes "now div 1000000000 \<le> unat now_unix"
  shows "snd (restore_one now_unix now (to_record now_unix now (k, t)) st) =
    (case restored_instant now (ra_ttl (snd st)) t of
       None \<Rightarrow> snd st
     | Some a \<Rightarrow> (snd st)\<lparr> ra_map := hm_insert k a (ra_map (snd st)) \<rparr>)"
proof -
  have "(now - t) div 1000000000 * 1000000000 \<le> now - t" by simp
  then have "(now - t) div 1000000000 * 1000000000 \<le> now" by linarith
  then show ?thesis
    by (cases st; cases k)
      (simp add: restore_one_def restored_instant_def persisted_age [OF assms] Let_def)
qed

lemma restore_fold_get:
  assumes "now div 1000000000 \<le> unat now_unix" and "distinct (map fst m)"
  shows "hm_get (ra_map (snd (fold (restore_one now_unix now) (map (to_record now_unix now) m) st))) k =
    (case map_of m k of
       None \<Rightarrow> hm_get (ra_map (snd st)) k
     | Some t \<Rightarrow> (case restored_instant now (ra_ttl (snd st)) t of
         None \<Rightarrow> hm_get (ra_map (snd st)) k | Some a \<Rightarrow> Some a))"
  using assms(2)
proof (induction m arbitrary: st)
  case Nil
  then show ?case by simp
next
  case (Cons e m)
  obtain k' t where e: "e = (k', t)" by (cases e)
  define st' where "st' = restore_one now_unix now (to_record now_unix now (k', t)) st"
  have "k' \<notin> fst ` set m" using Cons.prems by (simp add: e)
  then have new: "map_of m k' = None" by (simp add: map_of_eq_None_iff)
  have st': "snd st' = (case restored_instant now (ra_ttl (snd st)) t of
       None \<Rightarrow> snd st | Some a \<Rightarrow> (snd st)\<lparr> ra_map := hm_insert k' a (ra_map (snd st)) \<rparr>)"
    unfolding st'_def by (rule restore_one_record [OF assms(1)])
  then have ttl: "ra_ttl (snd st') = ra_ttl (snd st)" by (simp split: option.splits)
  have "hm_get (ra_map (snd (fold (restore_one now_unix now) (map (to_record now_unix now) (e # m)) st))) k =
      hm_get (ra_map (snd (fold (restore_one now_unix now) (map (to_record now_unix now) m) st'))) k"
    by (simp add: e st'_def)
  also have "\<dots> = (case map_of m k of None \<Rightarrow> hm_get (ra_map (snd st')) k
     | Some t \<Rightarrow> (case restored_instant now (ra_ttl (snd st)) t of
         None \<Rightarrow> hm_get (ra_map (snd st')) k | Some a \<Rightarrow> Some a))"
    using Cons.IH [of st'] Cons.prems by (simp only: ttl list.map distinct.simps)
  also have "\<dots> = (case map_of (e # m) k of None \<Rightarrow> hm_get (ra_map (snd st)) k
     | Some t \<Rightarrow> (case restored_instant now (ra_ttl (snd st)) t of
         None \<Rightarrow> hm_get (ra_map (snd st)) k | Some a \<Rightarrow> Some a))"
    using new by (auto simp: e st' split: option.splits)
  finally show ?case .
qed

text \<open>
  writing the cache out and reading it back in the same second. Every entry whose age in
  whole seconds is within the TTL comes back under its own key, with its age rounded down to
  whole seconds; every other entry is dropped, and nothing else appears. The wall clock is
  only assumed to be past the monotonic clock's reading.
\<close>

theorem persist_restore_roundtrip:
  assumes "ra_inv c" and "now div 1000000000 \<le> unat now_unix"
  shows "hm_get (ra_map (snd (restore_from_records now_unix now (to_persist_records now_unix now c)
      (ra_with_ttl ttl)))) k =
    (case hm_get (ra_map c) k of None \<Rightarrow> None | Some t \<Rightarrow> restored_instant now ttl t)"
  using restore_fold_get [OF assms(2), of "ra_map c" "(0, ra_with_ttl ttl)" k] assms(1)
  by (simp add: restore_from_records_def to_persist_records_def ra_inv_def hm_wf_def ra_with_ttl_def
      hm_get_def split: option.splits)

theorem persist_restore_roundtrip_witness:
  "hm_get (ra_map (snd (restore_from_records 1000 60000000000
      (to_persist_records 1000 60000000000 (ra_record 55500000000 7 KFreeze ra_new)) ra_new))) (7, KFreeze, 0)
   = Some 56000000000"
  unfolding ra_new_def
  by (subst persist_restore_roundtrip)
    (auto simp: ra_record_def ra_inv_def record_scoped_def hm_len_def ra_with_ttl_def
      restored_instant_def duration_from_secs_def Let_def)

end
