(* ===== verification/Action_Queue.thy ===== *)
theory Action_Queue
  imports Recently_Applied
begin

text \<open>
  \<open>engine/action_queue.rs\<close>: the three-tier action queue between the decision pipeline and
  the executor, with its duplicate suppression by process, kind and thread. Each \<open>while\<close>
  loop of \<open>drain_cycle\<close> is a recursion on the tier it empties.
\<close>

type_synonym pending_pid_key = "u32 \<times> cached_action_kind \<times> u32"

fun pending_pid_key :: "root_action \<Rightarrow> pending_pid_key option" where
  "pending_pid_key (SetThreadQoS pid _ thread_index _ _ _ _ _ _) = Some (pid, KSetThreadQoS, thread_index)"
| "pending_pid_key a = from_root_action a"

fun thread_qos_rank :: "root_action \<Rightarrow> u8" where
  "thread_qos_rank (SetThreadQoS _ _ _ tier _ _ _ _ _) =
     (if tier = ''interactive'' then 3 else if tier = ''background'' then 1 else 2)"
| "thread_qos_rank _ = 0"

datatype priority = Urgent | Normal | Background

fun action_priority :: "root_action \<Rightarrow> priority" where
  "action_priority (UnfreezeProcess _ _ _ _ _ _) = Urgent"
| "action_priority (FreezeProcess _ _ _ _ _ _) = Normal"
| "action_priority (ThrottleProcess _ _ _ _ _ _ _) = Normal"
| "action_priority (BoostProcess _ _ _ _ _ _) = Normal"
| "action_priority (SetThreadQoS _ _ _ tier _ _ _ _ _) = (if tier \<noteq> ''background'' then Normal else Background)"
| "action_priority _ = Background"

record action_queue =
  aq_urgent :: "root_action list"
  aq_normal :: "root_action list"
  aq_background :: "root_action list"
  pending_pid_keys :: "(pending_pid_key, u8) hmap"
  max_per_cycle :: nat
  aq_capacity :: nat
  capacity_drops :: u64
  background_evictions :: u64

definition aq_new :: "nat \<Rightarrow> nat \<Rightarrow> action_queue" where
  "aq_new mx cap = \<lparr> aq_urgent = [], aq_normal = [], aq_background = [], pending_pid_keys = [],
     max_per_cycle = mx, aq_capacity = cap, capacity_drops = 0, background_evictions = 0 \<rparr>"

definition set_max_per_cycle :: "nat \<Rightarrow> action_queue \<Rightarrow> action_queue" where
  "set_max_per_cycle n q = q\<lparr> max_per_cycle := max n 1 \<rparr>"

definition release_key :: "root_action \<Rightarrow> (pending_pid_key, u8) hmap \<Rightarrow> (pending_pid_key, u8) hmap" where
  "release_key a m = (case pending_pid_key a of Some k \<Rightarrow> hm_remove k m | None \<Rightarrow> m)"

definition release_pending_key :: "root_action \<Rightarrow> action_queue \<Rightarrow> action_queue" where
  "release_pending_key a q = q\<lparr> pending_pid_keys := release_key a (pending_pid_keys q) \<rparr>"

subsection \<open>Pushing\<close>

definition supersede :: "pending_pid_key \<Rightarrow> action_queue \<Rightarrow> action_queue" where
  "supersede k q =
     q\<lparr> aq_urgent := filter (\<lambda>b. pending_pid_key b \<noteq> Some k) (aq_urgent q),
        aq_normal := filter (\<lambda>b. pending_pid_key b \<noteq> Some k) (aq_normal q),
        aq_background := filter (\<lambda>b. pending_pid_key b \<noteq> Some k) (aq_background q),
        pending_pid_keys := hm_remove k (pending_pid_keys q) \<rparr>"

definition resolve_duplicate :: "root_action \<Rightarrow> action_queue \<Rightarrow> action_queue option" where
  "resolve_duplicate a q =
     (case pending_pid_key a of
        None \<Rightarrow> Some q
      | Some key \<Rightarrow>
          (case hm_get (pending_pid_keys q) key of
             None \<Rightarrow> Some q
           | Some existing_rank \<Rightarrow>
               if fst (snd key) \<noteq> KSetThreadQoS \<or> thread_qos_rank a \<le> existing_rank then None
               else Some (supersede key q)))"

definition aq_dropped :: "action_queue \<Rightarrow> action_queue" where
  "aq_dropped q = q\<lparr> capacity_drops := sat_add (capacity_drops q) 1 \<rparr>"

definition make_room :: "root_action \<Rightarrow> action_queue \<Rightarrow> bool \<times> action_queue" where
  "make_room a q =
     (if action_priority a \<noteq> Urgent \<and> length (aq_normal q) + length (aq_background q) \<ge> aq_capacity q then
        (if action_priority a = Normal then
           (if aq_background q = [] then (False, aq_dropped q)
            else
              (let q1 = release_pending_key (last (aq_background q))
                          (q\<lparr> aq_background := butlast (aq_background q) \<rparr>)
               in (True, q1\<lparr> background_evictions := sat_add (background_evictions q1) 1 \<rparr>)))
         else (False, aq_dropped q))
      else (True, q))"

definition enqueue :: "root_action \<Rightarrow> action_queue \<Rightarrow> action_queue" where
  "enqueue a q =
     (let q = (case pending_pid_key a of
                 Some k \<Rightarrow> q\<lparr> pending_pid_keys := hm_insert k (thread_qos_rank a) (pending_pid_keys q) \<rparr>
               | None \<Rightarrow> q)
      in case action_priority a of
           Urgent \<Rightarrow> q\<lparr> aq_urgent := aq_urgent q @ [a] \<rparr>
         | Normal \<Rightarrow> q\<lparr> aq_normal := aq_normal q @ [a] \<rparr>
         | Background \<Rightarrow> q\<lparr> aq_background := aq_background q @ [a] \<rparr>)"

definition push :: "root_action \<Rightarrow> action_queue \<Rightarrow> bool \<times> action_queue" where
  "push a q =
     (case resolve_duplicate a q of
        None \<Rightarrow> (False, q)
      | Some q1 \<Rightarrow>
          (case make_room a q1 of
             (False, q2) \<Rightarrow> (False, q2)
           | (True, q2) \<Rightarrow> (True, enqueue a q2)))"

definition push_all :: "root_action list \<Rightarrow> action_queue \<Rightarrow> action_queue" where
  "push_all as q = fold (\<lambda>a q. snd (push a q)) as q"

subsection \<open>Draining\<close>

fun drain_urgent ::
  "root_action list \<Rightarrow> (pending_pid_key, u8) hmap \<Rightarrow> root_action list \<Rightarrow> (pending_pid_key, u8) hmap \<times> root_action list" where
  "drain_urgent [] m out = (m, out)"
| "drain_urgent (a # us) m out = drain_urgent us (release_key a m) (out @ [a])"

fun drain_tier ::
  "nat \<Rightarrow> root_action list \<Rightarrow> (pending_pid_key, u8) hmap \<Rightarrow> root_action list
     \<Rightarrow> nat \<times> root_action list \<times> (pending_pid_key, u8) hmap \<times> root_action list" where
  "drain_tier 0 tier m out = (0, tier, m, out)"
| "drain_tier (Suc budget) [] m out = (Suc budget, [], m, out)"
| "drain_tier (Suc budget) (a # tier) m out = drain_tier budget tier (release_key a m) (out @ [a])"

definition drain_cycle :: "action_queue \<Rightarrow> root_action list \<times> action_queue" where
  "drain_cycle q =
     (let (m0, out0) = drain_urgent (aq_urgent q) (pending_pid_keys q) [];
          (b1, normal, m1, out1) = drain_tier (max_per_cycle q) (aq_normal q) m0 out0;
          (b2, background, m2, out2) = drain_tier b1 (aq_background q) m1 out1
      in (out2, q\<lparr> aq_urgent := [], aq_normal := normal, aq_background := background,
                   pending_pid_keys := m2 \<rparr>))"

definition aq_len :: "action_queue \<Rightarrow> nat" where
  "aq_len q = length (aq_urgent q) + length (aq_normal q) + length (aq_background q)"

definition aq_is_empty :: "action_queue \<Rightarrow> bool" where
  "aq_is_empty q \<longleftrightarrow> aq_urgent q = [] \<and> aq_normal q = [] \<and> aq_background q = []"

definition urgent_len :: "action_queue \<Rightarrow> nat" where
  "urgent_len q = length (aq_urgent q)"

definition normal_len :: "action_queue \<Rightarrow> nat" where
  "normal_len q = length (aq_normal q)"

definition background_len :: "action_queue \<Rightarrow> nat" where
  "background_len q = length (aq_background q)"


subsection \<open>The pending keys agree with the queued actions\<close>

definition queued :: "action_queue \<Rightarrow> root_action list" where
  "queued q = aq_urgent q @ aq_normal q @ aq_background q"

definition keyed :: "root_action list \<Rightarrow> (pending_pid_key \<times> u8) list" where
  "keyed as = List.map_filter (\<lambda>a. map_option (\<lambda>k. (k, thread_qos_rank a)) (pending_pid_key a)) as"

definition pending_ok :: "root_action list \<Rightarrow> (pending_pid_key, u8) hmap \<Rightarrow> bool" where
  "pending_ok as m \<longleftrightarrow> hm_wf m \<and> distinct (map fst (keyed as)) \<and> hm_get m = map_of (keyed as)"

lemma keyed_simps [simp]:
  "keyed [] = []"
  "keyed (a # as) = (case pending_pid_key a of None \<Rightarrow> keyed as | Some k \<Rightarrow> (k, thread_qos_rank a) # keyed as)"
  "keyed (as @ bs) = keyed as @ keyed bs"
  by (auto simp: keyed_def List.map_filter_def split: option.splits)

lemma keyed_filter: "keyed (filter (\<lambda>b. pending_pid_key b \<noteq> Some k) as) = filter (\<lambda>p. fst p \<noteq> k) (keyed as)"
  by (induction as) (auto split: option.splits)

lemma keyed_mset: "mset as = mset bs \<Longrightarrow> mset (keyed as) = mset (keyed bs)"
  by (simp add: keyed_def List.map_filter_def mset_map mset_filter)

lemma pending_ok_mset:
  assumes "pending_ok as m" and eq: "mset bs = mset as"
  shows "pending_ok bs m"
proof -
  have k: "mset (keyed bs) = mset (keyed as)" by (rule keyed_mset [OF eq])
  have "distinct (map fst (keyed bs)) \<longleftrightarrow> distinct (map fst (keyed as))"
    by (rule mset_eq_imp_distinct_iff) (simp add: k)
  moreover have "set (keyed bs) = set (keyed as)" by (rule mset_eq_setD [OF k])
  ultimately show ?thesis
    using assms(1) by (auto simp: pending_ok_def intro: map_of_inject_set [THEN iffD2] simp flip: map_of_inject_set)
qed

lemma pending_ok_cons:
  assumes "pending_ok as m" and "\<And>k. pending_pid_key a = Some k \<Longrightarrow> hm_get m k = None"
  shows "pending_ok (a # as) (case pending_pid_key a of
      Some k \<Rightarrow> hm_insert k (thread_qos_rank a) m | None \<Rightarrow> m)"
proof (cases "pending_pid_key a")
  case None
  then show ?thesis using assms by (simp add: pending_ok_def)
next
  case (Some k)
  then have "k \<notin> fst ` set (keyed as)"
    using assms by (simp add: pending_ok_def map_of_eq_None_iff)
  then show ?thesis
    using assms(1) Some by (auto simp: pending_ok_def fun_eq_iff)
qed

lemma pending_ok_release:
  assumes "pending_ok (a # as) m"
  shows "pending_ok as (release_key a m)"
proof (cases "pending_pid_key a")
  case None
  then show ?thesis using assms by (simp add: pending_ok_def release_key_def)
next
  case (Some k)
  then have "map_of (keyed as) k = None"
    using assms by (simp add: pending_ok_def map_of_eq_None_iff)
  then show ?thesis
    using assms Some by (auto simp: pending_ok_def release_key_def fun_eq_iff)
qed

lemma pending_ok_filter:
  "pending_ok as m \<Longrightarrow> pending_ok (filter (\<lambda>b. pending_pid_key b \<noteq> Some k) as) (hm_remove k m)"
  by (auto simp: pending_ok_def keyed_filter map_of_filter_fst fun_eq_iff distinct_map_filter)

lemma pending_ok_get:
  assumes "pending_ok as m"
  shows "hm_get m k = Some r \<longleftrightarrow> (\<exists>a \<in> set as. pending_pid_key a = Some k \<and> thread_qos_rank a = r)"
proof -
  have "hm_get m k = Some r \<longleftrightarrow> (k, r) \<in> set (keyed as)"
    using assms by (simp add: pending_ok_def)
  also have "\<dots> \<longleftrightarrow> (\<exists>a \<in> set as. pending_pid_key a = Some k \<and> thread_qos_rank a = r)"
    by (induction as) (auto split: option.splits)
  finally show ?thesis .
qed

definition aq_inv :: "action_queue \<Rightarrow> bool" where
  "aq_inv q \<longleftrightarrow>
     pending_ok (queued q) (pending_pid_keys q) \<and>
     (\<forall>a \<in> set (aq_urgent q). action_priority a = Urgent) \<and>
     (\<forall>a \<in> set (aq_normal q). action_priority a = Normal) \<and>
     (\<forall>a \<in> set (aq_background q). action_priority a = Background) \<and>
     length (aq_normal q) + length (aq_background q) \<le> aq_capacity q"

lemma aq_inv_new: "aq_inv (aq_new mx cap)"
  by (simp add: aq_inv_def aq_new_def queued_def pending_ok_def fun_eq_iff)

lemma aq_inv_supersede:
  assumes "aq_inv q"
  shows "aq_inv (supersede k q)"
proof -
  have "length (filter P (aq_normal q)) + length (filter Q (aq_background q)) \<le> aq_capacity q" for P Q
    using assms length_filter_le [of P "aq_normal q"] length_filter_le [of Q "aq_background q"]
    unfolding aq_inv_def by linarith
  then show ?thesis
    using assms pending_ok_filter [of "queued q" "pending_pid_keys q" k]
    by (auto simp: aq_inv_def supersede_def queued_def)
qed

lemma resolve_duplicate_inv:
  assumes "aq_inv q" and "resolve_duplicate a q = Some q1"
  shows "aq_inv q1 \<and> (\<forall>k. pending_pid_key a = Some k \<longrightarrow> hm_get (pending_pid_keys q1) k = None)"
  using assms
  by (auto simp: resolve_duplicate_def aq_inv_supersede split: option.splits if_splits)
    (auto simp: supersede_def)

lemma make_room_inv:
  assumes "aq_inv q" and "make_room a q = (ok, q1)"
  shows "aq_inv q1 \<and>
    (\<forall>k. hm_get (pending_pid_keys q) k = None \<longrightarrow> hm_get (pending_pid_keys q1) k = None) \<and>
    (ok \<longrightarrow> action_priority a \<noteq> Urgent \<longrightarrow>
       length (aq_normal q1) + length (aq_background q1) < aq_capacity q1)"
proof (cases "action_priority a = Normal \<and> aq_background q \<noteq> [] \<and>
    length (aq_normal q) + length (aq_background q) \<ge> aq_capacity q")
  case True
  define b where "b = last (aq_background q)"
  define q' where "q' = release_pending_key b (q\<lparr> aq_background := butlast (aq_background q) \<rparr>)"
  have bg: "aq_background q = butlast (aq_background q) @ [b]"
    using True by (simp add: b_def)
  have "mset (b # aq_urgent q @ aq_normal q @ butlast (aq_background q)) = mset (queued q)"
    using arg_cong [OF bg, of mset] by (simp add: queued_def)
  then have "pending_ok (b # aq_urgent q @ aq_normal q @ butlast (aq_background q)) (pending_pid_keys q)"
    using assms(1) pending_ok_mset by (auto simp: aq_inv_def)
  then have "pending_ok (queued q') (pending_pid_keys q')"
    by (simp add: q'_def release_pending_key_def queued_def pending_ok_release)
  moreover have "length (aq_normal q') + length (aq_background q') < aq_capacity q'"
    using arg_cong [OF bg, of length] assms(1) by (auto simp: q'_def release_pending_key_def aq_inv_def)
  moreover have "q1 = q'\<lparr> background_evictions := sat_add (background_evictions q') 1 \<rparr>" "ok"
    using assms(2) True by (auto simp: make_room_def q'_def b_def Let_def)
  moreover have "hm_get (pending_pid_keys q) k = None \<longrightarrow> hm_get (pending_pid_keys q') k = None" for k
    by (simp add: q'_def release_pending_key_def release_key_def split: option.splits)
  moreover have "set (butlast (aq_background q)) \<subseteq> set (aq_background q)"
    by (auto dest: in_set_butlastD)
  ultimately show ?thesis
    using assms(1) by (auto simp: aq_inv_def q'_def release_pending_key_def queued_def)
next
  case False
  then show ?thesis
    using assms by (auto simp: make_room_def aq_dropped_def aq_inv_def queued_def split: if_splits)
qed

lemma enqueue_inv:
  assumes "aq_inv q" and "\<And>k. pending_pid_key a = Some k \<Longrightarrow> hm_get (pending_pid_keys q) k = None"
    and "action_priority a \<noteq> Urgent \<Longrightarrow> length (aq_normal q) + length (aq_background q) < aq_capacity q"
  shows "aq_inv (enqueue a q)"
proof -
  have pk: "pending_pid_keys (enqueue a q) = (case pending_pid_key a of
      Some k \<Rightarrow> hm_insert k (thread_qos_rank a) (pending_pid_keys q) | None \<Rightarrow> pending_pid_keys q)"
    by (simp add: enqueue_def Let_def split: option.splits priority.splits)
  have "mset (queued (enqueue a q)) = mset (a # queued q)"
    by (simp add: enqueue_def queued_def Let_def split: option.splits priority.splits)
  then have "pending_ok (queued (enqueue a q)) (pending_pid_keys (enqueue a q))"
    using pending_ok_mset pending_ok_cons [of "queued q" "pending_pid_keys q" a] assms(1,2)
    unfolding pk aq_inv_def by blast
  then show ?thesis
    using assms(1,3)
    by (cases "action_priority a") (auto simp: aq_inv_def enqueue_def Let_def split: option.splits)
qed

lemma push_inv: "aq_inv q \<Longrightarrow> aq_inv (snd (push a q))"
proof (cases "resolve_duplicate a q")
  case None
  then show "aq_inv q \<Longrightarrow> ?thesis" by (simp add: push_def)
next
  case (Some q1)
  assume "aq_inv q"
  note r = resolve_duplicate_inv [OF this Some]
  obtain ok q2 where mr: "make_room a q1 = (ok, q2)" by fastforce
  note m = make_room_inv [OF conjunct1 [OF r] mr]
  show ?thesis
    using r m Some mr by (cases ok) (auto simp: push_def intro!: enqueue_inv)
qed

subsection \<open>What a drain returns\<close>

lemma drain_urgent_closed:
  "drain_urgent us m out = (fold release_key us m, out @ us)"
  by (induction us m out rule: drain_urgent.induct) auto

lemma drain_tier_closed:
  "drain_tier b tier m out =
     (b - length tier, drop b tier, fold release_key (take b tier) m, out @ take b tier)"
  by (induction b tier m out rule: drain_tier.induct) auto

lemma pending_ok_release_all:
  "pending_ok (as @ bs) m \<Longrightarrow> pending_ok bs (fold release_key as m)"
  by (induction as arbitrary: m) (auto dest: pending_ok_release)

lemma drain_cycle_closed:
  "drain_cycle q =
     (let n = max_per_cycle q; r = n - length (aq_normal q);
          out = aq_urgent q @ take n (aq_normal q) @ take r (aq_background q)
      in (out, q\<lparr> aq_urgent := [], aq_normal := drop n (aq_normal q),
                  aq_background := drop r (aq_background q),
                  pending_pid_keys := fold release_key out (pending_pid_keys q) \<rparr>))"
  by (simp add: drain_cycle_def drain_urgent_closed drain_tier_closed Let_def)

lemma drain_inv: "aq_inv q \<Longrightarrow> aq_inv (snd (drain_cycle q))"
proof -
  assume inv: "aq_inv q"
  let ?n = "max_per_cycle q"
  let ?r = "?n - length (aq_normal q)"
  let ?out = "aq_urgent q @ take ?n (aq_normal q) @ take ?r (aq_background q)"
  let ?rest = "drop ?n (aq_normal q) @ drop ?r (aq_background q)"
  have "mset (?out @ ?rest) = mset (queued q)"
    by (simp add: queued_def flip: mset_append append_assoc)
      (metis append_take_drop_id mset_append union_assoc union_commute)
  then have "pending_ok ?rest (fold release_key ?out (pending_pid_keys q))"
    using inv pending_ok_mset pending_ok_release_all unfolding aq_inv_def by blast
  then show ?thesis
    using inv by (auto simp: drain_cycle_closed Let_def aq_inv_def queued_def dest: in_set_dropD)
qed

datatype aq_event = AqPush root_action | AqPushAll "root_action list" | AqDrain | AqSetMax nat

fun aq_step :: "aq_event \<Rightarrow> action_queue \<Rightarrow> action_queue" where
  "aq_step (AqPush a) q = snd (push a q)"
| "aq_step (AqPushAll as) q = push_all as q"
| "aq_step AqDrain q = snd (drain_cycle q)"
| "aq_step (AqSetMax n) q = set_max_per_cycle n q"

lemma push_all_inv: "aq_inv q \<Longrightarrow> aq_inv (push_all as q)"
  unfolding push_all_def by (induction as arbitrary: q) (auto intro: push_inv)

interpretation aq: invariant_machine aq_step aq_inv
proof unfold_locales
  fix e q
  show "aq_inv q \<Longrightarrow> aq_inv (aq_step e q)"
    by (cases e) (simp_all add: push_inv push_all_inv drain_inv,
        simp add: set_max_per_cycle_def aq_inv_def queued_def)
qed

lemma push_fixed: "max_per_cycle (snd (push a q)) = max_per_cycle q \<and> aq_capacity (snd (push a q)) = aq_capacity q"
  by (auto simp: push_def resolve_duplicate_def supersede_def make_room_def aq_dropped_def enqueue_def
      release_pending_key_def Let_def split: option.splits prod.splits bool.splits priority.splits if_splits)

lemma aq_step_capacity: "aq_capacity (aq_step e q) = aq_capacity q"
proof (cases e)
  case (AqPushAll as)
  have "aq_capacity (push_all as q) = aq_capacity q"
    unfolding push_all_def by (induction as arbitrary: q) (simp_all add: push_fixed)
  then show ?thesis by (simp add: AqPushAll)
qed (simp_all add: push_fixed drain_cycle_closed Let_def set_max_per_cycle_def)


text \<open>
  C14: after any sequence of pushes, batch pushes, drains and budget changes, every queued
  action sits in the tier of its own priority, the deferred tiers together never exceed the
  capacity, no two queued actions share a pending key, and the pending map holds exactly the
  keys of the queued actions, each with the rank of the action that owns it.
\<close>

theorem queue_reachable_inv:
  "(let q = fold aq_step es (aq_new mx cap) in
     length (aq_normal q) + length (aq_background q) \<le> cap
     \<and> list_all (\<lambda>a. action_priority a = Urgent) (aq_urgent q)
     \<and> list_all (\<lambda>a. action_priority a = Normal) (aq_normal q)
     \<and> list_all (\<lambda>a. action_priority a = Background) (aq_background q)
     \<and> distinct (map fst (keyed (queued q)))
     \<and> (hm_get (pending_pid_keys q) k = Some r \<longleftrightarrow>
         list_ex (\<lambda>a. pending_pid_key a = Some k \<and> thread_qos_rank a = r) (queued q)))"
proof -
  let ?q = "fold aq_step es (aq_new mx cap)"
  have inv: "aq_inv ?q" by (rule aq.run_inv [OF aq_inv_new])
  have "aq_capacity (fold aq_step es q0) = aq_capacity q0" for q0
    by (induction es arbitrary: q0) (simp_all add: aq_step_capacity)
  then have "aq_capacity ?q = cap" by (simp add: aq_new_def)
  moreover have "hm_get (pending_pid_keys ?q) k = Some r \<longleftrightarrow>
      list_ex (\<lambda>a. pending_pid_key a = Some k \<and> thread_qos_rank a = r) (queued ?q)"
    using inv by (simp add: aq_inv_def pending_ok_get list_ex_iff)
  ultimately show ?thesis
    using inv by (simp add: Let_def aq_inv_def list_all_iff pending_ok_def)
qed

text \<open>
  what one cycle dispatches. A drain returns every urgent action, then normal actions and
  then background actions, oldest first within each tier, and never more than the cycle budget
  of the two deferred tiers together; what it does not return stays queued in order.
\<close>

theorem drain_cycle_output:
  "fst (drain_cycle q) = aq_urgent q
      @ take (max_per_cycle q) (aq_normal q @ aq_background q)
    \<and> queued (snd (drain_cycle q)) = drop (max_per_cycle q) (aq_normal q @ aq_background q)"
  by (simp add: drain_cycle_closed Let_def queued_def)

text \<open>
  backpressure never holds back an urgent action. A push of one is refused only when the
  same process already has that urgent action queued, and an accepted one leaves at the next
  drain whatever the budget and however full the other tiers are.
\<close>

theorem urgent_never_blocked:
  assumes "aq_inv q" and "action_priority a = Urgent"
  shows "if list_ex (\<lambda>b. pending_pid_key b = pending_pid_key a) (queued q)
     then push a q = (False, q)
     else fst (push a q) \<and> last (fst (drain_cycle (snd (push a (q\<lparr> max_per_cycle := 0 \<rparr>))))) = a"
proof -
  obtain pid name reason d ss su where a: "a = UnfreezeProcess pid name reason d ss su"
    using assms(2) by (cases a) (auto split: if_splits)
  have "list_ex (\<lambda>b. pending_pid_key b = pending_pid_key a) (queued q) \<longleftrightarrow>
      hm_get (pending_pid_keys q) (pid, KUnfreeze, 0) \<noteq> None"
    using assms(1) pending_ok_get [of "queued q" "pending_pid_keys q" "(pid, KUnfreeze, 0)"]
    by (auto simp: aq_inv_def list_ex_iff a)
  then show ?thesis
    by (auto simp: a push_def resolve_duplicate_def make_room_def enqueue_def drain_cycle_closed Let_def
        split: option.splits)
qed

definition example_unfreeze :: "u32 \<Rightarrow> root_action" where
  "example_unfreeze pid = UnfreezeProcess pid ''Safari'' ''foreground'' default_decision_reason 0 0"

theorem urgent_never_blocked_witness:
  "fst (push (example_unfreeze 9) (aq_new 4 0))"
  using urgent_never_blocked [OF aq_inv_new [of 4 0], of "example_unfreeze 9"]
  by (simp add: example_unfreeze_def queued_def aq_new_def)

subsection \<open>Promotions of a queued thread\<close>

lemma supersede_frees:
  assumes "aq_inv q" and "b \<in> set (queued q)" and "pending_pid_key b = Some k" and "action_priority b \<noteq> Urgent"
  shows "length (aq_normal (supersede k q)) + length (aq_background (supersede k q)) < aq_capacity q"
proof -
  have "b \<notin> set (aq_urgent q)" using assms(1,4) by (auto simp: aq_inv_def)
  then have "b \<in> set (aq_normal q @ aq_background q)" using assms(2) by (simp add: queued_def)
  then have "length (filter (\<lambda>b. pending_pid_key b \<noteq> Some k) (aq_normal q @ aq_background q))
      < length (aq_normal q @ aq_background q)"
    using assms(3) by (intro length_filter_less) auto
  then show ?thesis using assms(1) by (simp add: supersede_def aq_inv_def)
qed

text \<open>
  a latency promotion is never lost to backpressure. Whatever the queue holds, pushing an
  interactive QoS action for a thread that has a lower-ranked QoS action waiting is accepted
  even at capacity, removes exactly that waiting action, evicts nothing else, and leaves the
  promotion as the newest normal action.
\<close>

theorem promotion_supersedes:
  assumes "aq_inv q"
    and "a = SetThreadQoS pid name ti ''interactive'' reason d ident ss su"
    and "b \<in> set (queued q)" and "pending_pid_key b = Some (pid, KSetThreadQoS, ti)"
    and "thread_qos_rank b < 3"
  shows "push a q = (True,
    (supersede (pid, KSetThreadQoS, ti) q)\<lparr>
       aq_normal := filter (\<lambda>c. pending_pid_key c \<noteq> Some (pid, KSetThreadQoS, ti)) (aq_normal q) @ [a],
       pending_pid_keys := hm_insert (pid, KSetThreadQoS, ti) 3
         (hm_remove (pid, KSetThreadQoS, ti) (pending_pid_keys q)) \<rparr>)"
proof -
  let ?k = "(pid, KSetThreadQoS, ti)"
  have b: "action_priority b \<noteq> Urgent" using assms(4) by (cases b) auto
  have "hm_get (pending_pid_keys q) ?k = Some (thread_qos_rank b)"
    using assms(1,3,4) by (auto simp: aq_inv_def pending_ok_get)
  moreover have "\<not> 3 \<le> thread_qos_rank b" using assms(5) by simp
  ultimately have "resolve_duplicate a q = Some (supersede ?k q)"
    by (simp add: resolve_duplicate_def assms(2))
  moreover have "make_room a (supersede ?k q) = (True, supersede ?k q)"
    using supersede_frees [OF assms(1,3,4) b] by (simp add: make_room_def supersede_def)
  ultimately show ?thesis
    by (simp add: push_def enqueue_def assms(2) Let_def) (simp add: supersede_def)
qed

definition example_qos :: "string \<Rightarrow> root_action" where
  "example_qos tier = SetThreadQoS 7 ''WindowServer'' 3 tier ''latency'' default_decision_reason None 0 0"

theorem promotion_supersedes_witness:
  "map pending_pid_key (queued (snd (push (example_qos ''interactive'')
      (snd (push (example_qos ''background'') (aq_new 4 1)))))) = [Some (7, KSetThreadQoS, 3)]"
proof -
  let ?q = "snd (push (example_qos ''background'') (aq_new 4 1))"
  have "aq_inv ?q" by (rule push_inv [OF aq_inv_new])
  moreover have "queued ?q = [example_qos ''background'']"
    by (simp add: push_def resolve_duplicate_def make_room_def enqueue_def aq_new_def example_qos_def queued_def)
  ultimately have "push (example_qos ''interactive'') ?q = (True,
    (supersede (7, KSetThreadQoS, 3) ?q)\<lparr>
       aq_normal := filter (\<lambda>c. pending_pid_key c \<noteq> Some (7, KSetThreadQoS, 3)) (aq_normal ?q)
         @ [example_qos ''interactive''],
       pending_pid_keys := hm_insert (7, KSetThreadQoS, 3) 3
         (hm_remove (7, KSetThreadQoS, 3) (pending_pid_keys ?q)) \<rparr>)"
    using promotion_supersedes [of ?q "example_qos ''interactive''" 7 _ 3 _ _ _ _ _ "example_qos ''background''"]
    by (simp add: example_qos_def)
  then show ?thesis
    by (simp add: queued_def supersede_def)
      (simp add: push_def resolve_duplicate_def make_room_def enqueue_def aq_new_def example_qos_def)
qed

subsection \<open>Every queued action is dispatched\<close>

fun drains :: "nat \<Rightarrow> action_queue \<Rightarrow> root_action list \<times> action_queue" where
  "drains 0 q = ([], q)"
| "drains (Suc n) q =
     (let (out, q1) = drain_cycle q; (outs, q2) = drains n q1 in (out @ outs, q2))"

lemma drains_closed:
  "fst (drains (Suc n) q) = aq_urgent q @ take (Suc n * max_per_cycle q) (aq_normal q @ aq_background q) \<and>
   queued (snd (drains (Suc n) q)) = drop (Suc n * max_per_cycle q) (aq_normal q @ aq_background q)"
proof (induction n arbitrary: q)
  case 0
  show ?case by (simp add: drain_cycle_closed Let_def queued_def)
next
  case (Suc n)
  let ?q1 = "snd (drain_cycle q)" and ?m = "max_per_cycle q"
  have q1: "aq_urgent ?q1 = []" "max_per_cycle ?q1 = ?m"
    "aq_normal ?q1 @ aq_background ?q1 = drop ?m (aq_normal q @ aq_background q)"
    by (simp_all add: drain_cycle_closed Let_def)
  have out: "fst (drain_cycle q) = aq_urgent q @ take ?m (aq_normal q @ aq_background q)"
    by (simp add: drain_cycle_closed Let_def)
  have "fst (drains (Suc (Suc n)) q) = fst (drain_cycle q) @ fst (drains (Suc n) ?q1)"
    and "snd (drains (Suc (Suc n)) q) = snd (drains (Suc n) ?q1)"
    by (simp_all only: drains.simps(2) [of "Suc n"] Let_def case_prod_beta fst_conv snd_conv)
  moreover have "take (Suc (Suc n) * ?m) X = take ?m X @ take (Suc n * ?m) (drop ?m X)"
    and "drop (Suc (Suc n) * ?m) X = drop (Suc n * ?m) (drop ?m X)" for X :: "root_action list"
    using take_add [of ?m "Suc n * ?m" X] drop_drop [of "Suc n * ?m" ?m X]
    by (simp_all only: mult_Suc [of "Suc n"] add.commute [of "Suc n * ?m" ?m])
  ultimately show ?case
    using Suc.IH [of ?q1] by (simp only: q1 out append_Nil append_assoc)
qed

text \<open>
  no deferred action starves. With a positive cycle budget, enough drains for the deferred
  tiers to fit into the budgets dispatch every queued action exactly once, in queue order, and
  leave the queue empty.
\<close>

theorem drains_empty_queue:
  assumes "length (aq_normal q) + length (aq_background q) \<le> Suc n * max_per_cycle q"
  shows "fst (drains (Suc n) q) = queued q \<and> aq_is_empty (snd (drains (Suc n) q))"
proof -
  have "queued (snd (drains (Suc n) q)) = []"
    using drains_closed [of n q] assms by (simp del: drains.simps)
  then show ?thesis
    using drains_closed [of n q] assms by (simp add: queued_def aq_is_empty_def del: drains.simps)
qed

theorem drains_empty_queue_witness:
  "aq_is_empty (snd (drains (Suc 1) (push_all [example_qos ''interactive'', example_unfreeze 4] (aq_new 1 8))))"
  by (rule drains_empty_queue [THEN conjunct2])
    (simp add: push_all_def push_def resolve_duplicate_def make_room_def enqueue_def aq_new_def
      example_qos_def example_unfreeze_def)

end
