(* ===== verification/Circuit_Breaker.thy ===== *)
theory Circuit_Breaker
  imports Apollo_Prelude
begin

text \<open>
  \<open>crates/apollo-engine/src/engine/circuit_breaker.rs\<close>: the breaker in front of the action
  executor. Reading the clock (\<open>Instant::now\<close>) is an argument of the operation; the closure
  given to \<open>call\<close> acts on an abstract world, so that not being called is visible as an
  unchanged world. Logging is left out.
\<close>

datatype circuit_state = Closed | Open | HalfOpen

fun circuit_state_as_str :: "circuit_state \<Rightarrow> string" where
  "circuit_state_as_str Closed = ''closed''"
| "circuit_state_as_str Open = ''open''"
| "circuit_state_as_str HalfOpen = ''half_open''"

record circuit_breaker =
  cb_state :: circuit_state
  failure_timestamps :: "instant list"
  failure_threshold :: u32
  window_secs :: u64
  success_threshold :: u32
  cb_timeout :: duration
  half_open_successes :: u32
  opened_at :: "instant option"
  rejected_total :: u64
  trips_total :: u64

datatype 'e circuit_error = ErrOpen | ErrInner 'e

definition cb_new :: "u32 \<Rightarrow> u64 \<Rightarrow> u32 \<Rightarrow> duration \<Rightarrow> circuit_breaker" where
  "cb_new fthr wsecs sthr tmo = \<lparr>
     cb_state = Closed, failure_timestamps = [], failure_threshold = fthr,
     window_secs = wsecs, success_threshold = sthr, cb_timeout = tmo,
     half_open_successes = 0, opened_at = None, rejected_total = 0, trips_total = 0 \<rparr>"

definition cb_default :: circuit_breaker where
  "cb_default = cb_new 5 60 2 (duration_from_secs 30)"

definition is_closed :: "circuit_breaker \<Rightarrow> bool" where
  "is_closed b = (case cb_state b of Closed \<Rightarrow> True | HalfOpen \<Rightarrow> True | Open \<Rightarrow> False)"

definition open_duration :: "instant \<Rightarrow> circuit_breaker \<Rightarrow> duration option" where
  "open_duration now b =
     (if cb_state b = Open then map_option (\<lambda>t. now - t) (opened_at b) else None)"

definition trip :: "instant \<Rightarrow> circuit_breaker \<Rightarrow> circuit_breaker" where
  "trip now b = b\<lparr> cb_state := Open, opened_at := Some now, half_open_successes := 0,
     trips_total := trips_total b + 1 \<rparr>"

definition cb_close :: "circuit_breaker \<Rightarrow> circuit_breaker" where
  "cb_close b = b\<lparr> cb_state := Closed, half_open_successes := 0, failure_timestamps := [],
     opened_at := None \<rparr>"

definition maybe_recover :: "instant \<Rightarrow> circuit_breaker \<Rightarrow> circuit_breaker" where
  "maybe_recover now b =
     (if cb_state b = Open then
        (case opened_at b of
           None \<Rightarrow> b
         | Some t \<Rightarrow>
             if now - t \<ge> cb_timeout b
             then b\<lparr> cb_state := HalfOpen, half_open_successes := 0 \<rparr> else b)
      else b)"

definition record_success :: "circuit_breaker \<Rightarrow> circuit_breaker" where
  "record_success b =
     (case cb_state b of
        HalfOpen \<Rightarrow>
          (let b1 = b\<lparr> half_open_successes := half_open_successes b + 1 \<rparr> in
           if half_open_successes b1 \<ge> success_threshold b1 then cb_close b1 else b1)
      | Closed \<Rightarrow> b
      | Open \<Rightarrow> cb_close b)"

definition record_failure :: "instant \<Rightarrow> circuit_breaker \<Rightarrow> circuit_breaker" where
  "record_failure now b =
     (let window = duration_from_secs (window_secs b);
          kept = filter (\<lambda>t. now - t \<le> window) (failure_timestamps b) @ [now];
          b1 = b\<lparr> failure_timestamps := kept \<rparr>
      in case cb_state b1 of
           HalfOpen \<Rightarrow> trip now b1
         | Closed \<Rightarrow>
             (if (of_nat (length kept) :: u32) \<ge> failure_threshold b1 then trip now b1 else b1)
         | Open \<Rightarrow> b1\<lparr> opened_at := Some now \<rparr>)"

text \<open>
  \<open>call\<close>: the clock is read once on entry (\<open>t0\<close>) and once more when a failure is recorded
  (\<open>t1\<close>).
\<close>

definition cb_call ::
  "instant \<Rightarrow> instant \<Rightarrow> ('w \<Rightarrow> ('e + 'a) \<times> 'w) \<Rightarrow> circuit_breaker \<Rightarrow> 'w \<Rightarrow>
   ('e circuit_error + 'a) \<times> circuit_breaker \<times> 'w" where
  "cb_call t0 t1 f b w =
     (let b = maybe_recover t0 b in
      case cb_state b of
        Open \<Rightarrow> (Inl ErrOpen, b\<lparr> rejected_total := rejected_total b + 1 \<rparr>, w)
      | _ \<Rightarrow>
          (case f w of
             (Inr v, w') \<Rightarrow> (Inr v, record_success b, w')
           | (Inl e, w') \<Rightarrow> (Inl (ErrInner e), record_failure t1 b, w')))"

lemmas cb_defs = trip_def cb_close_def maybe_recover_def record_success_def record_failure_def
  cb_call_def is_closed_def Let_def

subsection \<open>The state machine\<close>

text \<open>
  The breaker is driven by outcomes reported from outside and by calls; the closure of a
  call is represented by the outcome it would have.
\<close>

datatype cb_event = Succeeded | FailedAt instant | Called instant instant bool

fun cb_step :: "cb_event \<Rightarrow> circuit_breaker \<Rightarrow> circuit_breaker" where
  "cb_step Succeeded b = record_success b"
| "cb_step (FailedAt now) b = record_failure now b"
| "cb_step (Called t0 t1 ok) b =
     fst (snd (cb_call t0 t1 (\<lambda>w::unit. (if ok then Inr () else Inl (), w)) b ()))"

definition cb_inv :: "circuit_breaker \<Rightarrow> bool" where
  "cb_inv b \<longleftrightarrow>
     (cb_state b = Open \<longrightarrow> opened_at b \<noteq> None \<and> half_open_successes b = 0) \<and>
     (cb_state b = HalfOpen \<longrightarrow> opened_at b \<noteq> None \<and>
        (half_open_successes b = 0 \<or> half_open_successes b < success_threshold b)) \<and>
     (cb_state b = Closed \<longrightarrow> opened_at b = None \<and> half_open_successes b = 0 \<and>
        (failure_timestamps b = [] \<or>
           length (failure_timestamps b) < unat (failure_threshold b)))"

lemma cb_inv_new: "cb_inv (cb_new f w s t)"
  by (simp add: cb_inv_def cb_new_def)

lemma of_nat_len_ge:
  assumes "n \<le> unat (thr :: u32)"
  shows "(of_nat n :: u32) \<ge> thr \<longleftrightarrow> n \<ge> unat thr"
proof -
  have "n < 2 ^ LENGTH(32)" using assms unat_bound [of thr] by linarith
  then show ?thesis by (simp add: word_le_nat_alt unat_of_nat)
qed

lemma cb_inv_success: "cb_inv b \<Longrightarrow> cb_inv (record_success b)"
  by (cases "cb_state b") (auto simp: cb_inv_def cb_defs not_le)

lemma cb_inv_failure:
  assumes "cb_inv b" shows "cb_inv (record_failure now b)"
proof (cases "cb_state b")
  case Closed
  let ?k = "filter (\<lambda>t. now - t \<le> duration_from_secs (window_secs b)) (failure_timestamps b)"
  have len: "length ?k \<le> length (failure_timestamps b)" by simp
  show ?thesis
  proof (cases "(of_nat (length (?k @ [now])) :: u32) \<ge> failure_threshold b")
    case True
    then show ?thesis using Closed assms by (simp add: cb_inv_def cb_defs)
  next
    case False
    have "failure_threshold b \<noteq> 0" using False by auto
    then have pos: "0 < unat (failure_threshold b)" by (simp add: unat_gt_0)
    have "length (?k @ [now]) \<le> unat (failure_threshold b)"
    proof (cases "failure_timestamps b")
      case Nil
      then show ?thesis using pos by simp
    next
      case (Cons t ts)
      then have "length (failure_timestamps b) < unat (failure_threshold b)"
        using assms Closed by (simp add: cb_inv_def)
      with len have "length ?k < unat (failure_threshold b)" by (rule le_less_trans)
      then show ?thesis by simp
    qed
    then have "length (?k @ [now]) < unat (failure_threshold b)"
      using False of_nat_len_ge [of "length (?k @ [now])" "failure_threshold b"] by linarith
    then show ?thesis using Closed assms False by (simp add: cb_inv_def cb_defs)
  qed
qed (use assms in \<open>auto simp: cb_inv_def cb_defs\<close>)

lemma cb_inv_recover: "cb_inv b \<Longrightarrow> cb_inv (maybe_recover now b)"
  by (auto simp: cb_inv_def maybe_recover_def split: option.splits)

lemma cb_inv_call:
  assumes "cb_inv b" shows "cb_inv (fst (snd (cb_call t0 t1 f b w)))"
proof -
  have r: "cb_inv (maybe_recover t0 b)" by (rule cb_inv_recover [OF assms])
  then have "cb_inv ((maybe_recover t0 b)\<lparr> rejected_total := n \<rparr>)" for n
    by (simp add: cb_inv_def)
  with r show ?thesis
    by (auto simp: cb_call_def Let_def cb_inv_success cb_inv_failure
        split: circuit_state.splits prod.splits sum.splits)
qed

interpretation cb: invariant_machine cb_step cb_inv
proof
  fix s e assume "cb_inv s"
  then show "cb_inv (cb_step e s)"
    by (cases e) (auto simp: cb_inv_success cb_inv_failure intro: cb_inv_call)
qed

subsection \<open>Reachable states\<close>

text \<open>
  in every state a breaker can reach from its constructor by any sequence of reported
  outcomes and calls, an open circuit knows when it opened, the success counter is zero
  outside the half-open state and below its threshold inside it, and a closed circuit holds
  fewer recent failures than its threshold.
\<close>

theorem breaker_reachable_inv: "cb_inv (fold cb_step es (cb_new f w s t))"
  by (rule cb.run_inv [OF cb_inv_new])

subsection \<open>The sliding window\<close>

definition recent_failures :: "duration \<Rightarrow> instant \<Rightarrow> instant list \<Rightarrow> instant list" where
  "recent_failures window now ts = filter (\<lambda>t. now - t \<le> window) ts"

lemma recent_failures_later:
  "now \<le> later \<Longrightarrow> recent_failures w later (recent_failures w now ts) = recent_failures w later ts"
  by (auto simp: recent_failures_def intro!: filter_cong)

lemma record_failure_fields [simp]:
  "failure_threshold (record_failure now b) = failure_threshold b"
  "window_secs (record_failure now b) = window_secs b"
  by (auto simp: cb_defs split: circuit_state.splits)

lemma record_failure_closed:
  fixes now :: instant
  assumes "cb_inv b" and "cb_state b = Closed"
  defines "k \<equiv> recent_failures (duration_from_secs (window_secs b)) now (failure_timestamps b) @ [now]"
  shows "cb_state (record_failure now b) = Closed \<longleftrightarrow> length k < unat (failure_threshold b)"
    and "failure_timestamps (record_failure now b) = k"
proof -
  show "failure_timestamps (record_failure now b) = k"
    using assms by (simp add: cb_defs k_def recent_failures_def)
  have st: "cb_state (record_failure now b) = Closed \<longleftrightarrow>
      \<not> (of_nat (length k) :: u32) \<ge> failure_threshold b"
    using assms(2) by (simp add: cb_defs k_def recent_failures_def)
  have "cb_inv (record_failure now b)" by (rule cb_inv_failure [OF assms(1)])
  then have "cb_state (record_failure now b) = Closed \<Longrightarrow> length k < unat (failure_threshold b)"
    using \<open>failure_timestamps (record_failure now b) = k\<close> by (auto simp: cb_inv_def k_def)
  moreover have "length k < unat (failure_threshold b) \<Longrightarrow> cb_state (record_failure now b) = Closed"
    using st of_nat_len_ge [of "length k" "failure_threshold b"] by linarith
  ultimately show "cb_state (record_failure now b) = Closed \<longleftrightarrow> length k < unat (failure_threshold b)"
    by blast
qed

text \<open>
  The failures that count in a run: those recorded since the breaker last went back to the closed
  state, read from the events alone but for the states at which it closed. A call records a
  failure when it was let through and its closure failed.
\<close>

fun event_times :: "cb_event \<Rightarrow> instant list" where
  "event_times Succeeded = []"
| "event_times (FailedAt now) = [now]"
| "event_times (Called t0 t1 ok) = [t0, t1]"

fun failure_recorded :: "circuit_breaker \<Rightarrow> cb_event \<Rightarrow> instant list" where
  "failure_recorded b Succeeded = []"
| "failure_recorded b (FailedAt now) = [now]"
| "failure_recorded b (Called t0 t1 ok) = (if ok \<or> cb_state (maybe_recover t0 b) = Open then [] else [t1])"

fun failures_since_close :: "cb_event list \<Rightarrow> circuit_breaker \<Rightarrow> instant list \<Rightarrow> instant list" where
  "failures_since_close [] b seen = seen"
| "failures_since_close (e # es) b seen =
     failures_since_close es (cb_step e b)
       (if cb_state b \<noteq> Closed \<and> cb_state (cb_step e b) = Closed then [] else seen @ failure_recorded b e)"

lemma record_failure_timestamps:
  "failure_timestamps (record_failure now b) =
     recent_failures (duration_from_secs (window_secs b)) now (failure_timestamps b) @ [now]"
  by (auto simp: cb_defs recent_failures_def split: circuit_state.splits)

lemma record_failure_not_closing:
  "cb_state b \<noteq> Closed \<Longrightarrow> cb_state (record_failure now b) \<noteq> Closed"
  by (auto simp: cb_defs split: circuit_state.splits)

lemma record_success_timestamps:
  "failure_timestamps (record_success b) =
     (if cb_state b \<noteq> Closed \<and> cb_state (record_success b) = Closed then [] else failure_timestamps b)"
  by (auto simp: cb_defs split: circuit_state.splits)

lemma maybe_recover_fields [simp]:
  "failure_timestamps (maybe_recover now b) = failure_timestamps b"
  "window_secs (maybe_recover now b) = window_secs b"
  "failure_threshold (maybe_recover now b) = failure_threshold b"
  by (auto simp: maybe_recover_def split: option.splits)

lemma maybe_recover_closed: "cb_state (maybe_recover now b) = Closed \<longleftrightarrow> cb_state b = Closed"
  by (auto simp: maybe_recover_def split: option.splits)

lemma cb_step_fields [simp]:
  "window_secs (cb_step e b) = window_secs b" "failure_threshold (cb_step e b) = failure_threshold b"
  by (cases e; auto simp: cb_call_def record_success_def cb_close_def Let_def split: circuit_state.splits)+

lemma run_fields [simp]:
  "window_secs (fold cb_step es b) = window_secs b"
  "failure_threshold (fold cb_step es b) = failure_threshold b"
  by (induction es arbitrary: b) simp_all

text \<open>One event: the stored timestamps and the log agree inside every later window.\<close>

lemma step_timestamps:
  "failure_timestamps (cb_step e b) =
     (if cb_state b \<noteq> Closed \<and> cb_state (cb_step e b) = Closed then []
      else case failure_recorded b e of
          [] \<Rightarrow> failure_timestamps b
        | now # _ \<Rightarrow> recent_failures (duration_from_secs (window_secs b)) now (failure_timestamps b) @ [now])"
proof (cases e)
  case Succeeded
  then show ?thesis by (simp add: record_success_timestamps)
next
  case (FailedAt now)
  then show ?thesis using record_failure_not_closing [of b now] by (auto simp: record_failure_timestamps)
next
  case (Called t0 t1 ok)
  let ?b = "maybe_recover t0 b"
  show ?thesis
  proof (cases "cb_state ?b = Open")
    case True
    then show ?thesis using Called maybe_recover_closed [of t0 b] by (simp add: cb_call_def Let_def)
  next
    case False
    then have "cb_step e b = (if ok then record_success ?b else record_failure t1 ?b)"
      using Called by (cases "cb_state ?b") (simp_all add: cb_call_def Let_def)
    then show ?thesis
      using Called False record_success_timestamps [of ?b] record_failure_timestamps [of t1 ?b]
        record_failure_not_closing [of ?b t1] maybe_recover_closed [of t0 b] by auto
  qed
qed

definition windows_agree :: "duration \<Rightarrow> instant \<Rightarrow> instant list \<Rightarrow> instant list \<Rightarrow> bool" where
  "windows_agree W from xs ys \<longleftrightarrow> (\<forall>u \<ge> from. recent_failures W u xs = recent_failures W u ys)"

lemma windows_agree_refl [simp]: "windows_agree W from xs xs"
  by (simp add: windows_agree_def)

lemma windows_agree_later: "windows_agree W from xs ys \<Longrightarrow> from \<le> later \<Longrightarrow> windows_agree W later xs ys"
  by (auto simp: windows_agree_def)

lemma windows_agree_failure:
  "windows_agree W from xs ys \<Longrightarrow> from \<le> now \<Longrightarrow>
     windows_agree W now (recent_failures W now xs @ [now]) (ys @ [now])"
  by (auto simp: windows_agree_def recent_failures_later)
    (auto simp: recent_failures_def intro!: filter_cong)

lemma recent_failures_append: "recent_failures W u (xs @ ys) = recent_failures W u xs @ recent_failures W u ys"
  by (simp add: recent_failures_def)

lemma last_append_cons: "last (x # xs @ ys) = last (last (x # xs) # ys)"
  by (cases "ys = []") simp_all

lemma last_le_of_sorted: "sorted (x # xs @ [now]) \<Longrightarrow> last (x # xs) \<le> now"
  using last_in_set [of "x # xs"] by (auto simp: sorted_append)

lemma step_windows_agree:
  assumes "sorted (from # event_times e)"
    and "windows_agree (duration_from_secs (window_secs b)) from (failure_timestamps b) seen"
  shows "windows_agree (duration_from_secs (window_secs b)) (last (from # event_times e))
    (failure_timestamps (cb_step e b))
    (if cb_state b \<noteq> Closed \<and> cb_state (cb_step e b) = Closed then [] else seen @ failure_recorded b e)"
proof (cases "failure_recorded b e")
  case Nil
  have "from \<le> last (from # event_times e)" using assms(1) by (cases e) auto
  then show ?thesis using Nil assms(2) by (simp add: step_timestamps windows_agree_later del: last.simps)
next
  case (Cons t rest)
  then have t: "failure_recorded b e = [t]" "last (from # event_times e) = t" "from \<le> t"
    using assms(1) by (cases e; auto split: if_splits)+
  show ?thesis
    using windows_agree_failure [OF assms(2) t(3)] t(1,2) by (simp add: step_timestamps del: last.simps)
qed

lemma run_windows_agree:
  assumes "sorted (from # concat (map event_times es))"
    and "windows_agree (duration_from_secs (window_secs b)) from (failure_timestamps b) seen"
  shows "windows_agree (duration_from_secs (window_secs b)) (last (from # concat (map event_times es)))
    (failure_timestamps (fold cb_step es b)) (failures_since_close es b seen)"
  using assms
proof (induction es arbitrary: "from" b seen)
  case Nil
  then show ?case by simp
next
  case (Cons e es)
  let ?f = "last (from # event_times e)" and ?ts = "concat (map event_times es)"
  have e: "sorted (from # event_times e)" using Cons.prems(1) by (auto simp: sorted_append)
  have "\<forall>x \<in> set ?ts. ?f \<le> x" "sorted ?ts" using Cons.prems(1) by (auto simp: sorted_append)
  then have es: "sorted (?f # ?ts)" by simp
  have "last (from # concat (map event_times (e # es))) = last (?f # ?ts)"
    using last_append_cons [of "from" "event_times e" ?ts] by simp
  then show ?case
    using Cons.IH [OF es, of "cb_step e b"] step_windows_agree [OF e Cons.prems(2)] by simp
qed

text \<open>
  C29: Whatever was reported to a breaker and called through it before, at times that do not run
  backwards: a closed breaker trips on the next failure exactly when the failures recorded since it last
  closed and still inside the window that ends there, this one included, reach the threshold, and
  stays closed otherwise. Pruning the stored timestamps never loses a failure that counts and
  never counts one that does not.
\<close>

theorem breaker_trips_iff_window_full:
  fixes f w sthr tmo es
  defines "b0 \<equiv> cb_new f w sthr tmo"
  defines "b \<equiv> fold cb_step es b0"
  assumes "sorted (concat (map event_times es) @ [now])" and "cb_state b = Closed"
  shows "cb_state (record_failure now b) =
    (if unat f \<le> length (recent_failures (duration_from_secs w) now (failures_since_close es b0 [] @ [now]))
     then Open else Closed)"
proof -
  let ?W = "duration_from_secs w"
  have srt: "sorted (0 # concat (map event_times es))" using assms(3) by (simp add: sorted_append)
  have agree: "windows_agree ?W (last (0 # concat (map event_times es))) (failure_timestamps b)
      (failures_since_close es b0 [])"
    using run_windows_agree [OF srt, of b0 "[]"] by (simp add: b_def b0_def cb_new_def)
  have "last (0 # concat (map event_times es)) \<le> now"
    using assms(3) by (intro last_le_of_sorted) simp
  with agree have eq: "recent_failures ?W now (failure_timestamps b) =
      recent_failures ?W now (failures_since_close es b0 [])"
    by (simp add: windows_agree_def)
  have fields: "window_secs b = w" "failure_threshold b = f"
    by (simp_all add: b_def b0_def cb_new_def)
  have inv: "cb_inv b" unfolding b_def b0_def by (rule cb.run_inv [OF cb_inv_new])
  have "cb_state (record_failure now b) \<in> {Open, Closed}" using assms(4) by (simp add: cb_defs)
  then show ?thesis
    using record_failure_closed(1) [OF inv assms(4), of now] eq fields
    by (auto simp: recent_failures_append not_less) (auto simp: recent_failures_def)
qed

text \<open>Opened by two failures, closed by a call, and opened again by two later failures.\<close>

definition demo_breaker :: "circuit_state \<Rightarrow> instant list \<Rightarrow> instant option \<Rightarrow> u64 \<Rightarrow> circuit_breaker" where
  "demo_breaker st ts opened trips = \<lparr> cb_state = st, failure_timestamps = ts, failure_threshold = 2,
     window_secs = 60, success_threshold = 1, cb_timeout = 15, half_open_successes = 0,
     opened_at = opened, rejected_total = 0, trips_total = trips \<rparr>"

lemma demo_breaker_steps:
  "cb_new 2 60 1 15 = demo_breaker Closed [] None 0"
  "cb_step (FailedAt 0) (demo_breaker Closed [] None 0) = demo_breaker Closed [0] None 0"
  "cb_step (FailedAt 10) (demo_breaker Closed [0] None 0) = demo_breaker Open [0, 10] (Some 10) 1"
  "cb_step (Called 40 45 True) (demo_breaker Open [0, 10] (Some 10) 1) = demo_breaker Closed [] None 1"
  "cb_step (FailedAt 60) (demo_breaker Closed [] None 1) = demo_breaker Closed [60] None 1"
  by (simp_all add: demo_breaker_def cb_new_def cb_defs duration_from_secs_def word_le_nat_alt)

lemma breaker_trips_iff_window_full_witness:
  "cb_state (record_failure 70 (fold cb_step [FailedAt 0, FailedAt 10, Called 40 45 True, FailedAt 60]
     (cb_new 2 60 1 15))) = Open"
proof -
  let ?es = "[FailedAt 0, FailedAt 10, Called 40 45 True, FailedAt 60]"
  have closed: "cb_state (fold cb_step ?es (cb_new 2 60 1 15)) = Closed"
    by (simp add: demo_breaker_steps del: cb_step.simps) (simp add: demo_breaker_def)
  have seen: "failures_since_close ?es (cb_new 2 60 1 15) [] = [60]"
    by (simp add: demo_breaker_steps del: cb_step.simps) (simp add: demo_breaker_def)
  have two: "unat (2 :: u32) \<le> length (recent_failures (duration_from_secs 60) 70 ([60] @ [70]))"
    by (simp add: duration_from_secs_def recent_failures_def)
  have "sorted (concat (map event_times ?es) @ [70])" by simp
  from breaker_trips_iff_window_full [OF this closed] show ?thesis
    unfolding seen using two by (simp only: if_True)
qed

subsection \<open>Failing fast and recovering\<close>

text \<open>
  while the circuit is open and its timeout has not elapsed, a call fails fast: it
  returns the open error, does not run the closure (the world is unchanged) and changes
  nothing but the count of rejected calls.
\<close>

theorem open_call_fails_fast:
  assumes "cb_state b = Open" and "opened_at b = Some t" and "t0 - t < cb_timeout b"
  shows "cb_call t0 t1 f b w = (Inl ErrOpen, b\<lparr> rejected_total := rejected_total b + 1 \<rparr>, w)"
  using assms by (simp add: cb_defs)

theorem open_call_fails_fast_witness:
  "cb_call 10 20 (\<lambda>w. (Inr (), w + 1)) (trip 5 (cb_new 1 60 2 100)) (7::nat) =
     (Inl ErrOpen :: unit circuit_error + unit,
      (trip 5 (cb_new 1 60 2 100))\<lparr> rejected_total := 1 \<rparr>, 7)"
  by (subst open_call_fails_fast [of _ 5]) (simp_all add: cb_new_def trip_def)

definition successful_calls :: "(instant \<times> instant) list \<Rightarrow> cb_event list" where
  "successful_calls cs = map (\<lambda>(t0, t1). Called t0 t1 True) cs"

lemma half_open_call:
  "cb_state b = HalfOpen \<Longrightarrow> cb_step (Called t0 t1 True) b = record_success b"
  by (simp add: cb_defs)

lemma half_open_calls:
  assumes "cb_state b = HalfOpen"
    and "unat (half_open_successes b) + length cs < unat (success_threshold b)"
  shows "fold cb_step (successful_calls cs) b =
    b\<lparr> half_open_successes := half_open_successes b + of_nat (length cs) \<rparr>"
  using assms
proof (induction cs arbitrary: b)
  case Nil
  then show ?case by (simp add: successful_calls_def)
next
  case (Cons c cs)
  obtain t0 t1 where c: "c = (t0, t1)" by (cases c)
  let ?b1 = "b\<lparr> half_open_successes := half_open_successes b + 1 \<rparr>"
  have small: "unat (half_open_successes b) + 1 < 2 ^ LENGTH(32)"
    using Cons.prems(2) unat_bound [of "success_threshold b"] by simp
  then have u: "unat (half_open_successes b + 1) = unat (half_open_successes b) + 1"
    by (simp add: unat_word_ariths)
  have "cb_step (Called t0 t1 True) b = ?b1"
    using Cons.prems u by (simp add: cb_defs word_le_nat_alt)
  moreover have "fold cb_step (successful_calls cs) ?b1 =
      ?b1\<lparr> half_open_successes := half_open_successes ?b1 + of_nat (length cs) \<rparr>"
    by (rule Cons.IH) (use Cons.prems u in simp_all)
  ultimately show ?case by (simp add: successful_calls_def c add.assoc)
qed

lemma half_open_last_call:
  assumes "cb_state b = HalfOpen" and "success_threshold b \<le> half_open_successes b + 1"
  shows "cb_step (Called t0 t1 True) b = cb_close (b\<lparr> half_open_successes := half_open_successes b + 1 \<rparr>)"
  using assms by (simp add: half_open_call record_success_def Let_def del: cb_step.simps)

lemma half_open_closes:
  assumes "cb_state b = HalfOpen" and "half_open_successes b = 0"
    and "length cs = max 1 (unat (success_threshold b))"
  shows "fold cb_step (successful_calls cs) b = cb_close (b\<lparr> half_open_successes := of_nat (length cs) \<rparr>)"
proof -
  have "cs \<noteq> []" using assms(3) by auto
  then obtain ds d where cs: "cs = ds @ [d]" by (metis append_butlast_last_id)
  let ?b = "b\<lparr> half_open_successes := of_nat (length ds) \<rparr>"
  have A: "fold cb_step (successful_calls ds) b = ?b"
  proof (cases "unat (success_threshold b) = 0")
    case True
    then show ?thesis using assms by (simp add: cs successful_calls_def)
  next
    case False
    then show ?thesis using half_open_calls [OF assms(1), of ds] assms by (simp add: cs)
  qed
  have "unat (success_threshold b) \<le> unat (of_nat (length cs) :: u32)"
    using assms(3) by (cases "unat (success_threshold b) = 0") simp_all
  then have B: "success_threshold ?b \<le> half_open_successes ?b + 1"
    by (simp add: word_le_nat_alt cs add.commute)
  have "fold cb_step (successful_calls cs) b = cb_step (Called (fst d) (snd d) True) ?b"
    by (simp add: cs successful_calls_def split_def A [unfolded successful_calls_def split_def]
        del: cb_step.simps)
  also have "\<dots> = cb_close (?b\<lparr> half_open_successes := half_open_successes ?b + 1 \<rparr>)"
    using assms(1) B by (intro half_open_last_call) simp_all
  finally show ?thesis by (simp add: cs add.commute)
qed

lemma recovered_first_call:
  assumes "cb_state b = Open" and "opened_at b = Some t" and "fst c - t \<ge> cb_timeout b"
  shows "fold cb_step (successful_calls (c # cs)) b =
    fold cb_step (successful_calls (c # cs)) (b\<lparr> cb_state := HalfOpen, half_open_successes := 0 \<rparr>)"
  using assms by (cases c) (simp add: successful_calls_def cb_call_def maybe_recover_def)

text \<open>
  recovery. Once the timeout has elapsed, the circuit stays half-open through exactly the
  configured number of consecutive successful calls (at least one) and the last of them closes
  it with an empty failure window: it neither closes early nor needs one success more.
\<close>

theorem breaker_recovers:
  assumes "cb_state b = Open" and "opened_at b = Some t" and "fst c - t \<ge> cb_timeout b"
    and "length (c # cs) = max 1 (unat (success_threshold b))"
  shows "cb_state (fold cb_step (successful_calls (c # cs)) b) = Closed \<and>
    failure_timestamps (fold cb_step (successful_calls (c # cs)) b) = [] \<and>
    (\<forall>k. 0 < k \<and> k < length (c # cs) \<longrightarrow>
       cb_state (fold cb_step (successful_calls (take k (c # cs))) b) = HalfOpen)"
proof -
  let ?h = "b\<lparr> cb_state := HalfOpen, half_open_successes := 0 \<rparr>"
  have "fold cb_step (successful_calls (c # cs)) b =
      cb_close (?h\<lparr> half_open_successes := of_nat (length (c # cs)) \<rparr>)"
    unfolding recovered_first_call [OF assms(1-3)] using assms(4) by (intro half_open_closes) simp_all
  moreover have "cb_state (fold cb_step (successful_calls (take k (c # cs))) b) = HalfOpen"
    if k: "0 < k" "k < length (c # cs)" for k
  proof -
    obtain j where j: "k = Suc j" using k(1) by (cases k) auto
    have "length (c # take j cs) < unat (success_threshold ?h)"
      using k assms(4) by (simp add: j max_def split: if_splits)
    then have "fold cb_step (successful_calls (c # take j cs)) ?h =
        ?h\<lparr> half_open_successes := 0 + of_nat (length (c # take j cs)) \<rparr>"
      using half_open_calls [of ?h "c # take j cs"] by simp
    then show ?thesis by (simp add: j recovered_first_call [OF assms(1-3)])
  qed
  ultimately show ?thesis by (simp add: cb_close_def)
qed

theorem breaker_recovers_witness:
  "cb_state (fold cb_step (successful_calls [(200, 201), (202, 203)]) (trip 5 (cb_new 1 60 2 100))) = Closed"
  using breaker_recovers [of "trip 5 (cb_new 1 60 2 100)" 5 "(200, 201)" "[(202, 203)]"]
  by (simp add: cb_new_def trip_def)

end
