(* ===== verification/Perceptual_Types.thy ===== *)
theory Perceptual_Types
  imports Apollo_Prelude
begin

text \<open>
  \<open>engine/perceptual/types.rs\<close>, \<open>capabilities.rs\<close> and \<open>validation.rs\<close>: the vocabulary
  of perceptual observations, what a producer declares it can see, and the boundary check of
  an untrusted envelope. An identity of sixteen bytes is a list of bytes. Labels and producer
  versions are strings of code points below 256.
\<close>

subsection \<open>Identities and closed vocabularies\<close>

type_synonym perceptual_id = "u8 list"

definition zero_id :: perceptual_id where
  "zero_id = replicate 16 0"

definition perceptual_id_new :: "u8 list \<Rightarrow> perceptual_id option" where
  "perceptual_id_new bytes = (if bytes \<noteq> zero_id then Some bytes else None)"

definition MAX_PRODUCER_VERSION_CHARS :: nat where "MAX_PRODUCER_VERSION_CHARS = 16"
definition MAX_COMPONENTS :: nat where "MAX_COMPONENTS = 8"
definition QUALITY_SCALE :: u16 where "QUALITY_SCALE = 1000"

definition is_white_space :: "char \<Rightarrow> bool" where
  "is_white_space c \<longleftrightarrow>
     (let n = of_char c :: nat in 9 \<le> n \<and> n \<le> 13 \<or> n = 32 \<or> n = 133 \<or> n = 160)"

definition trim :: "string \<Rightarrow> string" where
  "trim s = rev (dropWhile is_white_space (rev (dropWhile is_white_space s)))"

definition bounded_version_new :: "string \<Rightarrow> string option" where
  "bounded_version_new v =
     (let trimmed = trim v
      in if trimmed \<noteq> [] \<and> length trimmed \<le> MAX_PRODUCER_VERSION_CHARS then Some trimmed else None)"

datatype producer_kind =
  PK_Unknown | PK_InstrumentedExtension | PK_EditorPlugin | PK_ShellIntegration
| PK_MacOsObserver | PK_SyntheticTest

fun producer_kind_as_str :: "producer_kind \<Rightarrow> string" where
  "producer_kind_as_str PK_Unknown = ''unknown''"
| "producer_kind_as_str PK_InstrumentedExtension = ''instrumented-extension''"
| "producer_kind_as_str PK_EditorPlugin = ''editor-plugin''"
| "producer_kind_as_str PK_ShellIntegration = ''shell-integration''"
| "producer_kind_as_str PK_MacOsObserver = ''macos-observer''"
| "producer_kind_as_str PK_SyntheticTest = ''synthetic-test''"

datatype source_kind =
  SK_Unknown | SK_BrowserChromium | SK_Editor | SK_Terminal | SK_NativeApplication
| SK_ElectronApplication | SK_WindowSystem | SK_GenericForegroundApplication | SK_Synthetic

fun source_kind_as_str :: "source_kind \<Rightarrow> string" where
  "source_kind_as_str SK_Unknown = ''unknown''"
| "source_kind_as_str SK_BrowserChromium = ''browser-chromium''"
| "source_kind_as_str SK_Editor = ''editor''"
| "source_kind_as_str SK_Terminal = ''terminal''"
| "source_kind_as_str SK_NativeApplication = ''native-app''"
| "source_kind_as_str SK_ElectronApplication = ''electron-app''"
| "source_kind_as_str SK_WindowSystem = ''window-system''"
| "source_kind_as_str SK_GenericForegroundApplication = ''foreground-app''"
| "source_kind_as_str SK_Synthetic = ''synthetic''"

datatype measurement_mode = MM_Instrumented | MM_Correlated | MM_Inferred | MM_AggregateWindow

fun measurement_mode_as_str :: "measurement_mode \<Rightarrow> string" where
  "measurement_mode_as_str MM_Instrumented = ''instrumented''"
| "measurement_mode_as_str MM_Correlated = ''correlated''"
| "measurement_mode_as_str MM_Inferred = ''inferred''"
| "measurement_mode_as_str MM_AggregateWindow = ''window''"

definition mode_comparable_with :: "measurement_mode \<Rightarrow> measurement_mode \<Rightarrow> bool" where
  "mode_comparable_with a b \<longleftrightarrow> a = b"

datatype latency_component_kind =
  LC_InputDelay | LC_Processing | LC_Presentation | LC_CommandDispatch | LC_CommandExecution
| LC_PromptReady | LC_RenderResponse | LC_SchedulerWait | LC_Unknown

fun latency_kind_as_str :: "latency_component_kind \<Rightarrow> string" where
  "latency_kind_as_str LC_InputDelay = ''input-delay''"
| "latency_kind_as_str LC_Processing = ''processing''"
| "latency_kind_as_str LC_Presentation = ''presentation''"
| "latency_kind_as_str LC_CommandDispatch = ''command-dispatch''"
| "latency_kind_as_str LC_CommandExecution = ''command-execution''"
| "latency_kind_as_str LC_PromptReady = ''prompt-ready''"
| "latency_kind_as_str LC_RenderResponse = ''render-response''"
| "latency_kind_as_str LC_SchedulerWait = ''scheduler-wait''"
| "latency_kind_as_str LC_Unknown = ''unknown''"

datatype correlation_state =
  CS_Unique | CS_Ambiguous | CS_StartedOnly | CS_CompletedOnly | CS_Unmatched | CS_Duplicate
| CS_Expired | CS_InvalidSequence | CS_InvalidSchema | CS_InvalidTiming | CS_InvalidMeasurement

fun correlation_state_as_str :: "correlation_state \<Rightarrow> string" where
  "correlation_state_as_str CS_Unique = ''unique''"
| "correlation_state_as_str CS_Ambiguous = ''ambiguous''"
| "correlation_state_as_str CS_StartedOnly = ''started-only''"
| "correlation_state_as_str CS_CompletedOnly = ''completed-only''"
| "correlation_state_as_str CS_Unmatched = ''unmatched''"
| "correlation_state_as_str CS_Duplicate = ''duplicate''"
| "correlation_state_as_str CS_Expired = ''expired''"
| "correlation_state_as_str CS_InvalidSequence = ''invalid-sequence''"
| "correlation_state_as_str CS_InvalidSchema = ''invalid-schema''"
| "correlation_state_as_str CS_InvalidTiming = ''invalid-timing''"
| "correlation_state_as_str CS_InvalidMeasurement = ''invalid-measurement''"

definition state_admits_to_aggregate :: "correlation_state \<Rightarrow> bool" where
  "state_admits_to_aggregate s \<longleftrightarrow> s = CS_Unique \<or> s = CS_CompletedOnly"

datatype inference_basis =
  IB_Unknown | IB_ForegroundResponseProxy | IB_WindowSystemActivity | IB_ProcessActivity

fun inference_basis_as_str :: "inference_basis \<Rightarrow> string" where
  "inference_basis_as_str IB_Unknown = ''unknown''"
| "inference_basis_as_str IB_ForegroundResponseProxy = ''foreground-response-proxy''"
| "inference_basis_as_str IB_WindowSystemActivity = ''window-system-activity''"
| "inference_basis_as_str IB_ProcessActivity = ''process-activity''"

subsection \<open>Observations\<close>

record interaction_scope =
  producer_session_id :: perceptual_id
  surface_session_id :: "perceptual_id option"
  activity_session_id :: "perceptual_id option"
  context_hash :: "u64 option"

record latency_component =
  lc_kind :: latency_component_kind
  lc_duration_ms :: u32

record perceptual_measurement =
  total_duration_ms :: "u32 option"
  components :: "latency_component list"
  measurement_mode :: measurement_mode

definition measured_component :: "latency_component_kind \<Rightarrow> perceptual_measurement \<Rightarrow> u32 option" where
  "measured_component kind m = map_option lc_duration_ms (find (\<lambda>c. lc_kind c = kind) (components m))"

definition components_sum :: "perceptual_measurement \<Rightarrow> u32" where
  "components_sum m = foldl (\<lambda>acc c. sat_add acc (lc_duration_ms c)) 0 (components m)"

definition abs_diff :: "u32 \<Rightarrow> u32 \<Rightarrow> u32" where
  "abs_diff a b = (if a \<le> b then b - a else a - b)"

definition reconciles_within :: "u32 \<Rightarrow> perceptual_measurement \<Rightarrow> bool option" where
  "reconciles_within tolerance m =
     (case total_duration_ms m of
        None \<Rightarrow> None
      | Some t \<Rightarrow>
          if components m = [] then None
          else Some (abs_diff (components_sum m) t \<le> tolerance))"

record perceptual_quality =
  source_trust_q :: u16
  measurement_quality_q :: u16
  temporal_confidence_q :: u16
  correlation_confidence_q :: u16
  attribution_confidence_q :: u16

definition overall_q :: "perceptual_quality \<Rightarrow> u16" where
  "overall_q q = foldl min (source_trust_q q)
     [measurement_quality_q q, temporal_confidence_q q, correlation_confidence_q q, attribution_confidence_q q]"

definition clamped :: "perceptual_quality \<Rightarrow> perceptual_quality" where
  "clamped q = \<lparr> source_trust_q = min (source_trust_q q) QUALITY_SCALE,
     measurement_quality_q = min (measurement_quality_q q) QUALITY_SCALE,
     temporal_confidence_q = min (temporal_confidence_q q) QUALITY_SCALE,
     correlation_confidence_q = min (correlation_confidence_q q) QUALITY_SCALE,
     attribution_confidence_q = min (attribution_confidence_q q) QUALITY_SCALE \<rparr>"

record transport_trace =
  producer_segment_ms :: "u32 option"
  bridge_segment_ms :: "u32 option"
  daemon_segment_ms :: "u32 option"
  total_observed_ms :: "u32 option"
  cold_start :: "bool option"
  queue_wait_ms :: "u32 option"
  dropped_before_ingest :: bool
  transport_quality_q :: u16

record observation_header =
  observed_at_ms :: u64
  hd_source_kind :: source_kind
  hd_producer_kind :: producer_kind
  hd_scope :: interaction_scope
  quality :: perceptual_quality
  correlation :: correlation_state
  transport :: transport_trace
  legacy_contract :: bool

record instrumented_episode =
  ie_header :: observation_header
  ie_measurement :: perceptual_measurement

record inferred_episode =
  fe_header :: observation_header
  fe_measurement :: perceptual_measurement
  inference_basis :: inference_basis

record window_observation =
  wo_header :: observation_header
  window_ms :: u32
  signal_count :: u32
  sluggishness_q :: u16
  wo_measurement :: perceptual_measurement

datatype observation =
  InstrumentedInteraction instrumented_episode
| InferredInteraction inferred_episode
| PerceptualWindow window_observation

fun obs_header :: "observation \<Rightarrow> observation_header" where
  "obs_header (InstrumentedInteraction e) = ie_header e"
| "obs_header (InferredInteraction e) = fe_header e"
| "obs_header (PerceptualWindow w) = wo_header w"

fun obs_measurement :: "observation \<Rightarrow> perceptual_measurement" where
  "obs_measurement (InstrumentedInteraction e) = ie_measurement e"
| "obs_measurement (InferredInteraction e) = fe_measurement e"
| "obs_measurement (PerceptualWindow w) = wo_measurement w"

fun is_individual_interaction :: "observation \<Rightarrow> bool" where
  "is_individual_interaction (PerceptualWindow _) = False"
| "is_individual_interaction _ = True"

fun modality :: "observation \<Rightarrow> string" where
  "modality (InstrumentedInteraction _) = ''instrumented''"
| "modality (InferredInteraction _) = ''inferred''"
| "modality (PerceptualWindow _) = ''window''"

definition obs_comparable_with :: "observation \<Rightarrow> observation \<Rightarrow> bool" where
  "obs_comparable_with a b \<longleftrightarrow> modality a = modality b \<and>
     mode_comparable_with (measurement_mode (obs_measurement a)) (measurement_mode (obs_measurement b))"

definition admits_to_aggregate :: "observation \<Rightarrow> bool" where
  "admits_to_aggregate ob \<longleftrightarrow> state_admits_to_aggregate (correlation (obs_header ob))"

subsection \<open>Declared capabilities\<close>

record capabilities =
  has_started_event :: bool
  has_completed_event :: bool
  has_total_duration :: bool
  has_latency_breakdown :: bool
  has_semantic_operation :: bool
  has_surface_identity :: bool
  has_client_monotonic_clock :: bool
  has_response_signal :: bool
  supports_transport_trace :: bool

definition instrumented :: capabilities where
  "instrumented = \<lparr> has_started_event = False, has_completed_event = True, has_total_duration = True,
     has_latency_breakdown = True, has_semantic_operation = False, has_surface_identity = True,
     has_client_monotonic_clock = True, has_response_signal = True, supports_transport_trace = True \<rparr>"

definition external_observer :: capabilities where
  "external_observer = \<lparr> has_started_event = False, has_completed_event = False, has_total_duration = False,
     has_latency_breakdown = False, has_semantic_operation = False, has_surface_identity = False,
     has_client_monotonic_clock = False, has_response_signal = True, supports_transport_trace = False \<rparr>"

definition is_coherent :: "capabilities \<Rightarrow> bool" where
  "is_coherent c =
     (if has_latency_breakdown c \<and> \<not> has_total_duration c then False
      else if has_total_duration c \<and> \<not> (has_completed_event c \<or> has_response_signal c) then False
      else True)"

definition missing :: "capabilities \<Rightarrow> string list" where
  "missing c = map snd (filter (\<lambda>(present, _). \<not> present)
     [(has_started_event c, ''started''), (has_completed_event c, ''completed''),
      (has_total_duration c, ''total''), (has_latency_breakdown c, ''breakdown''),
      (has_semantic_operation c, ''semantic''), (has_surface_identity c, ''surface''),
      (has_client_monotonic_clock c, ''client-clock''), (has_response_signal c, ''response''),
      (supports_transport_trace c, ''transport'')])"

subsection \<open>The boundary check\<close>

record event_envelope =
  ev_schema_version :: u16
  ev_producer_id :: perceptual_id
  ev_producer_version :: string
  ev_producer_kind :: producer_kind
  ev_source_kind :: source_kind
  ev_capabilities :: capabilities
  ev_sequence :: u64
  ev_observation :: observation

definition PERCEPTUAL_SCHEMA_VERSION :: u16 where "PERCEPTUAL_SCHEMA_VERSION = 1"
definition MIN_PERCEPTUAL_SCHEMA_VERSION :: u16 where "MIN_PERCEPTUAL_SCHEMA_VERSION = 1"
definition MAX_DURATION_MS :: u32 where "MAX_DURATION_MS = 120000"
definition MAX_WINDOW_MS :: u32 where "MAX_WINDOW_MS = 600000"
definition MAX_WINDOW_SIGNALS :: u32 where "MAX_WINDOW_SIGNALS = 100000"

datatype validation_error =
  UnsupportedSchema | ZeroProducerIdentity | ZeroSequence | TooManyComponents
| DuplicateComponentKind | DurationOutOfRange | ComponentOutOfRange | QualityOutOfRange
| WindowOutOfRange | IncoherentCapabilities | CapabilityContradiction

fun validation_error_as_str :: "validation_error \<Rightarrow> string" where
  "validation_error_as_str UnsupportedSchema = ''unsupported-schema''"
| "validation_error_as_str ZeroProducerIdentity = ''zero-producer-identity''"
| "validation_error_as_str ZeroSequence = ''zero-sequence''"
| "validation_error_as_str TooManyComponents = ''too-many-components''"
| "validation_error_as_str DuplicateComponentKind = ''duplicate-component-kind''"
| "validation_error_as_str DurationOutOfRange = ''duration-out-of-range''"
| "validation_error_as_str ComponentOutOfRange = ''component-out-of-range''"
| "validation_error_as_str QualityOutOfRange = ''quality-out-of-range''"
| "validation_error_as_str WindowOutOfRange = ''window-out-of-range''"
| "validation_error_as_str IncoherentCapabilities = ''incoherent-capabilities''"
| "validation_error_as_str CapabilityContradiction = ''capability-contradiction''"

text \<open>The loop over the components, which stops at the first one it refuses.\<close>

fun check_components ::
  "latency_component_kind list \<Rightarrow> latency_component list \<Rightarrow> validation_error option" where
  "check_components seen [] = None"
| "check_components seen (c # cs) =
     (if lc_duration_ms c > MAX_DURATION_MS then Some ComponentOutOfRange
      else if lc_kind c \<in> set seen then Some DuplicateComponentKind
      else check_components (seen @ [lc_kind c]) cs)"

fun check_window :: "observation \<Rightarrow> validation_error option" where
  "check_window (PerceptualWindow w) =
     (if window_ms w = 0 \<or> window_ms w > MAX_WINDOW_MS \<or> signal_count w > MAX_WINDOW_SIGNALS
         \<or> sluggishness_q w > QUALITY_SCALE
      then Some WindowOutOfRange else None)"
| "check_window _ = None"

definition quality_values :: "observation_header \<Rightarrow> u16 list" where
  "quality_values h =
     [source_trust_q (quality h), measurement_quality_q (quality h), temporal_confidence_q (quality h),
      correlation_confidence_q (quality h), attribution_confidence_q (quality h),
      transport_quality_q (transport h)]"

text \<open>\<open>None\<close> is \<open>Ok(())\<close>; \<open>Some e\<close> is \<open>Err(e)\<close>.\<close>

definition validate_envelope :: "event_envelope \<Rightarrow> validation_error option" where
  "validate_envelope ev =
     (let h = obs_header (ev_observation ev); m = obs_measurement (ev_observation ev)
      in if ev_schema_version ev > PERCEPTUAL_SCHEMA_VERSION
            \<or> ev_schema_version ev < MIN_PERCEPTUAL_SCHEMA_VERSION then Some UnsupportedSchema
         else if ev_producer_id ev = zero_id then Some ZeroProducerIdentity
         else if ev_sequence ev = 0 then Some ZeroSequence
         else if \<not> is_coherent (ev_capabilities ev) then Some IncoherentCapabilities
         else if producer_session_id (hd_scope h) = zero_id then Some ZeroProducerIdentity
         else if list_ex (\<lambda>v. v > QUALITY_SCALE) (quality_values h) then Some QualityOutOfRange
         else if length (components m) > MAX_COMPONENTS then Some TooManyComponents
         else (case check_components [] (components m) of
             Some e \<Rightarrow> Some e
           | None \<Rightarrow>
               (if (case total_duration_ms m of Some t \<Rightarrow> t > MAX_DURATION_MS | None \<Rightarrow> False)
                then Some DurationOutOfRange
                else if components m \<noteq> [] \<and> \<not> has_latency_breakdown (ev_capabilities ev)
                then Some CapabilityContradiction
                else if total_duration_ms m \<noteq> None \<and> \<not> has_total_duration (ev_capabilities ev)
                then Some CapabilityContradiction
                else check_window (ev_observation ev))))"

subsection \<open>What an accepted envelope guarantees\<close>

lemma check_components_None:
  "check_components seen cs = None \<longleftrightarrow>
     list_all (\<lambda>c. lc_duration_ms c \<le> MAX_DURATION_MS) cs \<and> distinct (map lc_kind cs) \<and>
     set (map lc_kind cs) \<inter> set seen = {}"
  by (induction seen cs rule: check_components.induct) (auto simp: not_less)

lemma check_window_None:
  "check_window ob = None \<longleftrightarrow> (case ob of
     PerceptualWindow w \<Rightarrow> 0 < window_ms w \<and> window_ms w \<le> MAX_WINDOW_MS
       \<and> signal_count w \<le> MAX_WINDOW_SIGNALS \<and> sluggishness_q w \<le> QUALITY_SCALE
   | _ \<Rightarrow> True)"
  by (cases ob) (auto simp: not_less word_gt_0)

definition well_formed_measurement :: "capabilities \<Rightarrow> perceptual_measurement \<Rightarrow> bool" where
  "well_formed_measurement c m \<longleftrightarrow>
     length (components m) \<le> 8 \<and> distinct (map lc_kind (components m))
     \<and> list_all (\<lambda>x. lc_duration_ms x \<le> 120000) (components m)
     \<and> pred_option (\<lambda>t. t \<le> 120000) (total_duration_ms m)
     \<and> (if has_total_duration c then True else total_duration_ms m = None)
     \<and> (if has_latency_breakdown c then True else components m = [])"

definition well_formed_window :: "observation \<Rightarrow> bool" where
  "well_formed_window ob = (case ob of
     PerceptualWindow w \<Rightarrow> 0 < window_ms w \<and> window_ms w \<le> 600000
       \<and> signal_count w \<le> 100000 \<and> sluggishness_q w \<le> 1000
   | _ \<Rightarrow> True)"

text \<open>
  the boundary check decides exactly the documented contract. An envelope is accepted if
  and only if it speaks schema 1 under a non-zero producer, session and sequence, declares
  coherent capabilities, keeps its six qualities on the 0..1000 scale, reports at most eight
  components of pairwise distinct kinds with every duration at most two minutes, reports no
  total and no breakdown it did not declare it can see, and, when it is a window, keeps the
  window figures in range.
\<close>

theorem validate_envelope_ok_iff:
  "validate_envelope ev = None \<longleftrightarrow>
     ev_schema_version ev = 1 \<and> ev_producer_id ev \<noteq> zero_id
     \<and> producer_session_id (hd_scope (obs_header (ev_observation ev))) \<noteq> zero_id
     \<and> ev_sequence ev \<noteq> 0 \<and> is_coherent (ev_capabilities ev)
     \<and> list_all (\<lambda>v. v \<le> 1000) (quality_values (obs_header (ev_observation ev)))
     \<and> well_formed_measurement (ev_capabilities ev) (obs_measurement (ev_observation ev))
     \<and> well_formed_window (ev_observation ev)"
proof -
  have schema: "(ev_schema_version ev > PERCEPTUAL_SCHEMA_VERSION
      \<or> ev_schema_version ev < MIN_PERCEPTUAL_SCHEMA_VERSION) \<longleftrightarrow> ev_schema_version ev \<noteq> 1"
    unfolding PERCEPTUAL_SCHEMA_VERSION_def MIN_PERCEPTUAL_SCHEMA_VERSION_def
    using neq_iff [of "ev_schema_version ev" 1] by blast
  have q: "list_ex (\<lambda>v. v > QUALITY_SCALE) vs \<longleftrightarrow> \<not> list_all (\<lambda>v. v \<le> 1000) vs" for vs
    by (induction vs) (auto simp: QUALITY_SCALE_def not_less)
  have w: "check_window ob = None \<longleftrightarrow> well_formed_window ob" for ob
    unfolding check_window_None well_formed_window_def MAX_WINDOW_MS_def MAX_WINDOW_SIGNALS_def
      QUALITY_SCALE_def by (rule refl)
  have c: "check_components [] cs = None \<longleftrightarrow>
      list_all (\<lambda>x. lc_duration_ms x \<le> 120000) cs \<and> distinct (map lc_kind cs)" for cs
    by (simp add: check_components_None MAX_DURATION_MS_def)
  let ?m = "obs_measurement (ev_observation ev)"
  show ?thesis
  proof (cases "check_components [] (components ?m)")
    case None
    then show ?thesis
      using c [of "components ?m"] unfolding validate_envelope_def Let_def schema q
      by (auto simp: well_formed_measurement_def MAX_COMPONENTS_def MAX_DURATION_MS_def w not_less
          split: option.splits)
  next
    case (Some e)
    then have "\<not> well_formed_measurement (ev_capabilities ev) ?m"
      using c [of "components ?m"] by (auto simp: well_formed_measurement_def)
    then show ?thesis using Some unfolding validate_envelope_def Let_def by simp
  qed
qed

end
