(* ===== verification/Perceptual_Store.thy ===== *)
theory Perceptual_Store
  imports Perceptual_Types
begin

text \<open>
  \<open>engine/perceptual/store.rs\<close>: the bounded store of perceptual observations, its
  reconciling counters, and its versioned persistence.
\<close>

definition MAX_OBSERVATIONS :: nat where "MAX_OBSERVATIONS = 512"
definition OBSERVATION_TTL_MS :: u64 where "OBSERVATION_TTL_MS = 15 * 60 * 1000"
definition MAX_ACTIVE_PRODUCERS :: nat where "MAX_ACTIVE_PRODUCERS = 16"
definition PERCEPTUAL_STORE_SCHEMA_VERSION :: u16 where "PERCEPTUAL_STORE_SCHEMA_VERSION = 1"
definition MAX_PERSISTED_OBSERVATIONS :: nat where "MAX_PERSISTED_OBSERVATIONS = 128"

record store_metrics =
  ingested_total :: u64
  stored_total :: u64
  refused_correlation :: u64
  refused_capacity :: u64
  evicted_capacity :: u64
  evicted_ttl :: u64
  instrumented_total :: u64
  inferred_total :: u64
  window_total :: u64

definition zero_metrics :: store_metrics where
  "zero_metrics = \<lparr> ingested_total = 0, stored_total = 0, refused_correlation = 0, refused_capacity = 0,
     evicted_capacity = 0, evicted_ttl = 0, instrumented_total = 0, inferred_total = 0, window_total = 0 \<rparr>"

definition reconciles :: "store_metrics \<Rightarrow> bool" where
  "reconciles m \<longleftrightarrow>
     sat_add (sat_add (stored_total m) (refused_correlation m)) (refused_capacity m) = ingested_total m"

record store =
  observations :: "observation list"
  per_source :: "u64 list"
  active_producers :: "perceptual_id list"
  metrics :: store_metrics

fun source_slot :: "source_kind \<Rightarrow> nat" where
  "source_slot SK_Unknown = 0"
| "source_slot SK_BrowserChromium = 1"
| "source_slot SK_Editor = 2"
| "source_slot SK_Terminal = 3"
| "source_slot SK_NativeApplication = 4"
| "source_slot SK_ElectronApplication = 5"
| "source_slot SK_WindowSystem = 6"
| "source_slot SK_GenericForegroundApplication = 7"
| "source_slot SK_Synthetic = 8"

definition store_new :: store where
  "store_new = \<lparr> observations = [], per_source = replicate 9 0, active_producers = [],
     metrics = zero_metrics \<rparr>"

subsection \<open>Recording and expiry\<close>

abbreviation slot_of :: "observation \<Rightarrow> nat" where
  "slot_of ob \<equiv> source_slot (hd_source_kind (obs_header ob))"

abbreviation producer_of :: "observation \<Rightarrow> perceptual_id" where
  "producer_of ob \<equiv> producer_session_id (hd_scope (obs_header ob))"

definition bump_slot :: "(u64 \<Rightarrow> u64) \<Rightarrow> nat \<Rightarrow> u64 list \<Rightarrow> u64 list" where
  "bump_slot f i counts = counts[i := f (counts ! i)]"

definition evict_front :: "store \<Rightarrow> store" where
  "evict_front s =
     (if length (observations s) \<ge> MAX_OBSERVATIONS then
        (let s1 = (case observations s of
                     [] \<Rightarrow> s
                   | dropped # rest \<Rightarrow>
                       s\<lparr> observations := rest,
                          per_source := bump_slot (\<lambda>n. sat_sub n 1) (slot_of dropped) (per_source s) \<rparr>)
         in s1\<lparr> metrics := (metrics s1)\<lparr> evicted_capacity := sat_add (evicted_capacity (metrics s1)) 1 \<rparr> \<rparr>)
      else s)"

fun count_modality :: "observation \<Rightarrow> store_metrics \<Rightarrow> store_metrics" where
  "count_modality (InstrumentedInteraction _) m = m\<lparr> instrumented_total := sat_add (instrumented_total m) 1 \<rparr>"
| "count_modality (InferredInteraction _) m = m\<lparr> inferred_total := sat_add (inferred_total m) 1 \<rparr>"
| "count_modality (PerceptualWindow _) m = m\<lparr> window_total := sat_add (window_total m) 1 \<rparr>"

definition count_ingested :: "store \<Rightarrow> store" where
  "count_ingested s = s\<lparr> metrics := (metrics s)\<lparr> ingested_total := sat_add (ingested_total (metrics s)) 1 \<rparr> \<rparr>"

definition count_refused_correlation :: "store \<Rightarrow> store" where
  "count_refused_correlation s =
     s\<lparr> metrics := (metrics s)\<lparr> refused_correlation := sat_add (refused_correlation (metrics s)) 1 \<rparr> \<rparr>"

definition count_refused_capacity :: "store \<Rightarrow> store" where
  "count_refused_capacity s =
     s\<lparr> metrics := (metrics s)\<lparr> refused_capacity := sat_add (refused_capacity (metrics s)) 1 \<rparr> \<rparr>"

definition store_observation :: "observation \<Rightarrow> store \<Rightarrow> store" where
  "store_observation ob s =
     (let s = evict_front s; m = count_modality ob (metrics s)
      in s\<lparr> metrics := m\<lparr> stored_total := sat_add (stored_total m) 1 \<rparr>,
            per_source := bump_slot (\<lambda>n. sat_add n 1) (slot_of ob) (per_source s),
            observations := observations s @ [ob] \<rparr>)"

definition store_record :: "observation \<Rightarrow> store \<Rightarrow> bool \<times> store" where
  "store_record ob s0 =
     (let s = count_ingested s0
      in if \<not> state_admits_to_aggregate (correlation (obs_header ob)) then
           (False, count_refused_correlation s)
         else if producer_of ob \<notin> set (active_producers s) \<and> length (active_producers s) \<ge> MAX_ACTIVE_PRODUCERS then
           (False, count_refused_capacity s)
         else
           (True, store_observation ob
              (if producer_of ob \<notin> set (active_producers s)
               then s\<lparr> active_producers := active_producers s @ [producer_of ob] \<rparr> else s)))"

definition is_expired :: "u64 \<Rightarrow> observation \<Rightarrow> bool" where
  "is_expired now_ms ob \<longleftrightarrow> sat_sub now_ms (observed_at_ms (obs_header ob)) > OBSERVATION_TTL_MS"

definition drop_expired_front :: "observation \<Rightarrow> store \<Rightarrow> store" where
  "drop_expired_front front s =
     s\<lparr> observations := tl (observations s),
        per_source := bump_slot (\<lambda>n. sat_sub n 1) (slot_of front) (per_source s),
        metrics := (metrics s)\<lparr> evicted_ttl := sat_add (evicted_ttl (metrics s)) 1 \<rparr> \<rparr>"

function expire :: "u64 \<Rightarrow> store \<Rightarrow> store" where
  "expire now_ms s =
     (case observations s of
        [] \<Rightarrow> s
      | front # _ \<Rightarrow> if is_expired now_ms front then expire now_ms (drop_expired_front front s) else s)"
  by pat_completeness auto
termination
  by (relation "measure (\<lambda>(_, s). length (observations s))") (auto simp: drop_expired_front_def)

declare expire.simps [simp del]

definition store_len :: "store \<Rightarrow> nat" where
  "store_len s = length (observations s)"

definition store_is_empty :: "store \<Rightarrow> bool" where
  "store_is_empty s \<longleftrightarrow> observations s = []"

definition count_for :: "source_kind \<Rightarrow> store \<Rightarrow> u64" where
  "count_for kind s = per_source s ! source_slot kind"

definition active_sources :: "store \<Rightarrow> nat" where
  "active_sources s = length (filter (\<lambda>c. c > 0) (per_source s))"

definition active_producers_len :: "store \<Rightarrow> nat" where
  "active_producers_len s = length (active_producers s)"

definition comparable_set :: "string \<Rightarrow> measurement_mode \<Rightarrow> store \<Rightarrow> observation list" where
  "comparable_set md mode s =
     filter (\<lambda>ob. modality ob = md \<and> measurement_mode (obs_measurement ob) = mode) (observations s)"

subsection \<open>Quality by modality\<close>

record modality_quality =
  mq_overall_q :: "u16 option"
  mq_instrumented_q :: "u16 option"
  mq_instrumented_n :: u32
  mq_inferred_q :: "u16 option"
  mq_inferred_n :: u32
  mq_window_q :: "u16 option"
  mq_window_n :: u32

fun modality_slot :: "observation \<Rightarrow> nat" where
  "modality_slot (InstrumentedInteraction _) = 0"
| "modality_slot (InferredInteraction _) = 1"
| "modality_slot (PerceptualWindow _) = 2"

definition acc_quality :: "observation \<Rightarrow> (u64 \<times> u32) list \<Rightarrow> (u64 \<times> u32) list" where
  "acc_quality ob acc =
     (let i = modality_slot ob; (sm, n) = acc ! i
      in acc[i := (sm + ucast (overall_q (quality (obs_header ob))), n + 1)])"

definition mean_q :: "u64 \<times> u32 \<Rightarrow> u16 option" where
  "mean_q p = (let (sm, n) = p
     in if n > 0 then Some (ucast (min (sm div ucast n) (ucast QUALITY_SCALE))) else None)"

definition quality_by_modality :: "store \<Rightarrow> modality_quality" where
  "quality_by_modality s =
     (let acc = fold acc_quality (observations s) (replicate 3 (0, 0));
          overall = fold (\<lambda>(bs, bn) (sm, n). (sm + bs, n + bn)) acc (0, 0)
      in \<lparr> mq_overall_q = mean_q overall,
           mq_instrumented_q = mean_q (acc ! 0), mq_instrumented_n = snd (acc ! 0),
           mq_inferred_q = mean_q (acc ! 1), mq_inferred_n = snd (acc ! 1),
           mq_window_q = mean_q (acc ! 2), mq_window_n = snd (acc ! 2) \<rparr>)"

definition mean_quality_q :: "store \<Rightarrow> u16" where
  "mean_quality_q s = (case mq_overall_q (quality_by_modality s) of Some q \<Rightarrow> q | None \<Rightarrow> 0)"

subsection \<open>Persistence\<close>

record store_persisted =
  sp_schema_version :: u16
  sp_observations :: "observation list"
  sp_metrics :: store_metrics

definition persisted_at :: "u64 \<Rightarrow> store \<Rightarrow> store_persisted" where
  "persisted_at now_ms s =
     (let fresh = filter (\<lambda>ob. sat_sub now_ms (observed_at_ms (obs_header ob)) \<le> OBSERVATION_TTL_MS)
                    (observations s);
          start = length fresh - MAX_PERSISTED_OBSERVATIONS
      in \<lparr> sp_schema_version = PERCEPTUAL_STORE_SCHEMA_VERSION, sp_observations = drop start fresh,
           sp_metrics = metrics s \<rparr>)"

definition persisted :: "store \<Rightarrow> store_persisted" where
  "persisted s =
     persisted_at (if observations s = [] then 0 else observed_at_ms (obs_header (last (observations s)))) s"

definition restore_observation :: "observation \<Rightarrow> store \<Rightarrow> store" where
  "restore_observation ob s =
     (if producer_of ob = zero_id then s
      else
        (let s = (if producer_of ob \<notin> set (active_producers s) \<and> length (active_producers s) < MAX_ACTIVE_PRODUCERS
                  then s\<lparr> active_producers := active_producers s @ [producer_of ob] \<rparr> else s)
         in s\<lparr> per_source := bump_slot (\<lambda>n. n + 1) (slot_of ob) (per_source s),
               observations := observations s @ [ob] \<rparr>))"

definition store_restore :: "store_persisted \<Rightarrow> store" where
  "store_restore st =
     (if sp_schema_version st \<noteq> PERCEPTUAL_STORE_SCHEMA_VERSION then store_new
      else fold restore_observation (take MAX_PERSISTED_OBSERVATIONS (sp_observations st))
             (store_new\<lparr> metrics := sp_metrics st \<rparr>))"

subsection \<open>The index counts the resident observations\<close>

definition slot_count :: "nat \<Rightarrow> observation list \<Rightarrow> nat" where
  "slot_count i obs = length (filter (\<lambda>ob. slot_of ob = i) obs)"

definition counts_ok :: "observation list \<Rightarrow> u64 list \<Rightarrow> bool" where
  "counts_ok obs ps \<longleftrightarrow> length ps = 9 \<and> (\<forall>i < 9. unat (ps ! i) = slot_count i obs)"

lemma source_slot_less [simp]: "source_slot k < 9"
  by (cases k) auto

lemma slot_count_simps [simp]:
  "slot_count i [] = 0"
  "slot_count i (ob # obs) = (if slot_of ob = i then Suc (slot_count i obs) else slot_count i obs)"
  "slot_count i (obs @ [ob]) = (if slot_of ob = i then Suc (slot_count i obs) else slot_count i obs)"
  by (simp_all add: slot_count_def)

lemma slot_count_le: "slot_count i obs \<le> length obs"
  by (simp add: slot_count_def)

lemma counts_ok_tl:
  assumes "counts_ok (ob # obs) ps"
  shows "counts_ok obs (bump_slot (\<lambda>n. sat_sub n 1) (slot_of ob) ps)"
proof -
  have "unat (ps ! slot_of ob) = Suc (slot_count (slot_of ob) obs)"
    using assms by (simp add: counts_ok_def)
  then show ?thesis
    using assms by (auto simp: counts_ok_def bump_slot_def nth_list_update unat_sat_sub)
qed

lemma counts_ok_snoc:
  assumes "counts_ok obs ps" and "length obs < 1000"
    and f: "\<And>n. unat n < 1000 \<Longrightarrow> unat (f n) = Suc (unat n)"
  shows "counts_ok (obs @ [ob]) (bump_slot f (slot_of ob) ps)"
proof -
  have "unat (ps ! slot_of ob) = slot_count (slot_of ob) obs"
    using assms(1) by (simp add: counts_ok_def)
  moreover have "slot_count (slot_of ob) obs < 1000"
    using slot_count_le [of "slot_of ob" obs] assms(2) by linarith
  ultimately show ?thesis
    using assms(1) by (auto simp: counts_ok_def bump_slot_def nth_list_update f)
qed

lemma inc_exact: "unat n < 1000 \<Longrightarrow> unat (sat_add n 1) = Suc (unat n)" for n :: u64
  by (simp add: unat_sat_inc)

lemma inc_wrap_exact: "unat n < 1000 \<Longrightarrow> unat (n + 1) = Suc (unat n)" for n :: u64
  by (simp add: unat_word_ariths)

subsection \<open>The invariant\<close>

definition store_inv :: "store \<Rightarrow> bool" where
  "store_inv s \<longleftrightarrow>
     length (observations s) \<le> MAX_OBSERVATIONS \<and> counts_ok (observations s) (per_source s) \<and>
     distinct (active_producers s) \<and> length (active_producers s) \<le> MAX_ACTIVE_PRODUCERS \<and>
     (\<forall>ob \<in> set (observations s). admits_to_aggregate ob \<and> producer_of ob \<in> set (active_producers s)) \<and>
     reconciles (metrics s)"

lemma store_inv_new: "store_inv store_new"
  by (auto simp: store_inv_def store_new_def counts_ok_def reconciles_def zero_metrics_def
      nth_replicate)

text \<open>Every ingested observation is counted once, and the identity survives saturation.\<close>

lemma reconcile_step:
  fixes a b c n :: u64
  assumes "sat_add (sat_add a b) c = n"
  shows "sat_add (sat_add (sat_add a 1) b) c = sat_add n 1"
    and "sat_add (sat_add a (sat_add b 1)) c = sat_add n 1"
    and "sat_add (sat_add a b) (sat_add c 1) = sat_add n 1"
  unfolding assms [symmetric] by (simp_all add: sat_add_ac)

lemma evict_front_inv:
  assumes "length (observations s) \<le> MAX_OBSERVATIONS" and "counts_ok (observations s) (per_source s)"
  shows "length (observations (evict_front s)) < MAX_OBSERVATIONS"
    and "counts_ok (observations (evict_front s)) (per_source (evict_front s))"
    and "observations (evict_front s) = (if length (observations s) \<ge> 512 then tl (observations s) else observations s)"
    and "active_producers (evict_front s) = active_producers s"
    and "reconciles (metrics (evict_front s)) \<longleftrightarrow> reconciles (metrics s)"
    and "ingested_total (metrics (evict_front s)) = ingested_total (metrics s)
      \<and> stored_total (metrics (evict_front s)) = stored_total (metrics s)
      \<and> refused_correlation (metrics (evict_front s)) = refused_correlation (metrics s)
      \<and> refused_capacity (metrics (evict_front s)) = refused_capacity (metrics s)"
  using assms
  by (cases "observations s"; auto simp: evict_front_def Let_def MAX_OBSERVATIONS_def counts_ok_tl reconciles_def)+

lemma count_modality_fields [simp]:
  "ingested_total (count_modality ob m) = ingested_total m"
  "stored_total (count_modality ob m) = stored_total m"
  "refused_correlation (count_modality ob m) = refused_correlation m"
  "refused_capacity (count_modality ob m) = refused_capacity m"
  by (cases ob; simp)+

lemma store_observation_fields [simp]:
  "observations (store_observation ob s) = observations (evict_front s) @ [ob]"
  "active_producers (store_observation ob s) = active_producers (evict_front s)"
  "per_source (store_observation ob s) =
     bump_slot (\<lambda>n. sat_add n 1) (slot_of ob) (per_source (evict_front s))"
  by (simp_all add: store_observation_def Let_def)

lemma store_record_inv:
  assumes inv: "store_inv s"
  shows "store_inv (snd (store_record ob s))"
proof -
  define m where "m = metrics s"
  have rec: "sat_add (sat_add (stored_total m) (refused_correlation m)) (refused_capacity m) = ingested_total m"
    using inv by (simp add: store_inv_def reconciles_def m_def)
  let ?known = "producer_of ob \<in> set (active_producers s)"
  consider (corr) "\<not> state_admits_to_aggregate (correlation (obs_header ob))"
    | (full) "state_admits_to_aggregate (correlation (obs_header ob))" "\<not> ?known"
        "length (active_producers s) \<ge> MAX_ACTIVE_PRODUCERS"
    | (ok) "state_admits_to_aggregate (correlation (obs_header ob))"
        "?known \<or> length (active_producers s) < MAX_ACTIVE_PRODUCERS"
    by fastforce
  then show ?thesis
  proof cases
    case corr
    then show ?thesis
      using inv reconcile_step(2) [OF rec]
      by (simp add: store_record_def Let_def store_inv_def reconciles_def count_ingested_def
          count_refused_correlation_def m_def)
  next
    case full
    then show ?thesis
      using inv reconcile_step(3) [OF rec]
      by (simp add: store_record_def Let_def store_inv_def reconciles_def count_ingested_def
          count_refused_capacity_def m_def)
  next
    case ok
    define s' where "s' = (if \<not> ?known
      then (count_ingested s)\<lparr> active_producers := active_producers s @ [producer_of ob] \<rparr>
      else count_ingested s)"
    have r: "snd (store_record ob s) = store_observation ob s'"
      using ok by (auto simp: store_record_def Let_def s'_def count_ingested_def)
    have obs': "observations s' = observations s" "per_source s' = per_source s"
      by (simp_all add: s'_def count_ingested_def)
    have pre: "length (observations s') \<le> MAX_OBSERVATIONS" "counts_ok (observations s') (per_source s')"
      using inv by (simp_all add: obs' store_inv_def)
    note ev = evict_front_inv [OF pre]
    have len: "length (observations (evict_front s')) < 1000"
      using ev(1) by (simp add: MAX_OBSERVATIONS_def)
    have ps: "distinct (active_producers s')" "length (active_producers s') \<le> MAX_ACTIVE_PRODUCERS"
      "set (active_producers s') = insert (producer_of ob) (set (active_producers s))"
      using inv ok by (auto simp: s'_def store_inv_def count_ingested_def)
    have sub: "set (observations (evict_front s')) \<subseteq> set (observations s)"
      using ev(3) by (auto simp: obs' dest: list.set_sel(2)) (metis list.set_sel(2) tl_Nil)
    have "reconciles (metrics (store_observation ob s'))"
      using ev(6) reconcile_step(1) [OF rec]
      by (simp add: store_observation_def Let_def reconciles_def s'_def count_ingested_def m_def)
    then show ?thesis
      using ev counts_ok_snoc [OF ev(2) len inc_exact] ps sub inv ok
      by (auto simp: r store_inv_def admits_to_aggregate_def Suc_le_eq)
  qed
qed

lemma drop_expired_front_inv:
  assumes "store_inv s" and "observations s = front # rest"
  shows "store_inv (drop_expired_front front s)"
  using assms counts_ok_tl [of front rest "per_source s"]
  by (auto simp: store_inv_def drop_expired_front_def reconciles_def)

lemma expire_inv: "store_inv s \<Longrightarrow> store_inv (expire now_ms s)"
proof (induction now_ms s rule: expire.induct)
  case (1 now_ms s)
  show ?case
  proof (cases "observations s")
    case Nil
    then show ?thesis using 1 by (subst expire.simps) simp
  next
    case (Cons front rest)
    then show ?thesis
      using 1 drop_expired_front_inv [OF "1.prems" Cons] by (subst expire.simps) (simp add: Cons)
  qed
qed

text \<open>A restore from a snapshot whose producers all lie in a set the store can hold.\<close>

definition restoring :: "perceptual_id list \<Rightarrow> observation list \<Rightarrow> store \<Rightarrow> bool" where
  "restoring known obs s \<longleftrightarrow> observations s = obs \<and> counts_ok obs (per_source s) \<and>
     distinct (active_producers s) \<and> set (active_producers s) \<subseteq> set known \<and>
     producer_of ` set obs \<subseteq> set (active_producers s)"

lemma restoring_step:
  assumes "restoring known obs s" and "distinct known" and "length known \<le> MAX_ACTIVE_PRODUCERS"
    and "producer_of ob \<in> set known" and "producer_of ob \<noteq> zero_id" and "length obs < 1000"
  shows "restoring known (obs @ [ob]) (restore_observation ob s)"
    and "metrics (restore_observation ob s) = metrics s"
proof -
  have room: "length (active_producers s) < MAX_ACTIVE_PRODUCERS" if "producer_of ob \<notin> set (active_producers s)"
  proof -
    have "set (active_producers s) \<subset> set known" using assms(1,4) that by (auto simp: restoring_def)
    then have "card (set (active_producers s)) < card (set known)" by (intro psubset_card_mono) simp_all
    then show ?thesis
      using assms(1-3) by (simp add: restoring_def distinct_card)
  qed
  show "restoring known (obs @ [ob]) (restore_observation ob s)"
    using assms room counts_ok_snoc [OF _ assms(6) inc_wrap_exact, of "per_source s" ob]
    by (auto simp: restoring_def restore_observation_def Let_def)
  show "metrics (restore_observation ob s) = metrics s"
    by (simp add: restore_observation_def Let_def)
qed

definition nonzero_producer :: "observation \<Rightarrow> bool" where
  "nonzero_producer ob \<longleftrightarrow> producer_of ob \<noteq> zero_id"

lemma restore_fold:
  assumes "restoring known obs s" and "distinct known" and "length known \<le> MAX_ACTIVE_PRODUCERS"
    and "producer_of ` set news \<subseteq> set known" and "length obs + length news < 1000"
  shows "restoring known (obs @ filter nonzero_producer news) (fold restore_observation news s) \<and>
    metrics (fold restore_observation news s) = metrics s"
  using assms
proof (induction news arbitrary: obs s)
  case Nil
  then show ?case by simp
next
  case (Cons ob news)
  show ?case
  proof (cases "producer_of ob = zero_id")
    case True
    then have "restore_observation ob s = s" by (simp add: restore_observation_def)
    then show ?thesis using Cons.IH [of obs s] Cons.prems True by (simp add: nonzero_producer_def)
  next
    case False
    have "restoring known (obs @ [ob]) (restore_observation ob s)"
      "metrics (restore_observation ob s) = metrics s"
      using restoring_step [of known obs s ob] Cons.prems False by auto
    then show ?thesis
      using Cons.IH [of "obs @ [ob]" "restore_observation ob s"] Cons.prems False
      by (simp add: nonzero_producer_def)
  qed
qed

definition is_fresh :: "u64 \<Rightarrow> observation \<Rightarrow> bool" where
  "is_fresh now_ms ob \<longleftrightarrow> unat now_ms - unat (observed_at_ms (obs_header ob)) \<le> 900000"

definition newest :: "nat \<Rightarrow> 'a list \<Rightarrow> 'a list" where
  "newest n xs = drop (length xs - n) xs"

lemma newest_length: "length (newest n xs) \<le> n"
  by (simp add: newest_def)

lemma newest_subset: "set (newest n xs) \<subseteq> set xs"
  by (simp add: newest_def set_drop_subset)

lemma persisted_at_fields:
  "sp_schema_version (persisted_at now_ms s) = PERCEPTUAL_STORE_SCHEMA_VERSION"
  "sp_observations (persisted_at now_ms s) = newest 128 (filter (is_fresh now_ms) (observations s))"
  "sp_metrics (persisted_at now_ms s) = metrics s"
proof -
  have "(sat_sub now_ms (observed_at_ms (obs_header ob)) \<le> OBSERVATION_TTL_MS) = is_fresh now_ms ob" for ob
    by (simp add: is_fresh_def OBSERVATION_TTL_MS_def word_nat)
  then show "sp_observations (persisted_at now_ms s) = newest 128 (filter (is_fresh now_ms) (observations s))"
    by (simp add: persisted_at_def Let_def newest_def MAX_PERSISTED_OBSERVATIONS_def)
qed (simp_all add: persisted_at_def Let_def)

lemma restart_state:
  fixes now_ms :: u64
  assumes "store_inv s"
  defines "s' \<equiv> store_restore (persisted_at now_ms s)"
  shows "restoring (active_producers s)
      (filter nonzero_producer (newest 128 (filter (is_fresh now_ms) (observations s)))) s'
    \<and> metrics s' = metrics s"
proof -
  let ?obs = "newest 128 (filter (is_fresh now_ms) (observations s))"
  have sub: "set ?obs \<subseteq> set (observations s)"
    using newest_subset [of 128 "filter (is_fresh now_ms) (observations s)"] by auto
  have len: "length ?obs \<le> 128" by (rule newest_length)
  have s': "s' = fold restore_observation ?obs (store_new\<lparr> metrics := metrics s \<rparr>)"
    using len by (simp add: s'_def store_restore_def persisted_at_fields MAX_PERSISTED_OBSERVATIONS_def)
  have "restoring (active_producers s) [] (store_new\<lparr> metrics := metrics s \<rparr>)"
    using store_inv_new by (auto simp: restoring_def store_new_def store_inv_def)
  from restore_fold [OF this] assms(1) sub len show ?thesis
    by (fastforce simp: s' store_inv_def)
qed

lemma restart_inv: "store_inv s \<Longrightarrow> store_inv (store_restore (persisted_at now_ms s))"
proof -
  assume inv: "store_inv s"
  let ?s' = "store_restore (persisted_at now_ms s)"
  let ?obs = "filter nonzero_producer (newest 128 (filter (is_fresh now_ms) (observations s)))"
  note r = restart_state [OF inv, of now_ms]
  have "length ?obs \<le> 128"
    using length_filter_le [of nonzero_producer] newest_length [of 128] by (rule le_trans)
  moreover have "set ?obs \<subseteq> set (observations s)"
    using newest_subset [of 128 "filter (is_fresh now_ms) (observations s)"] by auto
  moreover have "length (active_producers ?s') \<le> length (active_producers s)"
    using r inv card_mono [of "set (active_producers s)" "set (active_producers ?s')"]
    by (simp add: restoring_def store_inv_def distinct_card)
  ultimately show "store_inv ?s'"
    using r inv by (auto simp: restoring_def store_inv_def MAX_OBSERVATIONS_def)
qed

datatype store_event = StRecord observation | StExpire u64 | StRestart u64

fun store_step :: "store_event \<Rightarrow> store \<Rightarrow> store" where
  "store_step (StRecord ob) s = snd (store_record ob s)"
| "store_step (StExpire now_ms) s = expire now_ms s"
| "store_step (StRestart now_ms) s = store_restore (persisted_at now_ms s)"

interpretation st: invariant_machine store_step store_inv
proof unfold_locales
  fix e s
  show "store_inv s \<Longrightarrow> store_inv (store_step e s)"
    by (cases e) (simp_all add: store_record_inv expire_inv restart_inv)
qed

text \<open>
  C15: whatever is recorded, expired, persisted and restored, in any order, the store holds at
  most 512 observations and 16 producers, holds only observations that may enter an aggregate,
  its per-source index equals the number of resident observations of that source, and its
  counters reconcile: every ingested observation was stored, refused for its correlation or
  refused for capacity. The reconciliation holds even once a counter saturates.
\<close>

theorem store_reachable_inv:
  "(let s = fold store_step es store_new in
     store_len s \<le> 512 \<and> active_producers_len s \<le> 16 \<and> distinct (active_producers s)
     \<and> list_all admits_to_aggregate (observations s)
     \<and> unat (count_for kind s) = length (filter (\<lambda>ob. hd_source_kind (obs_header ob) = kind) (observations s))
     \<and> reconciles (metrics s))"
proof -
  let ?s = "fold store_step es store_new"
  have inv: "store_inv ?s" by (rule st.run_inv [OF store_inv_new])
  have inj: "source_slot k = source_slot kind \<longleftrightarrow> k = kind" for k
    by (cases k; cases kind; simp)
  have "unat (count_for kind ?s) = slot_count (source_slot kind) (observations ?s)"
    using inv by (simp add: store_inv_def counts_ok_def count_for_def)
  then show ?thesis
    using inv by (simp add: Let_def store_inv_def store_len_def active_producers_len_def list_all_iff
        MAX_OBSERVATIONS_def MAX_ACTIVE_PRODUCERS_def slot_count_def inj)
qed

subsection \<open>What one observation does\<close>

text \<open>
  C31: the outcome of ingesting one observation. It is stored exactly when its correlation is
  unique or completed-only and its producer is already tracked or one of the sixteen producer
  slots is free; storing appends it as the newest observation and gives up only the oldest one,
  and only when 512 are resident. A refused observation leaves the resident ones untouched.
\<close>

theorem store_record_outcome:
  "store_record ob s = (ok, s') \<Longrightarrow>
     ok = (correlation (obs_header ob) \<in> {CS_Unique, CS_CompletedOnly} \<and>
       (producer_of ob \<in> set (active_producers s) \<or> active_producers_len s < 16))
     \<and> observations s' =
       (if ok then (if store_len s < 512 then observations s else tl (observations s)) @ [ob]
        else observations s)
     \<and> ingested_total (metrics s') = sat_add (ingested_total (metrics s)) 1"
  by (cases "observations s"; cases ob)
    (auto simp: store_record_def Let_def store_observation_def evict_front_def state_admits_to_aggregate_def
      count_ingested_def count_refused_correlation_def count_refused_capacity_def active_producers_len_def
      store_len_def MAX_OBSERVATIONS_def MAX_ACTIVE_PRODUCERS_def split: if_splits)

definition example_observation :: "u8 \<Rightarrow> u64 \<Rightarrow> observation" where
  "example_observation producer at_ms = PerceptualWindow
     \<lparr> wo_header = \<lparr> observed_at_ms = at_ms, hd_source_kind = SK_GenericForegroundApplication,
         hd_producer_kind = PK_MacOsObserver,
         hd_scope = \<lparr> producer_session_id = replicate 16 producer, surface_session_id = None,
           activity_session_id = None, context_hash = None \<rparr>,
         quality = \<lparr> source_trust_q = 500, measurement_quality_q = 400, temporal_confidence_q = 300,
           correlation_confidence_q = 500, attribution_confidence_q = 400 \<rparr>,
         correlation = CS_CompletedOnly,
         transport = \<lparr> producer_segment_ms = None, bridge_segment_ms = None, daemon_segment_ms = None,
           total_observed_ms = None, cold_start = None, queue_wait_ms = None,
           dropped_before_ingest = False, transport_quality_q = 0 \<rparr>,
         legacy_contract = False \<rparr>,
       window_ms = 8000, signal_count = 12, sluggishness_q = 300,
       wo_measurement = \<lparr> total_duration_ms = None, components = [],
         measurement_mode = MM_AggregateWindow \<rparr> \<rparr>"

theorem store_record_outcome_witness:
  "observations (snd (store_record (example_observation 5 9) store_new)) = [example_observation 5 9]"
  using store_record_outcome [of "example_observation 5 9" store_new
      "fst (store_record (example_observation 5 9) store_new)" "snd (store_record (example_observation 5 9) store_new)"]
  by (simp add: active_producers_len_def store_len_def) (simp add: store_new_def example_observation_def)

subsection \<open>Producer slots\<close>

text \<open>
  Between two restarts the set of tracked producers only grows: expiry drops observations
  but never the producer that sent them.
\<close>

datatype live_event = LvRecord observation | LvExpire u64

fun live_step :: "live_event \<Rightarrow> store \<Rightarrow> store" where
  "live_step (LvRecord ob) s = snd (store_record ob s)"
| "live_step (LvExpire now_ms) s = expire now_ms s"

lemma expire_producers [simp]: "active_producers (expire now_ms s) = active_producers s"
proof (induction now_ms s rule: expire.induct)
  case (1 now_ms s)
  then show ?case
    by (subst expire.simps) (auto split: list.splits simp: drop_expired_front_def)
qed

lemma record_producers:
  "active_producers (snd (store_record ob s)) =
     (if state_admits_to_aggregate (correlation (obs_header ob)) \<and>
         producer_of ob \<notin> set (active_producers s) \<and> length (active_producers s) < MAX_ACTIVE_PRODUCERS
      then active_producers s @ [producer_of ob] else active_producers s)"
  by (cases "observations s")
    (auto simp: store_record_def Let_def evict_front_def count_ingested_def
      count_refused_correlation_def count_refused_capacity_def)

interpretation producers: monotone_machine live_step "\<lambda>s. set (active_producers s)"
proof unfold_locales
  fix e s
  show "set (active_producers s) \<subseteq> set (active_producers (live_step e s))"
    by (cases e) (auto simp: record_producers)
qed

lemma full_producers_stay:
  "MAX_ACTIVE_PRODUCERS \<le> length (active_producers s) \<Longrightarrow>
     active_producers (fold live_step es s) = active_producers s"
proof (induction es arbitrary: s)
  case (Cons e es)
  have "active_producers (live_step e s) = active_producers s"
    using Cons.prems by (cases e) (simp_all add: record_producers)
  then show ?case using Cons by simp
qed simp

text \<open>
  producer slots are never freed while the daemon runs. Once sixteen producers have been
  admitted, every observation of any other producer is refused until a restart, however many
  observations expire in between and even if none is resident any more; and the sixteen stay
  admitted.
\<close>

theorem producer_slots_never_freed:
  assumes "active_producers_len s = 16"
  shows "set (active_producers s) \<subseteq> set (active_producers (fold live_step es s))
    \<and> (fst (store_record ob (fold live_step es s)) \<longrightarrow> producer_of ob \<in> set (active_producers s))"
proof
  show "set (active_producers s) \<subseteq> set (active_producers (fold live_step es s))"
    by (rule producers.run_mono)
  show "fst (store_record ob (fold live_step es s)) \<longrightarrow> producer_of ob \<in> set (active_producers s)"
    using assms full_producers_stay [of s es]
    by (auto simp: store_record_def Let_def count_ingested_def active_producers_len_def
        MAX_ACTIVE_PRODUCERS_def split: if_splits)
qed

definition sixteen_producers :: store where
  "sixteen_producers = store_new\<lparr> active_producers := map (\<lambda>n. replicate 16 (of_nat (Suc n))) [0..<16] \<rparr>"

theorem producer_slots_never_freed_witness:
  "\<not> fst (store_record (example_observation 17 9000000) (fold live_step [LvExpire 8000000] sixteen_producers))
   \<and> store_is_empty (fold live_step [LvExpire 8000000] sixteen_producers)"
proof
  have "producer_of (example_observation 17 9000000) \<notin> set (active_producers sixteen_producers)"
    by (simp add: sixteen_producers_def example_observation_def upt_rec)
  then show "\<not> fst (store_record (example_observation 17 9000000) (fold live_step [LvExpire 8000000] sixteen_producers))"
    using producer_slots_never_freed [of sixteen_producers "[LvExpire 8000000]" "example_observation 17 9000000"]
    by (auto simp: active_producers_len_def sixteen_producers_def)
  show "store_is_empty (fold live_step [LvExpire 8000000] sixteen_producers)"
    by (simp add: store_is_empty_def sixteen_producers_def store_new_def expire.simps)
qed

subsection \<open>Surviving a restart\<close>

text \<open>
  what a restart keeps. Writing the state at a time and restoring it brings back exactly
  the newest 128 of the observations still inside their fifteen-minute life, in order, less
  those without a producer identity, together with every counter.
\<close>

theorem restart_roundtrip:
  assumes "store_inv s"
  shows "observations (store_restore (persisted_at now_ms s)) =
      filter (\<lambda>ob. producer_of ob \<noteq> zero_id)
        (newest 128 (filter (\<lambda>ob. unat now_ms - unat (observed_at_ms (obs_header ob)) \<le> 15 * 60 * 1000)
          (observations s)))
    \<and> metrics (store_restore (persisted_at now_ms s)) = metrics s"
  using restart_state [OF assms, of now_ms]
  by (simp add: restoring_def nonzero_producer_def [abs_def] is_fresh_def [abs_def])

theorem restart_roundtrip_witness:
  "observations (store_restore (persisted_at 900010
     (fold store_step [StRecord (example_observation 5 9), StRecord (example_observation 6 20)] store_new)))
   = [example_observation 6 20]"
  using restart_roundtrip [OF st.run_inv [OF store_inv_new,
      of "[StRecord (example_observation 5 9), StRecord (example_observation 6 20)]"], of 900010]
  by (simp add: store_new_def example_observation_def newest_def zero_id_def store_record_def Let_def
      count_ingested_def store_observation_def evict_front_def state_admits_to_aggregate_def
      MAX_ACTIVE_PRODUCERS_def MAX_OBSERVATIONS_def)

subsection \<open>Mean quality without overflow\<close>

definition qualities :: "(observation \<Rightarrow> bool) \<Rightarrow> observation list \<Rightarrow> nat list" where
  "qualities P obs = map (\<lambda>ob. unat (overall_q (quality (obs_header ob)))) (filter P obs)"

definition mean_spec :: "nat list \<Rightarrow> u16 option" where
  "mean_spec qs = (if qs = [] then None else Some (of_nat (min (sum_list qs div length qs) 1000)))"

definition acc_ok :: "nat list \<Rightarrow> u64 \<times> u32 \<Rightarrow> bool" where
  "acc_ok qs p \<longleftrightarrow> unat (fst p) = sum_list qs \<and> unat (snd p) = length qs"

lemma quality_bounds:
  "length (qualities P obs) \<le> length obs" "sum_list (qualities P obs) \<le> length obs * 65535"
proof -
  have "unat (overall_q q) \<le> 65535" for q
    using unat_bound [of "overall_q q"] by simp
  then show "sum_list (qualities P obs) \<le> length obs * 65535"
    by (induction obs) (auto simp: qualities_def intro: add_mono le_trans)
qed (simp add: qualities_def)

lemma mean_q_ok:
  assumes "acc_ok qs p"
  shows "mean_q p = mean_spec qs"
proof (cases "qs = []")
  case True
  then show ?thesis using assms
    by (cases p) (auto simp: acc_ok_def mean_q_def mean_spec_def word_less_nat_alt)
next
  case False
  obtain sm n where p: "p = (sm, n)" by fastforce
  have sm: "unat sm = sum_list qs" and n: "unat n = length qs"
    using assms by (simp_all add: acc_ok_def p)
  have pos: "n > 0" using False n by (simp add: word_less_nat_alt)
  have "unat (ucast n :: u64) = length qs"
    using n by (simp add: unat_ucast_up)
  then have d: "unat (sm div ucast n) = sum_list qs div length qs"
    by (simp add: unat_div sm)
  have m: "unat (min (sm div ucast n) (ucast QUALITY_SCALE)) = min (sum_list qs div length qs) 1000"
    using d by (simp add: min_def word_le_nat_alt QUALITY_SCALE_def)
  have "(ucast (min (sm div ucast n) (ucast QUALITY_SCALE)) :: u16) = of_nat (min (sum_list qs div length qs) 1000)"
    unfolding m [symmetric] by simp
  then show ?thesis using False pos by (simp add: mean_q_def mean_spec_def p)
qed

lemma acc_fold:
  assumes "length obs \<le> 512"
  shows "\<exists>a b c. fold acc_quality obs (replicate 3 (0, 0)) = [a, b, c] \<and>
    acc_ok (qualities (\<lambda>ob. modality_slot ob = 0) obs) a \<and>
    acc_ok (qualities (\<lambda>ob. modality_slot ob = 1) obs) b \<and>
    acc_ok (qualities (\<lambda>ob. modality_slot ob = 2) obs) c"
  using assms
proof (induction obs rule: rev_induct)
  case Nil
  then show ?case by (simp add: numeral_3_eq_3 acc_ok_def qualities_def)
next
  case (snoc ob obs)
  define q :: u64 where "q = ucast (overall_q (quality (obs_header ob)))"
  have q: "unat q = unat (overall_q (quality (obs_header ob)))"
    by (simp add: q_def unat_ucast_up)
  have q_le: "unat q \<le> 65535"
    using unat_bound [of "overall_q (quality (obs_header ob))"] by (simp add: q)
  have add: "acc_ok (qs @ [unat q]) (sm + q, n + 1)"
    if "acc_ok qs (sm, n)" "sum_list qs \<le> length obs * 65535" "length qs \<le> length obs" for qs sm n
  proof -
    have "sum_list qs \<le> 512 * 65535" "length qs < 512" using that snoc.prems by simp_all
    then show ?thesis using that(1) q_le by (simp add: acc_ok_def unat_word_ariths)
  qed
  obtain a b c where abc: "fold acc_quality obs (replicate 3 (0, 0)) = [a, b, c]"
    "acc_ok (qualities (\<lambda>ob. modality_slot ob = 0) obs) a"
    "acc_ok (qualities (\<lambda>ob. modality_slot ob = 1) obs) b"
    "acc_ok (qualities (\<lambda>ob. modality_slot ob = 2) obs) c"
    using snoc by auto
  have ap: "qualities P (obs @ [ob]) = (if P ob then qualities P obs @ [unat q] else qualities P obs)" for P
    by (simp add: qualities_def q)
  note qb = quality_bounds [of _ obs]
  have step: "fold acc_quality (obs @ [ob]) (replicate 3 (0, 0)) =
      (if modality_slot ob = 0 then [(fst a + q, snd a + 1), b, c]
       else if modality_slot ob = 1 then [a, (fst b + q, snd b + 1), c]
       else [a, b, (fst c + q, snd c + 1)])"
    by (cases ob) (simp_all add: abc(1) acc_quality_def Let_def case_prod_beta numeral_2_eq_2 flip: q_def,
        simp_all add: q_def)
  have "acc_ok (qualities (\<lambda>ob. modality_slot ob = 0) obs @ [unat q]) (fst a + q, snd a + 1)"
    "acc_ok (qualities (\<lambda>ob. modality_slot ob = 1) obs @ [unat q]) (fst b + q, snd b + 1)"
    "acc_ok (qualities (\<lambda>ob. modality_slot ob = 2) obs @ [unat q]) (fst c + q, snd c + 1)"
    using add [of _ "fst a" "snd a"] add [of _ "fst b" "snd b"] add [of _ "fst c" "snd c"] abc(2-4) qb
    by simp_all
  then show ?case
    unfolding step ap using abc(2-4) by (cases ob) simp_all
qed

lemma acc_ok_add:
  assumes "acc_ok xs p" "acc_ok ys r" "length xs + length ys < 10000" "sum_list xs + sum_list ys < 2 ^ 60"
  shows "acc_ok (xs @ ys) (fst r + fst p, snd r + snd p)"
  using assms by (simp add: acc_ok_def unat_word_ariths)

lemma mset_by_modality:
  "mset (qualities (\<lambda>_. True) obs) =
     mset (qualities (\<lambda>ob. modality_slot ob = 0) obs @ qualities (\<lambda>ob. modality_slot ob = 1) obs
       @ qualities (\<lambda>ob. modality_slot ob = 2) obs)"
proof (induction obs)
  case (Cons ob obs)
  then show ?case by (cases ob) (simp_all add: qualities_def)
qed (simp add: qualities_def)

lemma mean_spec_mset: "mset xs = mset ys \<Longrightarrow> mean_spec xs = mean_spec ys"
  unfolding mean_spec_def by (metis mset_eq_length mset_zero_iff sum_mset_sum_list)

text \<open>
  the published quality figures are the means they claim to be. For any store within its
  invariant, each modality's figure is the integer mean of the weakest-link qualities of its
  resident observations, capped at 1000, and absent exactly when none is resident; its count
  is the number averaged; and the overall figure is the mean over all modalities. No
  accumulator wraps.
\<close>

theorem quality_by_modality_means:
  assumes "store_inv s"
  shows "mq_overall_q (quality_by_modality s) = mean_spec (qualities (\<lambda>_. True) (observations s))
    \<and> mq_instrumented_q (quality_by_modality s) = mean_spec (qualities (\<lambda>ob. modality ob = ''instrumented'') (observations s))
    \<and> mq_inferred_q (quality_by_modality s) = mean_spec (qualities (\<lambda>ob. modality ob = ''inferred'') (observations s))
    \<and> mq_window_q (quality_by_modality s) = mean_spec (qualities (\<lambda>ob. modality ob = ''window'') (observations s))
    \<and> unat (mq_instrumented_n (quality_by_modality s)) + unat (mq_inferred_n (quality_by_modality s))
        + unat (mq_window_n (quality_by_modality s)) = store_len s"
proof -
  let ?obs = "observations s"
  let ?q = "\<lambda>i. qualities (\<lambda>ob. modality_slot ob = i) ?obs"
  have len: "length ?obs \<le> 512" using assms by (simp add: store_inv_def MAX_OBSERVATIONS_def)
  obtain a b c where abc: "fold acc_quality ?obs (replicate 3 (0, 0)) = [a, b, c]"
    "acc_ok (?q 0) a" "acc_ok (?q 1) b" "acc_ok (?q 2) c"
    using acc_fold [OF len] by blast
  note all = mset_by_modality [of ?obs]
  have total_len: "length (?q 0) + length (?q 1) + length (?q 2) = length ?obs"
    using mset_eq_length [OF all] by (simp add: qualities_def)
  have bound: "sum_list (qualities P ?obs) \<le> 512 * 65535" "length (qualities P ?obs) \<le> 512" for P
    using quality_bounds [of P ?obs] len by linarith+
  have ab: "acc_ok (?q 0 @ ?q 1) (fst b + fst a, snd b + snd a)"
    using acc_ok_add [OF abc(2,3)] bound [of "\<lambda>ob. modality_slot ob = 0"] bound [of "\<lambda>ob. modality_slot ob = 1"]
    by simp
  have abc_all: "acc_ok ((?q 0 @ ?q 1) @ ?q 2) (fst c + (fst b + fst a), snd c + (snd b + snd a))"
    using acc_ok_add [OF ab abc(4)] bound [of "\<lambda>ob. modality_slot ob = 0"]
      bound [of "\<lambda>ob. modality_slot ob = 1"] bound [of "\<lambda>ob. modality_slot ob = 2"] by simp
  have slots: "(\<lambda>ob. modality ob = ''instrumented'') = (\<lambda>ob. modality_slot ob = 0)"
    "(\<lambda>ob. modality ob = ''inferred'') = (\<lambda>ob. modality_slot ob = 1)"
    "(\<lambda>ob. modality ob = ''window'') = (\<lambda>ob. modality_slot ob = 2)"
    by (rule ext, case_tac ob; simp)+
  have overall: "mean_q (fst c + (fst b + fst a), snd c + (snd b + snd a)) = mean_spec (qualities (\<lambda>_. True) ?obs)"
    using mean_q_ok [OF abc_all] mean_spec_mset [OF all] by simp
  have q: "quality_by_modality s = \<lparr> mq_overall_q = mean_spec (qualities (\<lambda>_. True) ?obs),
      mq_instrumented_q = mean_spec (?q 0), mq_instrumented_n = snd a,
      mq_inferred_q = mean_spec (?q 1), mq_inferred_n = snd b,
      mq_window_q = mean_spec (?q 2), mq_window_n = snd c \<rparr>"
    using overall abc(2-4) [THEN mean_q_ok]
    by (simp add: quality_by_modality_def abc(1) Let_def case_prod_beta numeral_2_eq_2 ac_simps)
  show ?thesis
    using total_len abc(2-4) by (simp add: q slots acc_ok_def store_len_def)
qed

theorem quality_by_modality_means_witness:
  "mq_window_q (quality_by_modality (snd (store_record (example_observation 5 9) store_new))) = Some 300"
proof -
  let ?s = "snd (store_record (example_observation 5 9) store_new)"
  have "observations ?s = [example_observation 5 9]"
    by (simp add: store_record_def Let_def count_ingested_def store_observation_def evict_front_def
        state_admits_to_aggregate_def store_new_def example_observation_def MAX_OBSERVATIONS_def
        MAX_ACTIVE_PRODUCERS_def)
  then show ?thesis
    using quality_by_modality_means [OF store_record_inv [OF store_inv_new], of "example_observation 5 9"]
    by (simp add: qualities_def mean_spec_def)
      (simp add: example_observation_def overall_q_def min_def)
qed

end
