(* ===== verification/Exploration_Types.thy ===== *)
theory Exploration_Types
  imports Apollo_Prelude "HOL-Library.Product_Lexorder"
begin

text \<open>
  The vocabulary of local exploration, from \<open>engine/exploration_scheduler.rs\<close> and the
  actuator families of \<open>engine/telemetry_medallion.rs\<close>: families, modes, arms, keys, safety
  gates, candidates and metadata, with the order the selection uses. A safety threshold on a
  float is the exact rational value of the double the code writes.
\<close>

datatype actuator_family =
  AF_Boost | AF_Throttle | AF_Freeze | AF_Unfreeze | AF_Memorystatus | AF_Sysctl | AF_Spotlight
| AF_Quarantine | AF_ThreadQos | AF_MarkovPrewarm | AF_InteractionQos | AF_IoShaping
| AF_PredictiveThreshold | AF_PredictiveProfile | AF_PredictivePreThrottle | AF_PredictivePurge
| AF_ChromiumEcore | AF_ChromiumPurge | AF_ChromiumJetsam | AF_Coordinated

definition ALL_FAMILIES :: "actuator_family list" where
  "ALL_FAMILIES = [AF_Boost, AF_Throttle, AF_Freeze, AF_Unfreeze, AF_Memorystatus, AF_Sysctl,
     AF_Spotlight, AF_Quarantine, AF_ThreadQos, AF_MarkovPrewarm, AF_InteractionQos, AF_IoShaping,
     AF_PredictiveThreshold, AF_PredictiveProfile, AF_PredictivePreThrottle, AF_PredictivePurge,
     AF_ChromiumEcore, AF_ChromiumPurge, AF_ChromiumJetsam, AF_Coordinated]"

fun family_as_str :: "actuator_family \<Rightarrow> string" where
  "family_as_str AF_Boost = ''boost''"
| "family_as_str AF_Throttle = ''throttle''"
| "family_as_str AF_Freeze = ''freeze''"
| "family_as_str AF_Unfreeze = ''unfreeze''"
| "family_as_str AF_Memorystatus = ''memorystatus''"
| "family_as_str AF_Sysctl = ''sysctl''"
| "family_as_str AF_Spotlight = ''spotlight''"
| "family_as_str AF_Quarantine = ''quarantine''"
| "family_as_str AF_ThreadQos = ''thread_qos''"
| "family_as_str AF_MarkovPrewarm = ''markov_prewarm''"
| "family_as_str AF_InteractionQos = ''interaction_qos''"
| "family_as_str AF_IoShaping = ''io_shaping''"
| "family_as_str AF_PredictiveThreshold = ''predictive_threshold''"
| "family_as_str AF_PredictiveProfile = ''predictive_profile''"
| "family_as_str AF_PredictivePreThrottle = ''predictive_prethrottle''"
| "family_as_str AF_PredictivePurge = ''predictive_purge''"
| "family_as_str AF_ChromiumEcore = ''chromium_ecore''"
| "family_as_str AF_ChromiumPurge = ''chromium_purge''"
| "family_as_str AF_ChromiumJetsam = ''chromium_jetsam''"
| "family_as_str AF_Coordinated = ''coordinated''"

type_synonym probe_correlation = u64

definition LEDGER_NAMESPACE :: u64 where
  "LEDGER_NAMESPACE = push_bit 63 1"

definition ledger_correlation_id :: "probe_correlation \<Rightarrow> u64" where
  "ledger_correlation_id c = LEDGER_NAMESPACE OR c"

datatype mode = Natural | Treatment | Control

fun mode_rank :: "mode \<Rightarrow> u8" where
  "mode_rank Natural = 0"
| "mode_rank Treatment = 1"
| "mode_rank Control = 2"

datatype arm =
  NaturalObservation | MarkovCacheOnly | InteractionQosShort | InteractionQosStandard
| InteractionQosLong | BoostOmission

fun arm_rank :: "arm \<Rightarrow> u8" where
  "arm_rank NaturalObservation = 0"
| "arm_rank MarkovCacheOnly = 1"
| "arm_rank InteractionQosShort = 2"
| "arm_rank InteractionQosStandard = 3"
| "arm_rank InteractionQosLong = 4"
| "arm_rank BoostOmission = 5"

definition allows_kernel_acceleration :: "arm \<Rightarrow> bool" where
  "allows_kernel_acceleration a = False"

fun ttl_millis :: "arm \<Rightarrow> u64 option" where
  "ttl_millis InteractionQosShort = Some 1080"
| "ttl_millis InteractionQosStandard = Some 1200"
| "ttl_millis InteractionQosLong = Some 1320"
| "ttl_millis _ = None"

datatype action_class = NaturalClass | BoostBackground | InteractionForeground | MarkovPredictedApp

datatype exploration_context = General | Interactive | BackgroundContext | Build | Workload u8

subsection \<open>The derived orders\<close>

fun action_class_index :: "action_class \<Rightarrow> nat" where
  "action_class_index NaturalClass = 0"
| "action_class_index BoostBackground = 1"
| "action_class_index InteractionForeground = 2"
| "action_class_index MarkovPredictedApp = 3"

fun context_index :: "exploration_context \<Rightarrow> nat" where
  "context_index General = 0"
| "context_index Interactive = 1"
| "context_index BackgroundContext = 2"
| "context_index Build = 3"
| "context_index (Workload w) = 4 + unat w"

lemma action_class_index_inj: "action_class_index a = action_class_index b \<longleftrightarrow> a = b"
  by (cases a; cases b; simp)

lemma context_index_inj: "context_index a = context_index b \<longleftrightarrow> a = b"
  by (cases a; cases b; simp add: word_unat_eq_iff)

instantiation action_class :: linorder
begin

definition less_eq_action_class :: "action_class \<Rightarrow> action_class \<Rightarrow> bool" where
  "less_eq_action_class a b \<longleftrightarrow> action_class_index a \<le> action_class_index b"

definition less_action_class :: "action_class \<Rightarrow> action_class \<Rightarrow> bool" where
  "less_action_class a b \<longleftrightarrow> action_class_index a < action_class_index b"

instance
  by standard (auto simp: less_eq_action_class_def less_action_class_def action_class_index_inj)

end

instantiation exploration_context :: linorder
begin

definition less_eq_exploration_context :: "exploration_context \<Rightarrow> exploration_context \<Rightarrow> bool" where
  "less_eq_exploration_context a b \<longleftrightarrow> context_index a \<le> context_index b"

definition less_exploration_context :: "exploration_context \<Rightarrow> exploration_context \<Rightarrow> bool" where
  "less_exploration_context a b \<longleftrightarrow> context_index a < context_index b"

instance
  by standard (auto simp: less_eq_exploration_context_def less_exploration_context_def context_index_inj)

end

subsection \<open>Origin and time\<close>

record hardware_identity =
  p_core_count :: u32
  e_core_count :: u32
  ram_gib :: u32

definition hardware_is_known :: "hardware_identity \<Rightarrow> bool" where
  "hardware_is_known h \<longleftrightarrow> sat_add (p_core_count h) (e_core_count h) > 0 \<and> ram_gib h > 0"

record origin =
  installation_id :: u64
  hardware :: hardware_identity

definition origin_is_known :: "origin \<Rightarrow> bool" where
  "origin_is_known og \<longleftrightarrow> installation_id og \<noteq> 0 \<and> hardware_is_known (hardware og)"

record time_point =
  wall_unix_secs :: i64
  monotonic_secs :: u64
  boot_id :: u64

definition time_valid :: "time_point \<Rightarrow> bool" where
  "time_valid t \<longleftrightarrow> wall_unix_secs t > 0 \<and> boot_id t \<noteq> 0"

subsection \<open>Safety gates\<close>

record gates =
  daemon_shutdown :: bool
  kill_switch :: bool
  cognitive_paused :: bool
  audio_output_active :: bool
  audio_input_active :: bool
  call_active :: bool
  sleep_assertion :: bool
  media_available :: bool
  app_launching :: bool
  window_operation :: bool
  fluidity_degraded :: bool
  predicted_fluidity_degraded :: bool
  memory_pressure :: f64
  thermal_available :: bool
  thermal_nominal :: bool
  hazard_available :: bool
  p_oom_30s :: f64
  circuit_closed :: bool
  speculation_allowed :: bool
  build_workload :: bool
  build_phase_idle :: bool
  compiler_protection_active :: bool
  identity_present :: bool
  identity_start_nonzero :: bool
  identity_stale :: bool
  identity_recycled :: bool
  target_protected :: bool
  target_apple_owned :: bool
  identity_recheck_ok :: bool
  markov_quarantined :: bool
  effect_owner_conflict :: bool
  coalition_conflict :: bool
  target_foreground :: bool
  target_launching :: bool
  interactive_lease_active :: bool
  recovery_required :: bool

definition healthy :: gates where
  "healthy = \<lparr> daemon_shutdown = False, kill_switch = False, cognitive_paused = False,
     audio_output_active = False, audio_input_active = False, call_active = False,
     sleep_assertion = False, media_available = True, app_launching = False,
     window_operation = False, fluidity_degraded = False, predicted_fluidity_degraded = False,
     memory_pressure = F_Fin (3602879701896397 / 2 ^ 54), thermal_available = True,
     thermal_nominal = True, hazard_available = True, p_oom_30s = F_Fin (5764607523034235 / 2 ^ 59),
     circuit_closed = True, speculation_allowed = True, build_workload = False,
     build_phase_idle = True, compiler_protection_active = False, identity_present = True,
     identity_start_nonzero = True, identity_stale = False, identity_recycled = False,
     target_protected = False, target_apple_owned = False, identity_recheck_ok = True,
     markov_quarantined = False, effect_owner_conflict = False, coalition_conflict = False,
     target_foreground = False, target_launching = False, interactive_lease_active = False,
     recovery_required = False \<rparr>"

definition default_gates :: gates where
  "default_gates = healthy\<lparr> media_available := False, thermal_available := False,
     hazard_available := False, identity_present := False, identity_start_nonzero := False,
     identity_recheck_ok := False \<rparr>"

datatype gate_blocker =
  GB_Lifecycle | GB_Media | GB_UserInteraction | GB_Fluidity | GB_Pressure | GB_Thermal | GB_Hazard
| GB_Circuit | GB_Build | GB_Identity | GB_Ownership | GB_Policy | GB_Capacity | GB_GlobalBudget
| GB_KeyCooldown

datatype terminal_diagnostic =
  TD_Cancelled | TD_Reverted | TD_Expired | TD_Failed | TD_Wake | TD_KillSwitch | TD_Shutdown
| TD_Deadline | TD_Hit | TD_Miss | TD_ReleaseFailed | TD_DroppedOnRestart

text \<open>The doubles nearest to 0.55 and 0.30.\<close>

definition pressure_limit :: f64 where "pressure_limit = F_Fin (2476979795053773 / 2 ^ 52)"
definition hazard_limit :: f64 where "hazard_limit = F_Fin (5404319552844595 / 2 ^ 54)"

definition first_safety_gate_blocker :: "gates \<Rightarrow> gate_blocker option" where
  "first_safety_gate_blocker g =
     (if daemon_shutdown g \<or> kill_switch g \<or> cognitive_paused g then Some GB_Lifecycle
      else if audio_output_active g \<or> audio_input_active g \<or> call_active g \<or> sleep_assertion g
        \<or> \<not> media_available g then Some GB_Media
      else if app_launching g \<or> window_operation g then Some GB_UserInteraction
      else if fluidity_degraded g \<or> predicted_fluidity_degraded g then Some GB_Fluidity
      else if \<not> f64_is_finite (memory_pressure g) \<or> f64_le pressure_limit (memory_pressure g)
        then Some GB_Pressure
      else if \<not> thermal_available g \<or> \<not> thermal_nominal g then Some GB_Thermal
      else if \<not> hazard_available g \<or> \<not> f64_is_finite (p_oom_30s g) \<or> f64_le hazard_limit (p_oom_30s g)
        then Some GB_Hazard
      else if \<not> circuit_closed g \<or> \<not> speculation_allowed g then Some GB_Circuit
      else if build_workload g \<or> \<not> build_phase_idle g \<or> compiler_protection_active g then Some GB_Build
      else if \<not> identity_present g \<or> \<not> identity_start_nonzero g \<or> identity_stale g
        \<or> identity_recycled g \<or> target_protected g \<or> target_apple_owned g \<or> \<not> identity_recheck_ok g
        then Some GB_Identity
      else None)"

subsection \<open>Keys, metadata and candidates\<close>

record exploration_key =
  key_family :: actuator_family
  key_mode :: mode
  key_arm :: arm
  key_action_class :: action_class
  key_context :: exploration_context

definition default_key :: exploration_key where
  "default_key = \<lparr> key_family = AF_Boost, key_mode = Natural, key_arm = NaturalObservation,
     key_action_class = NaturalClass, key_context = General \<rparr>"

definition family_allowed :: "actuator_family \<Rightarrow> bool" where
  "family_allowed f \<longleftrightarrow> f \<in> {AF_Boost, AF_InteractionQos, AF_MarkovPrewarm}"

text \<open>The three kinds of exploration that may withhold or apply an effect.\<close>

definition mutable_shape :: "actuator_family \<Rightarrow> mode \<Rightarrow> arm \<Rightarrow> action_class \<Rightarrow> bool" where
  "mutable_shape f m a c \<longleftrightarrow>
     f = AF_Boost \<and> m = Control \<and> a = BoostOmission \<and> c = BoostBackground
   \<or> f = AF_MarkovPrewarm \<and> (m = Treatment \<or> m = Control) \<and> a = MarkovCacheOnly
       \<and> c = MarkovPredictedApp
   \<or> f = AF_InteractionQos \<and> (m = Treatment \<or> m = Control)
       \<and> (a = InteractionQosShort \<or> a = InteractionQosStandard \<or> a = InteractionQosLong)
       \<and> c = InteractionForeground"

definition natural_shape :: "mode \<Rightarrow> arm \<Rightarrow> action_class \<Rightarrow> bool" where
  "natural_shape m a c \<longleftrightarrow> m = Natural \<and> a = NaturalObservation \<and> c = NaturalClass"

definition valid_key :: "exploration_key \<Rightarrow> bool" where
  "valid_key k \<longleftrightarrow>
     key_family k \<in> {AF_Boost, AF_InteractionQos, AF_MarkovPrewarm}
       \<and> natural_shape (key_mode k) (key_arm k) (key_action_class k)
   \<or> mutable_shape (key_family k) (key_mode k) (key_arm k) (key_action_class k)"

record metadata =
  md_correlation :: probe_correlation
  md_family :: actuator_family
  md_key :: exploration_key
  md_arm :: arm
  md_treatment :: bool
  md_committed :: bool
  md_cancelled :: "terminal_diagnostic option"

definition default_metadata :: metadata where
  "default_metadata = \<lparr> md_correlation = 0, md_family = AF_Boost, md_key = default_key,
     md_arm = NaturalObservation, md_treatment = False, md_committed = False, md_cancelled = None \<rparr>"

definition metadata_valid :: "metadata \<Rightarrow> bool" where
  "metadata_valid md \<longleftrightarrow> md_correlation md > 0 \<and> md_correlation md < LEDGER_NAMESPACE \<and>
     md_family md = key_family (md_key md) \<and>
     md_treatment md = (key_mode (md_key md) = Treatment) \<and> valid_key (md_key md)"

definition clean_treatment :: "metadata \<Rightarrow> bool" where
  "clean_treatment md \<longleftrightarrow> metadata_valid md \<and> md_treatment md \<and> md_committed md \<and> md_cancelled md = None"

record candidate =
  cd_key :: exploration_key
  cd_origin :: origin

definition candidate_new ::
  "actuator_family \<Rightarrow> mode \<Rightarrow> arm \<Rightarrow> action_class \<Rightarrow> exploration_context \<Rightarrow> origin
     \<Rightarrow> gate_blocker + candidate" where
  "candidate_new f m a c ctx og =
     (let valid = (if natural_shape m a c then family_allowed f else mutable_shape f m a c)
      in if \<not> valid \<or> \<not> origin_is_known og then Inl GB_Policy
         else Inr \<lparr> cd_key = \<lparr> key_family = f, key_mode = m, key_arm = a, key_action_class = c,
                      key_context = ctx \<rparr>, cd_origin = og \<rparr>)"

definition is_mutable :: "candidate \<Rightarrow> bool" where
  "is_mutable c \<longleftrightarrow> key_mode (cd_key c) \<noteq> Natural"

definition natural_observation :: "candidate \<Rightarrow> candidate" where
  "natural_observation c = \<lparr> cd_key = \<lparr> key_family = key_family (cd_key c), key_mode = Natural,
     key_arm = NaturalObservation, key_action_class = NaturalClass,
     key_context = key_context (cd_key c) \<rparr>, cd_origin = cd_origin c \<rparr>"

definition selected_key_gate_blocker :: "gates \<Rightarrow> exploration_key \<Rightarrow> gate_blocker option" where
  "selected_key_gate_blocker g k =
     (let boost_omission_conflict = key_family k = AF_Boost \<and>
            (coalition_conflict g \<or> target_foreground g \<or> target_launching g
             \<or> interactive_lease_active g \<or> recovery_required g)
      in if markov_quarantined g \<or> effect_owner_conflict g \<or> boost_omission_conflict then Some GB_Ownership
         else if \<not> family_allowed (key_family k)
           \<or> key_family k = AF_MarkovPrewarm \<and> key_arm k \<noteq> MarkovCacheOnly then Some GB_Policy
         else None)"

definition family_index :: "actuator_family \<Rightarrow> nat option" where
  "family_index f = (case f of AF_Boost \<Rightarrow> Some 0 | AF_InteractionQos \<Rightarrow> Some 1
     | AF_MarkovPrewarm \<Rightarrow> Some 2 | _ \<Rightarrow> None)"

definition family_rank :: "actuator_family \<Rightarrow> u8" where
  "family_rank f = of_nat (case family_index f of Some i \<Rightarrow> i | None \<Rightarrow> 3)"

definition selection_key :: "exploration_key \<Rightarrow> u8 \<times> u8 \<times> action_class \<times> exploration_context \<times> u8" where
  "selection_key k = (arm_rank (key_arm k), family_rank (key_family k), key_action_class k,
     key_context k, mode_rank (key_mode k))"

text \<open>\<open>Iterator::min_by_key\<close>: the first of the least elements.\<close>

fun min_by_key :: "('a \<Rightarrow> 'b::linorder) \<Rightarrow> 'a list \<Rightarrow> 'a option" where
  "min_by_key f [] = None"
| "min_by_key f (x # xs) =
     (case min_by_key f xs of None \<Rightarrow> Some x | Some y \<Rightarrow> if f x \<le> f y then Some x else Some y)"

lemma min_by_key_None [simp]: "min_by_key f xs = None \<longleftrightarrow> xs = []"
  by (cases xs) (auto split: option.splits)

lemma min_by_key_least:
  "min_by_key f xs = Some x \<Longrightarrow> x \<in> set xs \<and> (\<forall>y \<in> set xs. f x \<le> f y)"
proof (induction xs arbitrary: x)
  case Nil
  then show ?case by simp
next
  case (Cons z xs)
  show ?case
  proof (cases "min_by_key f xs")
    case None
    then show ?thesis using Cons.prems by simp
  next
    case (Some b)
    then show ?thesis using Cons.prems Cons.IH [OF Some] by (fastforce split: if_splits)
  qed
qed

lemma mutable_shape_allowed: "mutable_shape f m a c \<Longrightarrow> family_allowed f \<and> m \<noteq> Natural"
  by (auto simp: mutable_shape_def family_allowed_def)

lemma candidate_new_valid:
  "candidate_new f m a c ctx og = Inr cd \<Longrightarrow> valid_key (cd_key cd) \<and> cd_origin cd = og \<and> origin_is_known og"
  by (auto simp: candidate_new_def valid_key_def family_allowed_def Let_def split: if_splits)

lemma natural_observation_valid: "valid_key (cd_key c) \<Longrightarrow> valid_key (cd_key (natural_observation c))"
  using mutable_shape_allowed
  by (auto simp: natural_observation_def valid_key_def natural_shape_def family_allowed_def)

lemma valid_key_family: "valid_key k \<Longrightarrow> family_allowed (key_family k)"
  using mutable_shape_allowed by (auto simp: valid_key_def family_allowed_def)

end
