(* ===== verification/Exploration_Scheduler.thy ===== *)
theory Exploration_Scheduler
  imports Exploration_Types Hash_Map
begin

text \<open>
  \<open>engine/exploration_scheduler.rs\<close>: bounded admission of local exploration. The scheduler
  owns no clock and no effect: every call receives the gates and the time. The length of the
  state's JSON encoding, which a third-party crate computes, is a parameter of the check of a
  persisted state (\<open>None\<close> where the encoder fails).
\<close>

definition MAX_CANDIDATES_PER_FAMILY :: nat where "MAX_CANDIDATES_PER_FAMILY = 4"
definition MAX_CANDIDATES_PER_CYCLE :: nat where "MAX_CANDIDATES_PER_CYCLE = 12"
definition MAX_COOLDOWNS :: nat where "MAX_COOLDOWNS = 256"
definition MAX_TERMINAL_DEDUP :: nat where "MAX_TERMINAL_DEDUP = 128"
definition MAX_SERIALIZED_BYTES :: nat where "MAX_SERIALIZED_BYTES = 64 * 1024"
definition GLOBAL_INTERVAL_SECS :: i64 where "GLOBAL_INTERVAL_SECS = 900"
definition KEY_COOLDOWN_SECS :: i64 where "KEY_COOLDOWN_SECS = 86400"
definition MAX_COMMITS_PER_DAY :: nat where "MAX_COMMITS_PER_DAY = 96"
definition SCHEDULER_SCHEMA_VERSION :: u32 where "SCHEDULER_SCHEMA_VERSION = 2"

datatype approval = ExplorationApproval (ap_metadata: metadata)

datatype commit_evidence =
  MutationApplied | OmissionEndpointOpened | NoOp | EvFailed | DryRun | StaleIdentity
| OwnershipConflict | ZeroMembers

datatype commit_result = Committed | ReleasedWithoutCommit | DuplicateCommit | UnknownCorrelation

record cooldown_deadline =
  cl_expires :: i64
  cl_committed_monotonic :: u64
  cl_boot_id :: u64

record scheduler_work =
  candidates_examined :: nat
  cooldowns_examined :: nat

record scheduler =
  sc_origin :: origin
  cooldowns :: "(exploration_key, cooldown_deadline) hmap"
  commits :: "time_point list"
  terminal_dedup :: "probe_correlation list"
  active :: "metadata option"
  arm_sequence :: u64
  next_correlation :: u64
  cycle_id :: "u64 option"
  cycle_candidates_examined :: nat
  last_work :: scheduler_work

definition no_work :: scheduler_work where
  "no_work = \<lparr> candidates_examined = 0, cooldowns_examined = 0 \<rparr>"

definition cold_start :: "origin \<Rightarrow> scheduler" where
  "cold_start og = \<lparr> sc_origin = og, cooldowns = [], commits = [], terminal_dedup = [], active = None,
     arm_sequence = 0, next_correlation = 0, cycle_id = None, cycle_candidates_examined = 0,
     last_work = no_work \<rparr>"

definition begin_exploration_cycle :: "u64 \<Rightarrow> scheduler \<Rightarrow> scheduler" where
  "begin_exploration_cycle cycle s =
     (if cycle_id s \<noteq> Some cycle
      then s\<lparr> cycle_id := Some cycle, cycle_candidates_examined := 0, last_work := no_work \<rparr>
      else s)"

definition revision :: "scheduler \<Rightarrow> u64" where
  "revision s =
     (let act = (case active s of None \<Rightarrow> 0 | Some md \<Rightarrow> md_correlation md)
      in arm_sequence s XOR word_rotl 11 (next_correlation s) XOR word_rotl 23 act
         XOR word_rotl 31 (of_nat (hm_len (cooldowns s))) XOR word_rotl 43 (of_nat (length (commits s)))
         XOR word_rotl 53 (of_nat (length (terminal_dedup s))))"

definition learning_counts :: "scheduler \<Rightarrow> u64 \<times> u64" where
  "learning_counts s = (of_nat (length (commits s)), of_nat (length (terminal_dedup s)))"

definition interaction_arm :: "scheduler \<Rightarrow> arm" where
  "interaction_arm s =
     (let r = arm_sequence s mod 3
      in if r = 0 then InteractionQosShort else if r = 1 then InteractionQosStandard else InteractionQosLong)"

subsection \<open>Deadlines\<close>

definition deadline_satisfied :: "time_point \<Rightarrow> time_point \<Rightarrow> u64 \<Rightarrow> bool" where
  "deadline_satisfied commit now dur =
     (if wall_unix_secs now < wall_unix_secs commit
         \<or> i64_sat_sub (wall_unix_secs now) (wall_unix_secs commit) < sint dur then False
      else boot_id now \<noteq> boot_id commit
         \<or> monotonic_secs now \<ge> monotonic_secs commit
           \<and> sat_sub (monotonic_secs now) (monotonic_secs commit) \<ge> dur)"

definition cooldown_satisfied :: "cooldown_deadline \<Rightarrow> time_point \<Rightarrow> bool" where
  "cooldown_satisfied d now =
     (if wall_unix_secs now < cl_expires d then False
      else boot_id now \<noteq> cl_boot_id d
         \<or> monotonic_secs now \<ge> cl_committed_monotonic d
           \<and> sat_sub (monotonic_secs now) (cl_committed_monotonic d) \<ge> of_int KEY_COOLDOWN_SECS)"

definition prune_expired :: "time_point \<Rightarrow> scheduler \<Rightarrow> scheduler" where
  "prune_expired now s =
     (if hm_len (cooldowns s) \<le> MAX_COOLDOWNS then
        s\<lparr> last_work := (last_work s)\<lparr> cooldowns_examined := hm_len (cooldowns s) \<rparr>,
           cooldowns := hm_retain (\<lambda>_ d. \<not> cooldown_satisfied d now) (cooldowns s) \<rparr>
      else s)"

definition prune_commit_window :: "time_point \<Rightarrow> scheduler \<Rightarrow> scheduler" where
  "prune_commit_window now s =
     s\<lparr> commits := dropWhile (\<lambda>c. deadline_satisfied c now (of_int KEY_COOLDOWN_SECS)) (commits s) \<rparr>"

definition check_global_budget :: "time_point \<Rightarrow> scheduler \<Rightarrow> gate_blocker option \<times> scheduler" where
  "check_global_budget now s0 =
     (let s = prune_commit_window now s0
      in if length (commits s) \<ge> MAX_COMMITS_PER_DAY then (Some GB_GlobalBudget, s)
         else if commits s \<noteq> [] \<and> \<not> deadline_satisfied (last (commits s)) now (of_int GLOBAL_INTERVAL_SECS)
         then (Some GB_GlobalBudget, s)
         else (None, s))"

definition peek_next_correlation :: "scheduler \<Rightarrow> probe_correlation" where
  "peek_next_correlation s =
     (let n = (next_correlation s + 1) AND NOT LEDGER_NAMESPACE in if n = 0 then 1 else n)"

definition push_terminal :: "probe_correlation \<Rightarrow> scheduler \<Rightarrow> scheduler" where
  "push_terminal c s =
     (if c = 0 \<or> c \<in> set (terminal_dedup s) then s
      else s\<lparr> terminal_dedup := push_bounded MAX_TERMINAL_DEDUP c (terminal_dedup s) \<rparr>)"

subsection \<open>Selection\<close>

fun examine :: "candidate list \<Rightarrow> u8 list \<Rightarrow> scheduler \<Rightarrow> gate_blocker option \<times> scheduler" where
  "examine [] counts s = (None, s)"
| "examine (c # cs) counts s0 =
     (let n = cycle_candidates_examined s0 + 1;
          s = s0\<lparr> cycle_candidates_examined := n,
                  last_work := (last_work s0)\<lparr> candidates_examined := n \<rparr> \<rparr>
      in if cd_origin c \<noteq> sc_origin s \<or> \<not> origin_is_known (cd_origin c) then (Some GB_Policy, s)
         else (case family_index (key_family (cd_key c)) of
             None \<Rightarrow> (Some GB_Policy, s)
           | Some i \<Rightarrow>
               (let counts' = counts[i := sat_add (counts ! i) 1]
                in if unat (counts' ! i) > MAX_CANDIDATES_PER_FAMILY then (Some GB_Capacity, s)
                   else examine cs counts' s)))"

definition admit :: "candidate \<Rightarrow> gates \<Rightarrow> time_point \<Rightarrow> scheduler \<Rightarrow> (gate_blocker + approval) \<times> scheduler" where
  "admit selected g now s =
     (let c = peek_next_correlation s; k = cd_key selected;
          md = \<lparr> md_correlation = c, md_family = key_family k, md_key = k, md_arm = key_arm k,
                 md_treatment = (key_mode k = Treatment), md_committed = False, md_cancelled = None \<rparr>
      in if key_mode k = Natural then
           (Inr (ExplorationApproval (md\<lparr> md_treatment := False \<rparr>)), s\<lparr> next_correlation := c \<rparr>)
         else (case selected_key_gate_blocker g k of
             Some b \<Rightarrow> (Inl b, s)
           | None \<Rightarrow>
               if active s \<noteq> None then (Inl GB_Ownership, s)
               else if \<not> time_valid now then (Inl GB_Policy, s)
               else (case check_global_budget now (prune_expired now s) of
                   (Some b, s2) \<Rightarrow> (Inl b, s2)
                 | (None, s2) \<Rightarrow>
                     if (case hm_get (cooldowns s2) k of Some d \<Rightarrow> \<not> cooldown_satisfied d now | None \<Rightarrow> False)
                     then (Inl GB_KeyCooldown, s2)
                     else if hm_len (cooldowns s2) \<ge> MAX_COOLDOWNS \<and> \<not> hm_contains (cooldowns s2) k
                     then (Inl GB_Capacity, s2)
                     else (Inr (ExplorationApproval md),
                           s2\<lparr> next_correlation := c, active := Some md \<rparr>))))"

definition select ::
  "candidate list \<Rightarrow> gates \<Rightarrow> time_point \<Rightarrow> scheduler \<Rightarrow> (gate_blocker + approval) \<times> scheduler" where
  "select cands g now s =
     (case first_safety_gate_blocker g of
        Some b \<Rightarrow> (Inl b, s)
      | None \<Rightarrow>
          (let s0 = (if cycle_id s = None then s\<lparr> cycle_candidates_examined := 0 \<rparr> else s);
               s1 = s0\<lparr> last_work := (last_work s0)\<lparr> cooldowns_examined := 0 \<rparr> \<rparr>
           in if cands = [] \<or> length cands > MAX_CANDIDATES_PER_CYCLE then (Inl GB_Capacity, s1)
              else if cycle_candidates_examined s1 + length cands > MAX_CANDIDATES_PER_CYCLE
              then (Inl GB_Capacity, s1)
              else (case examine cands [0, 0, 0] s1 of
                  (Some b, s2) \<Rightarrow> (Inl b, s2)
                | (None, s2) \<Rightarrow>
                    (case min_by_key (\<lambda>c. selection_key (cd_key c)) cands of
                       None \<Rightarrow> (Inl GB_Capacity, s2)
                     | Some selected \<Rightarrow> admit selected g now s2))))"

definition request ::
  "candidate \<Rightarrow> gates \<Rightarrow> time_point \<Rightarrow> scheduler \<Rightarrow> (gate_blocker + approval) \<times> scheduler" where
  "request c g now s = select [c] g now s"

definition recheck :: "approval \<Rightarrow> gates \<Rightarrow> gate_blocker option" where
  "recheck ap g =
     (case first_safety_gate_blocker g of
        Some b \<Rightarrow> Some b
      | None \<Rightarrow> selected_key_gate_blocker g (md_key (ap_metadata ap)))"

subsection \<open>Commit and cancellation\<close>

fun evidence_valid :: "mode \<Rightarrow> commit_evidence \<Rightarrow> bool" where
  "evidence_valid Treatment ev = (ev = MutationApplied)"
| "evidence_valid Control ev = (ev = OmissionEndpointOpened)"
| "evidence_valid Natural ev = False"

definition commit_metadata ::
  "probe_correlation \<Rightarrow> time_point \<Rightarrow> commit_evidence \<Rightarrow> scheduler \<Rightarrow> metadata option \<times> scheduler" where
  "commit_metadata c now ev s =
     (case active s of
        None \<Rightarrow> (None, s)
      | Some md \<Rightarrow>
          if md_correlation md \<noteq> c then (None, s)
          else
            (let s = s\<lparr> active := None \<rparr>
             in if \<not> evidence_valid (key_mode (md_key md)) ev \<or> \<not> time_valid now then (None, s)
                else if hm_len (cooldowns s) \<ge> MAX_COOLDOWNS \<and> \<not> hm_contains (cooldowns s) (md_key md)
                then (None, s)
                else
                  (let cs = commits s @ [now];
                       s = s\<lparr> cooldowns := hm_insert (md_key md)
                                 \<lparr> cl_expires = i64_sat_add (wall_unix_secs now) KEY_COOLDOWN_SECS,
                                   cl_committed_monotonic = monotonic_secs now,
                                   cl_boot_id = boot_id now \<rparr> (cooldowns s),
                              commits := drop (length cs - MAX_COMMITS_PER_DAY) cs,
                              arm_sequence := (if md_family md = AF_InteractionQos
                                               then arm_sequence s + 1 else arm_sequence s) \<rparr>
                   in (Some (md\<lparr> md_committed := True \<rparr>), push_terminal c s))))"

definition commit ::
  "probe_correlation \<Rightarrow> time_point \<Rightarrow> commit_evidence \<Rightarrow> scheduler \<Rightarrow> commit_result \<times> scheduler" where
  "commit c now ev s =
     (let matched = (case active s of Some md \<Rightarrow> md_correlation md = c | None \<Rightarrow> False);
          (r, s') = commit_metadata c now ev s
      in (if r \<noteq> None then Committed
          else if matched then ReleasedWithoutCommit
          else if c \<in> set (terminal_dedup s') then DuplicateCommit
          else UnknownCorrelation, s'))"

definition cancel :: "probe_correlation \<Rightarrow> terminal_diagnostic \<Rightarrow> scheduler \<Rightarrow> bool \<times> scheduler" where
  "cancel c d s =
     (case active s of
        Some md \<Rightarrow> if md_correlation md = c then (True, push_terminal c (s\<lparr> active := None \<rparr>)) else (False, s)
      | None \<Rightarrow> (False, s))"

definition cancel_active :: "terminal_diagnostic \<Rightarrow> scheduler \<Rightarrow> metadata option \<times> scheduler" where
  "cancel_active d s =
     (case active s of
        None \<Rightarrow> (None, s)
      | Some md \<Rightarrow> (Some (md\<lparr> md_cancelled := Some d \<rparr>), push_terminal (md_correlation md) (s\<lparr> active := None \<rparr>)))"

definition record_terminal :: "probe_correlation \<Rightarrow> terminal_diagnostic \<Rightarrow> scheduler \<Rightarrow> bool \<times> scheduler" where
  "record_terminal c d s =
     (if c = 0 \<or> c \<in> set (terminal_dedup s) then (False, s) else (True, push_terminal c s))"

definition has_active_reservation :: "scheduler \<Rightarrow> bool" where
  "has_active_reservation s \<longleftrightarrow> active s \<noteq> None"

definition active_correlation :: "scheduler \<Rightarrow> probe_correlation option" where
  "active_correlation s = map_option md_correlation (active s)"

definition committed_count :: "scheduler \<Rightarrow> nat" where
  "committed_count s = length (commits s)"

definition cooldown_count :: "scheduler \<Rightarrow> nat" where
  "cooldown_count s = hm_len (cooldowns s)"

definition terminal_dedup_count :: "scheduler \<Rightarrow> nat" where
  "terminal_dedup_count s = length (terminal_dedup s)"

subsection \<open>Persistence\<close>

record persisted_cooldown =
  pc_key :: exploration_key
  pc_expires :: i64
  pc_committed_monotonic :: u64
  pc_boot_id :: u64

record scheduler_persisted =
  ps_schema_version :: u32
  ps_origin :: origin
  ps_cooldowns :: "persisted_cooldown list"
  ps_commits :: "time_point list"
  ps_terminal_dedup :: "probe_correlation list"
  ps_arm_sequence :: u64
  ps_next_correlation :: u64
  ps_reserved :: string

definition default_for :: "origin \<Rightarrow> scheduler_persisted" where
  "default_for og = \<lparr> ps_schema_version = SCHEDULER_SCHEMA_VERSION, ps_origin = og, ps_cooldowns = [],
     ps_commits = [], ps_terminal_dedup = [], ps_arm_sequence = 0, ps_next_correlation = 0,
     ps_reserved = [] \<rparr>"

datatype restore_source = RsLocal | RsUnknown | RsImportedM1

record restore_context =
  rc_origin :: origin
  rc_now :: time_point
  rc_source :: restore_source

datatype restore_disposition = Restored | ResetOrigin | ResetHostile

definition persisted :: "scheduler \<Rightarrow> scheduler_persisted" where
  "persisted s = \<lparr> ps_schema_version = SCHEDULER_SCHEMA_VERSION, ps_origin = sc_origin s,
     ps_cooldowns = map (\<lambda>(k, d). \<lparr> pc_key = k, pc_expires = cl_expires d,
        pc_committed_monotonic = cl_committed_monotonic d, pc_boot_id = cl_boot_id d \<rparr>) (cooldowns s),
     ps_commits = commits s, ps_terminal_dedup = terminal_dedup s, ps_arm_sequence = arm_sequence s,
     ps_next_correlation = next_correlation s, ps_reserved = [] \<rparr>"

definition valid_persisted :: "(scheduler_persisted \<Rightarrow> nat option) \<Rightarrow> scheduler_persisted \<Rightarrow> bool" where
  "valid_persisted json_len p \<longleftrightarrow>
     ps_schema_version p = SCHEDULER_SCHEMA_VERSION \<and> origin_is_known (ps_origin p) \<and>
     length (ps_cooldowns p) \<le> MAX_COOLDOWNS \<and> length (ps_commits p) \<le> MAX_COMMITS_PER_DAY \<and>
     length (ps_terminal_dedup p) \<le> MAX_TERMINAL_DEDUP \<and> ps_next_correlation p < LEDGER_NAMESPACE \<and>
     ps_reserved p = [] \<and>
     (case json_len p of Some n \<Rightarrow> n \<le> MAX_SERIALIZED_BYTES | None \<Rightarrow> False) \<and>
     list_all (\<lambda>c. 0 < pc_expires c \<and> pc_boot_id c \<noteq> 0 \<and> valid_key (pc_key c)) (ps_cooldowns p) \<and>
     distinct (map pc_key (ps_cooldowns p)) \<and>
     list_all (\<lambda>c. c \<noteq> 0 \<and> c < LEDGER_NAMESPACE) (ps_terminal_dedup p) \<and>
     distinct (ps_terminal_dedup p) \<and>
     list_all (\<lambda>c. 0 < wall_unix_secs c \<and> 0 < boot_id c) (ps_commits p) \<and>
     list_all (\<lambda>(l, r). wall_unix_secs l \<le> wall_unix_secs r) (zip (ps_commits p) (drop 1 (ps_commits p)))"

definition restore ::
  "(scheduler_persisted \<Rightarrow> nat option) \<Rightarrow> scheduler_persisted \<Rightarrow> restore_context \<Rightarrow> scheduler \<times> restore_disposition" where
  "restore json_len p ctx =
     (if rc_source ctx \<noteq> RsLocal \<or> \<not> origin_is_known (rc_origin ctx) \<or> ps_origin p \<noteq> rc_origin ctx
      then (cold_start (rc_origin ctx), ResetOrigin)
      else if \<not> valid_persisted json_len p then (cold_start (rc_origin ctx), ResetHostile)
      else
        (let s = (cold_start (rc_origin ctx))\<lparr>
               cooldowns := hm_from_list (map (\<lambda>c. (pc_key c,
                 \<lparr> cl_expires = pc_expires c, cl_committed_monotonic = pc_committed_monotonic c,
                   cl_boot_id = pc_boot_id c \<rparr>)) (ps_cooldowns p)),
               commits := ps_commits p, terminal_dedup := ps_terminal_dedup p,
               arm_sequence := ps_arm_sequence p, next_correlation := ps_next_correlation p \<rparr>
         in (if time_valid (rc_now ctx)
             then prune_commit_window (rc_now ctx) (prune_expired (rc_now ctx) s) else s, Restored)))"

text \<open>The bounded sequence visitor of the deserializer; an element is a value or a decode error.\<close>

fun visit_seq :: "nat \<Rightarrow> 'a list \<Rightarrow> (string + 'a) list \<Rightarrow> string + 'a list" where
  "visit_seq mx values [] = Inr values"
| "visit_seq mx values (Inl e # rest) = Inl e"
| "visit_seq mx values (Inr v # rest) =
     (if length values = mx then Inl ''scheduler field exceeds bounded capacity''
      else visit_seq mx (values @ [v]) rest)"

definition visit_reserved :: "string \<Rightarrow> string + string" where
  "visit_reserved v = (if length v > MAX_SERIALIZED_BYTES
     then Inl ''scheduler string exceeds serialized payload cap'' else Inr v)"

subsection \<open>Correlations\<close>

lemma LEDGER_NAMESPACE_numeral: "LEDGER_NAMESPACE = 9223372036854775808"
  by (simp add: LEDGER_NAMESPACE_def push_bit_eq_mult)

lemma below_namespace: "c < LEDGER_NAMESPACE \<longleftrightarrow> unat c < 2 ^ 63"
  by (simp add: LEDGER_NAMESPACE_numeral word_less_nat_alt)

lemma and_not_namespace: "x AND NOT LEDGER_NAMESPACE = take_bit 63 x"
proof -
  have "NOT LEDGER_NAMESPACE = mask 63"
    by (simp add: LEDGER_NAMESPACE_numeral not_eq_complement mask_eq_exp_minus_1)
  then show ?thesis by (simp add: take_bit_eq_mask)
qed

lemma unat_take_bit_63: "unat (take_bit 63 x) = unat x mod 2 ^ 63" for x :: u64
  by (subst unsigned_take_bit_eq) (rule take_bit_eq_mod)

lemma peek_unat:
  assumes "next_correlation s < LEDGER_NAMESPACE"
  shows "unat (peek_next_correlation s) = unat (next_correlation s) mod (2 ^ 63 - 1) + 1"
proof -
  let ?n = "next_correlation s"
  have lt: "unat ?n < 2 ^ 63" using assms by (simp add: below_namespace)
  then have inc: "unat (?n + 1) = unat ?n + 1" by (simp add: unat_word_ariths)
  have tb: "unat (take_bit 63 (?n + 1)) = (unat ?n + 1) mod 2 ^ 63"
    by (simp only: unat_take_bit_63 inc)
  show ?thesis
  proof (cases "unat ?n = 2 ^ 63 - 1")
    case True
    then have "unat (take_bit 63 (?n + 1)) = 0" by (simp only: tb) simp
    then have "take_bit 63 (?n + 1) = 0" by (simp only: word_unat_eq_iff unat_0)
    then show ?thesis using True by (simp add: peek_next_correlation_def Let_def and_not_namespace)
  next
    case False
    then have u: "unat (take_bit 63 (?n + 1)) = unat ?n + 1" using lt by (simp add: tb)
    then have "take_bit 63 (?n + 1) \<noteq> 0" by (metis add_is_0 one_neq_zero unat_0)
    then show ?thesis using False lt u by (simp add: peek_next_correlation_def Let_def and_not_namespace)
  qed
qed

lemma peek_range:
  assumes "next_correlation s < LEDGER_NAMESPACE"
  shows "0 < peek_next_correlation s" and "peek_next_correlation s < LEDGER_NAMESPACE"
proof -
  have "unat (next_correlation s) mod (2 ^ 63 - 1) < 2 ^ 63 - 1" by simp
  then have "0 < unat (peek_next_correlation s) \<and> unat (peek_next_correlation s) < 2 ^ 63"
    using peek_unat [OF assms] by linarith
  then show "0 < peek_next_correlation s" "peek_next_correlation s < LEDGER_NAMESPACE"
    unfolding below_namespace by (simp_all add: word_less_nat_alt)
qed

subsection \<open>The invariant\<close>

definition deadline_ok :: "cooldown_deadline \<Rightarrow> bool" where
  "deadline_ok d \<longleftrightarrow> 0 < cl_expires d \<and> cl_boot_id d \<noteq> 0"

definition cooldowns_ok :: "(exploration_key, cooldown_deadline) hmap \<Rightarrow> bool" where
  "cooldowns_ok m \<longleftrightarrow> hm_wf m \<and> hm_len m \<le> MAX_COOLDOWNS \<and>
     (\<forall>k d. hm_get m k = Some d \<longrightarrow> valid_key k \<and> deadline_ok d)"

definition commits_ok :: "time_point list \<Rightarrow> bool" where
  "commits_ok cs \<longleftrightarrow> length cs \<le> MAX_COMMITS_PER_DAY \<and> (\<forall>c \<in> set cs. time_valid c)"

definition terminals_ok :: "probe_correlation list \<Rightarrow> bool" where
  "terminals_ok ts \<longleftrightarrow> length ts \<le> MAX_TERMINAL_DEDUP \<and> distinct ts \<and> 0 \<notin> set ts"

definition reservation_ok :: "metadata \<Rightarrow> bool" where
  "reservation_ok md \<longleftrightarrow> metadata_valid md \<and> key_mode (md_key md) \<noteq> Natural \<and>
     \<not> md_committed md \<and> md_cancelled md = None"

definition sched_inv :: "scheduler \<Rightarrow> bool" where
  "sched_inv s \<longleftrightarrow> cooldowns_ok (cooldowns s) \<and> commits_ok (commits s) \<and>
     terminals_ok (terminal_dedup s) \<and> next_correlation s < LEDGER_NAMESPACE \<and>
     pred_option reservation_ok (active s)"

lemma sched_inv_cold_start: "sched_inv (cold_start og)"
  by (simp add: sched_inv_def cold_start_def cooldowns_ok_def commits_ok_def terminals_ok_def
      LEDGER_NAMESPACE_numeral hm_len_def)

lemma cooldowns_ok_retain: "cooldowns_ok m \<Longrightarrow> cooldowns_ok (hm_retain P m)"
  using hm.len_retain_le [of m P]
  by (auto simp: cooldowns_ok_def hm.get_retain split: option.splits if_splits)

lemma prune_inv:
  "sched_inv s \<Longrightarrow> sched_inv (prune_expired now s)"
  "sched_inv s \<Longrightarrow> sched_inv (prune_commit_window now s)"
proof -
  show "sched_inv s \<Longrightarrow> sched_inv (prune_expired now s)"
    by (simp add: sched_inv_def prune_expired_def cooldowns_ok_retain)
  have "length (dropWhile P cs) \<le> length cs" for P and cs :: "time_point list"
    by (simp add: length_dropWhile_le)
  then have "commits_ok cs \<Longrightarrow> commits_ok (dropWhile P cs)" for P cs
    by (auto simp: commits_ok_def dest: set_dropWhileD intro: le_trans)
  then show "sched_inv s \<Longrightarrow> sched_inv (prune_commit_window now s)"
    by (simp add: sched_inv_def prune_commit_window_def)
qed

lemma budget_inv:
  "sched_inv s \<Longrightarrow> check_global_budget now s = (r, s') \<Longrightarrow> sched_inv s'"
  by (auto simp: check_global_budget_def Let_def prune_inv split: if_splits)

lemma push_terminal_inv: "sched_inv s \<Longrightarrow> sched_inv (push_terminal c s)"
proof -
  assume inv: "sched_inv s"
  have "terminals_ok ts \<Longrightarrow> c \<noteq> 0 \<Longrightarrow> c \<notin> set ts \<Longrightarrow> terminals_ok (push_bounded MAX_TERMINAL_DEDUP c ts)" for ts
    using push_bounded_set [of MAX_TERMINAL_DEDUP c ts] push_bounded_length [of MAX_TERMINAL_DEDUP ts c]
    by (auto simp: terminals_ok_def push_bounded_distinct MAX_TERMINAL_DEDUP_def)
  then show "sched_inv (push_terminal c s)" using inv by (simp add: push_terminal_def sched_inv_def)
qed

interpretation terminals: bounded_fifo
  "\<lambda>(c :: probe_correlation) ts. if c \<in> set ts then ts else push_bounded MAX_TERMINAL_DEDUP c ts" MAX_TERMINAL_DEDUP
proof unfold_locales
  fix q :: "probe_correlation list" and x
  show "length q \<le> MAX_TERMINAL_DEDUP \<Longrightarrow>
      length (if x \<in> set q then q else push_bounded MAX_TERMINAL_DEDUP x q) \<le> MAX_TERMINAL_DEDUP"
    by (simp add: push_bounded_length MAX_TERMINAL_DEDUP_def)
  show "set (if x \<in> set q then q else push_bounded MAX_TERMINAL_DEDUP x q) \<subseteq> insert x (set q)"
    using push_bounded_set [of MAX_TERMINAL_DEDUP x q] by auto
  show "x \<in> set (if x \<in> set q then q else push_bounded MAX_TERMINAL_DEDUP x q)" by simp
qed

text \<open>Examining candidates only touches the work counters, and accepts local candidates only.\<close>

abbreviation examined :: "scheduler \<Rightarrow> scheduler" where
  "examined s \<equiv> s\<lparr> cycle_candidates_examined := cycle_candidates_examined s + 1,
     last_work := (last_work s)\<lparr> candidates_examined := cycle_candidates_examined s + 1 \<rparr> \<rparr>"

lemma examine_Cons:
  assumes "examine (c # cs) counts s = (r, s')"
  shows "(r \<noteq> None \<and> s' = examined s) \<or>
    (\<exists>i counts'. cd_origin c = sc_origin s \<and> origin_is_known (cd_origin c) \<and>
       family_index (key_family (cd_key c)) = Some i \<and> examine cs counts' (examined s) = (r, s'))"
proof (cases "cd_origin c \<noteq> sc_origin s \<or> \<not> origin_is_known (cd_origin c)")
  case True
  then show ?thesis using assms by (simp add: Let_def) blast
next
  case False
  then show ?thesis
  proof (cases "family_index (key_family (cd_key c))")
    case None
    then show ?thesis using assms False by (auto simp: Let_def)
  next
    case (Some i)
    let ?counts = "counts[i := sat_add (counts ! i) 1]"
    show ?thesis
    proof (cases "unat (?counts ! i) > MAX_CANDIDATES_PER_FAMILY")
      case True
      then show ?thesis using assms False Some by (auto simp: Let_def)
    next
      case False
      then have "examine cs ?counts (examined s) = (r, s')"
        using assms \<open>\<not> (cd_origin c \<noteq> sc_origin s \<or> \<not> origin_is_known (cd_origin c))\<close> Some
        by (simp add: Let_def)
      then show ?thesis using \<open>\<not> (cd_origin c \<noteq> sc_origin s \<or> \<not> origin_is_known (cd_origin c))\<close> Some by blast
    qed
  qed
qed

lemma examine_state:
  "examine cs counts s = (r, s') \<Longrightarrow>
     \<exists>n w. s' = s\<lparr> cycle_candidates_examined := n, last_work := w \<rparr>"
proof (induction cs arbitrary: counts s)
  case Nil
  then have "s' = s\<lparr> cycle_candidates_examined := cycle_candidates_examined s, last_work := last_work s \<rparr>" by simp
  then show ?case by blast
next
  case (Cons c cs)
  show ?case using examine_Cons [OF Cons.prems] Cons.IH [of _ "examined s"] by auto
qed

lemma examine_ok:
  "examine cs counts s = (None, s') \<Longrightarrow>
     \<forall>c \<in> set cs. cd_origin c = sc_origin s \<and> origin_is_known (cd_origin c) \<and> family_allowed (key_family (cd_key c))"
proof (induction cs arbitrary: counts s)
  case (Cons c cs)
  obtain i counts' where c: "cd_origin c = sc_origin s" "origin_is_known (cd_origin c)"
    "family_index (key_family (cd_key c)) = Some i" and rec: "examine cs counts' (examined s) = (None, s')"
    using examine_Cons [OF Cons.prems] by blast
  have "family_allowed (key_family (cd_key c))"
    using c(3) by (cases "key_family (cd_key c)") (simp_all add: family_index_def family_allowed_def)
  then show ?case using c Cons.IH [OF rec] by simp
qed simp

subsection \<open>What an approval means\<close>

text \<open>The facts a granted reservation rests on.\<close>

definition grant :: "exploration_key \<Rightarrow> time_point \<Rightarrow> scheduler \<Rightarrow> scheduler \<Rightarrow> bool" where
  "grant k now s s2 \<longleftrightarrow> active s = None \<and> time_valid now \<and>
     check_global_budget now (prune_expired now s) = (None, s2) \<and>
     (case hm_get (cooldowns s2) k of Some d \<Rightarrow> cooldown_satisfied d now | None \<Rightarrow> True) \<and>
     (hm_len (cooldowns s2) < MAX_COOLDOWNS \<or> hm_contains (cooldowns s2) k)"

definition reservation :: "exploration_key \<Rightarrow> scheduler \<Rightarrow> metadata" where
  "reservation k s = \<lparr> md_correlation = peek_next_correlation s, md_family = key_family k, md_key = k,
     md_arm = key_arm k, md_treatment = (key_mode k = Treatment), md_committed = False, md_cancelled = None \<rparr>"

lemma admit_cases:
  assumes "admit selected g now s = (r, s')"
  obtains (natural) "key_mode (cd_key selected) = Natural"
      "r = Inr (ExplorationApproval (reservation (cd_key selected) s))"
      "s' = s\<lparr> next_correlation := peek_next_correlation s \<rparr>"
  | (refused_early) b where "key_mode (cd_key selected) \<noteq> Natural" "r = Inl b" "s' = s"
  | (refused) b where "key_mode (cd_key selected) \<noteq> Natural" "r = Inl b" "active s = None"
      "s' = snd (check_global_budget now (prune_expired now s))"
  | (granted) s2 where "key_mode (cd_key selected) \<noteq> Natural" "selected_key_gate_blocker g (cd_key selected) = None"
      "grant (cd_key selected) now s s2"
      "r = Inr (ExplorationApproval (reservation (cd_key selected) s))"
      "s' = s2\<lparr> next_correlation := peek_next_correlation s, active := Some (reservation (cd_key selected) s) \<rparr>"
proof (cases "key_mode (cd_key selected) = Natural")
  case True
  then show ?thesis using natural assms by (simp add: admit_def Let_def reservation_def)
next
  case mutable: False
  show ?thesis
  proof (cases "selected_key_gate_blocker g (cd_key selected) = None \<and> active s = None \<and> time_valid now")
    case False
    then show ?thesis using refused_early mutable assms
      by (auto simp: admit_def Let_def split: option.splits if_splits)
  next
    case ok: True
    obtain b s2 where b: "check_global_budget now (prune_expired now s) = (b, s2)" by fastforce
    show ?thesis
    proof (cases "grant (cd_key selected) now s s2")
      case True
      then show ?thesis using granted mutable assms ok b
        by (auto simp: admit_def Let_def grant_def reservation_def hm_contains_def split: option.splits)
    next
      case False
      then have "(\<exists>bl. r = Inl bl) \<and> s' = s2"
        using mutable assms ok b
        by (auto simp: admit_def Let_def grant_def split: option.splits if_splits)
      then show ?thesis using refused mutable ok b by auto
    qed
  qed
qed

lemma select_cases:
  assumes "select cands g now s = (r, s')"
  obtains (refused) b n w where "r = Inl b" "s' = s\<lparr> cycle_candidates_examined := n, last_work := w \<rparr>"
  | (admitted) n w selected where "first_safety_gate_blocker g = None" "selected \<in> set cands"
      "\<forall>c \<in> set cands. cd_origin c = sc_origin s \<and> selection_key (cd_key selected) \<le> selection_key (cd_key c)"
      "admit selected g now (s\<lparr> cycle_candidates_examined := n, last_work := w \<rparr>) = (r, s')"
proof (cases "first_safety_gate_blocker g")
  case (Some b)
  then have "r = Inl b" "s' = s" using assms by (simp_all add: select_def)
  then show ?thesis by (intro refused [where b = b and n = "cycle_candidates_examined s" and w = "last_work s"]) simp_all
next
  case None
  define s0 where "s0 = (if cycle_id s = None then s\<lparr> cycle_candidates_examined := 0 \<rparr> else s)"
  define s1 where "s1 = s0\<lparr> last_work := (last_work s0)\<lparr> cooldowns_examined := 0 \<rparr> \<rparr>"
  have s1: "\<exists>n w. s1 = s\<lparr> cycle_candidates_examined := n, last_work := w \<rparr>"
  proof (cases "cycle_id s = None")
    case True
    then show ?thesis unfolding s1_def s0_def by auto
  next
    case False
    then have "s1 = s\<lparr> cycle_candidates_examined := cycle_candidates_examined s,
        last_work := (last_work s)\<lparr> cooldowns_examined := 0 \<rparr> \<rparr>" by (auto simp: s1_def s0_def)
    then show ?thesis by blast
  qed
  show ?thesis
  proof (cases "cands = [] \<or> length cands > MAX_CANDIDATES_PER_CYCLE
      \<or> cycle_candidates_examined s1 + length cands > MAX_CANDIDATES_PER_CYCLE")
    case True
    then have "r = Inl GB_Capacity \<and> s' = s1"
      using assms None by (auto simp: select_def Let_def s1_def s0_def split: if_splits)
    then show ?thesis using refused s1 by auto
  next
    case False
    obtain b s2 where e: "examine cands [0, 0, 0] s1 = (b, s2)" by fastforce
    obtain n w where s2: "s2 = s\<lparr> cycle_candidates_examined := n, last_work := w \<rparr>"
      using examine_state [OF e] s1 by auto
    obtain selected where sel: "min_by_key (\<lambda>c. selection_key (cd_key c)) cands = Some selected"
      using False by (cases "min_by_key (\<lambda>c. selection_key (cd_key c)) cands") auto
    have body: "(case b of Some bl \<Rightarrow> (Inl bl, s2) | None \<Rightarrow> admit selected g now s2) = (r, s')"
      using assms None False e sel unfolding select_def Let_def s0_def [symmetric] s1_def [symmetric]
      by (cases b) simp_all
    show ?thesis
    proof (cases b)
      case (Some bl)
      then show ?thesis using refused s2 body by auto
    next
      case b: None
      have "\<forall>c \<in> set cands. cd_origin c = sc_origin s1" using examine_ok [of cands _ s1 s2] e b by blast
      moreover have "sc_origin s1 = sc_origin s" using s1 by auto
      ultimately show ?thesis
        using admitted [OF None] min_by_key_least [OF sel] body b s2 by auto
    qed
  qed
qed

lemma metadata_valid_reservation:
  "valid_key k \<Longrightarrow> next_correlation s < LEDGER_NAMESPACE \<Longrightarrow> metadata_valid (reservation k s)"
  by (simp add: reservation_def metadata_valid_def peek_range)

lemma prune_fields [simp]:
  "active (prune_expired now s) = active s" "next_correlation (prune_expired now s) = next_correlation s"
  "commits (prune_expired now s) = commits s" "terminal_dedup (prune_expired now s) = terminal_dedup s"
  by (simp_all add: prune_expired_def)

lemma budget_fields:
  "active (snd (check_global_budget now s)) = active s"
  "next_correlation (snd (check_global_budget now s)) = next_correlation s"
  "cooldowns (snd (check_global_budget now s)) = cooldowns s"
  "commits (snd (check_global_budget now s)) =
     dropWhile (\<lambda>c. deadline_satisfied c now (of_int KEY_COOLDOWN_SECS)) (commits s)"
  by (simp_all add: check_global_budget_def Let_def prune_commit_window_def)

lemma admit_inv:
  assumes "sched_inv s" and "valid_key (cd_key selected)" and "admit selected g now s = (r, s')"
  shows "sched_inv s'"
  using assms(3)
proof (cases rule: admit_cases)
  case natural
  then show ?thesis using assms(1) by (simp add: sched_inv_def peek_range)
next
  case refused_early
  then show ?thesis using assms(1) by simp
next
  case refused
  then show ?thesis using assms(1) prune_inv(1) budget_inv by (metis prod.collapse)
next
  case (granted s2)
  have "sched_inv s2"
    using granted(3) assms(1) prune_inv(1) budget_inv unfolding grant_def by blast
  then show ?thesis
    using granted(1,5) assms(1,2)
    by (simp add: sched_inv_def peek_range reservation_ok_def metadata_valid_reservation)
      (simp add: reservation_def)
qed

lemma select_inv:
  assumes "sched_inv s" and "\<forall>c \<in> set cands. valid_key (cd_key c)" and "select cands g now s = (r, s')"
  shows "sched_inv s'"
  using assms(3)
proof (cases rule: select_cases)
  case refused
  then show ?thesis using assms(1) by (simp add: sched_inv_def)
next
  case (admitted n w selected)
  then show ?thesis using assms(1,2) by (intro admit_inv [OF _ _ admitted(4)]) (auto simp: sched_inv_def)
qed

lemma commit_metadata_inv:
  assumes "sched_inv s"
  shows "sched_inv (snd (commit_metadata c now ev s))"
proof (cases "active s")
  case None
  then show ?thesis using assms by (simp add: commit_metadata_def)
next
  case (Some md)
  show ?thesis
  proof (cases "md_correlation md = c \<and> evidence_valid (key_mode (md_key md)) ev \<and> time_valid now \<and>
      (hm_len (cooldowns s) < MAX_COOLDOWNS \<or> hm_contains (cooldowns s) (md_key md))")
    case False
    then show ?thesis using assms Some
      by (auto simp: commit_metadata_def Let_def sched_inv_def not_less)
  next
    case True
    have md: "valid_key (md_key md)" using assms Some
      by (simp add: sched_inv_def reservation_ok_def metadata_valid_def)
    define s1 where "s1 = s\<lparr> active := None, cooldowns := hm_insert (md_key md)
         \<lparr> cl_expires = i64_sat_add (wall_unix_secs now) KEY_COOLDOWN_SECS,
           cl_committed_monotonic = monotonic_secs now, cl_boot_id = boot_id now \<rparr> (cooldowns s),
       commits := drop (length (commits s @ [now]) - MAX_COMMITS_PER_DAY) (commits s @ [now]),
       arm_sequence := (if md_family md = AF_InteractionQos then arm_sequence s + 1 else arm_sequence s) \<rparr>"
    have "hm_len (hm_insert (md_key md) v (cooldowns s)) \<le> MAX_COOLDOWNS" for v
      using True assms hm.len_insert_le [of "cooldowns s" "md_key md" v]
        hm.len_insert_old [of "cooldowns s" "md_key md" v]
      by (auto simp: sched_inv_def cooldowns_ok_def hm_contains_def)
    then have "cooldowns_ok (cooldowns s1)"
      using assms True md
      by (auto simp: s1_def sched_inv_def cooldowns_ok_def deadline_ok_def time_valid_def i64_sat_add_def
          i64_clamp_def KEY_COOLDOWN_SECS_def)
    moreover have "commits_ok (commits s1)"
      using assms True by (auto simp: s1_def sched_inv_def commits_ok_def dest!: in_set_dropD)
    ultimately have "sched_inv s1" using assms by (simp add: sched_inv_def s1_def)
    then show ?thesis
      using Some True push_terminal_inv [of s1 c]
      by (auto simp: commit_metadata_def Let_def s1_def)
  qed
qed

lemma commit_state: "snd (commit c now ev s) = snd (commit_metadata c now ev s)"
  by (simp add: commit_def Let_def case_prod_beta)

lemma cancel_inv: "sched_inv s \<Longrightarrow> sched_inv (snd (cancel c d s))"
  by (auto simp: cancel_def sched_inv_def intro!: push_terminal_inv [unfolded sched_inv_def] split: option.splits)

lemma cancel_active_inv: "sched_inv s \<Longrightarrow> sched_inv (snd (cancel_active d s))"
  by (auto simp: cancel_active_def sched_inv_def intro!: push_terminal_inv [unfolded sched_inv_def] split: option.splits)

subsection \<open>The machine\<close>

text \<open>
  A candidate reaches the scheduler only through its constructor, because its fields are
  private: an event carries the constructor's arguments, and a refused construction yields no
  candidate.
\<close>

type_synonym candidate_args =
  "actuator_family \<times> mode \<times> arm \<times> action_class \<times> exploration_context \<times> origin"

definition build_candidates :: "candidate_args list \<Rightarrow> candidate list" where
  "build_candidates args = List.map_filter (\<lambda>(f, m, a, c, ctx, og).
     case candidate_new f m a c ctx og of Inl _ \<Rightarrow> None | Inr cd \<Rightarrow> Some cd) args"

datatype sched_event =
  ScCycle u64
| ScSelect "candidate_args list" gates time_point
| ScCommit probe_correlation time_point commit_evidence
| ScCancel probe_correlation terminal_diagnostic
| ScCancelActive terminal_diagnostic
| ScTerminal probe_correlation terminal_diagnostic

fun sched_step :: "sched_event \<Rightarrow> scheduler \<Rightarrow> scheduler" where
  "sched_step (ScCycle n) s = begin_exploration_cycle n s"
| "sched_step (ScSelect args g now) s = snd (select (build_candidates args) g now s)"
| "sched_step (ScCommit c now ev) s = snd (commit c now ev s)"
| "sched_step (ScCancel c d) s = snd (cancel c d s)"
| "sched_step (ScCancelActive d) s = snd (cancel_active d s)"
| "sched_step (ScTerminal c d) s = snd (record_terminal c d s)"

lemma build_candidates_valid: "cd \<in> set (build_candidates args) \<Longrightarrow> valid_key (cd_key cd)"
  by (auto simp: build_candidates_def List.map_filter_def dest!: candidate_new_valid split: sum.splits)

interpretation sched: invariant_machine sched_step sched_inv
proof unfold_locales
  fix e s
  assume inv: "sched_inv s"
  show "sched_inv (sched_step e s)"
  proof (cases e)
    case (ScSelect args g now)
    then show ?thesis
      using select_inv [OF inv, of "build_candidates args" g now] build_candidates_valid
      by (metis prod.collapse sched_step.simps(2))
  next
    case (ScCommit c now ev)
    then show ?thesis by (simp add: commit_state commit_metadata_inv inv)
  qed (use inv in \<open>auto simp: begin_exploration_cycle_def sched_inv_def record_terminal_def
        cancel_inv [unfolded sched_inv_def] cancel_active_inv [unfolded sched_inv_def]
        intro!: push_terminal_inv [unfolded sched_inv_def]\<close>)
qed

text \<open>
  C20: the scheduler stays bounded whatever is asked of it. After any sequence of cycles,
  selections, commits, cancellations and terminal reports, it holds at most 256 cooldowns,
  96 commits and 128 distinct terminal correlations; every cooldown is on a valid key; and an
  active reservation is a valid, uncommitted, uncancelled exploration that may have an effect.
\<close>

theorem scheduler_reachable_inv:
  "(let s = fold sched_step es (cold_start og) in
     cooldown_count s \<le> 256 \<and> committed_count s \<le> 96 \<and> terminal_dedup_count s \<le> 128
     \<and> distinct (terminal_dedup s)
     \<and> pred_option valid_key (if hm_contains (cooldowns s) k then Some k else None)
     \<and> pred_option (\<lambda>md. metadata_valid md \<and> key_mode (md_key md) \<noteq> Natural
          \<and> \<not> md_committed md \<and> md_cancelled md = None) (active s))"
proof -
  let ?s = "fold sched_step es (cold_start og)"
  have inv: "sched_inv ?s" by (rule sched.run_inv [OF sched_inv_cold_start])
  have "hm_contains (cooldowns ?s) k \<Longrightarrow> valid_key k"
    using inv by (auto simp: sched_inv_def cooldowns_ok_def hm_contains_def)
  moreover have "pred_option reservation_ok (active ?s)" using inv by (simp add: sched_inv_def)
  ultimately show ?thesis
    using inv unfolding Let_def
    by (simp add: sched_inv_def cooldowns_ok_def commits_ok_def terminals_ok_def cooldown_count_def
        committed_count_def terminal_dedup_count_def MAX_COOLDOWNS_def MAX_COMMITS_PER_DAY_def
        MAX_TERMINAL_DEDUP_def reservation_ok_def [abs_def])
qed

subsection \<open>Admission\<close>

lemma budget_granted:
  assumes "check_global_budget now s = (None, s2)"
  shows "length (commits s2) < 96"
    and "commits s2 = [] \<or> wall_unix_secs now - wall_unix_secs (last (commits s2)) \<ge> 900"
proof -
  show "length (commits s2) < 96"
    using assms by (auto simp: check_global_budget_def Let_def MAX_COMMITS_PER_DAY_def split: if_splits)
  have sat: "deadline_satisfied c now (of_int GLOBAL_INTERVAL_SECS) \<Longrightarrow>
      wall_unix_secs now - wall_unix_secs c \<ge> 900" for c
    by (auto simp: deadline_satisfied_def GLOBAL_INTERVAL_SECS_def i64_sat_sub_def i64_clamp_def
        split: if_splits)
  show "commits s2 = [] \<or> wall_unix_secs now - wall_unix_secs (last (commits s2)) \<ge> 900"
    using assms sat by (auto simp: check_global_budget_def Let_def split: if_splits)
qed

text \<open>Every flag of the safety gates, one by one.\<close>

definition user_unharmed :: "gates \<Rightarrow> bool" where
  "user_unharmed g \<longleftrightarrow>
     \<not> daemon_shutdown g \<and> \<not> kill_switch g \<and> \<not> cognitive_paused g
     \<and> media_available g \<and> \<not> audio_output_active g \<and> \<not> audio_input_active g \<and> \<not> call_active g
     \<and> \<not> sleep_assertion g \<and> \<not> app_launching g \<and> \<not> window_operation g
     \<and> \<not> fluidity_degraded g \<and> \<not> predicted_fluidity_degraded g
     \<and> thermal_available g \<and> thermal_nominal g \<and> hazard_available g
     \<and> circuit_closed g \<and> speculation_allowed g
     \<and> \<not> build_workload g \<and> build_phase_idle g \<and> \<not> compiler_protection_active g
     \<and> identity_present g \<and> identity_start_nonzero g \<and> \<not> identity_stale g \<and> \<not> identity_recycled g
     \<and> identity_recheck_ok g \<and> \<not> target_protected g \<and> \<not> target_apple_owned g"

text \<open>Nobody else owns the effect of a key; omitting a boost also needs a target that is idle.\<close>

definition unowned :: "gates \<Rightarrow> exploration_key \<Rightarrow> bool" where
  "unowned g k \<longleftrightarrow>
     \<not> markov_quarantined g \<and> \<not> effect_owner_conflict g
     \<and> (key_family k = AF_Boost \<longrightarrow> \<not> coalition_conflict g \<and> \<not> target_foreground g
          \<and> \<not> target_launching g \<and> \<not> interactive_lease_active g \<and> \<not> recovery_required g)
     \<and> key_family k \<in> {AF_Boost, AF_InteractionQos, AF_MarkovPrewarm}
     \<and> (key_family k = AF_MarkovPrewarm \<longrightarrow> key_arm k = MarkovCacheOnly)"

definition below_double :: "f64 \<Rightarrow> rat \<Rightarrow> bool" where
  "below_double x limit = (case x of F_Fin r \<Rightarrow> r < limit | _ \<Rightarrow> False)"

lemma gates_clear:
  "first_safety_gate_blocker g = None \<Longrightarrow> user_unharmed g
     \<and> below_double (memory_pressure g) (2476979795053773 / 2 ^ 52)
     \<and> below_double (p_oom_30s g) (5404319552844595 / 2 ^ 54)"
  by (cases "memory_pressure g"; cases "p_oom_30s g")
    (simp_all add: first_safety_gate_blocker_def user_unharmed_def below_double_def pressure_limit_def
      hazard_limit_def not_le split: if_splits)

lemma key_unowned: "selected_key_gate_blocker g k = None \<Longrightarrow> unowned g k"
  by (auto simp: selected_key_gate_blocker_def unowned_def family_allowed_def Let_def split: if_splits)

lemma cooldown_over:
  "cooldown_satisfied d now \<Longrightarrow> cl_expires d \<le> wall_unix_secs now \<and> (boot_id now = cl_boot_id d \<longrightarrow>
     unat (cl_committed_monotonic d) + 86400 \<le> unat (monotonic_secs now))"
  by (auto simp: cooldown_satisfied_def KEY_COOLDOWN_SECS_def word_le_nat_alt unat_sat_sub split: if_splits)


text \<open>
  correlation identifiers. Each approval takes the successor of the last correlation in
  the cycle 1 .. \<open>2^63 - 1\<close>, so none is ever zero and none repeats before the whole range
  is used; and the identifier under which the effect ledger files it has the top bit set and
  determines the correlation.
\<close>

theorem correlation_sequence:
  assumes "sched_inv s" and "select cands g now s = (Inr ap, s')"
  shows "md_correlation (ap_metadata ap) = next_correlation s'
    \<and> unat (next_correlation s') = unat (next_correlation s) mod (2 ^ 63 - 1) + 1
    \<and> unat (ledger_correlation_id (next_correlation s')) = 2 ^ 63 + unat (next_correlation s')"
  using assms(2)
proof (cases rule: select_cases)
  case refused
  then show ?thesis by simp
next
  case (admitted n w selected)
  have nc: "next_correlation s < LEDGER_NAMESPACE" using assms(1) by (simp add: sched_inv_def)
  have peek: "peek_next_correlation (s\<lparr> cycle_candidates_examined := n, last_work := w \<rparr>) = peek_next_correlation s"
    by (simp add: peek_next_correlation_def)
  from admitted(4) have c: "md_correlation (ap_metadata ap) = peek_next_correlation s
      \<and> next_correlation s' = peek_next_correlation s"
    by (cases rule: admit_cases) (simp_all add: reservation_def peek)
  have "unat (ledger_correlation_id x) = 2 ^ 63 + unat x" if "x < LEDGER_NAMESPACE" for x
  proof -
    have lt: "unat x < 2 ^ 63" using that by (simp add: below_namespace)
    have "LEDGER_NAMESPACE AND x = 0"
    proof -
      have "take_bit 63 x = x" using lt by (simp only: word_unat_eq_iff unat_take_bit_63) simp
      then have "x AND NOT LEDGER_NAMESPACE = x" by (simp only: and_not_namespace)
      then have "LEDGER_NAMESPACE AND x = LEDGER_NAMESPACE AND (x AND NOT LEDGER_NAMESPACE)" by simp
      also have "\<dots> = 0" by (rule bit_word_eqI) (simp add: bit_and_iff bit_not_iff)
      finally show ?thesis .
    qed
    then have "ledger_correlation_id x = LEDGER_NAMESPACE + x"
      by (simp add: ledger_correlation_id_def disjunctive_add_eq_or)
    then show ?thesis using lt by (simp add: LEDGER_NAMESPACE_numeral unat_word_ariths)
  qed
  then show ?thesis using c peek_unat [OF nc] peek_range [OF nc] by simp
qed

subsection \<open>A worked example\<close>

definition example_origin :: origin where
  "example_origin = \<lparr> installation_id = 1,
     hardware = \<lparr> p_core_count = 4, e_core_count = 4, ram_gib = 8 \<rparr> \<rparr>"

definition example_candidate :: candidate where
  "example_candidate = \<lparr> cd_key = \<lparr> key_family = AF_MarkovPrewarm, key_mode = Treatment,
     key_arm = MarkovCacheOnly, key_action_class = MarkovPredictedApp, key_context = General \<rparr>,
     cd_origin = example_origin \<rparr>"

definition at_time :: "int \<Rightarrow> time_point" where
  "at_time t = \<lparr> wall_unix_secs = t, monotonic_secs = of_int t, boot_id = 10 \<rparr>"

definition reserved_state :: scheduler where
  "reserved_state = snd (select [example_candidate] healthy (at_time 1000) (cold_start example_origin))"

lemma healthy_clear: "first_safety_gate_blocker healthy = None"
  by (simp add: first_safety_gate_blocker_def healthy_def pressure_limit_def hazard_limit_def)

lemma healthy_key: "selected_key_gate_blocker healthy (cd_key example_candidate) = None"
  by (simp add: selected_key_gate_blocker_def healthy_def example_candidate_def family_allowed_def)

lemma example_known: "origin_is_known example_origin"
  by (simp add: origin_is_known_def example_origin_def hardware_is_known_def sat_add_def)

lemma peek_first: "next_correlation s = 0 \<Longrightarrow> peek_next_correlation s = 1"
  by (simp add: peek_next_correlation_def and_not_namespace)

lemma example_select_full:
  "select [example_candidate] healthy (at_time 1000) (cold_start example_origin) =
     (Inr (ExplorationApproval (reservation (cd_key example_candidate) (cold_start example_origin))),
      (cold_start example_origin)\<lparr> next_correlation := 1,
        active := Some (reservation (cd_key example_candidate) (cold_start example_origin)),
        cycle_candidates_examined := 1, last_work := \<lparr> candidates_examined = 1, cooldowns_examined = 0 \<rparr> \<rparr>)"
proof -
  have "cd_origin example_candidate = example_origin" "key_family (cd_key example_candidate) = AF_MarkovPrewarm"
    "key_mode (cd_key example_candidate) = Treatment"
    by (simp_all add: example_candidate_def)
  then show ?thesis
    by (simp add: select_def healthy_clear healthy_key example_known admit_def Let_def peek_first
        MAX_CANDIDATES_PER_CYCLE_def family_index_def MAX_CANDIDATES_PER_FAMILY_def at_time_def
        time_valid_def check_global_budget_def prune_expired_def prune_commit_window_def
        MAX_COMMITS_PER_DAY_def hm_len_def MAX_COOLDOWNS_def hm_retain_def sat_add_def
        cold_start_def reservation_def no_work_def)
qed

lemma reserved_state_eq:
  "reserved_state = (cold_start example_origin)\<lparr> next_correlation := 1,
     active := Some (reservation (cd_key example_candidate) (cold_start example_origin)),
     cycle_candidates_examined := 1, last_work := \<lparr> candidates_examined = 1, cooldowns_examined = 0 \<rparr> \<rparr>"
  by (simp add: reserved_state_def example_select_full)

lemma example_select:
  "select [example_candidate] healthy (at_time 1000) (cold_start example_origin) =
     (Inr (ExplorationApproval (reservation (cd_key example_candidate) (cold_start example_origin))), reserved_state)"
  by (simp add: example_select_full reserved_state_eq)


theorem correlation_sequence_witness:
  "unat (ledger_correlation_id (next_correlation reserved_state)) = 2 ^ 63 + 1"
  using correlation_sequence [OF sched_inv_cold_start example_select]
  by (simp add: cold_start_def)

subsection \<open>Spacing of committed explorations\<close>

fun event_before :: "i64 \<Rightarrow> sched_event \<Rightarrow> bool" where
  "event_before t (ScSelect _ _ now) = (wall_unix_secs now < t)"
| "event_before t (ScCommit _ now _) = (wall_unix_secs now < t)"
| "event_before t _ = True"

definition quiet_since :: "time_point \<Rightarrow> scheduler \<Rightarrow> bool" where
  "quiet_since t s \<longleftrightarrow> active s = None \<and> commits s \<noteq> [] \<and> last (commits s) = t"

lemma too_early:
  assumes "wall_unix_secs now < wall_unix_secs t + 900"
  shows "\<not> deadline_satisfied t now (of_int GLOBAL_INTERVAL_SECS)"
    and "\<not> deadline_satisfied t now (of_int KEY_COOLDOWN_SECS)"
  using assms
  by (auto simp: deadline_satisfied_def GLOBAL_INTERVAL_SECS_def KEY_COOLDOWN_SECS_def i64_sat_sub_def
      i64_clamp_def)

lemma last_dropWhile: "xs \<noteq> [] \<Longrightarrow> \<not> P (last xs) \<Longrightarrow> dropWhile P xs \<noteq> [] \<and> last (dropWhile P xs) = last xs"
  by (induction xs) (auto split: if_splits)

lemma quiet_budget:
  assumes "quiet_since t s" and "wall_unix_secs now < wall_unix_secs t + 900"
  shows "fst (check_global_budget now (prune_expired now s)) \<noteq> None"
    and "quiet_since t (snd (check_global_budget now (prune_expired now s)))"
proof -
  let ?P = "\<lambda>c. deadline_satisfied c now (of_int KEY_COOLDOWN_SECS)"
  have l: "dropWhile ?P (commits s) \<noteq> [] \<and> last (dropWhile ?P (commits s)) = t"
    using last_dropWhile [of "commits s" ?P] assms too_early(2) [OF assms(2)]
    by (simp add: quiet_since_def)
  then show "quiet_since t (snd (check_global_budget now (prune_expired now s)))"
    using assms(1) by (simp add: quiet_since_def budget_fields)
  show "fst (check_global_budget now (prune_expired now s)) \<noteq> None"
    using l too_early(1) [OF assms(2)] by (simp add: check_global_budget_def Let_def prune_commit_window_def)
qed

lemma quiet_step:
  assumes "quiet_since t s" and "event_before (wall_unix_secs t + 900) e"
  shows "quiet_since t (sched_step e s)"
proof (cases e)
  case (ScSelect args g now)
  have early: "wall_unix_secs now < wall_unix_secs t + 900" using assms(2) ScSelect by simp
  obtain r s' where sel: "select (build_candidates args) g now s = (r, s')" by fastforce
  from sel have "quiet_since t s'"
  proof (cases rule: select_cases)
    case refused
    then show ?thesis using assms(1) by (simp add: quiet_since_def)
  next
    case (admitted n w selected)
    let ?s = "s\<lparr> cycle_candidates_examined := n, last_work := w \<rparr>"
    have q: "quiet_since t ?s" using assms(1) by (simp add: quiet_since_def)
    from admitted(4) show ?thesis
    proof (cases rule: admit_cases)
      case (granted s2)
      then show ?thesis using quiet_budget(1) [OF q early] by (simp add: grant_def)
    next
      case natural
      then show ?thesis using q by (simp add: quiet_since_def)
    qed (use q quiet_budget(2) [OF q early] in simp_all)
  qed
  then show ?thesis using ScSelect sel by simp
qed (use assms(1) in \<open>auto simp: quiet_since_def commit_state commit_metadata_def cancel_def cancel_active_def
      begin_exploration_cycle_def record_terminal_def push_terminal_def\<close>)

lemma committed_quiet:
  assumes "commit c now ev s = (Committed, s')"
  shows "quiet_since now s'"
proof -
  obtain md where md: "active s = Some md" "md_correlation md = c" "evidence_valid (key_mode (md_key md)) ev"
      "time_valid now" "\<not> (hm_len (cooldowns s) \<ge> MAX_COOLDOWNS \<and> \<not> hm_contains (cooldowns s) (md_key md))"
    using assms by (auto simp: commit_def commit_metadata_def Let_def split: option.splits if_splits)
  then show ?thesis
    using assms by (auto simp: commit_def commit_metadata_def Let_def quiet_since_def push_terminal_def
        MAX_COMMITS_PER_DAY_def split: if_splits)
qed

text \<open>
  C11: explorations are spaced. After a committed exploration, whatever sequence of calls
  follows, as long as the wall clock of every call stays below the commit time plus fifteen
  minutes, nothing that may have an effect is reserved or committed: the commit stays the last
  one and no reservation is active. This also holds when the clock moves backwards.
\<close>

theorem no_probe_within_interval:
  assumes "commit c now ev s = (Committed, s')"
    and "list_all (event_before (wall_unix_secs now + 900)) es"
  shows "\<not> has_active_reservation (fold sched_step es s')
    \<and> last (commits (fold sched_step es s')) = now"
proof -
  have "quiet_since now s' \<Longrightarrow> list_all (event_before (wall_unix_secs now + 900)) es \<Longrightarrow>
      quiet_since now (fold sched_step es s')"
    by (induction es arbitrary: s') (auto intro: quiet_step)
  then show ?thesis
    using committed_quiet [OF assms(1)] assms(2) by (simp add: quiet_since_def has_active_reservation_def)
qed

lemma example_commit:
  "fst (commit 1 (at_time 1001) MutationApplied reserved_state) = Committed"
  by (simp add: commit_def commit_metadata_def reserved_state_eq reservation_def example_candidate_def
      at_time_def peek_first time_valid_def cold_start_def hm_len_def MAX_COOLDOWNS_def Let_def)

theorem no_probe_within_interval_witness:
  "\<not> has_active_reservation (fold sched_step
     [ScCycle 4, ScSelect [(AF_MarkovPrewarm, Control, MarkovCacheOnly, MarkovPredictedApp, General, example_origin)]
        healthy (at_time 1900)]
     (snd (commit 1 (at_time 1001) MutationApplied reserved_state)))"
proof -
  let ?s' = "snd (commit 1 (at_time 1001) MutationApplied reserved_state)"
  have "commit 1 (at_time 1001) MutationApplied reserved_state = (Committed, ?s')"
    by (simp add: prod_eq_iff example_commit)
  from no_probe_within_interval [OF this, of "[ScCycle 4, ScSelect
      [(AF_MarkovPrewarm, Control, MarkovCacheOnly, MarkovPredictedApp, General, example_origin)] healthy (at_time 1900)]"]
  show ?thesis by (simp add: at_time_def)
qed

subsection \<open>Restart\<close>

definition wall_sorted :: "time_point list \<Rightarrow> bool" where
  "wall_sorted cs \<longleftrightarrow> sorted (map wall_unix_secs cs)"

lemma zip_tail_sorted:
  "list_all (\<lambda>(l, r). wall_unix_secs l \<le> wall_unix_secs r) (zip cs (drop 1 cs)) \<longleftrightarrow> wall_sorted cs"
proof (induction cs)
  case (Cons c cs)
  then show ?case
    by (cases cs) (auto simp: wall_sorted_def intro: order_trans)
qed (simp add: wall_sorted_def)

definition local_restart :: "scheduler \<Rightarrow> restore_context \<Rightarrow> bool" where
  "local_restart s ctx \<longleftrightarrow> rc_source ctx = RsLocal \<and> rc_origin ctx = sc_origin s \<and> origin_is_known (sc_origin s)"

lemma persisted_valid:
  assumes "sched_inv s" and "origin_is_known (sc_origin s)" and "list_all (\<lambda>c. c < LEDGER_NAMESPACE) (terminal_dedup s)"
    and "json_len (persisted s) = Some n" and "n \<le> 65536"
  shows "valid_persisted json_len (persisted s) \<longleftrightarrow> wall_sorted (commits s)"
proof -
  have "distinct (map fst (cooldowns s))" and len: "hm_len (cooldowns s) \<le> 256"
    using assms(1) by (simp_all add: sched_inv_def cooldowns_ok_def hm_wf_def MAX_COOLDOWNS_def)
  then have keys: "distinct (map pc_key (ps_cooldowns (persisted s)))"
    by (simp add: persisted_def comp_def case_prod_beta)
  have "0 < cl_expires d \<and> cl_boot_id d \<noteq> 0 \<and> valid_key k" if "(k, d) \<in> set (cooldowns s)" for k d
    using hm_in_set_get [OF _ that] assms(1) by (auto simp: sched_inv_def cooldowns_ok_def deadline_ok_def)
  then have cds: "list_all (\<lambda>c. 0 < pc_expires c \<and> pc_boot_id c \<noteq> 0 \<and> valid_key (pc_key c)) (ps_cooldowns (persisted s))"
    by (auto simp: persisted_def list_all_iff)
  have ts: "list_all (\<lambda>c. c \<noteq> 0 \<and> c < LEDGER_NAMESPACE) (terminal_dedup s)"
    using assms(1,3) by (auto simp: list_all_iff sched_inv_def terminals_ok_def)
  have cs: "list_all (\<lambda>c. 0 < wall_unix_secs c \<and> 0 < boot_id c) (commits s)"
    using assms(1) by (auto simp: list_all_iff sched_inv_def commits_ok_def time_valid_def word_gt_0)
  have "valid_persisted json_len (persisted s) \<longleftrightarrow>
      list_all (\<lambda>(l, r). wall_unix_secs l \<le> wall_unix_secs r) (zip (commits s) (drop 1 (commits s)))"
    using assms(1,2,4,5) keys cds ts cs len
    unfolding valid_persisted_def
    by (simp add: persisted_def sched_inv_def commits_ok_def terminals_ok_def hm_len_def
        MAX_COOLDOWNS_def MAX_SERIALIZED_BYTES_def)
  then show ?thesis by (simp only: zip_tail_sorted)
qed

lemma restored_cooldowns:
  assumes "hm_wf m"
  shows "hm_get (hm_from_list (map (\<lambda>c. (pc_key c,
       \<lparr> cl_expires = pc_expires c, cl_committed_monotonic = pc_committed_monotonic c,
         cl_boot_id = pc_boot_id c \<rparr>))
       (map (\<lambda>(k, d). \<lparr> pc_key = k, pc_expires = cl_expires d,
          pc_committed_monotonic = cl_committed_monotonic d, pc_boot_id = cl_boot_id d \<rparr>) m))) k = hm_get m k"
proof -
  have "map (\<lambda>c. (pc_key c, \<lparr> cl_expires = pc_expires c, cl_committed_monotonic = pc_committed_monotonic c,
         cl_boot_id = pc_boot_id c \<rparr>)) (map (\<lambda>(k, d). \<lparr> pc_key = k, pc_expires = cl_expires d,
          pc_committed_monotonic = cl_committed_monotonic d, pc_boot_id = cl_boot_id d \<rparr>) m) = m"
    by (induction m) auto
  then show ?thesis using assms hm_get_from_list [of m k] by (simp add: hm_wf_def hm_get_def)
qed

definition same_day :: "u64 \<Rightarrow> u64 \<Rightarrow> time_point \<Rightarrow> bool" where
  "same_day boot secs now \<longleftrightarrow> boot_id now = boot \<and> unat (monotonic_secs now) < unat secs + 86400"

lemma elapsed_day:
  "(secs \<le> (now :: u64) \<and> 86400 \<le> sat_sub now secs) \<longleftrightarrow> \<not> unat now < unat secs + 86400"
  by (auto simp: sat_sub_def word_le_nat_alt unat_sub)

lemma deadline_day:
  "deadline_satisfied c now 86400 \<longleftrightarrow>
     wall_unix_secs c + 86400 \<le> wall_unix_secs now \<and> \<not> same_day (boot_id c) (monotonic_secs c) now"
  using elapsed_day [of "monotonic_secs c" "monotonic_secs now"]
  by (auto simp: deadline_satisfied_def same_day_def i64_sat_sub_def i64_clamp_def)

lemma cooldown_day:
  "cooldown_satisfied d now \<longleftrightarrow>
     cl_expires d \<le> wall_unix_secs now \<and> \<not> same_day (cl_boot_id d) (cl_committed_monotonic d) now"
  using elapsed_day [of "cl_committed_monotonic d" "monotonic_secs now"]
  by (auto simp: cooldown_satisfied_def same_day_def KEY_COOLDOWN_SECS_def)

text \<open>
  C32: what a local restart does with the state the scheduler wrote. Of a state that keeps the
  scheduler's invariant, whose terminal correlations lie below the ledger's namespace and whose
  encoding fits the 64 KiB limit, restarted at a valid time: the state is accepted exactly when
  its commits are in wall-clock order, and otherwise the scheduler starts cold. An accepted
  state gives back every cooldown whose expiry has not come or whose day has not passed on the
  clock of the boot it was committed in, the commits from the first that is still inside the
  day on, the terminal correlations, the arm rotation and the correlation counter. The active
  reservation is never resumed.
\<close>

theorem restart_keeps_limits:
  assumes "sched_inv s" and "local_restart s ctx" and "time_valid (rc_now ctx)"
    and "list_all (\<lambda>c. c < LEDGER_NAMESPACE) (terminal_dedup s)"
    and "json_len (persisted s) = Some n" and "n \<le> 65536"
    and "restore json_len (persisted s) ctx = (s', d)"
  shows "active s' = None \<and> sc_origin s' = sc_origin s
    \<and> (if sorted (map wall_unix_secs (commits s)) then d = Restored
         \<and> terminal_dedup s' = terminal_dedup s \<and> arm_sequence s' = arm_sequence s
         \<and> next_correlation s' = next_correlation s
         \<and> commits s' = dropWhile (\<lambda>c. wall_unix_secs c + 86400 \<le> wall_unix_secs (rc_now ctx)
             \<and> \<not> same_day (boot_id c) (monotonic_secs c) (rc_now ctx)) (commits s)
         \<and> (\<forall>k. hm_get (cooldowns s') k = (case hm_get (cooldowns s) k of None \<Rightarrow> None
             | Some cd \<Rightarrow> if wall_unix_secs (rc_now ctx) < cl_expires cd
                 \<or> same_day (cl_boot_id cd) (cl_committed_monotonic cd) (rc_now ctx)
                 then Some cd else None))
       else d = ResetHostile \<and> s' = cold_start (sc_origin s))"
proof (cases "wall_sorted (commits s)")
  case True
  have valid: "valid_persisted json_len (persisted s)"
    using persisted_valid [of s json_len n] assms True by (simp add: local_restart_def)
  have wf: "hm_wf (cooldowns s)" using assms(1) by (simp add: sched_inv_def cooldowns_ok_def)
  define m where "m = hm_from_list (map (\<lambda>c. (pc_key c,
       \<lparr> cl_expires = pc_expires c, cl_committed_monotonic = pc_committed_monotonic c,
         cl_boot_id = pc_boot_id c \<rparr>)) (ps_cooldowns (persisted s)))"
  have m: "hm_wf m" "hm_get m k = hm_get (cooldowns s) k" for k
    using restored_cooldowns [OF wf] by (simp_all add: m_def persisted_def)
  have "hm_keys m = hm_keys (cooldowns s)"
    using m(2) by (auto simp: hm.keys_get)
  then have len: "hm_len m \<le> MAX_COOLDOWNS"
    using assms(1) m(1) wf by (simp add: hm.len_card sched_inv_def cooldowns_ok_def)
  have "(s', d) = (prune_commit_window (rc_now ctx) (prune_expired (rc_now ctx)
      ((cold_start (sc_origin s))\<lparr> cooldowns := m, commits := commits s, terminal_dedup := terminal_dedup s,
         arm_sequence := arm_sequence s, next_correlation := next_correlation s \<rparr>)), Restored)"
    using assms(2,3,7) valid
    by (simp add: restore_def local_restart_def m_def) (simp add: persisted_def)
  then show ?thesis
    using len m True
    by (simp add: prune_commit_window_def prune_expired_def KEY_COOLDOWN_SECS_def hm.get_retain cold_start_def
        deadline_day cooldown_day wall_sorted_def not_le split: option.splits)
next
  case False
  then have "\<not> valid_persisted json_len (persisted s)"
    using persisted_valid [of s json_len n] assms by (simp add: local_restart_def)
  then show ?thesis
    using assms(2,7) False
    by (auto simp: restore_def local_restart_def persisted_def wall_sorted_def cold_start_def)
qed

text \<open>
  a wall clock that steps back between two commits costs the whole state. If a committed
  exploration's wall time lies before that of the last commit, the state the scheduler then
  writes is rejected by its own restart check as hostile, and the restart begins cold: the
  cooldowns, the day's commits and the correlation counter are lost.
\<close>

theorem clock_step_back_resets:
  assumes "commit c now ev s = (Committed, s')" and "length (commits s) < 96"
    and "commits s \<noteq> []" and "wall_unix_secs now < wall_unix_secs (last (commits s))"
    and "local_restart s' ctx"
  shows "restore json_len (persisted s') ctx = (cold_start (sc_origin s'), ResetHostile)"
proof -
  have "commits s' = commits s @ [now]"
    using assms(1,2)
    by (auto simp: commit_def commit_metadata_def Let_def push_terminal_def MAX_COMMITS_PER_DAY_def
        split: option.splits if_splits)
  moreover have "\<not> wall_sorted (commits s @ [now])"
  proof
    assume "wall_sorted (commits s @ [now])"
    then have "wall_unix_secs (last (commits s)) \<le> wall_unix_secs now"
      using assms(3) by (auto simp: wall_sorted_def sorted_append)
    then show False using assms(4) by simp
  qed
  ultimately have "\<not> valid_persisted json_len (persisted s')"
    using zip_tail_sorted [of "commits s'"] by (auto simp: valid_persisted_def persisted_def)
  then show ?thesis using assms(5) by (auto simp: restore_def local_restart_def persisted_def)
qed

definition local_context :: restore_context where
  "local_context = \<lparr> rc_origin = example_origin, rc_now = at_time 2000, rc_source = RsLocal \<rparr>"

lemma committed_state:
  "commit 1 (at_time 1001) MutationApplied reserved_state = (Committed, reserved_state\<lparr> active := None,
     cooldowns := [(cd_key example_candidate,
       \<lparr> cl_expires = 87401, cl_committed_monotonic = 1001, cl_boot_id = 10 \<rparr>)],
     commits := [at_time 1001], terminal_dedup := [1] \<rparr>)"
  by (simp add: commit_def commit_metadata_def reserved_state_eq reservation_def example_candidate_def
      at_time_def peek_first time_valid_def cold_start_def hm_len_def MAX_COOLDOWNS_def Let_def
      push_terminal_def hm_insert_def hm_remove_def push_bounded_def MAX_TERMINAL_DEDUP_def
      i64_sat_add_def i64_clamp_def KEY_COOLDOWN_SECS_def MAX_COMMITS_PER_DAY_def)

theorem restart_keeps_limits_witness:
  "let (s', d) = restore (\<lambda>_. Some 300) (persisted (snd (commit 1 (at_time 1001) MutationApplied reserved_state)))
       local_context
   in d = Restored \<and> active s' = None \<and> commits s' = [at_time 1001] \<and> terminal_dedup s' = [1]
     \<and> next_correlation s' = 1
     \<and> hm_get (cooldowns s') (cd_key example_candidate) =
         Some \<lparr> cl_expires = 87401, cl_committed_monotonic = 1001, cl_boot_id = 10 \<rparr>"
proof -
  define s where "s = snd (commit 1 (at_time 1001) MutationApplied reserved_state)"
  have "sched_inv reserved_state"
    using select_inv [OF sched_inv_cold_start _ example_select]
    by (simp add: example_candidate_def valid_key_def mutable_shape_def)
  then have inv: "sched_inv s" by (simp add: s_def commit_state commit_metadata_inv)
  have fields: "commits s = [at_time 1001]" "terminal_dedup s = [1]" "next_correlation s = 1"
    "hm_get (cooldowns s) (cd_key example_candidate) =
       Some \<lparr> cl_expires = 87401, cl_committed_monotonic = 1001, cl_boot_id = 10 \<rparr>"
    "sc_origin s = example_origin"
    by (simp_all only: s_def committed_state snd_conv) (simp_all add: hm_get_def reserved_state_eq cold_start_def)
  obtain s' d where "restore (\<lambda>_. Some 300) (persisted s) local_context = (s', d)" by fastforce
  with restart_keeps_limits [OF inv _ _ _ _ _ this, of 300] show ?thesis
    unfolding s_def [symmetric]
    by (auto simp: fields local_restart_def local_context_def example_known
        time_valid_def at_time_def LEDGER_NAMESPACE_numeral)
qed

definition committed_later :: scheduler where
  "committed_later = reserved_state\<lparr> commits := [at_time 5000] \<rparr>"

theorem clock_step_back_resets_witness:
  "snd (restore (\<lambda>_. Some 300) (persisted (snd (commit 1 (at_time 1001) MutationApplied committed_later))) local_context)
   = ResetHostile"
proof -
  have "commit 1 (at_time 1001) MutationApplied committed_later =
      (Committed, snd (commit 1 (at_time 1001) MutationApplied committed_later))"
    by (simp add: prod_eq_iff commit_def commit_metadata_def committed_later_def reserved_state_eq
        reservation_def example_candidate_def at_time_def time_valid_def peek_first cold_start_def
        hm_len_def MAX_COOLDOWNS_def Let_def)
  from clock_step_back_resets [OF this] show ?thesis
    by (simp add: committed_later_def local_restart_def local_context_def example_known at_time_def
        commit_def commit_metadata_def reserved_state_eq reservation_def example_candidate_def
        time_valid_def peek_first cold_start_def hm_len_def MAX_COOLDOWNS_def Let_def push_terminal_def)
qed

end
