(* ===== verification/Exploration_Pair.thy ===== *)
theory Exploration_Pair
  imports Exploration_Types
begin

text \<open>
  \<open>engine/exploration_pair.rs\<close>: the identity of an experiment, the outcome of one arm, and
  the certification of a completed pair, the one object that crosses from the exploration
  authority into the laboratory.
\<close>

type_synonym experiment_id = u128

definition experiment_id_new :: "u64 \<Rightarrow> u64 \<Rightarrow> experiment_id option" where
  "experiment_id_new boot_epoch sequence =
     (if boot_epoch = 0 \<or> sequence = 0 then None
      else Some (push_bit 64 (ucast boot_epoch) OR ucast sequence))"

definition id_boot_epoch :: "experiment_id \<Rightarrow> u64" where
  "id_boot_epoch i = ucast (drop_bit 64 i)"

datatype arm_terminal_state = AppliedAndReverted | AppliedNoRevertNeeded | WithheldByHoldout

definition is_treatment :: "arm_terminal_state \<Rightarrow> bool" where
  "is_treatment st \<longleftrightarrow> st = AppliedAndReverted \<or> st = AppliedNoRevertNeeded"

definition is_control :: "arm_terminal_state \<Rightarrow> bool" where
  "is_control st \<longleftrightarrow> st = WithheldByHoldout"

record arm_outcome =
  oc_correlation :: probe_correlation
  oc_arm :: arm
  oc_issued_cycle :: u64
  oc_settled_cycle :: u64
  oc_terminal_state :: arm_terminal_state
  oc_utility_micros :: i64

definition settled_in_window :: "u64 \<Rightarrow> arm_outcome \<Rightarrow> bool" where
  "settled_in_window expires_after oc \<longleftrightarrow>
     oc_settled_cycle oc \<ge> oc_issued_cycle oc \<and> oc_settled_cycle oc \<le> expires_after"

datatype pair_assembly_error =
  SharedCorrelation | MissingCorrelation | ArmRoleMismatch | OutsideWindow | ForeignBootEpoch
| IncoherentIdentity

record completed_pair =
  cp_experiment_id :: experiment_id
  cp_family :: actuator_family
  cp_action_class :: action_class
  cp_canonical_key :: string
  cp_policy_version :: u32
  cp_boot_epoch :: u64
  cp_treatment :: arm_outcome
  cp_control :: arm_outcome

definition assemble ::
  "experiment_id \<Rightarrow> actuator_family \<Rightarrow> action_class \<Rightarrow> string \<Rightarrow> u32 \<Rightarrow> u64 \<Rightarrow> arm_outcome \<Rightarrow> arm_outcome
     \<Rightarrow> u64 \<Rightarrow> u64 \<Rightarrow> pair_assembly_error + completed_pair" where
  "assemble eid fam cls key pv boot t c t_expires c_expires =
     (if key = [] \<or> boot = 0 then Inl IncoherentIdentity
      else if id_boot_epoch eid \<noteq> boot then Inl ForeignBootEpoch
      else if oc_correlation t = 0 \<or> oc_correlation c = 0 then Inl MissingCorrelation
      else if oc_correlation t = oc_correlation c then Inl SharedCorrelation
      else if \<not> is_treatment (oc_terminal_state t) \<or> \<not> is_control (oc_terminal_state c)
      then Inl ArmRoleMismatch
      else if \<not> settled_in_window t_expires t \<or> \<not> settled_in_window c_expires c
      then Inl OutsideWindow
      else Inr \<lparr> cp_experiment_id = eid, cp_family = fam, cp_action_class = cls, cp_canonical_key = key,
                 cp_policy_version = pv, cp_boot_epoch = boot, cp_treatment = t, cp_control = c \<rparr>)"

definition effect_micros :: "completed_pair \<Rightarrow> i64" where
  "effect_micros p = i64_sat_sub (oc_utility_micros (cp_treatment p)) (oc_utility_micros (cp_control p))"

subsection \<open>Identity\<close>

lemma bit_experiment_id:
  "experiment_id_new b s = Some i \<Longrightarrow> bit i n \<longleftrightarrow> n < 128 \<and> (if n < 64 then bit s n else bit b (n - 64))"
  using bit_imp_le_length [of s n]
  by (auto simp: experiment_id_new_def bit_simps split: if_splits)

lemma experiment_id_boot: "experiment_id_new b s = Some i \<Longrightarrow> id_boot_epoch i = b"
  by (rule bit_word_eqI) (simp add: id_boot_epoch_def bit_simps bit_experiment_id)

lemma experiment_id_sequence: "experiment_id_new b s = Some i \<Longrightarrow> s = ucast i"
  by (rule bit_word_eqI) (simp add: bit_simps bit_experiment_id)

text \<open>
  an experiment's identity determines the boot it was minted in and its place in that
  boot's sequence: the boot epoch can be read back, and no two distinct pairs of a boot epoch
  and a sequence number share an identity, so an endpoint of an earlier boot can never close
  an experiment of this one.
\<close>

theorem experiment_id_roundtrip:
  assumes "experiment_id_new b s = Some i"
  shows "id_boot_epoch i = b \<and> b \<noteq> 0 \<and> (experiment_id_new b' s' = Some i \<longleftrightarrow> b' = b \<and> s' = s)"
  using assms experiment_id_boot experiment_id_sequence
  by (metis experiment_id_new_def option.distinct(1))

theorem experiment_id_roundtrip_witness:
  "\<exists>i. experiment_id_new 7 3 = Some i \<and> id_boot_epoch i = 7"
proof -
  obtain i where i: "experiment_id_new 7 3 = Some i" by (simp add: experiment_id_new_def)
  show ?thesis using experiment_id_roundtrip [OF i] i by blast
qed

subsection \<open>Certification\<close>

text \<open>
  a pair is certified exactly when it is a real experiment of this boot: it has a key, its
  identity belongs to the assembling boot, both arms carry distinct non-zero correlations, the
  treatment slot holds an applied arm and the control slot a withheld one, and each arm settled
  no earlier than it was issued and no later than its window; and the certified pair is built
  from exactly those parts, with an effect that is treatment minus control when that difference
  is a 64-bit integer.
\<close>

theorem assemble_certifies:
  "assemble eid fam cls key pv boot t c te ce = Inr p \<longleftrightarrow>
     key \<noteq> [] \<and> boot \<noteq> 0 \<and> id_boot_epoch eid = boot
     \<and> oc_correlation t \<noteq> 0 \<and> oc_correlation c \<noteq> 0 \<and> oc_correlation t \<noteq> oc_correlation c
     \<and> oc_terminal_state t \<in> {AppliedAndReverted, AppliedNoRevertNeeded}
     \<and> oc_terminal_state c = WithheldByHoldout
     \<and> oc_issued_cycle t \<le> oc_settled_cycle t \<and> oc_settled_cycle t \<le> te
     \<and> oc_issued_cycle c \<le> oc_settled_cycle c \<and> oc_settled_cycle c \<le> ce
     \<and> p = \<lparr> cp_experiment_id = eid, cp_family = fam, cp_action_class = cls, cp_canonical_key = key,
             cp_policy_version = pv, cp_boot_epoch = boot, cp_treatment = t, cp_control = c \<rparr>
     \<and> effect_micros p = i64_clamp (oc_utility_micros t - oc_utility_micros c)"
  by (auto simp: assemble_def is_treatment_def is_control_def settled_in_window_def effect_micros_def
      i64_sat_sub_def)

end
