(* ===== verification/Micro_Canary.thy ===== *)
theory Micro_Canary
  imports Exploration_Pair
begin

text \<open>
  \<open>engine/micro_canary.rs\<close>: the producer of causal pairs. It draws a small sample of eligible
  opportunities, hands one arm at the first opportunity and its complement at a later one, and
  certifies the pair once both arms have settled. \<open>publish\<close> copies counters to a report and
  \<open>observed_per_mille\<close> is a float quotient for a display; neither is modelled.
\<close>

definition MARKOV_SAMPLE_PER_MILLE :: u64 where "MARKOV_SAMPLE_PER_MILLE = 10"
definition INTERACTION_QOS_SAMPLE_PER_MILLE :: u64 where "INTERACTION_QOS_SAMPLE_PER_MILLE = 5"
definition MAX_BURST_DRAWS :: u32 where "MAX_BURST_DRAWS = 24"
definition BURST_TTL_CYCLES :: u64 where "BURST_TTL_CYCLES = 5000"
definition MAX_OPEN_PER_FAMILY :: nat where "MAX_OPEN_PER_FAMILY = 1"
definition MAX_OPEN_GLOBAL :: nat where "MAX_OPEN_GLOBAL = 2"
definition EXPERIMENT_HORIZON_CYCLES :: u64 where "EXPERIMENT_HORIZON_CYCLES = 240"

datatype censor_cause = Confounded | Incomplete | NotComparable

datatype arm_decision =
  Proceed
| TreatmentArm experiment_id probe_correlation
| WithholdAsControl experiment_id probe_correlation

record canary_metrics =
  eligible_seen :: u64
  sampled :: u64
  refused_budget :: u64
  refused_family :: u64
  refused_disabled :: u64
  pairs_completed :: u64
  pairs_expired :: u64
  endpoints_late :: u64
  endpoints_duplicate :: u64
  assembly_refused :: u64
  forced_draws :: u64
  treatment_issued :: u64
  control_issued :: u64
  control_honoured :: u64
  arms_applied_reverted :: u64
  arms_applied_no_revert :: u64
  arms_withheld :: u64
  open_high_watermark :: u32
  abandoned_not_comparable :: u64
  treatment_confounded :: u64
  control_confounded :: u64
  treatment_incomplete :: u64
  control_incomplete :: u64
  pairs_censored :: u64
  treatment_predictions_resolved :: u64
  control_predictions_resolved :: u64

definition zero_canary_metrics :: canary_metrics where
  "zero_canary_metrics = \<lparr> eligible_seen = 0, sampled = 0, refused_budget = 0, refused_family = 0,
     refused_disabled = 0, pairs_completed = 0, pairs_expired = 0, endpoints_late = 0,
     endpoints_duplicate = 0, assembly_refused = 0, forced_draws = 0, treatment_issued = 0,
     control_issued = 0, control_honoured = 0, arms_applied_reverted = 0, arms_applied_no_revert = 0,
     arms_withheld = 0, open_high_watermark = 0, abandoned_not_comparable = 0, treatment_confounded = 0,
     control_confounded = 0, treatment_incomplete = 0, control_incomplete = 0, pairs_censored = 0,
     treatment_predictions_resolved = 0, control_predictions_resolved = 0 \<rparr>"

record open_experiment =
  ox_experiment_id :: experiment_id
  ox_family :: actuator_family
  ox_action_class :: action_class
  ox_arm :: arm
  ox_canonical_key :: string
  ox_policy_version :: u32
  treatment_correlation :: probe_correlation
  control_correlation :: probe_correlation
  opened_cycle :: u64
  expires_after_cycle :: u64
  treatment_issued_first :: bool
  complement_served :: bool
  ox_treatment :: "arm_outcome option"
  ox_control :: "arm_outcome option"

definition is_complete :: "open_experiment \<Rightarrow> bool" where
  "is_complete e \<longleftrightarrow> ox_treatment e \<noteq> None \<and> ox_control e \<noteq> None"

record canary =
  cn_boot_epoch :: u64
  next_sequence :: u64
  cn_next_correlation :: u64
  rng_state :: u64
  enabled :: bool
  burst_remaining :: u32
  burst_expires_cycle :: u64
  open_experiments :: "open_experiment list"
  cn_metrics :: canary_metrics

abbreviation with_metrics :: "(canary_metrics \<Rightarrow> canary_metrics) \<Rightarrow> canary \<Rightarrow> canary" where
  "with_metrics f c \<equiv> c\<lparr> cn_metrics := f (cn_metrics c) \<rparr>"

definition canary_new :: "u64 \<Rightarrow> canary" where
  "canary_new boot = \<lparr> cn_boot_epoch = boot, next_sequence = 0, cn_next_correlation = 0,
     rng_state = boot OR 1, enabled = True, burst_remaining = 0, burst_expires_cycle = 0,
     open_experiments = [], cn_metrics = zero_canary_metrics \<rparr>"

definition canary_new_disabled :: "u64 \<Rightarrow> canary" where
  "canary_new_disabled boot = (canary_new boot)\<lparr> enabled := False \<rparr>"

definition enable :: "canary \<Rightarrow> canary" where
  "enable c = c\<lparr> enabled := True \<rparr>"

definition disable :: "canary \<Rightarrow> canary" where
  "disable c = c\<lparr> enabled := False, burst_remaining := 0 \<rparr>"

definition arm_burst :: "u32 \<Rightarrow> u64 \<Rightarrow> canary \<Rightarrow> u32 \<times> canary" where
  "arm_burst draws cycle c =
     (let granted = min draws MAX_BURST_DRAWS
      in (granted, c\<lparr> burst_remaining := granted, burst_expires_cycle := sat_add cycle BURST_TTL_CYCLES \<rparr>))"

definition family_enabled :: "actuator_family \<Rightarrow> bool" where
  "family_enabled f \<longleftrightarrow> f = AF_MarkovPrewarm \<or> f = AF_InteractionQos"

definition sample_per_mille :: "actuator_family \<Rightarrow> u64" where
  "sample_per_mille f = (if f = AF_InteractionQos then INTERACTION_QOS_SAMPLE_PER_MILLE else MARKOV_SAMPLE_PER_MILLE)"

definition next_u64 :: "canary \<Rightarrow> u64 \<times> canary" where
  "next_u64 c =
     (let st = rng_state c + 0x9E3779B97F4A7C15;
          z1 = (st XOR drop_bit 30 st) * 0xBF58476D1CE4E5B9;
          z2 = (z1 XOR drop_bit 27 z1) * 0x94D049BB133111EB
      in (z2 XOR drop_bit 31 z2, c\<lparr> rng_state := st \<rparr>))"

definition budget_allows :: "actuator_family \<Rightarrow> canary \<Rightarrow> bool" where
  "budget_allows f c =
     (if length (open_experiments c) \<ge> MAX_OPEN_GLOBAL then False
      else length (filter (\<lambda>e. ox_family e = f) (open_experiments c)) < MAX_OPEN_PER_FAMILY)"

definition mint_correlation :: "canary \<Rightarrow> u64 \<times> canary" where
  "mint_correlation c =
     (let n = sat_add (cn_next_correlation c) 1
      in (push_bit 32 (cn_boot_epoch c) OR (n AND 0xFFFFFFFF), c\<lparr> cn_next_correlation := n \<rparr>))"

subsection \<open>Offering an opportunity\<close>

definition complement_of :: "open_experiment \<Rightarrow> arm_decision option" where
  "complement_of e =
     (let want_control =
        (case (ox_treatment e, ox_control e) of
           (Some _, None) \<Rightarrow> Some True
         | (None, Some _) \<Rightarrow> Some False
         | (None, None) \<Rightarrow> Some (treatment_issued_first e)
         | (Some _, Some _) \<Rightarrow> None)
      in map_option (\<lambda>w. if w then WithholdAsControl (ox_experiment_id e) (control_correlation e)
                     else TreatmentArm (ox_experiment_id e) (treatment_correlation e)) want_control)"

definition complementary_arm :: "experiment_id \<Rightarrow> canary \<Rightarrow> arm_decision option" where
  "complementary_arm i c =
     (case find (\<lambda>e. ox_experiment_id e = i) (open_experiments c) of
        None \<Rightarrow> None
      | Some e \<Rightarrow> complement_of e)"

text \<open>The first element that satisfies the predicate is updated (\<open>iter_mut().find\<close>).\<close>

fun update_first :: "('a \<Rightarrow> bool) \<Rightarrow> ('a \<Rightarrow> 'a) \<Rightarrow> 'a list \<Rightarrow> 'a list" where
  "update_first P f [] = []"
| "update_first P f (x # xs) = (if P x then f x # xs else x # update_first P f xs)"

fun count_issued :: "arm_decision \<Rightarrow> canary_metrics \<Rightarrow> canary_metrics" where
  "count_issued (TreatmentArm _ _) m = m\<lparr> treatment_issued := sat_add (treatment_issued m) 1 \<rparr>"
| "count_issued (WithholdAsControl _ _) m = m\<lparr> control_issued := sat_add (control_issued m) 1 \<rparr>"
| "count_issued Proceed m = m"

definition serve_pending_complement ::
  "actuator_family \<Rightarrow> string \<Rightarrow> canary \<Rightarrow> (arm_decision \<times> canary) option" where
  "serve_pending_complement f key c =
     (case find (\<lambda>e. ox_family e = f \<and> ox_canonical_key e = key \<and> \<not> complement_served e) (open_experiments c) of
        None \<Rightarrow> None
      | Some e \<Rightarrow>
          (case complementary_arm (ox_experiment_id e) c of
             None \<Rightarrow> None
           | Some decision \<Rightarrow>
               Some (decision, with_metrics (count_issued decision)
                 (c\<lparr> open_experiments := update_first (\<lambda>x. ox_experiment_id x = ox_experiment_id e)
                       (\<lambda>x. x\<lparr> complement_served := True \<rparr>) (open_experiments c) \<rparr>))))"

definition open_experiment_step ::
  "actuator_family \<Rightarrow> action_class \<Rightarrow> arm \<Rightarrow> string \<Rightarrow> u32 \<Rightarrow> u64 \<Rightarrow> bool \<Rightarrow> canary \<Rightarrow> arm_decision \<times> canary" where
  "open_experiment_step f cls a key pv cycle forced c =
     (let sequence = sat_add (next_sequence c) 1
      in case experiment_id_new (cn_boot_epoch c) sequence of
           None \<Rightarrow> (Proceed, c)
         | Some eid \<Rightarrow>
             (let c = c\<lparr> next_sequence := sequence \<rparr>;
                  c = (if forced
                       then with_metrics (\<lambda>m. m\<lparr> forced_draws := sat_add (forced_draws m) 1 \<rparr>)
                              (c\<lparr> burst_remaining := sat_sub (burst_remaining c) 1 \<rparr>)
                       else c);
                  (tc, c) = mint_correlation c;
                  (cc, c) = mint_correlation c;
                  (coin, c) = next_u64 c;
                  treatment_first = (coin AND 1 = 0);
                  e = \<lparr> ox_experiment_id = eid, ox_family = f, ox_action_class = cls, ox_arm = a,
                        ox_canonical_key = key, ox_policy_version = pv, treatment_correlation = tc,
                        control_correlation = cc, opened_cycle = cycle,
                        expires_after_cycle = sat_add cycle EXPERIMENT_HORIZON_CYCLES,
                        treatment_issued_first = treatment_first, complement_served = False,
                        ox_treatment = None, ox_control = None \<rparr>;
                  opens = open_experiments c @ [e];
                  decision = (if treatment_first then TreatmentArm eid tc else WithholdAsControl eid cc);
                  open_len = of_nat (length opens)
              in (decision,
                  with_metrics (\<lambda>m. count_issued decision
                      (m\<lparr> sampled := sat_add (sampled m) 1,
                         open_high_watermark := (if open_len > open_high_watermark m then open_len
                                                 else open_high_watermark m) \<rparr>))
                    (c\<lparr> open_experiments := opens \<rparr>))))"

definition draw :: "actuator_family \<Rightarrow> u64 \<Rightarrow> canary \<Rightarrow> bool \<times> bool \<times> canary" where
  "draw f cycle c =
     (let forced = (burst_remaining c > 0 \<and> cycle < burst_expires_cycle c)
      in if forced then (True, True, c)
         else (let (r, c) = next_u64 c in (False, r mod 1000 < sample_per_mille f, c)))"

definition offer ::
  "actuator_family \<Rightarrow> action_class \<Rightarrow> arm \<Rightarrow> string \<Rightarrow> u32 \<Rightarrow> u64 \<Rightarrow> canary \<Rightarrow> arm_decision \<times> canary" where
  "offer f cls a key pv cycle c0 =
     (let c = with_metrics (\<lambda>m. m\<lparr> eligible_seen := sat_add (eligible_seen m) 1 \<rparr>) c0
      in if \<not> enabled c then
           (Proceed, with_metrics (\<lambda>m. m\<lparr> refused_disabled := sat_add (refused_disabled m) 1 \<rparr>) c)
         else if \<not> family_enabled f then
           (Proceed, with_metrics (\<lambda>m. m\<lparr> refused_family := sat_add (refused_family m) 1 \<rparr>) c)
         else (case serve_pending_complement f key c of
             Some r \<Rightarrow> r
           | None \<Rightarrow>
               (let (forced, drawn, c) = draw f cycle c
                in if \<not> drawn then (Proceed, c)
                   else if \<not> budget_allows f c then
                     (Proceed, with_metrics (\<lambda>m. m\<lparr> refused_budget := sat_add (refused_budget m) 1 \<rparr>) c)
                   else open_experiment_step f cls a key pv cycle forced c)))"

definition confirm_control_honoured :: "canary \<Rightarrow> canary" where
  "confirm_control_honoured c = with_metrics (\<lambda>m. m\<lparr> control_honoured := sat_add (control_honoured m) 1 \<rparr>) c"

definition arm_for_ledger_id :: "u64 \<Rightarrow> canary \<Rightarrow> (experiment_id \<times> bool \<times> actuator_family) option" where
  "arm_for_ledger_id i c =
     (case find (\<lambda>e. ledger_correlation_id (treatment_correlation e) = i
                   \<or> ledger_correlation_id (control_correlation e) = i) (open_experiments c) of
        None \<Rightarrow> None
      | Some e \<Rightarrow> Some (ox_experiment_id e, ledger_correlation_id (treatment_correlation e) = i, ox_family e))"

definition correlations :: "experiment_id \<Rightarrow> canary \<Rightarrow> (probe_correlation \<times> probe_correlation) option" where
  "correlations i c = map_option (\<lambda>e. (treatment_correlation e, control_correlation e))
     (find (\<lambda>e. ox_experiment_id e = i) (open_experiments c))"

subsection \<open>Censoring, settling and expiry\<close>

fun count_censored :: "censor_cause \<Rightarrow> bool option \<Rightarrow> canary_metrics \<Rightarrow> canary_metrics" where
  "count_censored Confounded (Some True) m = m\<lparr> treatment_confounded := sat_add (treatment_confounded m) 1 \<rparr>"
| "count_censored Confounded (Some False) m = m\<lparr> control_confounded := sat_add (control_confounded m) 1 \<rparr>"
| "count_censored Incomplete (Some True) m = m\<lparr> treatment_incomplete := sat_add (treatment_incomplete m) 1 \<rparr>"
| "count_censored Incomplete (Some False) m = m\<lparr> control_incomplete := sat_add (control_incomplete m) 1 \<rparr>"
| "count_censored _ _ m = m"

definition censor :: "experiment_id \<Rightarrow> bool option \<Rightarrow> censor_cause \<Rightarrow> canary \<Rightarrow> bool \<times> canary" where
  "censor i arm_is_treatment cause c0 =
     (let c = c0\<lparr> open_experiments := filter (\<lambda>e. ox_experiment_id e \<noteq> i) (open_experiments c0) \<rparr>
      in if length (open_experiments c0) = length (open_experiments c) then (False, c)
         else (True, with_metrics (\<lambda>m.
             (let m = count_censored cause arm_is_treatment (m\<lparr> pairs_censored := sat_add (pairs_censored m) 1 \<rparr>)
              in m\<lparr> abandoned_not_comparable := sat_add (abandoned_not_comparable m) 1 \<rparr>)) c))"

definition abandon_not_comparable :: "experiment_id \<Rightarrow> canary \<Rightarrow> bool \<times> canary" where
  "abandon_not_comparable i c = censor i None NotComparable c"

definition note_prediction_resolved :: "bool \<Rightarrow> canary \<Rightarrow> canary" where
  "note_prediction_resolved treatment c =
     with_metrics (\<lambda>m. if treatment
         then m\<lparr> treatment_predictions_resolved := sat_add (treatment_predictions_resolved m) 1 \<rparr>
         else m\<lparr> control_predictions_resolved := sat_add (control_predictions_resolved m) 1 \<rparr>) c"

fun count_arm :: "arm_terminal_state \<Rightarrow> canary_metrics \<Rightarrow> canary_metrics" where
  "count_arm AppliedAndReverted m = m\<lparr> arms_applied_reverted := sat_add (arms_applied_reverted m) 1 \<rparr>"
| "count_arm AppliedNoRevertNeeded m = m\<lparr> arms_applied_no_revert := sat_add (arms_applied_no_revert m) 1 \<rparr>"
| "count_arm WithheldByHoldout m = m\<lparr> arms_withheld := sat_add (arms_withheld m) 1 \<rparr>"

text \<open>\<open>Inl False\<close>: not an arm of the experiment; \<open>Inl True\<close>: the arm has already reported.\<close>

definition settle_arm :: "arm_outcome \<Rightarrow> open_experiment \<Rightarrow> bool + open_experiment" where
  "settle_arm oc e =
     (if oc_correlation oc = treatment_correlation e then
        (if ox_treatment e \<noteq> None then Inl True else Inr (e\<lparr> ox_treatment := Some oc \<rparr>))
      else if oc_correlation oc = control_correlation e then
        (if ox_control e \<noteq> None then Inl True else Inr (e\<lparr> ox_control := Some oc \<rparr>))
      else Inl False)"

definition certify :: "open_experiment \<Rightarrow> canary \<Rightarrow> completed_pair option \<times> canary" where
  "certify e c =
     (case (ox_treatment e, ox_control e) of
        (Some t, Some ct) \<Rightarrow>
          (case assemble (ox_experiment_id e) (ox_family e) (ox_action_class e) (ox_canonical_key e)
                  (ox_policy_version e) (cn_boot_epoch c) t ct (expires_after_cycle e) (expires_after_cycle e) of
             Inr pair \<Rightarrow> (Some pair, with_metrics (\<lambda>m. m\<lparr> pairs_completed := sat_add (pairs_completed m) 1 \<rparr>) c)
           | Inl _ \<Rightarrow> (None, with_metrics (\<lambda>m. m\<lparr> assembly_refused := sat_add (assembly_refused m) 1 \<rparr>) c))
      | _ \<Rightarrow> (None, c))"

definition record_arm ::
  "experiment_id \<Rightarrow> probe_correlation \<Rightarrow> u64 \<Rightarrow> arm_terminal_state \<Rightarrow> i64 \<Rightarrow> canary
     \<Rightarrow> completed_pair option \<times> canary" where
  "record_arm i corr settled st utility c =
     (let late = with_metrics (\<lambda>m. m\<lparr> endpoints_late := sat_add (endpoints_late m) 1 \<rparr>) c
      in case find_index (\<lambda>e. ox_experiment_id e = i) (open_experiments c) of
           None \<Rightarrow> (None, late)
         | Some ix \<Rightarrow>
             (let e = open_experiments c ! ix;
                  oc = \<lparr> oc_correlation = corr, oc_arm = ox_arm e, oc_issued_cycle = opened_cycle e,
                         oc_settled_cycle = settled, oc_terminal_state = st, oc_utility_micros = utility \<rparr>
              in case settle_arm oc e of
                   Inl False \<Rightarrow> (None, late)
                 | Inl True \<Rightarrow> (None, with_metrics (\<lambda>m. m\<lparr> endpoints_duplicate := sat_add (endpoints_duplicate m) 1 \<rparr>) c)
                 | Inr e' \<Rightarrow>
                     (let c1 = with_metrics (count_arm st) (c\<lparr> open_experiments := (open_experiments c)[ix := e'] \<rparr>)
                      in if \<not> is_complete e' then (None, c1)
                         else certify e' (c1\<lparr> open_experiments := swap_remove ix (open_experiments c1) \<rparr>))))"

definition missing_arm :: "open_experiment \<Rightarrow> bool option" where
  "missing_arm e =
     (case (ox_treatment e, ox_control e) of
        (Some _, None) \<Rightarrow> Some False
      | (None, Some _) \<Rightarrow> Some True
      | _ \<Rightarrow> None)"

fun count_missing :: "bool option \<Rightarrow> canary_metrics \<Rightarrow> canary_metrics" where
  "count_missing (Some True) m = m\<lparr> treatment_incomplete := sat_add (treatment_incomplete m) 1 \<rparr>"
| "count_missing (Some False) m = m\<lparr> control_incomplete := sat_add (control_incomplete m) 1 \<rparr>"
| "count_missing None m = m"

definition expire :: "u64 \<Rightarrow> canary \<Rightarrow> u64 \<times> canary" where
  "expire cycle c =
     (let gone = map missing_arm (filter (\<lambda>e. cycle > expires_after_cycle e) (open_experiments c));
          kept = filter (\<lambda>e. cycle \<le> expires_after_cycle e) (open_experiments c);
          dropped = of_nat (length (open_experiments c) - length kept)
      in (dropped,
          with_metrics (\<lambda>m. fold count_missing gone
              (m\<lparr> pairs_expired := sat_add (pairs_expired m) dropped,
                 pairs_censored := sat_add (pairs_censored m) dropped \<rparr>))
            (c\<lparr> open_experiments := kept \<rparr>)))"

subsection \<open>Correlations of the two arms\<close>

lemma low_word: "(0xFFFFFFFF :: u64) = mask 32"
  by (simp add: mask_eq_exp_minus_1)

lemma minted_low: "take_bit 32 (push_bit 32 b OR (n AND 0xFFFFFFFF)) = take_bit 32 n" for b n :: u64
  by (rule bit_word_eqI) (auto simp: low_word bit_simps)

lemma minted_distinct:
  fixes b n k :: u64
  assumes "unat n < 2 ^ 32" "unat k < 2 ^ 32" "n \<noteq> k"
  shows "push_bit 32 b OR (n AND 0xFFFFFFFF) \<noteq> push_bit 32 b OR (k AND 0xFFFFFFFF)"
proof -
  have "take_bit 32 x = x" if "unat x < 2 ^ 32" for x :: u64
    using that by (simp only: word_unat_eq_iff unsigned_take_bit_eq take_bit_nat_eq_self)
  then show ?thesis using assms minted_low by metis
qed

lemma minted_nonzero:
  fixes b n :: u64
  assumes "unat n < 2 ^ 32" "n \<noteq> 0"
  shows "push_bit 32 b OR (n AND 0xFFFFFFFF) \<noteq> 0"
proof -
  have "take_bit 32 n = n"
    using assms(1) by (simp only: word_unat_eq_iff unsigned_take_bit_eq take_bit_nat_eq_self)
  then show ?thesis using assms(2) minted_low [of b n] by (metis take_bit_of_0)
qed

subsection \<open>The invariant\<close>

definition arms_ok :: "open_experiment \<Rightarrow> bool" where
  "arms_ok e \<longleftrightarrow> family_enabled (ox_family e) \<and> \<not> is_complete e"

definition ids_ok :: "u64 \<Rightarrow> u64 \<Rightarrow> experiment_id list \<Rightarrow> bool" where
  "ids_ok boot sequence ids \<longleftrightarrow> distinct ids \<and>
     (\<forall>i \<in> set ids. \<exists>s. experiment_id_new boot s = Some i \<and> s \<le> sequence)"

definition opens_ok :: "open_experiment list \<Rightarrow> bool" where
  "opens_ok opens \<longleftrightarrow> length opens \<le> MAX_OPEN_GLOBAL \<and> distinct (map ox_family opens) \<and> list_all arms_ok opens"

definition accounted :: "nat \<Rightarrow> u64 \<Rightarrow> u64 \<Rightarrow> u64 \<Rightarrow> u64" where
  "accounted opens completed censored refused =
     sat_add (of_nat opens) (sat_add completed (sat_add censored refused))"

definition canary_inv :: "canary \<Rightarrow> bool" where
  "canary_inv c \<longleftrightarrow> opens_ok (open_experiments c) \<and>
     (next_sequence c \<noteq> - 1 \<longrightarrow>
        ids_ok (cn_boot_epoch c) (next_sequence c) (map ox_experiment_id (open_experiments c)) \<and>
        accounted (length (open_experiments c)) (pairs_completed (cn_metrics c))
          (pairs_censored (cn_metrics c)) (assembly_refused (cn_metrics c)) = sampled (cn_metrics c))"

lemma canary_inv_new: "canary_inv (canary_new boot)"
  by (simp add: canary_inv_def canary_new_def opens_ok_def ids_ok_def accounted_def zero_canary_metrics_def)

lemma canary_inv_cong:
  assumes "canary_inv c" "opens_ok (open_experiments c')"
    and "map ox_experiment_id (open_experiments c') = map ox_experiment_id (open_experiments c)"
    and "next_sequence c' = next_sequence c" "cn_boot_epoch c' = cn_boot_epoch c"
    and "pairs_completed (cn_metrics c') = pairs_completed (cn_metrics c)"
    and "pairs_censored (cn_metrics c') = pairs_censored (cn_metrics c)"
    and "assembly_refused (cn_metrics c') = assembly_refused (cn_metrics c)"
    and "sampled (cn_metrics c') = sampled (cn_metrics c)"
  shows "canary_inv c'"
proof -
  have "length (open_experiments c') = length (open_experiments c)"
    using assms(3) by (metis length_map)
  then show ?thesis using assms by (simp add: canary_inv_def)
qed

lemma one_less:
  assumes "0 < n" "n \<le> 2"
  shows "sat_add (of_nat (n - 1)) (sat_add 1 x) = sat_add (of_nat n :: u64) x"
proof -
  have "sat_add (of_nat (n - 1) :: u64) 1 = of_nat n"
  proof -
    from assms have "n = 1 \<or> n = 2" by linarith
    then show ?thesis by (elim disjE) (simp_all add: sat_add_def)
  qed
  then show ?thesis by (metis sat_add_assoc)
qed

lemma accounted_shift:
  assumes "0 < n" "n \<le> 2"
  shows "accounted (n - 1) (sat_add a 1) b d = accounted n a b d"
    and "accounted (n - 1) a (sat_add b 1) d = accounted n a b d"
    and "accounted (n - 1) a b (sat_add d 1) = accounted n a b d"
  unfolding accounted_def one_less [OF assms, symmetric] by (simp_all add: sat_add_ac)

lemma opens_ok_filter: "opens_ok es \<Longrightarrow> opens_ok (filter P es)"
  by (simp add: opens_ok_def distinct_map_filter list_all_iff le_trans [OF length_filter_le])

lemma opens_ok_swap_remove:
  assumes "opens_ok es" "i < length es"
  shows "opens_ok (swap_remove i es)"
  using assms distinct_swap_remove(1) [of "map ox_family es" i] set_swap_remove [OF assms(2)]
  by (auto simp: opens_ok_def map_swap_remove list_all_iff)

lemma ids_ok_mono: "ids_ok b n ids \<Longrightarrow> n \<le> n' \<Longrightarrow> ids_ok b n' ids"
  unfolding ids_ok_def by (meson order_trans)

lemma ids_ok_snoc:
  "ids_ok b n ids \<Longrightarrow> experiment_id_new b s = Some i \<Longrightarrow> s \<le> n \<Longrightarrow> i \<notin> set ids \<Longrightarrow> ids_ok b n (ids @ [i])"
  by (auto simp: ids_ok_def)

lemma ids_ok_subset: "ids_ok b n ids \<Longrightarrow> set ids' \<subseteq> set ids \<Longrightarrow> distinct ids' \<Longrightarrow> ids_ok b n ids'"
  by (auto simp: ids_ok_def)

subsection \<open>Every operation keeps it\<close>

lemma count_issued_fields [simp]:
  "sampled (count_issued d m) = sampled m" "pairs_completed (count_issued d m) = pairs_completed m"
  "pairs_censored (count_issued d m) = pairs_censored m" "assembly_refused (count_issued d m) = assembly_refused m"
  by (cases d; simp)+

lemma count_arm_fields [simp]:
  "sampled (count_arm st m) = sampled m" "pairs_completed (count_arm st m) = pairs_completed m"
  "pairs_censored (count_arm st m) = pairs_censored m" "assembly_refused (count_arm st m) = assembly_refused m"
  by (cases st; simp)+

lemma count_censored_fields [simp]:
  "sampled (count_censored k b m) = sampled m" "pairs_completed (count_censored k b m) = pairs_completed m"
  "pairs_censored (count_censored k b m) = pairs_censored m" "assembly_refused (count_censored k b m) = assembly_refused m"
  by (cases "(k, b, m)" rule: count_censored.cases; simp)+

lemma count_missing_fields [simp]:
  "sampled (count_missing a m) = sampled m" "pairs_completed (count_missing a m) = pairs_completed m"
  "pairs_censored (count_missing a m) = pairs_censored m" "assembly_refused (count_missing a m) = assembly_refused m"
  by (cases "(a, m)" rule: count_missing.cases; simp)+

lemma count_missing_fold [simp]:
  "sampled (fold count_missing as m) = sampled m" "pairs_completed (fold count_missing as m) = pairs_completed m"
  "pairs_censored (fold count_missing as m) = pairs_censored m" "assembly_refused (fold count_missing as m) = assembly_refused m"
  by (induction as arbitrary: m) simp_all

lemma map_update_first: "(\<And>x. g (f x) = g x) \<Longrightarrow> map g (update_first P f xs) = map g xs"
  by (induction xs) auto

lemma list_all_update_first: "(\<And>x. Q x \<Longrightarrow> Q (f x)) \<Longrightarrow> list_all Q xs \<Longrightarrow> list_all Q (update_first P f xs)"
  by (induction xs) auto

lemma length_update_first [simp]: "length (update_first P f xs) = length xs"
  by (induction xs) auto

lemma served_opens:
  "opens_ok es \<Longrightarrow> opens_ok (update_first P (\<lambda>x. x\<lparr> complement_served := True \<rparr>) es)"
  by (auto simp: opens_ok_def map_update_first arms_ok_def is_complete_def intro!: list_all_update_first)

lemma serve_pending_some:
  assumes "serve_pending_complement f key c = Some (d, c')"
  obtains e P where "e \<in> set (open_experiments c)" "ox_family e = f" "ox_canonical_key e = key"
    "\<not> complement_served e" "complementary_arm (ox_experiment_id e) c = Some d"
    "c' = with_metrics (count_issued d)
       (c\<lparr> open_experiments := update_first P (\<lambda>x. x\<lparr> complement_served := True \<rparr>) (open_experiments c) \<rparr>)"
  using assms unfolding serve_pending_complement_def
  by (auto split: option.splits simp: find_Some_iff in_set_conv_nth)

lemma next_u64_state: "snd (next_u64 c) = c\<lparr> rng_state := rng_state c + 0x9E3779B97F4A7C15 \<rparr>"
  by (simp add: next_u64_def Let_def)

lemma mint_state: "snd (mint_correlation c) = c\<lparr> cn_next_correlation := sat_add (cn_next_correlation c) 1 \<rparr>"
  by (simp add: mint_correlation_def Let_def)

lemma draw_state: "snd (snd (draw f cycle c)) = c \<or> snd (snd (draw f cycle c)) = snd (next_u64 c)"
  by (simp add: draw_def Let_def case_prod_beta)

text \<open>What opening an experiment does to the state the invariant reads.\<close>

lemma open_step_fields:
  assumes "open_experiment_step f cls a key pv cycle forced c = (d, c')"
  shows "(experiment_id_new (cn_boot_epoch c) (sat_add (next_sequence c) 1) = None \<and> d = Proceed \<and> c' = c)
   \<or> (\<exists>e. experiment_id_new (cn_boot_epoch c) (sat_add (next_sequence c) 1) = Some (ox_experiment_id e)
       \<and> ox_family e = f \<and> ox_treatment e = None \<and> ox_control e = None \<and> ox_canonical_key e = key
       \<and> \<not> complement_served e
       \<and> treatment_correlation e = fst (mint_correlation c)
       \<and> control_correlation e = fst (mint_correlation (snd (mint_correlation c)))
       \<and> opened_cycle e = cycle \<and> expires_after_cycle e = sat_add cycle EXPERIMENT_HORIZON_CYCLES
       \<and> d = (if treatment_issued_first e then TreatmentArm (ox_experiment_id e) (treatment_correlation e)
              else WithholdAsControl (ox_experiment_id e) (control_correlation e))
       \<and> open_experiments c' = open_experiments c @ [e]
       \<and> next_sequence c' = sat_add (next_sequence c) 1 \<and> cn_boot_epoch c' = cn_boot_epoch c
       \<and> cn_next_correlation c' = sat_add (sat_add (cn_next_correlation c) 1) 1
       \<and> enabled c' = enabled c
       \<and> sampled (cn_metrics c') = sat_add (sampled (cn_metrics c)) 1
       \<and> pairs_completed (cn_metrics c') = pairs_completed (cn_metrics c)
       \<and> pairs_censored (cn_metrics c') = pairs_censored (cn_metrics c)
       \<and> assembly_refused (cn_metrics c') = assembly_refused (cn_metrics c))"
proof (cases "experiment_id_new (cn_boot_epoch c) (sat_add (next_sequence c) 1)")
  case None
  then show ?thesis using assms by (simp add: open_experiment_step_def)
next
  case (Some eid)
  define c1 where "c1 = (if forced then with_metrics (\<lambda>m. m\<lparr> forced_draws := sat_add (forced_draws m) 1 \<rparr>)
       ((c\<lparr> next_sequence := sat_add (next_sequence c) 1 \<rparr>)\<lparr> burst_remaining := sat_sub (burst_remaining c) 1 \<rparr>)
     else c\<lparr> next_sequence := sat_add (next_sequence c) 1 \<rparr>)"
  define c3 where "c3 = snd (mint_correlation (snd (mint_correlation c1)))"
  define coin where "coin = fst (next_u64 c3)"
  define e where "e = \<lparr> ox_experiment_id = eid, ox_family = f, ox_action_class = cls, ox_arm = a,
     ox_canonical_key = key, ox_policy_version = pv, treatment_correlation = fst (mint_correlation c1),
     control_correlation = fst (mint_correlation (snd (mint_correlation c1))), opened_cycle = cycle,
     expires_after_cycle = sat_add cycle EXPERIMENT_HORIZON_CYCLES,
     treatment_issued_first = (coin AND 1 = 0), complement_served = False,
     ox_treatment = None, ox_control = None \<rparr>"
  have mint: "fst (mint_correlation c1) = fst (mint_correlation c)"
    "fst (mint_correlation (snd (mint_correlation c1))) = fst (mint_correlation (snd (mint_correlation c)))"
    by (simp_all add: c1_def mint_correlation_def Let_def)
  have d: "d = (if treatment_issued_first e then TreatmentArm eid (treatment_correlation e)
              else WithholdAsControl eid (control_correlation e))"
    using assms Some
    by (cases forced) (auto simp: open_experiment_step_def Let_def case_prod_beta e_def coin_def c3_def c1_def)
  have c': "open_experiments c' = open_experiments c @ [e]" "next_sequence c' = sat_add (next_sequence c) 1"
    "cn_boot_epoch c' = cn_boot_epoch c" "enabled c' = enabled c"
    "cn_next_correlation c' = sat_add (sat_add (cn_next_correlation c) 1) 1"
    "sampled (cn_metrics c') = sat_add (sampled (cn_metrics c)) 1"
    "pairs_completed (cn_metrics c') = pairs_completed (cn_metrics c)"
    "pairs_censored (cn_metrics c') = pairs_censored (cn_metrics c)"
    "assembly_refused (cn_metrics c') = assembly_refused (cn_metrics c)"
    using assms Some
    by (cases forced; auto simp: open_experiment_step_def Let_def case_prod_beta e_def coin_def c3_def c1_def
        next_u64_state mint_state)+
  show ?thesis
    using Some c' d mint by (intro disjI2 exI [of _ e]) (simp add: e_def)
qed

lemma open_step_inv:
  assumes inv: "canary_inv c" and "budget_allows f c" "family_enabled f"
    and step: "open_experiment_step f cls a key pv cycle forced c = (d, c')"
  shows "canary_inv c'"
  using open_step_fields [OF step]
proof (elim disjE exE conjE)
  fix e
  assume e: "experiment_id_new (cn_boot_epoch c) (sat_add (next_sequence c) 1) = Some (ox_experiment_id e)"
    "ox_family e = f" "ox_treatment e = None" "ox_control e = None"
    and c': "open_experiments c' = open_experiments c @ [e]" "next_sequence c' = sat_add (next_sequence c) 1"
    "cn_boot_epoch c' = cn_boot_epoch c" "sampled (cn_metrics c') = sat_add (sampled (cn_metrics c)) 1"
    "pairs_completed (cn_metrics c') = pairs_completed (cn_metrics c)"
    "pairs_censored (cn_metrics c') = pairs_censored (cn_metrics c)"
    "assembly_refused (cn_metrics c') = assembly_refused (cn_metrics c)"
  let ?es = "open_experiments c"
  have len: "length ?es < 2" and nofam: "\<forall>x \<in> set ?es. ox_family x \<noteq> f"
    using assms(2) by (auto simp: budget_allows_def MAX_OPEN_GLOBAL_def MAX_OPEN_PER_FAMILY_def
        filter_empty_conv split: if_splits)
  have opens: "opens_ok (?es @ [e])"
    using inv len nofam e assms(3)
    by (auto simp: canary_inv_def opens_ok_def MAX_OPEN_GLOBAL_def arms_ok_def is_complete_def)
  have ids: "ids_ok (cn_boot_epoch c) (sat_add (next_sequence c) 1) (map ox_experiment_id (?es @ [e]))
      \<and> accounted (length (?es @ [e])) (pairs_completed (cn_metrics c)) (pairs_censored (cn_metrics c))
          (assembly_refused (cn_metrics c)) = sat_add (sampled (cn_metrics c)) 1"
    if "sat_add (next_sequence c) 1 \<noteq> - 1"
  proof -
    have ns: "next_sequence c \<noteq> - 1" using that by (metis sat_inc_eq_self_iff)
    then have old: "ids_ok (cn_boot_epoch c) (next_sequence c) (map ox_experiment_id ?es)"
      and acc: "accounted (length ?es) (pairs_completed (cn_metrics c)) (pairs_censored (cn_metrics c))
          (assembly_refused (cn_metrics c)) = sampled (cn_metrics c)"
      using inv by (simp_all add: canary_inv_def)
    have less: "next_sequence c < sat_add (next_sequence c) 1"
      using ns sat_inc_eq_self_iff [of "next_sequence c"] sat_add_ge [of "next_sequence c" 1]
      by (metis order_le_imp_less_or_eq)
    have "ox_experiment_id e \<notin> set (map ox_experiment_id ?es)"
    proof
      assume "ox_experiment_id e \<in> set (map ox_experiment_id ?es)"
      then obtain t where "experiment_id_new (cn_boot_epoch c) t = Some (ox_experiment_id e)" "t \<le> next_sequence c"
        using old unfolding ids_ok_def by blast
      then show False using e(1) less experiment_id_sequence by (metis leD)
    qed
    then have "ids_ok (cn_boot_epoch c) (sat_add (next_sequence c) 1) (map ox_experiment_id (?es @ [e]))"
      using ids_ok_snoc [OF ids_ok_mono [OF old less_imp_le [OF less]] e(1)] by simp
    moreover have "sat_add (of_nat (Suc (length ?es))) x = sat_add (sat_add (of_nat (length ?es)) x) 1" for x :: u64
      using one_less [of "Suc (length ?es)" x] len by (simp add: sat_add_ac)
    ultimately show ?thesis using acc by (simp add: accounted_def)
  qed
  show ?thesis
    using opens ids by (simp add: canary_inv_def c')
qed (use inv in simp)

lemma offer_inv: "canary_inv c \<Longrightarrow> canary_inv (snd (offer f cls a key pv cycle c))"
proof -
  assume inv: "canary_inv c"
  define c1 where "c1 = with_metrics (\<lambda>m. m\<lparr> eligible_seen := sat_add (eligible_seen m) 1 \<rparr>) c"
  have inv1: "canary_inv c1" using inv by (simp add: c1_def canary_inv_def)
  consider (off) "\<not> enabled c1 \<or> \<not> family_enabled f"
    | (pending) r where "enabled c1" "family_enabled f" "serve_pending_complement f key c1 = Some r"
    | (new) "enabled c1" "family_enabled f" "serve_pending_complement f key c1 = None"
    by fastforce
  then show "canary_inv (snd (offer f cls a key pv cycle c))"
  proof cases
    case off
    then show ?thesis using inv1 by (auto simp: offer_def Let_def canary_inv_def simp flip: c1_def)
  next
    case pending
    obtain d c' where r: "r = (d, c')" by fastforce
    have o: "snd (offer f cls a key pv cycle c) = c'"
      using pending r by (simp add: offer_def Let_def flip: c1_def)
    from pending(3) [unfolded r] show ?thesis
    proof (rule serve_pending_some)
      fix e P
      assume c': "c' = with_metrics (count_issued d)
         (c1\<lparr> open_experiments := update_first P (\<lambda>x. x\<lparr> complement_served := True \<rparr>) (open_experiments c1) \<rparr>)"
      have "opens_ok (open_experiments c')" using inv1 by (simp add: c' served_opens canary_inv_def)
      then show ?thesis
        unfolding o by (rule canary_inv_cong [OF inv1]) (simp_all add: c' map_update_first)
    qed
  next
    case new
    obtain forced drawn c2 where dr: "draw f cycle c1 = (forced, drawn, c2)" by (metis prod_cases3)
    then have "c2 = c1 \<or> c2 = snd (next_u64 c1)" using draw_state [of f cycle c1] by simp
    then have inv2: "canary_inv c2" using inv1 by (auto simp: next_u64_state canary_inv_def)
    obtain d c' where st: "open_experiment_step f cls a key pv cycle forced c2 = (d, c')" by fastforce
    show ?thesis
      using new dr st inv2 open_step_inv [OF inv2 _ new(2) st]
      by (auto simp: offer_def Let_def canary_inv_def simp flip: c1_def)
  qed
qed

lemma censor_inv: "canary_inv c \<Longrightarrow> canary_inv (snd (censor i b k c))"
proof -
  assume inv: "canary_inv c"
  let ?es = "open_experiments c" and ?kept = "filter (\<lambda>e. ox_experiment_id e \<noteq> i) (open_experiments c)"
  have ops: "opens_ok ?kept" using inv by (simp add: canary_inv_def opens_ok_filter)
  show "canary_inv (snd (censor i b k c))"
  proof (cases "length ?es = length ?kept")
    case True
    then have "?kept = ?es" by (metis length_filter_less less_irrefl filter_True)
    then show ?thesis using inv by (simp add: censor_def canary_inv_def)
  next
    case False
    have one: "length ?kept = length ?es - 1 \<and> 0 < length ?es" if "distinct (map ox_experiment_id ?es)"
    proof -
      have "length (filter (\<lambda>j. j \<noteq> i) js) = length js - (if i \<in> set js then 1 else 0)" if "distinct js" for js
        using that by (induction js) (auto simp: filter_id_conv Suc_diff_le, metis Suc_pred length_pos_if_in_set)
      from this [OF that] have "length ?kept = length ?es - (if i \<in> set (map ox_experiment_id ?es) then 1 else 0)"
        by (simp add: filter_map comp_def)
      then show ?thesis using False by (auto split: if_splits)
    qed
    have "length ?es \<le> 2" using inv by (simp add: canary_inv_def opens_ok_def MAX_OPEN_GLOBAL_def)
    then show ?thesis
      using inv ops False one accounted_shift(2) [of "length ?es"] ids_ok_subset
      by (auto simp: censor_def canary_inv_def Let_def ids_ok_def distinct_map_filter)
  qed
qed

lemma ids_ok_swap_remove: "ids_ok b n ids \<Longrightarrow> i < length ids \<Longrightarrow> ids_ok b n (swap_remove i ids)"
  using ids_ok_subset [OF _ set_swap_remove] distinct_swap_remove(1) by (metis ids_ok_def)

lemma settle_arm_fields:
  assumes "settle_arm oc e = Inr e'"
  shows "ox_experiment_id e' = ox_experiment_id e \<and> ox_family e' = ox_family e"
  using assms by (auto simp: settle_arm_def split: if_splits)

lemma certify_fields:
  assumes "is_complete e" and "certify e c = (r, c')"
  shows "open_experiments c' = open_experiments c \<and> next_sequence c' = next_sequence c
    \<and> cn_boot_epoch c' = cn_boot_epoch c \<and> sampled (cn_metrics c') = sampled (cn_metrics c)
    \<and> pairs_censored (cn_metrics c') = pairs_censored (cn_metrics c)
    \<and> (pairs_completed (cn_metrics c') = sat_add (pairs_completed (cn_metrics c)) 1
         \<and> assembly_refused (cn_metrics c') = assembly_refused (cn_metrics c)
       \<or> pairs_completed (cn_metrics c') = pairs_completed (cn_metrics c)
         \<and> assembly_refused (cn_metrics c') = sat_add (assembly_refused (cn_metrics c)) 1)"
  using assms by (auto simp: certify_def is_complete_def split: option.splits sum.splits)

lemma record_arm_inv: "canary_inv c \<Longrightarrow> canary_inv (snd (record_arm i corr settled st u c))"
proof -
  assume inv: "canary_inv c"
  let ?es = "open_experiments c"
  have m: "canary_inv (with_metrics (\<lambda>m. m\<lparr> endpoints_late := x \<rparr>) c)"
    "canary_inv (with_metrics (\<lambda>m. m\<lparr> endpoints_duplicate := x \<rparr>) c)" for x
    using inv by (simp_all add: canary_inv_def)
  show "canary_inv (snd (record_arm i corr settled st u c))"
  proof (cases "find_index (\<lambda>e. ox_experiment_id e = i) ?es")
    case None
    then show ?thesis using m by (simp add: record_arm_def)
  next
    case (Some ix)
    then have ix: "ix < length ?es" using find_index_Some by fastforce
    define oc where "oc = \<lparr> oc_correlation = corr, oc_arm = ox_arm (?es ! ix), oc_issued_cycle = opened_cycle (?es ! ix),
      oc_settled_cycle = settled, oc_terminal_state = st, oc_utility_micros = u \<rparr>"
    show ?thesis
    proof (cases "settle_arm oc (?es ! ix)")
      case (Inl b)
      then show ?thesis using m Some by (cases b) (simp_all add: record_arm_def Let_def oc_def)
    next
      case (Inr e')
      note e' = settle_arm_fields [OF Inr]
      define c1 where "c1 = with_metrics (count_arm st) (c\<lparr> open_experiments := ?es[ix := e'] \<rparr>)"
      have ids1: "map ox_experiment_id (open_experiments c1) = map ox_experiment_id ?es"
        and fams1: "map ox_family (open_experiments c1) = map ox_family ?es"
        using e' ix by (simp_all add: c1_def map_update list_update_same_conv)
      have arms: "list_all arms_ok ?es" "arms_ok (?es ! ix)"
        using inv ix by (auto simp: canary_inv_def opens_ok_def list_all_iff)
      show ?thesis
      proof (cases "is_complete e'")
        case False
        have "set (?es[ix := e']) \<subseteq> insert e' (set ?es)" by (rule set_update_subset_insert)
        then have "opens_ok (open_experiments c1)"
          using inv fams1 False e' arms
          by (auto simp: canary_inv_def opens_ok_def arms_ok_def list_all_iff c1_def)
        then have "canary_inv c1"
          by (rule canary_inv_cong [OF inv]) (simp_all add: ids1, simp_all add: c1_def)
        then show ?thesis using Some Inr False by (simp add: record_arm_def Let_def oc_def c1_def)
      next
        case True
        define rest where "rest = swap_remove ix (open_experiments c1)"
        obtain r c' where cert: "certify e' (c1\<lparr> open_experiments := rest \<rparr>) = (r, c')" by fastforce
        note cf = certify_fields [OF True cert]
        have ix1: "ix < length (open_experiments c1)" using ix by (simp add: c1_def)
        have sub: "set rest \<subseteq> set ?es"
        proof -
          have "mset (?es[ix := e']) = add_mset e' (mset ?es - {#?es ! ix#})"
            using ix by (simp add: mset_update)
          then have "mset rest = mset ?es - {#?es ! ix#}"
            using ix by (simp add: rest_def c1_def mset_swap_remove)
          then show ?thesis by (metis in_diffD set_mset_mset subsetI)
        qed
        have fam: "distinct (map ox_family rest)" "length rest \<le> 2"
          using inv distinct_swap_remove(1) [of "map ox_family ?es" ix] ix ix1 fams1
          by (auto simp: canary_inv_def opens_ok_def rest_def map_swap_remove MAX_OPEN_GLOBAL_def c1_def)
        then have ok: "opens_ok rest"
          using sub arms by (auto simp: opens_ok_def list_all_iff MAX_OPEN_GLOBAL_def)
        have ids: "ids_ok b n (map ox_experiment_id ?es) \<Longrightarrow> ids_ok b n (map ox_experiment_id rest)" for b n
          using ids_ok_swap_remove [of b n "map ox_experiment_id ?es" ix] ix ix1 ids1
          by (simp add: rest_def map_swap_remove)
        have len: "length rest = length ?es - 1" using ix by (simp add: rest_def c1_def)
        have n: "0 < length ?es" "length ?es \<le> 2"
          using ix inv by (auto simp: canary_inv_def opens_ok_def MAX_OPEN_GLOBAL_def)
        have "canary_inv c'"
          using inv ok ids cf accounted_shift [OF n] unfolding canary_inv_def
          by (auto simp: len c1_def)
        then show ?thesis
          using Some Inr True cert by (simp add: record_arm_def Let_def oc_def c1_def rest_def)
      qed
    qed
  qed
qed

lemma canary_expire_inv: "canary_inv c \<Longrightarrow> canary_inv (snd (expire cycle c))"
proof -
  assume inv: "canary_inv c"
  let ?es = "open_experiments c" and ?kept = "filter (\<lambda>e. cycle \<le> expires_after_cycle e) (open_experiments c)"
  let ?d = "length ?es - length ?kept"
  have le: "length ?kept \<le> length ?es" "length ?es \<le> 2"
    using inv by (simp_all add: canary_inv_def opens_ok_def MAX_OPEN_GLOBAL_def)
  then have "?d = 0 \<or> ?d = 1 \<and> length ?es \<noteq> 0 \<or> ?d = 2 \<and> length ?es = 2" by linarith
  then have acc: "accounted (length ?kept) a (sat_add b (of_nat ?d)) r = accounted (length ?es) a b r" for a b r
  proof (elim disjE conjE)
    assume d: "?d = 1" "length ?es \<noteq> 0"
    then have "length ?kept = length ?es - 1" using le by linarith
    then show ?thesis using d(2) le accounted_shift(2) [of "length ?es" a b r] unfolding d(1) by simp
  next
    assume d: "?d = 2" "length ?es = 2"
    have two: "sat_add b 2 = sat_add (sat_add b 1) 1" for b :: u64
      by (simp add: sat_add_assoc) (simp add: sat_add_def)
    have "length ?kept = 0" using d le by linarith
    then show ?thesis
      using d(2) accounted_shift(2) [of 2 a b r] accounted_shift(2) [of 1 a "sat_add b 1" r]
      unfolding d(1) by (simp add: two)
  qed (use le in simp)
  show "canary_inv (snd (expire cycle c))"
    using inv acc ids_ok_subset
    by (auto simp: expire_def canary_inv_def Let_def opens_ok_filter ids_ok_def distinct_map_filter)
qed

subsection \<open>The machine\<close>

datatype canary_event =
  CnOffer actuator_family action_class arm string u32 u64
| CnEnable
| CnDisable
| CnBurst u32 u64
| CnConfirm
| CnCensor experiment_id "bool option" censor_cause
| CnAbandon experiment_id
| CnNote bool
| CnRecord experiment_id probe_correlation u64 arm_terminal_state i64
| CnExpire u64

fun canary_step :: "canary_event \<Rightarrow> canary \<Rightarrow> canary" where
  "canary_step (CnOffer f cls a key pv cycle) c = snd (offer f cls a key pv cycle c)"
| "canary_step CnEnable c = enable c"
| "canary_step CnDisable c = disable c"
| "canary_step (CnBurst draws cycle) c = snd (arm_burst draws cycle c)"
| "canary_step CnConfirm c = confirm_control_honoured c"
| "canary_step (CnCensor i b k) c = snd (censor i b k c)"
| "canary_step (CnAbandon i) c = snd (abandon_not_comparable i c)"
| "canary_step (CnNote t) c = note_prediction_resolved t c"
| "canary_step (CnRecord i corr settled st u) c = snd (record_arm i corr settled st u c)"
| "canary_step (CnExpire cycle) c = snd (expire cycle c)"

interpretation canary: invariant_machine canary_step canary_inv
proof unfold_locales
  fix e c
  show "canary_inv c \<Longrightarrow> canary_inv (canary_step e c)"
    by (cases e)
      (simp_all add: offer_inv censor_inv record_arm_inv canary_expire_inv abandon_not_comparable_def,
       simp_all add: canary_inv_def enable_def disable_def arm_burst_def confirm_control_honoured_def
         note_prediction_resolved_def Let_def)
qed

text \<open>
  C16: the intervention stays within its budget and every sampled experiment is accounted for.
  After any sequence of calls at most two experiments are open, at most one per family, and
  only in the two enabled families; and until the 64-bit sequence is exhausted the open
  experiments have distinct identities and the number ever sampled equals the open ones plus
  the completed, the censored and those refused at assembly, in saturating arithmetic.
\<close>

theorem canary_reachable_inv:
  "(let c = fold canary_step es (canary_new boot); m = cn_metrics c in
     length (open_experiments c) \<le> 2
     \<and> distinct (map ox_family (open_experiments c))
     \<and> list_all (\<lambda>e. ox_family e \<in> {AF_MarkovPrewarm, AF_InteractionQos}) (open_experiments c)
     \<and> (if next_sequence c = - 1 then True
        else distinct (map ox_experiment_id (open_experiments c))
          \<and> sampled m = sat_add (of_nat (length (open_experiments c)))
              (sat_add (pairs_completed m) (sat_add (pairs_censored m) (assembly_refused m)))))"
proof -
  let ?c = "fold canary_step es (canary_new boot)"
  have inv: "canary_inv ?c" by (rule canary.run_inv [OF canary_inv_new])
  then show ?thesis
    by (auto simp: Let_def canary_inv_def opens_ok_def list_all_iff arms_ok_def family_enabled_def
        MAX_OPEN_GLOBAL_def ids_ok_def accounted_def)
qed

subsection \<open>The kill switch\<close>

definition issued :: "canary \<Rightarrow> u64 \<times> u64 \<times> u64" where
  "issued c = (treatment_issued (cn_metrics c), control_issued (cn_metrics c), sampled (cn_metrics c))"

lemma count_arm_issued [simp]:
  "treatment_issued (count_arm st m) = treatment_issued m" "control_issued (count_arm st m) = control_issued m"
  by (cases st; simp)+

lemma count_censored_issued [simp]:
  "treatment_issued (count_censored k b m) = treatment_issued m"
  "control_issued (count_censored k b m) = control_issued m"
  by (cases "(k, b, m)" rule: count_censored.cases; simp)+

lemma count_missing_issued [simp]:
  "treatment_issued (fold count_missing as m) = treatment_issued m"
  "control_issued (fold count_missing as m) = control_issued m"
proof -
  have "treatment_issued (count_missing a m) = treatment_issued m"
    "control_issued (count_missing a m) = control_issued m" for a m
    by (cases "(a, m)" rule: count_missing.cases; simp)+
  then show "treatment_issued (fold count_missing as m) = treatment_issued m"
    "control_issued (fold count_missing as m) = control_issued m"
    by (induction as arbitrary: m) simp_all
qed

lemma certify_issued:
  "certify e c = (r, c') \<Longrightarrow> issued c' = issued c \<and> enabled c' = enabled c \<and> open_experiments c' = open_experiments c"
  by (auto simp: certify_def issued_def split: option.splits sum.splits)

lemma record_arm_cases:
  assumes "record_arm i corr settled st u c = (r, c')"
  obtains (ignored) f where "r = None" "c' = with_metrics f c" "issued c' = issued c"
  | (first) ix e' where "r = None" "ix < length (open_experiments c)" "\<not> is_complete e'"
      "c' = with_metrics (count_arm st) (c\<lparr> open_experiments := (open_experiments c)[ix := e'] \<rparr>)"
  | (closed) ix e' where "ix < length (open_experiments c)" "is_complete e'"
      "certify e' ((with_metrics (count_arm st) (c\<lparr> open_experiments := (open_experiments c)[ix := e'] \<rparr>))
         \<lparr> open_experiments := swap_remove ix ((open_experiments c)[ix := e']) \<rparr>) = (r, c')"
proof (cases "find_index (\<lambda>e. ox_experiment_id e = i) (open_experiments c)")
  case None
  then show ?thesis using assms
    by (intro ignored [of "\<lambda>m. m\<lparr> endpoints_late := sat_add (endpoints_late m) 1 \<rparr>"])
      (auto simp: record_arm_def issued_def)
next
  case (Some ix)
  then have ix: "ix < length (open_experiments c)" using find_index_Some by fastforce
  define oc where "oc = \<lparr> oc_correlation = corr, oc_arm = ox_arm (open_experiments c ! ix),
    oc_issued_cycle = opened_cycle (open_experiments c ! ix),
    oc_settled_cycle = settled, oc_terminal_state = st, oc_utility_micros = u \<rparr>"
  show ?thesis
  proof (cases "settle_arm oc (open_experiments c ! ix)")
    case (Inl b)
    show ?thesis
    proof (cases b)
      case True
      then show ?thesis using assms Some Inl
        by (intro ignored [of "\<lambda>m. m\<lparr> endpoints_duplicate := sat_add (endpoints_duplicate m) 1 \<rparr>"])
          (auto simp: record_arm_def issued_def oc_def Let_def)
    next
      case False
      then show ?thesis using assms Some Inl
        by (intro ignored [of "\<lambda>m. m\<lparr> endpoints_late := sat_add (endpoints_late m) 1 \<rparr>"])
          (auto simp: record_arm_def issued_def oc_def Let_def)
    qed
  next
    case (Inr e')
    show ?thesis
    proof (cases "is_complete e'")
      case True
      then show ?thesis using assms Some Inr ix
        by (intro closed [of ix e']) (simp_all add: record_arm_def Let_def oc_def)
    next
      case False
      then show ?thesis using assms Some Inr ix
        by (intro first [of ix e']) (simp_all add: record_arm_def Let_def oc_def)
    qed
  qed
qed

lemma record_arm_issued:
  assumes "record_arm i corr settled st u c = (r, c')"
  shows "issued c' = issued c \<and> enabled c' = enabled c
    \<and> length (open_experiments c') \<le> length (open_experiments c)"
  using assms
proof (cases rule: record_arm_cases)
  case (closed ix e')
  from certify_issued [OF closed(3)] closed(1) show ?thesis by (simp add: issued_def)
qed (simp_all add: issued_def)

lemma expire_issued: "issued (snd (expire cycle c)) = issued c \<and> enabled (snd (expire cycle c)) = enabled c
    \<and> length (open_experiments (snd (expire cycle c))) \<le> length (open_experiments c)"
  by (simp add: expire_def Let_def issued_def)

lemma censor_issued: "issued (snd (censor i b k c)) = issued c \<and> enabled (snd (censor i b k c)) = enabled c
    \<and> length (open_experiments (snd (censor i b k c))) \<le> length (open_experiments c)"
  by (simp add: censor_def Let_def issued_def)

lemma offer_disabled:
  "\<not> enabled c \<Longrightarrow> fst (offer f cls a key pv cycle c) = Proceed \<and> issued (snd (offer f cls a key pv cycle c)) = issued c
    \<and> enabled (snd (offer f cls a key pv cycle c)) = enabled c
    \<and> open_experiments (snd (offer f cls a key pv cycle c)) = open_experiments c"
  by (simp add: offer_def Let_def issued_def)

lemma disabled_step:
  assumes "\<not> enabled c" "e \<noteq> CnEnable"
  shows "issued (canary_step e c) = issued c \<and> \<not> enabled (canary_step e c)
    \<and> length (open_experiments (canary_step e c)) \<le> length (open_experiments c)"
proof (cases e)
  case (CnOffer f cls a key pv cycle)
  then show ?thesis using assms offer_disabled [of c f cls a key pv cycle] by simp
next
  case (CnRecord i corr settled st u)
  obtain r c' where "record_arm i corr settled st u c = (r, c')" by fastforce
  from record_arm_issued [OF this] this show ?thesis using assms CnRecord by simp
next
  case (CnCensor i b k)
  then show ?thesis using assms censor_issued [of i b k c] by simp
next
  case (CnAbandon i)
  then show ?thesis using assms censor_issued [of i None NotComparable c] by (simp add: abandon_not_comparable_def)
next
  case (CnExpire cycle)
  then show ?thesis using assms expire_issued [of cycle c] by simp
next
  case CnEnable
  then show ?thesis using assms(2) by simp
qed (use assms(1) in \<open>simp_all add: disable_def arm_burst_def Let_def confirm_control_honoured_def
       note_prediction_resolved_def issued_def\<close>)

text \<open>
  the kill switch. Once the canary is disabled, and until it is enabled again, no sequence
  of calls hands out an arm, opens an experiment or counts a sample: every offer answers that
  the caller should proceed, even one that could serve the waiting second arm of an open
  experiment, and the open experiments only drain.
\<close>

theorem kill_switch:
  assumes "list_all (\<lambda>e. e \<noteq> CnEnable) es"
  shows "(let c' = fold canary_step es (disable c) in
     fst (offer f cls a key pv cycle c') = Proceed
     \<and> treatment_issued (cn_metrics c') = treatment_issued (cn_metrics c)
     \<and> control_issued (cn_metrics c') = control_issued (cn_metrics c)
     \<and> sampled (cn_metrics c') = sampled (cn_metrics c)
     \<and> length (open_experiments c') \<le> length (open_experiments c))"
proof -
  have "\<not> enabled d \<Longrightarrow> list_all (\<lambda>e. e \<noteq> CnEnable) es \<Longrightarrow>
      issued (fold canary_step es d) = issued d \<and> \<not> enabled (fold canary_step es d)
      \<and> length (open_experiments (fold canary_step es d)) \<le> length (open_experiments d)" for d
  proof (induction es arbitrary: d)
    case (Cons e es)
    have d: "\<not> enabled d" "e \<noteq> CnEnable" "list_all (\<lambda>e. e \<noteq> CnEnable) es" using Cons.prems by simp_all
    note step = disabled_step [OF d(1,2)]
    from Cons.IH [OF conjunct1 [OF conjunct2 [OF step]] d(3)] step
    show ?case unfolding fold_simps by (metis le_trans)
  qed simp
  from this [of "disable c"] assms offer_disabled [of "fold canary_step es (disable c)" f cls a key pv cycle]
  show ?thesis by (simp add: Let_def issued_def disable_def)
qed

theorem kill_switch_witness:
  "fst (offer AF_MarkovPrewarm MarkovPredictedApp MarkovCacheOnly ''app'' 1 9
     (fold canary_step [CnBurst 5 1, CnConfirm] (disable (canary_new 7)))) = Proceed"
  using kill_switch [of "[CnBurst 5 1, CnConfirm]" "canary_new 7" AF_MarkovPrewarm MarkovPredictedApp
      MarkovCacheOnly "''app''" 1 9]
  by (simp add: Let_def)

subsection \<open>The second arm\<close>

lemma find_unique:
  assumes "x \<in> set xs" "P x" "\<And>y. y \<in> set xs \<Longrightarrow> P y \<Longrightarrow> y = x"
  shows "find P xs = Some x"
proof (cases "find P xs")
  case None
  then show ?thesis using assms(1,2) by (simp add: find_None_iff)
next
  case (Some y)
  then have "y \<in> set xs" "P y" by (auto simp: find_Some_iff)
  then show ?thesis using assms(3) Some by simp
qed

definition waiting :: "canary \<Rightarrow> open_experiment \<Rightarrow> bool" where
  "waiting c e \<longleftrightarrow> canary_inv c \<and> next_sequence c \<noteq> - 1 \<and> enabled c \<and> e \<in> set (open_experiments c) \<and> \<not> complement_served e"

definition other_arm :: "open_experiment \<Rightarrow> arm_decision" where
  "other_arm e =
     (if ox_treatment e \<noteq> None \<or> ox_control e = None \<and> treatment_issued_first e
      then WithholdAsControl (ox_experiment_id e) (control_correlation e)
      else TreatmentArm (ox_experiment_id e) (treatment_correlation e))"

text \<open>
  the two arms of an experiment are served at different opportunities. While an
  experiment waits for its second arm, the next offer of the same family and key is claimed by
  it before any draw: the caller gets exactly the arm that was not handed out or has not
  settled, the experiment counts as served, and no random draw, burst, identity or budget is
  spent.
\<close>

theorem pending_complement_first:
  assumes "waiting c e" and "family = ox_family e" and "key = ox_canonical_key e"
  shows "fst (offer family cls a key pv cycle c) = other_arm e
    \<and> (let c' = snd (offer family cls a key pv cycle c) in
        rng_state c' = rng_state c \<and> burst_remaining c' = burst_remaining c
        \<and> next_sequence c' = next_sequence c \<and> sampled (cn_metrics c') = sampled (cn_metrics c)
        \<and> map ox_experiment_id (open_experiments c') = map ox_experiment_id (open_experiments c)
        \<and> e\<lparr> complement_served := True \<rparr> \<in> set (open_experiments c'))"
proof -
  let ?es = "open_experiments c"
  have e: "e \<in> set ?es" "\<not> complement_served e" "enabled c"
    and inv: "distinct (map ox_family ?es)" "distinct (map ox_experiment_id ?es)" "arms_ok e"
    using assms(1) by (auto simp: waiting_def canary_inv_def opens_ok_def ids_ok_def list_all_iff)
  define c1 where "c1 = with_metrics (\<lambda>m. m\<lparr> eligible_seen := sat_add (eligible_seen m) 1 \<rparr>) c"
  have f1: "find (\<lambda>x. ox_family x = family \<and> ox_canonical_key x = key \<and> \<not> complement_served x) ?es = Some e"
    by (rule find_unique) (use e assms(2,3) inj_on_distinct [OF inv(1)] in auto)
  have f2: "find (\<lambda>x. ox_experiment_id x = ox_experiment_id e) ?es = Some e"
    by (rule find_unique) (use e inj_on_distinct [OF inv(2)] in auto)
  have comp: "complement_of e = Some (other_arm e)"
    using inv(3) by (auto simp: complement_of_def other_arm_def arms_ok_def is_complete_def split: option.splits)
  have served: "f e \<in> set (update_first (\<lambda>x. ox_experiment_id x = ox_experiment_id e) f xs)"
    if "find (\<lambda>x. ox_experiment_id x = ox_experiment_id e) xs = Some e" for f and xs :: "open_experiment list"
    using that by (induction xs) (auto split: if_splits)
  have "serve_pending_complement family key c1 = Some (other_arm e, with_metrics (count_issued (other_arm e))
     (c1\<lparr> open_experiments := update_first (\<lambda>x. ox_experiment_id x = ox_experiment_id e)
         (\<lambda>x. x\<lparr> complement_served := True \<rparr>) ?es \<rparr>))"
    by (simp add: serve_pending_complement_def complementary_arm_def c1_def f1 f2 comp)
  moreover have "enabled c1" "family_enabled family"
    using e inv(3) assms(2) by (simp_all add: c1_def arms_ok_def)
  ultimately have "offer family cls a key pv cycle c = (other_arm e, with_metrics (count_issued (other_arm e))
     (c1\<lparr> open_experiments := update_first (\<lambda>x. ox_experiment_id x = ox_experiment_id e)
         (\<lambda>x. x\<lparr> complement_served := True \<rparr>) ?es \<rparr>))"
    by (simp add: offer_def Let_def flip: c1_def)
  then show ?thesis
    using served [OF f2, of "\<lambda>x. x\<lparr> complement_served := True \<rparr>"]
    by (simp add: c1_def map_update_first Let_def)
qed

subsection \<open>A clean experiment completes\<close>

definition freshly_open :: "canary \<Rightarrow> open_experiment \<Rightarrow> bool" where
  "freshly_open c e \<longleftrightarrow> canary_inv c \<and> next_sequence c \<noteq> - 1 \<and> e \<in> set (open_experiments c)
     \<and> ox_treatment e = None \<and> ox_control e = None \<and> ox_canonical_key e \<noteq> []
     \<and> treatment_correlation e \<noteq> 0 \<and> control_correlation e \<noteq> 0
     \<and> treatment_correlation e \<noteq> control_correlation e"

text \<open>
  the lifecycle closes. When both arms of an open experiment report, the treatment as
  applied and the control as withheld, each inside the experiment's window, the second report
  returns the certified pair: it carries the experiment's identity, key and both utilities,
  its effect is treatment minus control, the experiment is closed and one more pair counts as
  completed.
\<close>

theorem clean_experiment_completes:
  assumes "freshly_open c e" and "is_treatment st"
    and "opened_cycle e \<le> s1" "s1 \<le> expires_after_cycle e"
    and "opened_cycle e \<le> s2" "s2 \<le> expires_after_cycle e"
    and "c1 = snd (record_arm (ox_experiment_id e) (treatment_correlation e) s1 st u1 c)"
    and "record_arm (ox_experiment_id e) (control_correlation e) s2 WithheldByHoldout u2 c1 = (r, c2)"
  shows "(\<exists>p. r = Some p \<and> cp_experiment_id p = ox_experiment_id e \<and> cp_canonical_key p = ox_canonical_key e
      \<and> cp_boot_epoch p = cn_boot_epoch c \<and> effect_micros p = i64_clamp (u1 - u2))
    \<and> length (open_experiments c2) = length (open_experiments c) - 1
    \<and> pairs_completed (cn_metrics c2) = sat_add (pairs_completed (cn_metrics c)) 1"
proof -
  let ?es = "open_experiments c"
  have e: "e \<in> set ?es" "ox_treatment e = None" "ox_control e = None" "ox_canonical_key e \<noteq> []"
      "treatment_correlation e \<noteq> 0" "control_correlation e \<noteq> 0" "treatment_correlation e \<noteq> control_correlation e"
    and ids: "ids_ok (cn_boot_epoch c) (next_sequence c) (map ox_experiment_id ?es)"
    using assms(1) by (auto simp: freshly_open_def canary_inv_def)
  obtain s where s: "experiment_id_new (cn_boot_epoch c) s = Some (ox_experiment_id e)"
    using ids e(1) unfolding ids_ok_def by (metis image_eqI set_map)
  have boot: "id_boot_epoch (ox_experiment_id e) = cn_boot_epoch c" "cn_boot_epoch c \<noteq> 0"
    using experiment_id_boot [OF s] s by (auto simp: experiment_id_new_def)
  obtain ix where ix: "find_index (\<lambda>y. ox_experiment_id y = ox_experiment_id e) ?es = Some ix"
      "ix < length ?es" "?es ! ix = e"
    using find_index_unique [of ox_experiment_id ?es e] ids e(1) by (auto simp: ids_ok_def)
  define oc1 where "oc1 = \<lparr> oc_correlation = treatment_correlation e, oc_arm = ox_arm e,
    oc_issued_cycle = opened_cycle e, oc_settled_cycle = s1, oc_terminal_state = st, oc_utility_micros = u1 \<rparr>"
  define oc2 where "oc2 = \<lparr> oc_correlation = control_correlation e, oc_arm = ox_arm e,
    oc_issued_cycle = opened_cycle e, oc_settled_cycle = s2, oc_terminal_state = WithheldByHoldout,
    oc_utility_micros = u2 \<rparr>"
  define e1 where "e1 = e\<lparr> ox_treatment := Some oc1 \<rparr>"
  have c1: "c1 = with_metrics (count_arm st) (c\<lparr> open_experiments := ?es[ix := e1] \<rparr>)"
    using e by (simp add: assms(7) record_arm_def ix Let_def settle_arm_def is_complete_def oc1_def e1_def)
  have ix1: "find_index (\<lambda>y. ox_experiment_id y = ox_experiment_id e) (?es[ix := e1]) = Some ix"
    by (rule find_index_update [OF ix(1)]) (simp add: e1_def)
  have asm: "assemble (ox_experiment_id e) (ox_family e) (ox_action_class e) (ox_canonical_key e)
      (ox_policy_version e) (cn_boot_epoch c) oc1 oc2 (expires_after_cycle e) (expires_after_cycle e) =
    Inr \<lparr> cp_experiment_id = ox_experiment_id e, cp_family = ox_family e, cp_action_class = ox_action_class e,
          cp_canonical_key = ox_canonical_key e, cp_policy_version = ox_policy_version e,
          cp_boot_epoch = cn_boot_epoch c, cp_treatment = oc1, cp_control = oc2 \<rparr>"
    using e boot assms(2-6)
    by (simp add: assemble_def oc1_def oc2_def is_control_def settled_in_window_def)
  have "record_arm (ox_experiment_id e) (control_correlation e) s2 WithheldByHoldout u2 c1 =
      certify (e1\<lparr> ox_control := Some oc2 \<rparr>)
        ((with_metrics (count_arm WithheldByHoldout) c1)
           \<lparr> open_experiments := swap_remove ix (?es[ix := e1\<lparr> ox_control := Some oc2 \<rparr>]) \<rparr>)"
    using e ix(2)
    by (simp add: record_arm_def c1 ix1 [unfolded e1_def] Let_def settle_arm_def e1_def is_complete_def oc2_def)
  then show ?thesis
    using assms(8) asm ix(2)
    by (auto simp: certify_def e1_def c1 effect_micros_def oc1_def oc2_def i64_sat_sub_def)
qed

subsection \<open>A worked example\<close>

definition opened_canary :: canary where
  "opened_canary = snd (offer AF_MarkovPrewarm MarkovPredictedApp MarkovCacheOnly ''app'' 1 10
     (snd (arm_burst 1 0 (canary_new 7))))"

lemma opened_canary_facts:
  obtains e where "open_experiments opened_canary = [e]" "freshly_open opened_canary e"
    "enabled opened_canary" "opened_cycle e = 10" "expires_after_cycle e = 250"
    "ox_family e = AF_MarkovPrewarm" "ox_canonical_key e = ''app''" "\<not> complement_served e"
proof -
  define c where "c = with_metrics (\<lambda>m. m\<lparr> eligible_seen := sat_add (eligible_seen m) 1 \<rparr>) (snd (arm_burst 1 0 (canary_new 7)))"
  have c: "open_experiments c = []" "enabled c" "burst_remaining c = 1" "burst_expires_cycle c = 5000"
    "next_sequence c = 0" "cn_boot_epoch c = 7" "cn_next_correlation c = 0"
    by (simp_all add: c_def arm_burst_def canary_new_def Let_def MAX_BURST_DRAWS_def BURST_TTL_CYCLES_def
        min_def sat_add_def)
  have "opened_canary = snd (open_experiment_step AF_MarkovPrewarm MarkovPredictedApp MarkovCacheOnly ''app'' 1 10 True c)"
    using c by (simp add: opened_canary_def offer_def Let_def family_enabled_def serve_pending_complement_def
        draw_def budget_allows_def MAX_OPEN_GLOBAL_def MAX_OPEN_PER_FAMILY_def flip: c_def)
  then obtain d where st: "open_experiment_step AF_MarkovPrewarm MarkovPredictedApp MarkovCacheOnly ''app'' 1 10 True c
      = (d, opened_canary)" by (metis prod.collapse)
  have new: "experiment_id_new 7 1 \<noteq> None" by (simp add: experiment_id_new_def)
  obtain e where e: "ox_family e = AF_MarkovPrewarm" "ox_treatment e = None" "ox_control e = None"
      "ox_canonical_key e = ''app''" "\<not> complement_served e" "opened_cycle e = 10" "expires_after_cycle e = 250"
      "treatment_correlation e = fst (mint_correlation c)"
      "control_correlation e = fst (mint_correlation (snd (mint_correlation c)))"
      "open_experiments opened_canary = [e]" "next_sequence opened_canary = 1" "enabled opened_canary"
    using open_step_fields [OF st] new c
    by (auto simp: sat_add_def EXPERIMENT_HORIZON_CYCLES_def)
  have corr: "treatment_correlation e = push_bit 32 7 OR (1 AND 0xFFFFFFFF)"
      "control_correlation e = push_bit 32 7 OR (2 AND 0xFFFFFFFF)"
    using e(8,9) c by (simp_all add: mint_correlation_def Let_def sat_add_def)
  have inv: "canary_inv opened_canary"
    unfolding opened_canary_def
    by (rule offer_inv) (use canary_inv_new [of 7] in \<open>simp add: canary_inv_def arm_burst_def Let_def\<close>)
  have "freshly_open opened_canary e"
    using e inv minted_distinct [of 1 2 7] minted_nonzero [of 1 7] minted_nonzero [of 2 7]
    unfolding freshly_open_def corr by simp
  then show ?thesis using that e by blast
qed

theorem pending_complement_first_witness:
  "fst (offer AF_MarkovPrewarm MarkovPredictedApp MarkovCacheOnly ''app'' 1 11 opened_canary) \<noteq> Proceed"
proof -
  obtain e where e: "open_experiments opened_canary = [e]" "freshly_open opened_canary e" "enabled opened_canary"
    "ox_family e = AF_MarkovPrewarm" "ox_canonical_key e = ''app''" "\<not> complement_served e"
    using opened_canary_facts by metis
  have "waiting opened_canary e" using e by (simp add: waiting_def freshly_open_def)
  from pending_complement_first [OF this, of AF_MarkovPrewarm "''app''" MarkovPredictedApp MarkovCacheOnly 1 11] e(4,5)
  show ?thesis by (simp add: other_arm_def)
qed

theorem clean_experiment_completes_witness:
  "(let e = hd (open_experiments opened_canary);
        c1 = snd (record_arm (ox_experiment_id e) (treatment_correlation e) 20 AppliedNoRevertNeeded 7 opened_canary)
    in fst (record_arm (ox_experiment_id e) (control_correlation e) 30 WithheldByHoldout 4 c1) \<noteq> None)"
proof -
  obtain e where e: "open_experiments opened_canary = [e]" "freshly_open opened_canary e"
    "opened_cycle e = 10" "expires_after_cycle e = 250"
    using opened_canary_facts by metis
  define c1 where "c1 = snd (record_arm (ox_experiment_id e) (treatment_correlation e) 20 AppliedNoRevertNeeded 7 opened_canary)"
  obtain r c2 where r: "record_arm (ox_experiment_id e) (control_correlation e) 30 WithheldByHoldout 4 c1 = (r, c2)"
    by fastforce
  from clean_experiment_completes [OF e(2) _ _ _ _ _ c1_def r] e(3,4) have "r \<noteq> None"
    by (auto simp: is_treatment_def)
  then show ?thesis using r by (simp add: Let_def e(1) c1_def)
qed

end
