(* ===== verification/Effect_Ledger.thy ===== *)
theory Effect_Ledger
  imports Hash_Map
begin

text \<open>
  \<open>engine/effect_ledger.rs\<close>, the ledger itself: every applied kernel effect is recorded under
  its process and kind, with a time to live, the start time of the process it was applied to,
  the producer that owns it and the count of failed reversals. The pass that reverts expired
  effects calls the QoS manager and the kernel and is in \<open>Effect_Reconcile\<close>. Time is an
  argument: the code reads the monotonic clock inside each operation.
\<close>

datatype applied_effect =
    Nice u32 i32
  | MachTier u32
  | TaskQoS u32
  | JetsamPriority u32 i32
  | AppNap u32
  | Memlimit u32
  | DarwinBg u32

fun effect_pid :: "applied_effect \<Rightarrow> u32" where
  "effect_pid (Nice pid _) = pid"
| "effect_pid (MachTier pid) = pid"
| "effect_pid (TaskQoS pid) = pid"
| "effect_pid (JetsamPriority pid _) = pid"
| "effect_pid (AppNap pid) = pid"
| "effect_pid (Memlimit pid) = pid"
| "effect_pid (DarwinBg pid) = pid"

fun effect_kind :: "applied_effect \<Rightarrow> u8" where
  "effect_kind (Nice _ _) = 0"
| "effect_kind (MachTier _) = 1"
| "effect_kind (TaskQoS _) = 2"
| "effect_kind (JetsamPriority _ _) = 3"
| "effect_kind (AppNap _) = 4"
| "effect_kind (Memlimit _) = 5"
| "effect_kind (DarwinBg _) = 6"

record ledger_entry =
  le_effect :: applied_effect
  le_applied_at :: instant
  le_ttl :: duration
  le_start_sec :: u64
  le_justification :: string
  le_revert_failures :: u8

definition DEFAULT_TTL :: duration where
  "DEFAULT_TTL = duration_from_secs 600"

definition REVERT_RETRY_TTL :: duration where
  "REVERT_RETRY_TTL = duration_from_secs 30"

definition REVERT_SLOW_RETRY_TTL :: duration where
  "REVERT_SLOW_RETRY_TTL = duration_from_secs 300"

definition MAX_RECONCILE_RECEIPTS :: nat where
  "MAX_RECONCILE_RECEIPTS = 640"

text \<open>Whether this is the first failure, and the entry as it goes back into the ledger.\<close>

definition schedule_revert_retry :: "instant \<Rightarrow> ledger_entry \<Rightarrow> bool \<times> ledger_entry" where
  "schedule_revert_retry now e =
     (let failures = sat_add (le_revert_failures e) 1
      in (le_revert_failures e = 0,
          e\<lparr> le_revert_failures := failures,
             le_applied_at := now,
             le_ttl := (if failures < 3 then REVERT_RETRY_TTL else REVERT_SLOW_RETRY_TTL) \<rparr>))"

subsection \<open>Receipts\<close>

datatype reconcile_disposition = Reverted | RevertFailed | RevertNoOp

record reconcile_receipt =
  rr_effect :: applied_effect
  rr_disposition :: reconcile_disposition

fun action_key_of :: "applied_effect \<Rightarrow> string" where
  "action_key_of (Nice _ _) = ''boost:effect_reconcile''"
| "action_key_of (MachTier _) = ''interaction_qos:effect_reconcile''"
| "action_key_of (TaskQoS _) = ''interaction_qos:effect_reconcile''"
| "action_key_of (JetsamPriority _ _) = ''memorystatus:effect_reconcile''"
| "action_key_of (Memlimit _) = ''memorystatus:effect_reconcile''"
| "action_key_of (AppNap _) = ''throttle:effect_reconcile''"
| "action_key_of (DarwinBg _) = ''throttle:effect_reconcile''"

definition receipt_action_key :: "reconcile_receipt \<Rightarrow> string" where
  "receipt_action_key r = action_key_of (rr_effect r)"

record reconcile_outcome =
  ro_reverted :: u64
  ro_failed :: u64
  ro_receipts :: "reconcile_receipt list"
  ro_receipts_dropped :: u64

definition reconcile_outcome_default :: reconcile_outcome where
  "reconcile_outcome_default =
     \<lparr> ro_reverted = 0, ro_failed = 0, ro_receipts = [], ro_receipts_dropped = 0 \<rparr>"

definition push_receipt :: "reconcile_receipt \<Rightarrow> reconcile_outcome \<Rightarrow> reconcile_outcome" where
  "push_receipt r out =
     (if length (ro_receipts out) < MAX_RECONCILE_RECEIPTS
      then out\<lparr> ro_receipts := ro_receipts out @ [r] \<rparr>
      else out\<lparr> ro_receipts_dropped := sat_add (ro_receipts_dropped out) 1 \<rparr>)"

subsection \<open>The ledger\<close>

type_synonym effect_key = "u32 \<times> u8"

record effect_ledger =
  el_entries :: "(effect_key, ledger_entry) hmap"

definition effect_key_of :: "applied_effect \<Rightarrow> effect_key" where
  "effect_key_of e = (effect_pid e, effect_kind e)"

definition ledger_new :: effect_ledger where
  "ledger_new = \<lparr> el_entries = [] \<rparr>"

definition ledger_get :: "applied_effect \<Rightarrow> effect_ledger \<Rightarrow> ledger_entry option" where
  "ledger_get e l = hm_get (el_entries l) (effect_key_of e)"

definition ledger_record ::
  "instant \<Rightarrow> applied_effect \<Rightarrow> duration \<Rightarrow> u64 \<Rightarrow> string \<Rightarrow> effect_ledger \<Rightarrow> effect_ledger" where
  "ledger_record now e ttl start_sec why l =
     l\<lparr> el_entries := hm_insert (effect_key_of e)
          \<lparr> le_effect = e, le_applied_at = now, le_ttl = ttl, le_start_sec = start_sec,
            le_justification = why, le_revert_failures = 0 \<rparr> (el_entries l) \<rparr>"

definition ledger_forget :: "applied_effect \<Rightarrow> effect_ledger \<Rightarrow> effect_ledger" where
  "ledger_forget e l = l\<lparr> el_entries := hm_remove (effect_key_of e) (el_entries l) \<rparr>"

definition is_owned_by :: "applied_effect \<Rightarrow> string \<Rightarrow> effect_ledger \<Rightarrow> bool" where
  "is_owned_by e why l =
     (case ledger_get e l of Some x \<Rightarrow> le_justification x = why | None \<Rightarrow> False)"

definition forget_if_justification ::
  "applied_effect \<Rightarrow> string \<Rightarrow> effect_ledger \<Rightarrow> bool \<times> effect_ledger" where
  "forget_if_justification e why l =
     (case ledger_get e l of
        Some x \<Rightarrow> if le_justification x = why then (True, ledger_forget e l) else (False, l)
      | None \<Rightarrow> (False, l))"

definition ledger_contains :: "applied_effect \<Rightarrow> effect_ledger \<Rightarrow> bool" where
  "ledger_contains e l = hm_contains (el_entries l) (effect_key_of e)"

definition refresh_if_justification ::
  "instant \<Rightarrow> applied_effect \<Rightarrow> duration \<Rightarrow> u64 \<Rightarrow> string \<Rightarrow> effect_ledger \<Rightarrow> bool \<times> effect_ledger" where
  "refresh_if_justification now e ttl start_sec why l =
     (case ledger_get e l of
        None \<Rightarrow> (False, l)
      | Some x \<Rightarrow>
          if le_justification x \<noteq> why \<or> le_start_sec x \<noteq> start_sec then (False, l)
          else (True, l\<lparr> el_entries := hm_insert (effect_key_of e)
                            (x\<lparr> le_applied_at := now, le_ttl := ttl \<rparr>) (el_entries l) \<rparr>))"

definition refresh_nice :: "instant \<Rightarrow> u32 \<Rightarrow> duration \<Rightarrow> effect_ledger \<Rightarrow> bool \<times> effect_ledger" where
  "refresh_nice now pid ttl l =
     (case hm_get (el_entries l) (pid, 0) of
        None \<Rightarrow> (False, l)
      | Some x \<Rightarrow> (True, l\<lparr> el_entries := hm_insert (pid, 0)
                            (x\<lparr> le_applied_at := now, le_ttl := ttl \<rparr>) (el_entries l) \<rparr>))"

definition ledger_cleanup :: "u32 list \<Rightarrow> effect_ledger \<Rightarrow> effect_ledger" where
  "ledger_cleanup live l = l\<lparr> el_entries := hm_retain (\<lambda>k _. fst k \<in> set live) (el_entries l) \<rparr>"

definition ledger_len :: "effect_ledger \<Rightarrow> nat" where
  "ledger_len l = hm_len (el_entries l)"

definition ledger_is_empty :: "effect_ledger \<Rightarrow> bool" where
  "ledger_is_empty l \<longleftrightarrow> el_entries l = []"

definition entry_expired :: "instant \<Rightarrow> u32 option \<Rightarrow> effect_key \<Rightarrow> ledger_entry \<Rightarrow> bool" where
  "entry_expired now foreground k e \<longleftrightarrow>
     Some (fst k) \<noteq> foreground \<and> now - le_applied_at e \<ge> le_ttl e"

fun remove_keys :: "effect_key list \<Rightarrow> (effect_key, ledger_entry) hmap \<Rightarrow>
    ledger_entry list \<times> (effect_key, ledger_entry) hmap" where
  "remove_keys [] m = ([], m)"
| "remove_keys (k # ks) m =
     (case hm_get m k of
        None \<Rightarrow> remove_keys ks (hm_remove k m)
      | Some e \<Rightarrow> (let (es, m') = remove_keys ks (hm_remove k m) in (e # es, m')))"

definition drain_expired ::
  "instant \<Rightarrow> u32 option \<Rightarrow> effect_ledger \<Rightarrow> ledger_entry list \<times> effect_ledger" where
  "drain_expired now foreground l =
     (let expired = map fst (filter (\<lambda>(k, e). entry_expired now foreground k e) (el_entries l));
          (es, m) = remove_keys expired (el_entries l)
      in (es, l\<lparr> el_entries := m \<rparr>))"

text \<open>The retry entries go back under their own keys, one insertion each.\<close>

definition reinsert_entry :: "ledger_entry \<Rightarrow> effect_ledger \<Rightarrow> effect_ledger" where
  "reinsert_entry e l =
     l\<lparr> el_entries := hm_insert (effect_key_of (le_effect e)) e (el_entries l) \<rparr>"

definition is_orphan_boost_signature :: "i32 \<Rightarrow> bool \<Rightarrow> bool" where
  "is_orphan_boost_signature nice hard_protected \<longleftrightarrow> nice = - 10 \<and> \<not> hard_protected"

subsection \<open>Every entry stands under the key of its own effect\<close>

definition ledger_inv :: "effect_ledger \<Rightarrow> bool" where
  "ledger_inv l \<longleftrightarrow> hm_wf (el_entries l) \<and>
     (\<forall>(k, e) \<in> set (el_entries l). k = effect_key_of (le_effect e))"

lemma effect_kind_bound: "unat (effect_kind e) < 7"
  by (cases e) simp_all

lemma effect_key_pid [simp]: "fst (effect_key_of e) = effect_pid e"
  by (simp add: effect_key_of_def)

lemma set_hm_insert: "set (hm_insert k v m) \<subseteq> insert (k, v) (set m)"
  by (auto simp: hm_insert_def hm_remove_def)

lemma set_hm_remove: "set (hm_remove k m) \<subseteq> set m"
  by (auto simp: hm_remove_def)

lemma set_hm_retain: "set (hm_retain P m) \<subseteq> set m"
  by (auto simp: hm_retain_def)

lemma ledger_inv_new: "ledger_inv ledger_new"
  by (simp add: ledger_inv_def ledger_new_def)

lemma ledger_inv_insert:
  "ledger_inv l \<Longrightarrow> k = effect_key_of (le_effect e) \<Longrightarrow>
     ledger_inv (l\<lparr> el_entries := hm_insert k e (el_entries l) \<rparr>)"
  using set_hm_insert [of k e "el_entries l"] by (fastforce simp: ledger_inv_def)

lemma ledger_inv_remove:
  "ledger_inv l \<Longrightarrow> ledger_inv (l\<lparr> el_entries := hm_remove k (el_entries l) \<rparr>)"
  using set_hm_remove [of k "el_entries l"] by (fastforce simp: ledger_inv_def)

lemma ledger_inv_retain:
  "ledger_inv l \<Longrightarrow> ledger_inv (l\<lparr> el_entries := hm_retain P (el_entries l) \<rparr>)"
  using set_hm_retain [of P "el_entries l"] by (fastforce simp: ledger_inv_def)

lemma ledger_inv_get:
  "ledger_inv l \<Longrightarrow> hm_get (el_entries l) k = Some e \<Longrightarrow> k = effect_key_of (le_effect e)"
  using hm_get_in_set [of "el_entries l" k e] by (fastforce simp: ledger_inv_def)

lemma ledger_inv_record: "ledger_inv l \<Longrightarrow> ledger_inv (ledger_record now e ttl start why l)"
  by (simp add: ledger_record_def ledger_inv_insert)

lemma ledger_inv_reinsert: "ledger_inv l \<Longrightarrow> ledger_inv (reinsert_entry e l)"
  by (simp add: reinsert_entry_def ledger_inv_insert)

lemma ledger_inv_forget: "ledger_inv l \<Longrightarrow> ledger_inv (ledger_forget e l)"
  by (simp add: ledger_forget_def ledger_inv_remove)

lemma ledger_inv_forget_if: "ledger_inv l \<Longrightarrow> ledger_inv (snd (forget_if_justification e why l))"
  by (simp add: forget_if_justification_def ledger_inv_forget split: option.splits)

lemma ledger_inv_refresh_if:
  "ledger_inv l \<Longrightarrow> ledger_inv (snd (refresh_if_justification now e ttl start why l))"
  by (auto simp: refresh_if_justification_def ledger_get_def split: option.splits
      intro!: ledger_inv_insert dest: ledger_inv_get)

lemma ledger_inv_refresh_nice: "ledger_inv l \<Longrightarrow> ledger_inv (snd (refresh_nice now pid ttl l))"
  by (auto simp: refresh_nice_def split: option.splits intro!: ledger_inv_insert dest: ledger_inv_get)

lemma ledger_inv_cleanup: "ledger_inv l \<Longrightarrow> ledger_inv (ledger_cleanup live l)"
  by (simp add: ledger_cleanup_def ledger_inv_retain)

lemmas ledger_inv_intros = ledger_inv_new ledger_inv_record ledger_inv_reinsert ledger_inv_forget
  ledger_inv_forget_if ledger_inv_refresh_if ledger_inv_refresh_nice ledger_inv_cleanup

subsection \<open>What a drain takes and what it leaves\<close>

lemma hm_remove_other: "(k, e) \<in> set m \<Longrightarrow> k' \<noteq> k \<Longrightarrow> (k, e) \<in> set (hm_remove k' m)"
  by (simp add: hm_remove_def)

lemma remove_keys_closed:
  assumes "hm_wf m" "distinct (map fst xs)" "set xs \<subseteq> set m"
  shows "remove_keys (map fst xs) m = (map snd xs, filter (\<lambda>p. fst p \<notin> fst ` set xs) m)"
  using assms
proof (induction xs arbitrary: m)
  case Nil
  show ?case by simp
next
  case (Cons x xs)
  obtain k e where x: "x = (k, e)" by (cases x)
  have "(k, e) \<in> set m" using Cons.prems x by simp
  then have get: "hm_get m k = Some e" using Cons.prems(1) by (rule hm_in_set_get [rotated])
  have "set xs \<subseteq> set (hm_remove k m)"
  proof
    fix y
    assume y: "y \<in> set xs"
    then have "fst y \<noteq> k" using Cons.prems(2) x by force
    then show "y \<in> set (hm_remove k m)" using y Cons.prems(3) by (auto simp: hm_remove_def)
  qed
  then have "remove_keys (map fst xs) (hm_remove k m) =
      (map snd xs, filter (\<lambda>p. fst p \<notin> fst ` set xs) (hm_remove k m))"
    using Cons.prems by (intro Cons.IH) auto
  then show ?case
    by (auto simp: x get hm_remove_def intro!: filter_cong)
qed

lemma drain_expired_closed:
  assumes "hm_wf (el_entries l)"
  shows "drain_expired now fg l =
    (map snd (filter (\<lambda>(k, e). entry_expired now fg k e) (el_entries l)),
     l\<lparr> el_entries := filter (\<lambda>(k, e). \<not> entry_expired now fg k e) (el_entries l) \<rparr>)"
proof -
  let ?m = "el_entries l"
  let ?xs = "filter (\<lambda>(k, e). entry_expired now fg k e) ?m"
  have "filter (\<lambda>p. fst p \<notin> fst ` set ?xs) ?m = filter (\<lambda>(k, e). \<not> entry_expired now fg k e) ?m"
  proof (rule filter_cong [OF refl])
    fix p
    assume p: "p \<in> set ?m"
    obtain k e where ke: "p = (k, e)" by (cases p)
    have same: "e' = e" if "(k, e') \<in> set ?m" for e'
      using that p ke hm_in_set_get [OF assms, of k e'] hm_in_set_get [OF assms, of k e] by simp
    show "fst p \<notin> fst ` set ?xs \<longleftrightarrow> (case p of (k, e) \<Rightarrow> \<not> entry_expired now fg k e)"
    proof (cases "entry_expired now fg k e")
      case True
      then have "(k, e) \<in> set ?xs" using p ke by simp
      then have "k \<in> fst ` set ?xs" by (metis fst_conv image_eqI)
      then show ?thesis using True ke by simp
    next
      case False
      then have "k \<notin> fst ` set ?xs" using same by auto
      then show ?thesis using False ke by simp
    qed
  qed
  moreover have "distinct (map fst ?xs)" using assms by (simp add: hm_wf_def distinct_map_filter)
  ultimately show ?thesis
    using assms by (simp add: drain_expired_def remove_keys_closed)
qed

lemma filter_not_hm_retain:
  "filter (\<lambda>(k, e). \<not> P k e) m = hm_retain (\<lambda>k e. \<not> P k e) m"
  by (simp add: hm_retain_def)

lemma ledger_inv_drain: "ledger_inv l \<Longrightarrow> ledger_inv (snd (drain_expired now fg l))"
  by (simp add: ledger_inv_def drain_expired_closed filter_not_hm_retain)
    (auto dest: set_hm_retain [THEN subsetD])

lemma drained_entry:
  assumes "ledger_inv l" "e \<in> set (fst (drain_expired now fg l))"
  shows "hm_get (el_entries l) (effect_key_of (le_effect e)) = Some e"
    and "entry_expired now fg (effect_key_of (le_effect e)) e"
proof -
  have wf: "hm_wf (el_entries l)" using assms(1) by (simp add: ledger_inv_def)
  obtain k where k: "(k, e) \<in> set (el_entries l)" "entry_expired now fg k e"
    using assms(2) wf by (auto simp: drain_expired_closed)
  moreover have "k = effect_key_of (le_effect e)" using k(1) assms(1) by (auto simp: ledger_inv_def)
  ultimately show "hm_get (el_entries l) (effect_key_of (le_effect e)) = Some e"
    and "entry_expired now fg (effect_key_of (le_effect e)) e"
    using wf by (auto dest: hm_in_set_get)
qed

lemma undrained_entry:
  assumes "hm_wf (el_entries l)"
  shows "hm_get (el_entries (snd (drain_expired now fg l))) k =
    (case hm_get (el_entries l) k of
       None \<Rightarrow> None | Some e \<Rightarrow> if entry_expired now fg k e then None else Some e)"
  using assms by (simp add: drain_expired_closed filter_not_hm_retain hm.get_retain split: option.splits)

lemma drained_distinct:
  "ledger_inv l \<Longrightarrow> distinct (map (\<lambda>e. effect_key_of (le_effect e)) (fst (drain_expired now fg l)))"
proof -
  assume inv: "ledger_inv l"
  let ?xs = "filter (\<lambda>(k, e). entry_expired now fg k e) (el_entries l)"
  have eq: "map ((\<lambda>e. effect_key_of (le_effect e)) \<circ> snd) ?xs = map fst ?xs"
    using inv by (auto simp: ledger_inv_def simp del: split_paired_All)
  have wf: "hm_wf (el_entries l)" using inv by (simp add: ledger_inv_def)
  then have "distinct (map fst ?xs)" by (simp add: hm_wf_def distinct_map_filter)
  then have "distinct (map ((\<lambda>e. effect_key_of (le_effect e)) \<circ> snd) ?xs)" unfolding eq .
  then show ?thesis using wf by (simp add: drain_expired_closed)
qed

subsection \<open>Back-off of failed reversals\<close>

fun retries :: "instant list \<Rightarrow> ledger_entry \<Rightarrow> bool list \<times> ledger_entry" where
  "retries [] e = ([], e)"
| "retries (t # ts) e =
     (let (first, e1) = schedule_revert_retry t e; (fs, e2) = retries ts e1 in (first # fs, e2))"

lemma retry_failures: "unat (le_revert_failures (snd (schedule_revert_retry t e))) =
    min (Suc (unat (le_revert_failures e))) 255"
  by (simp add: schedule_revert_retry_def Let_def unat_sat_inc)

lemma retry_fields:
  "le_effect (snd (schedule_revert_retry t e)) = le_effect e"
  "le_start_sec (snd (schedule_revert_retry t e)) = le_start_sec e"
  "le_justification (snd (schedule_revert_retry t e)) = le_justification e"
  "le_applied_at (snd (schedule_revert_retry t e)) = t"
  "fst (schedule_revert_retry t e) \<longleftrightarrow> le_revert_failures e = 0"
  by (simp_all add: schedule_revert_retry_def Let_def)

lemma retry_ttl: "le_ttl (snd (schedule_revert_retry t e)) =
    (if Suc (unat (le_revert_failures e)) < 3 then REVERT_RETRY_TTL else REVERT_SLOW_RETRY_TTL)"
proof -
  have "sat_add (le_revert_failures e) 1 < 3 \<longleftrightarrow> Suc (unat (le_revert_failures e)) < 3"
    by (auto simp: word_less_nat_alt unat_sat_inc)
  then show ?thesis by (simp add: schedule_revert_retry_def Let_def)
qed

lemma retries_snoc: "retries (ts @ [t]) e =
    (fst (retries ts e) @ [fst (schedule_revert_retry t (snd (retries ts e)))],
     snd (schedule_revert_retry t (snd (retries ts e))))"
  by (induction ts arbitrary: e) (simp_all add: case_prod_unfold Let_def)

lemma retries_state:
  assumes "le_revert_failures e = 0"
  shows "unat (le_revert_failures (snd (retries ts e))) = min (length ts) 255"
    and "fst (retries ts e) = map (\<lambda>i. i = 0) [0..<length ts]"
    and "le_effect (snd (retries ts e)) = le_effect e"
    and "le_start_sec (snd (retries ts e)) = le_start_sec e"
proof (induction ts rule: rev_induct)
  case Nil
  {
    case 1 show ?case using assms by simp
  next
    case 2 show ?case by simp
  next
    case 3 show ?case by simp
  next
    case 4 show ?case by simp
  }
next
  case (snoc t ts)
  {
    case 1
    show ?case using snoc.IH(1) by (simp add: retries_snoc retry_failures)
  next
    case 2
    have "le_revert_failures (snd (retries ts e)) = 0 \<longleftrightarrow> ts = []"
      using snoc.IH(1) by (cases ts) (auto simp: word_unat_eq_iff)
    then show ?case using snoc.IH(2) by (simp add: retries_snoc retry_fields)
  next
    case 3 show ?case using snoc.IH(3) by (simp add: retries_snoc retry_fields)
  next
    case 4 show ?case using snoc.IH(4) by (simp add: retries_snoc retry_fields)
  }
qed

text \<open>
  A reversal that keeps failing is retried for ever, twice after 30 seconds and then every
  300, on the same effect and the same process; the count of failures saturates at 255 and only
  the first failure is reported as new, however long the series is.
\<close>

theorem revert_retry_backoff:
  fixes e :: ledger_entry and ts :: "instant list" and t :: instant
  assumes "le_revert_failures e = 0"
  defines "out \<equiv> retries (ts @ [t]) e"
  shows "fst out = True # replicate (length ts) False
    \<and> le_ttl (snd out) = (if length ts < 2 then 30 else 300) * 1000000000
    \<and> le_applied_at (snd out) = t
    \<and> unat (le_revert_failures (snd out)) = min (Suc (length ts)) 255
    \<and> le_effect (snd out) = le_effect e \<and> le_start_sec (snd out) = le_start_sec e"
proof (intro conjI)
  have "map (\<lambda>i. i = (0::nat)) [0..<Suc n] = True # replicate n False" for n
    by (rule nth_equalityI) (auto simp: nth_Cons simp del: upt_Suc split: nat.splits)
  then show "fst out = True # replicate (length ts) False"
    using retries_state(2) [OF assms(1), of "ts @ [t]"] by (simp add: out_def del: upt_Suc)
  show "le_ttl (snd out) = (if length ts < 2 then 30 else 300) * 1000000000"
    using retries_state(1) [OF assms(1), of ts]
    by (auto simp: out_def retries_snoc retry_ttl REVERT_RETRY_TTL_def REVERT_SLOW_RETRY_TTL_def
        duration_from_secs_def)
  show "le_applied_at (snd out) = t" by (simp add: out_def retries_snoc retry_fields)
qed (use retries_state [OF assms(1), of "ts @ [t]"] in \<open>simp_all add: out_def\<close>)

definition example_entry :: ledger_entry where
  "example_entry = \<lparr> le_effect = Nice 42 0, le_applied_at = 0, le_ttl = DEFAULT_TTL,
     le_start_sec = 7, le_justification = ''boost'', le_revert_failures = 0 \<rparr>"

lemma revert_retry_backoff_witness:
  "le_ttl (snd (retries [1, 2, 3] example_entry)) = 300 * 1000000000"
  using revert_retry_backoff [of example_entry "[1, 2]" 3] by (simp add: example_entry_def)

subsection \<open>Owners and time to live\<close>

text \<open>
  Only the producer that recorded an effect can refresh it or forget it, and a refresh also
  needs the recorded process: any other request answers false and leaves the whole ledger as it
  was. The owner's forget removes that entry alone; the owner's refresh restarts the clock and
  keeps the captured prior value, the process and the failure count. No other key changes.
\<close>

theorem ledger_owner_guard:
  "(is_owned_by e why l \<or>
      forget_if_justification e why l = (False, l) \<and>
      refresh_if_justification now e ttl start why l = (False, l)) \<and>
   (case ledger_get e l of
      None \<Rightarrow> \<not> is_owned_by e why l
    | Some x \<Rightarrow>
        (le_start_sec x = start \<or> refresh_if_justification now e ttl start why l = (False, l)) \<and>
        (is_owned_by e why l \<longrightarrow>
           fst (forget_if_justification e why l) \<and>
           hm_get (el_entries (snd (forget_if_justification e why l))) k =
             (if k = effect_key_of e then None else hm_get (el_entries l) k)) \<and>
        (is_owned_by e why l \<and> le_start_sec x = start \<longrightarrow>
           fst (refresh_if_justification now e ttl start why l) \<and>
           hm_get (el_entries (snd (refresh_if_justification now e ttl start why l))) k =
             (if k = effect_key_of e then Some (x\<lparr> le_applied_at := now, le_ttl := ttl \<rparr>)
              else hm_get (el_entries l) k)))"
  by (auto simp: is_owned_by_def forget_if_justification_def refresh_if_justification_def
      ledger_forget_def split: option.splits)

definition example_ledger :: effect_ledger where
  "example_ledger = reinsert_entry example_entry ledger_new"

lemma example_ledger_get [simp]: "ledger_get (Nice 42 p) example_ledger = Some example_entry"
  by (simp add: ledger_get_def example_ledger_def reinsert_entry_def effect_key_of_def example_entry_def)

lemma ledger_owner_guard_witness:
  "forget_if_justification (Nice 42 0) ''other'' example_ledger = (False, example_ledger) \<and>
   fst (forget_if_justification (Nice 42 0) ''boost'' example_ledger) \<and>
   fst (refresh_if_justification 9 (Nice 42 0) 9 7 ''boost'' example_ledger)"
  using ledger_owner_guard [of "Nice 42 0" "''other''" example_ledger 9 9 7 "(0, 0)"]
    ledger_owner_guard [of "Nice 42 0" "''boost''" example_ledger 9 9 7 "(0, 0)"]
  by (simp add: is_owned_by_def) (simp add: example_entry_def)

text \<open>
  A drain takes exactly the expired entries of the other processes: an effect recorded (or
  recorded again) at \<open>t\<close> with a time to live is still there, untouched, when less than that time
  has passed or while its process is in the foreground; from the first instant at which the
  time has passed it is handed to the caller and gone from the ledger.
\<close>

theorem drain_ttl_boundary:
  fixes l :: effect_ledger and t now :: instant and ttl :: duration and start :: u64
    and e :: applied_effect and why :: string and fg :: "u32 option"
  assumes "ledger_inv l"
  defines "l1 \<equiv> ledger_record t e ttl start why l"
  defines "out \<equiv> drain_expired now fg l1"
  shows "now - t < ttl \<or> fg = Some (effect_pid e) \<longleftrightarrow> ledger_get e (snd out) = ledger_get e l1"
    and "ttl \<le> now - t \<and> fg \<noteq> Some (effect_pid e) \<longleftrightarrow>
      ledger_get e (snd out) = None \<and> (\<exists>x\<in>set (fst out). le_effect x = e \<and> le_start_sec x = start)"
proof -
  let ?x = "\<lparr> le_effect = e, le_applied_at = t, le_ttl = ttl, le_start_sec = start,
      le_justification = why, le_revert_failures = 0 \<rparr>"
  have wf: "hm_wf (el_entries l1)" using assms(1) by (simp add: l1_def ledger_record_def ledger_inv_def)
  have get: "hm_get (el_entries l1) (effect_key_of e) = Some ?x"
    by (simp add: l1_def ledger_record_def)
  have after: "ledger_get e (snd out) =
      (if entry_expired now fg (effect_key_of e) ?x then None else Some ?x)"
    using undrained_entry [OF wf] get by (simp add: out_def ledger_get_def)
  have expired: "entry_expired now fg (effect_key_of e) ?x \<longleftrightarrow>
      ttl \<le> now - t \<and> fg \<noteq> Some (effect_pid e)"
    by (auto simp: entry_expired_def)
  have taken: "?x \<in> set (fst out)" if "entry_expired now fg (effect_key_of e) ?x"
    using that hm_get_in_set [OF get] by (force simp: out_def drain_expired_closed [OF wf])
  show "now - t < ttl \<or> fg = Some (effect_pid e) \<longleftrightarrow> ledger_get e (snd out) = ledger_get e l1"
    using after expired get by (auto simp: ledger_get_def)
  show "ttl \<le> now - t \<and> fg \<noteq> Some (effect_pid e) \<longleftrightarrow>
      ledger_get e (snd out) = None \<and> (\<exists>x\<in>set (fst out). le_effect x = e \<and> le_start_sec x = start)"
    using after expired taken by (auto intro!: bexI [of _ ?x])
qed

lemma drain_ttl_boundary_witness:
  "ledger_get (AppNap 5) (snd (drain_expired 30 None (ledger_record 10 (AppNap 5) 20 1 ''nap'' ledger_new))) = None"
  using drain_ttl_boundary(2) [OF ledger_inv_new, of 20 30 10 None "AppNap 5" 1 "''nap''"] by simp

end
