(* ===== verification/Kernel_Interface.thy ===== *)
theory Kernel_Interface
  imports Apollo_Prelude
begin

text \<open>
  What the actuators ask of the operating system. The kernel is not part of the repository: it
  is a record of functions over a world \<open>'w\<close> that the definitions take as an argument. A call
  returns its code and the world after it; a read returns its answer only. The policy
  structures of \<open>task_policy_set\<close>, \<open>thread_policy_set\<close> and \<open>memorystatus_control\<close> are the
  lists of their fields, in declaration order. Nothing is assumed of these functions.
\<close>

record thread_basic_info =
  tbi_user_seconds :: i32
  tbi_user_microseconds :: i32
  tbi_system_seconds :: i32
  tbi_system_microseconds :: i32
  tbi_cpu_usage :: i32
  tbi_run_state :: i32

record 'w kernel =
  k_now :: "'w \<Rightarrow> instant"
  k_pidpath :: "u32 \<Rightarrow> 'w \<Rightarrow> int \<times> string"
  k_kill0 :: "u32 \<Rightarrow> 'w \<Rightarrow> i32"
  k_start_time :: "u32 \<Rightarrow> 'w \<Rightarrow> (u64 \<times> u64) option"
  k_task_for_pid :: "u32 \<Rightarrow> 'w \<Rightarrow> i32 \<times> u32 \<times> 'w"
  k_task_policy_set :: "u32 \<Rightarrow> i32 \<Rightarrow> i32 list \<Rightarrow> 'w \<Rightarrow> i32 \<times> 'w"
  k_port_deallocate :: "u32 \<Rightarrow> 'w \<Rightarrow> 'w"
  k_task_threads :: "u32 \<Rightarrow> 'w \<Rightarrow> i32 \<times> u32 list \<times> 'w"
  k_vm_deallocate :: "u32 list \<Rightarrow> 'w \<Rightarrow> 'w"
  k_thread_info :: "u32 \<Rightarrow> 'w \<Rightarrow> i32 \<times> thread_basic_info"
  k_thread_policy_set :: "u32 \<Rightarrow> i32 \<Rightarrow> i32 list \<Rightarrow> 'w \<Rightarrow> i32 \<times> 'w"
  k_setpriority :: "i32 \<Rightarrow> u32 \<Rightarrow> i32 \<Rightarrow> 'w \<Rightarrow> i32 \<times> 'w"
  k_memorystatus_set :: "u32 \<Rightarrow> u32 \<Rightarrow> i32 list \<Rightarrow> 'w \<Rightarrow> i32 \<times> 'w"
  k_memorystatus_get :: "u32 \<Rightarrow> u32 \<Rightarrow> 'w \<Rightarrow> i32 \<times> i32 list"
  k_errno :: "'w \<Rightarrow> i32"

text \<open>\<open>daemon_helpers::pid_start_time\<close>: zero stands for a process that cannot be read.\<close>

definition pid_start_time :: "'w kernel \<Rightarrow> u32 \<Rightarrow> 'w \<Rightarrow> u64 \<times> u64" where
  "pid_start_time K pid w = (case k_start_time K pid w of Some t \<Rightarrow> t | None \<Rightarrow> (0, 0))"


end
