(* ===== verification/Mach_Qos.thy ===== *)
theory Mach_Qos
  imports Effect_Ledger Kernel_Interface "HOL-Library.Sublist"
begin

text \<open>
  \<open>engine/mach_qos.rs\<close> as it is built for macOS: the manager that applies scheduling tiers,
  task and thread QoS, I/O tiers and App Nap, with its caches, its list of processes the
  kernel refused, and the diagnostics of thread requests. A \<open>HashSet\<close> of processes is a map
  to \<open>unit\<close>. The error texts are values of \<open>qos_error\<close> with the return code they print.
  Not here: the real-time band, affinity tags and Mach port accounting.
\<close>

type_synonym 'a hset = "('a, unit) hmap"

subsection \<open>Constants of the Mach interface\<close>

definition KERN_SUCCESS :: i32 where "KERN_SUCCESS = 0"
definition KERN_PROTECTION_FAILURE :: i32 where "KERN_PROTECTION_FAILURE = 2"
definition KERN_NO_SPACE :: i32 where "KERN_NO_SPACE = 3"
definition KERN_INVALID_ARGUMENT :: i32 where "KERN_INVALID_ARGUMENT = 4"
definition KERN_FAILURE :: i32 where "KERN_FAILURE = 5"
definition KERN_RESOURCE_SHORTAGE :: i32 where "KERN_RESOURCE_SHORTAGE = 6"
definition KERN_NO_ACCESS :: i32 where "KERN_NO_ACCESS = 8"
definition MACH_PORT_NULL :: u32 where "MACH_PORT_NULL = 0"

definition TASK_UNSPECIFIED :: i32 where "TASK_UNSPECIFIED = 0"
definition TASK_FOREGROUND_APPLICATION :: i32 where "TASK_FOREGROUND_APPLICATION = 1"
definition TASK_BACKGROUND_APPLICATION :: i32 where "TASK_BACKGROUND_APPLICATION = 2"

definition TASK_CATEGORY_POLICY :: i32 where "TASK_CATEGORY_POLICY = 1"
definition TASK_SUPPRESSION_POLICY :: i32 where "TASK_SUPPRESSION_POLICY = 3"
definition TASK_POLICY_QOS :: i32 where "TASK_POLICY_QOS = 9"
definition THREAD_LATENCY_QOS_POLICY :: i32 where "THREAD_LATENCY_QOS_POLICY = 7"
definition THREAD_THROUGHPUT_QOS_POLICY :: i32 where "THREAD_THROUGHPUT_QOS_POLICY = 5"
definition TH_STATE_WAITING :: i32 where "TH_STATE_WAITING = 3"

definition LATENCY_QOS_CLASS :: i32 where "LATENCY_QOS_CLASS = push_bit 16 0xFF"
definition THROUGHPUT_QOS_CLASS :: i32 where "THROUGHPUT_QOS_CLASS = push_bit 16 0xFE"
definition LATENCY_QOS_TIER_UNSPECIFIED :: i32 where "LATENCY_QOS_TIER_UNSPECIFIED = 0"
definition LATENCY_QOS_TIER_0 :: i32 where "LATENCY_QOS_TIER_0 = LATENCY_QOS_CLASS OR 1"
definition LATENCY_QOS_TIER_2 :: i32 where "LATENCY_QOS_TIER_2 = LATENCY_QOS_CLASS OR 3"
definition LATENCY_QOS_TIER_5 :: i32 where "LATENCY_QOS_TIER_5 = LATENCY_QOS_CLASS OR 6"
definition THROUGHPUT_QOS_TIER_UNSPECIFIED :: i32 where "THROUGHPUT_QOS_TIER_UNSPECIFIED = 0"
definition THROUGHPUT_QOS_TIER_0 :: i32 where "THROUGHPUT_QOS_TIER_0 = THROUGHPUT_QOS_CLASS OR 1"
definition THROUGHPUT_QOS_TIER_2 :: i32 where "THROUGHPUT_QOS_TIER_2 = THROUGHPUT_QOS_CLASS OR 3"
definition THROUGHPUT_QOS_TIER_5 :: i32 where "THROUGHPUT_QOS_TIER_5 = THROUGHPUT_QOS_CLASS OR 6"

lemmas mach_constants = KERN_SUCCESS_def KERN_PROTECTION_FAILURE_def KERN_NO_SPACE_def
  KERN_INVALID_ARGUMENT_def KERN_FAILURE_def KERN_RESOURCE_SHORTAGE_def KERN_NO_ACCESS_def

lemmas qos_tier_constants = LATENCY_QOS_CLASS_def THROUGHPUT_QOS_CLASS_def
  LATENCY_QOS_TIER_UNSPECIFIED_def LATENCY_QOS_TIER_0_def LATENCY_QOS_TIER_2_def LATENCY_QOS_TIER_5_def
  THROUGHPUT_QOS_TIER_UNSPECIFIED_def THROUGHPUT_QOS_TIER_0_def THROUGHPUT_QOS_TIER_2_def
  THROUGHPUT_QOS_TIER_5_def

datatype scheduling_tier = TierForeground | TierNormal | TierBackground
datatype thread_pattern = Runaway | Saturated | IoBound | PatternNormal
datatype thread_tier = ThreadInteractive | ThreadUtility | ThreadBackground
datatype latency_tier = LatencyInteractive | LatencyDefault | LatencyBackground
datatype throughput_tier = ThroughputHigh | ThroughputDefault | ThroughputLow

record thread_analysis =
  ta_hot :: "u32 list"
  ta_cold :: "u32 list"
  ta_pattern :: thread_pattern
  ta_thread_count :: nat
  ta_active_count :: nat

datatype qos_error =
  TaskForPidFailed i32 | TaskPolicySetFailed i32 | QosPolicySetFailed i32 | LeaseQosPolicySetFailed i32

record qos_outcome =
  qo_pid :: u32
  qo_tier :: scheduling_tier
  qo_success :: bool
  qo_mutated :: bool
  qo_error :: "qos_error option"

datatype qos_audit_disposition = QosApplied | QosNoOp | QosBlocked | QosFailed

subsection \<open>Diagnostics of thread requests\<close>

datatype mach_qos_stage =
  StTaskForPid | StThreadEnumeration | StThreadLatencyPolicySet | StThreadThroughputPolicySet

datatype mach_qos_failure_kind = Restricted | InvalidRequest | ResourceUnavailable | KernelError

datatype mach_qos_terminal =
    NotAttempted | PermanentlyBlocked | TaskAccessFailed | ThreadEnumerationFailed
  | ThreadListEmpty | ThreadIndexOutOfRange | PolicySetCompleted | UnsupportedPlatform

record mach_qos_diagnostics =
  mq_task_for_pid :: "i32 option"
  mq_thread_enumeration :: "i32 option"
  mq_thread_latency_policy_set :: "i32 option"
  mq_thread_throughput_policy_set :: "i32 option"
  mq_terminal :: mach_qos_terminal

definition diagnostics_default :: mach_qos_diagnostics where
  "diagnostics_default = \<lparr> mq_task_for_pid = None, mq_thread_enumeration = None,
     mq_thread_latency_policy_set = None, mq_thread_throughput_policy_set = None,
     mq_terminal = NotAttempted \<rparr>"

fun code_for :: "mach_qos_diagnostics \<Rightarrow> mach_qos_stage \<Rightarrow> i32 option" where
  "code_for d StTaskForPid = mq_task_for_pid d"
| "code_for d StThreadEnumeration = mq_thread_enumeration d"
| "code_for d StThreadLatencyPolicySet = mq_thread_latency_policy_set d"
| "code_for d StThreadThroughputPolicySet = mq_thread_throughput_policy_set d"

definition failed_stage :: "mach_qos_diagnostics \<Rightarrow> mach_qos_stage option" where
  "failed_stage d =
     List.find (\<lambda>st. case code_for d st of Some c \<Rightarrow> c \<noteq> KERN_SUCCESS | None \<Rightarrow> False)
       [StTaskForPid, StThreadEnumeration, StThreadLatencyPolicySet, StThreadThroughputPolicySet]"

definition classify_mach_failure :: "mach_qos_stage \<Rightarrow> i32 \<Rightarrow> mach_qos_failure_kind" where
  "classify_mach_failure st code =
     (if code = KERN_PROTECTION_FAILURE \<or> code = KERN_NO_ACCESS then Restricted
      else if code = KERN_FAILURE \<and> st = StTaskForPid then Restricted
      else if code = KERN_INVALID_ARGUMENT then InvalidRequest
      else if code = KERN_NO_SPACE \<or> code = KERN_RESOURCE_SHORTAGE then ResourceUnavailable
      else KernelError)"

definition failure_kind :: "mach_qos_diagnostics \<Rightarrow> mach_qos_failure_kind option" where
  "failure_kind d =
     (if mq_terminal d = PermanentlyBlocked then Some Restricted
      else if mq_terminal d = ThreadIndexOutOfRange then Some InvalidRequest
      else if mq_terminal d = ThreadListEmpty \<or> mq_terminal d = UnsupportedPlatform
          \<or> (mq_terminal d = TaskAccessFailed \<and> failed_stage d = None)
        then Some ResourceUnavailable
      else map_option (\<lambda>st. classify_mach_failure st (the (code_for d st))) (failed_stage d))"

record thread_qos_outcome =
  tq_mutated :: bool
  tq_partial :: bool
  tq_applied_policies :: u8
  tq_diagnostics :: mach_qos_diagnostics

definition from_diagnostics :: "mach_qos_diagnostics \<Rightarrow> thread_qos_outcome" where
  "from_diagnostics d =
     (let codes = List.map_filter id [mq_thread_latency_policy_set d, mq_thread_throughput_policy_set d];
          applied = (of_nat (length (filter (\<lambda>c. c = KERN_SUCCESS) codes)) :: u8)
      in \<lparr> tq_mutated = (applied > 0), tq_partial = (applied = 1), tq_applied_policies = applied,
           tq_diagnostics = d \<rparr>)"

definition legacy_success :: "thread_qos_outcome \<Rightarrow> bool" where
  "legacy_success out \<longleftrightarrow> tq_mutated out \<or> mq_terminal (tq_diagnostics out) = PermanentlyBlocked"

subsection \<open>The manager\<close>

record task_policy_lease =
  tl_pid :: u32
  tl_port :: u32

record thread_snapshot =
  ts_thread_index :: u32
  ts_user_time_us :: u64
  ts_system_time_us :: u64
  ts_cpu_usage_raw :: i32
  ts_run_state :: i32

definition CURRENT_TIER_TTL :: duration where
  "CURRENT_TIER_TTL = duration_from_secs 60"

record mach_qos_manager =
  qm_current_tier :: "(u32, scheduling_tier \<times> instant) hmap"
  qm_permanently_blocked :: "u32 hset"
  qm_permanently_blocked_since :: "(u32, instant) hmap"
  qm_prev_thread_cpu :: "(u32 \<times> u32, u64) hmap"
  qm_app_napped :: "u32 hset"
  qm_io_tier_cache :: "(u32, i32) hmap"
  qm_last_thread_qos_outcome :: "(u64 \<times> u32 \<times> u32 \<times> thread_tier \<times> thread_qos_outcome) option"
  qm_thread_qos_generation :: u64

definition qos_manager_new :: mach_qos_manager where
  "qos_manager_new = \<lparr> qm_current_tier = [], qm_permanently_blocked = [],
     qm_permanently_blocked_since = [], qm_prev_thread_cpu = [], qm_app_napped = [],
     qm_io_tier_cache = [], qm_last_thread_qos_outcome = None, qm_thread_qos_generation = 0 \<rparr>"

definition is_blocked :: "mach_qos_manager \<Rightarrow> u32 \<Rightarrow> bool" where
  "is_blocked m pid = hm_contains (qm_permanently_blocked m) pid"

definition mark_blocked :: "instant \<Rightarrow> u32 \<Rightarrow> mach_qos_manager \<Rightarrow> mach_qos_manager" where
  "mark_blocked now pid m =
     (if is_blocked m pid then m
      else m\<lparr> qm_permanently_blocked := hm_insert pid () (qm_permanently_blocked m),
              qm_permanently_blocked_since := hm_insert pid now (qm_permanently_blocked_since m) \<rparr>)"

definition is_sip_protected :: "'w kernel \<Rightarrow> u32 \<Rightarrow> 'w \<Rightarrow> bool" where
  "is_sip_protected K pid w =
     (let (ret, buf) = k_pidpath K pid w in
      if ret \<le> 0 \<or> ret > 1024 then True
      else let path = take (nat ret) buf in
        prefix ''/System/'' path \<or> prefix ''/usr/libexec/'' path \<or> prefix ''/usr/sbin/'' path
        \<or> prefix ''/usr/bin/'' path \<or> prefix ''/sbin/'' path
        \<or> prefix ''/Library/PrivilegedHelperTools/'' path \<or> prefix ''/usr/local/'' path)"

fun tier_role :: "scheduling_tier \<Rightarrow> i32" where
  "tier_role TierForeground = TASK_FOREGROUND_APPLICATION"
| "tier_role TierNormal = TASK_UNSPECIFIED"
| "tier_role TierBackground = TASK_BACKGROUND_APPLICATION"

text \<open>The second component is \<open>authority_denied\<close>.\<close>

definition apply_task_policy_if :: "'w kernel \<Rightarrow> u32 \<Rightarrow> scheduling_tier \<Rightarrow> ('w \<Rightarrow> bool \<times> 'w) \<Rightarrow>
    'w \<Rightarrow> (qos_outcome \<times> bool) \<times> 'w" where
  "apply_task_policy_if K pid tier authorized w =
     (let (kr, port, w) = k_task_for_pid K pid w in
      if kr \<noteq> KERN_SUCCESS then
        ((\<lparr> qo_pid = pid, qo_tier = tier, qo_success = False, qo_mutated = False,
            qo_error = Some (TaskForPidFailed kr) \<rparr>, False), w)
      else let (allowed, w) = authorized w in
      if \<not> allowed then
        ((\<lparr> qo_pid = pid, qo_tier = tier, qo_success = True, qo_mutated = False, qo_error = None \<rparr>,
          True), k_port_deallocate K port w)
      else let (kr2, w) = k_task_policy_set K port TASK_CATEGORY_POLICY [tier_role tier] w;
               w = k_port_deallocate K port w in
      if kr2 \<noteq> KERN_SUCCESS then
        ((\<lparr> qo_pid = pid, qo_tier = tier, qo_success = False, qo_mutated = False,
            qo_error = Some (TaskPolicySetFailed kr2) \<rparr>, False), w)
      else
        ((\<lparr> qo_pid = pid, qo_tier = tier, qo_success = True, qo_mutated = True, qo_error = None \<rparr>,
          False), w))"

definition skip_outcome :: "u32 \<Rightarrow> scheduling_tier \<Rightarrow> qos_outcome" where
  "skip_outcome pid tier =
     \<lparr> qo_pid = pid, qo_tier = tier, qo_success = True, qo_mutated = False, qo_error = None \<rparr>"

text \<open>
  What both branches of \<open>set_tier_audited_if\<close> do once the cache does not answer: apply the
  policy, then remember the tier or the refusal.
\<close>

definition apply_and_remember :: "'w kernel \<Rightarrow> u32 \<Rightarrow> scheduling_tier \<Rightarrow> ('w \<Rightarrow> bool \<times> 'w) \<Rightarrow>
    mach_qos_manager \<Rightarrow> 'w \<Rightarrow> (qos_outcome \<times> qos_audit_disposition) \<times> mach_qos_manager \<times> 'w" where
  "apply_and_remember K pid tier authorized m w =
     (let ((result, denied), w) = apply_task_policy_if K pid tier authorized w in
      if denied then ((result, QosBlocked), m, w)
      else if qo_success result then
        ((result, if qo_mutated result then QosApplied else QosNoOp),
         m\<lparr> qm_current_tier := hm_insert pid (tier, k_now K w) (qm_current_tier m) \<rparr>, w)
      else
        (let m = mark_blocked (k_now K w) pid m
         in ((result, QosFailed), m\<lparr> qm_current_tier := hm_remove pid (qm_current_tier m) \<rparr>, w)))"

definition set_tier_audited_if :: "'w kernel \<Rightarrow> u32 \<Rightarrow> scheduling_tier \<Rightarrow> ('w \<Rightarrow> bool \<times> 'w) \<Rightarrow>
    mach_qos_manager \<Rightarrow> 'w \<Rightarrow> (qos_outcome \<times> qos_audit_disposition) \<times> mach_qos_manager \<times> 'w" where
  "set_tier_audited_if K pid tier authorized m w =
     (if is_blocked m pid then ((skip_outcome pid tier, QosBlocked), m, w)
      else case hm_get (qm_current_tier m) pid of
        Some (cached, stamped_at) \<Rightarrow>
          if cached = tier \<and> k_now K w - stamped_at < CURRENT_TIER_TTL
          then ((skip_outcome pid tier, QosNoOp), m, w)
          else apply_and_remember K pid tier authorized m w
      | None \<Rightarrow>
          if is_sip_protected K pid w
          then ((skip_outcome pid tier, QosBlocked), mark_blocked (k_now K w) pid m, w)
          else apply_and_remember K pid tier authorized m w)"

definition set_tier_audited :: "'w kernel \<Rightarrow> u32 \<Rightarrow> scheduling_tier \<Rightarrow>
    mach_qos_manager \<Rightarrow> 'w \<Rightarrow> (qos_outcome \<times> qos_audit_disposition) \<times> mach_qos_manager \<times> 'w" where
  "set_tier_audited K pid tier m w = set_tier_audited_if K pid tier (\<lambda>w. (True, w)) m w"

definition set_tier :: "'w kernel \<Rightarrow> u32 \<Rightarrow> scheduling_tier \<Rightarrow> mach_qos_manager \<Rightarrow> 'w \<Rightarrow>
    qos_outcome \<times> mach_qos_manager \<times> 'w" where
  "set_tier K pid tier m w =
     (let ((out, disp), m, w) = set_tier_audited K pid tier m w
      in (if disp = QosFailed
          then out\<lparr> qo_success := True, qo_mutated := False, qo_error := None \<rparr> else out, m, w))"

definition current_tier :: "mach_qos_manager \<Rightarrow> u32 \<Rightarrow> scheduling_tier option" where
  "current_tier m pid = map_option fst (hm_get (qm_current_tier m) pid)"

definition current_tier_keys :: "mach_qos_manager \<Rightarrow> (u32 \<times> scheduling_tier) list" where
  "current_tier_keys m = map (\<lambda>(k, (t, _)). (k, t)) (qm_current_tier m)"

definition qos_remove :: "u32 \<Rightarrow> mach_qos_manager \<Rightarrow> mach_qos_manager" where
  "qos_remove pid m = m\<lparr> qm_current_tier := hm_remove pid (qm_current_tier m) \<rparr>"

definition app_napped_pids :: "mach_qos_manager \<Rightarrow> u32 list" where
  "app_napped_pids m = map fst (qm_app_napped m)"

definition is_app_napped :: "mach_qos_manager \<Rightarrow> u32 \<Rightarrow> bool" where
  "is_app_napped m pid = hm_contains (qm_app_napped m) pid"

definition background_count :: "mach_qos_manager \<Rightarrow> nat" where
  "background_count m = length (filter (\<lambda>(_, (t, _)). t = TierBackground) (qm_current_tier m))"

fun apply_batch :: "'w kernel \<Rightarrow> (u32 \<times> scheduling_tier) list \<Rightarrow> mach_qos_manager \<Rightarrow> 'w \<Rightarrow>
    qos_outcome list \<times> mach_qos_manager \<times> 'w" where
  "apply_batch K [] m w = ([], m, w)"
| "apply_batch K ((pid, tier) # cs) m w =
     (let (out, m, w) = set_tier K pid tier m w;
          (outs, m, w) = apply_batch K cs m w
      in (out # outs, m, w))"

definition PERM_BLOCK_TTL :: duration where
  "PERM_BLOCK_TTL = duration_from_secs 60"

definition gc_dead_pids :: "'w kernel \<Rightarrow> 'w \<Rightarrow> mach_qos_manager \<Rightarrow> mach_qos_manager" where
  "gc_dead_pids K w m =
     (let now = k_now K w;
          alive = (\<lambda>pid. k_kill0 K pid w = 0);
          blocked = hm_retain (\<lambda>pid _. alive pid \<and>
             (case hm_get (qm_permanently_blocked_since m) pid of
                Some t \<Rightarrow> now - t < PERM_BLOCK_TTL
              | None \<Rightarrow> False)) (qm_permanently_blocked m)
      in m\<lparr> qm_permanently_blocked := blocked,
            qm_permanently_blocked_since :=
              hm_retain (\<lambda>pid _. hm_contains blocked pid) (qm_permanently_blocked_since m),
            qm_current_tier := hm_retain (\<lambda>pid _. alive pid) (qm_current_tier m),
            qm_prev_thread_cpu := hm_retain (\<lambda>k _. alive (fst k)) (qm_prev_thread_cpu m),
            qm_app_napped := hm_retain (\<lambda>pid _. alive pid) (qm_app_napped m),
            qm_io_tier_cache := hm_retain (\<lambda>pid _. alive pid) (qm_io_tier_cache m) \<rparr>)"

subsection \<open>Task QoS, I/O tiers and App Nap\<close>

fun latency_code :: "latency_tier \<Rightarrow> i32" where
  "latency_code LatencyInteractive = LATENCY_QOS_TIER_0"
| "latency_code LatencyDefault = LATENCY_QOS_TIER_UNSPECIFIED"
| "latency_code LatencyBackground = LATENCY_QOS_TIER_5"

fun throughput_code :: "throughput_tier \<Rightarrow> i32" where
  "throughput_code ThroughputHigh = THROUGHPUT_QOS_TIER_0"
| "throughput_code ThroughputDefault = THROUGHPUT_QOS_TIER_UNSPECIFIED"
| "throughput_code ThroughputLow = THROUGHPUT_QOS_TIER_5"

definition acquire_task_policy_lease :: "'w kernel \<Rightarrow> u32 \<Rightarrow> mach_qos_manager \<Rightarrow> 'w \<Rightarrow>
    task_policy_lease option \<times> mach_qos_manager \<times> 'w" where
  "acquire_task_policy_lease K pid m w =
     (if is_blocked m pid \<or> is_sip_protected K pid w then (None, mark_blocked (k_now K w) pid m, w)
      else let (kr, port, w) = k_task_for_pid K pid w in
        if kr \<noteq> KERN_SUCCESS \<or> port = MACH_PORT_NULL then (None, mark_blocked (k_now K w) pid m, w)
        else (Some \<lparr> tl_pid = pid, tl_port = port \<rparr>, m, w))"

definition drop_lease :: "'w kernel \<Rightarrow> task_policy_lease \<Rightarrow> 'w \<Rightarrow> 'w" where
  "drop_lease K lease w =
     (if tl_port lease \<noteq> MACH_PORT_NULL then k_port_deallocate K (tl_port lease) w else w)"

definition set_latency_and_throughput_with_lease :: "'w kernel \<Rightarrow> task_policy_lease \<Rightarrow>
    latency_tier \<Rightarrow> throughput_tier \<Rightarrow> 'w \<Rightarrow> qos_outcome \<times> 'w" where
  "set_latency_and_throughput_with_lease K lease latency throughput w =
     (let (kr, w) = k_task_policy_set K (tl_port lease) TASK_POLICY_QOS
                      [latency_code latency, throughput_code throughput] w in
      if kr = KERN_SUCCESS then
        (\<lparr> qo_pid = tl_pid lease, qo_tier = TierNormal, qo_success = True, qo_mutated = True,
           qo_error = None \<rparr>, w)
      else
        (\<lparr> qo_pid = tl_pid lease, qo_tier = TierNormal, qo_success = False, qo_mutated = False,
           qo_error = Some (LeaseQosPolicySetFailed kr) \<rparr>, w))"

definition apply_qos_tier :: "'w kernel \<Rightarrow> u32 \<Rightarrow> latency_tier \<Rightarrow> throughput_tier \<Rightarrow>
    mach_qos_manager \<Rightarrow> 'w \<Rightarrow> qos_outcome \<times> mach_qos_manager \<times> 'w" where
  "apply_qos_tier K pid latency throughput m w =
     (if is_blocked m pid \<or> is_sip_protected K pid w
      then (skip_outcome pid TierNormal, mark_blocked (k_now K w) pid m, w)
      else let (kr, port, w) = k_task_for_pid K pid w in
        if kr \<noteq> KERN_SUCCESS
        then (skip_outcome pid TierNormal, mark_blocked (k_now K w) pid m, w)
        else let (kr2, w) = k_task_policy_set K port TASK_POLICY_QOS
                              [latency_code latency, throughput_code throughput] w;
                 w = k_port_deallocate K port w in
          if kr2 \<noteq> KERN_SUCCESS
          then (\<lparr> qo_pid = pid, qo_tier = TierNormal, qo_success = False, qo_mutated = False,
                  qo_error = Some (QosPolicySetFailed kr2) \<rparr>, m, w)
          else (\<lparr> qo_pid = pid, qo_tier = TierNormal, qo_success = True, qo_mutated = True,
                  qo_error = None \<rparr>, m, w))"

definition set_latency_qos :: "'w kernel \<Rightarrow> u32 \<Rightarrow> latency_tier \<Rightarrow> mach_qos_manager \<Rightarrow> 'w \<Rightarrow>
    qos_outcome \<times> mach_qos_manager \<times> 'w" where
  "set_latency_qos K pid tier = apply_qos_tier K pid tier ThroughputDefault"

definition set_throughput_qos :: "'w kernel \<Rightarrow> u32 \<Rightarrow> throughput_tier \<Rightarrow> mach_qos_manager \<Rightarrow> 'w \<Rightarrow>
    qos_outcome \<times> mach_qos_manager \<times> 'w" where
  "set_throughput_qos K pid tier = apply_qos_tier K pid LatencyDefault tier"

definition set_latency_and_throughput :: "'w kernel \<Rightarrow> u32 \<Rightarrow> latency_tier \<Rightarrow> throughput_tier \<Rightarrow>
    mach_qos_manager \<Rightarrow> 'w \<Rightarrow> qos_outcome \<times> mach_qos_manager \<times> 'w" where
  "set_latency_and_throughput = apply_qos_tier"

definition io_tier_role :: "i32 \<Rightarrow> i32" where
  "io_tier_role t = (if t = 0 then TASK_FOREGROUND_APPLICATION
     else if t = 1 \<or> t = 2 then TASK_UNSPECIFIED else TASK_BACKGROUND_APPLICATION)"

definition set_io_tier :: "'w kernel \<Rightarrow> u32 \<Rightarrow> i32 \<Rightarrow> mach_qos_manager \<Rightarrow> 'w \<Rightarrow>
    bool \<times> mach_qos_manager \<times> 'w" where
  "set_io_tier K pid io_tier m w =
     (if is_blocked m pid \<or> is_sip_protected K pid w then (False, mark_blocked (k_now K w) pid m, w)
      else if hm_get (qm_io_tier_cache m) pid = Some io_tier then (True, m, w)
      else let (kr, port, w) = k_task_for_pid K pid w in
        if kr \<noteq> KERN_SUCCESS then (False, mark_blocked (k_now K w) pid m, w)
        else let (kr2, w) = k_task_policy_set K port TASK_CATEGORY_POLICY [io_tier_role io_tier] w;
                 w = k_port_deallocate K port w in
          if kr2 = KERN_SUCCESS
          then (True, m\<lparr> qm_io_tier_cache := hm_insert pid io_tier (qm_io_tier_cache m) \<rparr>, w)
          else (False, m, w))"

definition suppression_policy :: "bool \<Rightarrow> i32 list" where
  "suppression_policy suppressed =
     (if suppressed then [1, 1, LATENCY_QOS_TIER_5, 1, 0, 0, THROUGHPUT_QOS_TIER_5, 1, 1]
      else [0, 0, LATENCY_QOS_TIER_UNSPECIFIED, 0, 0, 0, THROUGHPUT_QOS_TIER_UNSPECIFIED, 0, 0])"

definition APP_NAP_OWNER :: string where
  "APP_NAP_OWNER = ''wake-storm/llm: app-nap suppression''"

definition set_app_nap :: "'w kernel \<Rightarrow> u32 \<Rightarrow> bool \<Rightarrow> mach_qos_manager \<Rightarrow> effect_ledger \<Rightarrow> 'w \<Rightarrow>
    bool \<times> mach_qos_manager \<times> effect_ledger \<times> 'w" where
  "set_app_nap K pid suppressed m l w =
     (if is_blocked m pid \<or> is_sip_protected K pid w
      then (False, mark_blocked (k_now K w) pid m, l, w)
      else if suppressed = is_app_napped m pid then (True, m, l, w)
      else let (kr, port, w) = k_task_for_pid K pid w in
        if kr \<noteq> KERN_SUCCESS then (False, mark_blocked (k_now K w) pid m, l, w)
        else let (kr2, w) = k_task_policy_set K port TASK_SUPPRESSION_POLICY
                              (suppression_policy suppressed) w;
                 w = k_port_deallocate K port w in
          if kr2 \<noteq> KERN_SUCCESS then (False, m, l, w)
          else if suppressed
            then (True, m\<lparr> qm_app_napped := hm_insert pid () (qm_app_napped m) \<rparr>,
                  ledger_record (k_now K w) (AppNap pid) DEFAULT_TTL (fst (pid_start_time K pid w))
                    APP_NAP_OWNER l, w)
            else (True, m\<lparr> qm_app_napped := hm_remove pid (qm_app_napped m) \<rparr>,
                  ledger_forget (AppNap pid) l, w))"

fun release_app_naps :: "'w kernel \<Rightarrow> u32 list \<Rightarrow> mach_qos_manager \<Rightarrow> effect_ledger \<Rightarrow> 'w \<Rightarrow>
    mach_qos_manager \<times> effect_ledger \<times> 'w" where
  "release_app_naps K [] m l w = (m, l, w)"
| "release_app_naps K (pid # pids) m l w =
     (let (_, m, l, w) = set_app_nap K pid False m l w in release_app_naps K pids m l w)"

definition release_all_app_nap :: "'w kernel \<Rightarrow> mach_qos_manager \<Rightarrow> effect_ledger \<Rightarrow> 'w \<Rightarrow>
    mach_qos_manager \<times> effect_ledger \<times> 'w" where
  "release_all_app_nap K m l w = release_app_naps K (app_napped_pids m) m l w"

subsection \<open>Threads\<close>

definition thread_time_us :: "i32 \<Rightarrow> i32 \<Rightarrow> u64" where
  "thread_time_us s us = word_of_int s * 1000000 + word_of_int us"

fun snapshot_threads :: "'w kernel \<Rightarrow> u32 \<Rightarrow> u32 list \<Rightarrow> 'w \<Rightarrow> thread_snapshot list \<times> 'w" where
  "snapshot_threads K i [] w = ([], w)"
| "snapshot_threads K i (port # ports) w =
     (let (kr, info) = k_thread_info K port w;
          w = k_port_deallocate K port w;
          (rest, w) = snapshot_threads K (i + 1) ports w
      in ((if kr = KERN_SUCCESS
           then [\<lparr> ts_thread_index = i,
                   ts_user_time_us = thread_time_us (tbi_user_seconds info) (tbi_user_microseconds info),
                   ts_system_time_us = thread_time_us (tbi_system_seconds info) (tbi_system_microseconds info),
                   ts_cpu_usage_raw = tbi_cpu_usage info, ts_run_state = tbi_run_state info \<rparr>]
           else []) @ rest, w))"

definition enumerate_threads :: "'w kernel \<Rightarrow> u32 \<Rightarrow> mach_qos_manager \<Rightarrow> 'w \<Rightarrow>
    thread_snapshot list option \<times> 'w" where
  "enumerate_threads K pid m w =
     (if is_blocked m pid then (None, w)
      else let (kr, port, w) = k_task_for_pid K pid w in
        if kr \<noteq> KERN_SUCCESS then (None, w)
        else let (kr2, threads, w) = k_task_threads K port w;
                 w = k_port_deallocate K port w in
          if kr2 \<noteq> KERN_SUCCESS \<or> threads = [] then (None, w)
          else let (snaps, w) = snapshot_threads K 0 threads w
            in (Some snaps, k_vm_deallocate K threads w))"

definition analyze_thread :: "u32 \<Rightarrow> thread_snapshot \<Rightarrow>
    u32 list \<times> u32 list \<times> nat \<times> (u32 \<times> u32, u64) hmap \<Rightarrow>
    u32 list \<times> u32 list \<times> nat \<times> (u32 \<times> u32, u64) hmap" where
  "analyze_thread pid t acc =
     (let (hot, cold, active, prev) = acc;
          key = (pid, ts_thread_index t);
          total_cpu = ts_user_time_us t + ts_system_time_us t;
          is_waiting = (ts_run_state t = TH_STATE_WAITING);
          active = (if is_waiting then active else active + 1);
          (hot, cold) =
            (case hm_get prev key of
               None \<Rightarrow> (hot, cold)
             | Some prev_cpu \<Rightarrow>
                 (let delta = sat_sub total_cpu prev_cpu in
                  if delta > 50000 \<or> ts_cpu_usage_raw t > 50 then (hot @ [ts_thread_index t], cold)
                  else if is_waiting \<and> ts_cpu_usage_raw t < 5 then (hot, cold @ [ts_thread_index t])
                  else (hot, cold)))
      in (hot, cold, active, hm_insert key total_cpu prev))"

definition thread_pattern_of :: "thread_snapshot list \<Rightarrow> nat \<Rightarrow> nat \<Rightarrow> thread_pattern" where
  "thread_pattern_of threads hot cold =
     (let n = length threads in
      if n < 2 then PatternNormal
      else let very_hot = length (filter (\<lambda>t. ts_cpu_usage_raw t > 800) threads);
               waiting = length (filter (\<lambda>t. ts_run_state t = TH_STATE_WAITING) threads)
        in if very_hot = 1 \<and> waiting * 4 \<ge> n * 3 then Runaway
           else if hot * 4 \<ge> n * 3 then Saturated
           else if cold * 5 \<ge> n * 4 then IoBound
           else PatternNormal)"

definition analyze_threads :: "u32 \<Rightarrow> thread_snapshot list \<Rightarrow> mach_qos_manager \<Rightarrow>
    thread_analysis \<times> mach_qos_manager" where
  "analyze_threads pid threads m =
     (let (hot, cold, active, prev) =
            fold (analyze_thread pid) threads ([], [], 0, qm_prev_thread_cpu m)
      in (\<lparr> ta_hot = hot, ta_cold = cold,
            ta_pattern = thread_pattern_of threads (length hot) (length cold),
            ta_thread_count = length threads, ta_active_count = active \<rparr>,
          m\<lparr> qm_prev_thread_cpu := prev \<rparr>))"

definition classify_threads :: "u32 \<Rightarrow> thread_snapshot list \<Rightarrow> mach_qos_manager \<Rightarrow>
    (u32 list \<times> u32 list) \<times> mach_qos_manager" where
  "classify_threads pid threads m =
     (let (a, m) = analyze_threads pid threads m in ((ta_hot a, ta_cold a), m))"

text \<open>\<open>release_thread_list\<close>: every thread port, then the list; nothing for an empty list.\<close>

definition release_thread_list :: "'w kernel \<Rightarrow> u32 list \<Rightarrow> 'w \<Rightarrow> 'w" where
  "release_thread_list K threads w =
     (if threads = [] then w else k_vm_deallocate K threads (fold (k_port_deallocate K) threads w))"

fun thread_latency_code :: "thread_tier \<Rightarrow> i32" where
  "thread_latency_code ThreadInteractive = LATENCY_QOS_TIER_0"
| "thread_latency_code ThreadUtility = LATENCY_QOS_TIER_2"
| "thread_latency_code ThreadBackground = LATENCY_QOS_TIER_5"

fun thread_throughput_code :: "thread_tier \<Rightarrow> i32" where
  "thread_throughput_code ThreadInteractive = THROUGHPUT_QOS_TIER_0"
| "thread_throughput_code ThreadUtility = THROUGHPUT_QOS_TIER_2"
| "thread_throughput_code ThreadBackground = THROUGHPUT_QOS_TIER_5"

definition apply_thread_qos_audited :: "'w kernel \<Rightarrow> u32 \<Rightarrow> u32 \<Rightarrow> thread_tier \<Rightarrow>
    mach_qos_manager \<Rightarrow> 'w \<Rightarrow> thread_qos_outcome \<times> 'w" where
  "apply_thread_qos_audited K pid idx tier m w =
     (let d = diagnostics_default in
      if is_blocked m pid then (from_diagnostics (d\<lparr> mq_terminal := PermanentlyBlocked \<rparr>), w)
      else let (task_kr, port, w) = k_task_for_pid K pid w in
        if task_kr \<noteq> KERN_SUCCESS \<or> port = MACH_PORT_NULL then
          (from_diagnostics (d\<lparr> mq_task_for_pid := Some task_kr, mq_terminal := TaskAccessFailed \<rparr>),
           if port \<noteq> MACH_PORT_NULL then k_port_deallocate K port w else w)
        else let (threads_kr, threads, w) = k_task_threads K port w;
                 w = k_port_deallocate K port w;
                 d = d\<lparr> mq_task_for_pid := Some task_kr, mq_thread_enumeration := Some threads_kr \<rparr> in
          if threads_kr \<noteq> KERN_SUCCESS then
            (from_diagnostics (d\<lparr> mq_terminal := ThreadEnumerationFailed \<rparr>), release_thread_list K threads w)
          else if threads = [] then
            (from_diagnostics (d\<lparr> mq_terminal := ThreadListEmpty \<rparr>), release_thread_list K threads w)
          else if unat idx \<ge> length threads then
            (from_diagnostics (d\<lparr> mq_terminal := ThreadIndexOutOfRange \<rparr>), release_thread_list K threads w)
          else let target = threads ! unat idx;
                   (latency_kr, w) = k_thread_policy_set K target THREAD_LATENCY_QOS_POLICY
                                       [thread_latency_code tier] w;
                   (throughput_kr, w) = k_thread_policy_set K target THREAD_THROUGHPUT_QOS_POLICY
                                       [thread_throughput_code tier] w;
                   w = release_thread_list K threads w
            in (from_diagnostics (d\<lparr> mq_thread_latency_policy_set := Some latency_kr,
                  mq_thread_throughput_policy_set := Some throughput_kr,
                  mq_terminal := PolicySetCompleted \<rparr>), w))"

definition set_thread_qos_audited :: "'w kernel \<Rightarrow> u32 \<Rightarrow> u32 \<Rightarrow> thread_tier \<Rightarrow>
    mach_qos_manager \<Rightarrow> 'w \<Rightarrow> thread_qos_outcome \<times> mach_qos_manager \<times> 'w" where
  "set_thread_qos_audited K pid idx tier m w =
     (let (out, w) = apply_thread_qos_audited K pid idx tier m w;
          generation = qm_thread_qos_generation m + 1
      in (out, m\<lparr> qm_thread_qos_generation := generation,
                 qm_last_thread_qos_outcome := Some (generation, pid, idx, tier, out) \<rparr>, w))"

definition set_thread_qos :: "'w kernel \<Rightarrow> u32 \<Rightarrow> u32 \<Rightarrow> thread_tier \<Rightarrow>
    mach_qos_manager \<Rightarrow> 'w \<Rightarrow> bool \<times> mach_qos_manager \<times> 'w" where
  "set_thread_qos K pid idx tier m w =
     (let (out, m, w) = set_thread_qos_audited K pid idx tier m w in (legacy_success out, m, w))"

definition thread_qos_outcome_for :: "u64 \<Rightarrow> u32 \<Rightarrow> u32 \<Rightarrow> thread_tier \<Rightarrow>
    mach_qos_manager \<Rightarrow> thread_qos_outcome option" where
  "thread_qos_outcome_for generation pid idx tier m =
     (case qm_last_thread_qos_outcome m of
        None \<Rightarrow> None
      | Some (g, p, i, t, out) \<Rightarrow>
          if g = generation \<and> p = pid \<and> i = idx \<and> t = tier then Some out else None)"

subsection \<open>Representation\<close>

definition qos_inv :: "mach_qos_manager \<Rightarrow> bool" where
  "qos_inv m \<longleftrightarrow> hm_wf (qm_current_tier m) \<and> hm_wf (qm_permanently_blocked m)
     \<and> hm_wf (qm_permanently_blocked_since m) \<and> hm_wf (qm_prev_thread_cpu m)
     \<and> hm_wf (qm_app_napped m) \<and> hm_wf (qm_io_tier_cache m)
     \<and> hm_keys (qm_permanently_blocked m) = hm_keys (qm_permanently_blocked_since m)"

lemma hm_contains_keys: "hm_contains m k \<longleftrightarrow> k \<in> hm_keys m"
  by (simp add: hm_contains_def hm.keys_get)

lemma hm_contains_insert [simp]: "hm_contains (hm_insert k v m) k' \<longleftrightarrow> k' = k \<or> hm_contains m k'"
  by (simp add: hm_contains_def)

lemma hm_contains_remove [simp]: "hm_contains (hm_remove k m) k' \<longleftrightarrow> k' \<noteq> k \<and> hm_contains m k'"
  by (simp add: hm_contains_def)

lemma hm_contains_nil [simp]: "\<not> hm_contains [] k"
  by (simp add: hm_contains_def)

lemma hm_keys_nil [simp]: "hm_keys [] = {}"
  by (simp add: hm_keys_def)

lemma qos_inv_new: "qos_inv qos_manager_new"
  by (simp add: qos_inv_def qos_manager_new_def)

lemma qos_inv_mark: "qos_inv m \<Longrightarrow> qos_inv (mark_blocked now pid m)"
  by (auto simp: qos_inv_def mark_blocked_def)

lemma qos_inv_simps [simp]:
  "qos_inv m \<Longrightarrow> hm_wf (qm_current_tier m)"
  "qos_inv m \<Longrightarrow> hm_wf tiers \<Longrightarrow> qos_inv (m\<lparr> qm_current_tier := tiers \<rparr>)"
  "qos_inv m \<Longrightarrow> qos_inv (m\<lparr> qm_app_napped := hm_insert pid () (qm_app_napped m) \<rparr>)"
  "qos_inv m \<Longrightarrow> qos_inv (m\<lparr> qm_app_napped := hm_remove pid (qm_app_napped m) \<rparr>)"
  "qos_inv m \<Longrightarrow> qos_inv (m\<lparr> qm_io_tier_cache := hm_insert pid t (qm_io_tier_cache m) \<rparr>)"
  "qos_inv m \<Longrightarrow> qos_inv (m\<lparr> qm_thread_qos_generation := g, qm_last_thread_qos_outcome := x \<rparr>)"
  "qos_inv m \<Longrightarrow> hm_wf prev \<Longrightarrow> qos_inv (m\<lparr> qm_prev_thread_cpu := prev \<rparr>)"
  by (simp_all add: qos_inv_def)

lemma blocked_mark [simp]: "is_blocked (mark_blocked now pid m) p \<longleftrightarrow> p = pid \<or> is_blocked m p"
  by (auto simp: is_blocked_def mark_blocked_def)

lemma mark_blocked_fields [simp]:
  "qm_current_tier (mark_blocked now pid m) = qm_current_tier m"
  "qm_app_napped (mark_blocked now pid m) = qm_app_napped m"
  "qm_io_tier_cache (mark_blocked now pid m) = qm_io_tier_cache m"
  by (simp_all add: mark_blocked_def)

lemma mark_blocked_again [simp]: "is_blocked m pid \<Longrightarrow> mark_blocked now pid m = m"
  by (simp add: mark_blocked_def)

lemma apply_and_remember_inv:
  "qos_inv m \<Longrightarrow> qos_inv (fst (snd (apply_and_remember K pid tier auth m w)))"
  by (simp add: apply_and_remember_def Let_def case_prod_unfold qos_inv_mark)

lemma set_tier_if_inv:
  "qos_inv m \<Longrightarrow> qos_inv (fst (snd (set_tier_audited_if K pid tier auth m w)))"
  by (simp add: set_tier_audited_if_def apply_and_remember_inv qos_inv_mark split: option.split)

lemma set_tier_inv: "qos_inv m \<Longrightarrow> qos_inv (fst (snd (set_tier K pid tier m w)))"
  by (simp add: set_tier_def set_tier_audited_def case_prod_unfold Let_def set_tier_if_inv)

lemma apply_qos_tier_inv: "qos_inv m \<Longrightarrow> qos_inv (fst (snd (apply_qos_tier K pid lat thr m w)))"
  by (simp add: apply_qos_tier_def case_prod_unfold Let_def qos_inv_mark)

lemma set_io_tier_inv: "qos_inv m \<Longrightarrow> qos_inv (fst (snd (set_io_tier K pid t m w)))"
  by (simp add: set_io_tier_def case_prod_unfold Let_def qos_inv_mark)

lemma set_app_nap_inv:
  assumes "qos_inv m" and "ledger_inv l"
  shows "qos_inv (fst (snd (set_app_nap K pid b m l w)))"
    and "ledger_inv (fst (snd (snd (set_app_nap K pid b m l w))))"
  using assms
  by (simp_all add: set_app_nap_def case_prod_unfold Let_def qos_inv_mark ledger_inv_intros)

lemma release_app_naps_inv:
  assumes "qos_inv m" and "ledger_inv l"
  shows "qos_inv (fst (release_app_naps K pids m l w)) \<and>
    ledger_inv (fst (snd (release_app_naps K pids m l w)))"
  using assms
  by (induction pids arbitrary: m l w) (simp_all add: case_prod_unfold Let_def set_app_nap_inv)

lemma acquire_lease_inv: "qos_inv m \<Longrightarrow> qos_inv (fst (snd (acquire_task_policy_lease K pid m w)))"
  by (simp add: acquire_task_policy_lease_def case_prod_unfold Let_def qos_inv_mark)

lemma gc_inv: "qos_inv m \<Longrightarrow> qos_inv (gc_dead_pids K w m)"
  by (auto simp: qos_inv_def gc_dead_pids_def Let_def hm.keys_get hm.get_retain hm_contains_def
      split: option.splits if_splits)

lemma analyze_fold_wf:
  "hm_wf (snd (snd (snd acc))) \<Longrightarrow> hm_wf (snd (snd (snd (fold (analyze_thread pid) ts acc))))"
  by (induction ts arbitrary: acc) (simp_all add: analyze_thread_def case_prod_unfold Let_def)

lemma analyze_inv: "qos_inv m \<Longrightarrow> qos_inv (snd (analyze_threads pid ts m))"
  using analyze_fold_wf [of "([], [], 0, qm_prev_thread_cpu m)" pid ts]
  by (simp add: analyze_threads_def case_prod_unfold Let_def qos_inv_def)

lemma set_thread_qos_inv:
  "qos_inv m \<Longrightarrow> qos_inv (fst (snd (set_thread_qos_audited K pid i t m w)))"
  by (simp add: set_thread_qos_audited_def case_prod_unfold Let_def)

lemmas qos_inv_intros = qos_inv_new set_tier_if_inv set_tier_inv apply_qos_tier_inv set_io_tier_inv
  set_app_nap_inv acquire_lease_inv gc_inv analyze_inv set_thread_qos_inv

subsection \<open>Receipts of tier requests\<close>

lemma apply_task_policy_cases:
  obtains (applied) "fst (apply_task_policy_if K pid tier auth w) =
      (\<lparr> qo_pid = pid, qo_tier = tier, qo_success = True, qo_mutated = True, qo_error = None \<rparr>, False)"
  | (denied) "fst (apply_task_policy_if K pid tier auth w) = (skip_outcome pid tier, True)"
  | (failed) e where "fst (apply_task_policy_if K pid tier auth w) =
      (\<lparr> qo_pid = pid, qo_tier = tier, qo_success = False, qo_mutated = False, qo_error = Some e \<rparr>, False)"
proof -
  obtain kr port w1 where tf: "k_task_for_pid K pid w = (kr, port, w1)" by (rule prod_cases3)
  obtain allowed w2 where au: "auth w1 = (allowed, w2)" by (cases "auth w1")
  obtain kr2 w3 where ps: "k_task_policy_set K port TASK_CATEGORY_POLICY [tier_role tier] w2 = (kr2, w3)"
    by (cases "k_task_policy_set K port TASK_CATEGORY_POLICY [tier_role tier] w2")
  consider "kr \<noteq> KERN_SUCCESS" | "kr = KERN_SUCCESS" "\<not> allowed"
    | "kr = KERN_SUCCESS" allowed "kr2 \<noteq> KERN_SUCCESS" | "kr = KERN_SUCCESS" allowed "kr2 = KERN_SUCCESS"
    by blast
  then show thesis
    by cases (rule failed applied denied; simp add: apply_task_policy_if_def skip_outcome_def tf au ps)+
qed

lemma current_tier_simps [simp]:
  "current_tier (m\<lparr> qm_current_tier := hm_insert pid (t, i) (qm_current_tier m0) \<rparr>) p =
     (if p = pid then Some t else map_option fst (hm_get (qm_current_tier m0) p))"
  "current_tier (m\<lparr> qm_current_tier := hm_remove pid (qm_current_tier m0) \<rparr>) p =
     (if p = pid then None else map_option fst (hm_get (qm_current_tier m0) p))"
  by (simp_all add: current_tier_def)

lemma is_blocked_update [simp]: "is_blocked (m\<lparr> qm_current_tier := x \<rparr>) p = is_blocked m p"
  by (simp add: is_blocked_def)

definition receipt_ok :: "u32 \<Rightarrow> scheduling_tier \<Rightarrow> mach_qos_manager \<Rightarrow>
    (qos_outcome \<times> qos_audit_disposition) \<Rightarrow> mach_qos_manager \<Rightarrow> bool" where
  "receipt_ok pid tier m r m' \<longleftrightarrow>
     (qo_mutated (fst r) \<longleftrightarrow> snd r = QosApplied) \<and>
     (qo_success (fst r) \<longleftrightarrow> snd r \<noteq> QosFailed) \<and> (qo_error (fst r) \<noteq> None \<longleftrightarrow> snd r = QosFailed) \<and>
     (case snd r of
        QosApplied \<Rightarrow> current_tier m' pid = Some tier \<and> is_blocked m' pid = is_blocked m pid
      | QosNoOp \<Rightarrow> m' = m \<and> current_tier m pid = Some tier
      | QosBlocked \<Rightarrow> qm_current_tier m' = qm_current_tier m
      | QosFailed \<Rightarrow> is_blocked m' pid \<and> current_tier m' pid = None) \<and>
     (\<forall>p. p \<noteq> pid \<longrightarrow> current_tier m' p = current_tier m p \<and> is_blocked m' p = is_blocked m p)"

lemma apply_and_remember_receipt:
  "receipt_ok pid tier m (fst (apply_and_remember K pid tier auth m w))
     (fst (snd (apply_and_remember K pid tier auth m w)))"
  by (cases rule: apply_task_policy_cases [of K pid tier auth w])
    (simp_all add: apply_and_remember_def receipt_ok_def case_prod_unfold Let_def skip_outcome_def
      current_tier_def)

text \<open>
  Every answer to a tier request says what happened. A request counts as a mutation exactly
  when it was applied; then the manager remembers the new tier. A no-op changes nothing and is
  answered only when the requested tier is the remembered one. A failure marks the process as
  blocked and forgets its tier, and only a failure carries an error; a block keeps the
  remembered tiers. The records of other processes are never touched.
\<close>

theorem tier_request_receipt:
  "receipt_ok pid tier m (fst (set_tier_audited_if K pid tier auth m w))
     (fst (snd (set_tier_audited_if K pid tier auth m w)))"
proof (cases "is_blocked m pid")
  case True
  then show ?thesis by (simp add: set_tier_audited_if_def receipt_ok_def skip_outcome_def)
next
  case False
  show ?thesis
  proof (cases "hm_get (qm_current_tier m) pid")
    case None
    then show ?thesis
      using False apply_and_remember_receipt [of pid tier m K auth w]
      by (simp add: set_tier_audited_if_def)
        (simp add: receipt_ok_def skip_outcome_def current_tier_def)
  next
    case (Some c)
    obtain t i where c: "c = (t, i)" by (cases c)
    then show ?thesis
      using False Some apply_and_remember_receipt [of pid tier m K auth w]
      by (simp add: set_tier_audited_if_def)
        (simp add: receipt_ok_def skip_outcome_def current_tier_def)
  qed
qed

subsection \<open>Blocked processes\<close>

text \<open>
  While a process is blocked no operation asks the kernel anything about it that could
  change it: the tier, task QoS, I/O tier, App Nap, lease, thread listing and thread QoS
  requests all return at once with the world, the manager's tables and the ledger as they were;
  only the thread request keeps a receipt, which says that the process is blocked.
\<close>

theorem blocked_process_untouched:
  assumes "is_blocked m pid"
  shows "set_tier_audited_if K pid tier auth m w = ((skip_outcome pid tier, QosBlocked), m, w)"
    and "apply_qos_tier K pid lat thr m w = (skip_outcome pid TierNormal, m, w)"
    and "set_io_tier K pid io m w = (False, m, w)"
    and "set_app_nap K pid b m l w = (False, m, l, w)"
    and "acquire_task_policy_lease K pid m w = (None, m, w)"
    and "enumerate_threads K pid m w = (None, w)"
    and "snd (snd (set_thread_qos_audited K pid idx tt m w)) = w"
    and "failure_kind (tq_diagnostics (fst (set_thread_qos_audited K pid idx tt m w))) = Some Restricted"
  using assms
  by (simp_all add: set_tier_audited_if_def apply_qos_tier_def set_io_tier_def set_app_nap_def
      acquire_task_policy_lease_def enumerate_threads_def set_thread_qos_audited_def
      apply_thread_qos_audited_def from_diagnostics_def failure_kind_def Let_def)

lemma blocked_process_untouched_witness:
  "snd (snd (snd (set_app_nap (K :: unit kernel) 9 True (mark_blocked 5 9 qos_manager_new) ledger_new ()))) = ()"
  using blocked_process_untouched(4) [of "mark_blocked 5 9 qos_manager_new" 9 K True ledger_new "()"]
  by simp

text \<open>
  A block is not permanent: the periodic clean-up keeps it exactly while the process is
  alive and less than 60 seconds have passed since it was first refused, so that a process that
  inherits the number is evaluated afresh; and being refused again does not extend it.
\<close>

theorem block_expires:
  assumes "qos_inv m"
  shows "(is_blocked (gc_dead_pids K w m) pid \<longleftrightarrow>
      (\<exists>t. hm_get (qm_permanently_blocked_since m) pid = Some t \<and>
         k_kill0 K pid w = 0 \<and> k_now K w - t < 60 * 1000000000))
    \<and> (is_blocked m pid \<longrightarrow> mark_blocked t pid m = m)"
proof (intro conjI impI)
  have wf: "hm_wf (qm_permanently_blocked m)"
    and keys: "pid \<in> hm_keys (qm_permanently_blocked m) \<longleftrightarrow> pid \<in> hm_keys (qm_permanently_blocked_since m)"
    using assms by (simp_all add: qos_inv_def)
  show "is_blocked (gc_dead_pids K w m) pid \<longleftrightarrow>
      (\<exists>t. hm_get (qm_permanently_blocked_since m) pid = Some t \<and>
         k_kill0 K pid w = 0 \<and> k_now K w - t < 60 * 1000000000)"
    using keys
    by (auto simp: gc_dead_pids_def Let_def is_blocked_def hm_contains_def hm.get_retain [OF wf]
        hm.keys_get PERM_BLOCK_TTL_def duration_from_secs_def split: option.splits)
  show "mark_blocked t pid m = m" if "is_blocked m pid" using that by simp
qed

subsection \<open>Thread requests\<close>

definition diag :: "i32 option \<Rightarrow> i32 option \<Rightarrow> (i32 \<times> i32) option \<Rightarrow> mach_qos_terminal \<Rightarrow>
    mach_qos_diagnostics" where
  "diag task threads policies terminal =
     \<lparr> mq_task_for_pid = task, mq_thread_enumeration = threads,
       mq_thread_latency_policy_set = map_option fst policies,
       mq_thread_throughput_policy_set = map_option snd policies, mq_terminal = terminal \<rparr>"

lemma thread_request_diag:
  obtains (blocked) "fst (apply_thread_qos_audited K pid idx tier m w) =
      from_diagnostics (diag None None None PermanentlyBlocked)"
  | (task) c where "fst (apply_thread_qos_audited K pid idx tier m w) =
      from_diagnostics (diag (Some c) None None TaskAccessFailed)"
  | (threads) c where "c \<noteq> KERN_SUCCESS" "fst (apply_thread_qos_audited K pid idx tier m w) =
      from_diagnostics (diag (Some KERN_SUCCESS) (Some c) None ThreadEnumerationFailed)"
  | (no_thread) t where "t = ThreadListEmpty \<or> t = ThreadIndexOutOfRange"
      "fst (apply_thread_qos_audited K pid idx tier m w) =
        from_diagnostics (diag (Some KERN_SUCCESS) (Some KERN_SUCCESS) None t)"
  | (completed) a b where "fst (apply_thread_qos_audited K pid idx tier m w) =
      from_diagnostics (diag (Some KERN_SUCCESS) (Some KERN_SUCCESS) (Some (a, b)) PolicySetCompleted)"
proof -
  obtain kr port w1 where tf: "k_task_for_pid K pid w = (kr, port, w1)" by (rule prod_cases3)
  obtain kr2 threads w2 where tt: "k_task_threads K port w1 = (kr2, threads, w2)" by (rule prod_cases3)
  let ?lat = "k_thread_policy_set K (threads ! unat idx) THREAD_LATENCY_QOS_POLICY
      [thread_latency_code tier] (k_port_deallocate K port w2)"
  obtain a w3 where la: "?lat = (a, w3)" by (cases ?lat)
  let ?thr = "k_thread_policy_set K (threads ! unat idx) THREAD_THROUGHPUT_QOS_POLICY
      [thread_throughput_code tier] w3"
  obtain b w4 where th: "?thr = (b, w4)" by (cases ?thr)
  note defs = apply_thread_qos_audited_def diagnostics_default_def diag_def tf tt la th
  consider "is_blocked m pid"
    | "\<not> is_blocked m pid" "kr \<noteq> KERN_SUCCESS \<or> port = MACH_PORT_NULL"
    | "\<not> is_blocked m pid" "kr = KERN_SUCCESS" "port \<noteq> MACH_PORT_NULL" "kr2 \<noteq> KERN_SUCCESS"
    | "\<not> is_blocked m pid" "kr = KERN_SUCCESS" "port \<noteq> MACH_PORT_NULL" "kr2 = KERN_SUCCESS" "threads = []"
    | "\<not> is_blocked m pid" "kr = KERN_SUCCESS" "port \<noteq> MACH_PORT_NULL" "kr2 = KERN_SUCCESS" "threads \<noteq> []"
        "length threads \<le> unat idx"
    | "\<not> is_blocked m pid" "kr = KERN_SUCCESS" "port \<noteq> MACH_PORT_NULL" "kr2 = KERN_SUCCESS" "threads \<noteq> []"
        "unat idx < length threads"
    by linarith
  then show thesis
  proof cases
    case 1 show ?thesis by (rule blocked) (simp add: defs 1)
  next
    case 2 show ?thesis by (rule task [of kr]) (use 2 in \<open>simp add: defs\<close>)
  next
    case 3 show ?thesis by (rule threads [of kr2]) (use 3 in \<open>simp_all add: defs\<close>)
  next
    case 4 show ?thesis by (rule no_thread [of ThreadListEmpty]) (use 4 in \<open>simp_all add: defs\<close>)
  next
    case 5 show ?thesis by (rule no_thread [of ThreadIndexOutOfRange]) (use 5 in \<open>simp_all add: defs\<close>)
  next
    case 6 show ?thesis by (rule completed [of a b]) (use 6 in \<open>simp add: defs\<close>)
  qed
qed

lemma from_diagnostics_diag [simp]: "tq_diagnostics (from_diagnostics d) = d"
  by (simp add: from_diagnostics_def Let_def)

lemma applied_codes:
  "tq_mutated (from_diagnostics d) \<longleftrightarrow>
     mq_thread_latency_policy_set d = Some KERN_SUCCESS \<or> mq_thread_throughput_policy_set d = Some KERN_SUCCESS"
  "tq_partial (from_diagnostics d) \<longleftrightarrow>
     (mq_thread_latency_policy_set d = Some KERN_SUCCESS) \<noteq> (mq_thread_throughput_policy_set d = Some KERN_SUCCESS)"
  by (auto simp: from_diagnostics_def map_filter_def Let_def split: option.splits)

lemma failed_stage_none:
  "failed_stage d = None \<longleftrightarrow> (\<forall>st. code_for d st = None \<or> code_for d st = Some KERN_SUCCESS)"
proof -
  have all: "(\<forall>st. P st) \<longleftrightarrow> P StTaskForPid \<and> P StThreadEnumeration \<and> P StThreadLatencyPolicySet \<and>
      P StThreadThroughputPolicySet" for P
    by (metis mach_qos_stage.exhaust)
  show ?thesis unfolding all by (auto simp: failed_stage_def split: option.splits)
qed

text \<open>
  The receipt of a thread request is honest. It counts as a mutation exactly when one of
  the two policy calls returned success and as partial when exactly one did; policy calls are
  made only after the task port and the thread list were obtained; and it names no failure
  exactly when both policies were applied. The manager then answers with this receipt for this
  request's number, process, thread and tier, and with nothing for any other.
\<close>

theorem thread_receipt_honest:
  fixes K :: "'w kernel" and pid idx :: u32 and tier :: thread_tier and m :: mach_qos_manager
    and w :: 'w
  defines "out \<equiv> fst (set_thread_qos_audited K pid idx tier m w)"
    and "m' \<equiv> fst (snd (set_thread_qos_audited K pid idx tier m w))"
  defines "lat \<equiv> mq_thread_latency_policy_set (tq_diagnostics out)"
    and "thr \<equiv> mq_thread_throughput_policy_set (tq_diagnostics out)"
  shows "(tq_mutated out \<longleftrightarrow> lat = Some KERN_SUCCESS \<or> thr = Some KERN_SUCCESS)
    \<and> (tq_partial out \<longleftrightarrow> (lat = Some KERN_SUCCESS) \<noteq> (thr = Some KERN_SUCCESS))
    \<and> (lat = None \<or> mq_task_for_pid (tq_diagnostics out) = Some KERN_SUCCESS \<and>
      mq_thread_enumeration (tq_diagnostics out) = Some KERN_SUCCESS)
    \<and> (failure_kind (tq_diagnostics out) = None \<longleftrightarrow> lat = Some KERN_SUCCESS \<and> thr = Some KERN_SUCCESS)
    \<and> thread_qos_outcome_for g p i t m' =
      (if (g, p, i, t) = (qm_thread_qos_generation m + 1, pid, idx, tier) then Some out else None)"
proof (intro conjI)
  have out: "out = fst (apply_thread_qos_audited K pid idx tier m w)"
    by (simp add: out_def set_thread_qos_audited_def case_prod_unfold Let_def)
  then obtain d where d: "out = from_diagnostics d"
    by (cases rule: thread_request_diag [of K pid idx tier m w]) auto
  show "tq_mutated out \<longleftrightarrow> lat = Some KERN_SUCCESS \<or> thr = Some KERN_SUCCESS"
    and "tq_partial out \<longleftrightarrow> (lat = Some KERN_SUCCESS) \<noteq> (thr = Some KERN_SUCCESS)"
    unfolding lat_def thr_def by (simp_all add: d applied_codes)
  show "lat = None \<or> mq_task_for_pid (tq_diagnostics out) = Some KERN_SUCCESS \<and>
      mq_thread_enumeration (tq_diagnostics out) = Some KERN_SUCCESS"
    by (cases rule: thread_request_diag [of K pid idx tier m w]) (simp_all add: lat_def out diag_def)
  show "failure_kind (tq_diagnostics out) = None \<longleftrightarrow> lat = Some KERN_SUCCESS \<and> thr = Some KERN_SUCCESS"
    by (cases rule: thread_request_diag [of K pid idx tier m w])
      (auto simp: lat_def thr_def out diag_def failure_kind_def failed_stage_def)
  show "thread_qos_outcome_for g p i t m' =
      (if (g, p, i, t) = (qm_thread_qos_generation m + 1, pid, idx, tier) then Some out else None)"
    by (auto simp: m'_def out_def set_thread_qos_audited_def thread_qos_outcome_for_def
        case_prod_unfold Let_def)
qed

subsection \<open>No Mach port is leaked\<close>

text \<open>
  What the Mach interface documents of send rights: \<open>held w\<close> is the multiset of rights the
  process holds. A successful \<open>task_for_pid\<close> adds the right it returns (the null port stands
  for none) and a failed one returns the null port; \<open>task_threads\<close> adds one right per thread, and
  none when it fails; deallocating gives one right back; no other call changes what is held.
\<close>

definition rights :: "u32 \<Rightarrow> u32 multiset" where
  "rights port = (if port = MACH_PORT_NULL then {#} else {#port#})"

definition port_rules :: "'w kernel \<Rightarrow> ('w \<Rightarrow> u32 multiset) \<Rightarrow> bool" where
  "port_rules K held \<longleftrightarrow>
     (\<forall>pid w. let (kr, port, w') = k_task_for_pid K pid w in
        (kr \<noteq> KERN_SUCCESS \<longrightarrow> port = MACH_PORT_NULL) \<and> held w' = held w + rights port) \<and>
     (\<forall>port w. let (kr, threads, w') = k_task_threads K port w in
        (kr \<noteq> KERN_SUCCESS \<longrightarrow> threads = []) \<and> MACH_PORT_NULL \<notin> set threads \<and>
        held w' = held w + mset threads) \<and>
     (\<forall>port w. held (k_port_deallocate K port w) = held w - rights port) \<and>
     (\<forall>ts w. held (k_vm_deallocate K ts w) = held w) \<and>
     (\<forall>port fl p w. held (snd (k_task_policy_set K port fl p w)) = held w) \<and>
     (\<forall>port fl p w. held (snd (k_thread_policy_set K port fl p w)) = held w)"

lemma port_rulesD:
  assumes "port_rules K held"
  shows "fst (k_task_for_pid K pid w) \<noteq> KERN_SUCCESS \<Longrightarrow> fst (snd (k_task_for_pid K pid w)) = MACH_PORT_NULL"
    and "held (snd (snd (k_task_for_pid K pid w))) = held w + rights (fst (snd (k_task_for_pid K pid w)))"
    and "fst (k_task_threads K port w) \<noteq> KERN_SUCCESS \<Longrightarrow> fst (snd (k_task_threads K port w)) = []"
    and "MACH_PORT_NULL \<notin> set (fst (snd (k_task_threads K port w)))"
    and "held (snd (snd (k_task_threads K port w))) = held w + mset (fst (snd (k_task_threads K port w)))"
    and "held (k_port_deallocate K port w) = held w - rights port"
    and "held (k_vm_deallocate K ts w) = held w"
    and "held (snd (k_task_policy_set K port fl p w)) = held w"
    and "held (snd (k_thread_policy_set K port fl p w)) = held w"
  using assms unfolding port_rules_def Let_def case_prod_unfold by blast+

lemma rights_null [simp]: "rights MACH_PORT_NULL = {#}"
  by (simp add: rights_def)

lemma release_threads_held:
  assumes "port_rules K held" "MACH_PORT_NULL \<notin> set ts"
  shows "held (release_thread_list K ts w) = held w - mset ts"
proof -
  have "held (fold (k_port_deallocate K) ts w) = held w - mset ts"
    using assms(2)
    by (induction ts arbitrary: w) (auto simp: port_rulesD [OF assms(1)] rights_def)
  then show ?thesis by (simp add: release_thread_list_def port_rulesD [OF assms(1)])
qed

lemma snapshot_threads_held:
  assumes "port_rules K held" "MACH_PORT_NULL \<notin> set ts"
  shows "held (snd (snapshot_threads K i ts w)) = held w - mset ts"
  using assms(2)
  by (induction ts arbitrary: i w)
    (auto simp: Let_def case_prod_unfold port_rulesD [OF assms(1)] rights_def)

lemma apply_task_policy_held:
  assumes "port_rules K held" "\<And>w. held (snd (auth w)) = held w"
  shows "held (snd (apply_task_policy_if K pid tier auth w)) = held w"
  using port_rulesD [OF assms(1)] assms(2)
  by (simp add: apply_task_policy_if_def Let_def case_prod_unfold)

lemma set_tier_held:
  assumes "port_rules K held" "\<And>w. held (snd (auth w)) = held w"
  shows "held (snd (snd (set_tier_audited_if K pid tier auth m w))) = held w"
  by (simp add: set_tier_audited_if_def apply_and_remember_def Let_def case_prod_unfold
      apply_task_policy_held [OF assms] split: option.split)

lemma qos_calls_held:
  assumes "port_rules K held"
  shows "held (snd (snd (set_tier K pid tier m w))) = held w"
    and "held (snd (snd (apply_batch K cs m w))) = held w"
    and "held (snd (snd (apply_qos_tier K pid lat thr m w))) = held w"
    and "held (snd (snd (set_io_tier K pid io m w))) = held w"
    and "held (snd (snd (snd (set_app_nap K pid b m l w)))) = held w"
    and "held (snd (snd (release_app_naps K pids m l w))) = held w"
    and "held (snd (enumerate_threads K pid m w)) = held w"
    and "held (snd (snd (set_thread_qos_audited K pid idx tt m w))) = held w"
    and "held (snd (set_latency_and_throughput_with_lease K lease lat thr w)) = held w"
proof -
  note rules = port_rulesD [OF assms]
  show tier: "held (snd (snd (set_tier K pid tier m w))) = held w" for pid tier m w
    using set_tier_held [OF assms, of "\<lambda>w. (True, w)" pid tier m w]
    by (simp add: set_tier_def set_tier_audited_def Let_def case_prod_unfold)
  show "held (snd (snd (apply_batch K cs m w))) = held w"
    by (induction cs arbitrary: m w) (auto simp: Let_def case_prod_unfold tier)
  show "held (snd (snd (apply_qos_tier K pid lat thr m w))) = held w"
    using rules by (simp add: apply_qos_tier_def Let_def case_prod_unfold)
  show "held (snd (snd (set_io_tier K pid io m w))) = held w"
    using rules by (simp add: set_io_tier_def Let_def case_prod_unfold)
  show nap: "held (snd (snd (snd (set_app_nap K pid b m l w)))) = held w" for pid b m l w
    using rules by (simp add: set_app_nap_def Let_def case_prod_unfold)
  show "held (snd (snd (release_app_naps K pids m l w))) = held w"
    by (induction pids arbitrary: m l w) (simp_all add: Let_def case_prod_unfold nap)
  show "held (snd (enumerate_threads K pid m w)) = held w"
    using rules snapshot_threads_held [OF assms]
    by (auto simp: enumerate_threads_def Let_def case_prod_unfold)
  show "held (snd (snd (set_thread_qos_audited K pid idx tt m w))) = held w"
    using rules release_threads_held [OF assms]
    by (simp add: set_thread_qos_audited_def apply_thread_qos_audited_def Let_def case_prod_unfold)
  show "held (snd (set_latency_and_throughput_with_lease K lease lat thr w)) = held w"
    using rules by (simp add: set_latency_and_throughput_with_lease_def Let_def case_prod_unfold)
qed

text \<open>
  Every request of the manager that talks to the kernel, as a machine over the manager, the
  ledger, the leases that are open and the world; a lease is named by its place in the list.
\<close>

datatype 'w qos_request =
    RqTier u32 scheduling_tier
  | RqTierAudited u32 scheduling_tier
  | RqTierIf u32 scheduling_tier "'w \<Rightarrow> bool \<times> 'w"
  | RqBatch "(u32 \<times> scheduling_tier) list"
  | RqLatency u32 latency_tier
  | RqThroughput u32 throughput_tier
  | RqLatencyThroughput u32 latency_tier throughput_tier
  | RqIoTier u32 i32
  | RqAppNap u32 bool
  | RqReleaseNaps
  | RqThreads u32
  | RqThreadQosAudited u32 u32 thread_tier
  | RqThreadQos u32 u32 thread_tier
  | RqAcquireLease u32
  | RqUseLease nat latency_tier throughput_tier
  | RqDropLease nat

record 'w qos_session =
  qs_manager :: mach_qos_manager
  qs_ledger :: effect_ledger
  qs_leases :: "task_policy_lease list"
  qs_world :: 'w

definition on_session :: "(mach_qos_manager \<Rightarrow> 'w \<Rightarrow> 'a \<times> mach_qos_manager \<times> 'w) \<Rightarrow>
    'w qos_session \<Rightarrow> 'w qos_session" where
  "on_session f s = (let (_, m, w) = f (qs_manager s) (qs_world s) in s\<lparr> qs_manager := m, qs_world := w \<rparr>)"

fun qos_step :: "'w kernel \<Rightarrow> 'w qos_request \<Rightarrow> 'w qos_session \<Rightarrow> 'w qos_session" where
  "qos_step K (RqTier pid tier) s = on_session (set_tier K pid tier) s"
| "qos_step K (RqTierAudited pid tier) s = on_session (set_tier_audited K pid tier) s"
| "qos_step K (RqTierIf pid tier auth) s = on_session (set_tier_audited_if K pid tier auth) s"
| "qos_step K (RqBatch cs) s = on_session (apply_batch K cs) s"
| "qos_step K (RqLatency pid t) s = on_session (set_latency_qos K pid t) s"
| "qos_step K (RqThroughput pid t) s = on_session (set_throughput_qos K pid t) s"
| "qos_step K (RqLatencyThroughput pid lat thr) s = on_session (set_latency_and_throughput K pid lat thr) s"
| "qos_step K (RqIoTier pid t) s = on_session (set_io_tier K pid t) s"
| "qos_step K (RqAppNap pid b) s =
     (let (_, m, l, w) = set_app_nap K pid b (qs_manager s) (qs_ledger s) (qs_world s)
      in s\<lparr> qs_manager := m, qs_ledger := l, qs_world := w \<rparr>)"
| "qos_step K RqReleaseNaps s =
     (let (m, l, w) = release_all_app_nap K (qs_manager s) (qs_ledger s) (qs_world s)
      in s\<lparr> qs_manager := m, qs_ledger := l, qs_world := w \<rparr>)"
| "qos_step K (RqThreads pid) s = s\<lparr> qs_world := snd (enumerate_threads K pid (qs_manager s) (qs_world s)) \<rparr>"
| "qos_step K (RqThreadQosAudited pid i t) s = on_session (set_thread_qos_audited K pid i t) s"
| "qos_step K (RqThreadQos pid i t) s = on_session (set_thread_qos K pid i t) s"
| "qos_step K (RqAcquireLease pid) s =
     (let (lease, m, w) = acquire_task_policy_lease K pid (qs_manager s) (qs_world s)
      in s\<lparr> qs_manager := m, qs_world := w,
            qs_leases := qs_leases s @ (case lease of Some x \<Rightarrow> [x] | None \<Rightarrow> []) \<rparr>)"
| "qos_step K (RqUseLease n lat thr) s =
     (if n < length (qs_leases s)
      then s\<lparr> qs_world := snd (set_latency_and_throughput_with_lease K (qs_leases s ! n) lat thr (qs_world s)) \<rparr>
      else s)"
| "qos_step K (RqDropLease n) s =
     (if n < length (qs_leases s)
      then s\<lparr> qs_world := drop_lease K (qs_leases s ! n) (qs_world s),
              qs_leases := take n (qs_leases s) @ drop (Suc n) (qs_leases s) \<rparr>
      else s)"

definition lease_rights :: "'w qos_session \<Rightarrow> u32 multiset" where
  "lease_rights s = mset (map tl_port (qs_leases s))"

lemma on_session_held:
  "held (snd (snd (f (qs_manager s) (qs_world s)))) = held (qs_world s) \<Longrightarrow>
     held (qs_world (on_session f s)) = held (qs_world s) \<and> qs_leases (on_session f s) = qs_leases s"
  by (simp add: on_session_def case_prod_unfold Let_def)

lemma qos_step_held:
  assumes "port_rules K held"
    and "\<And>pid tier auth w. r = RqTierIf pid tier auth \<Longrightarrow> held (snd (auth w)) = held w"
    and "MACH_PORT_NULL \<notin> tl_port ` set (qs_leases s)" and "held (qs_world s) = base + lease_rights s"
  shows "MACH_PORT_NULL \<notin> tl_port ` set (qs_leases (qos_step K r s))
    \<and> held (qs_world (qos_step K r s)) = base + lease_rights (qos_step K r s)"
proof -
  note rules = port_rulesD [OF assms(1)] and calls = qos_calls_held [OF assms(1)]
  have same: ?thesis if "qs_leases (qos_step K r s) = qs_leases s"
    "held (qs_world (qos_step K r s)) = held (qs_world s)"
    using assms(3,4) that by (simp add: lease_rights_def)
  show ?thesis
  proof (cases r)
    case (RqAcquireLease pid)
    let ?a = "acquire_task_policy_lease K pid (qs_manager s) (qs_world s)"
    have "held (snd (snd ?a)) = held (qs_world s) + (case fst ?a of Some x \<Rightarrow> {#tl_port x#} | None \<Rightarrow> {#})"
      using rules by (auto simp: acquire_task_policy_lease_def Let_def case_prod_unfold rights_def)
    moreover have "tl_port x \<noteq> MACH_PORT_NULL" if "fst ?a = Some x" for x
      using that by (auto simp: acquire_task_policy_lease_def Let_def case_prod_unfold split: if_splits)
    ultimately show ?thesis using assms(3,4) RqAcquireLease
      by (cases "fst ?a") (auto simp: case_prod_unfold Let_def lease_rights_def)
  next
    case (RqDropLease n)
    show ?thesis
    proof (cases "n < length (qs_leases s)")
      case True
      let ?x = "qs_leases s ! n" and ?rest = "take n (qs_leases s) @ drop (Suc n) (qs_leases s)"
      have "qs_leases s = take n (qs_leases s) @ ?x # drop (Suc n) (qs_leases s)"
        using True by (simp add: id_take_nth_drop)
      then have "lease_rights s = add_mset (tl_port ?x) (mset (map tl_port ?rest))"
        unfolding lease_rights_def by (metis add_mset_add_single mset.simps(2) mset_append list.simps(9) map_append
          union_mset_add_mset_right)
      moreover have "set ?rest \<subseteq> set (qs_leases s)"
        by (auto dest: in_set_takeD in_set_dropD)
      moreover have "tl_port ?x \<noteq> MACH_PORT_NULL" using assms(3) True by (metis image_eqI nth_mem)
      ultimately show ?thesis using assms(3,4) RqDropLease True rules(6) [of "tl_port ?x"]
        by (auto simp: drop_lease_def rights_def lease_rights_def)
    qed (use assms(3,4) RqDropLease in simp)
  qed (rule same; simp add: on_session_held calls set_tier_held [OF assms(1)] assms(2) set_tier_audited_def
      set_latency_qos_def set_throughput_qos_def set_latency_and_throughput_def set_thread_qos_def
      release_all_app_nap_def case_prod_unfold Let_def)+
qed


definition example_kernel :: "u32 multiset kernel" where
  "example_kernel = \<lparr> k_now = (\<lambda>_. 0), k_pidpath = (\<lambda>_ _. (4, ''/App'')), k_kill0 = (\<lambda>_ _. 0),
     k_start_time = (\<lambda>pid _. Some (ucast pid, 0)), k_task_for_pid = (\<lambda>pid w. (0, 77, add_mset 77 w)),
     k_task_policy_set = (\<lambda>_ _ _ w. (0, w)), k_port_deallocate = (\<lambda>p w. w - rights p),
     k_task_threads = (\<lambda>_ w. (0, [5, 6], w + {#5, 6#})), k_vm_deallocate = (\<lambda>_ w. w),
     k_thread_info = (\<lambda>_ _. (0, \<lparr> tbi_user_seconds = 0, tbi_user_microseconds = 0,
        tbi_system_seconds = 0, tbi_system_microseconds = 0, tbi_cpu_usage = 0, tbi_run_state = 3 \<rparr>)),
     k_thread_policy_set = (\<lambda>_ _ _ w. (0, w)), k_setpriority = (\<lambda>_ _ _ w. (0, w)),
     k_memorystatus_set = (\<lambda>_ _ _ w. (0, w)), k_memorystatus_get = (\<lambda>_ _ _. (0, [])),
     k_errno = (\<lambda>_. 0) \<rparr>"

lemma example_kernel_rules: "port_rules example_kernel (\<lambda>w. w)"
  by (simp add: port_rules_def example_kernel_def rights_def MACH_PORT_NULL_def KERN_SUCCESS_def)


lemma block_expires_witness:
  "is_blocked (gc_dead_pids example_kernel {#} (mark_blocked 0 9 qos_manager_new)) 9"
  using block_expires [OF qos_inv_mark [OF qos_inv_new], of example_kernel "{#}" 0 9 9 0]
  by (simp add: mark_blocked_def is_blocked_def qos_manager_new_def example_kernel_def)

subsection \<open>Hot and cold threads\<close>

text \<open>
  The analysis of one listing of a process puts each thread in at most one of the hot and
  cold lists, in the order of the listing. A thread is hot when it was seen before and used
  more than 50 ms since, or runs above 5% now; cold when it was seen before, is waiting, runs
  below 0.5% and is not hot; a thread never seen before is neither. The next analysis compares
  with the times of this one.
\<close>

theorem thread_analysis_lists:
  fixes threads :: "thread_snapshot list" and m :: mach_qos_manager and pid :: u32
  defines "a \<equiv> fst (analyze_threads pid threads m)" and "m' \<equiv> snd (analyze_threads pid threads m)"
  defines "hot \<equiv> (\<lambda>t. case hm_get (qm_prev_thread_cpu m) (pid, ts_thread_index t) of None \<Rightarrow> False
      | Some prev \<Rightarrow> sat_sub (ts_user_time_us t + ts_system_time_us t) prev > 50000
          \<or> ts_cpu_usage_raw t > 50)"
  defines "cold \<equiv> (\<lambda>t. hm_get (qm_prev_thread_cpu m) (pid, ts_thread_index t) \<noteq> None \<and> \<not> hot t
      \<and> ts_run_state t = TH_STATE_WAITING \<and> ts_cpu_usage_raw t < 5)"
  assumes "distinct (map ts_thread_index threads)"
  shows "ta_hot a = map ts_thread_index (filter hot threads)
    \<and> ta_cold a = map ts_thread_index (filter cold threads)
    \<and> ta_active_count a = length (filter (\<lambda>t. ts_run_state t \<noteq> TH_STATE_WAITING) threads)
    \<and> set (ta_hot a) \<inter> set (ta_cold a) = {}
    \<and> (\<forall>t\<in>set threads. hm_get (qm_prev_thread_cpu m') (pid, ts_thread_index t) =
      Some (ts_user_time_us t + ts_system_time_us t))"
proof (intro conjI ballI)
  have fold: "fold (analyze_thread pid) ts (h, c, n, prev) =
      (h @ map ts_thread_index (filter hot ts), c @ map ts_thread_index (filter cold ts),
       n + length (filter (\<lambda>t. ts_run_state t \<noteq> TH_STATE_WAITING) ts),
       fold (\<lambda>t. hm_insert (pid, ts_thread_index t) (ts_user_time_us t + ts_system_time_us t)) ts prev)"
    if "distinct (map ts_thread_index ts)"
      "\<forall>t\<in>set ts. hm_get prev (pid, ts_thread_index t) = hm_get (qm_prev_thread_cpu m) (pid, ts_thread_index t)"
    for ts h c n prev
    using that
  proof (induction ts arbitrary: h c n prev)
    case Nil
    show ?case by simp
  next
    case (Cons t ts)
    have "hm_get prev (pid, ts_thread_index t) = hm_get (qm_prev_thread_cpu m) (pid, ts_thread_index t)"
      using Cons.prems by simp
    then have "analyze_thread pid t (h, c, n, prev) =
        (h @ (if hot t then [ts_thread_index t] else []), c @ (if cold t then [ts_thread_index t] else []),
         n + (if ts_run_state t \<noteq> TH_STATE_WAITING then 1 else 0),
         hm_insert (pid, ts_thread_index t) (ts_user_time_us t + ts_system_time_us t) prev)"
      by (auto simp: analyze_thread_def hot_def cold_def Let_def split: option.splits)
    moreover have "\<forall>u\<in>set ts. hm_get (hm_insert (pid, ts_thread_index t)
        (ts_user_time_us t + ts_system_time_us t) prev) (pid, ts_thread_index u) =
        hm_get (qm_prev_thread_cpu m) (pid, ts_thread_index u)"
      using Cons.prems by (auto simp: image_iff)
    ultimately show ?case
      using Cons.IH Cons.prems(1) by simp
  qed
  have run: "fold (analyze_thread pid) threads ([], [], 0, qm_prev_thread_cpu m) =
      (map ts_thread_index (filter hot threads), map ts_thread_index (filter cold threads),
       length (filter (\<lambda>t. ts_run_state t \<noteq> TH_STATE_WAITING) threads),
       fold (\<lambda>t. hm_insert (pid, ts_thread_index t) (ts_user_time_us t + ts_system_time_us t)) threads
         (qm_prev_thread_cpu m))"
    using fold [OF assms(5), of "qm_prev_thread_cpu m" "[]" "[]" 0] by simp
  show hot: "ta_hot a = map ts_thread_index (filter hot threads)"
    and cold: "ta_cold a = map ts_thread_index (filter cold threads)"
    and "ta_active_count a = length (filter (\<lambda>t. ts_run_state t \<noteq> TH_STATE_WAITING) threads)"
    by (simp_all add: a_def analyze_threads_def run)
  show "set (ta_hot a) \<inter> set (ta_cold a) = {}"
    using assms(5) by (auto simp: hot cold cold_def distinct_map inj_on_def)
  have get: "hm_get (fold (\<lambda>t. hm_insert (pid, ts_thread_index t) (ts_user_time_us t + ts_system_time_us t)) ts prev)
      (pid, ts_thread_index t) = Some (ts_user_time_us t + ts_system_time_us t)"
    if "distinct (map ts_thread_index ts)" "t \<in> set ts \<or> (ts_thread_index t \<notin> ts_thread_index ` set ts \<and>
      hm_get prev (pid, ts_thread_index t) = Some (ts_user_time_us t + ts_system_time_us t))" for ts prev t
    using that by (induction ts arbitrary: prev) auto
  show "hm_get (qm_prev_thread_cpu m') (pid, ts_thread_index t) =
      Some (ts_user_time_us t + ts_system_time_us t)" if "t \<in> set threads" for t
    using that get [OF assms(5)] by (simp add: m'_def analyze_threads_def run)
qed

definition example_thread :: "u32 \<Rightarrow> u64 \<Rightarrow> thread_snapshot" where
  "example_thread i cpu = \<lparr> ts_thread_index = i, ts_user_time_us = cpu, ts_system_time_us = 0,
     ts_cpu_usage_raw = 0, ts_run_state = 3 \<rparr>"

lemma thread_analysis_lists_witness:
  "ta_hot (fst (analyze_threads 1 [example_thread 0 60000, example_thread 1 4]
     (qos_manager_new\<lparr> qm_prev_thread_cpu := [((1, 0), 9000), ((1, 1), 3)] \<rparr>))) = [0] \<and>
   ta_cold (fst (analyze_threads 1 [example_thread 0 60000, example_thread 1 4]
     (qos_manager_new\<lparr> qm_prev_thread_cpu := [((1, 0), 9000), ((1, 1), 3)] \<rparr>))) = [1]"
  using thread_analysis_lists [of "[example_thread 0 60000, example_thread 1 4]" 1
      "qos_manager_new\<lparr> qm_prev_thread_cpu := [((1, 0), 9000), ((1, 1), 3)] \<rparr>"]
  by (simp add: example_thread_def hm_get_def TH_STATE_WAITING_def sat_sub_def)

end
