(* ===== verification/Jetsam_Control.thy ===== *)
theory Jetsam_Control
  imports Kernel_Interface
begin

text \<open>
  \<open>engine/jetsam_control.rs\<close>: the wrappers of \<open>memorystatus_control\<close>. A request is its command,
  its process and the fields of its structure; a read returns the code and the fields. The error
  texts are values of \<open>jetsam_error\<close> with what they print.
\<close>

definition JETSAM_BACKGROUND :: i32 where "JETSAM_BACKGROUND = 2"
definition JETSAM_FOREGROUND :: i32 where "JETSAM_FOREGROUND = 9"
definition JETSAM_CRITICAL :: i32 where "JETSAM_CRITICAL = 11"

definition CMD_GET_PRIORITY_LIST :: u32 where "CMD_GET_PRIORITY_LIST = 1"
definition CMD_SET_PRIORITY_PROPERTIES :: u32 where "CMD_SET_PRIORITY_PROPERTIES = 6"
definition CMD_GET_MEMLIMIT_PROPERTIES :: u32 where "CMD_GET_MEMLIMIT_PROPERTIES = 7"
definition CMD_SET_MEMLIMIT_PROPERTIES :: u32 where "CMD_SET_MEMLIMIT_PROPERTIES = 8"

lemmas memorystatus_commands = CMD_GET_PRIORITY_LIST_def CMD_SET_PRIORITY_PROPERTIES_def
  CMD_GET_MEMLIMIT_PROPERTIES_def CMD_SET_MEMLIMIT_PROPERTIES_def

record memlimit_properties =
  memlimit_active :: i32
  memlimit_active_attr :: i32
  memlimit_inactive :: i32
  memlimit_inactive_attr :: i32

definition memlimit_default :: memlimit_properties where
  "memlimit_default = \<lparr> memlimit_active = 0, memlimit_active_attr = 0, memlimit_inactive = 0,
     memlimit_inactive_attr = 0 \<rparr>"

definition memlimit_fields :: "memlimit_properties \<Rightarrow> i32 list" where
  "memlimit_fields p =
     [memlimit_active p, memlimit_active_attr p, memlimit_inactive p, memlimit_inactive_attr p]"

fun memlimit_of_fields :: "i32 list \<Rightarrow> memlimit_properties" where
  "memlimit_of_fields [a, aa, i, ia] = \<lparr> memlimit_active = a, memlimit_active_attr = aa,
     memlimit_inactive = i, memlimit_inactive_attr = ia \<rparr>"
| "memlimit_of_fields _ = memlimit_default"

datatype jetsam_error =
    SetPriorityErr u32 i32 i32
  | SetMemlimitErr u32 i32 i32 i32
  | GetMemlimitErr u32 i32
  | SetWarnLimitErr u32 i32 i32

datatype jetsam_class = JetsamInteractive | JetsamNoise | JetsamProtected

definition jetsam_set_priority :: "'w kernel \<Rightarrow> u32 \<Rightarrow> i32 \<Rightarrow> 'w \<Rightarrow> (jetsam_error + unit) \<times> 'w" where
  "jetsam_set_priority K pid prio w =
     (let (ret, w) = k_memorystatus_set K CMD_SET_PRIORITY_PROPERTIES pid [prio, 0] w
      in (if ret = 0 then Inr () else Inl (SetPriorityErr pid prio (k_errno K w)), w))"

text \<open>The fields of \<open>PriorityEntry\<close> are the process, its band and \<open>user_data\<close>.\<close>

definition jetsam_get_priority :: "'w kernel \<Rightarrow> u32 \<Rightarrow> 'w \<Rightarrow> i32 option" where
  "jetsam_get_priority K pid w =
     (let (ret, fields) = k_memorystatus_get K CMD_GET_PRIORITY_LIST pid w in
      case fields of
        entry_pid # prio # _ \<Rightarrow> if ret \<le> 0 \<or> entry_pid \<noteq> sint pid then None else Some prio
      | _ \<Rightarrow> None)"

definition set_memlimit :: "'w kernel \<Rightarrow> u32 \<Rightarrow> i32 \<Rightarrow> i32 \<Rightarrow> 'w \<Rightarrow> (jetsam_error + unit) \<times> 'w" where
  "set_memlimit K pid active_mb inactive_mb w =
     (let props = \<lparr> memlimit_active = active_mb, memlimit_active_attr = 0,
                    memlimit_inactive = inactive_mb, memlimit_inactive_attr = 0 \<rparr>;
          (ret, w) = k_memorystatus_set K CMD_SET_MEMLIMIT_PROPERTIES pid (memlimit_fields props) w
      in (if ret = 0 then Inr () else Inl (SetMemlimitErr pid active_mb inactive_mb (k_errno K w)), w))"

definition get_memlimit :: "'w kernel \<Rightarrow> u32 \<Rightarrow> 'w \<Rightarrow> jetsam_error + memlimit_properties" where
  "get_memlimit K pid w =
     (let (ret, fields) = k_memorystatus_get K CMD_GET_MEMLIMIT_PROPERTIES pid w
      in if ret = 0 then Inr (memlimit_of_fields fields) else Inl (GetMemlimitErr pid (k_errno K w)))"

definition set_warn_limit :: "'w kernel \<Rightarrow> u32 \<Rightarrow> i32 \<Rightarrow> 'w \<Rightarrow> (jetsam_error + unit) \<times> 'w" where
  "set_warn_limit K pid warn_mb w =
     (let current = (case get_memlimit K pid w of Inr p \<Rightarrow> p | Inl _ \<Rightarrow> memlimit_default);
          props = \<lparr> memlimit_active = memlimit_active current,
                    memlimit_active_attr = memlimit_active_attr current,
                    memlimit_inactive = warn_mb, memlimit_inactive_attr = 0 \<rparr>;
          (ret, w) = k_memorystatus_set K CMD_SET_MEMLIMIT_PROPERTIES pid (memlimit_fields props) w
      in (if ret = 0 then Inr () else Inl (SetWarnLimitErr pid warn_mb (k_errno K w)), w))"

fun class_policy :: "jetsam_class \<Rightarrow> i32 \<times> i32 \<times> i32" where
  "class_policy JetsamInteractive = (JETSAM_FOREGROUND, 0, 0)"
| "class_policy JetsamNoise = (JETSAM_BACKGROUND, 0, 200)"
| "class_policy JetsamProtected = (JETSAM_CRITICAL, 0, 0)"

definition apply_apollo_policy :: "'w kernel \<Rightarrow> u32 \<Rightarrow> jetsam_class \<Rightarrow> 'w \<Rightarrow>
    (jetsam_error + unit) \<times> 'w" where
  "apply_apollo_policy K pid c w =
     (let (prio, active, inactive) = class_policy c in
      case jetsam_set_priority K pid prio w of
        (Inl e, w) \<Rightarrow> (Inl e, w)
      | (Inr _, w) \<Rightarrow> set_memlimit K pid active inactive w)"

text \<open>\<open>self\<close> is the process of the daemon; an error keeps which of the two calls failed.\<close>

definition probe_write :: "'w kernel \<Rightarrow> u32 \<Rightarrow> 'w \<Rightarrow> (jetsam_error + unit) \<times> 'w" where
  "probe_write K self w =
     (case get_memlimit K self w of
        Inl e \<Rightarrow> (Inl e, w)
      | Inr p \<Rightarrow> set_memlimit K self (memlimit_active p) (memlimit_inactive p) w)"

subsection \<open>What a write carries\<close>

lemma memlimit_roundtrip [simp]: "memlimit_of_fields (memlimit_fields p) = p"
  by (simp add: memlimit_fields_def)

text \<open>The one request that each write makes, and the world after it.\<close>

lemma jetsam_writes:
  "snd (jetsam_set_priority K pid prio w) =
     snd (k_memorystatus_set K CMD_SET_PRIORITY_PROPERTIES pid [prio, 0] w)"
  "snd (set_memlimit K pid a i w) = snd (k_memorystatus_set K CMD_SET_MEMLIMIT_PROPERTIES pid [a, 0, i, 0] w)"
  by (simp_all add: jetsam_set_priority_def set_memlimit_def memlimit_fields_def case_prod_unfold Let_def)

lemma probe_write_request:
  assumes "get_memlimit K self w = Inr p"
  shows "snd (probe_write K self w) = snd (k_memorystatus_set K CMD_SET_MEMLIMIT_PROPERTIES self
      (memlimit_fields (p\<lparr> memlimit_active_attr := 0, memlimit_inactive_attr := 0 \<rparr>)) w)"
  using assms by (simp add: probe_write_def jetsam_writes memlimit_fields_def)

lemma warn_limit_request:
  "snd (set_warn_limit K pid mb w) = snd (k_memorystatus_set K CMD_SET_MEMLIMIT_PROPERTIES pid
     (memlimit_fields ((case get_memlimit K pid w of Inr p \<Rightarrow> p | Inl _ \<Rightarrow> memlimit_default)
        \<lparr> memlimit_inactive := mb, memlimit_inactive_attr := 0 \<rparr>)) w)"
  by (simp add: set_warn_limit_def memlimit_fields_def case_prod_unfold Let_def)

lemma apollo_policy_stops_at_first_error:
  "fst (jetsam_set_priority K pid (fst (class_policy c)) w) = Inl e \<Longrightarrow>
     apply_apollo_policy K pid c w = (Inl e, snd (jetsam_set_priority K pid (fst (class_policy c)) w))"
  by (cases "jetsam_set_priority K pid (fst (class_policy c)) w")
    (auto simp: apply_apollo_policy_def case_prod_unfold)

end
