(* ===== verification/Effect_Reconcile.thy ===== *)
theory Effect_Reconcile
  imports Mach_Qos Jetsam_Control
begin

text \<open>
  The reconcile pass of \<open>engine/effect_ledger.rs\<close> and the actuators it composes: the ledger,
  the QoS manager and the kernel. The global ledger is locked for the drain and again for the
  re-insertion of what could not be reverted, not in between; the state of the three is
  \<open>actuators\<close>.
\<close>

record 'w actuators =
  ac_ledger :: effect_ledger
  ac_qos :: mach_qos_manager
  ac_world :: 'w

definition PRIO_PROCESS :: i32 where "PRIO_PROCESS = 0"
definition PRIO_DARWIN_BG :: i32 where "PRIO_DARWIN_BG = 0x1000"

subsection \<open>Undoing one effect\<close>

fun undo_effect :: "'w kernel \<Rightarrow> applied_effect \<Rightarrow> 'w actuators \<Rightarrow> bool \<times> 'w actuators" where
  "undo_effect K (Nice pid prior) s =
     (let (ret, w) = k_setpriority K PRIO_PROCESS pid prior (ac_world s)
      in (ret = 0, s\<lparr> ac_world := w \<rparr>))"
| "undo_effect K (MachTier pid) s =
     (let (out, m, w) = set_tier K pid TierNormal (ac_qos s) (ac_world s)
      in (qo_mutated out \<or> current_tier m pid = Some TierNormal, s\<lparr> ac_qos := m, ac_world := w \<rparr>))"
| "undo_effect K (TaskQoS pid) s =
     (let (out, m, w) = set_latency_and_throughput K pid LatencyDefault ThroughputDefault
                          (ac_qos s) (ac_world s)
      in (qo_mutated out, s\<lparr> ac_qos := m, ac_world := w \<rparr>))"
| "undo_effect K (JetsamPriority pid prior) s =
     (if prior \<ge> 0 then
        (let (r, w) = jetsam_set_priority K pid prior (ac_world s) in (\<not> isl r, s\<lparr> ac_world := w \<rparr>))
      else (True, s))"
| "undo_effect K (AppNap pid) s =
     (let (ok, m, l, w) = set_app_nap K pid False (ac_qos s) (ac_ledger s) (ac_world s)
      in (ok, \<lparr> ac_ledger = l, ac_qos = m, ac_world = w \<rparr>))"
| "undo_effect K (Memlimit pid) s =
     (let (r, w) = set_memlimit K pid 0 0 (ac_world s) in (\<not> isl r, s\<lparr> ac_world := w \<rparr>))"
| "undo_effect K (DarwinBg pid) s =
     (let (ret, w) = k_setpriority K PRIO_DARWIN_BG pid 0 (ac_world s)
      in (ret = 0, s\<lparr> ac_world := w \<rparr>))"

subsection \<open>The pass\<close>

text \<open>One turn of the loop: the disposition, the outcome so far, the entries to retry.\<close>

definition reconcile_entry :: "'w kernel \<Rightarrow> ledger_entry \<Rightarrow>
    reconcile_outcome \<times> ledger_entry list \<times> 'w actuators \<Rightarrow>
    reconcile_outcome \<times> ledger_entry list \<times> 'w actuators" where
  "reconcile_entry K e acc =
     (let (out, retry, s) = acc;
          eff = le_effect e;
          live_sec = fst (pid_start_time K (effect_pid eff) (ac_world s)) in
      if live_sec = 0 \<or> live_sec \<noteq> le_start_sec e then
        (push_receipt \<lparr> rr_effect = eff, rr_disposition = RevertNoOp \<rparr> out, retry, s)
      else let (reverted, s) = undo_effect K eff s in
        if \<not> reverted then
          (let out = push_receipt \<lparr> rr_effect = eff, rr_disposition = RevertFailed \<rparr> out;
               (first_failure, e') = schedule_revert_retry (k_now K (ac_world s)) e
           in (out\<lparr> ro_failed := ro_failed out + (if first_failure then 1 else 0) \<rparr>, retry @ [e'], s))
        else
          (let out = push_receipt \<lparr> rr_effect = eff, rr_disposition = Reverted \<rparr> out
           in (out\<lparr> ro_reverted := ro_reverted out + 1 \<rparr>, retry, s)))"

definition reconcile_drained :: "'w kernel \<Rightarrow> ledger_entry list \<Rightarrow> 'w actuators \<Rightarrow>
    reconcile_outcome \<times> ledger_entry list \<times> 'w actuators" where
  "reconcile_drained K expired s =
     fold (reconcile_entry K) expired (reconcile_outcome_default, [], s)"

definition reinsert_all :: "ledger_entry list \<Rightarrow> 'w actuators \<Rightarrow> 'w actuators" where
  "reinsert_all retry s = s\<lparr> ac_ledger := fold reinsert_entry retry (ac_ledger s) \<rparr>"

definition reconcile_global :: "'w kernel \<Rightarrow> u32 option \<Rightarrow> 'w actuators \<Rightarrow>
    reconcile_outcome \<times> 'w actuators" where
  "reconcile_global K foreground s =
     (let (expired, l) = drain_expired (k_now K (ac_world s)) foreground (ac_ledger s);
          s = s\<lparr> ac_ledger := l \<rparr> in
      if expired = [] then (reconcile_outcome_default, s)
      else let (out, retry, s) = reconcile_drained K expired s
        in (out, if retry = [] then s else reinsert_all retry s))"

subsection \<open>The pass as a trace of dispositions\<close>

text \<open>
  What happens to one drained entry in the state \<open>s\<close> of its turn: the disposition, the entry
  that goes back if it is to be retried, and the state after. A pass is the sequence of these.
\<close>

definition entry_result :: "'w kernel \<Rightarrow> ledger_entry \<Rightarrow> 'w actuators \<Rightarrow>
    reconcile_disposition \<times> ledger_entry option \<times> 'w actuators" where
  "entry_result K e s =
     (let live = fst (pid_start_time K (effect_pid (le_effect e)) (ac_world s)) in
      if live = 0 \<or> live \<noteq> le_start_sec e then (RevertNoOp, None, s)
      else let (ok, s) = undo_effect K (le_effect e) s in
        if ok then (Reverted, None, s)
        else (RevertFailed, Some (snd (schedule_revert_retry (k_now K (ac_world s)) e)), s))"

fun reconcile_trace :: "'w kernel \<Rightarrow> ledger_entry list \<Rightarrow> 'w actuators \<Rightarrow>
    (ledger_entry \<times> reconcile_disposition \<times> ledger_entry option) list \<times> 'w actuators" where
  "reconcile_trace K [] s = ([], s)"
| "reconcile_trace K (e # es) s =
     (let (d, r, s) = entry_result K e s; (tr, s) = reconcile_trace K es s in ((e, d, r) # tr, s))"

definition account :: "ledger_entry \<times> reconcile_disposition \<times> ledger_entry option \<Rightarrow>
    reconcile_outcome \<Rightarrow> reconcile_outcome" where
  "account x out =
     (let (e, d, _) = x; out = push_receipt \<lparr> rr_effect = le_effect e, rr_disposition = d \<rparr> out in
      case d of
        Reverted \<Rightarrow> out\<lparr> ro_reverted := ro_reverted out + 1 \<rparr>
      | RevertFailed \<Rightarrow> out\<lparr> ro_failed := ro_failed out + (if le_revert_failures e = 0 then 1 else 0) \<rparr>
      | RevertNoOp \<Rightarrow> out)"

definition retried :: "(ledger_entry \<times> reconcile_disposition \<times> ledger_entry option) list \<Rightarrow>
    ledger_entry list" where
  "retried tr = List.map_filter (\<lambda>(_, _, r). r) tr"

lemma retried_simps [simp]:
  "retried [] = []"
  "retried ((e, d, None) # tr) = retried tr"
  "retried ((e, d, Some r) # tr) = r # retried tr"
  by (simp_all add: retried_def map_filter_simps)

lemma entry_result_cases:
  obtains (noop) "entry_result K e s = (RevertNoOp, None, s)"
      "le_start_sec e = 0 \<or> fst (pid_start_time K (effect_pid (le_effect e)) (ac_world s)) \<noteq> le_start_sec e"
  | (reverted) "entry_result K e s = (Reverted, None, snd (undo_effect K (le_effect e) s))"
      "fst (undo_effect K (le_effect e) s)"
      "fst (pid_start_time K (effect_pid (le_effect e)) (ac_world s)) = le_start_sec e"
  | (failed) t where "entry_result K e s =
        (RevertFailed, Some (snd (schedule_revert_retry t e)), snd (undo_effect K (le_effect e) s))"
      "\<not> fst (undo_effect K (le_effect e) s)"
      "fst (pid_start_time K (effect_pid (le_effect e)) (ac_world s)) = le_start_sec e"
proof -
  let ?live = "fst (pid_start_time K (effect_pid (le_effect e)) (ac_world s))"
  show thesis
  proof (cases "?live = 0 \<or> ?live \<noteq> le_start_sec e")
    case True
    then show thesis by (intro noop) (auto simp: entry_result_def)
  next
    case False
    show thesis
    proof (cases "fst (undo_effect K (le_effect e) s)")
      case True
      show thesis by (rule reverted) (use True False in \<open>auto simp: entry_result_def case_prod_unfold Let_def\<close>)
    next
      case unreverted: False
      show thesis
        by (rule failed) (use unreverted False in \<open>auto simp: entry_result_def case_prod_unfold Let_def\<close>)
    qed
  qed
qed

lemma reconcile_entry_result:
  "reconcile_entry K e (out, retry, s) =
     (account (e, fst (entry_result K e s), fst (snd (entry_result K e s))) out,
      retry @ (case fst (snd (entry_result K e s)) of None \<Rightarrow> [] | Some r \<Rightarrow> [r]),
      snd (snd (entry_result K e s)))"
  by (simp add: reconcile_entry_def entry_result_def account_def case_prod_unfold Let_def retry_fields)

lemma reconcile_drained_trace:
  "fold (reconcile_entry K) es (out, retry, s) =
     (fold account (fst (reconcile_trace K es s)) out, retry @ retried (fst (reconcile_trace K es s)),
      snd (reconcile_trace K es s))"
proof (induction es arbitrary: out retry s)
  case Nil
  show ?case by simp
next
  case (Cons e es)
  show ?case
    by (cases "fst (snd (entry_result K e s))")
      (simp_all add: reconcile_entry_result Cons.IH case_prod_unfold Let_def)
qed

lemma trace_entries: "map fst (fst (reconcile_trace K es s)) = es"
  by (induction es arbitrary: s) (simp_all add: case_prod_unfold Let_def)

lemma push_receipt_counters [simp]:
  "ro_reverted (push_receipt r out) = ro_reverted out"
  "ro_failed (push_receipt r out) = ro_failed out"
  by (simp_all add: push_receipt_def)

lemma account_simps [simp]:
  "ro_reverted (account (e, d, r) out) = ro_reverted out + (if d = Reverted then 1 else 0)"
  "ro_failed (account (e, d, r) out) =
     ro_failed out + (if d = RevertFailed \<and> le_revert_failures e = 0 then 1 else 0)"
  "ro_receipts (account (e, d, r) out) =
     ro_receipts (push_receipt \<lparr> rr_effect = le_effect e, rr_disposition = d \<rparr> out)"
  "ro_receipts_dropped (account (e, d, r) out) =
     ro_receipts_dropped (push_receipt \<lparr> rr_effect = le_effect e, rr_disposition = d \<rparr> out)"
  by (simp_all add: account_def Let_def split: reconcile_disposition.splits)

lemma account_counters:
  "ro_reverted (fold account tr out) =
     ro_reverted out + of_nat (length (filter (\<lambda>(_, d, _). d = Reverted) tr))"
  "ro_failed (fold account tr out) =
     ro_failed out + of_nat (length (filter (\<lambda>(e, d, _). d = RevertFailed \<and> le_revert_failures e = 0) tr))"
proof (induction tr arbitrary: out)
  case (Cons x tr)
  obtain e d r where x: "x = (e, d, r)" by (cases x)
  {
    case 1 show ?case by (simp add: x Cons.IH)
  next
    case 2 show ?case by (simp add: x Cons.IH)
  }
qed simp_all

definition receipt_of :: "ledger_entry \<times> reconcile_disposition \<times> ledger_entry option \<Rightarrow>
    reconcile_receipt" where
  "receipt_of x = \<lparr> rr_effect = le_effect (fst x), rr_disposition = fst (snd x) \<rparr>"

lemma push_receipt_spec:
  assumes "length (ro_receipts out) \<le> MAX_RECONCILE_RECEIPTS"
  shows "ro_receipts (push_receipt r out) = take MAX_RECONCILE_RECEIPTS (ro_receipts out @ [r])"
    and "unat (ro_receipts_dropped (push_receipt r out)) =
      min (unat (ro_receipts_dropped out) + (Suc (length (ro_receipts out)) - MAX_RECONCILE_RECEIPTS))
        (2 ^ 64 - 1)"
  using assms unat_le_max [of "ro_receipts_dropped out"]
  by (auto simp: push_receipt_def unat_sat_inc Suc_diff_le)

lemma receipts_fold:
  assumes "length (ro_receipts out) \<le> MAX_RECONCILE_RECEIPTS"
  shows "ro_receipts (fold account tr out) = take MAX_RECONCILE_RECEIPTS (ro_receipts out @ map receipt_of tr)"
    and "unat (ro_receipts_dropped (fold account tr out)) =
      min (unat (ro_receipts_dropped out) + (length (ro_receipts out) + length tr - MAX_RECONCILE_RECEIPTS))
        (2 ^ 64 - 1)"
  using assms
proof (induction tr arbitrary: out)
  case Nil
  {
    case 1 then show ?case by simp
  next
    case 2 then show ?case using unat_le_max [of "ro_receipts_dropped out"] by simp
  }
next
  case (Cons x tr)
  obtain e d r where x: "x = (e, d, r)" by (cases x)
  let ?M = MAX_RECONCILE_RECEIPTS
  {
    case 1
    then have push: "ro_receipts (account x out) = take ?M (ro_receipts out @ [receipt_of x])"
      by (simp add: x push_receipt_spec receipt_of_def)
    have le: "length (ro_receipts (account x out)) \<le> ?M" unfolding push by simp
    note IH = Cons.IH(1) [OF le]
    show ?case
    proof (cases "length (ro_receipts out) < ?M")
      case True
      then show ?thesis using IH by (simp add: push)
    next
      case False
      then show ?thesis using IH 1 by (simp add: push)
    qed
  next
    case 2
    then have push: "ro_receipts (account x out) = take ?M (ro_receipts out @ [receipt_of x])"
      by (simp add: x push_receipt_spec receipt_of_def)
    have "length (ro_receipts (account x out)) = min (Suc (length (ro_receipts out))) ?M"
      by (simp add: push min.commute)
    moreover have "unat (ro_receipts_dropped (account x out)) =
        min (unat (ro_receipts_dropped out) + (Suc (length (ro_receipts out)) - ?M)) (2 ^ 64 - 1)"
      using 2 by (simp add: x push_receipt_spec)
    moreover have "min (min (d + (Suc l - m)) x + (min (Suc l) m + n - m)) x = min (d + (Suc (l + n) - m)) x"
      if "l \<le> m" for d l m n x :: nat
      using that by (cases "l < m") (simp_all add: min_def)
    ultimately show ?case
      using Cons.IH(2) [of "account x out"] 2 by simp
  }
qed

subsection \<open>The ledger during the loop\<close>

text \<open>
  Only the App Nap undo touches the ledger, by forgetting an entry; after a drain that entry is
  not there, so the ledger stands still until the re-insertion.
\<close>

lemma hm_remove_absent: "k \<notin> fst ` set m \<Longrightarrow> hm_remove k m = m"
  by (auto simp: hm_remove_def intro!: filter_True)

lemma forget_absent: "ledger_get e l = None \<Longrightarrow> ledger_forget e l = l"
  by (simp add: ledger_forget_def ledger_get_def hm_get_def map_of_eq_None_iff hm_remove_absent)

lemma undo_ledger:
  assumes "ledger_get e (ac_ledger s) = None"
  shows "ac_ledger (snd (undo_effect K e s)) = ac_ledger s"
  using assms
  by (cases e) (simp_all add: case_prod_unfold Let_def set_app_nap_def forget_absent)

lemma entry_result_ledger:
  assumes "ledger_get (le_effect e) (ac_ledger s) = None"
  shows "ac_ledger (snd (snd (entry_result K e s))) = ac_ledger s"
  by (cases rule: entry_result_cases [of K e s]) (simp_all add: undo_ledger assms)

lemma trace_ledger:
  assumes "\<forall>e\<in>set es. ledger_get (le_effect e) (ac_ledger s) = None"
  shows "ac_ledger (snd (reconcile_trace K es s)) = ac_ledger s"
  using assms by (induction es arbitrary: s) (simp_all add: case_prod_unfold Let_def entry_result_ledger)

lemma trace_result:
  assumes "(e, d, r) \<in> set (fst (reconcile_trace K es s))"
  shows "\<exists>s1 s2. entry_result K e s1 = (d, r, s2)"
  using assms
proof (induction es arbitrary: s)
  case (Cons x es)
  obtain d1 r1 s1 where "entry_result K x s = (d1, r1, s1)" by (rule prod_cases3)
  then show ?case using Cons by (auto simp: case_prod_unfold Let_def)
qed simp

lemma retried_keys:
  "set (map (\<lambda>e. effect_key_of (le_effect e)) (retried (fst (reconcile_trace K es s)))) \<subseteq>
     set (map (\<lambda>e. effect_key_of (le_effect e)) es)"
proof (induction es arbitrary: s)
  case (Cons e es)
  show ?case
    using Cons.IH
    by (cases rule: entry_result_cases [of K e s]) (auto simp: case_prod_unfold Let_def retry_fields)
qed simp

lemma reinsert_get:
  "hm_get (el_entries (fold reinsert_entry es l)) k =
     (case find (\<lambda>e. effect_key_of (le_effect e) = k) (rev es) of
        None \<Rightarrow> hm_get (el_entries l) k | Some e \<Rightarrow> Some e)"
  by (induction es arbitrary: l rule: rev_induct) (simp_all add: reinsert_entry_def)

lemma find_append: "find P (xs @ ys) = (case find P xs of None \<Rightarrow> find P ys | Some y \<Rightarrow> Some y)"
  by (induction xs) simp_all

lemma retried_find:
  assumes "distinct (map (\<lambda>e. effect_key_of (le_effect e)) es)"
    and "(e, d, r) \<in> set (fst (reconcile_trace K es s))"
  shows "find (\<lambda>x. effect_key_of (le_effect x) = effect_key_of (le_effect e))
    (rev (retried (fst (reconcile_trace K es s)))) = r"
  using assms
proof (induction es arbitrary: s)
  case Nil
  then show ?case by simp
next
  case (Cons x es)
  let ?key = "\<lambda>e. effect_key_of (le_effect e)"
  obtain d1 r1 s1 where res: "entry_result K x s = (d1, r1, s1)" by (rule prod_cases3)
  have same: "r1 = None \<or> (\<exists>y. r1 = Some y \<and> ?key y = ?key x)"
    using res by (cases rule: entry_result_cases [of K x s]) (auto simp: retry_fields)
  have step: "retried (fst (reconcile_trace K (x # es) s)) =
      (case r1 of None \<Rightarrow> [] | Some y \<Rightarrow> [y]) @ retried (fst (reconcile_trace K es s1))"
    by (cases r1) (simp_all add: res case_prod_unfold Let_def)
  have member: "(e, d, r) = (x, d1, r1) \<or> (e, d, r) \<in> set (fst (reconcile_trace K es s1))"
    using Cons.prems(2) by (simp add: res case_prod_unfold Let_def)
  have in_es: "e' \<in> set es" if "(e', d', r') \<in> set (fst (reconcile_trace K es s1))" for e' d' r'
    using that trace_entries [of K es s1] by (metis fst_conv image_eqI list.set_map)
  show ?case
  proof (cases "(e, d, r) = (x, d1, r1)")
    case True
    have "?key x \<notin> set (map ?key es)" using Cons.prems(1) by simp
    then have "?key x \<notin> set (map ?key (retried (fst (reconcile_trace K es s1))))"
      using retried_keys [of K es s1] by blast
    then have "find (\<lambda>y. ?key y = ?key x) (rev (retried (fst (reconcile_trace K es s1)))) = None"
      unfolding find_None_iff set_rev set_map by (metis image_eqI)
    then show ?thesis unfolding step using True same by (auto simp: find_append)
  next
    case False
    then have tl: "(e, d, r) \<in> set (fst (reconcile_trace K es s1))" using member by blast
    then have "?key x \<noteq> ?key e" using Cons.prems(1) in_es by (auto simp: image_iff)
    then show ?thesis
      unfolding step using same Cons.IH [OF _ tl] Cons.prems(1) by (auto simp: find_append split: option.splits)
  qed
qed

lemma retried_find_none:
  assumes "k \<notin> set (map (\<lambda>e. effect_key_of (le_effect e)) es)"
  shows "find (\<lambda>x. effect_key_of (le_effect x) = k) (rev (retried (fst (reconcile_trace K es s)))) = None"
  using assms retried_keys [of K es s] by (auto simp: find_None_iff)

lemma reconcile_global_trace:
  fixes K :: "'w kernel" and s :: "'w actuators" and fg :: "u32 option"
  assumes "ledger_inv (ac_ledger s)"
  defines "dr \<equiv> drain_expired (k_now K (ac_world s)) fg (ac_ledger s)"
  defines "tr \<equiv> fst (reconcile_trace K (fst dr) (s\<lparr> ac_ledger := snd dr \<rparr>))"
  shows "fst (reconcile_global K fg s) = fold account tr reconcile_outcome_default"
    and "ac_ledger (snd (reconcile_global K fg s)) = fold reinsert_entry (retried tr) (snd dr)"
proof -
  have "ledger_get (le_effect e) (snd dr) = None" if "e \<in> set (fst dr)" for e
    using drained_entry [OF assms(1) that [unfolded dr_def]] assms(1)
    by (simp add: dr_def ledger_get_def undrained_entry ledger_inv_def)
  then have "ac_ledger (snd (reconcile_trace K (fst dr) (s\<lparr> ac_ledger := snd dr \<rparr>))) = snd dr"
    by (simp add: trace_ledger)
  then show "fst (reconcile_global K fg s) = fold account tr reconcile_outcome_default"
    and "ac_ledger (snd (reconcile_global K fg s)) = fold reinsert_entry (retried tr) (snd dr)"
    unfolding reconcile_global_def reconcile_drained_def dr_def [symmetric]
    by (simp_all add: case_prod_unfold Let_def reconcile_drained_trace reinsert_all_def tr_def)
qed

text \<open>The pass as a trace: every drained entry has a disposition, and the ledger holds what it left.\<close>

lemma reconcile_dispositions:
  fixes K :: "'w kernel" and s :: "'w actuators" and fg :: "u32 option"
  assumes "ledger_inv (ac_ledger s)"
  defines "dr \<equiv> drain_expired (k_now K (ac_world s)) fg (ac_ledger s)"
    and "l' \<equiv> ac_ledger (snd (reconcile_global K fg s))"
  defines "tr \<equiv> fst (reconcile_trace K (fst dr) (s\<lparr> ac_ledger := snd dr \<rparr>))"
  shows "map fst tr = fst dr
    \<and> (\<forall>eff. \<forall>x. ledger_get eff (ac_ledger s) = x \<and> (\<forall>e\<in>set (fst dr). x \<noteq> Some e) \<longrightarrow> ledger_get eff l' = x)
    \<and> (\<forall>(e, d, r)\<in>set tr. ledger_get (le_effect e) l' = r)"
proof (intro conjI allI impI)
  have wf: "hm_wf (el_entries (ac_ledger s))" using assms(1) by (simp add: ledger_inv_def)
  have l': "l' = fold reinsert_entry (retried tr) (snd dr)"
    unfolding l'_def tr_def dr_def by (rule reconcile_global_trace(2) [OF assms(1)])
  have keys: "distinct (map (\<lambda>e. effect_key_of (le_effect e)) (fst dr))"
    unfolding dr_def by (rule drained_distinct [OF assms(1)])
  have after: "ledger_get eff l' =
      (case find (\<lambda>x. effect_key_of (le_effect x) = effect_key_of eff) (rev (retried tr)) of
         None \<Rightarrow> ledger_get eff (snd dr) | Some x \<Rightarrow> Some x)" for eff
    by (simp add: l' ledger_get_def reinsert_get split: option.split)
  have drained: "e \<in> set (fst dr) \<Longrightarrow> ledger_get (le_effect e) (ac_ledger s) = Some e
      \<and> ledger_get (le_effect e) (snd dr) = None" for e
    using drained_entry [OF assms(1), of e "k_now K (ac_world s)" fg] undrained_entry [OF wf]
    by (simp add: dr_def ledger_get_def)
  have kept: "ledger_get eff l' = ledger_get eff (ac_ledger s)"
    if "\<forall>x\<in>set (fst dr). ledger_get eff (ac_ledger s) \<noteq> Some x" for eff
  proof -
    have "effect_key_of eff \<notin> set (map (\<lambda>e. effect_key_of (le_effect e)) (fst dr))"
      using that drained by (auto simp: ledger_get_def)
    then have "find (\<lambda>x. effect_key_of (le_effect x) = effect_key_of eff) (rev (retried tr)) = None"
      unfolding tr_def by (rule retried_find_none)
    moreover have "\<not> entry_expired (k_now K (ac_world s)) fg (effect_key_of eff) e"
      if "ledger_get eff (ac_ledger s) = Some e" for e
    proof
      assume "entry_expired (k_now K (ac_world s)) fg (effect_key_of eff) e"
      then have "e \<in> set (fst dr)"
        using hm_get_in_set [OF that [unfolded ledger_get_def]]
        by (force simp: dr_def drain_expired_closed [OF wf])
      then show False
        using that \<open>\<forall>x\<in>set (fst dr). ledger_get eff (ac_ledger s) \<noteq> Some x\<close> by blast
    qed
    then have "ledger_get eff (snd dr) = ledger_get eff (ac_ledger s)"
      using undrained_entry [OF wf] by (auto simp: dr_def ledger_get_def split: option.splits)
    ultimately show ?thesis by (simp add: after)
  qed
  show "map fst tr = fst dr" by (simp add: tr_def trace_entries)
  then have in_dr: "(e, d, r) \<in> set tr \<Longrightarrow> e \<in> set (fst dr)" for e d r
    by (metis fst_conv image_eqI list.set_map)
  show "ledger_get eff l' = x"
    if "ledger_get eff (ac_ledger s) = x \<and> (\<forall>e\<in>set (fst dr). x \<noteq> Some e)" for eff x
    using that kept [of eff] by auto
  have "ledger_get (le_effect e) l' = r"
    if e: "(e, d, r) \<in> set tr" for e d r
  proof -
    have "find (\<lambda>x. effect_key_of (le_effect x) = effect_key_of (le_effect e)) (rev (retried tr)) = r"
      using e unfolding tr_def by (rule retried_find [OF keys])
    moreover have "ledger_get (le_effect e) (snd dr) = None" using drained [OF in_dr [OF e]] by simp
    ultimately show ?thesis using after [of "le_effect e"] by (auto split: option.splits)
  qed
  then show "\<forall>(e, d, r)\<in>set tr. ledger_get (le_effect e) l' = r" by blast
qed

text \<open>The state of the three after the first \<open>i\<close> entries of a pass.\<close>

definition after_entries :: "'w kernel \<Rightarrow> ledger_entry list \<Rightarrow> 'w actuators \<Rightarrow> nat \<Rightarrow> 'w actuators" where
  "after_entries K es s i = snd (reconcile_trace K (take i es) s)"

lemma trace_append:
  "reconcile_trace K (xs @ ys) s =
     (fst (reconcile_trace K xs s) @ fst (reconcile_trace K ys (snd (reconcile_trace K xs s))),
      snd (reconcile_trace K ys (snd (reconcile_trace K xs s))))"
  by (induction xs arbitrary: s) (simp_all add: case_prod_unfold Let_def)

lemma after_entries_Suc:
  assumes "i < length es"
  shows "after_entries K es s (Suc i) = snd (snd (entry_result K (es ! i) (after_entries K es s i)))"
  using assms by (simp add: after_entries_def take_Suc_conv_app_nth trace_append case_prod_unfold Let_def)

lemma trace_turn:
  fixes K :: "'w kernel" and s :: "'w actuators"
  assumes "i < length es"
  defines "x \<equiv> entry_result K (es ! i) (after_entries K es s i)"
  shows "(es ! i, fst x, fst (snd x)) \<in> set (fst (reconcile_trace K es s))"
proof -
  have split: "es = take i es @ es ! i # drop (Suc i) es" using assms(1) by (simp add: id_take_nth_drop)
  have "reconcile_trace K es s = reconcile_trace K (take i es @ es ! i # drop (Suc i) es) s"
    using split by simp
  then show ?thesis
    unfolding x_def after_entries_def by (simp add: trace_append case_prod_unfold Let_def)
qed

lemma drained_expired:
  assumes "ledger_inv l"
  shows "e \<in> set (fst (drain_expired now fg l)) \<longleftrightarrow>
    ledger_get (le_effect e) l = Some e \<and> entry_expired now fg (effect_key_of (le_effect e)) e"
proof
  assume "ledger_get (le_effect e) l = Some e \<and> entry_expired now fg (effect_key_of (le_effect e)) e"
  moreover have "hm_wf (el_entries l)" using assms by (simp add: ledger_inv_def)
  ultimately show "e \<in> set (fst (drain_expired now fg l))"
    using hm_get_in_set [of "el_entries l" "effect_key_of (le_effect e)" e]
    by (force simp: drain_expired_closed ledger_get_def)
qed (use drained_entry [OF assms] in \<open>simp add: ledger_get_def\<close>)

text \<open>
  C8: No expired effect is lost. A pass takes up every expired entry of the ledger once and
  leaves every other entry as it was. On its turn, the undo of an entry is run exactly when its
  process can be read and has the start time that was recorded. If the undo succeeds the entry is
  gone afterwards; if it fails the entry is back, with the same effect, process and owner, one more
  failure, and its clock restarted at that moment. If the process is gone or another process has
  its number, nothing is run and the entry is gone; an entry recorded without a start time, as zero,
  can never match, and is always dropped without an undo.
\<close>

theorem reconcile_conserves_effects:
  fixes K :: "'w kernel" and s :: "'w actuators" and fg :: "u32 option"
  assumes "ledger_inv (ac_ledger s)"
  defines "expired \<equiv> \<lambda>e. ledger_get (le_effect e) (ac_ledger s) = Some e
      \<and> entry_expired (k_now K (ac_world s)) fg (effect_key_of (le_effect e)) e"
    and "s' \<equiv> snd (reconcile_global K fg s)" and "l' \<equiv> ac_ledger (snd (reconcile_global K fg s))"
  shows "\<exists>es turn. distinct es \<and> set es = {e. expired e}
    \<and> ac_world (turn 0) = ac_world s \<and> ac_qos (turn 0) = ac_qos s
    \<and> ac_world s' = ac_world (turn (length es)) \<and> ac_qos s' = ac_qos (turn (length es))
    \<and> (\<forall>eff. (\<forall>e. ledger_get eff (ac_ledger s) = Some e \<longrightarrow> \<not> expired e) \<longrightarrow>
          ledger_get eff l' = ledger_get eff (ac_ledger s))
    \<and> (\<forall>i < length es. let e = es ! i; live = fst (pid_start_time K (effect_pid (le_effect e)) (ac_world (turn i)))
         in if live \<noteq> 0 \<and> live = le_start_sec e then
              turn (Suc i) = snd (undo_effect K (le_effect e) (turn i))
              \<and> (if fst (undo_effect K (le_effect e) (turn i)) then ledger_get (le_effect e) l' = None
                 else \<exists>r. ledger_get (le_effect e) l' = Some r \<and> le_effect r = le_effect e
                   \<and> le_start_sec r = le_start_sec e \<and> le_justification r = le_justification e
                   \<and> unat (le_revert_failures r) = min (Suc (unat (le_revert_failures e))) 255
                   \<and> le_applied_at r = k_now K (ac_world (turn (Suc i))))
            else turn (Suc i) = turn i \<and> ledger_get (le_effect e) l' = None)"
proof -
  define dr where "dr = drain_expired (k_now K (ac_world s)) fg (ac_ledger s)"
  define s0 where "s0 = s\<lparr> ac_ledger := snd dr \<rparr>"
  define turn where "turn = after_entries K (fst dr) s0"
  note pass = reconcile_dispositions [OF assms(1), of K fg, folded dr_def, folded s0_def l'_def]
  have drained: "e \<in> set (fst dr) \<longleftrightarrow> expired e" for e
    unfolding dr_def expired_def by (rule drained_expired [OF assms(1)])
  have "distinct (fst dr)"
    using drained_distinct [OF assms(1), of "k_now K (ac_world s)" fg] by (simp add: dr_def distinct_map)
  moreover have "turn 0 = s0" by (simp add: turn_def after_entries_def)
  moreover have "ac_world s' = ac_world (turn (length (fst dr))) \<and> ac_qos s' = ac_qos (turn (length (fst dr)))"
    unfolding s'_def reconcile_global_def reconcile_drained_def dr_def [symmetric]
    by (auto simp: case_prod_unfold Let_def reconcile_drained_trace reinsert_all_def s0_def turn_def after_entries_def)
  moreover have "ledger_get eff l' = ledger_get eff (ac_ledger s)"
    if "\<forall>e. ledger_get eff (ac_ledger s) = Some e \<longrightarrow> \<not> expired e" for eff
    using pass that drained by blast
  moreover have "let e = fst dr ! i; live = fst (pid_start_time K (effect_pid (le_effect e)) (ac_world (turn i)))
      in if live \<noteq> 0 \<and> live = le_start_sec e then
           turn (Suc i) = snd (undo_effect K (le_effect e) (turn i))
           \<and> (if fst (undo_effect K (le_effect e) (turn i)) then ledger_get (le_effect e) l' = None
              else \<exists>r. ledger_get (le_effect e) l' = Some r \<and> le_effect r = le_effect e
                \<and> le_start_sec r = le_start_sec e \<and> le_justification r = le_justification e
                \<and> unat (le_revert_failures r) = min (Suc (unat (le_revert_failures e))) 255
                \<and> le_applied_at r = k_now K (ac_world (turn (Suc i))))
         else turn (Suc i) = turn i \<and> ledger_get (le_effect e) l' = None"
    if i: "i < length (fst dr)" for i
  proof -
    let ?e = "fst dr ! i" and ?x = "entry_result K (fst dr ! i) (turn i)"
    have "ledger_get (le_effect ?e) l' = fst (snd ?x)" "turn (Suc i) = snd (snd ?x)"
      using pass trace_turn [OF i, of K s0] after_entries_Suc [OF i, of K s0] by (auto simp: turn_def)
    then show ?thesis
      by (auto simp: entry_result_def Let_def case_prod_unfold retry_fields retry_failures)
  qed
  ultimately show ?thesis
    using drained by (intro exI [of _ "fst dr"] exI [of _ turn]) (auto simp: s0_def)
qed

definition example_actuators :: "u32 multiset actuators" where
  "example_actuators = \<lparr> ac_ledger = ledger_record 0 (DarwinBg 9) 0 9 ''bg'' ledger_new,
     ac_qos = qos_manager_new, ac_world = {#} \<rparr>"

lemma example_actuators_inv: "ledger_inv (ac_ledger example_actuators)"
  by (simp add: example_actuators_def ledger_inv_intros)

definition refusing_kernel :: "u32 multiset kernel" where
  "refusing_kernel = example_kernel\<lparr> k_setpriority := (\<lambda>_ _ _ w. (1, w)) \<rparr>"

definition example_drained :: ledger_entry where
  "example_drained = \<lparr> le_effect = DarwinBg 9, le_applied_at = 0, le_ttl = 0, le_start_sec = 9,
     le_justification = ''bg'', le_revert_failures = 0 \<rparr>"

lemma example_drain:
  "ledger_get eff (ac_ledger example_actuators) = Some e \<longleftrightarrow>
     effect_key_of eff = effect_key_of (DarwinBg 9) \<and> e = example_drained"
  "entry_expired 0 None k example_drained"
  by (auto simp: example_actuators_def ledger_get_def ledger_record_def ledger_new_def example_drained_def
      hm_insert_def hm_remove_def hm_get_def entry_expired_def)

text \<open>
  One expired background entry: a kernel that refuses the undo leaves it in the ledger, one failure
  older, and one that obeys leaves nothing.
\<close>

lemma reconcile_conserves_effects_witness:
  "(\<exists>r. ledger_get (DarwinBg 9) (ac_ledger (snd (reconcile_global refusing_kernel None example_actuators))) = Some r
      \<and> le_effect r = DarwinBg 9 \<and> unat (le_revert_failures r) = 1)
   \<and> ledger_get (DarwinBg 9) (ac_ledger (snd (reconcile_global example_kernel None example_actuators))) = None"
proof -
  have K: "k_now refusing_kernel w = 0" "k_now example_kernel w = 0"
    "fst (pid_start_time refusing_kernel 9 w) = 9" "fst (pid_start_time example_kernel 9 w) = 9" for w
    by (simp_all add: refusing_kernel_def example_kernel_def pid_start_time_def)
  have due: "ledger_get (le_effect e) (ac_ledger example_actuators) = Some e
      \<and> entry_expired 0 None (effect_key_of (le_effect e)) e \<longleftrightarrow> e = example_drained" for e
  proof -
    have "effect_key_of (le_effect example_drained) = effect_key_of (DarwinBg 9)" by (simp add: example_drained_def)
    then show ?thesis unfolding example_drain(1) using example_drain(2) by metis
  qed
  have one: "es = [example_drained]" if "distinct es" "set es = {e. e = example_drained}" for es
    using that distinct_card [OF that(1)] by (cases es; cases "tl es") auto
  have undo: "\<not> fst (undo_effect refusing_kernel (DarwinBg 9) s)" "fst (undo_effect example_kernel (DarwinBg 9) s)" for s
    by (simp_all add: refusing_kernel_def example_kernel_def)
  have fields: "le_effect example_drained = DarwinBg 9" "le_start_sec example_drained = 9"
    "le_revert_failures example_drained = 0" by (simp_all add: example_drained_def)
  have "\<exists>r. ledger_get (DarwinBg 9) (ac_ledger (snd (reconcile_global refusing_kernel None example_actuators))) = Some r
      \<and> le_effect r = DarwinBg 9 \<and> unat (le_revert_failures r) = 1"
    using reconcile_conserves_effects [OF example_actuators_inv, of refusing_kernel None] undo(1)
    unfolding K due
    by (elim exE conjE) (drule one, assumption, simp add: fields K Let_def del: undo_effect.simps, blast)
  moreover have "ledger_get (DarwinBg 9) (ac_ledger (snd (reconcile_global example_kernel None example_actuators))) = None"
    using reconcile_conserves_effects [OF example_actuators_inv, of example_kernel None] undo(2)
    unfolding K due
    by (elim exE conjE) (drule one, assumption, simp add: fields K Let_def del: undo_effect.simps)
  ultimately show ?thesis ..
qed

text \<open>
  The report of a pass is the account of its dispositions: \<open>reverted\<close> counts the undone
  entries, \<open>failed\<close> those that failed for the first time, the receipts are the first 640
  dispositions in order, and every disposition beyond them is counted as dropped.
\<close>

theorem reconcile_report:
  fixes K :: "'w kernel" and s :: "'w actuators" and fg :: "u32 option"
  assumes "ledger_inv (ac_ledger s)"
  defines "dr \<equiv> drain_expired (k_now K (ac_world s)) fg (ac_ledger s)"
    and "out \<equiv> fst (reconcile_global K fg s)"
  defines "tr \<equiv> fst (reconcile_trace K (fst dr) (s\<lparr> ac_ledger := snd dr \<rparr>))"
  shows "ro_reverted out = of_nat (length (filter (\<lambda>(_, d, _). d = Reverted) tr))
    \<and> ro_failed out = of_nat (length (filter (\<lambda>(e, d, _). d = RevertFailed \<and> le_revert_failures e = 0) tr))
    \<and> ro_receipts out = take 640 (map receipt_of tr)
    \<and> unat (ro_receipts_dropped out) = min (length tr - 640) (2 ^ 64 - 1)
    \<and> length (ro_receipts out) \<le> 640"
proof (intro conjI)
  have out: "out = fold account tr reconcile_outcome_default"
    unfolding out_def tr_def dr_def by (rule reconcile_global_trace(1) [OF assms(1)])
  show "ro_reverted out = of_nat (length (filter (\<lambda>(_, d, _). d = Reverted) tr))"
    and "ro_failed out = of_nat (length (filter (\<lambda>(e, d, _). d = RevertFailed \<and> le_revert_failures e = 0) tr))"
    by (simp_all add: out account_counters reconcile_outcome_default_def)
  show receipts: "ro_receipts out = take 640 (map receipt_of tr)"
    by (simp add: out receipts_fold reconcile_outcome_default_def MAX_RECONCILE_RECEIPTS_def)
  show "unat (ro_receipts_dropped out) = min (length tr - 640) (2 ^ 64 - 1)"
    by (simp add: out receipts_fold reconcile_outcome_default_def MAX_RECONCILE_RECEIPTS_def)
  show "length (ro_receipts out) \<le> 640" by (simp add: receipts)
qed

lemma reconcile_report_witness:
  "length (ro_receipts (fst (reconcile_global example_kernel None example_actuators))) \<le> 640"
  using reconcile_report [OF example_actuators_inv] by blast

subsection \<open>Producers between the drain and the re-insertion\<close>

text \<open>
  The pass as another thread sees it: \<open>f\<close> is what producers do to the ledger between the loop
  and the re-insertion of the entries to retry, while the pass does not hold the lock.
\<close>

definition reconcile_interleaved :: "'w kernel \<Rightarrow> u32 option \<Rightarrow> (effect_ledger \<Rightarrow> effect_ledger) \<Rightarrow>
    'w actuators \<Rightarrow> reconcile_outcome \<times> 'w actuators" where
  "reconcile_interleaved K foreground f s =
     (let (expired, l) = drain_expired (k_now K (ac_world s)) foreground (ac_ledger s);
          s = s\<lparr> ac_ledger := l \<rparr> in
      if expired = [] then (reconcile_outcome_default, s\<lparr> ac_ledger := f (ac_ledger s) \<rparr>)
      else let (out, retry, s) = reconcile_drained K expired s;
               s = s\<lparr> ac_ledger := f (ac_ledger s) \<rparr>
        in (out, if retry = [] then s else reinsert_all retry s))"

lemma reconcile_interleaved_id: "reconcile_interleaved K fg (\<lambda>l. l) s = reconcile_global K fg s"
  by (simp add: reconcile_interleaved_def reconcile_global_def case_prod_unfold Let_def)

text \<open>
  C34: The re-insertion of a failed entry does not look at what is there: when a producer
  records the same kind of effect on the same process while the pass runs, and the old entry's
  undo failed, the retry of the old entry replaces the new record, with its owner, its captured
  prior value and its time to live.
\<close>

theorem retry_overwrites_concurrent_record:
  fixes K :: "'w kernel" and s :: "'w actuators" and fg :: "u32 option"
  assumes inv: "ledger_inv (ac_ledger s)"
  defines "dr \<equiv> drain_expired (k_now K (ac_world s)) fg (ac_ledger s)"
  defines "tr \<equiv> fst (reconcile_trace K (fst dr) (s\<lparr> ac_ledger := snd dr \<rparr>))"
  assumes failed: "(e, RevertFailed, Some r) \<in> set tr"
    and same: "effect_key_of eff = effect_key_of (le_effect e)"
  shows "ledger_get eff (ac_ledger (snd (reconcile_interleaved K fg
      (ledger_record t eff ttl start why) s))) = Some r
    \<and> le_effect r = le_effect e \<and> le_justification r = le_justification e"
proof (intro conjI)
  have keys: "distinct (map (\<lambda>e. effect_key_of (le_effect e)) (fst dr))"
    unfolding dr_def by (rule drained_distinct [OF inv])
  have "tr \<noteq> []" using failed by auto
  then have "fst dr \<noteq> []" by (auto simp: tr_def)
  have find: "find (\<lambda>x. effect_key_of (le_effect x) = effect_key_of eff) (rev (retried tr)) = Some r"
    unfolding same using failed unfolding tr_def by (rule retried_find [OF keys])
  then have "retried tr \<noteq> []" by auto
  then show "ledger_get eff (ac_ledger (snd (reconcile_interleaved K fg
      (ledger_record t eff ttl start why) s))) = Some r"
    using \<open>fst dr \<noteq> []\<close> find
    unfolding reconcile_interleaved_def reconcile_drained_def dr_def [symmetric]
    by (simp add: case_prod_unfold Let_def reconcile_drained_trace reinsert_all_def ledger_get_def
        tr_def reinsert_get)
  obtain s1 s2 where "entry_result K e s1 = (RevertFailed, Some r, s2)"
    using trace_result failed unfolding tr_def by blast
  then show "le_effect r = le_effect e" and "le_justification r = le_justification e"
    by (cases rule: entry_result_cases [of K e s1]; auto simp: retry_fields)+
qed

lemma retry_overwrites_concurrent_record_witness:
  "ledger_get (DarwinBg 9) (ac_ledger (snd (reconcile_interleaved refusing_kernel None
      (ledger_record 5 (DarwinBg 9) 600 9 ''new owner'') example_actuators))) =
     Some (snd (schedule_revert_retry 0 example_drained))"
proof -
  have drain: "drain_expired (k_now refusing_kernel (ac_world example_actuators)) None
      (ac_ledger example_actuators) = ([example_drained], ledger_new)"
    by (simp add: drain_expired_def example_actuators_def ledger_record_def ledger_new_def
        entry_expired_def example_drained_def hm_insert_def hm_remove_def hm_get_def effect_key_of_def)
  have "fst (reconcile_trace refusing_kernel [example_drained] (example_actuators\<lparr> ac_ledger := ledger_new \<rparr>)) =
      [(example_drained, RevertFailed, Some (snd (schedule_revert_retry 0 example_drained)))]"
    by (simp add: entry_result_def refusing_kernel_def example_kernel_def example_drained_def
        pid_start_time_def)
  then show ?thesis
    using retry_overwrites_concurrent_record [OF example_actuators_inv, of example_drained
        "snd (schedule_revert_retry 0 example_drained)" refusing_kernel None "DarwinBg 9" 5 600 9 "''new owner''"]
    unfolding drain by (simp add: example_drained_def)
qed

subsection \<open>Any sequence of calls\<close>

datatype 'w actuator_op =
    OpRecord applied_effect duration u64 string
  | OpForget applied_effect
  | OpForgetIf applied_effect string
  | OpRefreshIf applied_effect duration u64 string
  | OpRefreshNice u32 duration
  | OpCleanup "u32 list"
  | OpReconcile "u32 option"
  | OpSetTier u32 scheduling_tier
  | OpSetTierIf u32 scheduling_tier "'w \<Rightarrow> bool \<times> 'w"
  | OpTaskQos u32 latency_tier throughput_tier
  | OpIoTier u32 i32
  | OpAppNap u32 bool
  | OpReleaseNaps
  | OpLease u32
  | OpGc
  | OpAnalyze u32 "thread_snapshot list"
  | OpThreadQos u32 u32 thread_tier

definition with_ledger :: "(instant \<Rightarrow> effect_ledger \<Rightarrow> effect_ledger) \<Rightarrow> 'w kernel \<Rightarrow>
    'w actuators \<Rightarrow> 'w actuators" where
  "with_ledger f K s = s\<lparr> ac_ledger := f (k_now K (ac_world s)) (ac_ledger s) \<rparr>"

definition with_qos :: "(mach_qos_manager \<Rightarrow> 'w \<Rightarrow> 'a \<times> mach_qos_manager \<times> 'w) \<Rightarrow>
    'w actuators \<Rightarrow> 'w actuators" where
  "with_qos f s = (let (_, m, w) = f (ac_qos s) (ac_world s) in s\<lparr> ac_qos := m, ac_world := w \<rparr>)"

fun actuator_step :: "'w kernel \<Rightarrow> 'w actuator_op \<Rightarrow> 'w actuators \<Rightarrow> 'w actuators" where
  "actuator_step K (OpRecord e ttl start why) s = with_ledger (\<lambda>t. ledger_record t e ttl start why) K s"
| "actuator_step K (OpForget e) s = with_ledger (\<lambda>_. ledger_forget e) K s"
| "actuator_step K (OpForgetIf e why) s = with_ledger (\<lambda>_ l. snd (forget_if_justification e why l)) K s"
| "actuator_step K (OpRefreshIf e ttl start why) s =
     with_ledger (\<lambda>t l. snd (refresh_if_justification t e ttl start why l)) K s"
| "actuator_step K (OpRefreshNice pid ttl) s = with_ledger (\<lambda>t l. snd (refresh_nice t pid ttl l)) K s"
| "actuator_step K (OpCleanup live) s = with_ledger (\<lambda>_. ledger_cleanup live) K s"
| "actuator_step K (OpReconcile fg) s = snd (reconcile_global K fg s)"
| "actuator_step K (OpSetTier pid tier) s = with_qos (set_tier K pid tier) s"
| "actuator_step K (OpSetTierIf pid tier auth) s = with_qos (set_tier_audited_if K pid tier auth) s"
| "actuator_step K (OpTaskQos pid lat thr) s = with_qos (apply_qos_tier K pid lat thr) s"
| "actuator_step K (OpIoTier pid t) s = with_qos (set_io_tier K pid t) s"
| "actuator_step K (OpAppNap pid b) s =
     (let (_, m, l, w) = set_app_nap K pid b (ac_qos s) (ac_ledger s) (ac_world s)
      in \<lparr> ac_ledger = l, ac_qos = m, ac_world = w \<rparr>)"
| "actuator_step K OpReleaseNaps s =
     (let (m, l, w) = release_all_app_nap K (ac_qos s) (ac_ledger s) (ac_world s)
      in \<lparr> ac_ledger = l, ac_qos = m, ac_world = w \<rparr>)"
| "actuator_step K (OpLease pid) s = with_qos (acquire_task_policy_lease K pid) s"
| "actuator_step K OpGc s = s\<lparr> ac_qos := gc_dead_pids K (ac_world s) (ac_qos s) \<rparr>"
| "actuator_step K (OpAnalyze pid ts) s = s\<lparr> ac_qos := snd (analyze_threads pid ts (ac_qos s)) \<rparr>"
| "actuator_step K (OpThreadQos pid i t) s = with_qos (set_thread_qos_audited K pid i t) s"

definition actuators_inv :: "'w actuators \<Rightarrow> bool" where
  "actuators_inv s \<longleftrightarrow> ledger_inv (ac_ledger s) \<and> qos_inv (ac_qos s)"

lemma with_ledger_inv:
  "actuators_inv s \<Longrightarrow> (\<And>t. ledger_inv (f t (ac_ledger s))) \<Longrightarrow> actuators_inv (with_ledger f K s)"
  by (simp add: actuators_inv_def with_ledger_def)

lemma with_qos_inv:
  "actuators_inv s \<Longrightarrow> qos_inv (fst (snd (f (ac_qos s) (ac_world s)))) \<Longrightarrow> actuators_inv (with_qos f s)"
  by (simp add: actuators_inv_def with_qos_def case_prod_unfold Let_def)

lemma undo_inv: "actuators_inv s \<Longrightarrow> actuators_inv (snd (undo_effect K e s))"
  by (cases e) (simp_all add: actuators_inv_def case_prod_unfold Let_def set_tier_inv set_app_nap_inv
      set_latency_and_throughput_def apply_qos_tier_inv)

lemma trace_inv: "actuators_inv s \<Longrightarrow> actuators_inv (snd (reconcile_trace K es s))"
proof (induction es arbitrary: s)
  case (Cons e es)
  have "actuators_inv (snd (snd (entry_result K e s)))"
    using Cons.prems by (cases rule: entry_result_cases [of K e s]) (simp_all add: undo_inv)
  then show ?case using Cons.IH by (simp add: case_prod_unfold Let_def)
qed simp

lemma reinsert_all_inv: "actuators_inv s \<Longrightarrow> actuators_inv (reinsert_all es s)"
proof -
  have "ledger_inv l \<Longrightarrow> ledger_inv (fold reinsert_entry es l)" for l
    by (induction es arbitrary: l) (simp_all add: ledger_inv_reinsert)
  then show "actuators_inv s \<Longrightarrow> actuators_inv (reinsert_all es s)"
    by (simp add: actuators_inv_def reinsert_all_def)
qed

lemma reconcile_inv:
  assumes "actuators_inv s"
  shows "actuators_inv (snd (reconcile_global K fg s))"
proof -
  let ?dr = "drain_expired (k_now K (ac_world s)) fg (ac_ledger s)"
  have "actuators_inv (s\<lparr> ac_ledger := snd ?dr \<rparr>)"
    using assms by (simp add: actuators_inv_def ledger_inv_drain)
  moreover from this have "actuators_inv (snd (reconcile_trace K (fst ?dr) (s\<lparr> ac_ledger := snd ?dr \<rparr>)))"
    by (rule trace_inv)
  ultimately show ?thesis
    by (simp add: reconcile_global_def reconcile_drained_def case_prod_unfold Let_def
        reconcile_drained_trace reinsert_all_inv)
qed

interpretation act: invariant_machine "actuator_step K" actuators_inv for K :: "'w kernel"
proof
  fix s :: "'w actuators" and op :: "'w actuator_op"
  assume inv: "actuators_inv s"
  then have parts: "ledger_inv (ac_ledger s)" "qos_inv (ac_qos s)" by (simp_all add: actuators_inv_def)
  have both: "actuators_inv (actuator_step K (OpAppNap pid b) s)"
    "actuators_inv (actuator_step K OpReleaseNaps s)" "actuators_inv (actuator_step K OpGc s)"
    "actuators_inv (actuator_step K (OpAnalyze pid ts) s)" for pid b ts
    using parts
    by (simp_all add: release_all_app_nap_def release_app_naps_inv actuators_inv_def set_app_nap_inv
        gc_inv analyze_inv case_prod_unfold Let_def)
  show "actuators_inv (actuator_step K op s)"
    using inv parts both
    by (cases op) (simp_all add: with_ledger_inv with_qos_inv ledger_inv_intros qos_inv_intros
        reconcile_inv del: actuator_step.simps(12,13,15,16))
qed

definition actuators_new :: "'w \<Rightarrow> 'w actuators" where
  "actuators_new w = \<lparr> ac_ledger = ledger_new, ac_qos = qos_manager_new, ac_world = w \<rparr>"

lemma ledger_size_bound:
  assumes "ledger_inv l"
  shows "ledger_len l \<le> 7 * card (fst ` hm_keys (el_entries l))"
proof -
  let ?keys = "hm_keys (el_entries l)"
  have "?keys \<subseteq> (fst ` ?keys) \<times> (word_of_nat ` {..<7})"
  proof
    fix k
    assume k: "k \<in> ?keys"
    then obtain e where "(k, e) \<in> set (el_entries l)" by (auto simp: hm_keys_def)
    then have "k = effect_key_of (le_effect e)" using assms by (auto simp: ledger_inv_def)
    then have "snd k = word_of_nat (unat (effect_kind (le_effect e)))" by (simp add: effect_key_of_def)
    then have "snd k \<in> word_of_nat ` {..<7}" using effect_kind_bound by blast
    then show "k \<in> (fst ` ?keys) \<times> (word_of_nat ` {..<7})" using k by (metis image_eqI mem_Times_iff)
  qed
  moreover have "finite ((fst ` ?keys) \<times> ((word_of_nat :: nat \<Rightarrow> u8) ` {..<7}))" by (simp add: hm_keys_def)
  ultimately have "card ?keys \<le> card ((fst ` ?keys) \<times> ((word_of_nat :: nat \<Rightarrow> u8) ` {..<7}))"
    by (rule card_mono [rotated])
  also have "\<dots> \<le> card (fst ` ?keys) * 7"
    using card_image_le [of "{..<7::nat}" "word_of_nat :: nat \<Rightarrow> u8"] by (simp add: card_cartesian_product)
  finally show ?thesis using assms by (simp add: ledger_inv_def ledger_len_def hm.len_card mult.commute)
qed

text \<open>
  C19: After any sequence of actuator calls against any kernel, every ledger entry stands under
  the process and kind of its own effect, so that there are at most seven per process; the
  tables of the QoS manager have one entry per key; and a process is blocked exactly when the
  time of its block is known, so that every block can expire.
\<close>

theorem actuators_reachable_inv:
  fixes K :: "'w kernel" and w :: 'w and ops :: "'w actuator_op list"
  defines "s \<equiv> fold (actuator_step K) ops (actuators_new w)"
  shows "ledger_inv (ac_ledger s) \<and> qos_inv (ac_qos s)
    \<and> ledger_len (ac_ledger s) \<le> 7 * card (fst ` hm_keys (el_entries (ac_ledger s)))
    \<and> (is_blocked (ac_qos s) pid \<longleftrightarrow> hm_get (qm_permanently_blocked_since (ac_qos s)) pid \<noteq> None)"
proof (intro conjI)
  have "actuators_inv (actuators_new w)"
    by (simp add: actuators_inv_def actuators_new_def ledger_inv_new qos_inv_new)
  then have inv: "actuators_inv s" unfolding s_def by (rule act.run_inv)
  then show "ledger_inv (ac_ledger s)" and "qos_inv (ac_qos s)" by (simp_all add: actuators_inv_def)
  then show "ledger_len (ac_ledger s) \<le> 7 * card (fst ` hm_keys (el_entries (ac_ledger s)))"
    by (simp add: ledger_size_bound)
  show "is_blocked (ac_qos s) pid \<longleftrightarrow> hm_get (qm_permanently_blocked_since (ac_qos s)) pid \<noteq> None"
    using \<open>qos_inv (ac_qos s)\<close> unfolding is_blocked_def hm_contains_keys qos_inv_def
    by (simp add: hm.keys_get)
qed

end
