(* ===== verification/Lab_Types.thy ===== *)
theory Lab_Types
  imports Exploration_Pair
begin

text \<open>
  The data of \<open>engine/microexperiment_lab.rs\<close>: phases, pairs, endpoints, closures, the two
  kinds of tracked pair, the metrics and the rollout, and the pure checks on them. Pair
  identities are 128-bit words; text that the code only compares is a \<open>string\<close>.
\<close>

definition MAX_OPEN_PAIRS :: nat where "MAX_OPEN_PAIRS = 32"
definition MAX_SHADOW_TERMINAL_MEMORY :: nat where "MAX_SHADOW_TERMINAL_MEMORY = 64"
definition MAX_CONSUMED_EXPERIMENTS :: nat where "MAX_CONSUMED_EXPERIMENTS = 512"
definition MAX_SHADOW_ARMS_PER_CYCLE :: nat where "MAX_SHADOW_ARMS_PER_CYCLE = 4"
definition MAX_COMPLETED_PAIRS :: nat where "MAX_COMPLETED_PAIRS = 128"
definition MAX_GOLD_DEDUP :: nat where "MAX_GOLD_DEDUP = 128"
definition MAX_SERIALIZED_BYTES :: nat where "MAX_SERIALIZED_BYTES = 64 * 1024"
definition MAX_ACTION_KEY_BYTES :: nat where "MAX_ACTION_KEY_BYTES = 96"
definition SHADOW_MIN_OPPORTUNITIES :: u64 where "SHADOW_MIN_OPPORTUNITIES = 500"
definition SHADOW_MIN_MEASUREMENTS :: u64 where "SHADOW_MIN_MEASUREMENTS = 8"
definition SHADOW_MIN_DURATION_MS :: u64 where "SHADOW_MIN_DURATION_MS = 15 * 60 * 1000"
definition CANARY_MIN_OPPORTUNITIES :: u64 where "CANARY_MIN_OPPORTUNITIES = 500"
definition CANARY_PERCENT :: u8 where "CANARY_PERCENT = 10"
definition ENDPOINT_GRACE_CYCLES :: u64 where "ENDPOINT_GRACE_CYCLES = 12"
definition LAB_SCHEMA_VERSION :: u32 where "LAB_SCHEMA_VERSION = 2"

lemmas lab_limits = MAX_OPEN_PAIRS_def MAX_SHADOW_TERMINAL_MEMORY_def MAX_CONSUMED_EXPERIMENTS_def
  MAX_SHADOW_ARMS_PER_CYCLE_def MAX_COMPLETED_PAIRS_def MAX_GOLD_DEDUP_def

datatype lab_phase = PhaseShadow | PhaseCanary | PhaseActive

fun phase_as_str :: "lab_phase \<Rightarrow> string" where
  "phase_as_str PhaseShadow = ''shadow''"
| "phase_as_str PhaseCanary = ''canary''"
| "phase_as_str PhaseActive = ''active''"

record lab_rollout_config =
  rc_shadow_min_opportunities :: u64
  rc_shadow_min_measurements :: u64
  rc_shadow_min_duration_ms :: u64
  rc_canary_percent :: u8
  rc_canary_min_opportunities :: u64

definition rollout_config_default :: lab_rollout_config where
  "rollout_config_default = \<lparr> rc_shadow_min_opportunities = SHADOW_MIN_OPPORTUNITIES,
     rc_shadow_min_measurements = SHADOW_MIN_MEASUREMENTS,
     rc_shadow_min_duration_ms = SHADOW_MIN_DURATION_MS, rc_canary_percent = CANARY_PERCENT,
     rc_canary_min_opportunities = CANARY_MIN_OPPORTUNITIES \<rparr>"

type_synonym pair_id = u128

datatype arm_kind = ArmControl | ArmTreatment

fun complement :: "arm_kind \<Rightarrow> arm_kind" where
  "complement ArmControl = ArmTreatment"
| "complement ArmTreatment = ArmControl"

datatype pair_order = ControlThenTreatment | TreatmentThenControl

fun order_arms :: "pair_order \<Rightarrow> arm_kind \<times> arm_kind" where
  "order_arms ControlThenTreatment = (ArmControl, ArmTreatment)"
| "order_arms TreatmentThenControl = (ArmTreatment, ArmControl)"

datatype execution_closure = ExApplied | ExNoOp | ExFailed | ExBlocked
datatype horizon_closure = HzComplete | HzIncomplete | HzConfounded | HzExpired
datatype rollback_closure =
  RbSucceeded | RbNotRequiredNonKernel | RbFailed | RbIdentityGone | RbInterrupted
datatype evidence_closure = Bronze | Silver | PairGold

record pair_candidate =
  pc_sequence :: u64
  pc_origin :: origin
  pc_family :: actuator_family
  pc_action_class :: action_class
  pc_treatment_arm :: arm
  pc_context :: exploration_context
  pc_action_key :: string
  pc_stratum_hash :: u64
  pc_horizon_cycles :: u32
  pc_washout_cycles :: u32
  pc_minimum_effect_micros :: i64

record pair_gates =
  experiments_enabled :: bool
  privacy_known :: bool
  secure_input :: bool
  screen_capture :: bool
  camera_active :: bool
  sensitive_context :: bool
  inherited_safe :: bool

definition healthy_enabled :: pair_gates where
  "healthy_enabled = \<lparr> experiments_enabled = True, privacy_known = True, secure_input = False,
     screen_capture = False, camera_active = False, sensitive_context = False, inherited_safe = True \<rparr>"

definition pair_gates_default :: pair_gates where
  "pair_gates_default = \<lparr> experiments_enabled = False, privacy_known = False, secure_input = False,
     screen_capture = False, camera_active = False, sensitive_context = False, inherited_safe = False \<rparr>"

definition allows_pair :: "pair_gates \<Rightarrow> bool" where
  "allows_pair g \<longleftrightarrow> experiments_enabled g \<and> privacy_known g \<and> \<not> secure_input g \<and> \<not> screen_capture g
     \<and> \<not> camera_active g \<and> \<not> sensitive_context g \<and> inherited_safe g"

record pair_assignment =
  pa_id :: pair_id
  pa_order :: pair_order
  pa_first :: arm_kind
  pa_second :: arm_kind

datatype candidate_disposition =
  CdShadow pair_assignment | CdCanarySkipped | CdOpened pair_assignment

record pair_directive =
  pd_pair_id :: pair_id
  pd_arm :: arm_kind
  pd_treatment_arm :: arm
  pd_family :: actuator_family
  pd_action_class :: action_class
  pd_context :: exploration_context
  pd_action_key :: string
  pd_stratum_hash :: u64
  pd_issued_cycle :: u64
  pd_complete_not_before_cycle :: u64
  pd_expires_after_cycle :: u64
  pd_rollback_required :: bool
  pd_observe_only :: bool

record pair_endpoint =
  pe_arm :: arm_kind
  pe_origin :: origin
  pe_family :: actuator_family
  pe_action_class :: action_class
  pe_context :: exploration_context
  pe_action_key :: string
  pe_stratum_hash :: u64
  pe_horizon_cycles :: u32
  pe_decision_id :: u64
  pe_observed_local :: bool
  pe_synthetic :: bool
  pe_execution :: execution_closure
  pe_horizon :: horizon_closure
  pe_rollback :: rollback_closure
  pe_utility_micros :: i64

record timed_pair_endpoint =
  te_pair_id :: pair_id
  te_issued_cycle :: u64
  te_completed_cycle :: u64
  te_endpoint :: pair_endpoint

datatype pair_invalidation_reason =
    PiSafetyGate | PiDeadlineExpired | PiConfounded | PiIncompleteHorizon | PiFailedExecution
  | PiFailedRollback | PiUnauthoritative | PiClockRegression

record pair_invalidation =
  pi_pair_id :: pair_id
  pi_reason :: pair_invalidation_reason
  pi_family :: actuator_family
  pi_action_key :: string
  pi_rollback_required :: bool

datatype pair_progress = AwaitingFirst | Washout | AwaitingComplement | ReadyToClose

datatype timed_endpoint_disposition =
  TdProgress pair_progress | TdInvalidated pair_invalidation | TdShadowMeasured

record issued_arm =
  ia_arm :: arm_kind
  ia_issued_cycle :: u64
  ia_complete_not_before_cycle :: u64
  ia_expires_after_cycle :: u64

datatype pair_rejection = ControlNotHonoured | UnexpectedFamily

datatype pair_consumption = PcAccepted experiment_id | PcDuplicate | PcRejected pair_rejection

record shadow_pair_record =
  sp_candidate :: pair_candidate
  sp_assignment :: pair_assignment
  sp_issued :: "issued_arm option"
  sp_control_endpoint :: "pair_endpoint option"

record pair_record =
  pr_candidate :: pair_candidate
  pr_assignment :: pair_assignment
  pr_first_endpoint :: "pair_endpoint option"
  pr_second_endpoint :: "pair_endpoint option"
  pr_washout_elapsed :: u32
  pr_progress :: pair_progress
  pr_issued :: "issued_arm option"
  pr_washout_started_cycle :: "u64 option"

record pair_closure =
  cl_id :: pair_id
  cl_evidence :: evidence_closure
  cl_effect_micros :: i64
  cl_effective :: bool
  cl_harmful :: bool

record pair_gold_record =
  pg_id :: pair_id
  pg_origin :: origin
  pg_family :: actuator_family
  pg_action_class :: action_class
  pg_action_key :: string
  pg_stratum_hash :: u64
  pg_control_decision_id :: u64
  pg_treatment_decision_id :: u64
  pg_effect_micros :: i64
  pg_effective :: bool
  pg_harmful :: bool

record completed_pair_summary =
  cs_id :: pair_id
  cs_evidence :: evidence_closure
  cs_effect_micros :: i64
  cs_effective :: bool
  cs_harmful :: bool
  cs_interrupted :: bool

datatype lab_error =
    LeCatalog | LeGate | LeOrigin | LeInvalid | LeCapacity | LeDuplicatePair | LeUnknownPair
  | LeDuplicateArm | LeWrongArm | LeWashoutPending | LeMismatch | LeNotReady | LeHorizonPending
  | LeEndpointNotIssued | LeDeadlineExpired

datatype restore_disposition = Restored | RestoredInterrupted | ResetOrigin | ResetHostile

record lab_metrics =
  lm_proposed :: u64
  lm_eligible :: u64
  lm_randomized :: u64
  lm_control_endpoints :: u64
  lm_treatment_endpoints :: u64
  lm_complete_horizons :: u64
  lm_rollback_closed :: u64
  lm_pair_gold :: u64
  lm_effective :: u64
  lm_harmful :: u64
  lm_confounded :: u64
  lm_interrupted :: u64
  lm_synthetic_quarantined :: u64
  lm_shadow_would_open :: u64
  lm_shadow_proven :: u64
  lm_shadow_refused :: u64
  lm_pairs_seen :: u64
  lm_pairs_accepted :: u64
  lm_pairs_duplicate :: u64
  lm_pairs_rejected :: u64
  lm_causal_pairs_consumed :: u64
  lm_shadow_expired :: u64
  lm_shadow_reaped :: u64
  lm_shadow_high_watermark :: u32
  lm_shadow_late :: u64
  lm_invalidated :: u64
  lm_deadline_expired :: u64
  lm_unbound_expiries :: u64
  lm_rollback_failed :: u64

definition lab_metrics_default :: lab_metrics where
  "lab_metrics_default = \<lparr> lm_proposed = 0, lm_eligible = 0, lm_randomized = 0,
     lm_control_endpoints = 0, lm_treatment_endpoints = 0, lm_complete_horizons = 0,
     lm_rollback_closed = 0, lm_pair_gold = 0, lm_effective = 0, lm_harmful = 0, lm_confounded = 0,
     lm_interrupted = 0, lm_synthetic_quarantined = 0, lm_shadow_would_open = 0,
     lm_shadow_proven = 0, lm_shadow_refused = 0, lm_pairs_seen = 0, lm_pairs_accepted = 0,
     lm_pairs_duplicate = 0, lm_pairs_rejected = 0, lm_causal_pairs_consumed = 0,
     lm_shadow_expired = 0, lm_shadow_reaped = 0, lm_shadow_high_watermark = 0, lm_shadow_late = 0,
     lm_invalidated = 0, lm_deadline_expired = 0, lm_unbound_expiries = 0, lm_rollback_failed = 0 \<rparr>"

record lab_rollout =
  ro_phase :: lab_phase
  ro_phase_started_millis :: u64
  ro_last_monotonic_millis :: u64
  ro_shadow_eligible :: u64
  ro_causal_pairs_consumed :: u64
  ro_shadow_measurements_proven :: u64
  ro_canary_eligible :: u64
  ro_canary_opened :: u64
  ro_canary_completed :: u64
  ro_canary_gold :: u64
  ro_canary_failures :: u64

definition rollout_default :: lab_rollout where
  "rollout_default = \<lparr> ro_phase = PhaseShadow, ro_phase_started_millis = 0, ro_last_monotonic_millis = 0,
     ro_shadow_eligible = 0, ro_causal_pairs_consumed = 0, ro_shadow_measurements_proven = 0,
     ro_canary_eligible = 0, ro_canary_opened = 0, ro_canary_completed = 0, ro_canary_gold = 0,
     ro_canary_failures = 0 \<rparr>"

text \<open>The gate progress that the reset discards, and the rollout after it.\<close>

definition rollout_reset_to_shadow :: "u64 \<Rightarrow> lab_rollout \<Rightarrow> u64 \<times> lab_rollout" where
  "rollout_reset_to_shadow now r =
     (ro_causal_pairs_consumed r,
      \<lparr> ro_phase = PhaseShadow, ro_phase_started_millis = now, ro_last_monotonic_millis = now,
        ro_shadow_eligible = 0, ro_causal_pairs_consumed = 0, ro_shadow_measurements_proven = 0,
        ro_canary_eligible = 0, ro_canary_opened = 0, ro_canary_completed = 0, ro_canary_gold = 0,
        ro_canary_failures = 0 \<rparr>)"

subsection \<open>Checks\<close>

definition canary_admitted :: "pair_candidate \<Rightarrow> u8 \<Rightarrow> bool" where
  "canary_admitted c percent =
     (let bucket = (pc_sequence c * 0x9e3779b97f4a7c15) XOR word_rotl 17 (pc_stratum_hash c)
      in bucket mod 100 < ucast (min percent 100))"

definition endpoint_invalidation_reason ::
  "pair_candidate \<Rightarrow> pair_endpoint \<Rightarrow> u64 \<Rightarrow> issued_arm \<Rightarrow> pair_invalidation_reason option" where
  "endpoint_invalidation_reason c e completed_cycle issued =
     (if completed_cycle > ia_expires_after_cycle issued then Some PiDeadlineExpired
      else if pe_synthetic e \<or> \<not> pe_observed_local e \<or> pe_decision_id e = 0 then Some PiUnauthoritative
      else case pe_horizon e of
        HzConfounded \<Rightarrow> Some PiConfounded
      | HzIncomplete \<Rightarrow> Some PiIncompleteHorizon
      | HzExpired \<Rightarrow> Some PiDeadlineExpired
      | HzComplete \<Rightarrow>
          (let execution_valid = (case pe_arm e of
                 ArmControl \<Rightarrow> pe_execution e = ExNoOp
               | ArmTreatment \<Rightarrow> pe_execution e = ExApplied);
               rollback_valid =
                 (if pc_family c = AF_MarkovPrewarm \<or> pe_arm e = ArmControl
                  then pe_rollback e = RbNotRequiredNonKernel \<or> pe_rollback e = RbSucceeded
                  else pe_rollback e = RbSucceeded) in
           if \<not> execution_valid then Some PiFailedExecution
           else if \<not> rollback_valid then Some PiFailedRollback
           else None))"

definition endpoints_of :: "pair_record \<Rightarrow> pair_endpoint list" where
  "endpoints_of r = List.map_filter id [pr_first_endpoint r, pr_second_endpoint r]"

definition rollback_still_required :: "pair_record \<Rightarrow> bool" where
  "rollback_still_required r =
     (if pc_family (pr_candidate r) = AF_MarkovPrewarm then False
      else if (case pr_issued r of Some i \<Rightarrow> ia_arm i = ArmTreatment | None \<Rightarrow> False) then True
      else list_ex (\<lambda>e. pe_arm e = ArmTreatment \<and> pe_execution e = ExApplied
                        \<and> pe_rollback e \<noteq> RbSucceeded) (endpoints_of r))"

definition catalogued :: "actuator_family \<Rightarrow> action_class \<Rightarrow> arm \<Rightarrow> bool" where
  "catalogued f c a \<longleftrightarrow>
     f = AF_InteractionQos \<and> c = InteractionForeground
       \<and> (a = InteractionQosShort \<or> a = InteractionQosStandard \<or> a = InteractionQosLong)
   \<or> f = AF_MarkovPrewarm \<and> c = MarkovPredictedApp \<and> a = MarkovCacheOnly
   \<or> f = AF_Boost \<and> c = BoostBackground \<and> a = BoostOmission"

definition validate_candidate :: "pair_candidate \<Rightarrow> lab_error + unit" where
  "validate_candidate c =
     (if pc_sequence c = 0 \<or> pc_stratum_hash c = 0 \<or> pc_horizon_cycles c = 0
        \<or> pc_washout_cycles c = 0 \<or> pc_minimum_effect_micros c < 0 \<or> pc_action_key c = []
        \<or> length (pc_action_key c) > MAX_ACTION_KEY_BYTES \<or> \<not> origin_is_known (pc_origin c)
      then Inl LeInvalid
      else if \<not> catalogued (pc_family c) (pc_action_class c) (pc_treatment_arm c) then Inl LeCatalog
      else Inr ())"

definition endpoint_matches :: "pair_candidate \<Rightarrow> pair_endpoint \<Rightarrow> bool" where
  "endpoint_matches c e \<longleftrightarrow> pe_origin e = pc_origin c \<and> pe_family e = pc_family c
     \<and> pe_action_class e = pc_action_class c \<and> pe_context e = pc_context c
     \<and> pe_action_key e = pc_action_key c \<and> length (pe_action_key e) \<le> MAX_ACTION_KEY_BYTES
     \<and> pe_stratum_hash e = pc_stratum_hash c \<and> pe_horizon_cycles e = pc_horizon_cycles c"

definition endpoints_are_authoritative :: "pair_candidate \<Rightarrow> pair_endpoint \<Rightarrow> pair_endpoint \<Rightarrow> bool" where
  "endpoints_are_authoritative cand c t =
     (let control_execution = (pe_execution c = ExNoOp);
          rollback_closed =
            (if pc_family cand = AF_MarkovPrewarm
             then pe_rollback t = RbNotRequiredNonKernel
               \<and> (pe_rollback c = RbNotRequiredNonKernel \<or> pe_rollback c = RbSucceeded)
             else pe_rollback t = RbSucceeded
               \<and> (pe_rollback c = RbSucceeded \<or> pe_rollback c = RbNotRequiredNonKernel))
      in control_execution \<and> pe_execution t = ExApplied \<and> pe_horizon c = HzComplete
         \<and> pe_horizon t = HzComplete \<and> rollback_closed \<and> pe_observed_local c \<and> pe_observed_local t
         \<and> \<not> pe_synthetic c \<and> \<not> pe_synthetic t \<and> pe_decision_id c > 0 \<and> pe_decision_id t > 0
         \<and> pe_decision_id c \<noteq> pe_decision_id t)"

definition count_endpoint :: "pair_endpoint \<Rightarrow> lab_metrics \<Rightarrow> lab_metrics" where
  "count_endpoint e m =
     (let m = (case pe_arm e of
            ArmControl \<Rightarrow> m\<lparr> lm_control_endpoints := sat_add (lm_control_endpoints m) 1 \<rparr>
          | ArmTreatment \<Rightarrow> m\<lparr> lm_treatment_endpoints := sat_add (lm_treatment_endpoints m) 1 \<rparr>);
          m = (if pe_horizon e = HzComplete
               then m\<lparr> lm_complete_horizons := sat_add (lm_complete_horizons m) 1 \<rparr> else m);
          m = (if pe_horizon e = HzConfounded
               then m\<lparr> lm_confounded := sat_add (lm_confounded m) 1 \<rparr> else m)
      in if pe_rollback e = RbSucceeded \<or> pe_rollback e = RbNotRequiredNonKernel
         then m\<lparr> lm_rollback_closed := sat_add (lm_rollback_closed m) 1 \<rparr> else m)"

end
