(* ===== verification/Microexperiment_Lab.thy ===== *)
theory Microexperiment_Lab
  imports Lab_Types
begin

text \<open>
  The state and operations of \<open>engine/microexperiment_lab.rs\<close>: proposing and tracking pairs,
  issuing arms, recording endpoints, closing and invalidating pairs, consuming certified pairs,
  the rollout, and restarts. An operation that can fail returns the error or the value beside
  the state, because the code keeps what it changed before the error. The size of the
  serialised state, which the JSON library computes, is the argument \<open>json_len\<close>.
\<close>

record lab =
  lb_origin :: origin
  lb_next_pair_sequence :: u64
  lb_open :: "pair_record list"
  lb_shadow_open :: "shadow_pair_record list"
  lb_consumed_experiments :: "experiment_id list"
  lb_shadow_terminal :: "pair_id list"
  lb_completed :: "completed_pair_summary list"
  lb_gold_dedup :: "pair_id list"
  lb_pending_gold :: "pair_gold_record list"
  lb_metrics :: lab_metrics
  lb_rollout :: lab_rollout
  lb_rollout_config :: lab_rollout_config
  lb_pairs_examined :: nat
  lb_phase_clock_armed :: bool
  lb_restored_progress :: u64
  lb_progress_resets :: u64
  lb_last_progress_reset_reason :: string

definition lab_cold_start :: "origin \<Rightarrow> lab" where
  "lab_cold_start og = \<lparr> lb_origin = og, lb_next_pair_sequence = 0, lb_open = [], lb_shadow_open = [],
     lb_consumed_experiments = [], lb_shadow_terminal = [], lb_completed = [], lb_gold_dedup = [],
     lb_pending_gold = [], lb_metrics = lab_metrics_default, lb_rollout = rollout_default,
     lb_rollout_config = rollout_config_default, lb_pairs_examined = 0, lb_phase_clock_armed = False,
     lb_restored_progress = 0, lb_progress_resets = 0, lb_last_progress_reset_reason = [] \<rparr>"

definition on_metrics :: "(lab_metrics \<Rightarrow> lab_metrics) \<Rightarrow> lab \<Rightarrow> lab" where
  "on_metrics f l = l\<lparr> lb_metrics := f (lb_metrics l) \<rparr>"

definition on_rollout :: "(lab_rollout \<Rightarrow> lab_rollout) \<Rightarrow> lab \<Rightarrow> lab" where
  "on_rollout f l = l\<lparr> lb_rollout := f (lb_rollout l) \<rparr>"

abbreviation phase :: "lab \<Rightarrow> lab_phase" where
  "phase l \<equiv> ro_phase (lb_rollout l)"

definition pair_id_of :: "origin \<Rightarrow> u64 \<Rightarrow> pair_id" where
  "pair_id_of og next = push_bit 64 (ucast (installation_id og)) OR ucast next"

definition contains_pair :: "pair_id \<Rightarrow> lab \<Rightarrow> bool" where
  "contains_pair i l \<longleftrightarrow> list_ex (\<lambda>r. pa_id (pr_assignment r) = i) (lb_open l)
     \<or> list_ex (\<lambda>s. cs_id s = i) (lb_completed l) \<or> i \<in> set (lb_gold_dedup l)"

text \<open>The assignment for a sequence number: control first when it is odd.\<close>

definition assignment_for :: "origin \<Rightarrow> u64 \<Rightarrow> pair_assignment" where
  "assignment_for og next =
     (let order = (if next mod 2 = 1 then ControlThenTreatment else TreatmentThenControl);
          (first, second) = order_arms order
      in \<lparr> pa_id = pair_id_of og next, pa_order = order, pa_first = first, pa_second = second \<rparr>)"

definition checked_succ :: "u64 \<Rightarrow> u64 option" where
  "checked_succ n = (if n = - 1 then None else Some (n + 1))"

subsection \<open>Proposals\<close>

definition note_proposed :: "lab \<Rightarrow> lab" where
  "note_proposed = on_metrics (\<lambda>m. m\<lparr> lm_proposed := sat_add (lm_proposed m) 1 \<rparr>)"

definition note_randomized :: "lab \<Rightarrow> lab" where
  "note_randomized = on_metrics (\<lambda>m. m\<lparr> lm_eligible := sat_add (lm_eligible m) 1,
     lm_randomized := sat_add (lm_randomized m) 1 \<rparr>)"

definition propose :: "pair_candidate \<Rightarrow> pair_gates \<Rightarrow> lab \<Rightarrow> (lab_error + pair_assignment) \<times> lab" where
  "propose c g l =
     (let l = note_proposed l in
      if \<not> allows_pair g then (Inl LeGate, l)
      else if pc_origin c \<noteq> lb_origin l then (Inl LeOrigin, l)
      else case validate_candidate c of
        Inl e \<Rightarrow> (Inl e, l)
      | Inr _ \<Rightarrow>
          if length (lb_open l) \<ge> MAX_OPEN_PAIRS then (Inl LeCapacity, l)
          else case checked_succ (lb_next_pair_sequence l) of
            None \<Rightarrow> (Inl LeCapacity, l)
          | Some next \<Rightarrow>
              (let a = assignment_for (lb_origin l) next in
               if contains_pair (pa_id a) l then (Inl LeDuplicatePair, l)
               else (Inr a, note_randomized (l\<lparr>
                 lb_open := lb_open l @ [\<lparr> pr_candidate = c, pr_assignment = a,
                   pr_first_endpoint = None, pr_second_endpoint = None, pr_washout_elapsed = 0,
                   pr_progress = AwaitingFirst, pr_issued = None, pr_washout_started_cycle = None \<rparr>],
                 lb_next_pair_sequence := next \<rparr>))))"

definition push_shadow :: "pair_candidate \<Rightarrow> pair_assignment \<Rightarrow> lab \<Rightarrow> lab" where
  "push_shadow c a l =
     (if length (lb_shadow_open l) < MAX_OPEN_PAIRS then
        (let l = l\<lparr> lb_shadow_open := lb_shadow_open l @ [\<lparr> sp_candidate = c, sp_assignment = a,
                      sp_issued = None, sp_control_endpoint = None \<rparr>] \<rparr>;
             len = word_of_nat (length (lb_shadow_open l))
         in if len > lm_shadow_high_watermark (lb_metrics l)
            then on_metrics (\<lambda>m. m\<lparr> lm_shadow_high_watermark := len \<rparr>) l else l)
      else l)"

definition evaluate_shadow :: "pair_candidate \<Rightarrow> pair_gates \<Rightarrow> lab \<Rightarrow> (lab_error + pair_assignment) \<times> lab" where
  "evaluate_shadow c g l =
     (let l = note_proposed l in
      if \<not> inherited_safe g then (Inl LeGate, l)
      else if pc_origin c \<noteq> lb_origin l then (Inl LeOrigin, l)
      else case validate_candidate c of
        Inl e \<Rightarrow> (Inl e, l)
      | Inr _ \<Rightarrow>
          (case checked_succ (lb_next_pair_sequence l) of
             None \<Rightarrow> (Inl LeCapacity, l)
           | Some next \<Rightarrow>
               (let a = assignment_for (lb_origin l) next;
                    l = note_randomized (l\<lparr> lb_next_pair_sequence := next \<rparr>);
                    l = on_metrics (\<lambda>m. m\<lparr> lm_shadow_would_open := sat_add (lm_shadow_would_open m) 1 \<rparr>) l
                in (Inr a, push_shadow c a l))))"

subsection \<open>Shadow arms\<close>

definition directive_of :: "pair_candidate \<Rightarrow> pair_id \<Rightarrow> issued_arm \<Rightarrow> bool \<Rightarrow> bool \<Rightarrow> pair_directive" where
  "directive_of c i issued rollback_required observe_only =
     \<lparr> pd_pair_id = i, pd_arm = ia_arm issued, pd_treatment_arm = pc_treatment_arm c,
       pd_family = pc_family c, pd_action_class = pc_action_class c, pd_context = pc_context c,
       pd_action_key = pc_action_key c, pd_stratum_hash = pc_stratum_hash c,
       pd_issued_cycle = ia_issued_cycle issued,
       pd_complete_not_before_cycle = ia_complete_not_before_cycle issued,
       pd_expires_after_cycle = ia_expires_after_cycle issued,
       pd_rollback_required = rollback_required, pd_observe_only = observe_only \<rparr>"

definition shadow_arm :: "u64 \<Rightarrow> pair_candidate \<Rightarrow> issued_arm" where
  "shadow_arm cycle c =
     (let horizon = ucast (pc_horizon_cycles c) in
      \<lparr> ia_arm = ArmControl, ia_issued_cycle = cycle,
        ia_complete_not_before_cycle = sat_add cycle horizon,
        ia_expires_after_cycle = max (sat_mul (sat_add cycle horizon) 2) (cycle + 1) \<rparr>)"

text \<open>\<open>n\<close> directives have been issued by the records already passed.\<close>

fun issue_shadow_from :: "u64 \<Rightarrow> nat \<Rightarrow> shadow_pair_record list \<Rightarrow>
    pair_directive list \<times> shadow_pair_record list" where
  "issue_shadow_from cycle n [] = ([], [])"
| "issue_shadow_from cycle n (r # rs) =
     (if n \<ge> MAX_SHADOW_ARMS_PER_CYCLE then ([], r # rs)
      else if sp_issued r \<noteq> None \<or> sp_control_endpoint r \<noteq> None
      then (let (ds, rs) = issue_shadow_from cycle n rs in (ds, r # rs))
      else (let issued = shadow_arm cycle (sp_candidate r);
                (ds, rs) = issue_shadow_from cycle (Suc n) rs
            in (directive_of (sp_candidate r) (pa_id (sp_assignment r)) issued False True # ds,
                r\<lparr> sp_issued := Some issued \<rparr> # rs)))"

definition issue_shadow_arms :: "u64 \<Rightarrow> pair_gates \<Rightarrow> lab \<Rightarrow> pair_directive list \<times> lab" where
  "issue_shadow_arms cycle g l =
     (if phase l \<noteq> PhaseShadow \<or> \<not> inherited_safe g then ([], l)
      else let (ds, rs) = issue_shadow_from cycle 0 (lb_shadow_open l)
           in (ds, l\<lparr> lb_shadow_open := rs \<rparr>))"

definition terminalise_shadow_pair :: "pair_id \<Rightarrow> lab \<Rightarrow> bool \<times> lab" where
  "terminalise_shadow_pair i l =
     (let (existed, l) =
        (case find_index (\<lambda>r. pa_id (sp_assignment r) = i) (lb_shadow_open l) of
           Some ix \<Rightarrow> (True, on_metrics (\<lambda>m. m\<lparr> lm_shadow_reaped := sat_add (lm_shadow_reaped m) 1 \<rparr>)
                        (l\<lparr> lb_shadow_open := swap_remove ix (lb_shadow_open l) \<rparr>))
         | None \<Rightarrow> (False, l))
      in (existed,
          if i \<in> set (lb_shadow_terminal l) then l
          else l\<lparr> lb_shadow_terminal :=
                   push_bounded MAX_SHADOW_TERMINAL_MEMORY i (lb_shadow_terminal l) \<rparr>))"

definition shadow_expired :: "u64 \<Rightarrow> shadow_pair_record \<Rightarrow> bool" where
  "shadow_expired cycle r =
     (case sp_issued r of Some i \<Rightarrow> cycle > ia_expires_after_cycle i | None \<Rightarrow> False)"

definition reap_expired_shadow_pairs :: "u64 \<Rightarrow> lab \<Rightarrow> lab" where
  "reap_expired_shadow_pairs cycle l =
     fold (\<lambda>i l. let (existed, l) = terminalise_shadow_pair i l in
        if existed then on_metrics (\<lambda>m. m\<lparr> lm_shadow_expired := sat_add (lm_shadow_expired m) 1 \<rparr>) l
        else l)
       (map (\<lambda>r. pa_id (sp_assignment r)) (filter (shadow_expired cycle) (lb_shadow_open l))) l"

definition shadow_endpoint_valid :: "pair_candidate \<Rightarrow> pair_endpoint \<Rightarrow> bool" where
  "shadow_endpoint_valid c e \<longleftrightarrow> pe_arm e = ArmControl \<and> pe_execution e = ExNoOp
     \<and> pe_horizon e = HzComplete \<and> pe_observed_local e \<and> \<not> pe_synthetic e \<and> endpoint_matches c e"

definition record_shadow_endpoint :: "timed_pair_endpoint \<Rightarrow> lab \<Rightarrow> bool \<times> lab" where
  "record_shadow_endpoint ob l =
     (case find_index (\<lambda>r. pa_id (sp_assignment r) = te_pair_id ob) (lb_shadow_open l) of
        None \<Rightarrow>
          if te_pair_id ob \<in> set (lb_shadow_terminal l)
          then (True, on_metrics (\<lambda>m. m\<lparr> lm_shadow_late := sat_add (lm_shadow_late m) 1 \<rparr>) l)
          else (False, l)
      | Some ix \<Rightarrow>
          (let r = lb_shadow_open l ! ix;
               valid = shadow_endpoint_valid (sp_candidate r) (te_endpoint ob);
               l = l\<lparr> lb_shadow_open := swap_remove ix (lb_shadow_open l) \<rparr>;
               l = snd (terminalise_shadow_pair (pa_id (sp_assignment r)) l)
           in (True,
               if valid then
                 on_metrics (\<lambda>m. m\<lparr> lm_shadow_proven := sat_add (lm_shadow_proven m) 1 \<rparr>)
                  (on_rollout (\<lambda>r. r\<lparr> ro_shadow_measurements_proven :=
                     sat_add (ro_shadow_measurements_proven r) 1 \<rparr>) l)
               else on_metrics (\<lambda>m. m\<lparr> lm_shadow_refused := sat_add (lm_shadow_refused m) 1 \<rparr>) l)))"

subsection \<open>Certified pairs\<close>

definition consume_exploration_pair :: "completed_pair \<Rightarrow> u64 \<Rightarrow> u64 \<Rightarrow> lab \<Rightarrow> pair_consumption \<times> lab" where
  "consume_exploration_pair p control_issued control_honoured l =
     (let l = on_metrics (\<lambda>m. m\<lparr> lm_pairs_seen := sat_add (lm_pairs_seen m) 1 \<rparr>) l;
          reject = on_metrics (\<lambda>m. m\<lparr> lm_pairs_rejected := sat_add (lm_pairs_rejected m) 1 \<rparr>) in
      if cp_experiment_id p \<in> set (lb_consumed_experiments l) then
        (PcDuplicate, on_metrics (\<lambda>m. m\<lparr> lm_pairs_duplicate := sat_add (lm_pairs_duplicate m) 1 \<rparr>) l)
      else if control_honoured < control_issued then (PcRejected ControlNotHonoured, reject l)
      else if cp_family p \<noteq> AF_MarkovPrewarm \<and> cp_family p \<noteq> AF_InteractionQos
      then (PcRejected UnexpectedFamily, reject l)
      else
        (let l = l\<lparr> lb_consumed_experiments :=
                push_bounded MAX_CONSUMED_EXPERIMENTS (cp_experiment_id p) (lb_consumed_experiments l) \<rparr>;
             l = on_metrics (\<lambda>m. m\<lparr> lm_pairs_accepted := sat_add (lm_pairs_accepted m) 1 \<rparr>) l;
             l = (if cp_family p = AF_MarkovPrewarm then
                    on_rollout (\<lambda>r. r\<lparr> ro_causal_pairs_consumed := sat_add (ro_causal_pairs_consumed r) 1 \<rparr>)
                     (on_metrics (\<lambda>m. m\<lparr> lm_causal_pairs_consumed := sat_add (lm_causal_pairs_consumed m) 1 \<rparr>) l)
                  else l)
         in (PcAccepted (cp_experiment_id p), l)))"

definition protocol_pairs_validated :: "lab \<Rightarrow> u64" where
  "protocol_pairs_validated l =
     sat_sub (lm_pairs_accepted (lb_metrics l)) (lm_causal_pairs_consumed (lb_metrics l))"

subsection \<open>The rollout\<close>

definition note_progress_reset :: "u64 \<Rightarrow> string \<Rightarrow> lab \<Rightarrow> lab" where
  "note_progress_reset dropped reason l =
     (if dropped = 0 then l
      else l\<lparr> lb_progress_resets := sat_add (lb_progress_resets l) 1,
              lb_last_progress_reset_reason := reason \<rparr>)"

definition reset_to_shadow :: "u64 \<Rightarrow> string \<Rightarrow> lab \<Rightarrow> lab" where
  "reset_to_shadow now reason l =
     (let (dropped, r) = rollout_reset_to_shadow now (lb_rollout l)
      in note_progress_reset dropped reason (l\<lparr> lb_rollout := r \<rparr>))"

definition rollout_provenance :: "lab \<Rightarrow> u64 \<times> u64 \<times> string" where
  "rollout_provenance l = (lb_restored_progress l, lb_progress_resets l, lb_last_progress_reset_reason l)"

definition rollout_progress :: "lab \<Rightarrow> u64 \<times> u64" where
  "rollout_progress l =
     (case phase l of
        PhaseShadow \<Rightarrow> (ro_causal_pairs_consumed (lb_rollout l),
          rc_shadow_min_measurements (lb_rollout_config l))
      | PhaseCanary \<Rightarrow> (ro_canary_eligible (lb_rollout l), rc_canary_min_opportunities (lb_rollout_config l))
      | PhaseActive \<Rightarrow> (0, 0))"

definition readiness_blocker :: "lab \<Rightarrow> string option" where
  "readiness_blocker l =
     (if list_ex (\<lambda>r. pr_issued r \<noteq> None) (lb_open l) then Some ''awaiting-real-endpoint''
      else if list_ex (\<lambda>r. pr_progress r = Washout) (lb_open l) then Some ''washout''
      else if list_ex (\<lambda>r. pr_progress r = ReadyToClose) (lb_open l) then Some ''pair-not-closed''
      else if lb_open l \<noteq> [] then Some ''arm-ready'' else None)"

definition advance_rollout :: "u64 \<Rightarrow> bool \<Rightarrow> lab \<Rightarrow> lab" where
  "advance_rollout now gates_enabled l =
     (let r = lb_rollout l; cfg = lb_rollout_config l in
      if ro_phase r = PhaseShadow \<and> gates_enabled
        \<and> ro_causal_pairs_consumed r \<ge> rc_shadow_min_measurements cfg
        \<and> sat_sub now (ro_phase_started_millis r) \<ge> rc_shadow_min_duration_ms cfg
      then l\<lparr> lb_rollout := r\<lparr> ro_phase := PhaseCanary, ro_phase_started_millis := now,
             ro_canary_eligible := 0, ro_canary_opened := 0, ro_canary_completed := 0,
             ro_canary_gold := 0, ro_canary_failures := 0 \<rparr> \<rparr>
      else if ro_phase r = PhaseCanary \<and> gates_enabled
        \<and> ro_canary_eligible r \<ge> rc_canary_min_opportunities cfg \<and> ro_canary_opened r > 0
        \<and> ro_canary_completed r = ro_canary_opened r \<and> ro_canary_gold r = ro_canary_opened r
        \<and> ro_canary_failures r = 0 \<and> lb_open l = []
      then l\<lparr> lb_rollout := r\<lparr> ro_phase := PhaseActive, ro_phase_started_millis := now \<rparr> \<rparr>
      else l)"

subsection \<open>Endpoints of real pairs\<close>

definition find_open :: "pair_id \<Rightarrow> lab \<Rightarrow> nat option \<times> lab" where
  "find_open i l =
     (let found = find_index (\<lambda>r. pa_id (pr_assignment r) = i) (lb_open l)
      in (found, l\<lparr> lb_pairs_examined :=
            (case found of Some ix \<Rightarrow> Suc ix | None \<Rightarrow> length (lb_open l)) \<rparr>))"

definition update_open :: "nat \<Rightarrow> (pair_record \<Rightarrow> pair_record) \<Rightarrow> lab \<Rightarrow> lab" where
  "update_open ix f l = l\<lparr> lb_open := (lb_open l)[ix := f (lb_open l ! ix)] \<rparr>"

definition endpoint_from_arm :: "arm_kind \<Rightarrow> pair_endpoint option \<Rightarrow> bool" where
  "endpoint_from_arm a e = (case e of Some x \<Rightarrow> pe_arm x = a | None \<Rightarrow> False)"

definition not_authoritative :: "pair_endpoint \<Rightarrow> bool" where
  "not_authoritative e \<longleftrightarrow> pe_synthetic e \<or> \<not> pe_observed_local e \<or> pe_decision_id e = 0"

definition quarantine :: "pair_endpoint \<Rightarrow> lab \<Rightarrow> lab" where
  "quarantine e l =
     (if not_authoritative e
      then on_metrics (\<lambda>m. m\<lparr> lm_synthetic_quarantined := sat_add (lm_synthetic_quarantined m) 1 \<rparr>) l
      else l)"

definition record_endpoint :: "pair_id \<Rightarrow> pair_endpoint \<Rightarrow> lab \<Rightarrow> (lab_error + pair_progress) \<times> lab" where
  "record_endpoint i e l =
     (case find_open i l of
        (None, l) \<Rightarrow> (Inl LeUnknownPair, l)
      | (Some ix, l) \<Rightarrow>
          if pe_origin e \<noteq> lb_origin l then (Inl LeOrigin, l)
          else let r = lb_open l ! ix in
          if endpoint_from_arm (pe_arm e) (pr_first_endpoint r)
            \<or> endpoint_from_arm (pe_arm e) (pr_second_endpoint r) then (Inl LeDuplicateArm, l)
          else if \<not> endpoint_matches (pr_candidate r) e then (Inl LeMismatch, l)
          else let l = quarantine e l in
          case pr_progress r of
            AwaitingFirst \<Rightarrow>
              if pe_arm e \<noteq> pa_first (pr_assignment r) then (Inl LeWrongArm, l)
              else (Inr Washout, update_open ix (\<lambda>r. r\<lparr> pr_first_endpoint := Some e, pr_progress := Washout \<rparr>)
                      (on_metrics (count_endpoint e) l))
          | Washout \<Rightarrow> (Inl LeWashoutPending, l)
          | AwaitingComplement \<Rightarrow>
              if pe_arm e \<noteq> pa_second (pr_assignment r) then (Inl LeWrongArm, l)
              else (Inr ReadyToClose, update_open ix (\<lambda>r. r\<lparr> pr_second_endpoint := Some e, pr_progress := ReadyToClose \<rparr>)
                      (on_metrics (count_endpoint e) l))
          | ReadyToClose \<Rightarrow> (Inl LeDuplicateArm, l))"

definition count_reason :: "pair_invalidation_reason \<Rightarrow> lab_metrics \<Rightarrow> lab_metrics" where
  "count_reason reason m =
     (case reason of
        PiDeadlineExpired \<Rightarrow> m\<lparr> lm_deadline_expired := sat_add (lm_deadline_expired m) 1 \<rparr>
      | PiFailedRollback \<Rightarrow> m\<lparr> lm_rollback_failed := sat_add (lm_rollback_failed m) 1 \<rparr>
      | PiConfounded \<Rightarrow> m\<lparr> lm_confounded := sat_add (lm_confounded m) 1 \<rparr>
      | _ \<Rightarrow> m)"

definition interrupted_summary :: "pair_id \<Rightarrow> completed_pair_summary" where
  "interrupted_summary i = \<lparr> cs_id = i, cs_evidence = Bronze, cs_effect_micros = 0,
     cs_effective = False, cs_harmful = False, cs_interrupted = True \<rparr>"

definition push_completed :: "completed_pair_summary \<Rightarrow> lab \<Rightarrow> lab" where
  "push_completed s l = l\<lparr> lb_completed := push_bounded MAX_COMPLETED_PAIRS s (lb_completed l) \<rparr>"

definition invalidate_pair :: "pair_id \<Rightarrow> pair_invalidation_reason \<Rightarrow> lab \<Rightarrow>
    (lab_error + pair_invalidation) \<times> lab" where
  "invalidate_pair i reason l =
     (case find_open i l of
        (None, l) \<Rightarrow> (Inl LeUnknownPair, l)
      | (Some ix, l) \<Rightarrow>
          (let r = lb_open l ! ix;
               l = l\<lparr> lb_open := swap_remove ix (lb_open l) \<rparr>;
               l = on_metrics (\<lambda>m. count_reason reason (m\<lparr> lm_invalidated := sat_add (lm_invalidated m) 1,
                                  lm_interrupted := sat_add (lm_interrupted m) 1 \<rparr>)) l;
               produced_evidence = (pr_first_endpoint r \<noteq> None \<or> pr_second_endpoint r \<noteq> None);
               l = (if phase l = PhaseShadow then l
                    else if produced_evidence
                    then on_rollout (\<lambda>r. r\<lparr> ro_canary_failures := sat_add (ro_canary_failures r) 1 \<rparr>) l
                    else on_metrics (\<lambda>m. m\<lparr> lm_unbound_expiries := sat_add (lm_unbound_expiries m) 1 \<rparr>) l)
           in (Inr \<lparr> pi_pair_id = i, pi_reason = reason, pi_family = pc_family (pr_candidate r),
                     pi_action_key = pc_action_key (pr_candidate r),
                     pi_rollback_required = rollback_still_required r \<rparr>,
               push_completed (interrupted_summary i) l)))"

fun invalidate_ids :: "pair_invalidation_reason \<Rightarrow> pair_id list \<Rightarrow> lab \<Rightarrow> pair_invalidation list \<times> lab" where
  "invalidate_ids reason [] l = ([], l)"
| "invalidate_ids reason (i # ids) l =
     (let (res, l) = invalidate_pair i reason l; (xs, l) = invalidate_ids reason ids l
      in (case res of Inr x \<Rightarrow> x # xs | Inl _ \<Rightarrow> xs, l))"

definition invalidate_all :: "pair_invalidation_reason \<Rightarrow> lab \<Rightarrow> pair_invalidation list \<times> lab" where
  "invalidate_all reason l =
     invalidate_ids reason (map (\<lambda>r. pa_id (pr_assignment r)) (lb_open l)) l"

definition record_timed_endpoint :: "timed_pair_endpoint \<Rightarrow> lab \<Rightarrow>
    (lab_error + timed_endpoint_disposition) \<times> lab" where
  "record_timed_endpoint ob l =
     (case find_open (te_pair_id ob) l of
        (None, l) \<Rightarrow>
          (let (measured, l) = record_shadow_endpoint ob l
           in (if measured then Inr TdShadowMeasured else Inl LeUnknownPair, l))
      | (Some ix, l) \<Rightarrow>
          (let r = lb_open l ! ix; e = te_endpoint ob in
           case pr_issued r of
             None \<Rightarrow> (Inl LeEndpointNotIssued, l)
           | Some issued \<Rightarrow>
               if te_issued_cycle ob \<noteq> ia_issued_cycle issued \<or> pe_arm e \<noteq> ia_arm issued
               then (Inl LeMismatch, l)
               else if \<not> endpoint_matches (pr_candidate r) e then (Inl LeMismatch, l)
               else if te_completed_cycle ob < ia_complete_not_before_cycle issued
                 \<and> pe_horizon e = HzComplete then (Inl LeHorizonPending, l)
               else case endpoint_invalidation_reason (pr_candidate r) e (te_completed_cycle ob) issued of
                 Some reason \<Rightarrow>
                   (let l = quarantine e l; (res, l) = invalidate_pair (te_pair_id ob) reason l
                    in (case res of Inr x \<Rightarrow> Inr (TdInvalidated x) | Inl err \<Rightarrow> Inl err, l))
               | None \<Rightarrow>
                   (let l = update_open ix (\<lambda>r. r\<lparr> pr_issued := None \<rparr>) l;
                        (res, l) = record_endpoint (te_pair_id ob) e l in
                    case res of
                      Inl err \<Rightarrow> (Inl err, l)
                    | Inr progress \<Rightarrow>
                        if progress = Washout then
                          (case find_open (te_pair_id ob) l of
                             (None, l) \<Rightarrow> (Inl LeUnknownPair, l)
                           | (Some ix, l) \<Rightarrow> (Inr (TdProgress progress),
                               update_open ix (\<lambda>r. r\<lparr> pr_washout_started_cycle := Some (te_completed_cycle ob) \<rparr>) l))
                        else (Inr (TdProgress progress), l))))"

definition advance_washout :: "pair_id \<Rightarrow> u32 \<Rightarrow> lab \<Rightarrow> (lab_error + pair_progress) \<times> lab" where
  "advance_washout i elapsed l =
     (case find_open i l of
        (None, l) \<Rightarrow> (Inl LeUnknownPair, l)
      | (Some ix, l) \<Rightarrow>
          (let r = lb_open l ! ix in
           if pr_progress r \<noteq> Washout then (Inr (pr_progress r), l)
           else let total = sat_add (pr_washout_elapsed r) elapsed in
             if total \<ge> pc_washout_cycles (pr_candidate r)
             then (Inr AwaitingComplement, update_open ix (\<lambda>r. r\<lparr> pr_washout_elapsed := total,
                     pr_progress := AwaitingComplement, pr_washout_started_cycle := None \<rparr>) l)
             else (Inr Washout, update_open ix (\<lambda>r. r\<lparr> pr_washout_elapsed := total \<rparr>) l)))"

definition count_rollout_closure :: "pair_closure \<Rightarrow> lab_rollout \<Rightarrow> lab_rollout" where
  "count_rollout_closure cl r =
     (let bad = (cl_evidence cl \<noteq> PairGold \<or> cl_harmful cl);
          fail = (\<lambda>r. if bad then r\<lparr> ro_canary_failures := sat_add (ro_canary_failures r) 1 \<rparr> else r) in
      case ro_phase r of
        PhaseCanary \<Rightarrow>
          (let r = r\<lparr> ro_canary_completed := sat_add (ro_canary_completed r) 1 \<rparr>;
               r = (if cl_evidence cl = PairGold
                    then r\<lparr> ro_canary_gold := sat_add (ro_canary_gold r) 1 \<rparr> else r)
           in fail r)
      | PhaseActive \<Rightarrow> fail r
      | PhaseShadow \<Rightarrow> r)"

text \<open>The closure of a pair from its two endpoints, first and second in time.\<close>

definition closure_of :: "pair_id \<Rightarrow> pair_candidate \<Rightarrow> pair_endpoint \<Rightarrow> pair_endpoint \<Rightarrow>
    pair_closure \<times> pair_gold_record" where
  "closure_of i cand first second =
     (let (control, treatment) = (if pe_arm first = ArmControl then (first, second) else (second, first));
          effect = i64_sat_sub (pe_utility_micros treatment) (pe_utility_micros control);
          authoritative = endpoints_are_authoritative cand control treatment;
          minimum = max (pc_minimum_effect_micros cand) 0;
          effective = (authoritative \<and> effect \<ge> minimum \<and> effect > 0);
          harmful = (authoritative \<and> effect \<le> i64_sat_neg minimum \<and> effect < 0)
      in (\<lparr> cl_id = i, cl_evidence = (if authoritative then PairGold else Silver),
            cl_effect_micros = effect, cl_effective = effective, cl_harmful = harmful \<rparr>,
          \<lparr> pg_id = i, pg_origin = pc_origin cand, pg_family = pc_family cand,
            pg_action_class = pc_action_class cand, pg_action_key = pc_action_key cand,
            pg_stratum_hash = pc_stratum_hash cand, pg_control_decision_id = pe_decision_id control,
            pg_treatment_decision_id = pe_decision_id treatment, pg_effect_micros = effect,
            pg_effective = effective, pg_harmful = harmful \<rparr>))"

definition count_gold :: "pair_gold_record \<Rightarrow> lab_metrics \<Rightarrow> lab_metrics" where
  "count_gold g m =
     (let m = m\<lparr> lm_pair_gold := sat_add (lm_pair_gold m) 1 \<rparr>;
          m = (if pg_effective g then m\<lparr> lm_effective := sat_add (lm_effective m) 1 \<rparr> else m)
      in if pg_harmful g then m\<lparr> lm_harmful := sat_add (lm_harmful m) 1 \<rparr> else m)"

definition close_pair :: "pair_id \<Rightarrow> lab \<Rightarrow> (lab_error + pair_closure) \<times> lab" where
  "close_pair i l =
     (if i \<in> set (lb_gold_dedup l) \<or> list_ex (\<lambda>s. cs_id s = i) (lb_completed l)
      then (Inl LeDuplicatePair, l)
      else case find_open i l of
        (None, l) \<Rightarrow> (Inl LeUnknownPair, l)
      | (Some ix, l) \<Rightarrow>
          (let r = lb_open l ! ix in
           if pr_progress r \<noteq> ReadyToClose then (Inl LeNotReady, l)
           else let l = l\<lparr> lb_open := swap_remove ix (lb_open l) \<rparr> in
             case (pr_first_endpoint r, pr_second_endpoint r) of
               (Some first, Some second) \<Rightarrow>
                 (let (cl, gold) = closure_of i (pr_candidate r) first second;
                      l = (if cl_evidence cl = PairGold then
                             on_metrics (count_gold gold) (l\<lparr>
                               lb_gold_dedup := push_bounded MAX_GOLD_DEDUP i (lb_gold_dedup l),
                               lb_pending_gold := push_bounded MAX_GOLD_DEDUP gold (lb_pending_gold l) \<rparr>)
                           else l);
                      l = push_completed \<lparr> cs_id = i, cs_evidence = cl_evidence cl,
                            cs_effect_micros = cl_effect_micros cl, cs_effective = cl_effective cl,
                            cs_harmful = cl_harmful cl, cs_interrupted = False \<rparr> l;
                      l = on_rollout (count_rollout_closure cl) l
                  in (Inr cl, advance_rollout (ro_last_monotonic_millis (lb_rollout l)) True l))
             | _ \<Rightarrow> (Inl LeNotReady, l)))"

definition drain_pair_gold :: "lab \<Rightarrow> pair_gold_record list \<times> lab" where
  "drain_pair_gold l = (lb_pending_gold l, l\<lparr> lb_pending_gold := [] \<rparr>)"

subsection \<open>Candidates and cycles\<close>

text \<open>The clock part of \<open>consider_candidate\<close>, then the phase dispatch, then the operation.\<close>

definition candidate_clock :: "u64 \<Rightarrow> lab \<Rightarrow> lab" where
  "candidate_clock now l =
     (let l = (if lb_phase_clock_armed l then l
               else on_rollout (\<lambda>r. r\<lparr> ro_phase_started_millis := now \<rparr>) (l\<lparr> lb_phase_clock_armed := True \<rparr>));
          l = (if now < ro_last_monotonic_millis (lb_rollout l)
               then reset_to_shadow now ''clock-regression-candidate'' l else l)
      in on_rollout (\<lambda>r. r\<lparr> ro_last_monotonic_millis := now \<rparr>) l)"

definition route_candidate :: "pair_candidate \<Rightarrow> pair_gates \<Rightarrow> lab \<Rightarrow>
    (lab_error + candidate_disposition) \<times> lab" where
  "route_candidate c g l =
     (case phase l of
        PhaseShadow \<Rightarrow>
          (case evaluate_shadow c g l of
             (Inl e, l) \<Rightarrow> (Inl e, l)
           | (Inr a, l) \<Rightarrow> (Inr (CdShadow a),
               on_rollout (\<lambda>r. r\<lparr> ro_shadow_eligible := sat_add (ro_shadow_eligible r) 1 \<rparr>) l))
      | PhaseCanary \<Rightarrow>
          if canary_admitted c (rc_canary_percent (lb_rollout_config l)) then
            (case propose c g l of
               (Inl e, l) \<Rightarrow> (Inl e, l)
             | (Inr a, l) \<Rightarrow> (Inr (CdOpened a),
                 on_rollout (\<lambda>r. r\<lparr> ro_canary_eligible := sat_add (ro_canary_eligible r) 1,
                   ro_canary_opened := sat_add (ro_canary_opened r) 1 \<rparr>) l))
          else
            (let l = note_proposed l in
             if \<not> allows_pair g then (Inl LeGate, l)
             else if pc_origin c \<noteq> lb_origin l then (Inl LeOrigin, l)
             else case validate_candidate c of
               Inl e \<Rightarrow> (Inl e, l)
             | Inr _ \<Rightarrow> (Inr CdCanarySkipped, on_rollout
                 (\<lambda>r. r\<lparr> ro_canary_eligible := sat_add (ro_canary_eligible r) 1 \<rparr>) (note_randomized l)))
      | PhaseActive \<Rightarrow>
          (case propose c g l of
             (Inl e, l) \<Rightarrow> (Inl e, l)
           | (Inr a, l) \<Rightarrow> (Inr (CdOpened a), l)))"

definition consider_candidate :: "pair_candidate \<Rightarrow> pair_gates \<Rightarrow> u64 \<Rightarrow> lab \<Rightarrow>
    (lab_error + candidate_disposition) \<times> lab" where
  "consider_candidate c g now l =
     (case route_candidate c g (candidate_clock now l) of
        (Inl e, l) \<Rightarrow> (Inl e, l)
      | (Inr d, l) \<Rightarrow> (Inr d, advance_rollout now (allows_pair g) l))"

definition washout_tick :: "u64 \<Rightarrow> pair_record \<Rightarrow> pair_record" where
  "washout_tick cycle r =
     (case (pr_progress r, pr_washout_started_cycle r) of
        (Washout, Some started) \<Rightarrow>
          (let elapsed = ucast (min (sat_sub cycle started) (ucast (- 1 :: u32)));
               r = r\<lparr> pr_washout_elapsed := elapsed \<rparr>
           in if elapsed \<ge> pc_washout_cycles (pr_candidate r)
              then r\<lparr> pr_progress := AwaitingComplement, pr_washout_started_cycle := None \<rparr> else r)
      | _ \<Rightarrow> r)"

definition arm_expired :: "u64 \<Rightarrow> pair_record \<Rightarrow> bool" where
  "arm_expired cycle r = (case pr_issued r of Some i \<Rightarrow> cycle > ia_expires_after_cycle i | None \<Rightarrow> False)"

definition advance_cycle :: "u64 \<Rightarrow> u64 \<Rightarrow> pair_gates \<Rightarrow> lab \<Rightarrow> pair_invalidation list \<times> lab" where
  "advance_cycle cycle now g l =
     (if now < ro_last_monotonic_millis (lb_rollout l) then
        (let (inv, l) = invalidate_all PiClockRegression l
         in (inv, reset_to_shadow now ''clock-regression-cycle'' l))
      else let l = on_rollout (\<lambda>r. r\<lparr> ro_last_monotonic_millis := now \<rparr>) l in
      if \<not> allows_pair g then
        (let (inv, l) = invalidate_all PiSafetyGate l
         in (inv, if phase l \<noteq> PhaseShadow \<or> inv \<noteq> [] then reset_to_shadow now ''safety-gate'' l else l))
      else
        (let l = l\<lparr> lb_open := map (washout_tick cycle) (lb_open l) \<rparr>;
             expired = map (\<lambda>r. pa_id (pr_assignment r)) (filter (arm_expired cycle) (lb_open l));
             (inv, l) = invalidate_ids PiDeadlineExpired expired l;
             l = reap_expired_shadow_pairs cycle l;
             (inv, l) =
               (if phase l \<noteq> PhaseShadow \<and> ro_canary_failures (lb_rollout l) > 0 then
                  (let (inv2, l) = invalidate_all PiUnauthoritative l
                   in (inv @ inv2, reset_to_shadow now ''canary-failure'' l))
                else (inv, l))
         in (inv, advance_rollout now True l)))"

fun issue_ready_from :: "u64 \<Rightarrow> pair_record list \<Rightarrow> pair_directive list \<times> pair_record list" where
  "issue_ready_from cycle [] = ([], [])"
| "issue_ready_from cycle (r # rs) =
     (let (ds, rs) = issue_ready_from cycle rs in
      if pr_issued r \<noteq> None \<or> (pr_progress r \<noteq> AwaitingFirst \<and> pr_progress r \<noteq> AwaitingComplement)
      then (ds, r # rs)
      else let arm = (if pr_progress r = AwaitingFirst then pa_first (pr_assignment r)
                      else pa_second (pr_assignment r));
               not_before = sat_add cycle (ucast (pc_horizon_cycles (pr_candidate r)));
               issued = \<lparr> ia_arm = arm, ia_issued_cycle = cycle, ia_complete_not_before_cycle = not_before,
                          ia_expires_after_cycle = sat_add not_before ENDPOINT_GRACE_CYCLES \<rparr>
           in (directive_of (pr_candidate r) (pa_id (pr_assignment r)) issued
                 (arm = ArmTreatment \<and> pc_family (pr_candidate r) \<noteq> AF_MarkovPrewarm) False # ds,
               r\<lparr> pr_issued := Some issued \<rparr> # rs))"

definition issue_ready_arms :: "u64 \<Rightarrow> pair_gates \<Rightarrow> lab \<Rightarrow> pair_directive list \<times> lab" where
  "issue_ready_arms cycle g l =
     (if phase l = PhaseShadow \<or> \<not> allows_pair g then ([], l)
      else let (ds, rs) = issue_ready_from cycle (lb_open l) in (ds, l\<lparr> lb_open := rs \<rparr>))"

subsection \<open>Restarts\<close>

record lab_persisted =
  ps_schema_version :: u32
  ps_origin :: origin
  ps_next_pair_sequence :: u64
  ps_open :: "pair_record list"
  ps_shadow_open :: "shadow_pair_record list"
  ps_consumed_experiments :: "experiment_id list"
  ps_completed :: "completed_pair_summary list"
  ps_gold_dedup :: "pair_id list"
  ps_metrics :: lab_metrics
  ps_rollout :: lab_rollout
  ps_reserved :: string

definition lab_persist :: "lab \<Rightarrow> lab_persisted" where
  "lab_persist l = \<lparr> ps_schema_version = LAB_SCHEMA_VERSION, ps_origin = lb_origin l,
     ps_next_pair_sequence = lb_next_pair_sequence l, ps_open = lb_open l,
     ps_shadow_open = lb_shadow_open l, ps_consumed_experiments = lb_consumed_experiments l,
     ps_completed = lb_completed l, ps_gold_dedup = lb_gold_dedup l, ps_metrics = lb_metrics l,
     ps_rollout = lb_rollout l, ps_reserved = [] \<rparr>"

definition valid_persisted_pair :: "origin \<Rightarrow> pair_record \<Rightarrow> bool" where
  "valid_persisted_pair og r \<longleftrightarrow>
     validate_candidate (pr_candidate r) = Inr () \<and> pc_origin (pr_candidate r) = og
     \<and> pa_id (pr_assignment r) \<noteq> 0
     \<and> complement (pa_first (pr_assignment r)) = pa_second (pr_assignment r)
     \<and> (case pr_first_endpoint r of None \<Rightarrow> True | Some e \<Rightarrow> endpoint_matches (pr_candidate r) e)
     \<and> (case pr_second_endpoint r of None \<Rightarrow> True | Some e \<Rightarrow> endpoint_matches (pr_candidate r) e)
     \<and> (case pr_issued r of
          None \<Rightarrow> True
        | Some i \<Rightarrow> ia_issued_cycle i > 0
            \<and> ia_complete_not_before_cycle i
                \<ge> sat_add (ia_issued_cycle i) (ucast (pc_horizon_cycles (pr_candidate r)))
            \<and> ia_expires_after_cycle i \<ge> ia_complete_not_before_cycle i
            \<and> (case pr_progress r of
                 AwaitingFirst \<Rightarrow> ia_arm i = pa_first (pr_assignment r)
               | AwaitingComplement \<Rightarrow> ia_arm i = pa_second (pr_assignment r)
               | Washout \<Rightarrow> False
               | ReadyToClose \<Rightarrow> False))
     \<and> (pr_washout_started_cycle r = None \<or> pr_progress r = Washout)"

definition valid_lab_persisted :: "(lab_persisted \<Rightarrow> nat option) \<Rightarrow> lab_persisted \<Rightarrow> bool" where
  "valid_lab_persisted json_len p \<longleftrightarrow>
     ps_schema_version p = LAB_SCHEMA_VERSION \<and> length (ps_open p) \<le> MAX_OPEN_PAIRS
     \<and> length (ps_completed p) \<le> MAX_COMPLETED_PAIRS \<and> length (ps_gold_dedup p) \<le> MAX_GOLD_DEDUP
     \<and> ps_reserved p = []
     \<and> (case json_len p of None \<Rightarrow> False | Some n \<Rightarrow> n \<le> MAX_SERIALIZED_BYTES)
     \<and> list_all (valid_persisted_pair (ps_origin p)) (ps_open p)"

definition demote_gold :: "completed_pair_summary \<Rightarrow> completed_pair_summary" where
  "demote_gold s = (if cs_evidence s = PairGold
     then s\<lparr> cs_evidence := Silver, cs_effective := False, cs_harmful := False \<rparr> else s)"

fun authoritative_counts :: "pair_id set \<Rightarrow> pair_id set \<Rightarrow> completed_pair_summary list \<Rightarrow>
    u64 \<times> u64 \<times> u64 \<Rightarrow> u64 \<times> u64 \<times> u64" where
  "authoritative_counts retained seen [] acc = acc"
| "authoritative_counts retained seen (s # ss) (gold, eff, harm) =
     (if cs_evidence s \<noteq> PairGold \<or> cs_interrupted s \<or> cs_id s \<notin> retained \<or> cs_id s \<in> seen
      then authoritative_counts retained
        (if cs_evidence s = PairGold \<and> \<not> cs_interrupted s \<and> cs_id s \<in> retained
         then insert (cs_id s) seen else seen) ss (gold, eff, harm)
      else authoritative_counts retained (insert (cs_id s) seen) ss
        (sat_add gold 1, sat_add eff (if cs_effective s then 1 else 0),
         sat_add harm (if cs_harmful s then 1 else 0)))"

definition reconcile_authoritative_metrics :: "lab \<Rightarrow> lab" where
  "reconcile_authoritative_metrics l =
     (let (gold, eff, harm) = authoritative_counts (set (lb_gold_dedup l)) {} (lb_completed l) (0, 0, 0)
      in on_metrics (\<lambda>m. m\<lparr> lm_pair_gold := gold, lm_effective := eff, lm_harmful := harm \<rparr>) l)"

text \<open>
  \<open>restore\<close> in three parts: what is carried over, the open pairs that become interrupted
  history, and the shadow arms that belong to the previous boot; then the rollout.
\<close>

definition restored_base :: "lab_persisted \<Rightarrow> origin \<Rightarrow> lab" where
  "restored_base p expected = (lab_cold_start expected)\<lparr> lb_next_pair_sequence := ps_next_pair_sequence p,
     lb_shadow_open := ps_shadow_open p, lb_consumed_experiments := ps_consumed_experiments p,
     lb_completed := map demote_gold (ps_completed p), lb_metrics := ps_metrics p,
     lb_rollout := ps_rollout p \<rparr>"

definition interrupt_open :: "pair_record list \<Rightarrow> lab \<Rightarrow> lab" where
  "interrupt_open rs l =
     on_metrics (\<lambda>m. m\<lparr> lm_interrupted := sat_add (lm_interrupted m) (word_of_nat (length rs)) \<rparr>)
       (fold (\<lambda>r. push_completed (interrupted_summary (pa_id (pr_assignment r)))) rs l)"

definition drop_stale_shadow :: "lab \<Rightarrow> lab" where
  "drop_stale_shadow l =
     (let stale = length (filter (\<lambda>r. sp_issued r \<noteq> None) (lb_shadow_open l))
      in on_metrics (\<lambda>m. m\<lparr> lm_shadow_reaped := sat_add (lm_shadow_reaped m) (word_of_nat stale) \<rparr>)
           (l\<lparr> lb_shadow_open := filter (\<lambda>r. sp_issued r = None) (lb_shadow_open l) \<rparr>))"

definition restored_rollout :: "lab_rollout \<Rightarrow> lab_rollout" where
  "restored_rollout r = (snd (rollout_reset_to_shadow 0 r))\<lparr>
     ro_shadow_eligible := ro_shadow_eligible r,
     ro_shadow_measurements_proven := ro_shadow_measurements_proven r,
     ro_causal_pairs_consumed := ro_causal_pairs_consumed r \<rparr>"

definition lab_restore :: "(lab_persisted \<Rightarrow> nat option) \<Rightarrow> lab_persisted \<Rightarrow> origin \<Rightarrow>
    lab \<times> restore_disposition" where
  "lab_restore json_len p expected =
     (if ps_origin p \<noteq> expected \<or> \<not> origin_is_known expected then (lab_cold_start expected, ResetOrigin)
      else if \<not> valid_lab_persisted json_len p then (lab_cold_start expected, ResetHostile)
      else
        (let l = drop_stale_shadow (reconcile_authoritative_metrics
                   (interrupt_open (ps_open p) (restored_base p expected)))
         in (on_rollout restored_rollout
               (l\<lparr> lb_restored_progress := ro_causal_pairs_consumed (lb_rollout l) \<rparr>),
             if ps_open p = [] then Restored else RestoredInterrupted)))"

end
