(* ===== verification/Lab_Properties.thy ===== *)
theory Lab_Properties
  imports Microexperiment_Lab
begin

text \<open>
  What the laboratory of \<open>Microexperiment_Lab\<close> guarantees after any sequence of calls: bounds
  and unique identities, evidence before authority, idempotent consumption of certified pairs,
  the meaning of a closure, and what a restart keeps; and when shadow pairs are reaped.
\<close>

named_theorems lab_inv_rules \<open>updates that keep the invariant of the laboratory\<close>

subsection \<open>Identities\<close>

lemma pair_id_sequence: "ucast (pair_id_of og n) = n"
  by (rule bit_word_eqI) (simp add: pair_id_of_def bit_simps)

lemma pair_id_inj: "pair_id_of og a = pair_id_of og b \<longleftrightarrow> a = b"
  by (metis pair_id_sequence)

lemma assignment_id [simp]: "pa_id (assignment_for og n) = pair_id_of og n"
  by (simp add: assignment_for_def case_prod_unfold Let_def)

lemma assignment_complement: "complement (pa_first (assignment_for og n)) = pa_second (assignment_for og n)"
  by (simp add: assignment_for_def)

lemma checked_succ_Some: "checked_succ n = Some m \<longleftrightarrow> n \<noteq> - 1 \<and> m = n + 1"
  by (auto simp: checked_succ_def)

lemma next_greater: "n \<noteq> - 1 \<Longrightarrow> n < n + 1" for n :: u64
proof -
  assume "n \<noteq> - 1"
  then have "unat (sat_add n 1) \<noteq> unat n" by (metis sat_inc_eq_self_iff word_unat_eq_iff)
  then have "Suc (unat n) < 2 ^ 64" using unat_bound [of n] by (simp add: unat_sat_inc)
  then show ?thesis by (simp add: word_nat unat_word_ariths)
qed

subsection \<open>The invariant\<close>

definition open_ids :: "lab \<Rightarrow> pair_id list" where
  "open_ids l = map (\<lambda>r. pa_id (pr_assignment r)) (lb_open l)"

definition shadow_ids :: "lab \<Rightarrow> pair_id list" where
  "shadow_ids l = map (\<lambda>r. pa_id (sp_assignment r)) (lb_shadow_open l)"

definition issued_id :: "origin \<Rightarrow> u64 \<Rightarrow> pair_id \<Rightarrow> bool" where
  "issued_id og next i \<longleftrightarrow> (\<exists>n. n \<le> next \<and> i = pair_id_of og n)"

definition ids_inv :: "lab \<Rightarrow> bool" where
  "ids_inv l \<longleftrightarrow> distinct (open_ids l @ shadow_ids l) \<and>
     (\<forall>i \<in> set (open_ids l) \<union> set (shadow_ids l) \<union> set (lb_shadow_terminal l).
        issued_id (lb_origin l) (lb_next_pair_sequence l) i) \<and>
     set (lb_shadow_terminal l) \<inter> (set (open_ids l) \<union> set (shadow_ids l)) = {}"

definition bounds_inv :: "lab \<Rightarrow> bool" where
  "bounds_inv l \<longleftrightarrow> length (lb_open l) \<le> MAX_OPEN_PAIRS \<and> length (lb_shadow_open l) \<le> MAX_OPEN_PAIRS
     \<and> length (lb_completed l) \<le> MAX_COMPLETED_PAIRS \<and> length (lb_gold_dedup l) \<le> MAX_GOLD_DEDUP
     \<and> length (lb_pending_gold l) \<le> MAX_GOLD_DEDUP
     \<and> length (lb_consumed_experiments l) \<le> MAX_CONSUMED_EXPERIMENTS
     \<and> length (lb_shadow_terminal l) \<le> MAX_SHADOW_TERMINAL_MEMORY"

definition evidence_inv :: "lab \<Rightarrow> bool" where
  "evidence_inv l \<longleftrightarrow> lb_rollout_config l = rollout_config_default
     \<and> (phase l = PhaseShadow \<or> ro_causal_pairs_consumed (lb_rollout l) \<ge> SHADOW_MIN_MEASUREMENTS)
     \<and> ro_causal_pairs_consumed (lb_rollout l) \<le> lm_causal_pairs_consumed (lb_metrics l)
     \<and> lm_causal_pairs_consumed (lb_metrics l) \<le> lm_pairs_accepted (lb_metrics l)"

text \<open>A shadow pair only ever carries a control arm, and none holds an endpoint.\<close>

definition control_only :: "shadow_pair_record \<Rightarrow> bool" where
  "control_only r \<longleftrightarrow> sp_control_endpoint r = None \<and>
     (case sp_issued r of None \<Rightarrow> True | Some i \<Rightarrow> ia_arm i = ArmControl)"

definition shadow_inv :: "lab \<Rightarrow> bool" where
  "shadow_inv l \<longleftrightarrow> list_all control_only (lb_shadow_open l)"

definition lab_inv :: "lab \<Rightarrow> bool" where
  "lab_inv l \<longleftrightarrow> bounds_inv l \<and> ids_inv l \<and> evidence_inv l \<and> shadow_inv l"

lemmas lab_inv_defs = lab_inv_def bounds_inv_def ids_inv_def evidence_inv_def shadow_inv_def
  open_ids_def shadow_ids_def

lemma lab_inv_cold [lab_inv_rules]: "lab_inv (lab_cold_start og)"
  by (simp add: lab_inv_defs lab_cold_start_def rollout_default_def lab_metrics_default_def)

text \<open>Metrics and rollout updates that leave the evidence alone.\<close>

lemma inv_on_metrics [lab_inv_rules]:
  assumes "lab_inv l"
    and "\<And>m. lm_causal_pairs_consumed (f m) = lm_causal_pairs_consumed m"
    and "\<And>m. lm_pairs_accepted (f m) = lm_pairs_accepted m"
  shows "lab_inv (on_metrics f l)"
  using assms by (simp add: lab_inv_defs on_metrics_def)

lemma inv_on_rollout [lab_inv_rules]:
  assumes "lab_inv l"
    and "\<And>r. ro_phase (f r) = ro_phase r"
    and "\<And>r. ro_causal_pairs_consumed (f r) = ro_causal_pairs_consumed r"
  shows "lab_inv (on_rollout f l)"
  using assms by (simp add: lab_inv_defs on_rollout_def)

lemma inv_small_updates [lab_inv_rules]:
  "lab_inv l \<Longrightarrow> lab_inv (l\<lparr> lb_pairs_examined := n \<rparr>)"
  "lab_inv l \<Longrightarrow> lab_inv (l\<lparr> lb_phase_clock_armed := b \<rparr>)"
  "lab_inv l \<Longrightarrow> lab_inv (l\<lparr> lb_progress_resets := c, lb_last_progress_reset_reason := why \<rparr>)"
  "lab_inv l \<Longrightarrow> lab_inv (l\<lparr> lb_pending_gold := [] \<rparr>)"
  by (simp_all add: lab_inv_defs)

lemma inv_find_open [lab_inv_rules]: "lab_inv l \<Longrightarrow> lab_inv (snd (find_open i l))"
  by (simp add: find_open_def Let_def lab_inv_rules)

lemma find_open_fields [simp]:
  "lb_open (snd (find_open i l)) = lb_open l"
  "lb_origin (snd (find_open i l)) = lb_origin l"
  "lb_rollout (snd (find_open i l)) = lb_rollout l"
  "lb_metrics (snd (find_open i l)) = lb_metrics l"
  "lb_shadow_open (snd (find_open i l)) = lb_shadow_open l"
  "lb_completed (snd (find_open i l)) = lb_completed l"
  by (simp_all add: find_open_def Let_def)

lemma find_open_index:
  "fst (find_open i l) = Some ix \<Longrightarrow> ix < length (lb_open l) \<and> pa_id (pr_assignment (lb_open l ! ix)) = i"
  by (auto simp: find_open_def Let_def dest: find_index_Some)

lemma inv_update_open [lab_inv_rules]:
  assumes "lab_inv l" and "\<And>r. pr_assignment (f r) = pr_assignment r"
  shows "lab_inv (update_open ix f l)"
proof -
  have "map (\<lambda>r. pa_id (pr_assignment r)) ((lb_open l)[ix := f (lb_open l ! ix)]) =
      map (\<lambda>r. pa_id (pr_assignment r)) (lb_open l)"
    by (cases "ix < length (lb_open l)") (simp_all add: map_update assms(2) list_update_same_conv list_update_beyond)
  then show ?thesis using assms(1) by (simp add: lab_inv_defs update_open_def)
qed

lemma inv_map_open [lab_inv_rules]:
  assumes "lab_inv l" and "map (\<lambda>r. pa_id (pr_assignment r)) rs = open_ids l"
  shows "lab_inv (l\<lparr> lb_open := rs \<rparr>)"
proof -
  have "length rs = length (lb_open l)" using assms(2) unfolding open_ids_def by (metis length_map)
  then show ?thesis using assms by (simp add: lab_inv_defs)
qed

lemma inv_remove_open [lab_inv_rules]:
  assumes "lab_inv l" and "ix < length (lb_open l)"
  shows "lab_inv (l\<lparr> lb_open := swap_remove ix (lb_open l) \<rparr>)"
proof -
  let ?l = "l\<lparr> lb_open := swap_remove ix (lb_open l) \<rparr>"
  have ids: "open_ids ?l = swap_remove ix (open_ids l)"
    using assms(2) by (simp add: open_ids_def map_swap_remove)
  have len: "ix < length (open_ids l)" using assms(2) by (simp add: open_ids_def)
  have "set (open_ids ?l) \<subseteq> set (open_ids l)" "distinct (open_ids l) \<Longrightarrow> distinct (open_ids ?l)"
    unfolding ids using set_swap_remove [OF len] distinct_swap_remove(1) [OF _ len] by auto
  then have "ids_inv ?l"
    using assms(1) by (auto simp: lab_inv_def ids_inv_def shadow_ids_def)
  then show ?thesis
    using assms by (auto simp: lab_inv_def bounds_inv_def evidence_inv_def shadow_inv_def
      intro: le_trans [OF diff_le_self])
qed

lemma inv_push_completed [lab_inv_rules]: "lab_inv l \<Longrightarrow> lab_inv (push_completed s l)"
  by (auto simp: push_completed_def lab_inv_defs lab_limits intro!: push_bounded_length)

lemma inv_push_gold [lab_inv_rules]:
  "lab_inv l \<Longrightarrow> length q \<le> MAX_GOLD_DEDUP \<Longrightarrow> length gs \<le> MAX_GOLD_DEDUP \<Longrightarrow>
   lab_inv (l\<lparr> lb_gold_dedup := q, lb_pending_gold := gs \<rparr>)"
  by (simp add: lab_inv_defs)

lemma inv_gold_room:
  assumes "lab_inv l"
  shows "length (push_bounded MAX_GOLD_DEDUP i (lb_gold_dedup l)) \<le> MAX_GOLD_DEDUP"
    and "length (push_bounded MAX_GOLD_DEDUP g (lb_pending_gold l)) \<le> MAX_GOLD_DEDUP"
  using assms by (auto simp: lab_inv_def bounds_inv_def lab_limits intro!: push_bounded_length)

lemma inv_advance_rollout [lab_inv_rules]:
  "lab_inv l \<Longrightarrow> lab_inv (advance_rollout now b l)"
  by (auto simp: lab_inv_defs advance_rollout_def Let_def rollout_config_default_def)

lemma inv_reset [lab_inv_rules]: "lab_inv l \<Longrightarrow> lab_inv (reset_to_shadow now why l)"
  by (simp add: reset_to_shadow_def rollout_reset_to_shadow_def note_progress_reset_def lab_inv_defs)

subsection \<open>Every operation keeps the invariant\<close>

lemma issued_id_mono: "issued_id og n i \<Longrightarrow> n \<le> m \<Longrightarrow> issued_id og m i"
  unfolding issued_id_def using order.trans by blast

lemma issued_id_new [simp]: "issued_id og n (pair_id_of og n)"
  unfolding issued_id_def by blast

lemma inv_fresh:
  assumes "lab_inv l" and "checked_succ (lb_next_pair_sequence l) = Some next"
  shows "pair_id_of (lb_origin l) next \<notin> set (open_ids l) \<union> set (shadow_ids l) \<union> set (lb_shadow_terminal l)"
proof
  have gt: "lb_next_pair_sequence l < next"
    using assms(2) next_greater by (auto simp: checked_succ_Some)
  assume "pair_id_of (lb_origin l) next \<in> set (open_ids l) \<union> set (shadow_ids l) \<union> set (lb_shadow_terminal l)"
  with assms(1) have "issued_id (lb_origin l) (lb_next_pair_sequence l) (pair_id_of (lb_origin l) next)"
    unfolding lab_inv_def ids_inv_def by blast
  then show False using gt by (auto simp: issued_id_def pair_id_inj)
qed

lemma inv_bump:
  assumes "lab_inv l" and "checked_succ (lb_next_pair_sequence l) = Some next"
  shows "lab_inv (l\<lparr> lb_next_pair_sequence := next \<rparr>)"
proof -
  have "lb_next_pair_sequence l \<le> next"
    using assms(2) next_greater by (auto simp: checked_succ_Some less_imp_le)
  then show ?thesis
    using assms(1) by (auto simp: lab_inv_def ids_inv_def bounds_inv_def evidence_inv_def shadow_inv_def
      open_ids_def shadow_ids_def intro: issued_id_mono)
qed

lemma inv_push_open:
  assumes "lab_inv l" and "length (lb_open l) < MAX_OPEN_PAIRS"
    and "issued_id (lb_origin l) (lb_next_pair_sequence l) (pa_id (pr_assignment r))"
    and "pa_id (pr_assignment r) \<notin> set (open_ids l) \<union> set (shadow_ids l) \<union> set (lb_shadow_terminal l)"
  shows "lab_inv (l\<lparr> lb_open := lb_open l @ [r] \<rparr>)"
  using assms by (auto simp: lab_inv_defs)

lemma inv_push_shadow_open:
  assumes "lab_inv l" and "length (lb_shadow_open l) < MAX_OPEN_PAIRS"
    and "issued_id (lb_origin l) (lb_next_pair_sequence l) (pa_id (sp_assignment r))"
    and "pa_id (sp_assignment r) \<notin> set (open_ids l) \<union> set (shadow_ids l) \<union> set (lb_shadow_terminal l)"
    and "sp_issued r = None" and "sp_control_endpoint r = None"
  shows "lab_inv (l\<lparr> lb_shadow_open := lb_shadow_open l @ [r] \<rparr>)"
  using assms by (auto simp: lab_inv_defs control_only_def)

lemma inv_notes [lab_inv_rules]:
  "lab_inv l \<Longrightarrow> lab_inv (note_proposed l)" "lab_inv l \<Longrightarrow> lab_inv (note_randomized l)"
  by (simp_all add: note_proposed_def note_randomized_def inv_on_metrics)

lemma notes_fields [simp]:
  "lb_open (note_proposed l) = lb_open l" "lb_shadow_open (note_proposed l) = lb_shadow_open l"
  "lb_origin (note_proposed l) = lb_origin l" "lb_rollout (note_proposed l) = lb_rollout l"
  "lb_next_pair_sequence (note_proposed l) = lb_next_pair_sequence l"
  "lb_shadow_terminal (note_proposed l) = lb_shadow_terminal l"
  by (simp_all add: note_proposed_def on_metrics_def)

lemma inv_propose [lab_inv_rules]:
  assumes "lab_inv l"
  shows "lab_inv (snd (propose c g l))"
proof (cases "\<exists>next. checked_succ (lb_next_pair_sequence l) = Some next \<and> length (lb_open l) < MAX_OPEN_PAIRS")
  case False
  then show ?thesis
    using assms by (auto simp: propose_def Let_def lab_inv_rules split: sum.split option.split)
next
  case True
  then obtain nxt where n: "checked_succ (lb_next_pair_sequence l) = Some nxt"
    "length (lb_open l) < MAX_OPEN_PAIRS" by blast
  let ?a = "assignment_for (lb_origin l) nxt"
  let ?r = "\<lparr> pr_candidate = c, pr_assignment = ?a, pr_first_endpoint = None, pr_second_endpoint = None,
     pr_washout_elapsed = 0, pr_progress = AwaitingFirst, pr_issued = None, pr_washout_started_cycle = None \<rparr>"
  have "lab_inv (note_proposed l)" by (rule inv_notes [OF assms])
  from inv_bump [OF this] have b: "lab_inv ((note_proposed l)\<lparr> lb_next_pair_sequence := nxt \<rparr>)"
    using n by simp
  have "lab_inv ((note_proposed l)\<lparr> lb_next_pair_sequence := nxt,
      lb_open := lb_open (note_proposed l) @ [?r] \<rparr>)"
    using inv_push_open [OF b, of ?r] inv_fresh [OF assms n(1)] n(2)
    by (simp add: open_ids_def shadow_ids_def)
  moreover have "(note_proposed l)\<lparr> lb_next_pair_sequence := nxt, lb_open := lb_open (note_proposed l) @ [?r] \<rparr>
      = (note_proposed l)\<lparr> lb_open := lb_open l @ [?r], lb_next_pair_sequence := nxt \<rparr>" by simp
  ultimately have "lab_inv ((note_proposed l)\<lparr> lb_open := lb_open l @ [?r], lb_next_pair_sequence := nxt \<rparr>)"
    by (simp only:)
  then show ?thesis
    using n assms by (auto simp: propose_def Let_def lab_inv_rules split: sum.split)
qed

lemma inv_evaluate_shadow [lab_inv_rules]:
  assumes "lab_inv l"
  shows "lab_inv (snd (evaluate_shadow c g l))"
proof (cases "checked_succ (lb_next_pair_sequence l)")
  case None
  then show ?thesis
    using assms by (auto simp: evaluate_shadow_def Let_def lab_inv_rules split: sum.split)
next
  case (Some nxt)
  let ?a = "assignment_for (lb_origin l) nxt"
  define m where "m = on_metrics (\<lambda>m. m\<lparr> lm_shadow_would_open := sat_add (lm_shadow_would_open m) 1 \<rparr>)
    (note_randomized ((note_proposed l)\<lparr> lb_next_pair_sequence := nxt \<rparr>))"
  have "lab_inv ((note_proposed l)\<lparr> lb_next_pair_sequence := nxt \<rparr>)"
    using inv_bump [OF inv_notes(1) [OF assms]] Some by simp
  then have m: "lab_inv m" by (simp add: m_def lab_inv_rules)
  have "lab_inv (m\<lparr> lb_shadow_open := lb_shadow_open m @ [\<lparr> sp_candidate = c, sp_assignment = ?a,
      sp_issued = None, sp_control_endpoint = None \<rparr>] \<rparr>)" if "length (lb_shadow_open m) < MAX_OPEN_PAIRS"
    using inv_fresh [OF assms Some]
    by (intro inv_push_shadow_open m that)
      (simp_all add: m_def on_metrics_def note_randomized_def open_ids_def shadow_ids_def)
  then have "lab_inv (push_shadow c ?a m)"
    using m by (auto simp: push_shadow_def Let_def lab_inv_rules)
  then show ?thesis
    using Some assms by (auto simp: evaluate_shadow_def Let_def lab_inv_rules m_def split: sum.split)
qed

lemma issue_shadow_from_assignments:
  "map sp_assignment (snd (issue_shadow_from cycle n rs)) = map sp_assignment rs"
proof (induction rs arbitrary: n)
  case (Cons r rs)
  then show ?case by (simp add: Let_def case_prod_unfold)
qed simp

lemma issue_shadow_from_control:
  "list_all control_only rs \<Longrightarrow> list_all control_only (snd (issue_shadow_from cycle n rs))"
proof (induction rs arbitrary: n)
  case (Cons r rs)
  have "control_only (r\<lparr> sp_issued := Some (shadow_arm cycle (sp_candidate r)) \<rparr>)"
    using Cons.prems by (simp add: control_only_def shadow_arm_def Let_def)
  then show ?case using Cons by (simp add: Let_def case_prod_unfold)
qed simp

lemma inv_replace_shadow:
  assumes "lab_inv l" and eq: "map sp_assignment rs = map sp_assignment (lb_shadow_open l)"
    and "list_all control_only rs"
  shows "lab_inv (l\<lparr> lb_shadow_open := rs \<rparr>)"
proof -
  have "length rs = length (lb_shadow_open l)" using eq by (metis length_map)
  moreover have "map (pa_id \<circ> sp_assignment) rs = map (pa_id \<circ> sp_assignment) (lb_shadow_open l)"
    using arg_cong [OF eq, of "map pa_id"] by simp
  ultimately show ?thesis using assms(1,3)
    by (simp add: lab_inv_def bounds_inv_def ids_inv_def evidence_inv_def shadow_inv_def
      open_ids_def shadow_ids_def comp_def)
qed

lemma inv_issue_shadow_arms [lab_inv_rules]:
  assumes "lab_inv l"
  shows "lab_inv (snd (issue_shadow_arms cycle g l))"
proof -
  have "list_all control_only (lb_shadow_open l)" using assms by (simp add: lab_inv_def shadow_inv_def)
  then have "lab_inv (l\<lparr> lb_shadow_open := snd (issue_shadow_from cycle 0 (lb_shadow_open l)) \<rparr>)"
    by (intro inv_replace_shadow assms issue_shadow_from_assignments issue_shadow_from_control)
  then show ?thesis using assms by (simp add: issue_shadow_arms_def Let_def case_prod_unfold)
qed

lemma inv_remove_shadow:
  assumes "lab_inv l" and "ix < length (lb_shadow_open l)"
  shows "lab_inv (l\<lparr> lb_shadow_open := swap_remove ix (lb_shadow_open l) \<rparr>)"
    and "pa_id (sp_assignment (lb_shadow_open l ! ix)) \<notin>
      set (shadow_ids (l\<lparr> lb_shadow_open := swap_remove ix (lb_shadow_open l) \<rparr>))"
    and "pa_id (sp_assignment (lb_shadow_open l ! ix)) \<notin> set (open_ids l)"
    and "issued_id (lb_origin l) (lb_next_pair_sequence l) (pa_id (sp_assignment (lb_shadow_open l ! ix)))"
proof -
  let ?l = "l\<lparr> lb_shadow_open := swap_remove ix (lb_shadow_open l) \<rparr>"
  have ids: "shadow_ids ?l = swap_remove ix (shadow_ids l)"
    using assms(2) by (simp add: shadow_ids_def map_swap_remove)
  have len: "ix < length (shadow_ids l)" using assms(2) by (simp add: shadow_ids_def)
  have id: "pa_id (sp_assignment (lb_shadow_open l ! ix)) = shadow_ids l ! ix"
    using assms(2) by (simp add: shadow_ids_def)
  have d: "distinct (shadow_ids l)" using assms(1) by (simp add: lab_inv_def ids_inv_def)
  have sub: "set (shadow_ids ?l) \<subseteq> set (shadow_ids l)" "distinct (shadow_ids ?l)"
    unfolding ids using set_swap_remove [OF len] distinct_swap_remove(1) [OF d len] by auto
  have "ids_inv ?l"
    using assms(1) sub by (auto simp: lab_inv_def ids_inv_def open_ids_def)
  moreover have "list_all control_only (swap_remove ix (lb_shadow_open l))"
    using assms(1) set_swap_remove [OF assms(2)] by (auto simp: lab_inv_def shadow_inv_def list_all_iff)
  ultimately show "lab_inv ?l"
    using assms by (auto simp: lab_inv_def bounds_inv_def evidence_inv_def shadow_inv_def
      intro: le_trans [OF diff_le_self])
  show "pa_id (sp_assignment (lb_shadow_open l ! ix)) \<notin> set (shadow_ids ?l)"
    unfolding ids id by (rule distinct_swap_remove(2) [OF d len])
  have "shadow_ids l ! ix \<in> set (shadow_ids l)" using len by simp
  then show "pa_id (sp_assignment (lb_shadow_open l ! ix)) \<notin> set (open_ids l)"
    "issued_id (lb_origin l) (lb_next_pair_sequence l) (pa_id (sp_assignment (lb_shadow_open l ! ix)))"
    using assms(1) unfolding id by (auto simp: lab_inv_def ids_inv_def)
qed

lemma ids_forget:
  "open_ids (l\<lparr> lb_shadow_terminal := q \<rparr>) = open_ids l"
  "shadow_ids (l\<lparr> lb_shadow_terminal := q \<rparr>) = shadow_ids l"
  by (simp_all add: open_ids_def shadow_ids_def)

lemma inv_forget_shadow:
  assumes "lab_inv l" and "issued_id (lb_origin l) (lb_next_pair_sequence l) i"
    and "i \<notin> set (open_ids l)" and "i \<notin> set (shadow_ids l)"
  shows "lab_inv (l\<lparr> lb_shadow_terminal := push_bounded MAX_SHADOW_TERMINAL_MEMORY i (lb_shadow_terminal l) \<rparr>)"
proof -
  define q where "q = push_bounded MAX_SHADOW_TERMINAL_MEMORY i (lb_shadow_terminal l)"
  have "set q \<subseteq> insert i (set (lb_shadow_terminal l))"
    unfolding q_def by (rule push_bounded_set)
  then have "ids_inv (l\<lparr> lb_shadow_terminal := q \<rparr>)"
    using assms unfolding lab_inv_def ids_inv_def ids_forget by (auto simp: ball_Un)
  moreover have "length q \<le> MAX_SHADOW_TERMINAL_MEMORY"
    unfolding q_def using assms(1)
    by (intro push_bounded_length) (simp_all add: lab_inv_def bounds_inv_def lab_limits)
  ultimately show ?thesis
    using assms(1) by (simp add: lab_inv_def bounds_inv_def evidence_inv_def shadow_inv_def flip: q_def)
qed

lemma on_metrics_fields [simp]:
  "lb_open (on_metrics f l) = lb_open l" "lb_shadow_open (on_metrics f l) = lb_shadow_open l"
  "lb_origin (on_metrics f l) = lb_origin l" "lb_rollout (on_metrics f l) = lb_rollout l"
  "lb_next_pair_sequence (on_metrics f l) = lb_next_pair_sequence l"
  "lb_shadow_terminal (on_metrics f l) = lb_shadow_terminal l"
  "lb_consumed_experiments (on_metrics f l) = lb_consumed_experiments l"
  "lb_metrics (on_metrics f l) = f (lb_metrics l)"
  "open_ids (on_metrics f l) = open_ids l" "shadow_ids (on_metrics f l) = shadow_ids l"
  by (simp_all add: on_metrics_def open_ids_def shadow_ids_def)

lemma inv_terminalise:
  assumes "lab_inv l" and "issued_id (lb_origin l) (lb_next_pair_sequence l) i" and "i \<notin> set (open_ids l)"
  shows "lab_inv (snd (terminalise_shadow_pair i l))"
proof (cases "find_index (\<lambda>r. pa_id (sp_assignment r) = i) (lb_shadow_open l)")
  case None
  then have "i \<notin> set (shadow_ids l)" by (auto simp: shadow_ids_def find_index_None)
  then show ?thesis
    using assms None by (simp add: terminalise_shadow_pair_def inv_forget_shadow)
next
  case (Some ix)
  note ix = find_index_Some [OF Some]
  define m where "m = on_metrics (\<lambda>m. m\<lparr> lm_shadow_reaped := sat_add (lm_shadow_reaped m) 1 \<rparr>)
    (l\<lparr> lb_shadow_open := swap_remove ix (lb_shadow_open l) \<rparr>)"
  have m: "lab_inv m" "i \<notin> set (shadow_ids m)" "open_ids m = open_ids l"
    "lb_origin m = lb_origin l" "lb_next_pair_sequence m = lb_next_pair_sequence l"
    unfolding m_def using inv_remove_shadow [OF assms(1), of ix] ix
    by (simp_all add: inv_on_metrics open_ids_def shadow_ids_def)
  then have "lab_inv (m\<lparr> lb_shadow_terminal := push_bounded MAX_SHADOW_TERMINAL_MEMORY i (lb_shadow_terminal m) \<rparr>)"
    using assms by (intro inv_forget_shadow) simp_all
  then show ?thesis
    using Some m(1) by (simp add: terminalise_shadow_pair_def flip: m_def)
qed

lemma terminalise_fields [simp]:
  "lb_origin (snd (terminalise_shadow_pair i l)) = lb_origin l"
  "lb_next_pair_sequence (snd (terminalise_shadow_pair i l)) = lb_next_pair_sequence l"
  "lb_open (snd (terminalise_shadow_pair i l)) = lb_open l"
  "open_ids (snd (terminalise_shadow_pair i l)) = open_ids l"
  by (simp_all add: terminalise_shadow_pair_def on_metrics_def open_ids_def split: option.split)

lemma inv_reap [lab_inv_rules]:
  assumes "lab_inv l"
  shows "lab_inv (reap_expired_shadow_pairs cycle l)"
proof -
  define body where "body = (\<lambda>i l. let (existed, l) = terminalise_shadow_pair i l in
    if existed then on_metrics (\<lambda>m. m\<lparr> lm_shadow_expired := sat_add (lm_shadow_expired m) 1 \<rparr>) l else l)"
  have step: "lab_inv (body i l) \<and> lb_origin (body i l) = lb_origin l
      \<and> lb_next_pair_sequence (body i l) = lb_next_pair_sequence l \<and> open_ids (body i l) = open_ids l"
    if "lab_inv l" "issued_id (lb_origin l) (lb_next_pair_sequence l) i" "i \<notin> set (open_ids l)" for i l
    using inv_terminalise [OF that] by (simp add: body_def case_prod_unfold Let_def inv_on_metrics)
  have "lab_inv (fold body is l)"
    if "lab_inv l" "\<forall>i \<in> set is. issued_id (lb_origin l) (lb_next_pair_sequence l) i \<and> i \<notin> set (open_ids l)"
    for "is" l
    using that
  proof (induction "is" arbitrary: l)
    case (Cons i "is")
    then show ?case using step [of l i] by simp
  qed simp
  moreover have "\<forall>i \<in> set (map (\<lambda>r. pa_id (sp_assignment r)) (filter (shadow_expired cycle) (lb_shadow_open l))).
      issued_id (lb_origin l) (lb_next_pair_sequence l) i \<and> i \<notin> set (open_ids l)"
    using assms by (fastforce simp: lab_inv_def ids_inv_def shadow_ids_def)
  ultimately show ?thesis
    using assms unfolding reap_expired_shadow_pairs_def body_def by blast
qed

lemma inv_record_shadow_endpoint [lab_inv_rules]:
  assumes "lab_inv l"
  shows "lab_inv (snd (record_shadow_endpoint ob l))"
proof (cases "find_index (\<lambda>r. pa_id (sp_assignment r) = te_pair_id ob) (lb_shadow_open l)")
  case None
  then show ?thesis using assms by (simp add: record_shadow_endpoint_def lab_inv_rules)
next
  case (Some ix)
  then have ix: "ix < length (lb_shadow_open l)" by (auto dest: find_index_Some)
  define m where "m = l\<lparr> lb_shadow_open := swap_remove ix (lb_shadow_open l) \<rparr>"
  have "lab_inv (snd (terminalise_shadow_pair (pa_id (sp_assignment (lb_shadow_open l ! ix))) m))"
    using inv_remove_shadow [OF assms ix]
    by (intro inv_terminalise) (simp_all add: m_def open_ids_def)
  then show ?thesis
    using Some by (simp add: record_shadow_endpoint_def Let_def inv_on_metrics inv_on_rollout flip: m_def)
qed

lemma inv_consume [lab_inv_rules]:
  assumes "lab_inv l"
  shows "lab_inv (snd (consume_exploration_pair p issued honoured l))"
proof -
  have "length (push_bounded MAX_CONSUMED_EXPERIMENTS x (lb_consumed_experiments l)) \<le> MAX_CONSUMED_EXPERIMENTS" for x
    using assms by (intro push_bounded_length) (simp_all add: lab_inv_def bounds_inv_def lab_limits)
  moreover have "a \<le> sat_add b 1" if "a \<le> b" for a b :: u64
    using that sat_add_ge order.trans by blast
  moreover have "sat_add a 1 \<le> sat_add b 1" if "a \<le> b" for a b :: u64
    using that by (simp add: word_nat)
  ultimately show ?thesis
    using assms by (auto simp: consume_exploration_pair_def Let_def on_metrics_def on_rollout_def lab_inv_def
      bounds_inv_def ids_inv_def evidence_inv_def shadow_inv_def open_ids_def shadow_ids_def)
qed

lemma count_endpoint_fields [simp]:
  "lm_causal_pairs_consumed (count_endpoint e m) = lm_causal_pairs_consumed m"
  "lm_pairs_accepted (count_endpoint e m) = lm_pairs_accepted m"
  by (simp_all add: count_endpoint_def Let_def split: arm_kind.split)

lemma count_reason_fields [simp]:
  "lm_causal_pairs_consumed (count_reason e m) = lm_causal_pairs_consumed m"
  "lm_pairs_accepted (count_reason e m) = lm_pairs_accepted m"
  by (simp_all add: count_reason_def split: pair_invalidation_reason.split)

lemma count_gold_fields [simp]:
  "lm_causal_pairs_consumed (count_gold g m) = lm_causal_pairs_consumed m"
  "lm_pairs_accepted (count_gold g m) = lm_pairs_accepted m"
  by (simp_all add: count_gold_def Let_def)

lemma count_closure_fields [simp]:
  "ro_phase (count_rollout_closure cl r) = ro_phase r"
  "ro_causal_pairs_consumed (count_rollout_closure cl r) = ro_causal_pairs_consumed r"
  by (simp_all add: count_rollout_closure_def Let_def split: lab_phase.split)

lemma inv_quarantine [lab_inv_rules]: "lab_inv l \<Longrightarrow> lab_inv (quarantine e l)"
  by (simp add: quarantine_def lab_inv_rules)

lemma quarantine_fields [simp]: "lb_open (quarantine e l) = lb_open l"
  by (simp add: quarantine_def)

lemma inv_record_endpoint [lab_inv_rules]:
  assumes "lab_inv l"
  shows "lab_inv (snd (record_endpoint i e l))"
proof -
  obtain found m where f: "find_open i l = (found, m)" by fastforce
  have "lab_inv m" using inv_find_open [OF assms, of i] f by simp
  then show ?thesis
    by (simp add: record_endpoint_def f Let_def lab_inv_rules split: option.split pair_progress.split)
qed

lemma inv_invalidate_pair [lab_inv_rules]:
  assumes "lab_inv l"
  shows "lab_inv (snd (invalidate_pair i reason l))"
proof -
  obtain found m where f: "find_open i l = (found, m)" by fastforce
  have m: "lab_inv m" "lb_open m = lb_open l" using inv_find_open [OF assms, of i] find_open_fields(1) [of i l] f
    by simp_all
  show ?thesis
  proof (cases found)
    case None
    then show ?thesis using m by (simp add: invalidate_pair_def f)
  next
    case (Some ix)
    then have "ix < length (lb_open m)" using find_open_index [of i l ix] f m by simp
    then have "lab_inv (m\<lparr> lb_open := swap_remove ix (lb_open m) \<rparr>)" by (rule inv_remove_open [OF m(1)])
    then show ?thesis
      by (simp add: invalidate_pair_def f Some Let_def lab_inv_rules)
  qed
qed

lemma inv_invalidate_ids [lab_inv_rules]:
  "lab_inv l \<Longrightarrow> lab_inv (snd (invalidate_ids reason ids l))"
  by (induction ids arbitrary: l) (simp_all add: Let_def case_prod_unfold inv_invalidate_pair)

lemma inv_invalidate_all [lab_inv_rules]: "lab_inv l \<Longrightarrow> lab_inv (snd (invalidate_all reason l))"
  by (simp add: invalidate_all_def inv_invalidate_ids)

lemma inv_record_timed_endpoint [lab_inv_rules]:
  assumes "lab_inv l"
  shows "lab_inv (snd (record_timed_endpoint ob l))"
proof -
  obtain found m where f: "find_open (te_pair_id ob) l = (found, m)" by fastforce
  have m: "lab_inv m" using inv_find_open [OF assms, of "te_pair_id ob"] f by simp
  have "lab_inv (snd (find_open (te_pair_id ob) (snd (record_endpoint (te_pair_id ob) e
      (update_open ix (\<lambda>r. r\<lparr> pr_issued := None \<rparr>) m)))))" for ix e
    using m by (simp add: lab_inv_rules)
  then show ?thesis
    using m by (simp add: record_timed_endpoint_def f Let_def case_prod_unfold lab_inv_rules
      split: option.split sum.split)
qed

lemma inv_advance_washout [lab_inv_rules]:
  assumes "lab_inv l"
  shows "lab_inv (snd (advance_washout i elapsed l))"
proof -
  obtain found m where f: "find_open i l = (found, m)" by fastforce
  have "lab_inv m" using inv_find_open [OF assms, of i] f by simp
  then show ?thesis
    by (simp add: advance_washout_def f Let_def lab_inv_rules split: option.split)
qed

lemma inv_close_pair [lab_inv_rules]:
  assumes "lab_inv l"
  shows "lab_inv (snd (close_pair i l))"
proof -
  obtain found m where f: "find_open i l = (found, m)" by fastforce
  have m: "lab_inv m" "lb_open m = lb_open l" using inv_find_open [OF assms, of i] find_open_fields(1) [of i l] f
    by simp_all
  have "lab_inv (m\<lparr> lb_open := swap_remove ix (lb_open m) \<rparr>)" if "found = Some ix" for ix
  proof -
    have "ix < length (lb_open m)" using find_open_index [of i l ix] f m that by simp
    then show ?thesis by (rule inv_remove_open [OF m(1)])
  qed
  then show ?thesis
    using assms m(1) inv_gold_room [OF m(1)] by (simp add: close_pair_def f Let_def case_prod_unfold lab_inv_rules
      split: option.split)
qed

lemma inv_drain [lab_inv_rules]: "lab_inv l \<Longrightarrow> lab_inv (snd (drain_pair_gold l))"
  by (simp add: drain_pair_gold_def lab_inv_rules)

lemma inv_route_candidate [lab_inv_rules]:
  assumes "lab_inv l"
  shows "lab_inv (snd (route_candidate c g l))"
proof -
  have e: "lab_inv (snd (evaluate_shadow c g l))" and p: "lab_inv (snd (propose c g l))"
    using assms by (simp_all add: lab_inv_rules)
  obtain re le rp lp where r: "evaluate_shadow c g l = (re, le)" "propose c g l = (rp, lp)" by fastforce
  show ?thesis
    using assms e p
    by (simp add: route_candidate_def r lab_inv_rules Let_def split: lab_phase.split sum.split)
qed

lemma inv_consider_candidate [lab_inv_rules]:
  assumes "lab_inv l"
  shows "lab_inv (snd (consider_candidate c g now l))"
proof -
  have "lab_inv (snd (route_candidate c g (candidate_clock now l)))"
    using assms by (simp add: candidate_clock_def Let_def lab_inv_rules)
  then show ?thesis
    by (auto simp: consider_candidate_def lab_inv_rules split: prod.split sum.split)
qed

lemma inv_advance_cycle [lab_inv_rules]:
  assumes "lab_inv l"
  shows "lab_inv (snd (advance_cycle cycle now g l))"
proof -
  have "pr_assignment (washout_tick cycle r) = pr_assignment r" for r
    by (simp add: washout_tick_def Let_def split: pair_progress.split option.split)
  then have w: "lab_inv (m\<lparr> lb_open := map (washout_tick cycle) (lb_open m) \<rparr>)" if "lab_inv m" for m
    using that by (intro inv_map_open) (simp_all add: open_ids_def comp_def)
  show ?thesis
    using assms by (simp add: advance_cycle_def Let_def case_prod_unfold lab_inv_rules w)
qed

lemma issue_ready_assignments:
  "map pr_assignment (snd (issue_ready_from cycle rs)) = map pr_assignment rs"
  by (induction cycle rs rule: issue_ready_from.induct) (simp_all add: Let_def case_prod_unfold)

lemma inv_issue_ready_arms [lab_inv_rules]:
  assumes "lab_inv l"
  shows "lab_inv (snd (issue_ready_arms cycle g l))"
proof -
  have "map (\<lambda>r. pa_id (pr_assignment r)) (snd (issue_ready_from cycle (lb_open l))) = open_ids l"
    using arg_cong [OF issue_ready_assignments [of cycle "lb_open l"], of "map pa_id"]
    by (simp add: open_ids_def comp_def)
  then have "lab_inv (l\<lparr> lb_open := snd (issue_ready_from cycle (lb_open l)) \<rparr>)"
    by (rule inv_map_open [OF assms])
  then show ?thesis using assms by (simp add: issue_ready_arms_def Let_def case_prod_unfold)
qed

lemma inv_filter_shadow:
  assumes "lab_inv l"
  shows "lab_inv (l\<lparr> lb_shadow_open := filter P (lb_shadow_open l) \<rparr>)"
proof -
  have "length (filter P (lb_shadow_open l)) \<le> length (lb_shadow_open l)" by simp
  then have "length (filter P (lb_shadow_open l)) \<le> MAX_OPEN_PAIRS"
    using assms le_trans unfolding lab_inv_def bounds_inv_def by blast
  then show ?thesis
    using assms by (auto simp: lab_inv_defs list_all_iff distinct_map_filter)
qed

lemma inv_push_all: "lab_inv l \<Longrightarrow> lab_inv (fold (\<lambda>r. push_completed (f r)) rs l)"
  by (induction rs arbitrary: l) (simp_all add: inv_push_completed)

lemma inv_reconcile: "lab_inv l \<Longrightarrow> lab_inv (reconcile_authoritative_metrics l)"
  by (simp add: reconcile_authoritative_metrics_def case_prod_unfold Let_def inv_on_metrics)

lemma reconcile_rollout [simp]: "lb_rollout (reconcile_authoritative_metrics l) = lb_rollout l"
  by (simp add: reconcile_authoritative_metrics_def case_prod_unfold Let_def)

lemma push_all_fields:
  "fold (\<lambda>r. push_completed (f r)) rs l = l\<lparr> lb_completed :=
     fold (\<lambda>r. push_bounded MAX_COMPLETED_PAIRS (f r)) rs (lb_completed l) \<rparr>"
  by (induction rs arbitrary: l) (simp_all add: push_completed_def)

text \<open>A daemon that stops and starts again: it persists its laboratory and restores it.\<close>

definition lab_restart :: "(lab_persisted \<Rightarrow> nat option) \<Rightarrow> lab \<Rightarrow> lab \<times> restore_disposition" where
  "lab_restart json_len l = lab_restore json_len (lab_persist l) (lb_origin l)"

lemma inv_restored [lab_inv_rules]:
  "lab_inv l \<Longrightarrow> lab_inv (interrupt_open rs l)"
  "lab_inv l \<Longrightarrow> lab_inv (drop_stale_shadow l)"
  "lab_inv l \<Longrightarrow> lab_inv (l\<lparr> lb_restored_progress := n \<rparr>)"
  "lab_inv l \<Longrightarrow> lab_inv (on_rollout restored_rollout l)"
     apply (simp add: interrupt_open_def inv_on_metrics inv_push_all)
    apply (simp add: drop_stale_shadow_def Let_def inv_on_metrics inv_filter_shadow)
   apply (simp add: lab_inv_defs)
  apply (simp add: lab_inv_defs on_rollout_def restored_rollout_def rollout_reset_to_shadow_def)
  done

lemma inv_restart [lab_inv_rules]:
  assumes "lab_inv l"
  shows "lab_inv (fst (lab_restart json_len l))"
proof -
  have "lab_inv (restored_base (lab_persist l) (lb_origin l))"
    using assms by (auto simp: restored_base_def lab_persist_def lab_inv_defs lab_cold_start_def)
  then show ?thesis
    by (simp add: lab_restart_def lab_restore_def Let_def lab_inv_cold inv_restored inv_reconcile)
qed

subsection \<open>The laboratory as a machine\<close>

datatype lab_op =
    OpConsider pair_candidate pair_gates u64
  | OpAdvance u64 u64 pair_gates
  | OpIssueReady u64 pair_gates
  | OpIssueShadow u64 pair_gates
  | OpTimedEndpoint timed_pair_endpoint
  | OpAdvanceWashout pair_id u32
  | OpClose pair_id
  | OpInvalidate pair_id pair_invalidation_reason
  | OpDrain
  | OpConsume completed_pair u64 u64
  | OpRestart

fun lab_step :: "(lab_persisted \<Rightarrow> nat option) \<Rightarrow> lab_op \<Rightarrow> lab \<Rightarrow> lab" where
  "lab_step json_len (OpConsider c g now) l = snd (consider_candidate c g now l)"
| "lab_step json_len (OpAdvance cycle now g) l = snd (advance_cycle cycle now g l)"
| "lab_step json_len (OpIssueReady cycle g) l = snd (issue_ready_arms cycle g l)"
| "lab_step json_len (OpIssueShadow cycle g) l = snd (issue_shadow_arms cycle g l)"
| "lab_step json_len (OpTimedEndpoint ob) l = snd (record_timed_endpoint ob l)"
| "lab_step json_len (OpAdvanceWashout i elapsed) l = snd (advance_washout i elapsed l)"
| "lab_step json_len (OpClose i) l = snd (close_pair i l)"
| "lab_step json_len (OpInvalidate i reason) l = snd (invalidate_pair i reason l)"
| "lab_step json_len OpDrain l = snd (drain_pair_gold l)"
| "lab_step json_len (OpConsume p issued honoured) l = snd (consume_exploration_pair p issued honoured l)"
| "lab_step json_len OpRestart l = fst (lab_restart json_len l)"

lemma lab_step_inv: "lab_inv l \<Longrightarrow> lab_inv (lab_step json_len op l)"
  by (cases op) (simp_all add: lab_inv_rules)

interpretation laboratory: invariant_machine "lab_step json_len" lab_inv for json_len
  by unfold_locales (rule lab_step_inv)

definition lab_run :: "(lab_persisted \<Rightarrow> nat option) \<Rightarrow> lab_op list \<Rightarrow> origin \<Rightarrow> lab" where
  "lab_run json_len ops og = fold (lab_step json_len) ops (lab_cold_start og)"

lemma lab_run_inv: "lab_inv (lab_run json_len ops og)"
  unfolding lab_run_def by (rule laboratory.run_inv [OF lab_inv_cold])

text \<open>
  C21: Whatever the sequence of calls, restarts included, the laboratory stays within its
  bounds, no two tracked pairs share an identity, a closed shadow pair is never open again,
  the rollout is out of Shadow only on evidence, and a shadow pair only holds a control arm.
\<close>

theorem lab_reachable_inv: "lab_inv (lab_run json_len ops og)"
  by (rule lab_run_inv)

subsection \<open>What counts as evidence\<close>

text \<open>
  The evidence that the rollout rests on is read off the list of calls: a call that consumes a
  pair of the cache family, all of whose control arms were honoured, for an experiment that is not
  among the remembered ones.
\<close>

definition certifies :: "lab_op \<Rightarrow> lab \<Rightarrow> bool" where
  "certifies op l \<longleftrightarrow> (\<exists>p issued honoured. op = OpConsume p issued honoured
     \<and> cp_family p = AF_MarkovPrewarm \<and> issued \<le> honoured
     \<and> cp_experiment_id p \<notin> set (lb_consumed_experiments l))"

definition capped :: "u64 \<Rightarrow> lab \<Rightarrow> bool" where
  "capped n l \<longleftrightarrow> ro_causal_pairs_consumed (lb_rollout l) \<le> n"

lemma capped_simps [simp]:
  "capped n (on_metrics f l) = capped n l"
  "capped n (l\<lparr> lb_open := rs \<rparr>) = capped n l"
  "capped n (l\<lparr> lb_shadow_open := ss \<rparr>) = capped n l"
  "capped n (l\<lparr> lb_shadow_terminal := is \<rparr>) = capped n l"
  "capped n (l\<lparr> lb_completed := cs \<rparr>) = capped n l"
  "capped n (l\<lparr> lb_pairs_examined := k \<rparr>) = capped n l"
  "capped n (l\<lparr> lb_next_pair_sequence := m \<rparr>) = capped n l"
  "capped n (l\<lparr> lb_phase_clock_armed := b \<rparr>) = capped n l"
  "capped n (l\<lparr> lb_pending_gold := gs \<rparr>) = capped n l"
  "capped n (l\<lparr> lb_gold_dedup := is \<rparr>) = capped n l"
  "capped n (l\<lparr> lb_restored_progress := m \<rparr>) = capped n l"
  "capped n (l\<lparr> lb_progress_resets := m, lb_last_progress_reset_reason := why \<rparr>) = capped n l"
  "capped n (quarantine e l) = capped n l"
  "capped n (note_proposed l) = capped n l" "capped n (note_randomized l) = capped n l"
  "capped n (push_completed c l) = capped n l" "capped n (update_open ix h l) = capped n l"
  "capped n (snd (find_open i l)) = capped n l"
  by (simp_all add: capped_def on_metrics_def quarantine_def note_proposed_def note_randomized_def
      push_completed_def update_open_def find_open_def Let_def)

lemma capped_on_rollout:
  "capped n l \<Longrightarrow> (\<And>r. ro_causal_pairs_consumed (f r) \<le> ro_causal_pairs_consumed r) \<Longrightarrow> capped n (on_rollout f l)"
  using order_trans by (fastforce simp: capped_def on_rollout_def)

lemma capped_on_rollout_same [simp]:
  "(\<And>r. ro_causal_pairs_consumed (f r) = ro_causal_pairs_consumed r) \<Longrightarrow> capped n (on_rollout f l) = capped n l"
  by (simp add: capped_def on_rollout_def)

lemma capped_reset: "capped n (reset_to_shadow now why l)"
  by (simp add: capped_def reset_to_shadow_def note_progress_reset_def rollout_reset_to_shadow_def)

lemma capped_advance_rollout: "capped n l \<Longrightarrow> capped n (advance_rollout now b l)"
  by (simp add: capped_def advance_rollout_def Let_def)

lemma capped_terminalise [simp]: "capped n (snd (terminalise_shadow_pair i l)) = capped n l"
  by (auto simp: terminalise_shadow_pair_def Let_def split: option.split)

lemma capped_reap [simp]: "capped n (reap_expired_shadow_pairs cycle l) = capped n l"
proof -
  have "capped n (fold (\<lambda>i l. let (existed, l) = terminalise_shadow_pair i l in
      if existed then on_metrics (\<lambda>m. m\<lparr> lm_shadow_expired := sat_add (lm_shadow_expired m) 1 \<rparr>) l
      else l) ids l) = capped n l" for ids
    by (induction ids arbitrary: l) (simp_all add: case_prod_unfold Let_def)
  then show ?thesis by (simp add: reap_expired_shadow_pairs_def)
qed

lemma capped_shadow_endpoint: "capped n l \<Longrightarrow> capped n (snd (record_shadow_endpoint ob l))"
  by (auto simp: record_shadow_endpoint_def Let_def intro!: capped_on_rollout split: option.split)

lemma capped_record_endpoint [simp]: "capped n (snd (record_endpoint i e l)) = capped n l"
proof -
  obtain found m where f: "find_open i l = (found, m)" by fastforce
  have "capped n m = capped n l" using capped_simps(18) [of n i l] f by simp
  then show ?thesis
    by (auto simp: record_endpoint_def f Let_def split: option.split pair_progress.split)
qed

lemma capped_invalidate_pair [simp]: "capped n (snd (invalidate_pair i reason l)) = capped n l"
proof -
  obtain found m where f: "find_open i l = (found, m)" by fastforce
  have "capped n m = capped n l" using capped_simps(18) [of n i l] f by simp
  then show ?thesis by (auto simp: invalidate_pair_def f Let_def split: option.split)
qed

lemma capped_invalidate_ids [simp]: "capped n (snd (invalidate_ids reason ids l)) = capped n l"
  by (induction ids arbitrary: l) (simp_all add: Let_def case_prod_unfold)

lemma capped_invalidate_all [simp]: "capped n (snd (invalidate_all reason l)) = capped n l"
  by (simp add: invalidate_all_def)

lemma capped_timed_endpoint: "capped n l \<Longrightarrow> capped n (snd (record_timed_endpoint ob l))"
proof -
  assume "capped n l"
  moreover obtain found m where f: "find_open (te_pair_id ob) l = (found, m)" by fastforce
  ultimately have m: "capped n m" using capped_simps(18) [of n "te_pair_id ob" l] by simp
  then have "capped n (snd (find_open (te_pair_id ob) (snd (record_endpoint (te_pair_id ob) e
      (update_open ix (\<lambda>r. r\<lparr> pr_issued := None \<rparr>) m)))))" for ix e
    by simp
  then show ?thesis
    using m capped_shadow_endpoint [OF m, of ob]
    by (simp add: record_timed_endpoint_def f Let_def case_prod_unfold split: option.split sum.split)
qed

lemma capped_washout: "capped n (snd (advance_washout i elapsed l)) = capped n l"
proof -
  obtain found m where f: "find_open i l = (found, m)" by fastforce
  have "capped n m = capped n l" using capped_simps(18) [of n i l] f by simp
  then show ?thesis by (auto simp: advance_washout_def f Let_def split: option.split)
qed

lemma capped_close: "capped n l \<Longrightarrow> capped n (snd (close_pair i l))"
proof -
  assume l: "capped n l"
  obtain found m where f: "find_open i l = (found, m)" by fastforce
  have "capped n m" using capped_simps(18) [of n i l] f l by simp
  then show ?thesis
    using l by (auto simp: close_pair_def f Let_def case_prod_unfold intro!: capped_advance_rollout
        capped_on_rollout split: option.split)
qed

lemma capped_propose: "capped n (snd (propose c g l)) = capped n l"
  by (auto simp: propose_def Let_def split: sum.split option.split)

lemma capped_evaluate: "capped n (snd (evaluate_shadow c g l)) = capped n l"
  by (auto simp: evaluate_shadow_def push_shadow_def Let_def split: sum.split option.split)

lemma capped_consider: "capped n l \<Longrightarrow> capped n (snd (consider_candidate c g now l))"
proof -
  assume "capped n l"
  then have clock: "capped n (candidate_clock now l)"
    by (auto simp: candidate_clock_def Let_def intro!: capped_on_rollout capped_reset)
  have "capped n (snd (route_candidate c g m))" if "capped n m" for m
    using that capped_propose [of n c g m] capped_evaluate [of n c g m]
    by (auto simp: route_candidate_def Let_def intro!: capped_on_rollout
        split: lab_phase.split prod.splits sum.split)
  from this [OF clock] show ?thesis
    by (auto simp: consider_candidate_def intro: capped_advance_rollout split: prod.split sum.split)
qed

lemma capped_cycle: "capped n l \<Longrightarrow> capped n (snd (advance_cycle cycle now g l))"
  by (simp add: advance_cycle_def Let_def case_prod_unfold capped_on_rollout capped_reset capped_advance_rollout)

lemma capped_restart: "capped n l \<Longrightarrow> capped n (fst (lab_restart json_len l))"
proof -
  assume "capped n l"
  then have "capped n (restored_base (lab_persist l) (lb_origin l))"
    by (simp add: capped_def restored_base_def lab_persist_def)
  then show ?thesis
    by (auto simp: lab_restart_def lab_restore_def Let_def drop_stale_shadow_def interrupt_open_def push_all_fields
        reconcile_authoritative_metrics_def case_prod_unfold restored_rollout_def rollout_reset_to_shadow_def
        intro!: capped_on_rollout) (simp_all add: capped_def lab_cold_start_def rollout_default_def)
qed

lemma capped_consume:
  "\<not> certifies (OpConsume p issued honoured) l \<Longrightarrow>
     capped n (snd (consume_exploration_pair p issued honoured l)) = capped n l"
  by (auto simp: certifies_def consume_exploration_pair_def Let_def capped_def on_metrics_def on_rollout_def)

lemma evidence_step:
  "unat (ro_causal_pairs_consumed (lb_rollout (lab_step json_len op l)))
     \<le> unat (ro_causal_pairs_consumed (lb_rollout l)) + (if certifies op l then 1 else 0)"
proof (cases "certifies op l")
  case True
  then show ?thesis
    by (auto simp: certifies_def consume_exploration_pair_def Let_def on_metrics_def on_rollout_def unat_sat_add)
next
  case False
  let ?n = "ro_causal_pairs_consumed (lb_rollout l)"
  have "capped ?n l" by (simp add: capped_def)
  then have "capped ?n (lab_step json_len op l)" using False
    by (cases op) (simp_all add: capped_consume capped_consider capped_cycle capped_timed_endpoint capped_close
        capped_restart capped_washout issue_ready_arms_def issue_shadow_arms_def drain_pair_gold_def
        Let_def case_prod_unfold)
  then show ?thesis using False by (simp add: capped_def word_le_nat_alt)
qed

text \<open>The evidence after a run is at most that after the first \<open>n\<close> calls and one for each certificate since.\<close>

lemma evidence_run:
  "unat (ro_causal_pairs_consumed (lb_rollout (lab_run json_len ops og)))
     \<le> unat (ro_causal_pairs_consumed (lb_rollout (lab_run json_len (take n ops) og)))
       + card {i. n \<le> i \<and> i < length ops \<and> certifies (ops ! i) (lab_run json_len (take i ops) og)}"
proof (induction ops rule: rev_induct)
  case (snoc op ops)
  let ?C = "\<lambda>xs. {i. n \<le> i \<and> i < length xs \<and> certifies (xs ! i) (lab_run json_len (take i xs) og)}"
  show ?case
  proof (cases "n \<le> length ops")
    case True
    have "?C (ops @ [op]) = ?C ops \<union> (if certifies op (lab_run json_len ops og) then {length ops} else {})"
      using True by (auto simp: nth_append less_Suc_eq)
    then have "card (?C (ops @ [op])) = card (?C ops) + (if certifies op (lab_run json_len ops og) then 1 else 0)"
      by (simp add: card_insert_if)
    then show ?thesis
      using snoc.IH True evidence_step [of json_len op "lab_run json_len ops og"] by (simp add: lab_run_def)
  qed simp
qed simp

text \<open>
  C7: An arm that acts is only ever issued on evidence, whatever the calls before: either no
  directive comes out, or the gates are open, the rollout has left Shadow and counts at least eight
  certified cache pairs. Each of them is a call of the run: since any earlier state the count has
  grown by at most one for every call that consumed a pair of the cache family, with all issued
  control arms honoured, for an experiment that was not remembered, and from a state in which it
  was zero, as after a reset, these calls alone make up the eight.
\<close>

theorem arms_need_evidence:
  "let l = lab_run json_len ops og in
     fst (issue_ready_arms cycle g l) = []
     \<or> allows_pair g \<and> phase l \<noteq> PhaseShadow
       \<and> 8 \<le> unat (ro_causal_pairs_consumed (lb_rollout l))
       \<and> (\<forall>n. unat (ro_causal_pairs_consumed (lb_rollout l))
            \<le> unat (ro_causal_pairs_consumed (lb_rollout (lab_run json_len (take n ops) og)))
              + card {i. n \<le> i \<and> i < length ops \<and>
                  (\<exists>p issued honoured. ops ! i = OpConsume p issued honoured
                     \<and> cp_family p = AF_MarkovPrewarm \<and> issued \<le> honoured
                     \<and> cp_experiment_id p \<notin> set (lb_consumed_experiments (lab_run json_len (take i ops) og)))})"
  using lab_run_inv [of json_len ops og] evidence_run [of json_len ops og]
  by (auto simp: Let_def issue_ready_arms_def lab_inv_def evidence_inv_def certifies_def
      SHADOW_MIN_MEASUREMENTS_def word_le_nat_alt)

subsection \<open>Certified pairs are consumed once\<close>

abbreviation consume_step :: "completed_pair \<times> u64 \<times> u64 \<Rightarrow> lab \<Rightarrow> lab" where
  "consume_step x l \<equiv> snd (consume_exploration_pair (fst x) (fst (snd x)) (snd (snd x)) l)"

definition recent :: "nat \<Rightarrow> experiment_id \<Rightarrow> lab \<Rightarrow> bool" where
  "recent n x l \<longleftrightarrow> n \<le> length (lb_consumed_experiments l) \<and>
     x \<in> set (drop (length (lb_consumed_experiments l) - n) (lb_consumed_experiments l))"

lemma recent_remembered: "recent n x l \<Longrightarrow> x \<in> set (lb_consumed_experiments l)"
  unfolding recent_def by (meson in_set_dropD)

lemma recent_step:
  assumes "recent n x l" and "n < MAX_CONSUMED_EXPERIMENTS"
  shows "recent n x (consume_step y l) \<or> recent (Suc n) x (consume_step y l)"
proof (cases "lb_consumed_experiments (consume_step y l) = lb_consumed_experiments l")
  case True
  then show ?thesis using assms by (simp add: recent_def)
next
  case False
  then have "lb_consumed_experiments (consume_step y l) =
      push_bounded MAX_CONSUMED_EXPERIMENTS (cp_experiment_id (fst y)) (lb_consumed_experiments l)"
    by (auto simp: consume_exploration_pair_def Let_def on_rollout_def split: if_splits)
  moreover have "Suc n \<le> length (push_bounded MAX_CONSUMED_EXPERIMENTS z (lb_consumed_experiments l))" for z
    using assms by (auto simp: recent_def push_bounded_def)
  ultimately show ?thesis
    using assms push_bounded_remembers [of x "lb_consumed_experiments l" n] by (simp add: recent_def)
qed

lemma recent_run:
  "recent n x l \<Longrightarrow> n + length ps \<le> MAX_CONSUMED_EXPERIMENTS \<Longrightarrow> \<exists>m. recent m x (fold consume_step ps l)"
proof (induction ps arbitrary: l n)
  case (Cons y ps)
  have "recent n x (consume_step y l) \<or> recent (Suc n) x (consume_step y l)"
    using Cons.prems by (intro recent_step) auto
  then show ?case using Cons.IH [of n "consume_step y l"] Cons.IH [of "Suc n" "consume_step y l"] Cons.prems
    by auto
qed auto

lemma accepted_recent:
  assumes "fst (consume_exploration_pair p issued honoured l) = PcAccepted e"
  shows "recent 1 (cp_experiment_id p) (snd (consume_exploration_pair p issued honoured l))"
  using assms by (auto simp: consume_exploration_pair_def Let_def recent_def push_bounded_def on_rollout_def
    split: if_splits)

lemma remembered_duplicate:
  assumes "cp_experiment_id p \<in> set (lb_consumed_experiments l)"
  shows "consume_exploration_pair p issued honoured l = (PcDuplicate,
    on_metrics (\<lambda>m. m\<lparr> lm_pairs_seen := sat_add (lm_pairs_seen m) 1,
      lm_pairs_duplicate := sat_add (lm_pairs_duplicate m) 1 \<rparr>) l)"
  using assms by (simp add: consume_exploration_pair_def on_metrics_def)

text \<open>
  C10: A certified pair is evidence once. After it was accepted, and after fewer than 512 other
  pairs were handed over in between, handing it over again, under any counts, is a duplicate
  that changes nothing but the two counters of pairs seen and duplicates.
\<close>

theorem consume_once:
  assumes "fst (consume_exploration_pair p issued honoured l) = PcAccepted e"
    and "length ps < MAX_CONSUMED_EXPERIMENTS" and "cp_experiment_id q = cp_experiment_id p"
  shows "let m = fold consume_step ps (snd (consume_exploration_pair p issued honoured l)) in
    consume_exploration_pair q issued' honoured' m = (PcDuplicate,
      m\<lparr> lb_metrics := (lb_metrics m)\<lparr> lm_pairs_seen := sat_add (lm_pairs_seen (lb_metrics m)) 1,
           lm_pairs_duplicate := sat_add (lm_pairs_duplicate (lb_metrics m)) 1 \<rparr> \<rparr>)"
proof -
  define m where "m = fold consume_step ps (snd (consume_exploration_pair p issued honoured l))"
  have "\<exists>k. recent k (cp_experiment_id p) m"
    unfolding m_def using assms(2) by (intro recent_run [OF accepted_recent [OF assms(1)]]) simp
  then have "cp_experiment_id q \<in> set (lb_consumed_experiments m)"
    using assms(3) recent_remembered by auto
  then show ?thesis
    using remembered_duplicate [of q m issued' honoured'] by (simp add: on_metrics_def flip: m_def)
qed

subsection \<open>Restarts\<close>

lemma persist_fields [simp]:
  "ps_origin (lab_persist l) = lb_origin l" "ps_open (lab_persist l) = lb_open l"
  "ps_completed (lab_persist l) = lb_completed l" "ps_rollout (lab_persist l) = lb_rollout l"
  "ps_consumed_experiments (lab_persist l) = lb_consumed_experiments l"
  "ps_next_pair_sequence (lab_persist l) = lb_next_pair_sequence l"
  by (simp_all add: lab_persist_def)

lemma lab_restart_cases:
  obtains "fst (lab_restart json_len l) = lab_cold_start (lb_origin l)"
      "snd (lab_restart json_len l) \<in> {ResetOrigin, ResetHostile}"
  | m where "m = drop_stale_shadow (reconcile_authoritative_metrics
        (interrupt_open (lb_open l) (restored_base (lab_persist l) (lb_origin l))))"
      "fst (lab_restart json_len l) = on_rollout restored_rollout
        (m\<lparr> lb_restored_progress := ro_causal_pairs_consumed (lb_rollout m) \<rparr>)"
      "snd (lab_restart json_len l) \<in> {Restored, RestoredInterrupted}"
proof (cases "origin_is_known (lb_origin l) \<and> valid_lab_persisted json_len (lab_persist l)")
  case True
  then show ?thesis by (intro that(2) [OF refl]) (simp_all add: lab_restart_def lab_restore_def Let_def)
next
  case False
  then show ?thesis by (intro that(1)) (auto simp: lab_restart_def lab_restore_def)
qed

lemma restored_fields [simp]:
  "lb_open (drop_stale_shadow l) = lb_open l" "lb_completed (drop_stale_shadow l) = lb_completed l"
  "lb_pending_gold (drop_stale_shadow l) = lb_pending_gold l" "lb_rollout (drop_stale_shadow l) = lb_rollout l"
  "lb_consumed_experiments (drop_stale_shadow l) = lb_consumed_experiments l"
  "lm_pair_gold (lb_metrics (drop_stale_shadow l)) = lm_pair_gold (lb_metrics l)"
  "lb_open (interrupt_open rs l) = lb_open l" "lb_gold_dedup (interrupt_open rs l) = lb_gold_dedup l"
  "lb_pending_gold (interrupt_open rs l) = lb_pending_gold l" "lb_rollout (interrupt_open rs l) = lb_rollout l"
  "lb_consumed_experiments (interrupt_open rs l) = lb_consumed_experiments l"
  "lb_open (reconcile_authoritative_metrics l) = lb_open l"
  "lb_completed (reconcile_authoritative_metrics l) = lb_completed l"
  "lb_pending_gold (reconcile_authoritative_metrics l) = lb_pending_gold l"
  "lb_consumed_experiments (reconcile_authoritative_metrics l) = lb_consumed_experiments l"
  by (simp_all add: drop_stale_shadow_def interrupt_open_def reconcile_authoritative_metrics_def
    on_metrics_def case_prod_unfold Let_def push_all_fields)

lemma no_gold_counts: "authoritative_counts {} seen ss acc = acc"
  by (induction ss arbitrary: seen acc) auto

lemma interrupted_bronze:
  "list_all (\<lambda>s. cs_evidence s \<noteq> PairGold) ss \<Longrightarrow>
   list_all (\<lambda>s. cs_evidence s \<noteq> PairGold)
     (fold (\<lambda>r. push_bounded MAX_COMPLETED_PAIRS (interrupted_summary (f r))) rs ss)"
proof (induction rs arbitrary: ss)
  case (Cons r rs)
  have "cs_evidence s \<noteq> PairGold" if "s \<in> set (push_bounded MAX_COMPLETED_PAIRS (interrupted_summary (f r)) ss)" for s
    using subsetD [OF push_bounded_set that] Cons.prems by (auto simp: interrupted_summary_def list_all_iff)
  then have "list_all (\<lambda>s. cs_evidence s \<noteq> PairGold)
      (push_bounded MAX_COMPLETED_PAIRS (interrupted_summary (f r)) ss)"
    unfolding list_all_iff by blast
  then show ?case by (simp add: Cons.IH)
qed simp

text \<open>
  C18: A restart revokes authority. Whatever the laboratory was, and whether its file is
  accepted or refused, it comes back in Shadow with no open pair, no pending gold, no summary
  of Pair Gold and a gold count of zero, and no arm can be issued from it.
\<close>

theorem restart_revokes_authority:
  "let m = fst (lab_restart json_len l) in
     phase m = PhaseShadow \<and> lb_open m = [] \<and> lb_pending_gold m = []
     \<and> list_all (\<lambda>s. cs_evidence s \<noteq> PairGold) (lb_completed m)
     \<and> lm_pair_gold (lb_metrics m) = 0 \<and> fst (issue_ready_arms cycle g m) = []"
proof (cases rule: lab_restart_cases [of json_len l])
  case 1
  then show ?thesis
    by (simp add: lab_cold_start_def rollout_default_def lab_metrics_default_def issue_ready_arms_def)
next
  case (2 m)
  have "list_all (\<lambda>s. cs_evidence s \<noteq> PairGold) (map demote_gold ss)" for ss
    by (induction ss) (simp_all add: demote_gold_def)
  then have "list_all (\<lambda>s. cs_evidence s \<noteq> PairGold) (lb_completed m)"
    unfolding 2(1) by (simp add: interrupt_open_def push_all_fields on_metrics_def restored_base_def interrupted_bronze)
  moreover have "lm_pair_gold (lb_metrics m) = 0"
    unfolding 2(1) by (simp add: reconcile_authoritative_metrics_def restored_base_def lab_cold_start_def no_gold_counts)
  moreover have "lb_open m = []" "lb_pending_gold m = []"
    unfolding 2(1) by (simp_all add: restored_base_def lab_cold_start_def)
  ultimately show ?thesis
    using 2(2) by (simp add: Let_def on_rollout_def restored_rollout_def rollout_reset_to_shadow_def
      issue_ready_arms_def)
qed

text \<open>
  What a restart keeps: if the file is accepted, the memory of consumed pairs and the
  count of consumed evidence survive, so a pair handed over before the restart is a duplicate
  after it.
\<close>

theorem restart_keeps_memory:
  assumes "snd (lab_restart json_len l) \<in> {Restored, RestoredInterrupted}"
  shows "let m = fst (lab_restart json_len l) in
    lb_consumed_experiments m = lb_consumed_experiments l
    \<and> ro_causal_pairs_consumed (lb_rollout m) = ro_causal_pairs_consumed (lb_rollout l)
    \<and> lb_restored_progress m = ro_causal_pairs_consumed (lb_rollout l)
    \<and> (cp_experiment_id p \<in> set (lb_consumed_experiments l) \<longrightarrow>
       fst (consume_exploration_pair p issued honoured m) = PcDuplicate)"
proof (cases rule: lab_restart_cases [of json_len l])
  case 1
  then show ?thesis using assms by auto
next
  case (2 m)
  have "lb_consumed_experiments m = lb_consumed_experiments l" "lb_rollout m = lb_rollout l"
    unfolding 2(1) by (simp_all add: restored_base_def)
  then show ?thesis
    unfolding Let_def 2(2)
    by (simp add: remembered_duplicate on_rollout_def restored_rollout_def rollout_reset_to_shadow_def)
qed

subsection \<open>Closing a pair\<close>

lemma advance_rollout_fields [simp]:
  "lb_completed (advance_rollout now b l) = lb_completed l"
  "lb_open (advance_rollout now b l) = lb_open l"
  "lb_gold_dedup (advance_rollout now b l) = lb_gold_dedup l"
  by (simp_all add: advance_rollout_def Let_def)

lemma completed_pushed [simp]: "lb_completed (push_completed s l) = push_bounded MAX_COMPLETED_PAIRS s (lb_completed l)"
  by (simp add: push_completed_def)

lemma push_completed_fields [simp]: "lb_open (push_completed s l) = lb_open l"
  by (simp add: push_completed_def)

lemma on_rollout_fields [simp]:
  "lb_open (on_rollout f l) = lb_open l" "lb_completed (on_rollout f l) = lb_completed l"
  "lb_shadow_open (on_rollout f l) = lb_shadow_open l" "lb_rollout (on_rollout f l) = f (lb_rollout l)"
  by (simp_all add: on_rollout_def)

lemma close_pair_Inr:
  assumes "fst (close_pair i l) = Inr cl"
  obtains ix a b s where "find_index (\<lambda>r. pa_id (pr_assignment r) = i) (lb_open l) = Some ix"
    and "pr_progress (lb_open l ! ix) = ReadyToClose"
    and "pr_first_endpoint (lb_open l ! ix) = Some a" and "pr_second_endpoint (lb_open l ! ix) = Some b"
    and "cl = fst (closure_of i (pr_candidate (lb_open l ! ix)) a b)"
    and "lb_open (snd (close_pair i l)) = swap_remove ix (lb_open l)"
    and "s \<in> set (lb_completed (snd (close_pair i l)))" and "cs_id s = i"
proof -
  from assms have fresh: "\<not> (i \<in> set (lb_gold_dedup l) \<or> list_ex (\<lambda>s. cs_id s = i) (lb_completed l))"
    by (auto simp: close_pair_def split: if_splits)
  then obtain ix where ix: "fst (find_open i l) = Some ix" "pr_progress (lb_open l ! ix) = ReadyToClose"
    using assms by (auto simp: close_pair_def find_open_def Let_def split: option.splits if_splits)
  moreover obtain a b where e: "pr_first_endpoint (lb_open l ! ix) = Some a" "pr_second_endpoint (lb_open l ! ix) = Some b"
    using assms fresh ix
    by (auto simp: close_pair_def find_open_def Let_def split: option.splits if_splits)
  ultimately show ?thesis
    using assms fresh
    by (intro that [of ix a b "\<lparr> cs_id = i, cs_evidence = cl_evidence cl, cs_effect_micros = cl_effect_micros cl,
        cs_effective = cl_effective cl, cs_harmful = cl_harmful cl, cs_interrupted = False \<rparr>"])
      (auto simp: close_pair_def find_open_def Let_def case_prod_unfold split: option.splits if_splits)
qed

lemma closure_sound:
  assumes "cl = fst (closure_of i cand a b)"
  shows "\<exists>c t. {c, t} = {a, b} \<and> (pe_arm a \<noteq> pe_arm b \<longrightarrow> pe_arm c = ArmControl \<and> pe_arm t = ArmTreatment)
      \<and> cl_effect_micros cl = i64_sat_sub (pe_utility_micros t) (pe_utility_micros c)
      \<and> (cl_evidence cl = PairGold \<longleftrightarrow> endpoints_are_authoritative cand c t)"
    and "cl_effective cl \<longleftrightarrow> cl_evidence cl = PairGold \<and> 0 < cl_effect_micros cl
      \<and> pc_minimum_effect_micros cand \<le> cl_effect_micros cl"
    and "cl_harmful cl \<longleftrightarrow> cl_evidence cl = PairGold \<and> cl_effect_micros cl < 0
      \<and> cl_effect_micros cl \<le> i64_sat_neg (max (pc_minimum_effect_micros cand) 0)"
proof -
  have other: "pe_arm x = ArmTreatment" if "pe_arm x \<noteq> ArmControl" for x using that by (cases "pe_arm x") simp_all
  note defs = assms closure_of_def Let_def
  show "\<exists>c t. {c, t} = {a, b} \<and> (pe_arm a \<noteq> pe_arm b \<longrightarrow> pe_arm c = ArmControl \<and> pe_arm t = ArmTreatment)
      \<and> cl_effect_micros cl = i64_sat_sub (pe_utility_micros t) (pe_utility_micros c)
      \<and> (cl_evidence cl = PairGold \<longleftrightarrow> endpoints_are_authoritative cand c t)"
  proof (cases "pe_arm a = ArmControl")
    case True
    then show ?thesis using other [of b] by - (rule exI [of _ a], rule exI [of _ b], simp add: defs)
  next
    case False
    then show ?thesis using other [of a] other [of b]
      by - (rule exI [of _ b], rule exI [of _ a], cases "pe_arm b = ArmControl", auto simp: defs)
  qed
qed (cases "pe_arm a = ArmControl"; auto simp: assms closure_of_def Let_def)+

text \<open>
  C17: What a closure means. If \<open>close_pair\<close> answers for a pair, both its endpoints were
  recorded and, one being of each arm, the effect is the utility of the treatment less that of the
  control; the evidence is Pair Gold exactly when the two endpoints are authoritative; the verdict
  is effective exactly when, with Pair Gold, the effect is positive and reaches the minimum of the
  candidate, and harmful exactly when it is negative and at most the negated minimum; the pair is
  no longer open, and closing it again is refused.
\<close>

theorem close_pair_sound:
  assumes "lab_inv l" and "fst (close_pair i l) = Inr cl"
  shows "(\<exists>r a b c t. r \<in> set (lb_open l) \<and> pa_id (pr_assignment r) = i \<and> pr_progress r = ReadyToClose
        \<and> pr_first_endpoint r = Some a \<and> pr_second_endpoint r = Some b \<and> {c, t} = {a, b}
        \<and> (pe_arm a \<noteq> pe_arm b \<longrightarrow> pe_arm c = ArmControl \<and> pe_arm t = ArmTreatment)
        \<and> cl_effect_micros cl = i64_sat_sub (pe_utility_micros t) (pe_utility_micros c)
        \<and> (cl_evidence cl = PairGold \<longleftrightarrow> endpoints_are_authoritative (pr_candidate r) c t)
        \<and> (cl_effective cl \<longleftrightarrow> cl_evidence cl = PairGold \<and> 0 < cl_effect_micros cl
              \<and> pc_minimum_effect_micros (pr_candidate r) \<le> cl_effect_micros cl)
        \<and> (cl_harmful cl \<longleftrightarrow> cl_evidence cl = PairGold \<and> cl_effect_micros cl < 0
              \<and> cl_effect_micros cl \<le> i64_sat_neg (max (pc_minimum_effect_micros (pr_candidate r)) 0)))
    \<and> i \<notin> set (open_ids (snd (close_pair i l)))
    \<and> fst (close_pair i (snd (close_pair i l))) = Inl LeDuplicatePair"
proof -
  obtain ix a b s where ix: "find_index (\<lambda>r. pa_id (pr_assignment r) = i) (lb_open l) = Some ix"
    and r: "pr_progress (lb_open l ! ix) = ReadyToClose"
      "pr_first_endpoint (lb_open l ! ix) = Some a" "pr_second_endpoint (lb_open l ! ix) = Some b"
    and cl: "cl = fst (closure_of i (pr_candidate (lb_open l ! ix)) a b)"
    and op: "lb_open (snd (close_pair i l)) = swap_remove ix (lb_open l)"
    and s: "s \<in> set (lb_completed (snd (close_pair i l)))" "cs_id s = i"
    by (rule close_pair_Inr [OF assms(2)])
  note ix = find_index_Some [OF ix]
  have "lb_open l ! ix \<in> set (lb_open l)" using ix by simp
  moreover have "distinct (open_ids l)" "ix < length (open_ids l)" "open_ids l ! ix = i"
    using assms(1) ix by (simp_all add: lab_inv_def ids_inv_def open_ids_def)
  then have "i \<notin> set (open_ids (snd (close_pair i l)))"
    using distinct_swap_remove(2) [of "open_ids l" ix] op ix by (simp add: open_ids_def map_swap_remove)
  moreover have "fst (close_pair i (snd (close_pair i l))) = Inl LeDuplicatePair"
    using s by (auto simp: close_pair_def [of i "snd (close_pair i l)"] list_ex_iff)
  ultimately show ?thesis
    using ix r closure_sound(2,3) [OF cl] closure_sound(1) [OF cl] by blast
qed

subsection \<open>Shadow pairs and their deadlines\<close>

lemma find_open_shadow [simp]: "lb_shadow_terminal (snd (find_open i l)) = lb_shadow_terminal l"
  by (simp add: find_open_def Let_def)

lemma invalidate_shadow [simp]: "lb_shadow_open (snd (invalidate_pair i reason l)) = lb_shadow_open l"
proof -
  obtain found m where f: "find_open i l = (found, m)" by fastforce
  have "lb_shadow_open m = lb_shadow_open l" using find_open_fields(5) [of i l] f by simp
  then show ?thesis
    by (simp add: invalidate_pair_def f Let_def push_completed_def split: option.split)
qed

lemma invalidate_ids_shadow [simp]: "lb_shadow_open (snd (invalidate_ids reason is l)) = lb_shadow_open l"
  by (induction "is" arbitrary: l) (simp_all add: Let_def case_prod_unfold)

lemma reset_shadow_open [simp]: "lb_shadow_open (reset_to_shadow now why l) = lb_shadow_open l"
  by (simp add: reset_to_shadow_def rollout_reset_to_shadow_def note_progress_reset_def)

lemma advance_rollout_shadow [simp]: "lb_shadow_open (advance_rollout now b l) = lb_shadow_open l"
  by (simp add: advance_rollout_def Let_def)

text \<open>
  Shadow pairs are only reaped while experiments may run: when the gates do not allow a
  pair, advancing the laboratory to any later cycle frees no shadow slot, whatever its deadline.
\<close>

theorem closed_gates_reap_nothing:
  assumes "\<not> allows_pair g"
  shows "lb_shadow_open (snd (advance_cycle cycle now g l)) = lb_shadow_open l"
  using assms by (simp add: advance_cycle_def Let_def case_prod_unfold invalidate_all_def)

lemma terminalise_shadow_subset:
  "set (lb_shadow_open (snd (terminalise_shadow_pair i l))) \<subseteq> set (lb_shadow_open l)"
proof (cases "find_index (\<lambda>r. pa_id (sp_assignment r) = i) (lb_shadow_open l)")
  case None
  then show ?thesis by (simp add: terminalise_shadow_pair_def)
next
  case (Some ix)
  then have "lb_shadow_open (snd (terminalise_shadow_pair i l)) = swap_remove ix (lb_shadow_open l)"
    by (simp add: terminalise_shadow_pair_def)
  then show ?thesis using set_swap_remove find_index_Some [OF Some] by metis
qed

lemma terminalise_shadow_gone:
  assumes "distinct (shadow_ids l)"
  shows "i \<notin> set (shadow_ids (snd (terminalise_shadow_pair i l)))"
    and "distinct (shadow_ids (snd (terminalise_shadow_pair i l)))"
proof -
  let ?m = "snd (terminalise_shadow_pair i l)"
  have "i \<notin> set (shadow_ids ?m) \<and> distinct (shadow_ids ?m)"
  proof (cases "find_index (\<lambda>r. pa_id (sp_assignment r) = i) (lb_shadow_open l)")
    case None
    then have "shadow_ids ?m = shadow_ids l" by (simp add: terminalise_shadow_pair_def shadow_ids_def)
    then show ?thesis using assms None by (auto simp: shadow_ids_def find_index_None)
  next
    case (Some ix)
    note ix = find_index_Some [OF Some]
    then have "shadow_ids l ! ix = i" "ix < length (shadow_ids l)" by (simp_all add: shadow_ids_def)
    moreover have "shadow_ids ?m = swap_remove ix (shadow_ids l)"
      using Some ix by (simp add: terminalise_shadow_pair_def shadow_ids_def map_swap_remove)
    ultimately show ?thesis using distinct_swap_remove [OF assms, of ix] by simp
  qed
  then show "i \<notin> set (shadow_ids ?m)" "distinct (shadow_ids ?m)" by simp_all
qed

lemma terminalise_ids_subset:
  "set (shadow_ids (snd (terminalise_shadow_pair i l))) \<subseteq> set (shadow_ids l)"
  using terminalise_shadow_subset [of i l] by (auto simp: shadow_ids_def)

lemma reap_removes:
  fixes l :: lab
  defines "body \<equiv> (\<lambda>i l. let (existed, l) = terminalise_shadow_pair i l in
      if existed then on_metrics (\<lambda>m. m\<lparr> lm_shadow_expired := sat_add (lm_shadow_expired m) 1 \<rparr>) l else l)"
  assumes "distinct (shadow_ids l)"
  shows "set (shadow_ids (fold body is l)) \<inter> set is = {}
    \<and> set (lb_shadow_open (fold body is l)) \<subseteq> set (lb_shadow_open l)"
  using assms(2)
proof (induction "is" arbitrary: l)
  case (Cons i "is")
  have f: "lb_shadow_open (body i l) = lb_shadow_open (snd (terminalise_shadow_pair i l))"
    "shadow_ids (body i l) = shadow_ids (snd (terminalise_shadow_pair i l))" for l
    by (simp_all add: body_def case_prod_unfold Let_def)
  have "set (shadow_ids (fold body is (body i l))) \<inter> set is = {}"
    and sub: "set (lb_shadow_open (fold body is (body i l))) \<subseteq> set (lb_shadow_open (body i l))"
    using Cons.IH [of "body i l"] terminalise_shadow_gone [OF Cons.prems, of i] f by simp_all
  moreover have "i \<notin> set (shadow_ids (fold body is (body i l)))"
    using sub terminalise_shadow_gone(1) [OF Cons.prems, of i] f by (auto simp: shadow_ids_def)
  ultimately show ?case using terminalise_shadow_subset [of i l] f by auto
qed simp

lemma reap_leaves_none_expired:
  assumes "lab_inv l"
  shows "\<not> list_ex (shadow_expired cycle) (lb_shadow_open (reap_expired_shadow_pairs cycle l))"
    and "set (lb_shadow_open (reap_expired_shadow_pairs cycle l)) \<subseteq> set (lb_shadow_open l)"
proof -
  let ?is = "map (\<lambda>r. pa_id (sp_assignment r)) (filter (shadow_expired cycle) (lb_shadow_open l))"
  have d: "distinct (shadow_ids l)" using assms by (simp add: lab_inv_def ids_inv_def)
  note r = reap_removes [OF d, of ?is, folded reap_expired_shadow_pairs_def]
  show s: "set (lb_shadow_open (reap_expired_shadow_pairs cycle l)) \<subseteq> set (lb_shadow_open l)"
    using r by blast
  show "\<not> list_ex (shadow_expired cycle) (lb_shadow_open (reap_expired_shadow_pairs cycle l))"
    using r s by (fastforce simp: list_ex_iff shadow_ids_def)
qed

text \<open>
  C33: With the gates open and the clock not going back, advancing to a cycle closes every
  shadow pair whose arm was due before it, and opens none.
\<close>

theorem open_gates_reap_expired:
  assumes "lab_inv l" and "allows_pair g" and "ro_last_monotonic_millis (lb_rollout l) \<le> now"
  shows "\<not> list_ex (shadow_expired cycle) (lb_shadow_open (snd (advance_cycle cycle now g l)))
    \<and> set (lb_shadow_open (snd (advance_cycle cycle now g l))) \<subseteq> set (lb_shadow_open l)"
proof -
  define m where "m = (on_rollout (\<lambda>r. r\<lparr> ro_last_monotonic_millis := now \<rparr>) l)\<lparr> lb_open :=
    map (washout_tick cycle) (lb_open l) \<rparr>"
  define k where "k = snd (invalidate_ids PiDeadlineExpired
    (map (\<lambda>r. pa_id (pr_assignment r)) (filter (arm_expired cycle) (lb_open m))) m)"
  have "pr_assignment (washout_tick cycle r) = pr_assignment r" for r
    by (simp add: washout_tick_def Let_def split: pair_progress.split option.split)
  then have "lab_inv m"
    unfolding m_def using assms(1) by (intro inv_map_open inv_on_rollout) (simp_all add: open_ids_def comp_def)
  then have "lab_inv k" unfolding k_def by (rule inv_invalidate_ids)
  moreover have "lb_shadow_open k = lb_shadow_open l" by (simp add: k_def m_def)
  moreover have "lb_shadow_open (snd (advance_cycle cycle now g l)) =
      lb_shadow_open (reap_expired_shadow_pairs cycle k)"
    unfolding advance_cycle_def Let_def case_prod_unfold k_def m_def
    using assms(2) leD [OF assms(3)] by (simp add: invalidate_all_def)
  ultimately show ?thesis using reap_leaves_none_expired [of k cycle] by simp
qed

text \<open>
  The deadline of a shadow arm, where nothing saturates, is twice the cycle at which its
  horizon ends, so the time it may wait after the horizon grows with the age of the daemon;
  the deadline is never before the end of the horizon.
\<close>

theorem shadow_deadline:
  fixes cycle :: u64
  assumes "2 * (unat cycle + unat (pc_horizon_cycles c)) < 2 ^ 64" and "0 < cycle"
  shows "let a = shadow_arm cycle c; ready = unat (ia_complete_not_before_cycle a) in
    ready = unat cycle + unat (pc_horizon_cycles c)
    \<and> unat (ia_expires_after_cycle a) = ready + unat cycle + unat (pc_horizon_cycles c)"
proof -
  have h: "unat (ucast (pc_horizon_cycles c) :: u64) = unat (pc_horizon_cycles c)"
    by (rule unat_ucast_up) simp
  have r: "unat (sat_add cycle (ucast (pc_horizon_cycles c))) = unat cycle + unat (pc_horizon_cycles c)"
    using assms(1) by (simp add: unat_sat_add h)
  have m: "unat (sat_mul (sat_add cycle (ucast (pc_horizon_cycles c))) 2) =
      2 * (unat cycle + unat (pc_horizon_cycles c))"
    using assms(1) by (simp add: unat_sat_mul r)
  have "0 < unat cycle" using assms(2) by (simp add: word_nat)
  then have "cycle + 1 \<le> sat_mul (sat_add cycle (ucast (pc_horizon_cycles c))) 2"
    using assms(1) unfolding word_le_nat_alt m by (simp add: unat_word_ariths)
  then show ?thesis
    by (simp add: shadow_arm_def Let_def r m max_absorb1)
qed

subsection \<open>Concrete runs\<close>

definition lab_demo_origin :: origin where
  "lab_demo_origin = \<lparr> installation_id = 7, hardware = \<lparr> p_core_count = 4, e_core_count = 4, ram_gib = 8 \<rparr> \<rparr>"

definition lab_demo_outcome :: "u64 \<Rightarrow> arm_terminal_state \<Rightarrow> arm_outcome" where
  "lab_demo_outcome n st = \<lparr> oc_correlation = n, oc_arm = MarkovCacheOnly, oc_issued_cycle = 10,
     oc_settled_cycle = 20, oc_terminal_state = st, oc_utility_micros = 5 \<rparr>"

definition lab_demo_certified :: "experiment_id \<Rightarrow> completed_pair" where
  "lab_demo_certified i = \<lparr> cp_experiment_id = i, cp_family = AF_MarkovPrewarm,
     cp_action_class = MarkovPredictedApp, cp_canonical_key = ''app'', cp_policy_version = 1,
     cp_boot_epoch = 3, cp_treatment = lab_demo_outcome 1 AppliedNoRevertNeeded,
     cp_control = lab_demo_outcome 2 WithheldByHoldout \<rparr>"

definition lab_demo_candidate :: "pair_candidate" where
  "lab_demo_candidate = \<lparr> pc_sequence = 1, pc_origin = lab_demo_origin, pc_family = AF_MarkovPrewarm,
     pc_action_class = MarkovPredictedApp, pc_treatment_arm = MarkovCacheOnly, pc_context = General,
     pc_action_key = ''app'', pc_stratum_hash = 9, pc_horizon_cycles = 60, pc_washout_cycles = 10,
     pc_minimum_effect_micros = 100 \<rparr>"

definition lab_demo_endpoint :: "arm_kind \<Rightarrow> i64 \<Rightarrow> pair_endpoint" where
  "lab_demo_endpoint a u = \<lparr> pe_arm = a, pe_origin = lab_demo_origin, pe_family = AF_MarkovPrewarm,
     pe_action_class = MarkovPredictedApp, pe_context = General, pe_action_key = ''app'',
     pe_stratum_hash = 9, pe_horizon_cycles = 60,
     pe_decision_id = (if a = ArmControl then 1 else 2), pe_observed_local = True, pe_synthetic = False,
     pe_execution = (if a = ArmControl then ExNoOp else ExApplied), pe_horizon = HzComplete,
     pe_rollback = RbNotRequiredNonKernel, pe_utility_micros = u \<rparr>"

definition lab_demo_ready :: lab where
  "lab_demo_ready = (lab_cold_start lab_demo_origin)\<lparr> lb_next_pair_sequence := 1,
     lb_open := [\<lparr> pr_candidate = lab_demo_candidate, pr_assignment = assignment_for lab_demo_origin 1,
       pr_first_endpoint = Some (lab_demo_endpoint ArmControl 50),
       pr_second_endpoint = Some (lab_demo_endpoint ArmTreatment 400), pr_washout_elapsed = 10,
       pr_progress = ReadyToClose, pr_issued = None, pr_washout_started_cycle = None \<rparr>] \<rparr>"

definition lab_demo_shadow :: lab where
  "lab_demo_shadow = (lab_cold_start lab_demo_origin)\<lparr> lb_next_pair_sequence := 1,
     lb_shadow_open := [\<lparr> sp_candidate = lab_demo_candidate, sp_assignment = assignment_for lab_demo_origin 1,
       sp_issued = Some (shadow_arm 100 lab_demo_candidate), sp_control_endpoint = None \<rparr>] \<rparr>"

lemma demo_labs_inv: "lab_inv lab_demo_ready" "lab_inv lab_demo_shadow"
  by (auto simp: lab_inv_defs lab_demo_ready_def lab_demo_shadow_def lab_cold_start_def lab_limits
    rollout_default_def lab_metrics_default_def control_only_def shadow_arm_def Let_def)

theorem consume_once_witness:
  "fst (consume_exploration_pair (lab_demo_certified 5) 0 0
     (consume_step (lab_demo_certified 6, 0, 0)
       (consume_step (lab_demo_certified 5, 0, 0) (lab_cold_start lab_demo_origin)))) = PcDuplicate"
proof -
  have "fst (consume_exploration_pair (lab_demo_certified 5) 0 0 (lab_cold_start lab_demo_origin)) = PcAccepted 5"
    by (simp add: consume_exploration_pair_def lab_demo_certified_def lab_cold_start_def Let_def)
  from consume_once [OF this, of "[(lab_demo_certified 6, 0, 0)]" "lab_demo_certified 5" 0 0]
  show ?thesis by (simp add: Let_def MAX_CONSUMED_EXPERIMENTS_def)
qed

theorem restart_keeps_memory_witness:
  "fst (consume_exploration_pair (lab_demo_certified 5) 0 0 (fst (lab_restart (\<lambda>_. Some 100)
     (consume_step (lab_demo_certified 5, 0, 0) (lab_cold_start lab_demo_origin))))) = PcDuplicate"
proof -
  let ?l = "consume_step (lab_demo_certified 5, 0, 0) (lab_cold_start lab_demo_origin)"
  have "snd (lab_restart (\<lambda>_. Some 100) ?l) \<in> {Restored, RestoredInterrupted}"
    by (simp add: lab_restart_def lab_restore_def lab_persist_def valid_lab_persisted_def Let_def
      consume_exploration_pair_def lab_demo_certified_def lab_cold_start_def on_rollout_def on_metrics_def
      origin_is_known_def hardware_is_known_def lab_demo_origin_def MAX_SERIALIZED_BYTES_def sat_add_def
      push_bounded_def lab_limits)
  note k = restart_keeps_memory [OF this, of "lab_demo_certified 5" 0 0, unfolded Let_def]
  have "cp_experiment_id (lab_demo_certified 5) \<in> set (lb_consumed_experiments ?l)"
    by (simp add: consume_exploration_pair_def lab_demo_certified_def
      on_rollout_def on_metrics_def lab_cold_start_def push_bounded_def Let_def)
  with k show ?thesis by blast
qed

theorem close_pair_sound_witness:
  "\<exists>cl. fst (close_pair (pair_id_of lab_demo_origin 1) lab_demo_ready) = Inr cl \<and> cl_effective cl
     \<and> cl_evidence cl = PairGold \<and> 0 < cl_effect_micros cl
     \<and> fst (close_pair (pair_id_of lab_demo_origin 1)
         (snd (close_pair (pair_id_of lab_demo_origin 1) lab_demo_ready))) = Inl LeDuplicatePair"
proof -
  let ?i = "pair_id_of lab_demo_origin 1"
  define cl where "cl = fst (closure_of ?i lab_demo_candidate (lab_demo_endpoint ArmControl 50)
    (lab_demo_endpoint ArmTreatment 400))"
  have c: "fst (close_pair ?i lab_demo_ready) = Inr cl"
    by (simp add: close_pair_def lab_demo_ready_def lab_cold_start_def find_open_def Let_def cl_def case_prod_unfold)
  have "cl_effective cl"
    by (simp add: cl_def closure_of_def Let_def lab_demo_endpoint_def lab_demo_candidate_def
      endpoints_are_authoritative_def i64_sat_sub_def i64_clamp_def)
  then show ?thesis using close_pair_sound [OF demo_labs_inv(1) c] c by blast
qed

theorem closed_gates_reap_nothing_witness:
  "lb_shadow_open (snd (advance_cycle 1000000 5 pair_gates_default lab_demo_shadow)) = lb_shadow_open lab_demo_shadow
   \<and> list_ex (shadow_expired 1000000) (lb_shadow_open lab_demo_shadow)"
proof -
  have "\<not> allows_pair pair_gates_default" by (simp add: pair_gates_default_def allows_pair_def)
  from closed_gates_reap_nothing [OF this, of 1000000 5 lab_demo_shadow] show ?thesis
    by (simp add: lab_demo_shadow_def shadow_expired_def shadow_arm_def lab_demo_candidate_def
      sat_add_def sat_mul_def Let_def)
qed

theorem open_gates_reap_expired_witness:
  "\<not> list_ex (shadow_expired 1000000) (lb_shadow_open (snd (advance_cycle 1000000 5 healthy_enabled lab_demo_shadow)))
   \<and> list_ex (shadow_expired 1000000) (lb_shadow_open lab_demo_shadow)"
proof -
  have g: "allows_pair healthy_enabled" by (simp add: healthy_enabled_def allows_pair_def)
  have c: "ro_last_monotonic_millis (lb_rollout lab_demo_shadow) \<le> 5"
    by (simp add: lab_demo_shadow_def lab_cold_start_def rollout_default_def)
  from open_gates_reap_expired [OF demo_labs_inv(2) g c, of 1000000] show ?thesis
    by (simp add: lab_demo_shadow_def shadow_expired_def shadow_arm_def lab_demo_candidate_def
      sat_add_def sat_mul_def Let_def)
qed

theorem shadow_deadline_witness:
  "unat (ia_complete_not_before_cycle (shadow_arm 100000 lab_demo_candidate)) = 100060
   \<and> unat (ia_expires_after_cycle (shadow_arm 100000 lab_demo_candidate)) = 200120"
  using shadow_deadline [of 100000 lab_demo_candidate] by (simp add: lab_demo_candidate_def Let_def)

end
