(* ===== verification/Decision_Types.thy ===== *)
theory Decision_Types
  imports Exploration_Types Hash_Map
begin

text \<open>
  The data of \<open>engine/decision_ledger.rs\<close>: proposals, envelopes, receipts and resolved
  episodes, and the bounds put on what enters them. Text is ASCII, so a number of characters is
  a number of bytes; a double is only stored and clamped.
\<close>

definition MAX_PENDING_DECISIONS :: nat where "MAX_PENDING_DECISIONS = 192"
definition MAX_RECENT_DECISIONS :: nat where "MAX_RECENT_DECISIONS = 64"
definition MAX_EPISODIC_DECISIONS :: nat where "MAX_EPISODIC_DECISIONS = 128"
definition MAX_CANDIDATE_ALTERNATIVES :: nat where "MAX_CANDIDATE_ALTERNATIVES = 8"
definition MAX_ADVISER_CONTRIBUTIONS :: nat where "MAX_ADVISER_CONTRIBUTIONS = 8"
definition MAX_CYCLE_DECISION_EVENTS :: nat where "MAX_CYCLE_DECISION_EVENTS = 640"
definition MAX_RETAINED_DECISION_IDS :: nat where
  "MAX_RETAINED_DECISION_IDS = MAX_PENDING_DECISIONS + MAX_RECENT_DECISIONS + MAX_EPISODIC_DECISIONS"
definition MAX_PREDICTIONS :: nat where "MAX_PREDICTIONS = 8"
definition MAX_ACTION_KEY_CHARS :: nat where "MAX_ACTION_KEY_CHARS = 320"
definition MAX_TARGET_CHARS :: nat where "MAX_TARGET_CHARS = 256"
definition MAX_SOURCE_CHARS :: nat where "MAX_SOURCE_CHARS = 48"
definition MAX_REASON_CHARS :: nat where "MAX_REASON_CHARS = 160"

lemmas ledger_limits = MAX_PENDING_DECISIONS_def MAX_RECENT_DECISIONS_def MAX_EPISODIC_DECISIONS_def
  MAX_RETAINED_DECISION_IDS_def

type_synonym decision_id = u64

datatype decision_lifecycle =
    LcProposed | LcRejected | LcVetoed | LcBlocked | LcExecuting | LcApplied | LcFailed | LcNoOp
  | LcReverted | LcExpired | LcSettled

definition is_terminal :: "decision_lifecycle \<Rightarrow> bool" where
  "is_terminal lc \<longleftrightarrow>
     lc \<in> {LcRejected, LcVetoed, LcBlocked, LcApplied, LcFailed, LcNoOp, LcReverted, LcExpired}"

record candidate_alternative =
  ca_action_key :: string
  ca_target :: string
  ca_expected_utility :: f64
  ca_uncertainty :: f64

record hierarchy_coordinates =
  hc_level :: u8
  hc_parent :: "decision_id option"
  hc_cohort :: u64

datatype binary_prediction_target = BptEffective

record prediction_record =
  pn_source :: string
  pn_expected_utility :: f64
  pn_uncertainty :: f64
  pn_horizon_cycles :: u64
  pn_positive_probability :: "f64 option"
  pn_binary_target :: "binary_prediction_target option"

record adviser_contribution =
  ad_adviser :: string
  ad_support :: f64
  ad_uncertainty :: f64

datatype receipt_attribution = Local string | Imported

datatype execution_disposition = EdApplied | EdBlocked | EdFailed | EdNoOp | EdReverted

record execution_receipt =
  er_receipt_id :: u64
  er_disposition :: execution_disposition
  er_observed_cycle :: u64
  er_attribution :: "receipt_attribution option"
  er_detail :: string

record decision_proposal =
  dp_action_key :: string
  dp_target :: string
  dp_proposed_cycle :: u64
  dp_expires_cycle :: u64
  dp_alternatives :: "candidate_alternative list"
  dp_hierarchy :: hierarchy_coordinates
  dp_predictions :: "prediction_record list"
  dp_adviser_contributions :: "adviser_contribution list"
  dp_exploration :: "metadata option"

record decision_envelope =
  de_id :: decision_id
  de_action_key :: string
  de_target :: string
  de_proposed_cycle :: u64
  de_expires_cycle :: u64
  de_alternatives :: "candidate_alternative list"
  de_hierarchy :: hierarchy_coordinates
  de_predictions :: "prediction_record list"
  de_adviser_contributions :: "adviser_contribution list"
  de_exploration :: "metadata option"
  de_lifecycle :: decision_lifecycle
  de_terminal_reason :: string
  de_terminal_attribution :: "receipt_attribution option"
  de_receipt :: "execution_receipt option"

record decision_episode =
  ep_id :: decision_id
  ep_lifecycle :: decision_lifecycle
  ep_settled_cycle :: u64
  ep_authority_eligible :: bool
  ep_envelope :: decision_envelope

datatype actuator_outcome =
    AoApplied | AoPending | AoBlocked | AoFailed | AoNoOp | AoReverted | AoRejected | AoVetoed | AoExpired

record decision_event =
  ev_proposal :: decision_proposal
  ev_correlation_id :: "u64 option"
  ev_observed_cycle :: u64
  ev_outcome :: actuator_outcome
  ev_attribution :: receipt_attribution
  ev_detail :: string

subsection \<open>Bounds\<close>

definition bounded_text :: "string \<Rightarrow> nat \<Rightarrow> string" where
  "bounded_text v n = take n v"

definition attribution_local :: "string \<Rightarrow> receipt_attribution" where
  "attribution_local source = Local (bounded_text source MAX_SOURCE_CHARS)"

fun grants_local_authority :: "receipt_attribution \<Rightarrow> bool" where
  "grants_local_authority (Local source) = (source \<noteq> [])"
| "grants_local_authority Imported = False"

fun bounded_attribution :: "receipt_attribution \<Rightarrow> receipt_attribution" where
  "bounded_attribution (Local source) = attribution_local source"
| "bounded_attribution Imported = Imported"

definition finite_unit :: "f64 \<Rightarrow> f64" where
  "finite_unit v = (case v of F_Fin r \<Rightarrow> F_Fin (max (- 1) (min 1 r)) | _ \<Rightarrow> F_Fin 0)"

definition f64_max_zero :: "f64 \<Rightarrow> f64" where
  "f64_max_zero v = (case v of F_Fin r \<Rightarrow> F_Fin (max r 0) | F_Inf True \<Rightarrow> F_Inf True | _ \<Rightarrow> F_Fin 0)"

definition unit_range :: "f64 \<Rightarrow> f64 \<Rightarrow> bool" where
  "unit_range lo v \<longleftrightarrow> f64_le lo v \<and> f64_le v (F_Fin 1)"

definition bounded_alternative :: "candidate_alternative \<Rightarrow> candidate_alternative" where
  "bounded_alternative a =
     a\<lparr> ca_action_key := bounded_text (ca_action_key a) MAX_ACTION_KEY_CHARS,
        ca_target := bounded_text (ca_target a) MAX_TARGET_CHARS,
        ca_expected_utility := finite_unit (ca_expected_utility a),
        ca_uncertainty := f64_max_zero (finite_unit (ca_uncertainty a)) \<rparr>"

definition bounded_prediction :: "prediction_record \<Rightarrow> prediction_record" where
  "bounded_prediction p =
     (let calibration_valid = f64_is_finite (pn_expected_utility p)
        \<and> unit_range (F_Fin (- 1)) (pn_expected_utility p)
        \<and> f64_is_finite (pn_uncertainty p) \<and> \<not> f64_le (pn_uncertainty p) (F_Fin 0)
      in p\<lparr> pn_source := bounded_text (pn_source p) MAX_SOURCE_CHARS,
            pn_expected_utility := finite_unit (pn_expected_utility p),
            pn_uncertainty := (if calibration_valid then f64_max_zero (finite_unit (pn_uncertainty p)) else F_Fin 0),
            pn_positive_probability := (case pn_positive_probability p of
                Some q \<Rightarrow> if f64_is_finite q \<and> unit_range (F_Fin 0) q then Some q else None
              | None \<Rightarrow> None) \<rparr>)"

definition bounded_adviser :: "adviser_contribution \<Rightarrow> adviser_contribution" where
  "bounded_adviser a =
     a\<lparr> ad_adviser := bounded_text (ad_adviser a) MAX_SOURCE_CHARS,
        ad_support := finite_unit (ad_support a),
        ad_uncertainty := f64_max_zero (finite_unit (ad_uncertainty a)) \<rparr>"

text \<open>An attribution that is local without a source is dropped.\<close>

definition sanitise_attribution :: "receipt_attribution option \<Rightarrow> receipt_attribution option" where
  "sanitise_attribution a =
     (case map_option bounded_attribution a of
        Some (Local source) \<Rightarrow> if source = [] then None else Some (Local source)
      | x \<Rightarrow> x)"

definition bounded_receipt :: "execution_receipt \<Rightarrow> execution_receipt" where
  "bounded_receipt r =
     r\<lparr> er_attribution := sanitise_attribution (er_attribution r),
        er_detail := bounded_text (er_detail r) MAX_REASON_CHARS \<rparr>"

definition bounded_envelope :: "decision_id \<Rightarrow> decision_envelope \<Rightarrow> decision_envelope" where
  "bounded_envelope i e =
     e\<lparr> de_id := i, de_action_key := bounded_text (de_action_key e) MAX_ACTION_KEY_CHARS,
        de_target := bounded_text (de_target e) MAX_TARGET_CHARS,
        de_alternatives := take MAX_CANDIDATE_ALTERNATIVES (map bounded_alternative (de_alternatives e)),
        de_predictions := take MAX_PREDICTIONS (map bounded_prediction (de_predictions e)),
        de_adviser_contributions := take MAX_ADVISER_CONTRIBUTIONS (map bounded_adviser (de_adviser_contributions e)),
        de_terminal_reason := bounded_text (de_terminal_reason e) MAX_REASON_CHARS,
        de_terminal_attribution := sanitise_attribution (de_terminal_attribution e),
        de_receipt := map_option bounded_receipt (de_receipt e) \<rparr>"

definition envelope_of :: "decision_id \<Rightarrow> decision_proposal \<Rightarrow> decision_envelope" where
  "envelope_of i p =
     \<lparr> de_id = i, de_action_key = bounded_text (dp_action_key p) MAX_ACTION_KEY_CHARS,
       de_target = bounded_text (dp_target p) MAX_TARGET_CHARS,
       de_proposed_cycle = dp_proposed_cycle p, de_expires_cycle = dp_expires_cycle p,
       de_alternatives = take MAX_CANDIDATE_ALTERNATIVES (map bounded_alternative (dp_alternatives p)),
       de_hierarchy = dp_hierarchy p,
       de_predictions = take MAX_PREDICTIONS (map bounded_prediction (dp_predictions p)),
       de_adviser_contributions = take MAX_ADVISER_CONTRIBUTIONS (map bounded_adviser (dp_adviser_contributions p)),
       de_exploration = dp_exploration p, de_lifecycle = LcProposed, de_terminal_reason = [],
       de_terminal_attribution = None, de_receipt = None \<rparr>"

definition episode_authority_eligible :: "decision_envelope \<Rightarrow> bool" where
  "episode_authority_eligible e \<longleftrightarrow>
     (case de_receipt e of
        None \<Rightarrow> False
      | Some r \<Rightarrow> er_disposition r = EdApplied
          \<and> (case er_attribution r of None \<Rightarrow> False | Some a \<Rightarrow> grants_local_authority a))
     \<and> (case de_exploration e of None \<Rightarrow> True | Some m \<Rightarrow> clean_treatment m)"

end
