(* ===== verification/Decision_Ledger.thy ===== *)
theory Decision_Ledger
  imports Decision_Types Root_Action "HOL-Library.List_Lexorder" "HOL-Library.Char_ord"
begin

text \<open>
  \<open>engine/decision_ledger.rs\<close>: the ledger that gives every decision its identity, holds it
  while it is pending, and archives it as an episode. Allocating an identity may hit the
  \<open>unreachable!\<close> of the code; that is the value \<open>None\<close>, and the theorems show that it does not
  happen. A lookup in a \<open>HashMap\<close> does not depend on its order; \<open>retain\<close> and the collected keys
  do not either.
\<close>

record decision_ledger =
  dl_next_id :: u64
  dl_pending_correlations :: "(u64, decision_id) hmap"
  dl_pending :: "(decision_id, decision_envelope) hmap"
  dl_pending_order :: "decision_id list"
  dl_recent :: "decision_episode list"
  dl_episodic :: "decision_episode list"
  dl_duplicate_receipts_total :: u64
  dl_expired_total :: u64
  dl_unattributed_applied_total :: u64

definition decision_ledger_default :: decision_ledger where
  "decision_ledger_default = \<lparr> dl_next_id = 0, dl_pending_correlations = [], dl_pending = [],
     dl_pending_order = [], dl_recent = [], dl_episodic = [], dl_duplicate_receipts_total = 0,
     dl_expired_total = 0, dl_unattributed_applied_total = 0 \<rparr>"

subsection \<open>Archiving\<close>

definition archive :: "decision_envelope \<Rightarrow> u64 \<Rightarrow> decision_ledger \<Rightarrow> decision_episode \<times> decision_ledger" where
  "archive e cycle l =
     (let ep = \<lparr> ep_id = de_id e, ep_lifecycle = LcSettled, ep_settled_cycle = cycle,
                 ep_authority_eligible = episode_authority_eligible e, ep_envelope = e \<rparr>;
          l = l\<lparr> dl_recent := push_bounded MAX_RECENT_DECISIONS ep (dl_recent l) \<rparr>
      in (ep, if ep_authority_eligible ep
              then l\<lparr> dl_episodic := push_bounded MAX_EPISODIC_DECISIONS ep (dl_episodic l) \<rparr> else l))"

definition drop_correlations :: "decision_id \<Rightarrow> decision_ledger \<Rightarrow> decision_ledger" where
  "drop_correlations i l =
     l\<lparr> dl_pending_correlations := hm_retain (\<lambda>_ j. j \<noteq> i) (dl_pending_correlations l) \<rparr>"

definition archive_expired :: "string \<Rightarrow> u64 \<Rightarrow> decision_envelope \<Rightarrow> decision_ledger \<Rightarrow> decision_ledger" where
  "archive_expired reason cycle e l =
     snd (archive (e\<lparr> de_lifecycle := LcExpired, de_terminal_reason := reason \<rparr>) cycle
       (l\<lparr> dl_expired_total := sat_add (dl_expired_total l) 1 \<rparr>))"

definition remove_pending :: "decision_id \<Rightarrow> decision_ledger \<Rightarrow> decision_ledger" where
  "remove_pending i l = l\<lparr> dl_pending := hm_remove i (dl_pending l) \<rparr>"

definition settle :: "decision_id \<Rightarrow> u64 \<Rightarrow> decision_ledger \<Rightarrow> decision_episode option \<times> decision_ledger" where
  "settle i cycle l =
     (case hm_get (dl_pending l) i of
        None \<Rightarrow> (None, l)
      | Some e \<Rightarrow>
          if \<not> is_terminal (de_lifecycle e) then (None, l)
          else (let l = remove_pending i l;
                    l = l\<lparr> dl_pending_order := remove1 i (dl_pending_order l) \<rparr>;
                    (ep, l) = archive e cycle (drop_correlations i l)
                in (Some ep, l)))"

subsection \<open>Identities and proposals\<close>

fun allocate_from :: "nat \<Rightarrow> decision_id set \<Rightarrow> u64 \<Rightarrow> u64 option" where
  "allocate_from 0 occupied n = None"
| "allocate_from (Suc k) occupied n =
     (let n = n + 1 in
      if n = 0 then allocate_from k occupied n
      else if n \<in> occupied then allocate_from k occupied n
      else Some n)"

definition occupied_ids :: "decision_ledger \<Rightarrow> decision_id set" where
  "occupied_ids l = set (map fst (dl_pending l) @ map ep_id (dl_recent l) @ map ep_id (dl_episodic l))"

definition allocate_id :: "decision_ledger \<Rightarrow> (decision_id \<times> decision_ledger) option" where
  "allocate_id l =
     (case allocate_from (Suc MAX_RETAINED_DECISION_IDS) (occupied_ids l) (dl_next_id l) of
        None \<Rightarrow> None
      | Some i \<Rightarrow> Some (i, l\<lparr> dl_next_id := i \<rparr>))"

definition evict_pending :: "u64 \<Rightarrow> decision_ledger \<Rightarrow> decision_ledger" where
  "evict_pending cycle l =
     (if hm_len (dl_pending l) \<ge> MAX_PENDING_DECISIONS then
        (case dl_pending_order l of
           [] \<Rightarrow> l
         | i # rest \<Rightarrow>
             (let l' = l\<lparr> dl_pending_order := rest \<rparr> in
              case hm_get (dl_pending l') i of
                None \<Rightarrow> l'
              | Some e \<Rightarrow> archive_expired ''pending-capacity'' cycle e
                  (drop_correlations i (remove_pending i l'))))
      else l)"

definition propose_decision :: "decision_proposal \<Rightarrow> decision_ledger \<Rightarrow> (decision_id \<times> decision_ledger) option" where
  "propose_decision p l =
     (case allocate_id (evict_pending (dp_proposed_cycle p) l) of
        None \<Rightarrow> None
      | Some (i, l) \<Rightarrow> Some (i, l\<lparr> dl_pending := hm_insert i (envelope_of i p) (dl_pending l),
                                  dl_pending_order := dl_pending_order l @ [i] \<rparr>))"

subsection \<open>Outcomes\<close>

fun lifecycle_of :: "execution_disposition \<Rightarrow> decision_lifecycle" where
  "lifecycle_of EdApplied = LcApplied"
| "lifecycle_of EdBlocked = LcBlocked"
| "lifecycle_of EdFailed = LcFailed"
| "lifecycle_of EdNoOp = LcNoOp"
| "lifecycle_of EdReverted = LcReverted"

definition put_pending :: "decision_id \<Rightarrow> decision_envelope \<Rightarrow> decision_ledger \<Rightarrow> decision_ledger" where
  "put_pending i e l = l\<lparr> dl_pending := hm_insert i e (dl_pending l) \<rparr>"

definition record_execution :: "decision_id \<Rightarrow> execution_receipt \<Rightarrow> decision_ledger \<Rightarrow> bool \<times> decision_ledger" where
  "record_execution i r l =
     (case hm_get (dl_pending l) i of
        None \<Rightarrow> (False, l)
      | Some e \<Rightarrow>
          if de_receipt e \<noteq> None
          then (True, l\<lparr> dl_duplicate_receipts_total := sat_add (dl_duplicate_receipts_total l) 1 \<rparr>)
          else if is_terminal (de_lifecycle e) then (False, l)
          else (let r = bounded_receipt r;
                    l = (if er_disposition r = EdApplied \<and> er_attribution r = None
                         then l\<lparr> dl_unattributed_applied_total := sat_add (dl_unattributed_applied_total l) 1 \<rparr>
                         else l)
                in (True, put_pending i (e\<lparr> de_lifecycle := lifecycle_of (er_disposition r),
                                            de_receipt := Some r \<rparr>) l)))"

definition begin_execution :: "decision_id \<Rightarrow> decision_ledger \<Rightarrow> bool \<times> decision_ledger" where
  "begin_execution i l =
     (case hm_get (dl_pending l) i of
        None \<Rightarrow> (False, l)
      | Some e \<Rightarrow> if de_lifecycle e \<noteq> LcProposed then (False, l)
          else (True, put_pending i (e\<lparr> de_lifecycle := LcExecuting \<rparr>) l))"

definition close_without_execution :: "decision_id \<Rightarrow> decision_lifecycle \<Rightarrow> string \<Rightarrow> decision_ledger \<Rightarrow>
    bool \<times> decision_ledger" where
  "close_without_execution i lc reason l =
     (case hm_get (dl_pending l) i of
        None \<Rightarrow> (False, l)
      | Some e \<Rightarrow> if is_terminal (de_lifecycle e) \<or> de_receipt e \<noteq> None then (False, l)
          else (True, put_pending i (e\<lparr> de_lifecycle := lc,
                  de_terminal_reason := bounded_text reason MAX_REASON_CHARS \<rparr>) l))"

definition reject_decision :: "decision_id \<Rightarrow> string \<Rightarrow> decision_ledger \<Rightarrow> bool \<times> decision_ledger" where
  "reject_decision i = close_without_execution i LcRejected"

definition veto_decision :: "decision_id \<Rightarrow> string \<Rightarrow> decision_ledger \<Rightarrow> bool \<times> decision_ledger" where
  "veto_decision i = close_without_execution i LcVetoed"

definition block_decision :: "decision_id \<Rightarrow> string \<Rightarrow> decision_ledger \<Rightarrow> bool \<times> decision_ledger" where
  "block_decision i = close_without_execution i LcBlocked"

definition pending_for_correlation :: "u64 \<Rightarrow> decision_ledger \<Rightarrow> decision_id option" where
  "pending_for_correlation c l = hm_get (dl_pending_correlations l) c"

definition seed_high_water :: "u64 \<Rightarrow> decision_ledger \<Rightarrow> decision_ledger" where
  "seed_high_water n l = l\<lparr> dl_next_id := max (dl_next_id l) n \<rparr>"

definition due_at :: "u64 \<Rightarrow> decision_envelope \<Rightarrow> bool" where
  "due_at cycle e \<longleftrightarrow> \<not> is_terminal (de_lifecycle e) \<and> de_expires_cycle e > 0 \<and> de_expires_cycle e \<le> cycle"

fun expire_scan :: "u64 \<Rightarrow> decision_id list \<Rightarrow> decision_ledger \<Rightarrow> decision_id list \<times> nat \<times> decision_ledger" where
  "expire_scan cycle [] l = ([], 0, l)"
| "expire_scan cycle (i # rest) l =
     (case hm_get (dl_pending l) i of
        Some e \<Rightarrow>
          if due_at cycle e then
            (let (kept, n, l) = expire_scan cycle rest (archive_expired ''expired'' cycle e
                    (drop_correlations i (remove_pending i l)))
             in (kept, Suc n, l))
          else (let (kept, n, l) = expire_scan cycle rest l in (i # kept, n, l))
      | None \<Rightarrow> (let (kept, n, l) = expire_scan cycle rest l in (i # kept, n, l)))"

definition expire_decisions :: "u64 \<Rightarrow> decision_ledger \<Rightarrow> nat \<times> decision_ledger" where
  "expire_decisions cycle l =
     (let (kept, n, l) = expire_scan cycle (dl_pending_order l) l
      in (n, l\<lparr> dl_pending_order := kept \<rparr>))"

subsection \<open>Events\<close>

fun disposition_of :: "actuator_outcome \<Rightarrow> execution_disposition option" where
  "disposition_of AoApplied = Some EdApplied"
| "disposition_of AoBlocked = Some EdBlocked"
| "disposition_of AoFailed = Some EdFailed"
| "disposition_of AoNoOp = Some EdNoOp"
| "disposition_of AoReverted = Some EdReverted"
| "disposition_of _ = None"

definition attribute_pending :: "decision_id \<Rightarrow> receipt_attribution \<Rightarrow> decision_ledger \<Rightarrow> decision_ledger" where
  "attribute_pending i a l =
     (case hm_get (dl_pending l) i of
        None \<Rightarrow> l
      | Some e \<Rightarrow> put_pending i (e\<lparr> de_terminal_attribution := Some (bounded_attribution a) \<rparr>) l)"

text \<open>The commit and cancel facts of a terminal event, when it names the same exploration.\<close>

definition merge_exploration :: "metadata option \<Rightarrow> decision_envelope \<Rightarrow> decision_envelope" where
  "merge_exploration terminal e =
     (case (terminal, de_exploration e) of
        (Some t, Some p) \<Rightarrow>
          if metadata_valid t \<and> md_correlation p = md_correlation t \<and> md_family p = md_family t
            \<and> md_key p = md_key t
          then e\<lparr> de_exploration := Some (p\<lparr> md_committed := (md_committed p \<or> md_committed t),
                     md_cancelled := (if md_cancelled t \<noteq> None then md_cancelled t else md_cancelled p) \<rparr>) \<rparr>
          else e
      | _ \<Rightarrow> e)"

definition merge_pending :: "decision_id \<Rightarrow> metadata option \<Rightarrow> decision_ledger \<Rightarrow> decision_ledger" where
  "merge_pending i terminal l =
     (case hm_get (dl_pending l) i of
        None \<Rightarrow> l
      | Some e \<Rightarrow> put_pending i (merge_exploration terminal e) l)"

definition settled_cycle_of :: "decision_event \<Rightarrow> u64" where
  "settled_cycle_of ev =
     (if ev_observed_cycle ev > 0 then ev_observed_cycle ev else dp_proposed_cycle (ev_proposal ev))"

definition receipt_of :: "decision_id \<Rightarrow> execution_disposition \<Rightarrow> string \<Rightarrow> decision_event \<Rightarrow> execution_receipt" where
  "receipt_of i d detail ev = \<lparr> er_receipt_id = i, er_disposition = d,
     er_observed_cycle = settled_cycle_of ev, er_attribution = Some (ev_attribution ev), er_detail = detail \<rparr>"

definition ingest_pending :: "decision_event \<Rightarrow> decision_ledger \<Rightarrow>
    (decision_episode option \<times> decision_ledger) option" where
  "ingest_pending ev l =
     (case propose_decision (ev_proposal ev) l of
        None \<Rightarrow> None
      | Some (i, l) \<Rightarrow>
          (case ev_correlation_id ev of
             Some c \<Rightarrow> Some (None, snd (begin_execution i
               (l\<lparr> dl_pending_correlations := hm_insert c i (dl_pending_correlations l) \<rparr>)))
           | None \<Rightarrow> Some (settle i (settled_cycle_of ev)
               (snd (record_execution i (receipt_of i EdFailed ''pending event missing correlation'' ev)
                 (attribute_pending i (ev_attribution ev) l))))))"

definition close_event :: "decision_id \<Rightarrow> decision_event \<Rightarrow> decision_ledger \<Rightarrow> bool \<times> decision_ledger" where
  "close_event i ev l =
     (case ev_outcome ev of
        AoRejected \<Rightarrow> reject_decision i (ev_detail ev) l
      | AoVetoed \<Rightarrow> veto_decision i (ev_detail ev) l
      | AoExpired \<Rightarrow> close_without_execution i LcExpired (ev_detail ev) l
      | out \<Rightarrow> (case disposition_of out of
          Some d \<Rightarrow> record_execution i (receipt_of i d (ev_detail ev) ev) l
        | None \<Rightarrow> (False, l)))"

definition resolve_id :: "decision_event \<Rightarrow> decision_ledger \<Rightarrow> (decision_id \<times> decision_ledger) option" where
  "resolve_id ev l =
     (case Option.bind (ev_correlation_id ev) (hm_get (dl_pending_correlations l)) of
        Some i \<Rightarrow> Some (i, l)
      | None \<Rightarrow> propose_decision (ev_proposal ev) l)"

definition unlink_settled :: "decision_episode option \<Rightarrow> u64 option \<Rightarrow> decision_ledger \<Rightarrow> decision_ledger" where
  "unlink_settled settled corr l =
     (case corr of
        None \<Rightarrow> l
      | Some c \<Rightarrow> if settled = None then l
          else l\<lparr> dl_pending_correlations := hm_remove c (dl_pending_correlations l) \<rparr>)"

definition finish_event :: "decision_id \<Rightarrow> decision_event \<Rightarrow> decision_ledger \<Rightarrow>
    decision_episode option \<times> decision_ledger" where
  "finish_event i ev l =
     (let l = attribute_pending i (ev_attribution ev)
                (merge_pending i (dp_exploration (ev_proposal ev)) l);
          (closed, l) = close_event i ev l;
          (settled, l) = (if closed then settle i (settled_cycle_of ev) l else (None, l))
      in (settled, unlink_settled settled (ev_correlation_id ev) l))"

definition ingest_event :: "decision_event \<Rightarrow> decision_ledger \<Rightarrow>
    (decision_episode option \<times> decision_ledger) option" where
  "ingest_event ev l =
     (if ev_outcome ev = AoPending then ingest_pending ev l
      else case resolve_id ev l of
        None \<Rightarrow> None
      | Some (i, l) \<Rightarrow> Some (finish_event i ev l))"

fun ingest_all :: "decision_event list \<Rightarrow> decision_ledger \<Rightarrow> (decision_episode list \<times> decision_ledger) option" where
  "ingest_all [] l = Some ([], l)"
| "ingest_all (ev # evs) l =
     (case ingest_event ev l of
        None \<Rightarrow> None
      | Some (ep, l) \<Rightarrow>
          (case ingest_all evs l of
             None \<Rightarrow> None
           | Some (eps, l) \<Rightarrow> Some (case ep of None \<Rightarrow> eps | Some e \<Rightarrow> e # eps, l)))"

subsection \<open>The cycle buffer\<close>

record cycle_decision_events =
  ce_events :: "decision_event list"
  ce_dropped_total :: u64

definition cycle_events_default :: cycle_decision_events where
  "cycle_events_default = \<lparr> ce_events = [], ce_dropped_total = 0 \<rparr>"

definition ce_push :: "decision_event \<Rightarrow> cycle_decision_events \<Rightarrow> bool \<times> cycle_decision_events" where
  "ce_push ev b =
     (if length (ce_events b) \<ge> MAX_CYCLE_DECISION_EVENTS
      then (False, b\<lparr> ce_dropped_total := sat_add (ce_dropped_total b) 1 \<rparr>)
      else (True, b\<lparr> ce_events := ce_events b @ [ev] \<rparr>))"

definition ce_extend :: "decision_event list \<Rightarrow> cycle_decision_events \<Rightarrow> cycle_decision_events" where
  "ce_extend evs b = fold (\<lambda>ev b. snd (ce_push ev b)) evs b"

definition ev_set_cycle :: "u64 \<Rightarrow> decision_event \<Rightarrow> decision_event" where
  "ev_set_cycle cycle ev = ev\<lparr> ev_proposal := (ev_proposal ev)\<lparr> dp_proposed_cycle := cycle \<rparr>,
     ev_observed_cycle := cycle \<rparr>"

definition ce_extend_at_cycle :: "decision_event list \<Rightarrow> u64 \<Rightarrow> cycle_decision_events \<Rightarrow> cycle_decision_events" where
  "ce_extend_at_cycle evs cycle = ce_extend (map (ev_set_cycle cycle) evs)"

definition ce_record_dropped :: "u64 \<Rightarrow> cycle_decision_events \<Rightarrow> cycle_decision_events" where
  "ce_record_dropped n b = b\<lparr> ce_dropped_total := sat_add (ce_dropped_total b) n \<rparr>"

definition ce_extend_buffer :: "cycle_decision_events \<Rightarrow> cycle_decision_events \<Rightarrow> cycle_decision_events" where
  "ce_extend_buffer source b = ce_extend (ce_events source) (ce_record_dropped (ce_dropped_total source) b)"

definition ce_extend_buffer_at_cycle :: "cycle_decision_events \<Rightarrow> u64 \<Rightarrow> cycle_decision_events \<Rightarrow> cycle_decision_events" where
  "ce_extend_buffer_at_cycle source cycle b =
     ce_extend_at_cycle (ce_events source) cycle (ce_record_dropped (ce_dropped_total source) b)"

definition proposal_default :: decision_proposal where
  "proposal_default = \<lparr> dp_action_key = [], dp_target = [], dp_proposed_cycle = 0, dp_expires_cycle = 0,
     dp_alternatives = [], dp_hierarchy = \<lparr> hc_level = 0, hc_parent = None, hc_cohort = 0 \<rparr>,
     dp_predictions = [], dp_adviser_contributions = [], dp_exploration = None \<rparr>"

definition event_with :: "receipt_attribution \<Rightarrow> string \<Rightarrow> string \<Rightarrow> u64 \<Rightarrow> actuator_outcome \<Rightarrow> string \<Rightarrow> decision_event" where
  "event_with a key target cycle out detail =
     \<lparr> ev_proposal = proposal_default\<lparr> dp_action_key := bounded_text key MAX_ACTION_KEY_CHARS,
         dp_target := bounded_text target MAX_TARGET_CHARS, dp_proposed_cycle := cycle \<rparr>,
       ev_correlation_id = None, ev_observed_cycle = cycle, ev_outcome = out, ev_attribution = a,
       ev_detail = bounded_text detail MAX_REASON_CHARS \<rparr>"

definition event_local :: "string \<Rightarrow> string \<Rightarrow> u64 \<Rightarrow> actuator_outcome \<Rightarrow> string \<Rightarrow> string \<Rightarrow> decision_event" where
  "event_local key target cycle out source detail =
     event_with (attribution_local source) key target cycle out detail"

definition event_imported :: "string \<Rightarrow> string \<Rightarrow> u64 \<Rightarrow> actuator_outcome \<Rightarrow> string \<Rightarrow> decision_event" where
  "event_imported = event_with Imported"

definition with_expiry :: "u64 \<Rightarrow> decision_event \<Rightarrow> decision_event" where
  "with_expiry cycle ev = ev\<lparr> ev_proposal := (ev_proposal ev)\<lparr> dp_expires_cycle := cycle \<rparr> \<rparr>"

definition with_hierarchy :: "hierarchy_coordinates \<Rightarrow> decision_event \<Rightarrow> decision_event" where
  "with_hierarchy h ev = ev\<lparr> ev_proposal := (ev_proposal ev)\<lparr> dp_hierarchy := h \<rparr> \<rparr>"

definition with_correlation :: "u64 \<Rightarrow> decision_event \<Rightarrow> decision_event" where
  "with_correlation c ev = ev\<lparr> ev_correlation_id := (if c > 0 then Some c else None) \<rparr>"

definition with_prediction :: "prediction_record \<Rightarrow> decision_event \<Rightarrow> decision_event" where
  "with_prediction p ev =
     (if length (dp_predictions (ev_proposal ev)) < MAX_PREDICTIONS
      then ev\<lparr> ev_proposal := (ev_proposal ev)\<lparr> dp_predictions :=
             dp_predictions (ev_proposal ev) @ [bounded_prediction p] \<rparr> \<rparr>
      else ev)"

definition with_exploration :: "metadata \<Rightarrow> decision_event \<Rightarrow> decision_event" where
  "with_exploration m ev =
     (if metadata_valid m
      then ev\<lparr> ev_correlation_id := Some (ledger_correlation_id (md_correlation m)),
              ev_proposal := (ev_proposal ev)\<lparr> dp_exploration := Some m \<rparr> \<rparr>
      else ev)"

text \<open>The summary event that takes the place of the last retained one when the buffer is full.\<close>

definition overflow_summary :: "u64 \<Rightarrow> u64 \<Rightarrow> decision_event" where
  "overflow_summary cycle dropped =
     event_local ''decision_events:overflow'' ''cycle-buffer'' cycle AoFailed ''decision-event-buffer''
       (''dropped='' @ nat_to_string (unat dropped))"

definition ce_seal_overflow :: "u64 \<Rightarrow> cycle_decision_events \<Rightarrow> bool \<times> cycle_decision_events" where
  "ce_seal_overflow cycle b =
     (if ce_dropped_total b = 0 then (False, b)
      else let b = (if length (ce_events b) \<ge> MAX_CYCLE_DECISION_EVENTS
                    then b\<lparr> ce_events := butlast (ce_events b),
                            ce_dropped_total := sat_add (ce_dropped_total b) 1 \<rparr>
                    else b)
           in (True, b\<lparr> ce_events := ce_events b @ [overflow_summary cycle (ce_dropped_total b)] \<rparr>))"

text \<open>Forecasts captured before execution, attached to events that carry none.\<close>

definition attach_predictions :: "(string \<Rightarrow> prediction_record list option) \<Rightarrow> cycle_decision_events \<Rightarrow>
    nat \<times> cycle_decision_events" where
  "attach_predictions forecasts b =
     (let attach = (\<lambda>ev. let p = ev_proposal ev in
            if dp_predictions p \<noteq> [] then (0, ev)
            else case forecasts (dp_action_key p) of
              None \<Rightarrow> (0, ev)
            | Some ps \<Rightarrow>
                (let qs = map bounded_prediction (take MAX_PREDICTIONS ps)
                 in (if qs = [] then 0 else 1, ev\<lparr> ev_proposal := p\<lparr> dp_predictions := qs \<rparr> \<rparr>)))
      in (sum_list (map (fst \<circ> attach) (ce_events b)), b\<lparr> ce_events := map (snd \<circ> attach) (ce_events b) \<rparr>))"

definition ingest_cycle_events :: "cycle_decision_events \<Rightarrow> decision_ledger \<Rightarrow>
    (decision_episode list \<times> cycle_decision_events \<times> decision_ledger) option" where
  "ingest_cycle_events b l =
     (case ingest_all (ce_events b) l of
        None \<Rightarrow> None
      | Some (eps, l) \<Rightarrow> Some (eps, b\<lparr> ce_events := [] \<rparr>, l))"

text \<open>One receipt for a cycle in which several families applied. The sets of the code iterate in
  the order of their text; keys join the target while it stays within its bound.\<close>

definition family_segment :: "string \<Rightarrow> string" where
  "family_segment key = takeWhile (\<lambda>c. c \<noteq> CHR '':'') key"

definition coordinated_members :: "cycle_decision_events \<Rightarrow> string list" where
  "coordinated_members b =
     filter (\<lambda>k. family_segment k \<noteq> ''coordinated'')
       (map (\<lambda>ev. dp_action_key (ev_proposal ev)) (filter (\<lambda>ev. ev_outcome ev = AoApplied) (ce_events b)))"

definition btree_set :: "string list \<Rightarrow> string list" where
  "btree_set xs = sort (remdups xs)"

fun join_plus :: "string list \<Rightarrow> string" where
  "join_plus [] = []"
| "join_plus [x] = x"
| "join_plus (x # xs) = x @ ''+'' @ join_plus xs"

fun join_target :: "string \<Rightarrow> string list \<Rightarrow> string" where
  "join_target t [] = t"
| "join_target t (k # ks) =
     (if length t + (if t = [] then 0 else 1) + length k > MAX_TARGET_CHARS then t
      else join_target ((if t = [] then t else t @ ''|'') @ k) ks)"

definition coordinated_action_event :: "cycle_decision_events \<Rightarrow> u64 \<Rightarrow> decision_event option" where
  "coordinated_action_event b cycle =
     (let keys = coordinated_members b; families = btree_set (map family_segment keys)
      in if length families < 2 then None
         else Some (with_hierarchy \<lparr> hc_level = 1, hc_parent = None, hc_cohort = cycle \<rparr>
           (event_local (''coordinated:'' @ join_plus families) (join_target [] (btree_set keys)) cycle
             AoApplied ''coordinated-audit'' ''multiple actuator families applied in one cycle'')))"

text \<open>The change token of the read side.\<close>

definition ledger_revision :: "decision_ledger \<Rightarrow> u64" where
  "ledger_revision l =
     (let recent_token = (case rev (dl_recent l) of [] \<Rightarrow> 0
            | ep # _ \<Rightarrow> xor (ep_id ep) (word_rotl 17 (ep_settled_cycle ep)))
      in xor (xor (xor (xor (dl_next_id l) recent_token) (word_rotl 29 (word_of_nat (hm_len (dl_pending l)))))
           (word_rotl 7 (dl_duplicate_receipts_total l))) (word_rotl 13 (dl_expired_total l)))"

subsection \<open>Restored state\<close>

definition pending_order_is_valid :: "decision_id list \<Rightarrow> (decision_id, decision_envelope) hmap \<Rightarrow> bool" where
  "pending_order_is_valid order pending \<longleftrightarrow>
     length order = hm_len pending \<and> length order \<le> MAX_PENDING_DECISIONS
     \<and> list_all (hm_contains pending) order \<and> distinct order"

text \<open>The bounded heap of the code keeps the largest entries by cycle and identity, ascending.\<close>

definition select_reconstructed_pending ::
  "(decision_id, decision_envelope) hmap \<Rightarrow> (decision_id \<times> decision_envelope) list" where
  "select_reconstructed_pending pending =
     (let sorted_all = sort_key (\<lambda>x. de_proposed_cycle (snd x)) (sort_key fst pending)
      in drop (length sorted_all - MAX_PENDING_DECISIONS) sorted_all)"

definition normalize_episode :: "decision_episode \<Rightarrow> decision_episode" where
  "normalize_episode ep =
     (let e = bounded_envelope (ep_id ep) (ep_envelope ep)
      in ep\<lparr> ep_envelope := e, ep_authority_eligible := episode_authority_eligible e \<rparr>)"

definition normalize_episodes :: "nat \<Rightarrow> decision_episode list \<Rightarrow> decision_episode list" where
  "normalize_episodes limit eps = fold (\<lambda>ep q. push_bounded limit (normalize_episode ep) q) eps []"

definition restored_pending :: "decision_id list \<Rightarrow> (decision_id, decision_envelope) hmap \<Rightarrow>
    (decision_id \<times> decision_envelope) list" where
  "restored_pending order pending =
     map (\<lambda>(i, e). (i, bounded_envelope i e))
       (if pending_order_is_valid order pending
        then map (\<lambda>i. (i, the (hm_get pending i))) order
        else select_reconstructed_pending pending)"

definition normalize_restored_state :: "decision_ledger \<Rightarrow> decision_ledger" where
  "normalize_restored_state l =
     (let ps = restored_pending (dl_pending_order l) (dl_pending l);
          pending = hm_from_list ps
      in l\<lparr> dl_next_id := fold max (map fst (dl_pending l)) (dl_next_id l),
            dl_pending := pending, dl_pending_order := map fst ps,
            dl_pending_correlations :=
              hm_retain (\<lambda>c i. c > 0 \<and> hm_contains pending i) (dl_pending_correlations l),
            dl_recent := normalize_episodes MAX_RECENT_DECISIONS (dl_recent l),
            dl_episodic := normalize_episodes MAX_EPISODIC_DECISIONS
              (filter (episode_authority_eligible \<circ> ep_envelope) (dl_episodic l)) \<rparr>)"

end
