(* ===== verification/Decision_Properties.thy ===== *)
theory Decision_Properties
  imports Decision_Ledger
begin

text \<open>
  What the ledger of \<open>Decision_Ledger\<close> guarantees: its bounds and the agreement of its queues
  and maps after any sequence of calls, that allocating an identity always succeeds, what an
  event resolves to, and that a correlated decision keeps its identity.
\<close>

named_theorems dl_rules \<open>operations that keep the invariant of the ledger\<close>

subsection \<open>The invariant\<close>

definition episode_ok :: "decision_episode \<Rightarrow> bool" where
  "episode_ok ep \<longleftrightarrow> ep_id ep = de_id (ep_envelope ep)
     \<and> ep_authority_eligible ep = episode_authority_eligible (ep_envelope ep)"

definition archive_inv :: "decision_ledger \<Rightarrow> bool" where
  "archive_inv l \<longleftrightarrow> length (dl_recent l) \<le> MAX_RECENT_DECISIONS
     \<and> length (dl_episodic l) \<le> MAX_EPISODIC_DECISIONS
     \<and> list_all episode_ok (dl_recent l)
     \<and> list_all (\<lambda>ep. episode_ok ep \<and> ep_authority_eligible ep) (dl_episodic l)"

definition pending_inv :: "decision_ledger \<Rightarrow> bool" where
  "pending_inv l \<longleftrightarrow> hm_wf (dl_pending l) \<and> hm_len (dl_pending l) \<le> MAX_PENDING_DECISIONS
     \<and> (\<forall>i e. hm_get (dl_pending l) i = Some e \<longrightarrow> de_id e = i)
     \<and> hm_wf (dl_pending_correlations l)
     \<and> (\<forall>c i. hm_get (dl_pending_correlations l) c = Some i \<longrightarrow> i \<in> hm_keys (dl_pending l))"

definition core_inv :: "decision_ledger \<Rightarrow> bool" where
  "core_inv l \<longleftrightarrow> archive_inv l \<and> pending_inv l"

definition order_inv :: "decision_ledger \<Rightarrow> bool" where
  "order_inv l \<longleftrightarrow> distinct (dl_pending_order l) \<and> set (dl_pending_order l) = hm_keys (dl_pending l)"

definition dl_inv :: "decision_ledger \<Rightarrow> bool" where
  "dl_inv l \<longleftrightarrow> core_inv l \<and> order_inv l"

lemma dl_inv_default [dl_rules]: "dl_inv decision_ledger_default"
  by (simp add: dl_inv_def core_inv_def archive_inv_def pending_inv_def order_inv_def
    decision_ledger_default_def hm_len_def hm_keys_def)

subsection \<open>Archiving keeps the bounds\<close>

lemma push_bounded_all:
  "list_all P q \<Longrightarrow> P x \<Longrightarrow> list_all P (push_bounded n x q)"
  using push_bounded_set [of n x q] by (auto simp: list_all_iff)

lemma archive_fields [simp]:
  "dl_pending (snd (archive e c l)) = dl_pending l"
  "dl_pending_order (snd (archive e c l)) = dl_pending_order l"
  "dl_pending_correlations (snd (archive e c l)) = dl_pending_correlations l"
  "dl_next_id (snd (archive e c l)) = dl_next_id l"
  by (simp_all add: archive_def Let_def)

lemma archive_episode:
  "fst (archive e c l) = \<lparr> ep_id = de_id e, ep_lifecycle = LcSettled, ep_settled_cycle = c,
     ep_authority_eligible = episode_authority_eligible e, ep_envelope = e \<rparr>"
  by (simp add: archive_def Let_def)

lemma archive_keeps: "archive_inv l \<Longrightarrow> archive_inv (snd (archive e c l))"
  by (auto simp: archive_inv_def archive_def Let_def ledger_limits episode_ok_def
    intro!: push_bounded_length push_bounded_all)

lemma archive_inv_cong [simp]:
  "archive_inv (l\<lparr> dl_pending := x \<rparr>) = archive_inv l"
  "archive_inv (l\<lparr> dl_pending_order := o' \<rparr>) = archive_inv l"
  "archive_inv (l\<lparr> dl_pending_correlations := c \<rparr>) = archive_inv l"
  "archive_inv (l\<lparr> dl_expired_total := n \<rparr>) = archive_inv l"
  "archive_inv (l\<lparr> dl_next_id := n \<rparr>) = archive_inv l"
  by (simp_all add: archive_inv_def)

lemma pending_inv_cong:
  "dl_pending l' = dl_pending l \<Longrightarrow> dl_pending_correlations l' = dl_pending_correlations l \<Longrightarrow>
   pending_inv l' = pending_inv l"
  by (simp add: pending_inv_def)

lemma drop_pending_keeps:
  assumes "pending_inv l"
  shows "pending_inv (drop_correlations i (remove_pending i l))"
proof -
  have wf: "hm_wf (dl_pending l)" "hm_wf (dl_pending_correlations l)"
    using assms by (simp_all add: pending_inv_def)
  have "hm_len (hm_remove i (dl_pending l)) \<le> MAX_PENDING_DECISIONS"
    using hm.len_remove_le [OF wf(1)] assms le_trans unfolding pending_inv_def by blast
  then show ?thesis
    using assms wf by (auto simp: pending_inv_def drop_correlations_def remove_pending_def hm.get_retain
      split: option.splits if_splits)
qed

lemma archive_expired_fields [simp]:
  "dl_pending (archive_expired reason c e l) = dl_pending l"
  "dl_pending_order (archive_expired reason c e l) = dl_pending_order l"
  "dl_pending_correlations (archive_expired reason c e l) = dl_pending_correlations l"
  by (simp_all add: archive_expired_def)

lemma drop_fields [simp]:
  "dl_pending (drop_correlations i l) = dl_pending l"
  "dl_pending_order (drop_correlations i l) = dl_pending_order l"
  "dl_pending_order (remove_pending i l) = dl_pending_order l"
  "dl_pending (remove_pending i l) = hm_remove i (dl_pending l)"
  "archive_inv (drop_correlations i l) = archive_inv l"
  "archive_inv (remove_pending i l) = archive_inv l"
  by (simp_all add: drop_correlations_def remove_pending_def)

lemma core_archive_expired:
  assumes "core_inv l"
  shows "core_inv (archive_expired reason c e (drop_correlations i (remove_pending i l)))"
proof -
  have "pending_inv (drop_correlations i (remove_pending i l))"
    using assms drop_pending_keeps by (simp add: core_inv_def)
  then have "pending_inv (archive_expired reason c e (drop_correlations i (remove_pending i l)))"
    by (subst pending_inv_cong) simp_all
  moreover have "archive_inv (archive_expired reason c e (drop_correlations i (remove_pending i l)))"
    using assms by (simp add: archive_expired_def archive_keeps core_inv_def)
  ultimately show ?thesis by (simp add: core_inv_def)
qed

lemma settle_keeps [dl_rules]:
  assumes "dl_inv l"
  shows "dl_inv (snd (settle i c l))"
proof (cases "hm_get (dl_pending l) i")
  case None
  then show ?thesis using assms by (simp add: settle_def)
next
  case (Some e)
  define m where "m = drop_correlations i ((remove_pending i l)\<lparr> dl_pending_order :=
    remove1 i (dl_pending_order l) \<rparr>)"
  have m: "m = (drop_correlations i (remove_pending i l))\<lparr> dl_pending_order := remove1 i (dl_pending_order l) \<rparr>"
    by (simp add: m_def drop_correlations_def)
  have "pending_inv m" unfolding m
    using assms drop_pending_keeps by (subst pending_inv_cong [of _ "drop_correlations i (remove_pending i l)"])
      (simp_all add: dl_inv_def core_inv_def)
  then have "core_inv (snd (archive e c m))"
    using assms pending_inv_cong [of "snd (archive e c m)" m]
    by (simp add: core_inv_def dl_inv_def archive_keeps m)
  moreover have "order_inv (snd (archive e c m))"
    using assms by (simp add: m order_inv_def dl_inv_def set_remove1_eq)
  ultimately have "dl_inv (snd (archive e c m))" by (simp add: dl_inv_def)
  then show ?thesis
    using Some assms by (simp add: settle_def Let_def case_prod_unfold m_def)
qed

lemma put_pending_keeps [dl_rules]:
  assumes "dl_inv l" and "hm_get (dl_pending l) i = Some e" and "de_id e' = i"
  shows "dl_inv (put_pending i e' l)"
proof -
  have "hm_len (hm_insert i e' (dl_pending l)) = hm_len (dl_pending l)"
    using assms by (intro hm.len_insert_old) (simp_all add: dl_inv_def core_inv_def pending_inv_def)
  then show ?thesis
    using assms by (auto simp: dl_inv_def core_inv_def pending_inv_def order_inv_def put_pending_def
      hm.keys_get insert_absorb)
qed

lemma pending_id: "dl_inv l \<Longrightarrow> hm_get (dl_pending l) i = Some e \<Longrightarrow> de_id e = i"
  by (simp add: dl_inv_def core_inv_def pending_inv_def)

lemma counters_keep [dl_rules]:
  "dl_inv l \<Longrightarrow> dl_inv (l\<lparr> dl_duplicate_receipts_total := n \<rparr>)"
  "dl_inv l \<Longrightarrow> dl_inv (l\<lparr> dl_unattributed_applied_total := n \<rparr>)"
  "dl_inv l \<Longrightarrow> dl_inv (l\<lparr> dl_next_id := n \<rparr>)"
  by (simp_all add: dl_inv_def core_inv_def archive_inv_def pending_inv_def order_inv_def)

lemma record_execution_keeps [dl_rules]:
  assumes "dl_inv l"
  shows "dl_inv (snd (record_execution i r l))"
proof (cases "hm_get (dl_pending l) i")
  case None
  then show ?thesis using assms by (simp add: record_execution_def)
next
  case (Some e)
  note id = pending_id [OF assms Some]
  show ?thesis
    using assms Some id put_pending_keeps [of "l\<lparr> dl_unattributed_applied_total := n \<rparr>" i e for n]
    by (auto simp: record_execution_def Let_def dl_rules)
qed

lemma begin_execution_keeps [dl_rules]: "dl_inv l \<Longrightarrow> dl_inv (snd (begin_execution i l))"
  by (auto simp: begin_execution_def pending_id intro: put_pending_keeps split: option.split)

lemma close_without_execution_keeps [dl_rules]:
  "dl_inv l \<Longrightarrow> dl_inv (snd (close_without_execution i lc reason l))"
  by (auto simp: close_without_execution_def pending_id intro: put_pending_keeps split: option.split)

lemma attribute_pending_keeps [dl_rules]: "dl_inv l \<Longrightarrow> dl_inv (attribute_pending i a l)"
  by (auto simp: attribute_pending_def pending_id intro: put_pending_keeps split: option.split)

lemma merge_pending_keeps [dl_rules]: "dl_inv l \<Longrightarrow> dl_inv (merge_pending i t l)"
  by (auto simp: merge_pending_def merge_exploration_def pending_id intro: put_pending_keeps split: option.split)

subsection \<open>Expiry and eviction\<close>

lemma expire_scan_keeps:
  assumes "core_inv l" and "distinct is" and "set is \<subseteq> hm_keys (dl_pending l)"
    and "expire_scan cycle is l = (kept, n, l')"
  shows "core_inv l' \<and> distinct kept \<and> set kept \<subseteq> set is \<and> set kept \<subseteq> hm_keys (dl_pending l')
    \<and> hm_keys (dl_pending l') = hm_keys (dl_pending l) - (set is - set kept)
    \<and> length kept + n = length is"
  using assms
proof (induction "is" arbitrary: l kept n l')
  case Nil
  then show ?case by simp
next
  case (Cons i "is")
  obtain e where e: "hm_get (dl_pending l) i = Some e"
    using Cons.prems(3) by (auto simp: hm.keys_get)
  show ?case
  proof (cases "due_at cycle e")
    case True
    let ?m = "archive_expired ''expired'' cycle e (drop_correlations i (remove_pending i l))"
    obtain k n' where r: "expire_scan cycle is ?m = (k, n', l')" "kept = k" "n = Suc n'"
      using Cons.prems(4) e True by (auto simp: case_prod_unfold Let_def prod_eq_iff)
    have "set is \<subseteq> hm_keys (dl_pending ?m)" using Cons.prems(2,3) by auto
    from Cons.IH [OF core_archive_expired [OF Cons.prems(1)] _ this r(1)] show ?thesis
      using Cons.prems(2,3) r by auto
  next
    case False
    obtain k n' where r: "expire_scan cycle is l = (k, n', l')" "kept = i # k" "n = n'"
      using Cons.prems(4) e False by (auto simp: case_prod_unfold Let_def prod_eq_iff)
    have "set is \<subseteq> hm_keys (dl_pending l)" using Cons.prems(3) by simp
    from Cons.IH [OF Cons.prems(1) _ this r(1)] show ?thesis
      using Cons.prems(2,3) r by auto
  qed
qed

lemma order_update_inv:
  assumes "core_inv l" and "distinct order" and "set order = hm_keys (dl_pending l)"
  shows "dl_inv (l\<lparr> dl_pending_order := order \<rparr>)"
  using assms pending_inv_cong [of "l\<lparr> dl_pending_order := order \<rparr>" l]
  by (simp add: dl_inv_def core_inv_def order_inv_def)

lemma expire_keeps [dl_rules]:
  assumes "dl_inv l"
  shows "dl_inv (snd (expire_decisions cycle l))"
proof -
  obtain kept n l' where r: "expire_scan cycle (dl_pending_order l) l = (kept, n, l')"
    by (metis prod_cases3)
  have "core_inv l' \<and> distinct kept \<and> set kept = hm_keys (dl_pending l')"
    using expire_scan_keeps [OF _ _ _ r] assms by (auto simp: dl_inv_def order_inv_def)
  then show ?thesis by (simp add: expire_decisions_def r order_update_inv)
qed

lemma evict_keeps:
  assumes "dl_inv l"
  shows "dl_inv (evict_pending cycle l) \<and> hm_len (dl_pending (evict_pending cycle l)) < MAX_PENDING_DECISIONS"
proof (cases "hm_len (dl_pending l) \<ge> MAX_PENDING_DECISIONS")
  case False
  then show ?thesis using assms by (simp add: evict_pending_def)
next
  case True
  have wf: "hm_wf (dl_pending l)" using assms by (simp add: dl_inv_def core_inv_def pending_inv_def)
  have pos: "0 < card (hm_keys (dl_pending l))"
    using True by (simp add: hm.len_card [OF wf] ledger_limits)
  from pos obtain i rest where o: "dl_pending_order l = i # rest"
    using assms by (cases "dl_pending_order l") (auto simp: dl_inv_def order_inv_def)
  then obtain e where e: "hm_get (dl_pending l) i = Some e"
    using assms hm.keys_get [of i "dl_pending l"] by (auto simp: dl_inv_def order_inv_def)
  let ?m = "archive_expired ''pending-capacity'' cycle e (drop_correlations i (remove_pending i l))"
  have ev: "evict_pending cycle l = ?m\<lparr> dl_pending_order := rest \<rparr>"
    using True o e by (simp add: evict_pending_def archive_expired_def archive_def drop_correlations_def
      remove_pending_def Let_def)
  have "set rest = hm_keys (dl_pending ?m)" "distinct rest"
    using assms o by (auto simp: dl_inv_def order_inv_def)
  then have "dl_inv (?m\<lparr> dl_pending_order := rest \<rparr>)"
    using assms by (intro order_update_inv core_archive_expired) (simp_all add: dl_inv_def)
  moreover have "hm_len (hm_remove i (dl_pending l)) < hm_len (dl_pending l)"
    using wf e hm.keys_get [of i "dl_pending l"] pos
    by (simp add: hm.len_card hm.wf_remove hm.keys_finite card_Diff1_less)
  moreover have "hm_len (dl_pending l) \<le> MAX_PENDING_DECISIONS"
    using assms by (simp add: dl_inv_def core_inv_def pending_inv_def)
  ultimately show ?thesis by (simp add: ev)
qed

subsection \<open>Allocation always finds an identity\<close>

lemma allocate_from_Some:
  "allocate_from k occ n = Some i \<Longrightarrow> i \<noteq> 0 \<and> i \<notin> occ"
  by (induction k occ n rule: allocate_from.induct) (auto simp: Let_def split: if_splits)

lemma allocate_from_None:
  "allocate_from k occ n = None \<Longrightarrow> j < k \<Longrightarrow> n + word_of_nat (Suc j) \<in> insert 0 occ"
proof (induction k arbitrary: n j)
  case (Suc k)
  have a: "n + 1 \<in> insert 0 occ" "allocate_from k occ (n + 1) = None"
    using Suc.prems(1) by (auto simp: Let_def split: if_splits)
  show ?case
  proof (cases j)
    case 0
    then show ?thesis using a by simp
  next
    case j: (Suc j')
    then have "n + 1 + word_of_nat (Suc j') \<in> insert 0 occ" using Suc.IH [OF a(2)] Suc.prems(2) by simp
    then show ?thesis by (simp add: j algebra_simps)
  qed
qed simp

lemma allocate_from_total:
  assumes "finite occ" and "card occ + 1 < k" and "k < 2 ^ 64"
  shows "allocate_from k occ n \<noteq> None"
proof
  assume none: "allocate_from k occ n = None"
  let ?f = "\<lambda>j. n + word_of_nat (Suc j)"
  have "inj_on ?f {..<k}"
  proof (rule inj_onI)
    fix a b assume ab: "a \<in> {..<k}" "b \<in> {..<k}" "?f a = ?f b"
    then have "(word_of_nat (Suc a) :: u64) = word_of_nat (Suc b)" by simp
    moreover have "Suc a < 2 ^ 64" "Suc b < 2 ^ 64" using ab assms(3) by auto
    ultimately show "a = b" by (simp add: word_of_nat_eq_iff take_bit_nat_eq_self)
  qed
  then have "card (?f ` {..<k}) = k" by (simp add: card_image)
  moreover have "?f ` {..<k} \<subseteq> insert 0 occ" using allocate_from_None [OF none] by blast
  then have "card (?f ` {..<k}) \<le> card (insert 0 occ)" using assms(1) by (intro card_mono) simp_all
  moreover have "card (insert 0 occ) \<le> card occ + 1" using assms(1) by (simp add: card_insert_if)
  ultimately show False using assms(2) by linarith
qed

lemma occupied_card:
  assumes "core_inv l" and "hm_len (dl_pending l) < MAX_PENDING_DECISIONS"
  shows "card (occupied_ids l) < MAX_RETAINED_DECISION_IDS"
proof -
  have "card (occupied_ids l) \<le> length (map fst (dl_pending l) @ map ep_id (dl_recent l) @ map ep_id (dl_episodic l))"
    unfolding occupied_ids_def by (rule card_length)
  then show ?thesis
    using assms by (simp add: core_inv_def archive_inv_def hm_len_def ledger_limits)
qed

lemma allocate_id_total:
  assumes "core_inv l" and "hm_len (dl_pending l) < MAX_PENDING_DECISIONS"
  obtains i where "allocate_id l = Some (i, l\<lparr> dl_next_id := i \<rparr>)" "i \<noteq> 0" "i \<notin> occupied_ids l"
proof -
  have "card (occupied_ids l) + 1 < Suc MAX_RETAINED_DECISION_IDS"
    using occupied_card [OF assms] by simp
  then have "allocate_from (Suc MAX_RETAINED_DECISION_IDS) (occupied_ids l) (dl_next_id l) \<noteq> None"
    by (intro allocate_from_total) (simp_all add: occupied_ids_def ledger_limits)
  then obtain i where i: "allocate_from (Suc MAX_RETAINED_DECISION_IDS) (occupied_ids l) (dl_next_id l) = Some i"
    by blast
  then show ?thesis using that [of i] allocate_from_Some [OF i] unfolding allocate_id_def by simp
qed

lemma propose_total:
  assumes "dl_inv l"
  obtains i m where "m = evict_pending (dp_proposed_cycle p) l"
    and "propose_decision p l = Some (i, m\<lparr> dl_next_id := i, dl_pending := hm_insert i (envelope_of i p) (dl_pending m),
      dl_pending_order := dl_pending_order m @ [i] \<rparr>)"
    and "i \<noteq> 0" and "i \<notin> occupied_ids m"
    and "dl_inv (m\<lparr> dl_next_id := i, dl_pending := hm_insert i (envelope_of i p) (dl_pending m),
      dl_pending_order := dl_pending_order m @ [i] \<rparr>)"
proof -
  define m where "m = evict_pending (dp_proposed_cycle p) l"
  have m: "dl_inv m" "hm_len (dl_pending m) < MAX_PENDING_DECISIONS"
    using evict_keeps [OF assms] by (simp_all add: m_def)
  obtain i where i: "allocate_id m = Some (i, m\<lparr> dl_next_id := i \<rparr>)" "i \<noteq> 0" "i \<notin> occupied_ids m"
    using allocate_id_total [of m] m by (auto simp: dl_inv_def)
  have new: "i \<notin> hm_keys (dl_pending m)" using i(3) by (auto simp: occupied_ids_def hm_keys_def)
  have wf: "hm_wf (dl_pending m)" using m by (simp add: dl_inv_def core_inv_def pending_inv_def)
  let ?n = "m\<lparr> dl_next_id := i, dl_pending := hm_insert i (envelope_of i p) (dl_pending m),
      dl_pending_order := dl_pending_order m @ [i] \<rparr>"
  have "pending_inv ?n"
    using m wf hm.len_insert_le [OF wf, of i "envelope_of i p"]
    by (auto simp: dl_inv_def core_inv_def pending_inv_def envelope_of_def)
  then have "dl_inv ?n"
    using m new by (auto simp: dl_inv_def core_inv_def order_inv_def)
  then show ?thesis
    using that [of m i] i m_def by (simp add: propose_decision_def)
qed

subsection \<open>Events keep the invariant and always return\<close>

lemma put_pending_get [simp]: "hm_get (dl_pending (put_pending i e l)) j = (if j = i then Some e else hm_get (dl_pending l) j)"
  by (simp add: put_pending_def)

lemma link_correlation:
  assumes "dl_inv l" and "i \<in> hm_keys (dl_pending l)"
  shows "dl_inv (l\<lparr> dl_pending_correlations := hm_insert c i (dl_pending_correlations l) \<rparr>)"
  using assms by (auto simp: dl_inv_def core_inv_def pending_inv_def order_inv_def split: if_splits)

lemma unlink_correlation:
  assumes "dl_inv l"
  shows "dl_inv (l\<lparr> dl_pending_correlations := hm_remove c (dl_pending_correlations l) \<rparr>)"
  using assms by (auto simp: dl_inv_def core_inv_def pending_inv_def order_inv_def split: if_splits)

lemma ingest_pending_total:
  assumes "dl_inv l"
  obtains ep l' where "ingest_pending ev l = Some (ep, l')" and "dl_inv l'"
proof -
  obtain i m n where p: "propose_decision (ev_proposal ev) l = Some (i, n)" and n: "dl_inv n"
    and k: "i \<in> hm_keys (dl_pending n)"
    by (rule propose_total [OF assms, of "ev_proposal ev"]) simp
  show ?thesis
  proof (cases "ev_correlation_id ev")
    case (Some c)
    then show ?thesis
      using that p n k link_correlation [OF n k, of c] begin_execution_keeps
      by (simp add: ingest_pending_def)
  next
    case None
    have "dl_inv (snd (settle i (settled_cycle_of ev) (snd (record_execution i r (attribute_pending i a n)))))" for r a
      using n by (simp add: dl_rules)
    then show ?thesis
      using that p None by (simp add: ingest_pending_def) (metis prod.collapse)
  qed
qed

lemma close_event_keeps [dl_rules]: "dl_inv l \<Longrightarrow> dl_inv (snd (close_event i ev l))"
  by (simp add: close_event_def reject_decision_def veto_decision_def dl_rules
    split: actuator_outcome.split option.split)

lemma resolve_id_total:
  assumes "dl_inv l"
  obtains i m where "resolve_id ev l = Some (i, m)" and "dl_inv m"
proof (cases "Option.bind (ev_correlation_id ev) (hm_get (dl_pending_correlations l))")
  case None
  obtain i n where "propose_decision (ev_proposal ev) l = Some (i, n)" "dl_inv n"
    by (rule propose_total [OF assms, of "ev_proposal ev"]) simp
  then show ?thesis using that None by (simp add: resolve_id_def)
next
  case (Some i)
  then show ?thesis using that assms by (simp add: resolve_id_def)
qed

lemma unlink_settled_keeps [dl_rules]: "dl_inv l \<Longrightarrow> dl_inv (unlink_settled ep c l)"
  by (simp add: unlink_settled_def unlink_correlation split: option.split)

lemma finish_event_keeps [dl_rules]:
  assumes "dl_inv l"
  shows "dl_inv (snd (finish_event i ev l))"
  using assms by (simp add: finish_event_def Let_def case_prod_unfold dl_rules)

lemma ingest_event_total:
  assumes "dl_inv l"
  obtains ep l' where "ingest_event ev l = Some (ep, l')" and "dl_inv l'"
proof (cases "ev_outcome ev = AoPending")
  case True
  obtain ep l' where "ingest_pending ev l = Some (ep, l')" "dl_inv l'"
    by (rule ingest_pending_total [OF assms])
  then show ?thesis using True that by (simp add: ingest_event_def)
next
  case False
  obtain i m where r: "resolve_id ev l = Some (i, m)" "dl_inv m" by (rule resolve_id_total [OF assms])
  obtain ep l' where f: "finish_event i ev m = (ep, l')" by fastforce
  then have "dl_inv l'" using finish_event_keeps [OF r(2), of i ev] by simp
  then show ?thesis using False r f that by (simp add: ingest_event_def)
qed

lemma ingest_all_total:
  assumes "dl_inv l"
  shows "\<exists>eps l'. ingest_all evs l = Some (eps, l') \<and> dl_inv l' \<and> length eps \<le> length evs"
  using assms
proof (induction evs arbitrary: l)
  case (Cons ev evs)
  obtain ep m where m: "ingest_event ev l = Some (ep, m)" "dl_inv m"
    by (rule ingest_event_total [OF Cons.prems])
  obtain eps n where "ingest_all evs m = Some (eps, n)" "dl_inv n" "length eps \<le> length evs"
    using Cons.IH [OF m(2)] by blast
  then show ?case using m by (simp split: option.split)
qed simp

subsection \<open>Restored state\<close>

lemma normalize_episodes_keeps:
  assumes "0 < limit"
  shows "length (normalize_episodes limit eps) \<le> limit \<and> list_all episode_ok (normalize_episodes limit eps)"
proof -
  have ok: "episode_ok (normalize_episode ep)" for ep
    by (simp add: normalize_episode_def episode_ok_def Let_def bounded_envelope_def)
  have "length (fold (\<lambda>ep q. push_bounded limit (normalize_episode ep) q) eps q) \<le> limit
      \<and> list_all episode_ok (fold (\<lambda>ep q. push_bounded limit (normalize_episode ep) q) eps q)"
    if "length q \<le> limit" "list_all episode_ok q" for q
    using that by (induction eps arbitrary: q) (simp_all add: push_bounded_length push_bounded_all assms ok)
  then show ?thesis by (simp add: normalize_episodes_def)
qed

lemma sanitised_grants:
  "(case sanitise_attribution a of None \<Rightarrow> False | Some x \<Rightarrow> grants_local_authority x)
   \<longleftrightarrow> (case a of None \<Rightarrow> False | Some x \<Rightarrow> grants_local_authority x)"
proof (cases a)
  case (Some x)
  then show ?thesis
    by (cases x) (simp_all add: sanitise_attribution_def attribution_local_def bounded_text_def MAX_SOURCE_CHARS_def)
qed (simp add: sanitise_attribution_def)

lemma bounded_eligible: "episode_authority_eligible (bounded_envelope i e) = episode_authority_eligible e"
  by (simp add: episode_authority_eligible_def bounded_envelope_def bounded_receipt_def sanitised_grants
    split: option.split)

lemma normalize_eligible:
  assumes "list_all (episode_authority_eligible \<circ> ep_envelope) eps"
  shows "list_all ep_authority_eligible (normalize_episodes limit eps)"
proof -
  have "list_all ep_authority_eligible (fold (\<lambda>ep q. push_bounded limit (normalize_episode ep) q) eps q)"
    if "list_all ep_authority_eligible q" for q
    using that assms
    by (induction eps arbitrary: q)
      (simp_all add: push_bounded_all normalize_episode_def Let_def bounded_eligible)
  then show ?thesis by (simp add: normalize_episodes_def)
qed

lemma restored_pending_keeps:
  assumes "hm_wf pending"
  shows "distinct (map fst (restored_pending order pending))"
    and "length (restored_pending order pending) \<le> MAX_PENDING_DECISIONS"
    and "(i, e) \<in> set (restored_pending order pending) \<Longrightarrow> de_id e = i"
proof -
  have s: "distinct (map fst (select_reconstructed_pending pending))"
    "length (select_reconstructed_pending pending) \<le> MAX_PENDING_DECISIONS"
  proof -
    have "distinct (map fst (sort_key f (sort_key g pending)))" for f :: "_ \<Rightarrow> u64" and g :: "_ \<Rightarrow> u64"
      using assms by (simp add: hm_wf_def distinct_map inj_on_def)
    then show "distinct (map fst (select_reconstructed_pending pending))"
      by (simp add: select_reconstructed_pending_def Let_def drop_map [symmetric])
    show "length (select_reconstructed_pending pending) \<le> MAX_PENDING_DECISIONS"
      by (simp add: select_reconstructed_pending_def Let_def)
  qed
  show "distinct (map fst (restored_pending order pending))"
    using s by (simp add: restored_pending_def pending_order_is_valid_def case_prod_unfold comp_def)
  show "length (restored_pending order pending) \<le> MAX_PENDING_DECISIONS"
    using s by (simp add: restored_pending_def pending_order_is_valid_def)
  show "(i, e) \<in> set (restored_pending order pending) \<Longrightarrow> de_id e = i"
    by (auto simp: restored_pending_def bounded_envelope_def split: if_splits)
qed

lemma normalize_keeps:
  assumes "hm_wf (dl_pending l)" and "hm_wf (dl_pending_correlations l)"
  shows "dl_inv (normalize_restored_state l)"
proof -
  define ps where "ps = restored_pending (dl_pending_order l) (dl_pending l)"
  note r = restored_pending_keeps [OF assms(1), where order = "dl_pending_order l", folded ps_def]
  have get: "hm_get (hm_from_list ps) i = map_of ps i" for i by (rule hm_get_from_list [OF r(1)])
  have keys: "hm_keys (hm_from_list ps) = set (map fst ps)"
    by (intro set_eqI) (simp add: hm.keys_get get map_of_eq_None_iff del: not_None_eq)
  have "hm_len (hm_from_list ps) = length ps"
    using distinct_card [OF r(1)] by (simp add: hm.len_card keys)
  then have "pending_inv (normalize_restored_state l)"
    using r assms
    by (auto simp: normalize_restored_state_def Let_def pending_inv_def get hm.get_retain hm.keys_get
      hm_contains_def dest!: map_of_SomeD split: option.splits if_splits simp flip: ps_def)
  moreover have "archive_inv (normalize_restored_state l)"
    using normalize_episodes_keeps [of MAX_RECENT_DECISIONS "dl_recent l"]
      normalize_episodes_keeps [of MAX_EPISODIC_DECISIONS "filter (episode_authority_eligible \<circ> ep_envelope) (dl_episodic l)"]
      normalize_eligible [of "filter (episode_authority_eligible \<circ> ep_envelope) (dl_episodic l)" MAX_EPISODIC_DECISIONS]
    by (simp add: normalize_restored_state_def Let_def archive_inv_def ledger_limits list_all_iff)
  moreover have "order_inv (normalize_restored_state l)"
    using r(1) by (simp add: normalize_restored_state_def Let_def order_inv_def keys flip: ps_def)
  ultimately show ?thesis by (simp add: dl_inv_def core_inv_def)
qed

subsection \<open>The ledger as a machine\<close>

datatype dl_op =
    DlIngest "decision_event list"
  | DlPropose decision_proposal
  | DlRecord decision_id execution_receipt
  | DlBegin decision_id
  | DlReject decision_id string
  | DlVeto decision_id string
  | DlBlock decision_id string
  | DlSettle decision_id u64
  | DlExpire u64
  | DlSeed u64
  | DlReload

text \<open>\<open>None\<close> is a panic; \<open>DlReload\<close> is a save and a load of the ledger itself.\<close>

fun dl_step :: "dl_op \<Rightarrow> decision_ledger \<Rightarrow> decision_ledger option" where
  "dl_step (DlIngest evs) l = map_option snd (ingest_all evs l)"
| "dl_step (DlPropose p) l = map_option snd (propose_decision p l)"
| "dl_step (DlRecord i r) l = Some (snd (record_execution i r l))"
| "dl_step (DlBegin i) l = Some (snd (begin_execution i l))"
| "dl_step (DlReject i why) l = Some (snd (reject_decision i why l))"
| "dl_step (DlVeto i why) l = Some (snd (veto_decision i why l))"
| "dl_step (DlBlock i why) l = Some (snd (block_decision i why l))"
| "dl_step (DlSettle i c) l = Some (snd (settle i c l))"
| "dl_step (DlExpire c) l = Some (snd (expire_decisions c l))"
| "dl_step (DlSeed n) l = Some (seed_high_water n l)"
| "dl_step DlReload l = Some (normalize_restored_state l)"

definition dl_safe :: "decision_ledger option \<Rightarrow> bool" where
  "dl_safe s \<longleftrightarrow> (case s of None \<Rightarrow> False | Some l \<Rightarrow> dl_inv l)"

lemma dl_step_safe: "dl_safe s \<Longrightarrow> dl_safe (Option.bind s (dl_step op))"
proof -
  assume "dl_safe s"
  then obtain l where s: "s = Some l" and l: "dl_inv l" by (auto simp: dl_safe_def split: option.splits)
  have wf: "hm_wf (dl_pending l)" "hm_wf (dl_pending_correlations l)"
    using l by (simp_all add: dl_inv_def core_inv_def pending_inv_def)
  show ?thesis
  proof (cases op)
    case (DlIngest evs)
    then show ?thesis using ingest_all_total [OF l, of evs] s by (auto simp: dl_safe_def)
  next
    case (DlPropose p)
    show ?thesis by (rule propose_total [OF l, of p]) (simp add: DlPropose s dl_safe_def)
  qed (simp_all add: s l dl_safe_def dl_rules reject_decision_def veto_decision_def block_decision_def
      seed_high_water_def normalize_keeps [OF wf])
qed

interpretation ledger_machine: invariant_machine "\<lambda>op s. Option.bind s (dl_step op)" dl_safe
  by unfold_locales (rule dl_step_safe)

definition dl_run :: "dl_op list \<Rightarrow> decision_ledger option \<Rightarrow> decision_ledger option" where
  "dl_run ops s = fold (\<lambda>op s. Option.bind s (dl_step op)) ops s"

text \<open>
  C30: No sequence of ledger calls panics: allocating an identity always finds one, so every run
  returns a ledger, and that ledger keeps its bounds, its pending queue lists exactly the
  pending decisions, every correlation points at one of them, and only episodes with local
  authority are kept as episodic.
\<close>

theorem ledger_never_panics:
  "\<exists>l. dl_run ops (Some decision_ledger_default) = Some l \<and> dl_inv l"
proof -
  have "dl_safe (dl_run ops (Some decision_ledger_default))"
    unfolding dl_run_def by (rule ledger_machine.run_inv) (simp add: dl_safe_def dl_inv_default)
  then show ?thesis by (auto simp: dl_safe_def split: option.splits)
qed

text \<open>The bounds of every text and list of an envelope, in numbers.\<close>

definition short_source :: "receipt_attribution \<Rightarrow> bool" where
  "short_source a \<longleftrightarrow> (case a of Local source \<Rightarrow> 0 < length source \<and> length source \<le> 48 | Imported \<Rightarrow> True)"

definition texts_bounded :: "decision_envelope \<Rightarrow> bool" where
  "texts_bounded e \<longleftrightarrow> length (de_action_key e) \<le> 320 \<and> length (de_target e) \<le> 256
     \<and> length (de_terminal_reason e) \<le> 160 \<and> pred_option short_source (de_terminal_attribution e)
     \<and> pred_option (\<lambda>r. length (er_detail r) \<le> 160 \<and> pred_option short_source (er_attribution r)) (de_receipt e)
     \<and> length (de_alternatives e) \<le> 8
     \<and> list_all (\<lambda>a. length (ca_action_key a) \<le> 320 \<and> length (ca_target a) \<le> 256) (de_alternatives e)
     \<and> length (de_predictions e) \<le> 8 \<and> list_all (\<lambda>p. length (pn_source p) \<le> 48) (de_predictions e)
     \<and> length (de_adviser_contributions e) \<le> 8
     \<and> list_all (\<lambda>a. length (ad_adviser a) \<le> 48) (de_adviser_contributions e)"

lemma sanitised_short: "pred_option short_source (sanitise_attribution a)"
proof (cases a)
  case (Some x)
  then show ?thesis
    by (cases x) (simp_all add: sanitise_attribution_def attribution_local_def bounded_text_def
        short_source_def MAX_SOURCE_CHARS_def)
qed (simp add: sanitise_attribution_def)

lemma sanitised_source: "sanitise_attribution a = Some x \<Longrightarrow> short_source x"
  using sanitised_short [of a] by simp

lemma bounded_texts: "texts_bounded (bounded_envelope i e)"
  by (auto simp: texts_bounded_def bounded_envelope_def bounded_text_def bounded_receipt_def
      bounded_alternative_def bounded_prediction_def bounded_adviser_def Let_def list_all_iff option.pred_map
      pred_option_def MAX_ACTION_KEY_CHARS_def MAX_TARGET_CHARS_def MAX_REASON_CHARS_def MAX_SOURCE_CHARS_def
      MAX_CANDIDATE_ALTERNATIVES_def MAX_PREDICTIONS_def MAX_ADVISER_CONTRIBUTIONS_def
      dest!: in_set_takeD dest: sanitised_source)

lemma normalize_texts: "list_all (texts_bounded \<circ> ep_envelope) (normalize_episodes limit eps)"
proof -
  have "list_all (texts_bounded \<circ> ep_envelope) (fold (\<lambda>ep q. push_bounded limit (normalize_episode ep) q) eps q)"
    if "list_all (texts_bounded \<circ> ep_envelope) q" for q
    using that by (induction eps arbitrary: q)
      (simp_all add: push_bounded_all normalize_episode_def Let_def bounded_texts)
  then show ?thesis by (simp add: normalize_episodes_def)
qed

lemma restored_entry:
  assumes "hm_wf pending" and "hm_get (hm_from_list (restored_pending order pending)) i = Some e"
  shows "\<exists>e0. hm_get pending i = Some e0 \<and> e = bounded_envelope i e0"
proof -
  have "(i, e) \<in> set (restored_pending order pending)"
    using assms(2) hm_get_from_list [OF restored_pending_keeps(1) [OF assms(1)]]
    by (auto dest: map_of_SomeD)
  then show ?thesis
    using hm_in_set_get [OF assms(1)]
    by (auto simp: restored_pending_def select_reconstructed_pending_def Let_def pending_order_is_valid_def
        list_all_iff hm_contains_def split: if_splits dest!: in_set_dropD)
qed

lemma valid_order:
  assumes "hm_wf pending" and "distinct order" and "set order = hm_keys pending" and "length order \<le> 192"
  shows "pending_order_is_valid order pending"
  using assms distinct_card [OF assms(2)]
  by (auto simp: pending_order_is_valid_def hm.len_card list_all_iff hm_contains_def hm.keys_get ledger_limits)

text \<open>
  C35: Whatever a file holds, as long as its maps are maps, the restored ledger is within its
  bounds and consistent: its queue lists exactly its pending decisions, every identity is
  rewritten from its key, and authority is computed again from the receipts. Every text and
  every list of every pending decision and episode is within its bound. Each pending decision
  is one the file held, with the file's lifecycle, expiry and cycle and its action key and
  target cut to the bound, and a queue that already lists exactly the pending decisions is
  kept as it is.
\<close>

theorem restored_ledger_consistent:
  assumes "hm_wf (dl_pending l)" and "hm_wf (dl_pending_correlations l)" and "r = normalize_restored_state l"
  shows "dl_inv r \<and> list_all (texts_bounded \<circ> ep_envelope) (dl_recent r @ dl_episodic r)
    \<and> (\<forall>i e. hm_get (dl_pending r) i = Some e \<longrightarrow> texts_bounded e
        \<and> (\<exists>e0. hm_get (dl_pending l) i = Some e0 \<and> de_lifecycle e = de_lifecycle e0
            \<and> de_expires_cycle e = de_expires_cycle e0 \<and> de_proposed_cycle e = de_proposed_cycle e0
            \<and> de_action_key e = take 320 (de_action_key e0) \<and> de_target e = take 256 (de_target e0)))
    \<and> (distinct (dl_pending_order l) \<and> set (dl_pending_order l) = hm_keys (dl_pending l)
        \<and> length (dl_pending_order l) \<le> 192 \<longrightarrow>
        dl_pending_order r = dl_pending_order l \<and> hm_keys (dl_pending r) = hm_keys (dl_pending l))"
proof (intro conjI allI impI)
  show inv: "dl_inv r" unfolding assms(3) by (rule normalize_keeps [OF assms(1,2)])
  show "list_all (texts_bounded \<circ> ep_envelope) (dl_recent r @ dl_episodic r)"
    by (simp add: assms(3) normalize_restored_state_def Let_def normalize_texts)
  show order: "dl_pending_order r = dl_pending_order l"
    if "distinct (dl_pending_order l) \<and> set (dl_pending_order l) = hm_keys (dl_pending l)
        \<and> length (dl_pending_order l) \<le> 192"
    using that valid_order [OF assms(1)]
    by (simp add: assms(3) normalize_restored_state_def Let_def restored_pending_def comp_def)
  show "hm_keys (dl_pending r) = hm_keys (dl_pending l)"
    if "distinct (dl_pending_order l) \<and> set (dl_pending_order l) = hm_keys (dl_pending l)
        \<and> length (dl_pending_order l) \<le> 192"
    using inv order [OF that] that by (auto simp: dl_inv_def order_inv_def)
next
  fix i e
  assume "hm_get (dl_pending r) i = Some e"
  then obtain e0 where e: "hm_get (dl_pending l) i = Some e0" "e = bounded_envelope i e0"
    using restored_entry [OF assms(1)] by (simp add: assms(3) normalize_restored_state_def Let_def) blast
  show "texts_bounded e" unfolding e(2) by (rule bounded_texts)
  show "\<exists>e0. hm_get (dl_pending l) i = Some e0 \<and> de_lifecycle e = de_lifecycle e0
      \<and> de_expires_cycle e = de_expires_cycle e0 \<and> de_proposed_cycle e = de_proposed_cycle e0
      \<and> de_action_key e = take 320 (de_action_key e0) \<and> de_target e = take 256 (de_target e0)"
    using e by (simp add: bounded_envelope_def bounded_text_def MAX_ACTION_KEY_CHARS_def MAX_TARGET_CHARS_def)
qed

subsection \<open>What an event resolves to\<close>

fun closed_lifecycle :: "actuator_outcome \<Rightarrow> decision_lifecycle" where
  "closed_lifecycle AoApplied = LcApplied"
| "closed_lifecycle AoBlocked = LcBlocked"
| "closed_lifecycle AoFailed = LcFailed"
| "closed_lifecycle AoNoOp = LcNoOp"
| "closed_lifecycle AoReverted = LcReverted"
| "closed_lifecycle AoRejected = LcRejected"
| "closed_lifecycle AoVetoed = LcVetoed"
| "closed_lifecycle AoExpired = LcExpired"
| "closed_lifecycle AoPending = LcProposed"

definition closed_envelope :: "decision_id \<Rightarrow> decision_event \<Rightarrow> decision_envelope \<Rightarrow> decision_envelope" where
  "closed_envelope i ev e =
     (case disposition_of (ev_outcome ev) of
        Some d \<Rightarrow> e\<lparr> de_lifecycle := lifecycle_of d,
                    de_receipt := Some (bounded_receipt (receipt_of i d (ev_detail ev) ev)) \<rparr>
      | None \<Rightarrow> e\<lparr> de_lifecycle := closed_lifecycle (ev_outcome ev),
                   de_terminal_reason := bounded_text (ev_detail ev) MAX_REASON_CHARS \<rparr>)"

lemma closed_envelope_lifecycle:
  "ev_outcome ev \<noteq> AoPending \<Longrightarrow> de_lifecycle (closed_envelope i ev e) = closed_lifecycle (ev_outcome ev)"
  "ev_outcome ev \<noteq> AoPending \<Longrightarrow> is_terminal (closed_lifecycle (ev_outcome ev))"
  "de_exploration (closed_envelope i ev e) = de_exploration e"
  "de_id (closed_envelope i ev e) = de_id e"
  by (cases "ev_outcome ev"; simp add: closed_envelope_def is_terminal_def)+

lemma close_event_open:
  assumes "hm_get (dl_pending l) i = Some e" and "\<not> is_terminal (de_lifecycle e)" and "de_receipt e = None"
    and "ev_outcome ev \<noteq> AoPending"
  shows "fst (close_event i ev l)"
    and "hm_get (dl_pending (snd (close_event i ev l))) i = Some (closed_envelope i ev e)"
  using assms
  by (cases "ev_outcome ev"; simp add: close_event_def record_execution_def reject_decision_def
    veto_decision_def close_without_execution_def closed_envelope_def Let_def put_pending_def
    bounded_receipt_def receipt_of_def)+

lemma settle_terminal:
  assumes "hm_get (dl_pending l) i = Some e" and "is_terminal (de_lifecycle e)"
  shows "fst (settle i c l) = Some \<lparr> ep_id = de_id e, ep_lifecycle = LcSettled, ep_settled_cycle = c,
      ep_authority_eligible = episode_authority_eligible e, ep_envelope = e \<rparr>"
    and "dl_pending (snd (settle i c l)) = hm_remove i (dl_pending l)"
    and "hm_get (dl_pending_correlations (snd (settle i c l))) k \<noteq> Some i \<or> \<not> hm_wf (dl_pending_correlations l)"
  using assms by (auto simp: settle_def Let_def case_prod_unfold archive_episode drop_correlations_def
    remove_pending_def hm.get_retain split: option.splits if_splits)

lemma finish_event_open:
  assumes "hm_get (dl_pending l) i = Some e" and "\<not> is_terminal (de_lifecycle e)" and "de_receipt e = None"
    and "ev_outcome ev \<noteq> AoPending" and "de_id e = i"
  obtains E l' where "finish_event i ev l = (Some \<lparr> ep_id = i, ep_lifecycle = LcSettled,
      ep_settled_cycle = settled_cycle_of ev, ep_authority_eligible = episode_authority_eligible E,
      ep_envelope = E \<rparr>, l')"
    and "E = closed_envelope i ev ((merge_exploration (dp_exploration (ev_proposal ev)) e)
      \<lparr> de_terminal_attribution := Some (bounded_attribution (ev_attribution ev)) \<rparr>)"
    and "i \<notin> hm_keys (dl_pending l')"
proof -
  define e1 where "e1 = (merge_exploration (dp_exploration (ev_proposal ev)) e)
    \<lparr> de_terminal_attribution := Some (bounded_attribution (ev_attribution ev)) \<rparr>"
  have e1: "de_lifecycle e1 = de_lifecycle e" "de_receipt e1 = None" "de_id e1 = i"
    using assms by (simp_all add: e1_def merge_exploration_def split: option.split)
  define a where "a = attribute_pending i (ev_attribution ev) (merge_pending i (dp_exploration (ev_proposal ev)) l)"
  have a: "hm_get (dl_pending a) i = Some e1"
    using assms(1) by (simp add: a_def attribute_pending_def merge_pending_def e1_def)
  note c = close_event_open [OF a _ e1(2) assms(4)]
  define E where "E = closed_envelope i ev e1"
  define m where "m = snd (close_event i ev a)"
  have m: "fst (close_event i ev a)" "hm_get (dl_pending m) i = Some E"
    using c assms(2) e1 by (simp_all add: m_def E_def)
  have t: "is_terminal (de_lifecycle E)" "de_id E = i"
    using closed_envelope_lifecycle(1,2) [OF assms(4)] closed_envelope_lifecycle(4) e1 by (simp_all add: E_def)
  note st = settle_terminal [OF m(2) t(1), of "settled_cycle_of ev"]
  have keys: "dl_pending (unlink_settled ep k x) = dl_pending x" for ep k x
    by (simp add: unlink_settled_def split: option.split)
  show ?thesis
  proof (rule that)
    show "finish_event i ev l = (Some \<lparr> ep_id = i, ep_lifecycle = LcSettled,
        ep_settled_cycle = settled_cycle_of ev, ep_authority_eligible = episode_authority_eligible E,
        ep_envelope = E \<rparr>, snd (finish_event i ev l))"
      using m st(1) t by (simp add: finish_event_def Let_def case_prod_unfold prod_eq_iff flip: a_def m_def)
    show "E = closed_envelope i ev ((merge_exploration (dp_exploration (ev_proposal ev)) e)
      \<lparr> de_terminal_attribution := Some (bounded_attribution (ev_attribution ev)) \<rparr>)"
      by (simp add: E_def e1_def)
    show "i \<notin> hm_keys (dl_pending (snd (finish_event i ev l)))"
      using m st(2) by (simp add: finish_event_def Let_def case_prod_unfold keys flip: a_def m_def)
  qed
qed

lemma finish_unlinks:
  assumes "fst (finish_event i ev l) = Some ep" and "ev_correlation_id ev = Some c"
  shows "pending_for_correlation c (snd (finish_event i ev l)) = None"
  using assms by (simp add: finish_event_def Let_def case_prod_unfold unlink_settled_def
    pending_for_correlation_def)

lemma merge_own:
  "merge_exploration (dp_exploration p) (envelope_of i p) = envelope_of i p"
  by (auto simp: merge_exploration_def envelope_of_def split: option.split)

lemma closed_eligible:
  assumes "ev_outcome ev \<noteq> AoPending" and "de_receipt e = None"
  shows "episode_authority_eligible (closed_envelope i ev e) \<longleftrightarrow>
    ev_outcome ev = AoApplied \<and> grants_local_authority (ev_attribution ev)
      \<and> pred_option clean_treatment (de_exploration e)"
  using assms sanitised_grants [of "Some (ev_attribution ev)"]
  by (cases "ev_outcome ev"; cases "de_exploration e")
    (auto simp: episode_authority_eligible_def closed_envelope_def bounded_receipt_def receipt_of_def
      split: option.split)

text \<open>
  A terminal event with no correlation becomes exactly one episode: under a fresh non-zero
  identity, with the lifecycle its outcome names, and with authority exactly when it was
  applied, attributed to a named local source, and its exploration, if any, was a clean
  treatment; nothing of it stays pending.
\<close>

theorem event_resolves:
  assumes "dl_inv l" and "ev_outcome ev \<noteq> AoPending" and "ev_correlation_id ev = None"
  shows "\<exists>ep l'. ingest_event ev l = Some (Some ep, l') \<and> ep_id ep \<noteq> 0
    \<and> ep_id ep \<notin> hm_keys (dl_pending l') \<and> de_id (ep_envelope ep) = ep_id ep
    \<and> ep_settled_cycle ep = settled_cycle_of ev
    \<and> de_lifecycle (ep_envelope ep) = closed_lifecycle (ev_outcome ev)
    \<and> (ep_authority_eligible ep \<longleftrightarrow> ev_outcome ev = AoApplied \<and> grants_local_authority (ev_attribution ev)
         \<and> pred_option clean_treatment (dp_exploration (ev_proposal ev)))"
proof -
  let ?p = "ev_proposal ev"
  obtain i m n where p: "propose_decision ?p l = Some (i, n)" "i \<noteq> 0"
    and n: "hm_get (dl_pending n) i = Some (envelope_of i ?p)"
    by (rule propose_total [OF assms(1), of ?p]) simp
  obtain E l' where f: "finish_event i ev n = (Some \<lparr> ep_id = i, ep_lifecycle = LcSettled,
      ep_settled_cycle = settled_cycle_of ev, ep_authority_eligible = episode_authority_eligible E,
      ep_envelope = E \<rparr>, l')"
    and E: "E = closed_envelope i ev ((envelope_of i ?p)
      \<lparr> de_terminal_attribution := Some (bounded_attribution (ev_attribution ev)) \<rparr>)"
    and k: "i \<notin> hm_keys (dl_pending l')"
    by (rule finish_event_open [OF n _ _ assms(2)])
      (simp_all add: envelope_of_def is_terminal_def merge_own [unfolded envelope_of_def])
  have "episode_authority_eligible E \<longleftrightarrow> ev_outcome ev = AoApplied \<and> grants_local_authority (ev_attribution ev)
      \<and> pred_option clean_treatment (dp_exploration ?p)"
    unfolding E by (subst closed_eligible [OF assms(2)]) (simp_all add: envelope_of_def)
  moreover have "de_lifecycle E = closed_lifecycle (ev_outcome ev)" "de_id E = i"
    unfolding E by (simp_all add: closed_envelope_lifecycle assms(2) envelope_of_def)
  moreover have "ingest_event ev l = Some (finish_event i ev n)"
    using assms(2,3) p by (simp add: ingest_event_def resolve_id_def)
  ultimately show ?thesis using f k p(2) by auto
qed

subsection \<open>Between an announcement and its terminal event\<close>

text \<open>
  A decision that waits: the correlation finds it and no other correlation does, it is still
  executing with the action key, target and expiry it was announced with, and at most \<open>n\<close>
  entries, itself included, stand in the queue from it on.
\<close>

definition waits_as :: "decision_envelope \<Rightarrow> decision_envelope \<Rightarrow> bool" where
  "waits_as x e \<longleftrightarrow> de_lifecycle e = LcExecuting \<and> de_receipt e = None
     \<and> de_action_key e = de_action_key x \<and> de_target e = de_target x
     \<and> de_expires_cycle e = de_expires_cycle x"

definition behind :: "decision_id \<Rightarrow> decision_id list \<Rightarrow> nat" where
  "behind i order = length (dropWhile (\<lambda>j. j \<noteq> i) order)"

definition waiting :: "u64 \<Rightarrow> decision_id \<Rightarrow> decision_envelope \<Rightarrow> nat \<Rightarrow> decision_ledger \<Rightarrow> bool" where
  "waiting c i x n l \<longleftrightarrow> (\<forall>d. hm_get (dl_pending_correlations l) d = Some i \<longleftrightarrow> d = c)
     \<and> pred_option (waits_as x) (hm_get (dl_pending l) i) \<and> hm_contains (dl_pending l) i
     \<and> behind i (dl_pending_order l) \<le> n"

lemma waiting_cong:
  "dl_pending l' = dl_pending l \<Longrightarrow> dl_pending_correlations l' = dl_pending_correlations l \<Longrightarrow>
   dl_pending_order l' = dl_pending_order l \<Longrightarrow> waiting c i x n l' = waiting c i x n l"
  by (simp add: waiting_def)

lemma waiting_counters [simp]:
  "waiting c i x n (l\<lparr> dl_duplicate_receipts_total := k \<rparr>) = waiting c i x n l"
  "waiting c i x n (l\<lparr> dl_unattributed_applied_total := k \<rparr>) = waiting c i x n l"
  "waiting c i x n (l\<lparr> dl_next_id := k \<rparr>) = waiting c i x n l"
  "waiting c i x n (snd (archive e k l)) = waiting c i x n l"
  "waiting c i x n (archive_expired reason k e l) = waiting c i x n l"
  by (simp_all add: waiting_def)

lemma waiting_put [simp]: "j \<noteq> i \<Longrightarrow> waiting c i x n (put_pending j e l) = waiting c i x n l"
  by (simp add: waiting_def put_pending_def hm_contains_def)

lemma behind_append: "i \<in> set is \<Longrightarrow> behind i (is @ [j]) = Suc (behind i is)"
  by (induction "is") (auto simp: behind_def)

lemma behind_new: "i \<notin> set is \<Longrightarrow> behind i (is @ [i]) = 1"
  by (induction "is") (auto simp: behind_def)

lemma behind_remove1: "j \<noteq> i \<Longrightarrow> behind i (remove1 j is) \<le> behind i is"
proof (induction "is")
  case (Cons a "is")
  have "length (remove1 j is) \<le> length is" by (simp add: length_remove1)
  then show ?case using Cons by (auto simp: behind_def)
qed (simp add: behind_def)

lemma waiting_order: "waiting c i x n l \<Longrightarrow> dl_inv l \<Longrightarrow> i \<in> set (dl_pending_order l)"
  by (simp add: waiting_def dl_inv_def order_inv_def hm.keys_get hm_contains_def)

lemma retain_get:
  "hm_wf m \<Longrightarrow> hm_get (hm_retain P m) d = Some i \<longleftrightarrow> hm_get m d = Some i \<and> P d i"
  by (auto simp: hm.get_retain split: option.splits)

lemma waiting_remove:
  assumes "waiting c i x n l" and "j \<noteq> i" and "hm_wf (dl_pending_correlations l)"
  shows "waiting c i x n (drop_correlations j (remove_pending j l))"
  using assms by (auto simp: waiting_def hm_contains_def drop_correlations_def remove_pending_def retain_get)

lemma waiting_reorder:
  "waiting c i x n l \<Longrightarrow> behind i order \<le> m \<Longrightarrow> waiting c i x m (l\<lparr> dl_pending_order := order \<rparr>)"
  by (simp add: waiting_def)

lemma correlations_wf: "dl_inv l \<Longrightarrow> hm_wf (dl_pending_correlations l)"
  by (simp add: dl_inv_def core_inv_def pending_inv_def)

named_theorems waits \<open>operations that leave a waiting decision of another correlation alone\<close>

lemma waiting_settle [waits]:
  assumes "waiting c i x n l" and "j \<noteq> i" and "dl_inv l"
  shows "waiting c i x n (snd (settle j k l))"
proof -
  have "waiting c i x n ((drop_correlations j (remove_pending j l))\<lparr> dl_pending_order :=
      remove1 j (dl_pending_order l) \<rparr>)"
    using assms waiting_remove [OF assms(1,2) correlations_wf [OF assms(3)]]
      behind_remove1 [OF assms(2), of "dl_pending_order l"]
    by (intro waiting_reorder [where n = n]) (auto simp: waiting_def)
  then have "waiting c i x n (drop_correlations j ((remove_pending j l)\<lparr> dl_pending_order :=
      remove1 j (dl_pending_order l) \<rparr>))"
    by (subst (asm) waiting_cong [symmetric]) (simp_all add: drop_correlations_def)
  then show ?thesis
    using assms(1) by (simp add: settle_def Let_def case_prod_unfold split: option.split)
qed

lemma waiting_record [waits]:
  "waiting c i x n l \<Longrightarrow> j \<noteq> i \<Longrightarrow> waiting c i x n (snd (record_execution j r l))"
  by (simp add: record_execution_def Let_def split: option.split)

lemma waiting_others [waits]:
  assumes "waiting c i x n l" and "j \<noteq> i"
  shows "waiting c i x n (snd (begin_execution j l))"
    and "waiting c i x n (snd (close_without_execution j lc why l))"
    and "waiting c i x n (attribute_pending j a l)"
    and "waiting c i x n (merge_pending j t l)"
  using assms by (simp_all add: begin_execution_def close_without_execution_def attribute_pending_def
    merge_pending_def split: option.split)

lemma waiting_close [waits]:
  "waiting c i x n l \<Longrightarrow> j \<noteq> i \<Longrightarrow> waiting c i x n (snd (close_event j ev l))"
  by (simp add: close_event_def reject_decision_def veto_decision_def waits
    split: actuator_outcome.split option.split)

lemma waiting_unlink [waits]:
  "waiting c i x n l \<Longrightarrow> d \<noteq> Some c \<Longrightarrow> waiting c i x n (unlink_settled ep d l)"
  by (auto simp: unlink_settled_def waiting_def split: option.split)

lemma waiting_finish [waits]:
  assumes "waiting c i x n l" and "j \<noteq> i" and "ev_correlation_id ev \<noteq> Some c" and "dl_inv l"
  shows "waiting c i x n (snd (finish_event j ev l))"
  using assms by (simp add: finish_event_def Let_def case_prod_unfold waits dl_rules)

lemma waiting_evict:
  assumes "waiting c i x n l" and "dl_inv l" and "n < MAX_PENDING_DECISIONS"
  shows "waiting c i x n (evict_pending k l)"
proof (cases "hm_len (dl_pending l) \<ge> MAX_PENDING_DECISIONS \<and> dl_pending_order l \<noteq> []")
  case False
  then show ?thesis using assms(1) by (auto simp: evict_pending_def split: list.split)
next
  case True
  then obtain j rest where o: "dl_pending_order l = j # rest" by (cases "dl_pending_order l") auto
  have wf: "hm_wf (dl_pending l)" using assms(2) by (simp add: dl_inv_def core_inv_def pending_inv_def)
  have "hm_len (dl_pending l) = length (dl_pending_order l)"
    using assms(2) distinct_card [of "dl_pending_order l"]
    by (simp add: dl_inv_def order_inv_def hm.len_card [OF wf])
  then have "j \<noteq> i" using True assms(1,3) o by (auto simp: waiting_def behind_def)
  moreover from this have "behind i rest = behind i (dl_pending_order l)" by (simp add: o behind_def)
  ultimately have "waiting c i x n (drop_correlations j (remove_pending j (l\<lparr> dl_pending_order := rest \<rparr>)))"
    using assms(1,2) by (intro waiting_remove waiting_reorder [where n = n])
      (auto simp: waiting_def correlations_wf)
  moreover have "waiting c i x n (l\<lparr> dl_pending_order := rest \<rparr>)"
    using assms(1) \<open>behind i rest = _\<close> by (simp add: waiting_def)
  ultimately show ?thesis using True by (simp add: evict_pending_def o Let_def split: option.split)
qed

lemma waiting_propose:
  assumes "waiting c i x n l" and "dl_inv l" and "n < MAX_PENDING_DECISIONS"
    and "propose_decision p l = Some (j, l')"
  shows "j \<noteq> i \<and> waiting c i x (Suc n) l' \<and> dl_inv l'"
proof -
  obtain k m where m: "m = evict_pending (dp_proposed_cycle p) l"
    and p: "propose_decision p l = Some (k, m\<lparr> dl_next_id := k, dl_pending := hm_insert k (envelope_of k p) (dl_pending m),
      dl_pending_order := dl_pending_order m @ [k] \<rparr>)"
    and k: "k \<notin> occupied_ids m"
    and inv: "dl_inv (m\<lparr> dl_next_id := k, dl_pending := hm_insert k (envelope_of k p) (dl_pending m),
      dl_pending_order := dl_pending_order m @ [k] \<rparr>)"
    by (rule propose_total [OF assms(2), of p]) blast
  have w: "waiting c i x n m" using waiting_evict [OF assms(1-3)] m by simp
  have "i \<in> hm_keys (dl_pending m)" using w by (simp add: waiting_def hm.keys_get hm_contains_def)
  then have "k \<noteq> i" using k by (auto simp: occupied_ids_def hm_keys_def)
  moreover have "i \<in> set (dl_pending_order m)"
    using waiting_order [OF w] evict_keeps [OF assms(2)] m by simp
  ultimately show ?thesis
    using w p assms(4) inv by (auto simp: waiting_def hm_contains_def behind_append)
qed

lemma waiting_ingest:
  assumes "waiting c i x n l" and "dl_inv l" and "n < MAX_PENDING_DECISIONS"
    and "ev_correlation_id ev \<noteq> Some c" and "ingest_event ev l = Some (ep, l')"
  shows "waiting c i x (Suc n) l' \<and> dl_inv l'"
proof -
  have inv: "dl_inv l'" using ingest_event_total [OF assms(2), of ev] assms(5) by (metis option.inject prod.inject)
  have suc: "waiting c i x n m \<Longrightarrow> waiting c i x (Suc n) m" for m by (simp add: waiting_def)
  show ?thesis
  proof (cases "ev_outcome ev = AoPending")
    case True
    then obtain j m where p: "propose_decision (ev_proposal ev) l = Some (j, m)"
      using assms(5) by (auto simp: ingest_event_def ingest_pending_def split: option.splits)
    note w = waiting_propose [OF assms(1-3) p]
    have "waiting c i x (Suc n) (m\<lparr> dl_pending_correlations := hm_insert d j (dl_pending_correlations m) \<rparr>)"
      if "d \<noteq> c" for d
      using w that by (auto simp: waiting_def)
    moreover have "l' = snd (settle j (settled_cycle_of ev) (snd (record_execution j r (attribute_pending j a m))))"
      if "ev_correlation_id ev = None" "r = receipt_of j EdFailed ''pending event missing correlation'' ev"
        "a = ev_attribution ev" for r a
      using True assms(5) p that by (auto simp: ingest_event_def ingest_pending_def)
    ultimately show ?thesis
      using True assms(4,5) p w inv
      by (cases "ev_correlation_id ev") (auto simp: ingest_event_def ingest_pending_def dl_rules waits)
  next
    case False
    then obtain j m where r: "resolve_id ev l = Some (j, m)" "l' = snd (finish_event j ev m)"
      using assms(5) by (auto simp: ingest_event_def split: option.splits)
    have "j \<noteq> i \<and> waiting c i x (Suc n) m \<and> dl_inv m"
    proof (cases "Option.bind (ev_correlation_id ev) (hm_get (dl_pending_correlations l))")
      case None
      then show ?thesis using r(1) waiting_propose [OF assms(1-3)] by (simp add: resolve_id_def)
    next
      case (Some k)
      then have "k \<noteq> i" using assms(1,4) by (auto simp: waiting_def bind_eq_Some_conv)
      then show ?thesis using Some r(1) assms(1,2) suc by (auto simp: resolve_id_def)
    qed
    then show ?thesis using inv r(2) assms(4) by (simp add: waits)
  qed
qed

lemma waiting_ingest_all:
  assumes "waiting c i x n l" and "dl_inv l" and "n + length evs \<le> MAX_PENDING_DECISIONS"
    and "\<forall>ev \<in> set evs. ev_correlation_id ev \<noteq> Some c" and "ingest_all evs l = Some (eps, l')"
  shows "waiting c i x (n + length evs) l' \<and> dl_inv l'"
  using assms
proof (induction evs arbitrary: l n eps)
  case (Cons ev evs)
  obtain ep m where m: "ingest_event ev l = Some (ep, m)"
    using Cons.prems(5) by (auto split: option.splits)
  obtain eps' where "ingest_all evs m = Some (eps', l')"
    using Cons.prems(5) m by (auto split: option.splits)
  moreover have "waiting c i x (Suc n) m" "dl_inv m"
    using waiting_ingest [OF Cons.prems(1,2) _ _ m] Cons.prems(3,4) by auto
  ultimately show ?case using Cons.IH [of "Suc n" m eps'] Cons.prems(3,4) by simp
qed simp

lemma waiting_expire_scan:
  assumes "waiting c i x n l" and "core_inv l" and "distinct is" and "set is \<subseteq> hm_keys (dl_pending l)"
    and "de_expires_cycle x = 0 \<or> k < de_expires_cycle x" and "expire_scan k is l = (kept, t, l')"
  shows "waiting c i x n l' \<and> behind i kept \<le> behind i is"
  using assms
proof (induction "is" arbitrary: l kept t)
  case Nil
  then show ?case by simp
next
  case (Cons j "is")
  obtain e where e: "hm_get (dl_pending l) j = Some e"
    using Cons.prems(4) by (auto simp: hm.keys_get)
  show ?case
  proof (cases "due_at k e")
    case True
    then have "j \<noteq> i" using Cons.prems(1,5) e by (auto simp: waiting_def waits_as_def due_at_def)
    let ?m = "archive_expired ''expired'' k e (drop_correlations j (remove_pending j l))"
    obtain t' where r: "expire_scan k is ?m = (kept, t', l')"
      using Cons.prems(6) e True by (auto simp: case_prod_unfold Let_def prod_eq_iff)
    have "waiting c i x n ?m"
      using waiting_remove [OF Cons.prems(1) \<open>j \<noteq> i\<close>] Cons.prems(2) by (simp add: core_inv_def pending_inv_def)
    moreover have "set is \<subseteq> hm_keys (dl_pending ?m)" using Cons.prems(3,4) by auto
    ultimately show ?thesis
      using Cons.IH [OF _ core_archive_expired [OF Cons.prems(2)] _ _ Cons.prems(5) r] Cons.prems(3) \<open>j \<noteq> i\<close>
      by (simp add: behind_def)
  next
    case False
    obtain k' t' where r: "expire_scan k is l = (k', t', l')" "kept = j # k'"
      using Cons.prems(6) e False by (auto simp: case_prod_unfold Let_def prod_eq_iff)
    have s: "set is \<subseteq> hm_keys (dl_pending l)" "distinct is" using Cons.prems(3,4) by simp_all
    have "length k' \<le> length is" using expire_scan_keeps [OF Cons.prems(2) s(2,1) r(1)] by simp
    then show ?thesis
      using Cons.IH [OF Cons.prems(1,2) s(2,1) Cons.prems(5) r(1)] r(2) by (simp add: behind_def)
  qed
qed

lemma waiting_expire:
  assumes "waiting c i x n l" and "dl_inv l" and "de_expires_cycle x = 0 \<or> k < de_expires_cycle x"
  shows "waiting c i x n (snd (expire_decisions k l))"
proof -
  obtain kept t l' where r: "expire_scan k (dl_pending_order l) l = (kept, t, l')" by (metis prod_cases3)
  have "waiting c i x n l' \<and> behind i kept \<le> behind i (dl_pending_order l)"
    using assms by (intro waiting_expire_scan [OF _ _ _ _ _ r]) (simp_all add: dl_inv_def order_inv_def)
  moreover have "behind i (dl_pending_order l) \<le> n" using assms(1) by (simp add: waiting_def)
  ultimately show ?thesis
    using waiting_reorder [of c i x n l' kept n] by (simp add: expire_decisions_def r)
qed

definition short_names :: "decision_envelope \<Rightarrow> bool" where
  "short_names e \<longleftrightarrow> length (de_action_key e) \<le> MAX_ACTION_KEY_CHARS \<and> length (de_target e) \<le> MAX_TARGET_CHARS"

lemma waiting_reload:
  assumes "waiting c i x n l" and "dl_inv l" and "0 < c" and "short_names x"
  shows "waiting c i x n (normalize_restored_state l)"
proof -
  have inv: "distinct (dl_pending_order l)" "set (dl_pending_order l) = hm_keys (dl_pending l)"
    "hm_wf (dl_pending l)" "hm_len (dl_pending l) \<le> MAX_PENDING_DECISIONS"
    using assms(2) by (simp_all add: dl_inv_def core_inv_def pending_inv_def order_inv_def)
  have valid: "pending_order_is_valid (dl_pending_order l) (dl_pending l)"
    using inv distinct_card [OF inv(1)]
    by (auto simp: pending_order_is_valid_def hm.len_card list_all_iff hm_contains_def hm.keys_get)
  define ps where "ps = restored_pending (dl_pending_order l) (dl_pending l)"
  have ps: "ps = map (\<lambda>j. (j, bounded_envelope j (the (hm_get (dl_pending l) j)))) (dl_pending_order l)"
    using valid by (simp add: ps_def restored_pending_def)
  have fst_ps: "map fst ps = dl_pending_order l" by (simp add: ps comp_def)
  have get: "hm_get (hm_from_list ps) j = map_option (bounded_envelope j) (hm_get (dl_pending l) j)" for j
  proof -
    have "hm_get (hm_from_list ps) j = map_of ps j" using inv(1) fst_ps by (simp add: hm_get_from_list)
    also have "\<dots> = (if j \<in> hm_keys (dl_pending l)
        then Some (bounded_envelope j (the (hm_get (dl_pending l) j))) else None)"
      unfolding ps by (simp add: map_of_map_keys map_of_map_restrict restrict_map_def inv(2))
    finally show ?thesis by (auto simp: hm.keys_get)
  qed
  obtain e where e: "hm_get (dl_pending l) i = Some e" "waits_as x e"
    using assms(1) by (auto simp: waiting_def hm_contains_def)
  have x: "de_action_key x = bounded_text (de_action_key x) MAX_ACTION_KEY_CHARS"
    "de_target x = bounded_text (de_target x) MAX_TARGET_CHARS"
    using assms(4) by (simp_all add: short_names_def bounded_text_def)
  have "waits_as x (bounded_envelope i e)"
    using e(2) x by (simp add: waits_as_def bounded_envelope_def)
  moreover have "hm_get (hm_retain (\<lambda>d j. d > 0 \<and> hm_contains (hm_from_list ps) j)
      (dl_pending_correlations l)) d = Some i \<longleftrightarrow> d = c" for d
    using assms(1,3) e(1) by (auto simp: waiting_def hm_contains_def get retain_get correlations_wf [OF assms(2)])
  ultimately show ?thesis
    using assms(1) e(1)
    by (simp add: waiting_def normalize_restored_state_def Let_def get hm_contains_def fst_ps flip: ps_def)
qed

text \<open>
  The calls that are not about decision \<open>i\<close> of correlation \<open>c\<close>: events of other correlations
  or of none, calls on other identities, expiry at a cycle before the decision's own, and a
  save and a load. \<open>proposals\<close> bounds the decisions a call can add.
\<close>

fun other_call :: "u64 \<Rightarrow> decision_id \<Rightarrow> u64 \<Rightarrow> dl_op \<Rightarrow> bool" where
  "other_call c i expires (DlIngest evs) = list_all (\<lambda>ev. ev_correlation_id ev \<noteq> Some c) evs"
| "other_call c i expires (DlRecord j r) = (j \<noteq> i)"
| "other_call c i expires (DlBegin j) = (j \<noteq> i)"
| "other_call c i expires (DlReject j why) = (j \<noteq> i)"
| "other_call c i expires (DlVeto j why) = (j \<noteq> i)"
| "other_call c i expires (DlBlock j why) = (j \<noteq> i)"
| "other_call c i expires (DlSettle j k) = (j \<noteq> i)"
| "other_call c i expires (DlExpire k) = (expires = 0 \<or> k < expires)"
| "other_call c i expires _ = True"

fun proposals :: "dl_op \<Rightarrow> nat" where
  "proposals (DlIngest evs) = length evs"
| "proposals (DlPropose p) = 1"
| "proposals _ = 0"

lemma waiting_step:
  assumes "waiting c i x n l" and "dl_inv l" and "0 < c" and "short_names x"
    and "n + proposals op \<le> MAX_PENDING_DECISIONS" and "other_call c i (de_expires_cycle x) op"
    and "dl_step op l = Some l'"
  shows "waiting c i x (n + proposals op) l'"
  using assms
  by (cases op) (auto simp: waits waiting_expire waiting_reload seed_high_water_def list_all_iff
      reject_decision_def veto_decision_def block_decision_def dest: waiting_ingest_all waiting_propose)

lemma waiting_run:
  assumes "waiting c i x n l" and "dl_inv l" and "0 < c" and "short_names x"
    and "n + (\<Sum>op\<leftarrow>ops. proposals op) \<le> MAX_PENDING_DECISIONS"
    and "list_all (other_call c i (de_expires_cycle x)) ops"
  shows "\<exists>l' m. dl_run ops (Some l) = Some l' \<and> waiting c i x m l' \<and> dl_inv l'"
  using assms
proof (induction ops arbitrary: l n)
  case Nil
  then show ?case by (auto simp: dl_run_def)
next
  case (Cons op ops)
  obtain m where m: "dl_step op l = Some m" "dl_inv m"
    using dl_step_safe [of "Some l" op] Cons.prems(2) by (auto simp: dl_safe_def split: option.splits)
  have "waiting c i x (n + proposals op) m"
    using waiting_step [OF Cons.prems(1-4) _ _ m(1)] Cons.prems(5,6) by simp
  from Cons.IH [OF this m(2) Cons.prems(3,4)] show ?case
    using Cons.prems(5,6) m(1) by (auto simp: dl_run_def)
qed

lemma waits_finish:
  assumes "hm_get (dl_pending l) i = Some e" and "waits_as x e" and "ev_outcome ev \<noteq> AoPending"
    and "de_id e = i" and "ev_correlation_id ev = Some c"
  obtains ep l' where "finish_event i ev l = (Some ep, l')" and "ep_id ep = i"
    and "de_lifecycle (ep_envelope ep) = closed_lifecycle (ev_outcome ev)"
    and "de_action_key (ep_envelope ep) = de_action_key x" and "de_target (ep_envelope ep) = de_target x"
    and "ep_settled_cycle ep = settled_cycle_of ev" and "pending_for_correlation c l' = None"
    and "i \<notin> hm_keys (dl_pending l')"
proof -
  have e: "\<not> is_terminal (de_lifecycle e)" "de_receipt e = None"
    using assms(2) by (simp_all add: waits_as_def is_terminal_def)
  obtain E l' where f: "finish_event i ev l = (Some \<lparr> ep_id = i, ep_lifecycle = LcSettled,
      ep_settled_cycle = settled_cycle_of ev, ep_authority_eligible = episode_authority_eligible E,
      ep_envelope = E \<rparr>, l')" "i \<notin> hm_keys (dl_pending l')"
    and E: "E = closed_envelope i ev ((merge_exploration (dp_exploration (ev_proposal ev)) e)
      \<lparr> de_terminal_attribution := Some (bounded_attribution (ev_attribution ev)) \<rparr>)"
    by (rule finish_event_open [OF assms(1) e assms(3,4)])
  have "de_action_key (closed_envelope i ev e') = de_action_key e'" "de_target (closed_envelope i ev e') = de_target e'"
    "de_action_key (merge_exploration t e') = de_action_key e'" "de_target (merge_exploration t e') = de_target e'"
    for t e'
    by (simp_all add: closed_envelope_def merge_exploration_def split: option.split)
  then have "de_lifecycle E = closed_lifecycle (ev_outcome ev)" "de_action_key E = de_action_key x"
    "de_target E = de_target x"
    unfolding E using assms(2) by (simp_all add: closed_envelope_lifecycle assms(3) waits_as_def)
  moreover have "pending_for_correlation c l' = None"
    using finish_unlinks [of i ev l _ c] f assms(5) by simp
  ultimately show ?thesis using that f by simp
qed

lemma announced_waits:
  assumes "dl_inv l" and "ev_outcome ev = AoPending" and "ev_correlation_id ev = Some c"
  obtains i l1 where "ingest_event ev l = Some (None, l1)" and "i \<noteq> 0"
    and "waiting c i (envelope_of i (ev_proposal ev)) 1 l1" and "dl_inv l1"
proof -
  let ?p = "ev_proposal ev"
  obtain i m where m: "m = evict_pending (dp_proposed_cycle ?p) l"
    and p: "propose_decision ?p l = Some (i, m\<lparr> dl_next_id := i, dl_pending := hm_insert i (envelope_of i ?p) (dl_pending m),
      dl_pending_order := dl_pending_order m @ [i] \<rparr>)"
    and i: "i \<noteq> 0" "i \<notin> occupied_ids m"
    and inv: "dl_inv (m\<lparr> dl_next_id := i, dl_pending := hm_insert i (envelope_of i ?p) (dl_pending m),
      dl_pending_order := dl_pending_order m @ [i] \<rparr>)" (is "dl_inv ?n")
    by (rule propose_total [OF assms(1), of ?p]) blast
  define n where "n = ?n"
  define l1 where "l1 = snd (begin_execution i
    (n\<lparr> dl_pending_correlations := hm_insert c i (dl_pending_correlations n) \<rparr>))"
  have i1: "ingest_event ev l = Some (None, l1)"
    using assms(2,3) p by (simp add: ingest_event_def ingest_pending_def l1_def n_def)
  have new: "i \<notin> hm_keys (dl_pending m)" using i(2) by (auto simp: occupied_ids_def hm_keys_def)
  have minv: "dl_inv m" using evict_keeps [OF assms(1)] m by simp
  have corr: "hm_get (dl_pending_correlations m) d \<noteq> Some i" for d
    using minv new by (auto simp: dl_inv_def core_inv_def pending_inv_def)
  have "i \<notin> set (dl_pending_order m)" using minv new by (simp add: dl_inv_def order_inv_def)
  then have "behind i (dl_pending_order m @ [i]) = 1" by (rule behind_new)
  then have "waiting c i (envelope_of i ?p) 1 l1"
    using corr by (simp add: l1_def n_def begin_execution_def waiting_def put_pending_def envelope_of_def
      hm_contains_def waits_as_def)
  moreover have "dl_inv l1"
    unfolding l1_def using inv by (intro begin_execution_keeps link_correlation) (simp_all add: n_def)
  ultimately show ?thesis using that i1 i(1) by blast
qed

text \<open>
  C36: A decision announced as pending under a correlation keeps its identity until the
  terminal event of that correlation. The announcement settles nothing. Whatever calls follow -
  events of other correlations or of none, calls on other identities, expiry at cycles before
  the decision's own, saves and loads - as long as they add at most 191 decisions, so that the
  full queue cannot push it out, none panics and the correlation still finds the decision. The
  terminal event then settles that decision, with its action key and target and the lifecycle
  of its outcome; nothing of it stays pending and the correlation is free again.
\<close>

theorem correlated_decision_roundtrip:
  assumes "dl_inv l" and "ev_outcome ev = AoPending" and "ev_correlation_id ev = Some c" and "0 < c"
    and "ev_outcome tv \<noteq> AoPending" and "ev_correlation_id tv = Some c"
  shows "\<exists>i l1. ingest_event ev l = Some (None, l1) \<and> pending_for_correlation c l1 = Some i \<and> i \<noteq> 0
    \<and> (\<forall>ops. list_all (other_call c i (dp_expires_cycle (ev_proposal ev))) ops
          \<and> (\<Sum>op\<leftarrow>ops. proposals op) \<le> 191 \<longrightarrow>
        (\<exists>l2 ep l3. dl_run ops (Some l1) = Some l2 \<and> pending_for_correlation c l2 = Some i
          \<and> ingest_event tv l2 = Some (Some ep, l3) \<and> ep_id ep = i
          \<and> de_lifecycle (ep_envelope ep) = closed_lifecycle (ev_outcome tv)
          \<and> de_action_key (ep_envelope ep) = bounded_text (dp_action_key (ev_proposal ev)) MAX_ACTION_KEY_CHARS
          \<and> de_target (ep_envelope ep) = bounded_text (dp_target (ev_proposal ev)) MAX_TARGET_CHARS
          \<and> ep_settled_cycle ep = settled_cycle_of tv
          \<and> pending_for_correlation c l3 = None \<and> i \<notin> hm_keys (dl_pending l3)))"
proof -
  obtain i l1 where a: "ingest_event ev l = Some (None, l1)" "i \<noteq> 0"
    and w: "waiting c i (envelope_of i (ev_proposal ev)) 1 l1" "dl_inv l1"
    by (rule announced_waits [OF assms(1-3)])
  let ?x = "envelope_of i (ev_proposal ev)"
  have x: "short_names ?x" by (simp add: short_names_def envelope_of_def bounded_text_def)
  have "\<exists>l2 ep l3. dl_run ops (Some l1) = Some l2 \<and> pending_for_correlation c l2 = Some i
      \<and> ingest_event tv l2 = Some (Some ep, l3) \<and> ep_id ep = i
      \<and> de_lifecycle (ep_envelope ep) = closed_lifecycle (ev_outcome tv)
      \<and> de_action_key (ep_envelope ep) = de_action_key ?x \<and> de_target (ep_envelope ep) = de_target ?x
      \<and> ep_settled_cycle ep = settled_cycle_of tv
      \<and> pending_for_correlation c l3 = None \<and> i \<notin> hm_keys (dl_pending l3)"
    if ops: "list_all (other_call c i (dp_expires_cycle (ev_proposal ev))) ops"
      "(\<Sum>op\<leftarrow>ops. proposals op) \<le> 191" for ops
  proof -
    have "de_expires_cycle ?x = dp_expires_cycle (ev_proposal ev)" by (simp add: envelope_of_def)
    then obtain l2 m where r: "dl_run ops (Some l1) = Some l2" "waiting c i ?x m l2" "dl_inv l2"
      using waiting_run [OF w assms(4) x, of ops] ops by (simp add: ledger_limits) blast
    obtain e where e: "hm_get (dl_pending l2) i = Some e" "waits_as ?x e"
      using r(2) by (auto simp: waiting_def hm_contains_def)
    have p: "pending_for_correlation c l2 = Some i"
      using r(2) by (simp add: pending_for_correlation_def waiting_def)
    then have "ingest_event tv l2 = Some (finish_event i tv l2)"
      using assms(5,6) by (simp add: ingest_event_def resolve_id_def pending_for_correlation_def)
    then show ?thesis
      using r(1) p waits_finish [OF e assms(5) pending_id [OF r(3) e(1)] assms(6)] by metis
  qed
  moreover have "pending_for_correlation c l1 = Some i"
    using w(1) by (simp add: pending_for_correlation_def waiting_def)
  ultimately show ?thesis using a by (auto simp: envelope_of_def)
qed

subsection \<open>Concrete runs\<close>

definition demo_event :: "actuator_outcome \<Rightarrow> decision_event" where
  "demo_event out = event_local ''boost:Editor'' ''pid 42'' 7 out ''broker'' ''done''"

lemma demo_event_simps [simp]:
  "ev_outcome (demo_event out) = out" "ev_correlation_id (demo_event out) = None"
  by (simp_all add: demo_event_def event_local_def event_with_def)

text \<open>
  The witness: a forged file whose queue names a decision that does not exist and whose one
  pending decision carries another identity and a target of 300 characters.
\<close>

definition forged_ledger :: decision_ledger where
  "forged_ledger = decision_ledger_default\<lparr> dl_pending :=
     [(3, (envelope_of 9 proposal_default)\<lparr> de_target := replicate 300 (CHR ''x'') \<rparr>)],
     dl_pending_order := [5, 5] \<rparr>"

theorem restored_ledger_consistent_witness:
  "dl_inv (normalize_restored_state forged_ledger)
   \<and> (\<exists>e. hm_get (dl_pending (normalize_restored_state forged_ledger)) 3 = Some e \<and> length (de_target e) = 256)"
proof -
  have wf: "hm_wf (dl_pending forged_ledger)" "hm_wf (dl_pending_correlations forged_ledger)"
    by (simp_all add: forged_ledger_def decision_ledger_default_def hm_wf_def)
  have old: "hm_get (dl_pending forged_ledger) 3 =
      Some ((envelope_of 9 proposal_default)\<lparr> de_target := replicate 300 (CHR ''x'') \<rparr>)"
    by (simp add: forged_ledger_def hm_get_def)
  have "hm_contains (dl_pending (normalize_restored_state forged_ledger)) 3"
    by (simp add: normalize_restored_state_def Let_def forged_ledger_def restored_pending_def
        pending_order_is_valid_def hm_len_def select_reconstructed_pending_def MAX_PENDING_DECISIONS_def
        hm_from_list_def hm_contains_def)
  then obtain e where "hm_get (dl_pending (normalize_restored_state forged_ledger)) 3 = Some e"
    by (auto simp: hm_contains_def)
  with restored_ledger_consistent [OF wf refl] old show ?thesis by fastforce
qed

theorem event_resolves_witness:
  "\<exists>ep l'. ingest_event (demo_event AoApplied) decision_ledger_default = Some (Some ep, l')
     \<and> ep_authority_eligible ep \<and> ep_id ep \<noteq> 0"
proof -
  have "grants_local_authority (ev_attribution (demo_event AoApplied))"
    "dp_exploration (ev_proposal (demo_event AoApplied)) = None"
    by (simp_all add: demo_event_def event_local_def event_with_def attribution_local_def
      bounded_text_def MAX_SOURCE_CHARS_def proposal_default_def)
  then show ?thesis using event_resolves [OF dl_inv_default, of "demo_event AoApplied"] by auto
qed

text \<open>
  The witness: between the announcement and the terminal event, another decision is announced
  under correlation 6, resolved, a third is settled at once, the ledger expires what is due at
  cycle 100 and is saved and loaded.
\<close>

definition demo_calls :: "dl_op list" where
  "demo_calls = [DlIngest [with_correlation 6 (demo_event AoPending), with_correlation 6 (demo_event AoApplied),
     demo_event AoFailed], DlExpire 100, DlReload]"

theorem correlated_decision_roundtrip_witness:
  "\<exists>i l1 l2 ep l3. ingest_event (with_correlation 5 (demo_event AoPending)) decision_ledger_default = Some (None, l1)
     \<and> pending_for_correlation 5 l1 = Some i \<and> dl_run demo_calls (Some l1) = Some l2
     \<and> pending_for_correlation 5 l2 = Some i
     \<and> ingest_event (with_correlation 5 (demo_event AoReverted)) l2 = Some (Some ep, l3) \<and> ep_id ep = i
     \<and> de_lifecycle (ep_envelope ep) = LcReverted"
proof -
  have ev: "ev_outcome (with_correlation c (demo_event out)) = out"
    "ev_correlation_id (with_correlation c (demo_event out)) = (if c > 0 then Some c else None)"
    "dp_expires_cycle (ev_proposal (with_correlation c (demo_event out))) = 0" for c out
    by (simp_all add: with_correlation_def demo_event_def event_local_def event_with_def proposal_default_def)
  have "list_all (other_call 5 i 0) demo_calls" "(\<Sum>op\<leftarrow>demo_calls. proposals op) \<le> 191" for i
    by (simp_all add: demo_calls_def ev)
  then show ?thesis
    using correlated_decision_roundtrip [OF dl_inv_default, of "with_correlation 5 (demo_event AoPending)" 5
      "with_correlation 5 (demo_event AoReverted)"] by (auto simp: ev) blast
qed

end
