(* ===== verification/Action_Keys.thy ===== *)
theory Action_Keys
  imports Exploration_Types
begin

text \<open>
  \<open>engine/microexperiment_actions.rs\<close>: the canonical identity of an action, and the parser of
  the \<open>family:class[@variant]\<close> keys that the laboratory, the actuators and the ledger share.
\<close>

definition LEGACY_MARKOV_KEY :: string where "LEGACY_MARKOV_KEY = ''markov:cache-only''"
definition MAX_KEY_BYTES :: nat where "MAX_KEY_BYTES = 96"

datatype action_variant = VNone | VShort | VStandard | VLong

fun variant_as_str :: "action_variant \<Rightarrow> string" where
  "variant_as_str VNone = ''''"
| "variant_as_str VShort = ''short''"
| "variant_as_str VStandard = ''standard''"
| "variant_as_str VLong = ''long''"

record canonical_action =
  ca_family :: actuator_family
  ca_action_class :: action_class
  ca_variant :: action_variant

datatype action_key_error = Malformed | UnknownFamily | UnknownClass | UnknownVariant | LegacyRetired

definition canonical_action_key :: "actuator_family \<Rightarrow> action_class \<Rightarrow> arm \<Rightarrow> string option" where
  "canonical_action_key f c a =
     (if f = AF_InteractionQos \<and> c = InteractionForeground \<and> a = InteractionQosShort
      then Some ''interaction_qos:foreground@short''
      else if f = AF_InteractionQos \<and> c = InteractionForeground \<and> a = InteractionQosStandard
      then Some ''interaction_qos:foreground@standard''
      else if f = AF_InteractionQos \<and> c = InteractionForeground \<and> a = InteractionQosLong
      then Some ''interaction_qos:foreground@long''
      else if f = AF_MarkovPrewarm \<and> c = MarkovPredictedApp \<and> a = MarkovCacheOnly
      then Some ''markov_prewarm:predicted_app''
      else None)"

definition family_horizon_cycles :: "actuator_family \<Rightarrow> u32 option" where
  "family_horizon_cycles f =
     (if f = AF_InteractionQos then Some 30 else if f = AF_MarkovPrewarm then Some 120 else None)"

text \<open>Rust's \<open>split_once\<close>: the text before and after the first separator.\<close>

definition split_once :: "char \<Rightarrow> string \<Rightarrow> (string \<times> string) option" where
  "split_once c s =
     (case dropWhile (\<lambda>x. x \<noteq> c) s of
        [] \<Rightarrow> None
      | _ # rest \<Rightarrow> Some (takeWhile (\<lambda>x. x \<noteq> c) s, rest))"

definition parse_family :: "string \<Rightarrow> action_key_error + actuator_family" where
  "parse_family s =
     (if s = ''interaction_qos'' then Inr AF_InteractionQos
      else if s = ''markov_prewarm'' then Inr AF_MarkovPrewarm else Inl UnknownFamily)"

definition parse_class :: "actuator_family \<Rightarrow> string \<Rightarrow> action_key_error + action_class" where
  "parse_class f s =
     (if f = AF_InteractionQos \<and> s = ''foreground'' then Inr InteractionForeground
      else if f = AF_MarkovPrewarm \<and> s = ''predicted_app'' then Inr MarkovPredictedApp
      else Inl UnknownClass)"

definition parse_variant :: "actuator_family \<Rightarrow> string option \<Rightarrow> action_key_error + action_variant" where
  "parse_variant f v =
     (case v of
        None \<Rightarrow> Inr VNone
      | Some s \<Rightarrow>
          if f = AF_InteractionQos \<and> s = ''short'' then Inr VShort
          else if f = AF_InteractionQos \<and> s = ''standard'' then Inr VStandard
          else if f = AF_InteractionQos \<and> s = ''long'' then Inr VLong
          else Inl UnknownVariant)"

definition split_key :: "string \<Rightarrow> (string \<times> string \<times> string option) option" where
  "split_key key =
     (case split_once (CHR '':'') key of
        None \<Rightarrow> None
      | Some (fam, remainder) \<Rightarrow>
          if fam = [] \<or> remainder = [] then None
          else (case split_once (CHR ''@'') remainder of
            Some (cls, v) \<Rightarrow> if cls = [] then None else Some (fam, cls, Some v)
          | None \<Rightarrow> Some (fam, remainder, None)))"

definition parse_action_key :: "string \<Rightarrow> action_key_error + canonical_action" where
  "parse_action_key key =
     (if key = LEGACY_MARKOV_KEY then Inl LegacyRetired
      else if key = [] \<or> length key > MAX_KEY_BYTES then Inl Malformed
      else case split_key key of
        None \<Rightarrow> Inl Malformed
      | Some (fam, cls, v) \<Rightarrow>
          (case parse_family fam of
             Inl e \<Rightarrow> Inl e
           | Inr f \<Rightarrow>
               (case parse_class f cls of
                  Inl e \<Rightarrow> Inl e
                | Inr c \<Rightarrow>
                    (case parse_variant f v of
                       Inl e \<Rightarrow> Inl e
                     | Inr w \<Rightarrow> Inr \<lparr> ca_family = f, ca_action_class = c, ca_variant = w \<rparr>))))"

definition canonical_arm :: "canonical_action \<Rightarrow> arm option" where
  "canonical_arm a =
     (if ca_family a = AF_InteractionQos \<and> ca_action_class a = InteractionForeground then
        (case ca_variant a of
           VShort \<Rightarrow> Some InteractionQosShort
         | VStandard \<Rightarrow> Some InteractionQosStandard
         | VLong \<Rightarrow> Some InteractionQosLong
         | VNone \<Rightarrow> None)
      else if ca_family a = AF_MarkovPrewarm \<and> ca_action_class a = MarkovPredictedApp
        \<and> ca_variant a = VNone then Some MarkovCacheOnly
      else None)"

definition action_matches :: "canonical_action \<Rightarrow> canonical_action \<Rightarrow> bool" where
  "action_matches a b \<longleftrightarrow> a = b"

subsection \<open>Keys and identities\<close>

lemma split_once_Some:
  "split_once c s = Some (a, b) \<longleftrightarrow> s = a @ c # b \<and> c \<notin> set a"
proof
  assume l: "split_once c s = Some (a, b)"
  then obtain x where d: "dropWhile (\<lambda>x. x \<noteq> c) s = x # b" and a: "a = takeWhile (\<lambda>x. x \<noteq> c) s"
    by (auto simp: split_once_def split: list.splits)
  have x: "x = c" using hd_dropWhile [of "\<lambda>x. x \<noteq> c" s] by (simp add: d)
  have "s = a @ c # b" using takeWhile_dropWhile_id [of "\<lambda>x. x \<noteq> c" s] unfolding d a x by (rule sym)
  moreover have "c \<notin> set a" using set_takeWhileD [of c "\<lambda>x. x \<noteq> c" s] unfolding a by blast
  ultimately show "s = a @ c # b \<and> c \<notin> set a" by blast
next
  assume r: "s = a @ c # b \<and> c \<notin> set a"
  then have "\<And>x. x \<in> set a \<Longrightarrow> x \<noteq> c" by auto
  then have "dropWhile (\<lambda>x. x \<noteq> c) s = c # b" "takeWhile (\<lambda>x. x \<noteq> c) s = a"
    using r by (simp_all add: dropWhile_append2 takeWhile_append2)
  then show "split_once c s = Some (a, b)" by (simp add: split_once_def)
qed

lemma split_once_None: "split_once c s = None \<longleftrightarrow> c \<notin> set s"
proof -
  have "split_once c s = None \<longleftrightarrow> dropWhile (\<lambda>x. x \<noteq> c) s = []"
    by (cases "dropWhile (\<lambda>x. x \<noteq> c) s") (simp_all add: split_once_def del: dropWhile_eq_Nil_conv)
  then show ?thesis unfolding dropWhile_eq_Nil_conv by blast
qed

lemma split_key_text:
  "split_key k = Some (f, c, v) \<Longrightarrow>
   k = f @ CHR '':'' # c @ (case v of None \<Rightarrow> [] | Some x \<Rightarrow> CHR ''@'' # x)"
  by (auto simp: split_key_def split_once_Some split_once_None split: option.splits if_splits)

lemma canonical_keys_parse:
  "parse_action_key ''interaction_qos:foreground@short'' =
     Inr \<lparr> ca_family = AF_InteractionQos, ca_action_class = InteractionForeground, ca_variant = VShort \<rparr>"
  "parse_action_key ''interaction_qos:foreground@standard'' =
     Inr \<lparr> ca_family = AF_InteractionQos, ca_action_class = InteractionForeground, ca_variant = VStandard \<rparr>"
  "parse_action_key ''interaction_qos:foreground@long'' =
     Inr \<lparr> ca_family = AF_InteractionQos, ca_action_class = InteractionForeground, ca_variant = VLong \<rparr>"
  "parse_action_key ''markov_prewarm:predicted_app'' =
     Inr \<lparr> ca_family = AF_MarkovPrewarm, ca_action_class = MarkovPredictedApp, ca_variant = VNone \<rparr>"
  by code_simp+

lemma canonical_keys_arm:
  "canonical_arm \<lparr> ca_family = AF_InteractionQos, ca_action_class = InteractionForeground, ca_variant = VShort \<rparr> =
     Some InteractionQosShort"
  "canonical_arm \<lparr> ca_family = AF_InteractionQos, ca_action_class = InteractionForeground, ca_variant = VStandard \<rparr> =
     Some InteractionQosStandard"
  "canonical_arm \<lparr> ca_family = AF_InteractionQos, ca_action_class = InteractionForeground, ca_variant = VLong \<rparr> =
     Some InteractionQosLong"
  "canonical_arm \<lparr> ca_family = AF_MarkovPrewarm, ca_action_class = MarkovPredictedApp, ca_variant = VNone \<rparr> =
     Some MarkovCacheOnly"
  by (simp_all add: canonical_arm_def)

text \<open>
  The action keys and the identities they name are one to one: a key is the canonical key
  of an action exactly when parsing it gives an identity of that family and class that stands
  for that arm. No other text, no prefix and no variant of a parent key parses to it.
\<close>

theorem action_key_roundtrip:
  "canonical_action_key f c a = Some k \<longleftrightarrow>
     (\<exists>x. parse_action_key k = Inr x \<and> canonical_arm x = Some a \<and> ca_family x = f \<and> ca_action_class x = c)"
proof
  assume "canonical_action_key f c a = Some k"
  then show "\<exists>x. parse_action_key k = Inr x \<and> canonical_arm x = Some a \<and> ca_family x = f \<and> ca_action_class x = c"
    by (auto simp: canonical_action_key_def canonical_keys_parse canonical_keys_arm split: if_splits)
next
  assume "\<exists>x. parse_action_key k = Inr x \<and> canonical_arm x = Some a \<and> ca_family x = f \<and> ca_action_class x = c"
  then obtain x where x: "parse_action_key k = Inr x" "canonical_arm x = Some a" "ca_family x = f"
    "ca_action_class x = c" by blast
  then obtain fs cs v where s: "split_key k = Some (fs, cs, v)"
    by (auto simp: parse_action_key_def split: if_splits option.splits)
  with x show "canonical_action_key f c a = Some k"
    using split_key_text [OF s]
    by (auto simp: parse_action_key_def parse_family_def parse_class_def parse_variant_def canonical_arm_def
      canonical_action_key_def split: if_splits option.splits)
qed

end
