(* ===== verification/Lab_Endpoints.thy ===== *)
theory Lab_Endpoints
  imports Decision_Types Action_Keys Microexperiment_Lab
begin

text \<open>
  \<open>engine/microexperiment_endpoints.rs\<close>: the adapter between resolved decisions and the
  laboratory. It remembers the arms the laboratory asked to observe, binds a resolved episode to
  one of them, and turns the measured utility of that decision into the timed endpoint of the
  pair. The two process-wide atomics are a state of their own.
\<close>

definition MAX_OUTSTANDING_ARMS :: nat where "MAX_OUTSTANDING_ARMS = MAX_OPEN_PAIRS * 2"
definition MAX_BOUND_DECISIONS :: nat where "MAX_BOUND_DECISIONS = MAX_OPEN_PAIRS * 2"
definition MAX_READY_ENDPOINTS :: nat where "MAX_READY_ENDPOINTS = MAX_OPEN_PAIRS * 2"
definition MAX_CONSUMED_DEDUP :: nat where "MAX_CONSUMED_DEDUP = 128"
definition BOUND_TTL_CYCLES :: u64 where "BOUND_TTL_CYCLES = 512"
definition OBSERVATION_LIVENESS_CYCLES :: u64 where "OBSERVATION_LIVENESS_CYCLES = 8"

lemmas adapter_limits = MAX_OUTSTANDING_ARMS_def MAX_BOUND_DECISIONS_def MAX_READY_ENDPOINTS_def
  MAX_CONSUMED_DEDUP_def MAX_OPEN_PAIRS_def

datatype endpoint_reject =
    ErActionKeyMismatch | ErRoutineUnclaimed | ErInvalidExperimental | ErDuplicate | ErExpired
  | ErEpoch | ErAuthority | ErIncompleteMetadata | ErCapacity

record adapter_counters =
  ac_registered_arms :: u64
  ac_observed_episodes :: u64
  ac_episodes_skipped_idle :: u64
  ac_uncatalogued_episodes :: u64
  ac_bound_decisions :: u64
  ac_emitted_endpoints :: u64
  ac_pending_utility :: u64
  ac_rejected_action_mismatch :: u64
  ac_routine_unclaimed :: u64
  ac_invalid_experimental :: u64
  ac_rejected_duplicate :: u64
  ac_rejected_expired :: u64
  ac_rejected_epoch :: u64
  ac_rejected_authority :: u64
  ac_rejected_incomplete_metadata :: u64
  ac_dropped_capacity :: u64
  ac_expired_arms :: u64
  ac_rollback_observed :: u64
  ac_rollback_failed :: u64

definition counters_default :: adapter_counters where
  "counters_default = \<lparr> ac_registered_arms = 0, ac_observed_episodes = 0, ac_episodes_skipped_idle = 0,
     ac_uncatalogued_episodes = 0, ac_bound_decisions = 0, ac_emitted_endpoints = 0,
     ac_pending_utility = 0, ac_rejected_action_mismatch = 0, ac_routine_unclaimed = 0,
     ac_invalid_experimental = 0, ac_rejected_duplicate = 0, ac_rejected_expired = 0,
     ac_rejected_epoch = 0, ac_rejected_authority = 0, ac_rejected_incomplete_metadata = 0,
     ac_dropped_capacity = 0, ac_expired_arms = 0, ac_rollback_observed = 0, ac_rollback_failed = 0 \<rparr>"

record arm_binding =
  nb_decision_id :: u64
  nb_family :: actuator_family
  nb_horizon_cycles :: u32

record utility_sample =
  us_decision_id :: u64
  us_utility_micros :: i64
  us_resolved_cycle :: u64
  us_confounded :: bool

record outstanding_arm =
  oa_pair_id :: pair_id
  oa_arm :: arm_kind
  oa_observe_only :: bool
  oa_canonical :: canonical_action
  oa_action_key :: string
  oa_family :: actuator_family
  oa_action_class :: action_class
  oa_context :: exploration_context
  oa_stratum_hash :: u64
  oa_horizon_cycles :: u32
  oa_issued_cycle :: u64
  oa_complete_not_before_cycle :: u64
  oa_expires_after_cycle :: u64

record bound_decision =
  bd_arm :: outstanding_arm
  bd_decision_id :: u64
  bd_settled_cycle :: u64
  bd_execution :: execution_closure
  bd_rollback :: rollback_closure
  bd_bound_cycle :: u64

record adapter =
  ad_origin :: origin
  ad_epoch :: u64
  ad_outstanding :: "outstanding_arm list"
  ad_bound :: "bound_decision list"
  ad_ready :: "timed_pair_endpoint list"
  ad_new_bindings :: "arm_binding list"
  ad_consumed :: "u64 list"
  ad_last_episode_cycle :: "u64 option"
  ad_counters :: adapter_counters

definition adapter_new :: "origin \<Rightarrow> u64 \<Rightarrow> adapter" where
  "adapter_new og e = \<lparr> ad_origin = og, ad_epoch = e, ad_outstanding = [], ad_bound = [], ad_ready = [],
     ad_new_bindings = [], ad_consumed = [], ad_last_episode_cycle = None,
     ad_counters = counters_default \<rparr>"

definition on_counters :: "(adapter_counters \<Rightarrow> adapter_counters) \<Rightarrow> adapter \<Rightarrow> adapter" where
  "on_counters f s = s\<lparr> ad_counters := f (ad_counters s) \<rparr>"

subsection \<open>The contract with the laboratory\<close>

definition observation_path_live :: "u64 \<Rightarrow> adapter \<Rightarrow> bool" where
  "observation_path_live cycle s =
     (case ad_last_episode_cycle s of
        None \<Rightarrow> False
      | Some seen \<Rightarrow> cycle \<ge> seen \<and> sat_sub cycle seen \<le> OBSERVATION_LIVENESS_CYCLES)"

definition contract_ready :: "u64 \<Rightarrow> u64 \<Rightarrow> adapter \<Rightarrow> bool" where
  "contract_ready cycle daemon_epoch s \<longleftrightarrow>
     origin_is_known (ad_origin s) \<and> ad_epoch s = daemon_epoch \<and> observation_path_live cycle s"

definition arm_of_directive :: "canonical_action \<Rightarrow> pair_directive \<Rightarrow> outstanding_arm" where
  "arm_of_directive x d =
     \<lparr> oa_pair_id = pd_pair_id d, oa_arm = pd_arm d, oa_observe_only = pd_observe_only d,
       oa_canonical = x, oa_action_key = pd_action_key d, oa_family = pd_family d,
       oa_action_class = pd_action_class d, oa_context = pd_context d,
       oa_stratum_hash = pd_stratum_hash d,
       oa_horizon_cycles = ucast (min (sat_sub (pd_complete_not_before_cycle d) (pd_issued_cycle d)) 0xFFFFFFFF),
       oa_issued_cycle = pd_issued_cycle d,
       oa_complete_not_before_cycle = pd_complete_not_before_cycle d,
       oa_expires_after_cycle = pd_expires_after_cycle d \<rparr>"

definition same_arm :: "pair_directive \<Rightarrow> outstanding_arm \<Rightarrow> bool" where
  "same_arm d a \<longleftrightarrow> oa_pair_id a = pd_pair_id d \<and> oa_arm a = pd_arm d \<and> oa_issued_cycle a = pd_issued_cycle d"

definition count_mismatch :: "adapter \<Rightarrow> adapter" where
  "count_mismatch = on_counters (\<lambda>c. c\<lparr> ac_rejected_action_mismatch := sat_add (ac_rejected_action_mismatch c) 1 \<rparr>)"

definition register_directive :: "u64 \<Rightarrow> pair_directive \<Rightarrow> adapter \<Rightarrow> adapter" where
  "register_directive cycle d s =
     (if pd_issued_cycle d > cycle
      then on_counters (\<lambda>c. c\<lparr> ac_rejected_epoch := sat_add (ac_rejected_epoch c) 1 \<rparr>) s
      else case parse_action_key (pd_action_key d) of
        Inl _ \<Rightarrow> count_mismatch s
      | Inr x \<Rightarrow>
          if ca_family x \<noteq> pd_family d \<or> ca_action_class x \<noteq> pd_action_class d then count_mismatch s
          else if list_ex (same_arm d) (ad_outstanding s) then s
          else if length (ad_outstanding s) \<ge> MAX_OUTSTANDING_ARMS
          then on_counters (\<lambda>c. c\<lparr> ac_dropped_capacity := sat_add (ac_dropped_capacity c) 1 \<rparr>) s
          else on_counters (\<lambda>c. c\<lparr> ac_registered_arms := sat_add (ac_registered_arms c) 1 \<rparr>)
            (s\<lparr> ad_outstanding := ad_outstanding s @ [arm_of_directive x d] \<rparr>))"

definition register_directives :: "pair_directive list \<Rightarrow> u64 \<Rightarrow> adapter \<Rightarrow> adapter" where
  "register_directives ds cycle s = fold (register_directive cycle) ds s"

definition outstanding_control_actions :: "adapter \<Rightarrow> canonical_action list" where
  "outstanding_control_actions s =
     fold (\<lambda>a actions. if oa_observe_only a then actions
             else if oa_arm a = ArmControl \<and> oa_canonical a \<notin> set actions
             then actions @ [oa_canonical a] else actions) (ad_outstanding s) []"

definition forget_pair :: "pair_id \<Rightarrow> adapter \<Rightarrow> adapter" where
  "forget_pair i s =
     (let dropped = map bd_decision_id (filter (\<lambda>b. oa_pair_id (bd_arm b) = i) (ad_bound s)) in
      s\<lparr> ad_outstanding := filter (\<lambda>a. oa_pair_id a \<noteq> i) (ad_outstanding s),
         ad_bound := filter (\<lambda>b. oa_pair_id (bd_arm b) \<noteq> i) (ad_bound s),
         ad_ready := filter (\<lambda>r. te_pair_id r \<noteq> i) (ad_ready s),
         ad_new_bindings := filter (\<lambda>b. nb_decision_id b \<notin> set dropped) (ad_new_bindings s) \<rparr>)"

subsection \<open>Which episode may fill an arm\<close>

record endpoint_closures =
  ec_arm :: arm_kind
  ec_execution :: execution_closure
  ec_rollback :: rollback_closure

definition episode_attribution :: "decision_envelope \<Rightarrow> receipt_attribution option" where
  "episode_attribution e =
     (case Option.bind (de_receipt e) er_attribution of
        Some a \<Rightarrow> Some a
      | None \<Rightarrow> de_terminal_attribution e)"

definition treatment_rollback :: "actuator_family \<Rightarrow> decision_lifecycle \<Rightarrow> rollback_closure option" where
  "treatment_rollback f lc =
     (if f = AF_MarkovPrewarm \<and> (lc = LcReverted \<or> lc = LcExpired) then Some RbNotRequiredNonKernel
      else if f = AF_MarkovPrewarm \<and> lc = LcFailed then Some RbFailed
      else if lc = LcReverted then Some RbSucceeded
      else if lc = LcFailed then Some RbFailed
      else None)"

definition exploration_closures :: "metadata \<Rightarrow> decision_lifecycle \<Rightarrow> canonical_action \<Rightarrow>
    endpoint_reject + endpoint_closures" where
  "exploration_closures m lc x =
     (if md_cancelled m \<noteq> None then Inl ErAuthority
      else if key_mode (md_key m) = Treatment then
        (if \<not> metadata_valid m \<or> \<not> md_treatment m \<or> \<not> md_committed m then Inl ErAuthority
         else case treatment_rollback (ca_family x) lc of
           None \<Rightarrow> Inl ErAuthority
         | Some rb \<Rightarrow> Inr \<lparr> ec_arm = ArmTreatment, ec_execution = ExApplied, ec_rollback = rb \<rparr>)
      else if key_mode (md_key m) \<noteq> Control \<or> md_treatment m \<or> md_correlation m = 0
        \<or> key_family (md_key m) \<noteq> ca_family x \<or> key_action_class (md_key m) \<noteq> ca_action_class x
      then Inl ErAuthority
      else if lc = LcNoOp \<or> lc = LcRejected
      then Inr \<lparr> ec_arm = ArmControl, ec_execution = ExNoOp, ec_rollback = RbNotRequiredNonKernel \<rparr>
      else Inl ErAuthority)"

definition endpoint_closures_of :: "decision_episode \<Rightarrow> canonical_action \<Rightarrow>
    endpoint_reject + endpoint_closures" where
  "endpoint_closures_of ep x =
     (case episode_attribution (ep_envelope ep) of
        None \<Rightarrow> Inl ErIncompleteMetadata
      | Some a \<Rightarrow>
          if \<not> grants_local_authority a then Inl ErAuthority
          else (case de_exploration (ep_envelope ep) of
             Some m \<Rightarrow> exploration_closures m (de_lifecycle (ep_envelope ep)) x
           | None \<Rightarrow>
               if \<not> ep_authority_eligible ep \<or> de_lifecycle (ep_envelope ep) \<noteq> LcApplied then Inl ErAuthority
               else if ca_family x \<noteq> AF_MarkovPrewarm then Inl ErAuthority
               else Inr \<lparr> ec_arm = ArmTreatment, ec_execution = ExApplied,
                         ec_rollback = RbNotRequiredNonKernel \<rparr>))"

subsection \<open>Binding and measuring\<close>

definition arm_accepts :: "canonical_action \<Rightarrow> arm_kind \<Rightarrow> u64 \<Rightarrow> outstanding_arm \<Rightarrow> bool" where
  "arm_accepts x k settled a \<longleftrightarrow> action_matches (oa_canonical a) x \<and> oa_arm a = k
     \<and> settled \<ge> oa_issued_cycle a \<and> settled \<le> oa_expires_after_cycle a"

definition count_rollback :: "rollback_closure \<Rightarrow> adapter_counters \<Rightarrow> adapter_counters" where
  "count_rollback rb c =
     (case rb of
        RbFailed \<Rightarrow> c\<lparr> ac_rollback_failed := sat_add (ac_rollback_failed c) 1 \<rparr>
      | RbSucceeded \<Rightarrow> c\<lparr> ac_rollback_observed := sat_add (ac_rollback_observed c) 1 \<rparr>
      | RbNotRequiredNonKernel \<Rightarrow> c\<lparr> ac_rollback_observed := sat_add (ac_rollback_observed c) 1 \<rparr>
      | _ \<Rightarrow> c)"

definition remove_at :: "nat \<Rightarrow> 'a list \<Rightarrow> 'a list" where
  "remove_at i xs = take i xs @ drop (Suc i) xs"

definition set_pending_utility :: "adapter \<Rightarrow> adapter" where
  "set_pending_utility s = on_counters (\<lambda>c. c\<lparr> ac_pending_utility := of_nat (length (ad_bound s)) \<rparr>) s"

definition bind_arm :: "nat \<Rightarrow> decision_episode \<Rightarrow> endpoint_closures \<Rightarrow> u64 \<Rightarrow> adapter \<Rightarrow> adapter" where
  "bind_arm ix ep cl cycle s =
     (let a = ad_outstanding s ! ix;
          s = on_counters (count_rollback (ec_rollback cl))
            (s\<lparr> ad_outstanding := remove_at ix (ad_outstanding s),
               ad_consumed := push_bounded MAX_CONSUMED_DEDUP (ep_id ep) (ad_consumed s) \<rparr>);
          s = s\<lparr> ad_new_bindings := push_bounded MAX_BOUND_DECISIONS
                  \<lparr> nb_decision_id = ep_id ep, nb_family = oa_family a, nb_horizon_cycles = oa_horizon_cycles a \<rparr>
                  (ad_new_bindings s),
                ad_bound := ad_bound s @ [\<lparr> bd_arm = a, bd_decision_id = ep_id ep,
                  bd_settled_cycle = ep_settled_cycle ep, bd_execution = ec_execution cl,
                  bd_rollback = ec_rollback cl, bd_bound_cycle = cycle \<rparr>] \<rparr>
      in set_pending_utility
           (on_counters (\<lambda>c. c\<lparr> ac_bound_decisions := sat_add (ac_bound_decisions c) 1 \<rparr>) s))"

definition bind_episode :: "decision_episode \<Rightarrow> u64 \<Rightarrow> adapter \<Rightarrow> endpoint_reject option \<times> adapter" where
  "bind_episode ep cycle s =
     (if ep_id ep = 0 then (Some ErIncompleteMetadata, s)
      else case parse_action_key (de_action_key (ep_envelope ep)) of
        Inl _ \<Rightarrow> (None, on_counters (\<lambda>c. c\<lparr> ac_uncatalogued_episodes := sat_add (ac_uncatalogued_episodes c) 1 \<rparr>) s)
      | Inr x \<Rightarrow>
          if \<not> list_ex (\<lambda>a. action_matches (oa_canonical a) x) (ad_outstanding s)
          then (Some ErRoutineUnclaimed, s)
          else if ep_id ep \<in> set (ad_consumed s) \<or> list_ex (\<lambda>b. bd_decision_id b = ep_id ep) (ad_bound s)
          then (Some ErDuplicate, s)
          else (case endpoint_closures_of ep x of
             Inl e \<Rightarrow> (Some e, s)
           | Inr cl \<Rightarrow>
               (case find_index (arm_accepts x (ec_arm cl) (ep_settled_cycle ep)) (ad_outstanding s) of
                  None \<Rightarrow>
                    (Some (if list_ex (\<lambda>a. action_matches (oa_canonical a) x \<and> oa_arm a = ec_arm cl) (ad_outstanding s)
                           then ErExpired else ErInvalidExperimental), s)
                | Some ix \<Rightarrow>
                    if length (ad_bound s) \<ge> MAX_BOUND_DECISIONS then (Some ErCapacity, s)
                    else (None, bind_arm ix ep cl cycle s))))"

definition count_reject :: "endpoint_reject \<Rightarrow> adapter \<Rightarrow> adapter" where
  "count_reject e =
     on_counters (\<lambda>c. case e of
        ErActionKeyMismatch \<Rightarrow> c\<lparr> ac_rejected_action_mismatch := sat_add (ac_rejected_action_mismatch c) 1 \<rparr>
      | ErRoutineUnclaimed \<Rightarrow> c\<lparr> ac_routine_unclaimed := sat_add (ac_routine_unclaimed c) 1 \<rparr>
      | ErInvalidExperimental \<Rightarrow> c\<lparr> ac_invalid_experimental := sat_add (ac_invalid_experimental c) 1 \<rparr>
      | ErDuplicate \<Rightarrow> c\<lparr> ac_rejected_duplicate := sat_add (ac_rejected_duplicate c) 1 \<rparr>
      | ErExpired \<Rightarrow> c\<lparr> ac_rejected_expired := sat_add (ac_rejected_expired c) 1 \<rparr>
      | ErEpoch \<Rightarrow> c\<lparr> ac_rejected_epoch := sat_add (ac_rejected_epoch c) 1 \<rparr>
      | ErAuthority \<Rightarrow> c\<lparr> ac_rejected_authority := sat_add (ac_rejected_authority c) 1 \<rparr>
      | ErIncompleteMetadata \<Rightarrow> c\<lparr> ac_rejected_incomplete_metadata := sat_add (ac_rejected_incomplete_metadata c) 1 \<rparr>
      | ErCapacity \<Rightarrow> c\<lparr> ac_dropped_capacity := sat_add (ac_dropped_capacity c) 1 \<rparr>)"

definition observe_episode :: "u64 \<Rightarrow> decision_episode \<Rightarrow> adapter \<Rightarrow> adapter" where
  "observe_episode cycle ep s =
     (case bind_episode ep cycle (on_counters (\<lambda>c. c\<lparr> ac_observed_episodes := sat_add (ac_observed_episodes c) 1 \<rparr>) s) of
        (None, s) \<Rightarrow> s
      | (Some e, s) \<Rightarrow> count_reject e s)"

definition observe_episodes :: "decision_episode list \<Rightarrow> u64 \<Rightarrow> adapter \<Rightarrow> adapter" where
  "observe_episodes eps cycle s =
     (if eps = [] then s
      else let s = s\<lparr> ad_last_episode_cycle := Some cycle \<rparr> in
      if ad_outstanding s = []
      then on_counters (\<lambda>c. c\<lparr> ac_episodes_skipped_idle :=
             sat_add (ac_episodes_skipped_idle c) (of_nat (length eps)) \<rparr>) s
      else fold (observe_episode cycle) eps s)"

definition completion_cycle :: "bound_decision \<Rightarrow> utility_sample \<Rightarrow> u64 \<Rightarrow> u64" where
  "completion_cycle b sm cycle =
     min (max (us_resolved_cycle sm) (bd_settled_cycle b)) (max cycle (bd_settled_cycle b))"

definition horizon_of :: "bound_decision \<Rightarrow> utility_sample \<Rightarrow> u64 \<Rightarrow> horizon_closure" where
  "horizon_of b sm completed =
     (if completed > oa_expires_after_cycle (bd_arm b) then HzExpired
      else if us_confounded sm then HzConfounded
      else if completed \<ge> oa_complete_not_before_cycle (bd_arm b) then HzComplete
      else HzIncomplete)"

definition endpoint_of :: "origin \<Rightarrow> bound_decision \<Rightarrow> utility_sample \<Rightarrow> u64 \<Rightarrow> timed_pair_endpoint" where
  "endpoint_of og b sm cycle =
     (let completed = completion_cycle b sm cycle; a = bd_arm b in
      \<lparr> te_pair_id = oa_pair_id a, te_issued_cycle = oa_issued_cycle a, te_completed_cycle = completed,
        te_endpoint = \<lparr> pe_arm = oa_arm a, pe_origin = og, pe_family = oa_family a,
          pe_action_class = oa_action_class a, pe_context = oa_context a, pe_action_key = oa_action_key a,
          pe_stratum_hash = oa_stratum_hash a, pe_horizon_cycles = oa_horizon_cycles a,
          pe_decision_id = bd_decision_id b, pe_observed_local = True, pe_synthetic = False,
          pe_execution = bd_execution b, pe_horizon = horizon_of b sm completed,
          pe_rollback = bd_rollback b, pe_utility_micros = us_utility_micros sm \<rparr> \<rparr>)"

definition observe_utility :: "u64 \<Rightarrow> utility_sample \<Rightarrow> adapter \<Rightarrow> adapter" where
  "observe_utility cycle sm s =
     (case find_index (\<lambda>b. bd_decision_id b = us_decision_id sm) (ad_bound s) of
        None \<Rightarrow> s
      | Some ix \<Rightarrow>
          (let b = ad_bound s ! ix; s = s\<lparr> ad_bound := remove_at ix (ad_bound s) \<rparr> in
           if length (ad_ready s) \<ge> MAX_READY_ENDPOINTS
           then on_counters (\<lambda>c. c\<lparr> ac_dropped_capacity := sat_add (ac_dropped_capacity c) 1 \<rparr>) s
           else on_counters (\<lambda>c. c\<lparr> ac_emitted_endpoints := sat_add (ac_emitted_endpoints c) 1 \<rparr>)
             (s\<lparr> ad_ready := ad_ready s @ [endpoint_of (ad_origin s) b sm cycle] \<rparr>)))"

definition observe_utilities :: "utility_sample list \<Rightarrow> u64 \<Rightarrow> adapter \<Rightarrow> adapter" where
  "observe_utilities sms cycle s = set_pending_utility (fold (observe_utility cycle) sms s)"

definition prune :: "u64 \<Rightarrow> adapter \<Rightarrow> adapter" where
  "prune cycle s =
     (let held = length (ad_outstanding s) + length (ad_bound s);
          s = s\<lparr> ad_outstanding := filter (\<lambda>a. cycle \<le> oa_expires_after_cycle a) (ad_outstanding s),
                ad_bound := filter (\<lambda>b. sat_sub cycle (bd_bound_cycle b) \<le> BOUND_TTL_CYCLES) (ad_bound s) \<rparr>;
          dropped = held - (length (ad_outstanding s) + length (ad_bound s))
      in set_pending_utility
           (on_counters (\<lambda>c. c\<lparr> ac_expired_arms := sat_add (ac_expired_arms c) (of_nat dropped) \<rparr>) s))"

definition drain_ready :: "adapter \<Rightarrow> timed_pair_endpoint list \<times> adapter" where
  "drain_ready s = (ad_ready s, s\<lparr> ad_ready := [] \<rparr>)"

definition drain_new_bindings :: "adapter \<Rightarrow> arm_binding list \<times> adapter" where
  "drain_new_bindings s = (ad_new_bindings s, s\<lparr> ad_new_bindings := [] \<rparr>)"

subsection \<open>The withhold mask\<close>

record withhold_state =
  wh_requests :: u64
  wh_total :: u64

definition withhold_bit :: "canonical_action \<Rightarrow> nat option" where
  "withhold_bit x =
     (if ca_family x = AF_InteractionQos \<and> ca_action_class x = InteractionForeground then
        (case ca_variant x of VShort \<Rightarrow> Some 0 | VStandard \<Rightarrow> Some 1 | VLong \<Rightarrow> Some 2 | VNone \<Rightarrow> None)
      else if ca_family x = AF_MarkovPrewarm \<and> ca_action_class x = MarkovPredictedApp
        \<and> ca_variant x = VNone then Some 3
      else None)"

definition publish_control_withholds :: "canonical_action list \<Rightarrow> withhold_state \<Rightarrow> withhold_state" where
  "publish_control_withholds actions w =
     w\<lparr> wh_requests := fold (\<lambda>b mask. mask OR push_bit b 1) (List.map_filter withhold_bit actions) 0 \<rparr>"

definition control_withhold_requested :: "canonical_action \<Rightarrow> withhold_state \<Rightarrow> bool" where
  "control_withhold_requested x w =
     (case withhold_bit x of None \<Rightarrow> False | Some b \<Rightarrow> wh_requests w AND push_bit b 1 \<noteq> 0)"

definition record_control_withhold :: "withhold_state \<Rightarrow> withhold_state" where
  "record_control_withhold w = w\<lparr> wh_total := wh_total w + 1 \<rparr>"

end
