(* ===== verification/Lab_Runtime.thy ===== *)
theory Lab_Runtime
  imports Lab_Endpoints
begin

text \<open>
  \<open>src/bin/apollo-optimizerd/microexperiment_tick.rs\<close>: the part of the daemon that owns the
  laboratory and the endpoint adapter, and drives both once per cycle. The monotonic
  milliseconds since the start of the process are the argument \<open>now\<close>, the generation token
  read from the wall clock is the argument of the constructor. The metrics struct copies the
  counters of the laboratory; of it only the blocker, which the control flow computes, is here.
\<close>

definition PAIR_WASHOUT_CYCLES :: u32 where "PAIR_WASHOUT_CYCLES = 3"
definition PAIR_MINIMUM_EFFECT_MICROS :: i64 where "PAIR_MINIMUM_EFFECT_MICROS = 500"

record tick_input =
  ti_cycle :: u64
  ti_interaction_activations :: u64
  ti_markov_applied :: u64
  ti_workload :: string
  ti_gates :: pair_gates

record controlled_input =
  ci_cycle :: u64
  ci_monotonic_millis :: u64
  ci_gates :: pair_gates
  ci_endpoint_contract_ready :: bool
  ci_candidates :: "pair_candidate list"
  ci_observations :: "timed_pair_endpoint list"

record tick_output =
  to_blocker :: string
  to_directives :: "pair_directive list"
  to_invalidations :: "pair_invalidation list"
  to_closures :: "pair_closure list"
  to_pair_gold :: "pair_gold_record list"

record counter_baseline =
  cb_interaction_activations :: u64
  cb_markov_applied :: u64

record runtime =
  rt_origin :: origin
  rt_lab :: lab
  rt_adapter :: adapter
  rt_epoch :: u64
  rt_counters :: "counter_baseline option"
  rt_restore :: string

fun restore_label :: "restore_disposition \<Rightarrow> string" where
  "restore_label Restored = ''restored''"
| "restore_label RestoredInterrupted = ''restored-interrupted''"
| "restore_label ResetOrigin = ''reset-origin''"
| "restore_label ResetHostile = ''reset-hostile''"

definition runtime_with_epoch :: "(lab_persisted \<Rightarrow> nat option) \<Rightarrow> origin \<Rightarrow> lab_persisted option \<Rightarrow> u64 \<Rightarrow> runtime" where
  "runtime_with_epoch json_len og persisted e =
     (let (l, label) = (case persisted of
            None \<Rightarrow> (lab_cold_start og, ''cold-start'')
          | Some p \<Rightarrow> (let (l, d) = lab_restore json_len p og in (l, restore_label d)))
      in \<lparr> rt_origin = og, rt_lab = l, rt_adapter = adapter_new og e, rt_epoch = e,
           rt_counters = None, rt_restore = label \<rparr>)"

definition on_adapter :: "(adapter \<Rightarrow> adapter) \<Rightarrow> runtime \<Rightarrow> runtime" where
  "on_adapter f s = s\<lparr> rt_adapter := f (rt_adapter s) \<rparr>"

definition rt_observe_decisions :: "decision_episode list \<Rightarrow> u64 \<Rightarrow> runtime \<Rightarrow> runtime" where
  "rt_observe_decisions eps cycle = on_adapter (observe_episodes eps cycle)"

definition rt_observe_utilities :: "utility_sample list \<Rightarrow> u64 \<Rightarrow> runtime \<Rightarrow> runtime" where
  "rt_observe_utilities sms cycle = on_adapter (observe_utilities sms cycle)"

definition rt_drain_new_bindings :: "runtime \<Rightarrow> arm_binding list \<times> runtime" where
  "rt_drain_new_bindings s =
     (let (bs, a) = drain_new_bindings (rt_adapter s) in (bs, s\<lparr> rt_adapter := a \<rparr>))"

definition rt_consume_pair :: "completed_pair \<Rightarrow> u64 \<Rightarrow> u64 \<Rightarrow> runtime \<Rightarrow> pair_consumption \<times> runtime" where
  "rt_consume_pair p issued honoured s =
     (let (c, l) = consume_exploration_pair p issued honoured (rt_lab s) in (c, s\<lparr> rt_lab := l \<rparr>))"

definition endpoint_contract_ready :: "u64 \<Rightarrow> runtime \<Rightarrow> bool" where
  "endpoint_contract_ready cycle s = contract_ready cycle (rt_epoch s) (rt_adapter s)"

definition control_withhold_requests :: "runtime \<Rightarrow> canonical_action list" where
  "control_withhold_requests s = outstanding_control_actions (rt_adapter s)"

subsection \<open>Blockers\<close>

fun blocker_for_candidate_error :: "lab_error \<Rightarrow> string" where
  "blocker_for_candidate_error LeGate = ''safety-or-privacy-gate''"
| "blocker_for_candidate_error LeOrigin = ''candidate-origin-mismatch''"
| "blocker_for_candidate_error LeCatalog = ''candidate-outside-catalog''"
| "blocker_for_candidate_error LeCapacity = ''pair-capacity''"
| "blocker_for_candidate_error LeInvalid = ''candidate-invalid''"
| "blocker_for_candidate_error LeDuplicatePair = ''pair-duplicate''"
| "blocker_for_candidate_error _ = ''candidate-rejected''"

fun blocker_for_endpoint_error :: "lab_error \<Rightarrow> string" where
  "blocker_for_endpoint_error LeHorizonPending = ''horizon-pending''"
| "blocker_for_endpoint_error LeEndpointNotIssued = ''endpoint-not-issued''"
| "blocker_for_endpoint_error LeDeadlineExpired = ''endpoint-expired''"
| "blocker_for_endpoint_error LeUnknownPair = ''endpoint-unknown-pair''"
| "blocker_for_endpoint_error LeOrigin = ''endpoint-origin-mismatch''"
| "blocker_for_endpoint_error LeMismatch = ''endpoint-mismatch''"
| "blocker_for_endpoint_error LeWrongArm = ''endpoint-mismatch''"
| "blocker_for_endpoint_error LeDuplicateArm = ''endpoint-duplicate''"
| "blocker_for_endpoint_error LeDuplicatePair = ''endpoint-duplicate''"
| "blocker_for_endpoint_error LeWashoutPending = ''washout''"
| "blocker_for_endpoint_error LeNotReady = ''pair-not-ready''"
| "blocker_for_endpoint_error _ = ''endpoint-rejected''"

subsection \<open>One controlled cycle\<close>

definition effective_gates :: "bool \<Rightarrow> pair_gates \<Rightarrow> pair_gates" where
  "effective_gates ready g = (if ready then g else g\<lparr> experiments_enabled := False \<rparr>)"

text \<open>What the loop over the observations carries: the blocker, the closures and
  invalidations so far, and the laboratory.\<close>

record tick_progress =
  tp_blocker :: string
  tp_closures :: "pair_closure list"
  tp_invalidations :: "pair_invalidation list"
  tp_lab :: lab

definition apply_observation :: "timed_pair_endpoint \<Rightarrow> tick_progress \<Rightarrow> tick_progress" where
  "apply_observation ob t =
     (let (res, l) = record_timed_endpoint ob (tp_lab t); t = t\<lparr> tp_lab := l \<rparr> in
      case res of
        Inr (TdProgress p) \<Rightarrow>
          if p = ReadyToClose then
            (let (closed, l) = close_pair (te_pair_id ob) l; t = t\<lparr> tp_lab := l \<rparr> in
             case closed of
               Inr cl \<Rightarrow> t\<lparr> tp_closures := tp_closures t @ [cl], tp_blocker := ''pair-closed'' \<rparr>
             | Inl e \<Rightarrow> t\<lparr> tp_blocker := blocker_for_endpoint_error e \<rparr>)
          else t\<lparr> tp_blocker := ''washout'' \<rparr>
      | Inr TdShadowMeasured \<Rightarrow> t\<lparr> tp_blocker := ''shadow-measured'' \<rparr>
      | Inr (TdInvalidated rec) \<Rightarrow> t\<lparr> tp_invalidations := tp_invalidations t @ [rec],
                                        tp_blocker := ''endpoint-invalidated'' \<rparr>
      | Inl e \<Rightarrow> t\<lparr> tp_blocker := blocker_for_endpoint_error e \<rparr>)"

definition apply_observations :: "controlled_input \<Rightarrow> pair_gates \<Rightarrow> tick_progress \<Rightarrow> tick_progress" where
  "apply_observations ci g t =
     (if ci_endpoint_contract_ready ci \<and> allows_pair g then
        (let t = fold apply_observation (ci_observations ci) t;
             (inv, l) = advance_cycle (ci_cycle ci) (ci_monotonic_millis ci) g (tp_lab t)
         in t\<lparr> tp_lab := l, tp_invalidations := tp_invalidations t @ inv \<rparr>)
      else t)"

text \<open>How many candidates were opened, measured in shadow and sampled out.\<close>

record candidate_counts =
  cc_opened :: u64
  cc_shadowed :: u64
  cc_sampled_out :: u64
  cc_blocker :: string
  cc_lab :: lab

definition consider_one :: "pair_gates \<Rightarrow> u64 \<Rightarrow> pair_candidate \<Rightarrow> candidate_counts \<Rightarrow> candidate_counts" where
  "consider_one g now c t =
     (let (res, l) = consider_candidate c g now (cc_lab t); t = t\<lparr> cc_lab := l \<rparr> in
      case res of
        Inr (CdShadow _) \<Rightarrow> t\<lparr> cc_shadowed := sat_add (cc_shadowed t) 1 \<rparr>
      | Inr CdCanarySkipped \<Rightarrow> t\<lparr> cc_sampled_out := sat_add (cc_sampled_out t) 1 \<rparr>
      | Inr (CdOpened _) \<Rightarrow> t\<lparr> cc_opened := sat_add (cc_opened t) 1 \<rparr>
      | Inl e \<Rightarrow> t\<lparr> cc_blocker := blocker_for_candidate_error e \<rparr>)"

definition issue_arms :: "controlled_input \<Rightarrow> pair_gates \<Rightarrow> lab \<Rightarrow> pair_directive list \<times> lab" where
  "issue_arms ci g l =
     (let (ds, l) = (if ci_endpoint_contract_ready ci \<and> allows_pair g
                     then issue_ready_arms (ci_cycle ci) g l else ([], l));
          (sds, l) = (if ci_endpoint_contract_ready ci then issue_shadow_arms (ci_cycle ci) g l else ([], l))
      in (ds @ sds, l))"

definition initial_blocker :: "bool \<Rightarrow> pair_gates \<Rightarrow> string" where
  "initial_blocker ready g =
     (if \<not> ready then ''endpoint-wiring-required''
      else if \<not> allows_pair g then ''safety-or-privacy-gate'' else ''no-candidates'')"

definition final_blocker :: "controlled_input \<Rightarrow> pair_gates \<Rightarrow> candidate_counts \<Rightarrow> lab \<Rightarrow> string" where
  "final_blocker ci g t l =
     (if ci_endpoint_contract_ready ci \<and> allows_pair g then
        (case readiness_blocker l of
           Some b \<Rightarrow> b
         | None \<Rightarrow>
             if cc_opened t > 0 then ''pair-opened''
             else if cc_shadowed t > 0 then ''shadow-warming''
             else if cc_sampled_out t > 0 then ''canary-sampling'' else cc_blocker t)
      else cc_blocker t)"

definition tick_controlled :: "controlled_input \<Rightarrow> lab \<Rightarrow> tick_output \<times> lab" where
  "tick_controlled ci l =
     (let g = effective_gates (ci_endpoint_contract_ready ci) (ci_gates ci);
          (inv, l) = advance_cycle (ci_cycle ci) (ci_monotonic_millis ci) g l;
          t = apply_observations ci g \<lparr> tp_blocker = initial_blocker (ci_endpoint_contract_ready ci) g,
                tp_closures = [], tp_invalidations = inv, tp_lab = l \<rparr>;
          c = fold (consider_one g (ci_monotonic_millis ci)) (ci_candidates ci)
                \<lparr> cc_opened = 0, cc_shadowed = 0, cc_sampled_out = 0, cc_blocker = tp_blocker t, cc_lab = tp_lab t \<rparr>;
          (ds, l) = issue_arms ci g (cc_lab c);
          (gold, l') = drain_pair_gold l
      in (\<lparr> to_blocker = final_blocker ci g c l, to_directives = ds, to_invalidations = tp_invalidations t,
            to_closures = tp_closures t, to_pair_gold = gold \<rparr>, l'))"

subsection \<open>One tick of the daemon\<close>

definition stratum_hash :: "string \<Rightarrow> u8 \<Rightarrow> u64" where
  "stratum_hash workload family =
     max (fold (\<lambda>c hash. xor hash (of_char c) * 0x100000001b3) workload
            (xor 0xcbf29ce484222325 (ucast family))) 1"

definition make_candidate :: "u64 \<Rightarrow> origin \<Rightarrow> actuator_family \<Rightarrow> action_class \<Rightarrow> arm \<Rightarrow>
    exploration_context \<Rightarrow> u64 \<Rightarrow> pair_candidate option" where
  "make_candidate sq og f c a ctx stratum =
     (case canonical_action_key f c a of
        None \<Rightarrow> None
      | Some key \<Rightarrow>
          (case family_horizon_cycles f of
             None \<Rightarrow> None
           | Some horizon \<Rightarrow> Some \<lparr> pc_sequence = sq, pc_origin = og, pc_family = f, pc_action_class = c,
               pc_treatment_arm = a, pc_context = ctx, pc_action_key = key, pc_stratum_hash = stratum,
               pc_horizon_cycles = horizon, pc_washout_cycles = PAIR_WASHOUT_CYCLES,
               pc_minimum_effect_micros = PAIR_MINIMUM_EFFECT_MICROS \<rparr>))"

definition interaction_candidate :: "tick_input \<Rightarrow> origin \<Rightarrow> pair_candidate option" where
  "interaction_candidate ti og = make_candidate (max (sat_add (sat_mul (ti_cycle ti) 4) 1) 1) og
     AF_InteractionQos InteractionForeground InteractionQosStandard Interactive
     (stratum_hash (ti_workload ti) 1)"

definition markov_candidate :: "tick_input \<Rightarrow> origin \<Rightarrow> pair_candidate option" where
  "markov_candidate ti og = make_candidate (max (sat_add (sat_mul (ti_cycle ti) 4) 2) 1) og
     AF_MarkovPrewarm MarkovPredictedApp MarkovCacheOnly BackgroundContext
     (stratum_hash (ti_workload ti) 2)"

definition tick_candidates :: "tick_input \<Rightarrow> counter_baseline \<Rightarrow> origin \<Rightarrow> pair_candidate list \<times> u64" where
  "tick_candidates ti previous og =
     (let offered = (if sat_sub (ti_interaction_activations ti) (cb_interaction_activations previous) > 0
                     then [interaction_candidate ti og] else [])
                  @ (if sat_sub (ti_markov_applied ti) (cb_markov_applied previous) > 0
                     then [markov_candidate ti og] else [])
      in (List.map_filter id offered, of_nat (length (filter Option.is_none offered))))"

definition settle_adapter :: "tick_output \<Rightarrow> u64 \<Rightarrow> adapter \<Rightarrow> adapter" where
  "settle_adapter out cycle a =
     (let a = register_directives (to_directives out) cycle a;
          a = fold (\<lambda>i. forget_pair (pi_pair_id i)) (to_invalidations out) a;
          a = fold (\<lambda>c. forget_pair (cl_id c)) (to_closures out) a
      in prune cycle a)"

definition tick_blocker :: "tick_input \<Rightarrow> pair_candidate list \<Rightarrow> u64 \<Rightarrow> tick_output \<Rightarrow> tick_output" where
  "tick_blocker ti candidates uncatalogued out =
     (if \<not> inherited_safe (ti_gates ti) \<and> candidates \<noteq> [] then out\<lparr> to_blocker := ''safety-gate'' \<rparr>
      else if uncatalogued > 0 \<and> candidates = [] then out\<lparr> to_blocker := ''candidate-outside-catalog'' \<rparr>
      else out)"

definition runtime_tick :: "tick_input \<Rightarrow> u64 \<Rightarrow> runtime \<Rightarrow> tick_output \<times> runtime" where
  "runtime_tick ti now s =
     (let baseline = \<lparr> cb_interaction_activations = ti_interaction_activations ti,
                       cb_markov_applied = ti_markov_applied ti \<rparr>;
          s' = s\<lparr> rt_counters := Some baseline \<rparr> in
      case rt_counters s of
        None \<Rightarrow> (\<lparr> to_blocker = ''no-candidates'', to_directives = [], to_invalidations = [],
                  to_closures = [], to_pair_gold = [] \<rparr>, s')
      | Some previous \<Rightarrow>
          (let (candidates, uncatalogued) = tick_candidates ti previous (rt_origin s);
               (observations, a) = drain_ready (rt_adapter s);
               ready = contract_ready (ti_cycle ti) (rt_epoch s) a;
               (out, l) = tick_controlled \<lparr> ci_cycle = ti_cycle ti, ci_monotonic_millis = now,
                 ci_gates = ti_gates ti, ci_endpoint_contract_ready = ready, ci_candidates = candidates,
                 ci_observations = observations \<rparr> (rt_lab s);
               out = tick_blocker ti candidates uncatalogued out
           in (out, s'\<lparr> rt_lab := l, rt_adapter := settle_adapter out (ti_cycle ti) a \<rparr>)))"

definition rt_persisted :: "runtime \<Rightarrow> lab_persisted" where
  "rt_persisted s = lab_persist (rt_lab s)"

end
