(* ===== verification/Pair_Frame.thy ===== *)
theory Pair_Frame
  imports Lab_Properties
begin

text \<open>
  What each operation of the laboratory does to the pairs it has open: which pairs leave, which
  fields of the others change, and which identities are spent. The protocol of a pair is an
  invariant of its record, and an endpoint that agrees with the issued arm is never refused.
\<close>

subsection \<open>Frames\<close>

definition done_ids :: "lab \<Rightarrow> pair_id set" where
  "done_ids l = cs_id ` set (lb_completed l) \<union> set (lb_gold_dedup l)"

named_theorems pair_frame \<open>helpers that leave the open pairs alone\<close>

lemma frame_updates [pair_frame]:
  "done_ids (l\<lparr> lb_shadow_open := a \<rparr>) = done_ids l" "done_ids (l\<lparr> lb_open := b \<rparr>) = done_ids l"
  "done_ids (l\<lparr> lb_next_pair_sequence := c \<rparr>) = done_ids l"
  "done_ids (l\<lparr> lb_phase_clock_armed := d \<rparr>) = done_ids l" "done_ids (l\<lparr> lb_pending_gold := e \<rparr>) = done_ids l"
  by (simp_all add: done_ids_def)

lemma frame_on_metrics [pair_frame]:
  "lb_origin (on_metrics f l) = lb_origin l" "lb_next_pair_sequence (on_metrics f l) = lb_next_pair_sequence l"
  "lb_open (on_metrics f l) = lb_open l" "done_ids (on_metrics f l) = done_ids l"
  "lb_rollout (on_metrics f l) = lb_rollout l"
  by (simp_all add: on_metrics_def done_ids_def)

lemma frame_on_rollout [pair_frame]:
  "lb_origin (on_rollout f l) = lb_origin l" "lb_next_pair_sequence (on_rollout f l) = lb_next_pair_sequence l"
  "lb_open (on_rollout f l) = lb_open l" "done_ids (on_rollout f l) = done_ids l"
  "lb_rollout (on_rollout f l) = f (lb_rollout l)"
  by (simp_all add: on_rollout_def done_ids_def)

lemma frame_find_open [pair_frame]:
  "lb_origin (snd (find_open i l)) = lb_origin l" "lb_open (snd (find_open i l)) = lb_open l"
  "lb_next_pair_sequence (snd (find_open i l)) = lb_next_pair_sequence l"
  "done_ids (snd (find_open i l)) = done_ids l" "lb_rollout (snd (find_open i l)) = lb_rollout l"
  by (simp_all add: find_open_def Let_def done_ids_def)

lemma frame_reset [pair_frame]:
  "lb_origin (reset_to_shadow now why l) = lb_origin l" "lb_open (reset_to_shadow now why l) = lb_open l"
  "lb_next_pair_sequence (reset_to_shadow now why l) = lb_next_pair_sequence l"
  "done_ids (reset_to_shadow now why l) = done_ids l" "phase (reset_to_shadow now why l) = PhaseShadow"
  "ro_last_monotonic_millis (lb_rollout (reset_to_shadow now why l)) = now"
  by (simp_all add: reset_to_shadow_def rollout_reset_to_shadow_def note_progress_reset_def done_ids_def)

lemma frame_advance_rollout [pair_frame]:
  "lb_origin (advance_rollout now b l) = lb_origin l" "lb_open (advance_rollout now b l) = lb_open l"
  "lb_next_pair_sequence (advance_rollout now b l) = lb_next_pair_sequence l"
  "done_ids (advance_rollout now b l) = done_ids l"
  "ro_last_monotonic_millis (lb_rollout (advance_rollout now b l)) = ro_last_monotonic_millis (lb_rollout l)"
  by (simp_all add: advance_rollout_def Let_def done_ids_def)

lemma advance_rollout_not_shadow:
  "phase (advance_rollout now b l) = PhaseShadow \<Longrightarrow> phase l = PhaseShadow"
  by (auto simp: advance_rollout_def Let_def split: if_splits)

lemma frame_terminalise [pair_frame]:
  "lb_origin (snd (terminalise_shadow_pair i l)) = lb_origin l"
  "lb_next_pair_sequence (snd (terminalise_shadow_pair i l)) = lb_next_pair_sequence l"
  "lb_open (snd (terminalise_shadow_pair i l)) = lb_open l"
  "done_ids (snd (terminalise_shadow_pair i l)) = done_ids l"
  "lb_rollout (snd (terminalise_shadow_pair i l)) = lb_rollout l"
  by (simp_all add: terminalise_shadow_pair_def on_metrics_def done_ids_def split: option.split)

lemma frame_reap [pair_frame]:
  "lb_origin (reap_expired_shadow_pairs cycle l) = lb_origin l"
  "lb_next_pair_sequence (reap_expired_shadow_pairs cycle l) = lb_next_pair_sequence l"
  "lb_open (reap_expired_shadow_pairs cycle l) = lb_open l"
  "done_ids (reap_expired_shadow_pairs cycle l) = done_ids l"
  "lb_rollout (reap_expired_shadow_pairs cycle l) = lb_rollout l"
proof -
  define body where "body = (\<lambda>i l. let (existed, l) = terminalise_shadow_pair i l in
    if existed then on_metrics (\<lambda>m. m\<lparr> lm_shadow_expired := sat_add (lm_shadow_expired m) 1 \<rparr>) l else l)"
  have "lb_origin (fold body is l) = lb_origin l \<and> lb_next_pair_sequence (fold body is l) = lb_next_pair_sequence l
      \<and> lb_open (fold body is l) = lb_open l \<and> done_ids (fold body is l) = done_ids l
      \<and> lb_rollout (fold body is l) = lb_rollout l" for "is"
    by (induction "is" arbitrary: l) (simp_all add: body_def case_prod_unfold Let_def pair_frame)
  then show "lb_origin (reap_expired_shadow_pairs cycle l) = lb_origin l"
    "lb_next_pair_sequence (reap_expired_shadow_pairs cycle l) = lb_next_pair_sequence l"
    "lb_open (reap_expired_shadow_pairs cycle l) = lb_open l"
    "done_ids (reap_expired_shadow_pairs cycle l) = done_ids l"
    "lb_rollout (reap_expired_shadow_pairs cycle l) = lb_rollout l"
    unfolding reap_expired_shadow_pairs_def body_def [symmetric] by simp_all
qed

lemma frame_record_shadow [pair_frame]:
  "lb_origin (snd (record_shadow_endpoint ob l)) = lb_origin l"
  "lb_next_pair_sequence (snd (record_shadow_endpoint ob l)) = lb_next_pair_sequence l"
  "lb_open (snd (record_shadow_endpoint ob l)) = lb_open l"
  "done_ids (snd (record_shadow_endpoint ob l)) = done_ids l"
  "phase (snd (record_shadow_endpoint ob l)) = phase l"
  by (simp_all add: record_shadow_endpoint_def pair_frame Let_def case_prod_unfold split: option.split)

lemma frame_quarantine [pair_frame]:
  "lb_origin (quarantine e l) = lb_origin l" "lb_open (quarantine e l) = lb_open l"
  "lb_next_pair_sequence (quarantine e l) = lb_next_pair_sequence l" "done_ids (quarantine e l) = done_ids l"
  "lb_rollout (quarantine e l) = lb_rollout l"
  by (simp_all add: quarantine_def pair_frame)

subsection \<open>Pairs that leave\<close>

text \<open>The open pairs of the later state were open before, and an identity is only spent by a
  pair that left.\<close>

definition prunes :: "lab \<Rightarrow> lab \<Rightarrow> bool" where
  "prunes l m \<longleftrightarrow> lb_origin m = lb_origin l \<and> lb_next_pair_sequence m = lb_next_pair_sequence l
     \<and> set (lb_open m) \<subseteq> set (lb_open l)
     \<and> done_ids m \<subseteq> done_ids l \<union> (set (open_ids l) - set (open_ids m))"

lemma prunes_ids: "prunes l m \<Longrightarrow> set (open_ids m) \<subseteq> set (open_ids l)"
  by (auto simp: prunes_def open_ids_def)

lemma prunes_refl: "prunes l l"
  by (simp add: prunes_def)

lemma prunes_trans: "prunes l m \<Longrightarrow> prunes m n \<Longrightarrow> prunes l n"
  using prunes_ids [of l m] prunes_ids [of m n] unfolding prunes_def by auto

lemma prunes_frame:
  "lb_origin m = lb_origin l \<Longrightarrow> lb_next_pair_sequence m = lb_next_pair_sequence l \<Longrightarrow> lb_open m = lb_open l \<Longrightarrow>
   done_ids m = done_ids l \<Longrightarrow> prunes l m"
  by (simp add: prunes_def)

lemma done_push_completed: "done_ids (push_completed s l) \<subseteq> insert (cs_id s) (done_ids l)"
  using push_bounded_set [of MAX_COMPLETED_PAIRS s "lb_completed l"]
  by (auto simp: done_ids_def push_completed_def)

lemma done_interrupted:
  "done_ids p = done_ids l \<Longrightarrow> done_ids (push_completed (interrupted_summary i) p) \<subseteq> insert i (done_ids l)"
  using done_push_completed [of "interrupted_summary i" p] by (simp add: interrupted_summary_def)

lemma frame_push_completed [pair_frame]:
  "lb_origin (push_completed s l) = lb_origin l" "lb_open (push_completed s l) = lb_open l"
  "lb_next_pair_sequence (push_completed s l) = lb_next_pair_sequence l"
  "lb_rollout (push_completed s l) = lb_rollout l"
  by (simp_all add: push_completed_def)

lemma find_open_None: "fst (find_open i l) = None \<longleftrightarrow> i \<notin> set (open_ids l)"
  by (auto simp: find_open_def Let_def find_index_None open_ids_def)

text \<open>Invalidating removes exactly the named pair, reports it, and keeps the phase.\<close>

lemma remove_open_ids:
  assumes "distinct (open_ids l)" and "ix < length (lb_open l)" and "pa_id (pr_assignment (lb_open l ! ix)) = i"
  shows "set (map (\<lambda>r. pa_id (pr_assignment r)) (swap_remove ix (lb_open l))) = set (open_ids l) - {i}"
    and "distinct (map (\<lambda>r. pa_id (pr_assignment r)) (swap_remove ix (lb_open l)))"
proof -
  have ids: "map (\<lambda>r. pa_id (pr_assignment r)) (swap_remove ix (lb_open l)) = swap_remove ix (open_ids l)"
    using assms(2) by (simp add: open_ids_def map_swap_remove)
  have ix: "ix < length (open_ids l)" "open_ids l ! ix = i" using assms(2,3) by (simp_all add: open_ids_def)
  have m: "mset (i # swap_remove ix (open_ids l)) = mset (open_ids l)"
    using mset_swap_remove [OF ix(1)] ix by (metis insert_DiffM mset.simps(2) nth_mem_mset)
  then have "distinct (i # swap_remove ix (open_ids l))" and "set (i # swap_remove ix (open_ids l)) = set (open_ids l)"
    using assms(1) mset_eq_imp_distinct_iff mset_eq_setD by blast+
  then show "set (map (\<lambda>r. pa_id (pr_assignment r)) (swap_remove ix (lb_open l))) = set (open_ids l) - {i}"
    "distinct (map (\<lambda>r. pa_id (pr_assignment r)) (swap_remove ix (lb_open l)))"
    unfolding ids by auto
qed

lemma invalidate_pair_effect:
  assumes "distinct (open_ids l)"
  shows "prunes l (snd (invalidate_pair i reason l))"
    and "set (open_ids (snd (invalidate_pair i reason l))) = set (open_ids l) - {i}"
    and "distinct (open_ids (snd (invalidate_pair i reason l)))"
    and "phase (snd (invalidate_pair i reason l)) = phase l"
    and "i \<in> set (open_ids l) \<Longrightarrow> \<exists>x. fst (invalidate_pair i reason l) = Inr x \<and> pi_pair_id x = i \<and> pi_reason x = reason"
proof -
  obtain found m where f: "find_open i l = (found, m)" by fastforce
  note fr = frame_find_open [of i l, unfolded f, simplified]
  have "prunes l (snd (invalidate_pair i reason l)) \<and> set (open_ids (snd (invalidate_pair i reason l))) = set (open_ids l) - {i}
    \<and> distinct (open_ids (snd (invalidate_pair i reason l))) \<and> phase (snd (invalidate_pair i reason l)) = phase l
    \<and> (i \<in> set (open_ids l) \<longrightarrow> (\<exists>x. fst (invalidate_pair i reason l) = Inr x \<and> pi_pair_id x = i \<and> pi_reason x = reason))"
  proof (cases found)
    case None
    then have "i \<notin> set (open_ids l)" using find_open_None [of i l] f by simp
    then show ?thesis
      using assms None fr by (auto simp: invalidate_pair_def f prunes_def open_ids_def)
  next
    case (Some ix)
    have ix: "ix < length (lb_open l)" "pa_id (pr_assignment (lb_open l ! ix)) = i"
      using find_open_index [of i l ix] f Some by simp_all
    note rem = remove_open_ids [OF assms ix]
    define n where "n = snd (invalidate_pair i reason l)"
    have n: "lb_open n = swap_remove ix (lb_open l)" "lb_origin n = lb_origin l"
      "lb_next_pair_sequence n = lb_next_pair_sequence l" "phase n = phase l"
      using Some fr by (simp_all add: n_def invalidate_pair_def f Let_def pair_frame)
    have "done_ids n \<subseteq> insert i (done_ids l)"
      using Some fr by (simp add: n_def invalidate_pair_def f Let_def pair_frame done_interrupted)
    moreover have "i \<in> set (open_ids l)" using ix by (auto simp: open_ids_def)
    ultimately have "prunes l n"
      using n rem(1) set_swap_remove [OF ix(1)] by (auto simp: prunes_def open_ids_def)
    moreover have "\<exists>x. fst (invalidate_pair i reason l) = Inr x \<and> pi_pair_id x = i \<and> pi_reason x = reason"
      using Some by (simp add: invalidate_pair_def f Let_def)
    ultimately show ?thesis using n rem by (simp add: open_ids_def flip: n_def)
  qed
  then show "prunes l (snd (invalidate_pair i reason l))"
    and "set (open_ids (snd (invalidate_pair i reason l))) = set (open_ids l) - {i}"
    and "distinct (open_ids (snd (invalidate_pair i reason l)))"
    and "phase (snd (invalidate_pair i reason l)) = phase l"
    and "i \<in> set (open_ids l) \<Longrightarrow> \<exists>x. fst (invalidate_pair i reason l) = Inr x \<and> pi_pair_id x = i \<and> pi_reason x = reason"
    by blast+
qed

lemma invalidate_ids_effect:
  assumes "distinct (open_ids l)"
  shows "prunes l (snd (invalidate_ids reason is l))
    \<and> set (open_ids (snd (invalidate_ids reason is l))) = set (open_ids l) - set is
    \<and> distinct (open_ids (snd (invalidate_ids reason is l))) \<and> phase (snd (invalidate_ids reason is l)) = phase l
    \<and> set (open_ids l) \<inter> set is \<subseteq> set (map pi_pair_id (fst (invalidate_ids reason is l)))"
  using assms
proof (induction "is" arbitrary: l)
  case Nil
  then show ?case by (simp add: prunes_refl)
next
  case (Cons i "is")
  note one = invalidate_pair_effect [OF Cons.prems, of i reason]
  note rest = Cons.IH [OF one(3)]
  have "i \<in> set (open_ids l) \<Longrightarrow> i \<in> set (map pi_pair_id (fst (invalidate_ids reason (i # is) l)))"
    using one(5) by (auto simp: case_prod_unfold Let_def)
  moreover have "set (map pi_pair_id (fst (invalidate_ids reason is (snd (invalidate_pair i reason l)))))
      \<subseteq> set (map pi_pair_id (fst (invalidate_ids reason (i # is) l)))"
    by (auto simp: case_prod_unfold Let_def split: sum.split)
  moreover have "(set (open_ids l) - {i}) \<inter> set is
      \<subseteq> set (map pi_pair_id (fst (invalidate_ids reason is (snd (invalidate_pair i reason l)))))"
    using rest one(2) by simp
  ultimately have "set (open_ids l) \<inter> set (i # is) \<subseteq> set (map pi_pair_id (fst (invalidate_ids reason (i # is) l)))"
    by (simp only: list.set) blast
  moreover have "snd (invalidate_ids reason (i # is) l) = snd (invalidate_ids reason is (snd (invalidate_pair i reason l)))"
    by (simp add: case_prod_unfold Let_def)
  ultimately show ?case
    using one(1,2,4) rest prunes_trans by (simp only: list.set) (auto simp del: invalidate_ids.simps)
qed

text \<open>No operation on pairs moves the clock of the rollout.\<close>

lemma clock_invalidate:
  "ro_last_monotonic_millis (lb_rollout (snd (invalidate_pair i reason l))) = ro_last_monotonic_millis (lb_rollout l)"
proof -
  obtain found m where f: "find_open i l = (found, m)" by fastforce
  then show ?thesis
    using frame_find_open [of i l] by (simp add: invalidate_pair_def Let_def pair_frame split: option.split)
qed

lemma clock_invalidate_ids:
  "ro_last_monotonic_millis (lb_rollout (snd (invalidate_ids reason is l))) = ro_last_monotonic_millis (lb_rollout l)"
  by (induction "is" arbitrary: l) (simp_all add: case_prod_unfold Let_def clock_invalidate)

lemma clock_invalidate_all:
  "ro_last_monotonic_millis (lb_rollout (snd (invalidate_all reason l))) = ro_last_monotonic_millis (lb_rollout l)"
  by (simp add: invalidate_all_def clock_invalidate_ids)

lemma invalidate_all_effect:
  assumes "distinct (open_ids l)"
  shows "prunes l (snd (invalidate_all reason l))" and "lb_open (snd (invalidate_all reason l)) = []"
    and "phase (snd (invalidate_all reason l)) = phase l"
    and "set (open_ids l) \<subseteq> set (map pi_pair_id (fst (invalidate_all reason l)))"
  using invalidate_ids_effect [OF assms, of reason "open_ids l"]
  by (simp_all add: invalidate_all_def open_ids_def)

end
