(* ===== verification/Endpoint_Properties.thy ===== *)
theory Endpoint_Properties
  imports Lab_Endpoints
begin

text \<open>
  What the endpoint adapter of \<open>Lab_Endpoints\<close> guarantees after any sequence of calls: its
  queues are bounded, an arm is catalogued, a decision is bound to at most one arm, and an
  endpoint claims an execution that fits its role. Then the effect of each call on the arms it
  holds, which the composition with the laboratory rests on.
\<close>

named_theorems adapter_rules \<open>updates that keep the invariant of the adapter\<close>

subsection \<open>The invariant\<close>

definition arm_wf :: "outstanding_arm \<Rightarrow> bool" where
  "arm_wf a \<longleftrightarrow> parse_action_key (oa_action_key a) = Inr (oa_canonical a)
     \<and> oa_family a = ca_family (oa_canonical a) \<and> oa_action_class a = ca_action_class (oa_canonical a)"

definition role_honest :: "arm_kind \<Rightarrow> actuator_family \<Rightarrow> execution_closure \<Rightarrow> rollback_closure \<Rightarrow> bool" where
  "role_honest k f ex rb \<longleftrightarrow>
     (case k of
        ArmControl \<Rightarrow> ex = ExNoOp \<and> rb = RbNotRequiredNonKernel
      | ArmTreatment \<Rightarrow> ex = ExApplied
          \<and> (rb = RbFailed \<or> rb = (if f = AF_MarkovPrewarm then RbNotRequiredNonKernel else RbSucceeded)))"

definition bound_wf :: "bound_decision \<Rightarrow> bool" where
  "bound_wf b \<longleftrightarrow> arm_wf (bd_arm b) \<and> bd_decision_id b \<noteq> 0
     \<and> role_honest (oa_arm (bd_arm b)) (oa_family (bd_arm b)) (bd_execution b) (bd_rollback b)
     \<and> oa_issued_cycle (bd_arm b) \<le> bd_settled_cycle b"

definition ready_wf :: "origin \<Rightarrow> timed_pair_endpoint \<Rightarrow> bool" where
  "ready_wf og t \<longleftrightarrow> (let e = te_endpoint t in
     pe_origin e = og \<and> pe_observed_local e \<and> \<not> pe_synthetic e \<and> pe_decision_id e \<noteq> 0
     \<and> role_honest (pe_arm e) (pe_family e) (pe_execution e) (pe_rollback e) \<and> te_issued_cycle t \<le> te_completed_cycle t
     \<and> length (pe_action_key e) \<le> MAX_ACTION_KEY_BYTES)"

definition arm_identity :: "outstanding_arm \<Rightarrow> pair_id \<times> arm_kind \<times> u64" where
  "arm_identity a = (oa_pair_id a, oa_arm a, oa_issued_cycle a)"

definition adapter_bounds :: "adapter \<Rightarrow> bool" where
  "adapter_bounds s \<longleftrightarrow> length (ad_outstanding s) \<le> MAX_OUTSTANDING_ARMS
     \<and> length (ad_bound s) \<le> MAX_BOUND_DECISIONS \<and> length (ad_ready s) \<le> MAX_READY_ENDPOINTS
     \<and> length (ad_new_bindings s) \<le> MAX_BOUND_DECISIONS \<and> length (ad_consumed s) \<le> MAX_CONSUMED_DEDUP"

definition adapter_inv :: "adapter \<Rightarrow> bool" where
  "adapter_inv s \<longleftrightarrow> adapter_bounds s
     \<and> list_all arm_wf (ad_outstanding s) \<and> distinct (map arm_identity (ad_outstanding s))
     \<and> list_all bound_wf (ad_bound s) \<and> distinct (map bd_decision_id (ad_bound s))
     \<and> list_all (ready_wf (ad_origin s)) (ad_ready s)"

lemmas adapter_inv_defs = adapter_inv_def adapter_bounds_def

lemma adapter_inv_new [adapter_rules]: "adapter_inv (adapter_new og e)"
  by (simp add: adapter_inv_defs adapter_new_def)

lemma on_counters_fields [simp]:
  "ad_outstanding (on_counters f s) = ad_outstanding s" "ad_bound (on_counters f s) = ad_bound s"
  "ad_ready (on_counters f s) = ad_ready s" "ad_origin (on_counters f s) = ad_origin s"
  "ad_consumed (on_counters f s) = ad_consumed s" "ad_new_bindings (on_counters f s) = ad_new_bindings s"
  "ad_epoch (on_counters f s) = ad_epoch s" "ad_last_episode_cycle (on_counters f s) = ad_last_episode_cycle s"
  by (simp_all add: on_counters_def)

lemma adapter_inv_counters [simp]: "adapter_inv (on_counters f s) = adapter_inv s"
  by (simp add: adapter_inv_defs)

lemma adapter_inv_counts [simp]:
  "adapter_inv (count_mismatch s) = adapter_inv s" "adapter_inv (count_reject e s) = adapter_inv s"
  "adapter_inv (set_pending_utility s) = adapter_inv s"
  by (simp_all add: count_mismatch_def count_reject_def set_pending_utility_def)

lemma count_fields [simp]:
  "ad_outstanding (count_mismatch s) = ad_outstanding s" "ad_bound (count_mismatch s) = ad_bound s"
  "ad_ready (count_mismatch s) = ad_ready s" "ad_outstanding (count_reject e s) = ad_outstanding s"
  "ad_bound (count_reject e s) = ad_bound s" "ad_ready (count_reject e s) = ad_ready s"
  "ad_outstanding (set_pending_utility s) = ad_outstanding s" "ad_bound (set_pending_utility s) = ad_bound s"
  "ad_ready (set_pending_utility s) = ad_ready s" "ad_origin (count_mismatch s) = ad_origin s"
  "ad_origin (count_reject e s) = ad_origin s" "ad_origin (set_pending_utility s) = ad_origin s"
  "ad_consumed (set_pending_utility s) = ad_consumed s" "ad_new_bindings (set_pending_utility s) = ad_new_bindings s"
  "ad_consumed (count_mismatch s) = ad_consumed s" "ad_new_bindings (count_mismatch s) = ad_new_bindings s"
  by (simp_all add: count_mismatch_def count_reject_def set_pending_utility_def)

subsection \<open>Removing an element\<close>

lemma mset_remove_at: "i < length xs \<Longrightarrow> mset xs = add_mset (xs ! i) (mset (remove_at i xs))"
  by (subst id_take_nth_drop [of i xs]) (simp_all add: remove_at_def)

lemma set_remove_at: "set (remove_at i xs) \<subseteq> set xs"
  by (auto simp: remove_at_def dest: in_set_takeD in_set_dropD)

lemma length_remove_at [simp]: "length xs \<le> k \<Longrightarrow> length (remove_at i xs) \<le> k"
  by (simp add: remove_at_def)

lemma map_remove_at: "map f (remove_at i xs) = remove_at i (map f xs)"
  by (simp add: remove_at_def take_map drop_map)

lemma distinct_remove_at: "distinct xs \<Longrightarrow> distinct (remove_at i xs)"
proof (cases "i < length xs")
  case True
  assume "distinct xs"
  then have "distinct (xs ! i # remove_at i xs)"
    using mset_remove_at [OF True] by (metis mset.simps(2) mset_eq_imp_distinct_iff)
  then show ?thesis by simp
qed (simp add: remove_at_def)

lemma list_all_remove_at: "list_all P xs \<Longrightarrow> list_all P (remove_at i xs)"
  using set_remove_at [of i xs] by (auto simp: list_all_iff)

subsection \<open>Each call keeps it\<close>

lemma inv_register_one [adapter_rules]:
  assumes "adapter_inv s"
  shows "adapter_inv (register_directive cycle d s)"
proof -
  have "arm_identity (arm_of_directive x d) = arm_identity a \<longleftrightarrow> same_arm d a" for x a
    by (auto simp: arm_identity_def arm_of_directive_def same_arm_def)
  then have ids: "arm_identity (arm_of_directive x d) \<in> arm_identity ` set (ad_outstanding s)
      \<longleftrightarrow> list_ex (same_arm d) (ad_outstanding s)" for x
    by (auto simp: list_ex_iff)
  have wf: "parse_action_key (pd_action_key d) = Inr x \<Longrightarrow> ca_family x = pd_family d \<Longrightarrow>
      ca_action_class x = pd_action_class d \<Longrightarrow> arm_wf (arm_of_directive x d)" for x
    by (simp add: arm_wf_def arm_of_directive_def)
  have "adapter_inv (s\<lparr> ad_outstanding := ad_outstanding s @ [arm_of_directive x d] \<rparr>)"
    if "arm_wf (arm_of_directive x d)" "\<not> list_ex (same_arm d) (ad_outstanding s)"
      "length (ad_outstanding s) < MAX_OUTSTANDING_ARMS" for x
    using assms that by (simp add: adapter_inv_defs ids)
  then show ?thesis
    using assms wf by (auto simp: register_directive_def split: sum.split)
qed

lemma inv_register [adapter_rules]: "adapter_inv s \<Longrightarrow> adapter_inv (register_directives ds cycle s)"
  unfolding register_directives_def by (induction ds arbitrary: s) (simp_all add: adapter_rules)

lemma inv_restrict:
  assumes "adapter_inv s"
  shows "adapter_inv (s\<lparr> ad_outstanding := filter P (ad_outstanding s), ad_bound := filter Q (ad_bound s),
    ad_ready := filter R (ad_ready s), ad_new_bindings := filter S (ad_new_bindings s) \<rparr>)"
  using assms by (auto simp: adapter_inv_defs list_all_iff distinct_map_filter
    intro: le_trans [OF length_filter_le])

lemma inv_forget [adapter_rules]: "adapter_inv s \<Longrightarrow> adapter_inv (forget_pair i s)"
  unfolding forget_pair_def Let_def by (rule inv_restrict)

lemma inv_prune [adapter_rules]: "adapter_inv s \<Longrightarrow> adapter_inv (prune cycle s)"
  by (auto simp: prune_def Let_def adapter_inv_defs list_all_iff distinct_map_filter
    intro: le_trans [OF length_filter_le])

lemma inv_drains [adapter_rules]:
  "adapter_inv s \<Longrightarrow> adapter_inv (snd (drain_ready s))"
  "adapter_inv s \<Longrightarrow> adapter_inv (snd (drain_new_bindings s))"
  by (simp_all add: drain_ready_def drain_new_bindings_def adapter_inv_defs)

lemma closures_honest:
  "endpoint_closures_of ep x = Inr cl \<Longrightarrow> role_honest (ec_arm cl) (ca_family x) (ec_execution cl) (ec_rollback cl)"
  by (auto simp: endpoint_closures_of_def exploration_closures_def treatment_rollback_def role_honest_def
    split: option.splits if_splits)

lemma bind_arm_fields [simp]:
  "ad_outstanding (bind_arm ix ep cl cycle s) = remove_at ix (ad_outstanding s)"
  "ad_bound (bind_arm ix ep cl cycle s) = ad_bound s @ [\<lparr> bd_arm = ad_outstanding s ! ix,
     bd_decision_id = ep_id ep, bd_settled_cycle = ep_settled_cycle ep, bd_execution = ec_execution cl,
     bd_rollback = ec_rollback cl, bd_bound_cycle = cycle \<rparr>]"
  "ad_ready (bind_arm ix ep cl cycle s) = ad_ready s" "ad_origin (bind_arm ix ep cl cycle s) = ad_origin s"
  "ad_consumed (bind_arm ix ep cl cycle s) = push_bounded MAX_CONSUMED_DEDUP (ep_id ep) (ad_consumed s)"
  "length (ad_new_bindings s) \<le> MAX_BOUND_DECISIONS \<Longrightarrow>
     length (ad_new_bindings (bind_arm ix ep cl cycle s)) \<le> MAX_BOUND_DECISIONS"
  by (simp_all add: bind_arm_def Let_def push_bounded_length adapter_limits)

lemma inv_bind_arm:
  assumes "adapter_inv s" and "ix < length (ad_outstanding s)" and "ep_id ep \<noteq> 0"
    and "role_honest (oa_arm (ad_outstanding s ! ix)) (oa_family (ad_outstanding s ! ix)) (ec_execution cl) (ec_rollback cl)"
    and "oa_issued_cycle (ad_outstanding s ! ix) \<le> ep_settled_cycle ep"
    and "\<not> list_ex (\<lambda>b. bd_decision_id b = ep_id ep) (ad_bound s)"
    and "length (ad_bound s) < MAX_BOUND_DECISIONS"
  shows "adapter_inv (bind_arm ix ep cl cycle s)"
proof -
  have b: "adapter_bounds (bind_arm ix ep cl cycle s)"
    using assms(1,7)
    by (simp add: adapter_inv_defs push_bounded_length MAX_CONSUMED_DEDUP_def)
  have "arm_wf (ad_outstanding s ! ix)" using assms(1,2) by (simp add: adapter_inv_def list_all_length)
  then show ?thesis
    using assms b by (auto simp: adapter_inv_def list_all_remove_at map_remove_at distinct_remove_at
      bound_wf_def list_ex_iff)
qed

lemma inv_bind_episode [adapter_rules]:
  assumes "adapter_inv s"
  shows "adapter_inv (snd (bind_episode ep cycle s))"
proof -
  have "adapter_inv (bind_arm ix ep cl cycle s)"
    if "endpoint_closures_of ep x = Inr cl" "ep_id ep \<noteq> 0" "length (ad_bound s) < MAX_BOUND_DECISIONS"
      "find_index (arm_accepts x (ec_arm cl) (ep_settled_cycle ep)) (ad_outstanding s) = Some ix"
      "\<not> list_ex (\<lambda>b. bd_decision_id b = ep_id ep) (ad_bound s)" for x cl ix
  proof -
    note ix = find_index_Some [OF that(4)]
    then have "arm_wf (ad_outstanding s ! ix)" using assms by (simp add: adapter_inv_def list_all_length)
    then show ?thesis
      using ix closures_honest [OF that(1)] that(2,3,5)
      by (intro inv_bind_arm [OF assms]) (auto simp: arm_accepts_def arm_wf_def action_matches_def)
  qed
  then show ?thesis
    using assms by (auto simp: bind_episode_def split: sum.split option.split)
qed

lemma inv_observe_episodes [adapter_rules]:
  assumes "adapter_inv s"
  shows "adapter_inv (observe_episodes eps cycle s)"
proof -
  have one: "adapter_inv (observe_episode cycle ep m)" if "adapter_inv m" for ep m
  proof -
    let ?m = "on_counters (\<lambda>c. c\<lparr> ac_observed_episodes := sat_add (ac_observed_episodes c) 1 \<rparr>) m"
    have "adapter_inv (snd (bind_episode ep cycle ?m))" by (rule inv_bind_episode) (simp add: that)
    then show ?thesis by (auto simp: observe_episode_def split: prod.split option.split)
  qed
  have "adapter_inv (fold (observe_episode cycle) eps m)" if "adapter_inv m" for m
    using that by (induction eps arbitrary: m) (simp_all add: one)
  moreover have "adapter_inv (s\<lparr> ad_last_episode_cycle := Some cycle \<rparr>)"
    using assms by (simp add: adapter_inv_defs)
  ultimately show ?thesis using assms by (simp add: observe_episodes_def Let_def)
qed

lemma endpoint_ready_wf: "bound_wf b \<Longrightarrow> ready_wf og (endpoint_of og b sm cycle)"
  by (auto simp: ready_wf_def endpoint_of_def bound_wf_def arm_wf_def Let_def completion_cycle_def
    parse_action_key_def MAX_KEY_BYTES_def MAX_ACTION_KEY_BYTES_def min_def max_def split: if_splits)

lemma inv_observe_utilities [adapter_rules]:
  assumes "adapter_inv s"
  shows "adapter_inv (observe_utilities sms cycle s)"
proof -
  have one: "adapter_inv (observe_utility cycle sm m)" if m: "adapter_inv m" for sm m
  proof (cases "find_index (\<lambda>b. bd_decision_id b = us_decision_id sm) (ad_bound m)")
    case None
    then show ?thesis using m by (simp add: observe_utility_def)
  next
    case (Some ix)
    have "adapter_inv (m\<lparr> ad_bound := remove_at ix (ad_bound m) \<rparr>)"
      using m by (simp add: adapter_inv_defs list_all_remove_at map_remove_at distinct_remove_at)
    moreover have "ready_wf (ad_origin m) (endpoint_of (ad_origin m) (ad_bound m ! ix) sm cycle)"
      using m find_index_Some [OF Some] by (intro endpoint_ready_wf) (simp add: adapter_inv_def list_all_length)
    ultimately show ?thesis
      using Some by (simp add: observe_utility_def Let_def) (simp add: adapter_inv_defs)
  qed
  have "adapter_inv (fold (observe_utility cycle) sms m)" if "adapter_inv m" for m
    using that by (induction sms arbitrary: m) (simp_all add: one)
  then show ?thesis using assms by (simp add: observe_utilities_def)
qed

subsection \<open>The adapter as a machine\<close>

datatype adapter_op =
    AdRegister "pair_directive list" u64
  | AdForget pair_id
  | AdEpisodes "decision_episode list" u64
  | AdUtilities "utility_sample list" u64
  | AdPrune u64
  | AdDrainReady
  | AdDrainBindings

fun adapter_step :: "adapter_op \<Rightarrow> adapter \<Rightarrow> adapter" where
  "adapter_step (AdRegister ds cycle) s = register_directives ds cycle s"
| "adapter_step (AdForget i) s = forget_pair i s"
| "adapter_step (AdEpisodes eps cycle) s = observe_episodes eps cycle s"
| "adapter_step (AdUtilities sms cycle) s = observe_utilities sms cycle s"
| "adapter_step (AdPrune cycle) s = prune cycle s"
| "adapter_step AdDrainReady s = snd (drain_ready s)"
| "adapter_step AdDrainBindings s = snd (drain_new_bindings s)"

lemma adapter_step_inv: "adapter_inv s \<Longrightarrow> adapter_inv (adapter_step op s)"
  by (cases op) (simp_all add: adapter_rules)

interpretation endpoint_adapter: invariant_machine adapter_step adapter_inv
  by unfold_locales (rule adapter_step_inv)

text \<open>
  Whatever it is called with, the adapter stays within its five bounds, an arm it waits for
  is catalogued and registered once, a decision is bound to one arm, and every endpoint it hands
  out is a local measurement under a real identity whose execution and rollback are those its
  role implies.
\<close>

theorem adapter_reachable_inv: "adapter_inv (fold adapter_step ops (adapter_new og e))"
  by (rule endpoint_adapter.run_inv [OF adapter_inv_new])

end
