(* ===== verification/Pair_Protocol.thy ===== *)
theory Pair_Protocol
  imports Pair_Frame Endpoint_Properties
begin

text \<open>
  The protocol of one pair, as an invariant of its record: the issued arm is the one its
  progress asks for, and what it has recorded are accepted endpoints of its own candidate, one
  per arm in the assigned order. Every operation that the daemon uses keeps it.
\<close>

subsection \<open>The record of a pair\<close>

definition accepted :: "pair_candidate \<Rightarrow> pair_endpoint \<Rightarrow> bool" where
  "accepted c e \<longleftrightarrow> endpoint_matches c e \<and> pe_horizon e = HzComplete \<and> \<not> not_authoritative e
     \<and> role_honest (pe_arm e) (pc_family c) (pe_execution e) (pe_rollback e) \<and> pe_rollback e \<noteq> RbFailed"

definition endpoint_slot :: "pair_candidate \<Rightarrow> arm_kind \<Rightarrow> pair_endpoint option \<Rightarrow> bool" where
  "endpoint_slot c k e = (case e of None \<Rightarrow> False | Some x \<Rightarrow> pe_arm x = k \<and> accepted c x)"

fun expected_arm :: "pair_record \<Rightarrow> arm_kind option" where
  "expected_arm r =
     (if pr_progress r = AwaitingFirst then Some (pa_first (pr_assignment r))
      else if pr_progress r = AwaitingComplement then Some (pa_second (pr_assignment r)) else None)"

declare expected_arm.simps [simp del]

definition recorded_ok :: "pair_record \<Rightarrow> bool" where
  "recorded_ok r \<longleftrightarrow>
     (case pr_progress r of
        AwaitingFirst \<Rightarrow> pr_first_endpoint r = None \<and> pr_second_endpoint r = None
      | ReadyToClose \<Rightarrow> endpoint_slot (pr_candidate r) (pa_first (pr_assignment r)) (pr_first_endpoint r)
          \<and> endpoint_slot (pr_candidate r) (pa_second (pr_assignment r)) (pr_second_endpoint r)
      | _ \<Rightarrow> endpoint_slot (pr_candidate r) (pa_first (pr_assignment r)) (pr_first_endpoint r)
          \<and> pr_second_endpoint r = None)"

definition pair_wf :: "origin \<Rightarrow> pair_record \<Rightarrow> bool" where
  "pair_wf og r \<longleftrightarrow> pc_origin (pr_candidate r) = og
     \<and> complement (pa_first (pr_assignment r)) = pa_second (pr_assignment r)
     \<and> (case pr_issued r of None \<Rightarrow> True | Some i \<Rightarrow> expected_arm r = Some (ia_arm i))
     \<and> recorded_ok r"

lemma reissued_fields [simp]:
  "recorded_ok (r\<lparr> pr_issued := x \<rparr>) = recorded_ok r" "expected_arm (r\<lparr> pr_issued := x \<rparr>) = expected_arm r"
  "recorded_ok (r\<lparr> pr_washout_started_cycle := w \<rparr>) = recorded_ok r"
  "expected_arm (r\<lparr> pr_washout_started_cycle := w \<rparr>) = expected_arm r"
  by (simp_all add: recorded_ok_def expected_arm.simps cong: pair_progress.case_cong)

definition pairs_inv :: "lab \<Rightarrow> bool" where
  "pairs_inv l \<longleftrightarrow> lab_inv l \<and> (\<forall>r \<in> set (lb_open l). pair_wf (lb_origin l) r)
     \<and> set (open_ids l) \<inter> done_ids l = {} \<and> (phase l = PhaseShadow \<longrightarrow> lb_open l = [])"

lemma pairs_inv_distinct: "pairs_inv l \<Longrightarrow> distinct (open_ids l)"
  by (simp add: pairs_inv_def lab_inv_def ids_inv_def)

lemma pairs_inv_prunes:
  assumes "pairs_inv l" and "prunes l m" and "lab_inv m" and "phase m = PhaseShadow \<Longrightarrow> lb_open m = []"
  shows "pairs_inv m"
  using assms prunes_ids [OF assms(2)] unfolding pairs_inv_def prunes_def by auto

lemma pairs_inv_frame:
  assumes "pairs_inv l" and "lab_inv m" and "lb_origin m = lb_origin l" and "lb_open m = lb_open l"
    and "done_ids m = done_ids l" and "phase m = PhaseShadow \<Longrightarrow> phase l = PhaseShadow"
  shows "pairs_inv m"
  using assms by (simp add: pairs_inv_def open_ids_def)

subsection \<open>Advancing a cycle\<close>

lemma washout_tick_fields:
  "pr_candidate (washout_tick cycle r) = pr_candidate r" "pr_assignment (washout_tick cycle r) = pr_assignment r"
  "pr_issued (washout_tick cycle r) = pr_issued r"
  by (simp_all add: washout_tick_def Let_def split: pair_progress.split option.split)

lemma washout_tick_wf: "pair_wf og r \<Longrightarrow> pair_wf og (washout_tick cycle r)"
  by (auto simp: washout_tick_def Let_def pair_wf_def recorded_ok_def expected_arm.simps
    split: pair_progress.splits option.splits)

text \<open>The open pairs after a cycle were open before, with the same candidate and issued arm;
  those that left are reported.\<close>

definition same_pair :: "pair_record \<Rightarrow> pair_record \<Rightarrow> bool" where
  "same_pair r r' \<longleftrightarrow> pr_candidate r' = pr_candidate r \<and> pr_assignment r' = pr_assignment r
     \<and> pr_issued r' = pr_issued r"

definition advances :: "pair_id set \<Rightarrow> lab \<Rightarrow> lab \<Rightarrow> bool" where
  "advances reported l m \<longleftrightarrow> pairs_inv m \<and> (\<forall>r' \<in> set (lb_open m). \<exists>r \<in> set (lb_open l). same_pair r r')
     \<and> lb_origin m = lb_origin l \<and> lb_next_pair_sequence m = lb_next_pair_sequence l
     \<and> set (open_ids l) \<subseteq> set (open_ids m) \<union> reported"

lemma advances_emptied:
  assumes "lab_inv m" and "lb_open m = []" and "prunes l m" and "set (open_ids l) \<subseteq> reported"
  shows "advances reported l m"
  using assms by (simp add: advances_def pairs_inv_def prunes_def open_ids_def)

lemma pairs_inv_washout:
  assumes "pairs_inv l"
  shows "pairs_inv (l\<lparr> lb_open := map (washout_tick cycle) (lb_open l) \<rparr>)"
    and "open_ids (l\<lparr> lb_open := map (washout_tick cycle) (lb_open l) \<rparr>) = open_ids l"
proof -
  let ?b = "l\<lparr> lb_open := map (washout_tick cycle) (lb_open l) \<rparr>"
  have ids: "open_ids ?b = open_ids l" by (simp add: open_ids_def washout_tick_fields comp_def)
  then have "map (\<lambda>r. pa_id (pr_assignment r)) (map (washout_tick cycle) (lb_open l)) = open_ids l"
    by (simp add: open_ids_def)
  moreover have "lab_inv l" using assms by (simp add: pairs_inv_def)
  ultimately have "lab_inv ?b" using inv_map_open by blast
  then show "pairs_inv ?b" using assms ids by (auto simp: pairs_inv_def washout_tick_wf pair_frame)
  show "open_ids ?b = open_ids l" by (rule ids)
qed

lemma advance_open_cycle:
  assumes "pairs_inv l" and "allows_pair g" and "\<not> now < ro_last_monotonic_millis (lb_rollout l)"
    and "advance_cycle cycle now g l = (rep, l')"
  shows "advances (set (map pi_pair_id rep)) l l'"
proof -
  define a where "a = on_rollout (\<lambda>r. r\<lparr> ro_last_monotonic_millis := now \<rparr>) l"
  define b where "b = a\<lparr> lb_open := map (washout_tick cycle) (lb_open a) \<rparr>"
  obtain inv1 c where c: "invalidate_ids PiDeadlineExpired
      (map (\<lambda>r. pa_id (pr_assignment r)) (filter (arm_expired cycle) (map (washout_tick cycle) (lb_open a)))) b = (inv1, c)" by fastforce
  define d where "d = reap_expired_shadow_pairs cycle c"
  obtain inv2 e where e: "invalidate_all PiUnauthoritative d = (inv2, e)" by fastforce
  have li: "lab_inv l" using assms(1) by (simp add: pairs_inv_def)
  have a: "pairs_inv a" "lb_open a = lb_open l" "lb_origin a = lb_origin l"
    "lb_next_pair_sequence a = lb_next_pair_sequence l" "open_ids a = open_ids l"
    using assms(1) li unfolding a_def
    by (auto intro!: pairs_inv_frame [OF assms(1)] simp: pair_frame lab_inv_rules open_ids_def)
  note b = pairs_inv_washout [OF a(1), of cycle, folded b_def]
  have bl: "lab_inv b" using b(1) by (simp add: pairs_inv_def)
  note ceff = invalidate_ids_effect [OF pairs_inv_distinct [OF b(1)], of PiDeadlineExpired
    "map (\<lambda>r. pa_id (pr_assignment r)) (filter (arm_expired cycle) (map (washout_tick cycle) (lb_open a)))", unfolded c snd_conv fst_conv]
  have cl: "lab_inv c" using inv_invalidate_ids [OF bl] c by (metis snd_conv)
  have "prunes c d" unfolding d_def by (intro prunes_frame pair_frame)
  with ceff [THEN conjunct1] have bd: "prunes b d" by (rule prunes_trans)
  have dl: "lab_inv d" unfolding d_def by (rule inv_reap [OF cl])
  have dp: "phase d = phase b" and dopen: "lb_open d = lb_open c"
    using ceff unfolding d_def by (simp_all only: pair_frame)
  have "lb_open b = [] \<Longrightarrow> lb_open d = []" using bd by (simp add: prunes_def)
  then have dq: "pairs_inv d"
    using pairs_inv_prunes [OF b(1) bd dl] b(1) by (simp add: dp pairs_inv_def)
  have dids: "set (open_ids l) \<subseteq> set (open_ids d) \<union> set (map pi_pair_id inv1)"
  proof -
    have "open_ids d = open_ids c" by (simp add: open_ids_def dopen)
    then show ?thesis using ceff a(5) b(2) by auto
  qed
  have dsame: "\<forall>r' \<in> set (lb_open d). \<exists>r \<in> set (lb_open l). same_pair r r'"
    using bd a(2) by (force simp: prunes_def b_def same_pair_def washout_tick_fields)
  have dfix: "lb_origin d = lb_origin l" "lb_next_pair_sequence d = lb_next_pair_sequence l"
    using bd a by (simp_all add: prunes_def b_def)
  note eeff = invalidate_all_effect [OF pairs_inv_distinct [OF dq], of PiUnauthoritative, unfolded e snd_conv fst_conv]
  have el: "lab_inv e" using inv_invalidate_all [OF dl] e by (metis snd_conv)
  show ?thesis
  proof (cases "phase d \<noteq> PhaseShadow \<and> ro_canary_failures (lb_rollout d) > 0")
    case True
    then have r: "rep = inv1 @ inv2" "l' = advance_rollout now True (reset_to_shadow now ''canary-failure'' e)"
      using assms(2-4) c e by (simp_all add: advance_cycle_def a_def [symmetric] b_def [symmetric] d_def [symmetric] Let_def)
    have "lb_open e = []" "lb_origin e = lb_origin d" "lb_next_pair_sequence e = lb_next_pair_sequence d"
      using eeff by (simp_all add: prunes_def)
    moreover have "lab_inv l'" unfolding r by (intro lab_inv_rules el)
    ultimately show ?thesis
      using dids eeff(4) dfix r by (auto simp: advances_def pairs_inv_def pair_frame open_ids_def)
  next
    case False
    then have r: "rep = inv1" "l' = advance_rollout now True d"
      using assms(2-4) c e by (auto simp: advance_cycle_def a_def [symmetric] b_def [symmetric] d_def [symmetric] Let_def
          split: if_splits)
    have "pairs_inv l'"
      unfolding r using advance_rollout_not_shadow
      by (intro pairs_inv_frame [OF dq]) (simp_all add: pair_frame lab_inv_rules dl)
    then show ?thesis
      using dids dsame dfix r by (simp add: advances_def pair_frame open_ids_def)
  qed
qed

lemma advance_cycle_effect:
  assumes "pairs_inv l" and "advance_cycle cycle now g l = (rep, l')"
  shows "advances (set (map pi_pair_id rep)) l l'" and "ro_last_monotonic_millis (lb_rollout l') = now"
proof -
  define a where "a = on_rollout (\<lambda>r. r\<lparr> ro_last_monotonic_millis := now \<rparr>) l"
  have li: "lab_inv l" using assms(1) by (simp add: pairs_inv_def)
  have al: "lab_inv a" "prunes l a" "open_ids a = open_ids l"
    unfolding a_def by (simp_all add: li lab_inv_rules prunes_frame pair_frame open_ids_def)
  have dist: "distinct (open_ids l)" "distinct (open_ids a)"
    using pairs_inv_distinct [OF assms(1)] al by simp_all
  have emptied: "advances (set (map pi_pair_id rep)) l l'"
    if "prunes l m" "lab_inv m" "invalidate_all reason m = (rep, n)" "distinct (open_ids m)"
      "open_ids m = open_ids l" "lab_inv l'" "lb_open l' = lb_open n" "lb_origin l' = lb_origin n"
      "lb_next_pair_sequence l' = lb_next_pair_sequence n" "done_ids l' = done_ids n" for m n reason
  proof -
    note eff = invalidate_all_effect [OF that(4), of reason, unfolded that(3) snd_conv fst_conv]
    have "prunes n l'" using that by (intro prunes_frame) simp_all
    then have "prunes l l'" using eff(1) that(1) prunes_trans by blast
    then show ?thesis using advances_emptied [OF that(6)] eff(2,4) that(5,7) by simp
  qed
  obtain inv1 n1 where n1: "invalidate_all PiClockRegression l = (inv1, n1)" by fastforce
  obtain inv2 n2 where n2: "invalidate_all PiSafetyGate a = (inv2, n2)" by fastforce
  have nl: "lab_inv n1" "lab_inv n2"
    using inv_invalidate_all [OF li, of PiClockRegression] inv_invalidate_all [OF al(1), of PiSafetyGate] n1 n2 by simp_all
  consider (regress) "now < ro_last_monotonic_millis (lb_rollout l)"
    | (closed) "\<not> now < ro_last_monotonic_millis (lb_rollout l)" "\<not> allows_pair g"
    | (ok) "\<not> now < ro_last_monotonic_millis (lb_rollout l)" "allows_pair g" by fastforce
  then show "advances (set (map pi_pair_id rep)) l l'"
  proof cases
    case regress
    then have r: "rep = inv1" "l' = reset_to_shadow now ''clock-regression-cycle'' n1"
      using assms(2) n1 by (simp_all add: advance_cycle_def Let_def)
    show ?thesis
      by (rule emptied [OF prunes_refl li n1 [folded r(1)]]) (simp_all add: r dist pair_frame inv_reset nl)
  next
    case closed
    then have r: "rep = inv2" "l' = (if phase n2 \<noteq> PhaseShadow \<or> inv2 \<noteq> [] then reset_to_shadow now ''safety-gate'' n2 else n2)"
      using assms(2) n2 by (auto simp: advance_cycle_def a_def [symmetric] Let_def split: if_splits)
    show ?thesis
      by (rule emptied [OF al(2,1) n2 [folded r(1)]]) (simp_all add: r dist al pair_frame inv_reset nl)
  next
    case ok
    then show ?thesis using advance_open_cycle [OF assms(1) _ _ assms(2)] by blast
  qed
  show "ro_last_monotonic_millis (lb_rollout l') = now"
    using assms(2) clock_invalidate_all [of PiSafetyGate a] n2
    by (auto simp: advance_cycle_def a_def Let_def pair_frame case_prod_unfold clock_invalidate_ids split: if_splits)
qed

subsection \<open>Recording an endpoint\<close>

definition endpoint_agrees :: "lab \<Rightarrow> timed_pair_endpoint \<Rightarrow> bool" where
  "endpoint_agrees l t \<longleftrightarrow> (\<forall>r \<in> set (lb_open l). pa_id (pr_assignment r) = te_pair_id t \<longrightarrow>
     (\<exists>i. pr_issued r = Some i \<and> ia_arm i = pe_arm (te_endpoint t) \<and> ia_issued_cycle i = te_issued_cycle t
        \<and> endpoint_matches (pr_candidate r) (te_endpoint t)
        \<and> (te_completed_cycle t < ia_complete_not_before_cycle i \<longrightarrow> pe_horizon (te_endpoint t) \<noteq> HzComplete)))"

text \<open>An endpoint that is not invalidated is complete, authoritative and fits its role.\<close>

lemma valid_endpoint_accepted:
  assumes "endpoint_invalidation_reason c e completed i = None" and "endpoint_matches c e"
    and "role_honest (pe_arm e) (pe_family e) (pe_execution e) (pe_rollback e)"
  shows "accepted c e"
  using assms by (auto simp: accepted_def endpoint_invalidation_reason_def not_authoritative_def Let_def
    endpoint_matches_def role_honest_def split: if_splits horizon_closure.splits arm_kind.splits)

lemma honest_invalidation:
  assumes "endpoint_invalidation_reason c e completed i = Some reason" and "endpoint_matches c e"
    and "role_honest (pe_arm e) (pe_family e) (pe_execution e) (pe_rollback e)" and "\<not> not_authoritative e"
  shows "reason \<in> {PiDeadlineExpired, PiConfounded, PiIncompleteHorizon, PiFailedRollback}"
  using assms by (auto simp: endpoint_invalidation_reason_def not_authoritative_def Let_def
    endpoint_matches_def role_honest_def split: if_splits horizon_closure.splits arm_kind.splits)

lemma find_open_of:
  "find_index (\<lambda>r. pa_id (pr_assignment r) = i) (lb_open l) = Some ix \<Longrightarrow>
   find_open i l = (Some ix, l\<lparr> lb_pairs_examined := Suc ix \<rparr>)"
  by (simp add: find_open_def)

lemma update_open_found:
  "find_index (\<lambda>r. pa_id (pr_assignment r) = i) (lb_open l) = Some ix \<Longrightarrow>
   pr_assignment (f (lb_open l ! ix)) = pr_assignment (lb_open l ! ix) \<Longrightarrow>
   find_index (\<lambda>r. pa_id (pr_assignment r) = i) (lb_open (update_open ix f l)) = Some ix
   \<and> lb_open (update_open ix f l) = (lb_open l)[ix := f (lb_open l ! ix)]
   \<and> lb_open (update_open ix f l) ! ix = f (lb_open l ! ix) \<and> lb_origin (update_open ix f l) = lb_origin l"
  using find_index_Some [of "\<lambda>r. pa_id (pr_assignment r) = i" "lb_open l" ix]
  by (auto simp: update_open_def intro: find_index_update)

lemma complement_other: "complement a \<noteq> a"
  by (cases a) simp_all

text \<open>Recording the expected arm of a pair that waits for it: the first endpoint starts the
  washout, the second one makes the pair ready to close.\<close>

definition stored :: "pair_endpoint \<Rightarrow> pair_record \<Rightarrow> pair_record" where
  "stored e r =
     (if pr_progress r = AwaitingFirst then r\<lparr> pr_first_endpoint := Some e, pr_progress := Washout \<rparr>
      else r\<lparr> pr_second_endpoint := Some e, pr_progress := ReadyToClose \<rparr>)"

lemma stored_fields [simp]:
  "pr_candidate (stored e r) = pr_candidate r" "pr_assignment (stored e r) = pr_assignment r"
  "pr_issued (stored e r) = pr_issued r"
  by (simp_all add: stored_def)

lemma record_endpoint_expected:
  assumes "find_index (\<lambda>r. pa_id (pr_assignment r) = i) (lb_open l) = Some ix"
    and "pair_wf og (lb_open l ! ix)" and "lb_origin l = og" and "pe_origin e = og"
    and "expected_arm (lb_open l ! ix) = Some (pe_arm e)" and "endpoint_matches (pr_candidate (lb_open l ! ix)) e"
  shows "record_endpoint i e l = (Inr (pr_progress (stored e (lb_open l ! ix))),
      update_open ix (stored e) (on_metrics (count_endpoint e) (quarantine e (l\<lparr> lb_pairs_examined := Suc ix \<rparr>))))"
proof -
  let ?r = "lb_open l ! ix"
  have other: "\<not> endpoint_from_arm (pe_arm e) (pr_first_endpoint ?r)" "\<not> endpoint_from_arm (pe_arm e) (pr_second_endpoint ?r)"
    using assms(2,5) complement_other [of "pa_first (pr_assignment ?r)"]
    by (auto simp: pair_wf_def recorded_ok_def endpoint_slot_def endpoint_from_arm_def expected_arm.simps
      split: if_splits option.splits)
  consider "pr_progress ?r = AwaitingFirst" "pe_arm e = pa_first (pr_assignment ?r)"
    | "pr_progress ?r = AwaitingComplement" "pe_arm e = pa_second (pr_assignment ?r)"
    using assms(5) by (auto simp: expected_arm.simps split: if_splits)
  then show ?thesis
  proof cases
    case 1
    then show ?thesis
      using other by (simp add: record_endpoint_def find_open_of [OF assms(1)] assms(3,4,6) Let_def stored_def
        update_open_def pair_frame)
  next
    case 2
    then show ?thesis
      using other by (simp add: record_endpoint_def find_open_of [OF assms(1)] assms(3,4,6) Let_def stored_def
        update_open_def pair_frame)
  qed
qed

lemma stored_wf:
  assumes "pair_wf og r" and "expected_arm r = Some (pe_arm e)" and "accepted (pr_candidate r) e"
  shows "pair_wf og (stored e (r\<lparr> pr_issued := None \<rparr>))"
    and "pr_progress (stored e r) = Washout \<or> pr_progress (stored e r) = ReadyToClose"
  using assms by (auto simp: pair_wf_def recorded_ok_def stored_def expected_arm.simps endpoint_slot_def
    split: if_splits)

lemma frame_update_open [pair_frame]:
  "lb_origin (update_open ix f l) = lb_origin l"
  "lb_next_pair_sequence (update_open ix f l) = lb_next_pair_sequence l"
  "done_ids (update_open ix f l) = done_ids l" "lb_rollout (update_open ix f l) = lb_rollout l"
  by (simp_all add: update_open_def done_ids_def)

lemma frame_examined [pair_frame]: "done_ids (l\<lparr> lb_pairs_examined := n \<rparr>) = done_ids l"
  by (simp add: done_ids_def)

lemma timed_progress:
  fixes l ix
  defines "r \<equiv> lb_open l ! ix"
  assumes ix: "find_index (\<lambda>r. pa_id (pr_assignment r) = te_pair_id ob) (lb_open l) = Some ix"
    and wf: "pair_wf (lb_origin l) r" and i: "pr_issued r = Some i" and arm: "ia_arm i = pe_arm (te_endpoint ob)"
    and cyc: "ia_issued_cycle i = te_issued_cycle ob" and mt: "endpoint_matches (pr_candidate r) (te_endpoint ob)"
    and hz: "te_completed_cycle ob < ia_complete_not_before_cycle i \<Longrightarrow> pe_horizon (te_endpoint ob) \<noteq> HzComplete"
    and ok: "endpoint_invalidation_reason (pr_candidate r) (te_endpoint ob) (te_completed_cycle ob) i = None"
  shows "\<exists>l' w. record_timed_endpoint ob l = (Inr (TdProgress (pr_progress (stored (te_endpoint ob) r))), l')
    \<and> lb_open l' = (lb_open l)[ix := (stored (te_endpoint ob) (r\<lparr> pr_issued := None \<rparr>))\<lparr> pr_washout_started_cycle := w \<rparr>]
    \<and> lb_origin l' = lb_origin l \<and> lb_next_pair_sequence l' = lb_next_pair_sequence l
    \<and> done_ids l' = done_ids l \<and> lb_rollout l' = lb_rollout l"
proof -
  let ?e = "te_endpoint ob"
  define r0 where "r0 = r\<lparr> pr_issued := None \<rparr>"
  define u where "u = update_open ix (\<lambda>r. r\<lparr> pr_issued := None \<rparr>) (l\<lparr> lb_pairs_examined := Suc ix \<rparr>)"
  have len: "ix < length (lb_open l)" using find_index_Some [OF ix] by simp
  have ue: "lb_open u = (lb_open l)[ix := r0]" by (simp add: u_def update_open_def r0_def r_def)
  have u: "find_index (\<lambda>r. pa_id (pr_assignment r) = te_pair_id ob) (lb_open u) = Some ix"
    "lb_open u ! ix = r0" "lb_origin u = lb_origin l"
    using find_index_update [OF ix, of r0] find_index_Some [OF ix] len
    by (simp_all add: ue) (simp_all add: r0_def r_def u_def pair_frame)
  have r0: "pair_wf (lb_origin l) r0" "expected_arm r0 = Some (pe_arm ?e)" "pr_candidate r0 = pr_candidate r"
    "pr_progress (stored ?e r0) = pr_progress (stored ?e r)" "pr_washout_started_cycle r0 = pr_washout_started_cycle r"
    using wf i arm by (simp_all add: r0_def pair_wf_def stored_def)
  have org: "pe_origin ?e = lb_origin l" using mt wf by (simp add: endpoint_matches_def pair_wf_def)
  define v where "v = update_open ix (stored ?e) (on_metrics (count_endpoint ?e) (quarantine ?e (u\<lparr> lb_pairs_examined := Suc ix \<rparr>)))"
  have rec: "record_endpoint (te_pair_id ob) ?e u = (Inr (pr_progress (stored ?e r)), v)"
    using record_endpoint_expected [OF u(1) _ refl, of ?e] u r0 org mt by (simp add: v_def)
  have v: "lb_open v = (lb_open l)[ix := stored ?e r0]" "lb_origin v = lb_origin l" "done_ids v = done_ids l"
    "lb_next_pair_sequence v = lb_next_pair_sequence l" "lb_rollout v = lb_rollout l"
    using u ue len by (simp_all add: v_def update_open_def pair_frame u_def [symmetric])
      (simp_all add: u_def pair_frame)
  have vi: "find_index (\<lambda>r. pa_id (pr_assignment r) = te_pair_id ob) (lb_open v) = Some ix"
    using find_index_update [OF ix, of "stored ?e r0"] find_index_Some [OF ix] v(1) by (simp add: r0_def r_def)
  have step: "record_timed_endpoint ob l =
      (if pr_progress (stored ?e r) = Washout
       then (Inr (TdProgress (pr_progress (stored ?e r))), update_open ix
              (\<lambda>r. r\<lparr> pr_washout_started_cycle := Some (te_completed_cycle ob) \<rparr>) (v\<lparr> lb_pairs_examined := Suc ix \<rparr>))
       else (Inr (TdProgress (pr_progress (stored ?e r))), v))"
    using hz by (simp add: record_timed_endpoint_def find_open_of [OF ix] find_open_of [OF vi] Let_def
      r_def [symmetric] i arm cyc mt ok rec u_def [symmetric])
  show ?thesis
  proof (cases "pr_progress (stored ?e r) = Washout")
    case True
    then show ?thesis
      using step v len
      by (intro exI [of _ "update_open ix (\<lambda>r. r\<lparr> pr_washout_started_cycle := Some (te_completed_cycle ob) \<rparr>)
            (v\<lparr> lb_pairs_examined := Suc ix \<rparr>)"] exI [of _ "Some (te_completed_cycle ob)"])
        (simp add: update_open_def pair_frame r0_def [symmetric] done_ids_def)
  next
    case False
    moreover have "(stored ?e r0)\<lparr> pr_washout_started_cycle := pr_washout_started_cycle (stored ?e r0) \<rparr> = stored ?e r0"
      by simp
    ultimately show ?thesis
      using step v len by (intro exI [of _ v] exI [of _ "pr_washout_started_cycle (stored ?e r0)"])
        (simp add: r0_def [symmetric])
  qed
qed

text \<open>What one endpoint may do: only its own pair changes or leaves, and a pair that leaves is
  reported.\<close>

definition moves :: "pair_id \<Rightarrow> pair_id set \<Rightarrow> lab \<Rightarrow> lab \<Rightarrow> bool" where
  "moves i reported l m \<longleftrightarrow> pairs_inv m
     \<and> (\<forall>r' \<in> set (lb_open m). pa_id (pr_assignment r') \<noteq> i \<longrightarrow> r' \<in> set (lb_open l))
     \<and> set (open_ids m) \<subseteq> set (open_ids l) \<and> set (open_ids l) \<subseteq> set (open_ids m) \<union> reported
     \<and> lb_origin m = lb_origin l \<and> lb_next_pair_sequence m = lb_next_pair_sequence l"

fun reported_by :: "lab_error + timed_endpoint_disposition \<Rightarrow> pair_id set" where
  "reported_by (Inr (TdInvalidated x)) = {pi_pair_id x}"
| "reported_by _ = {}"

text \<open>
  What an endpoint that the adapter built for pair \<open>i\<close> may be answered in the state \<open>l\<close>: a pair that
  is open progresses or is invalidated, a shadow pair that is open or was is measured, and only a
  pair that is neither is unknown.
\<close>

definition expected_result :: "pair_id \<Rightarrow> lab \<Rightarrow> lab_error + timed_endpoint_disposition \<Rightarrow> bool" where
  "expected_result i l res \<longleftrightarrow>
     (if i \<in> set (open_ids l) then
        res \<in> {Inr (TdProgress Washout), Inr (TdProgress ReadyToClose)}
        \<or> (\<exists>x. res = Inr (TdInvalidated x) \<and> pi_pair_id x = i
             \<and> pi_reason x \<in> {PiDeadlineExpired, PiConfounded, PiIncompleteHorizon, PiFailedRollback})
      else if i \<in> set (shadow_ids l) \<union> set (lb_shadow_terminal l) then res = Inr TdShadowMeasured
      else res = Inl LeUnknownPair)"

lemma moves_update:
  assumes "pairs_inv l" and "ix < length (lb_open l)" and "pa_id (pr_assignment (lb_open l ! ix)) = i"
    and "lb_open m = (lb_open l)[ix := r']" and "pr_assignment r' = pr_assignment (lb_open l ! ix)"
    and "pair_wf (lb_origin l) r'" and "lab_inv m" and "lb_origin m = lb_origin l"
    and "lb_next_pair_sequence m = lb_next_pair_sequence l" and "done_ids m = done_ids l" and "phase m = phase l"
  shows "moves i {} l m"
proof -
  have ids: "open_ids m = open_ids l"
    using assms(2,5) by (simp add: open_ids_def assms(4) map_update list_update_same_conv)
  have "r' \<noteq> x \<longrightarrow> x \<in> set (lb_open l)" if "x \<in> set (lb_open m)" for x
    using that set_update_subset_insert [of "lb_open l" ix r'] by (auto simp: assms(4))
  moreover have "pa_id (pr_assignment r') = i" using assms(3,5) by simp
  ultimately have "\<forall>x \<in> set (lb_open m). pa_id (pr_assignment x) \<noteq> i \<longrightarrow> x \<in> set (lb_open l)" by blast
  moreover have "\<forall>x \<in> set (lb_open m). pair_wf (lb_origin l) x"
    using assms(1,4,6) set_update_subset_insert [of "lb_open l" ix r'] by (auto simp: pairs_inv_def)
  moreover have "phase l = PhaseShadow \<longrightarrow> lb_open m = []"
    using assms(1,4) by (simp add: pairs_inv_def)
  ultimately show ?thesis
    using assms ids by (simp add: moves_def pairs_inv_def)
qed

lemma moves_prunes:
  assumes "pairs_inv l" and "prunes l m" and "lab_inv m" and "phase m = PhaseShadow \<Longrightarrow> phase l = PhaseShadow"
    and "set (open_ids l) \<subseteq> set (open_ids m) \<union> reported"
  shows "moves i reported l m"
proof -
  have "lb_open l = [] \<Longrightarrow> lb_open m = []" using assms(2) by (simp add: prunes_def)
  then have "pairs_inv m"
    using assms(1,4) by (intro pairs_inv_prunes [OF assms(1-3)]) (simp add: pairs_inv_def)
  then show ?thesis
    using assms(2,5) prunes_ids [OF assms(2)] by (auto simp: moves_def prunes_def)
qed

lemma shadow_endpoint_known:
  "fst (record_shadow_endpoint ob l) \<longleftrightarrow> te_pair_id ob \<in> set (shadow_ids l) \<union> set (lb_shadow_terminal l)"
proof (cases "find_index (\<lambda>r. pa_id (sp_assignment r) = te_pair_id ob) (lb_shadow_open l)")
  case None
  then have "te_pair_id ob \<notin> set (shadow_ids l)" by (auto simp: find_index_None shadow_ids_def)
  then show ?thesis using None by (simp add: record_shadow_endpoint_def)
next
  case (Some ix)
  then have "te_pair_id ob \<in> set (shadow_ids l)" using find_index_Some [OF Some]
    unfolding shadow_ids_def by (metis in_set_conv_nth length_map nth_map)
  then show ?thesis using Some by (simp add: record_shadow_endpoint_def Let_def)
qed

lemma timed_endpoint_effect:
  assumes inv: "pairs_inv l" and ag: "endpoint_agrees l ob" and rw: "ready_wf (lb_origin l) ob"
  shows "moves (te_pair_id ob) (reported_by (fst (record_timed_endpoint ob l))) l (snd (record_timed_endpoint ob l))
    \<and> expected_result (te_pair_id ob) l (fst (record_timed_endpoint ob l))
    \<and> (\<forall>p. fst (record_timed_endpoint ob l) = Inr (TdProgress p) \<longrightarrow>
          (\<exists>ix. find_index (\<lambda>r. pa_id (pr_assignment r) = te_pair_id ob) (lb_open (snd (record_timed_endpoint ob l))) = Some ix
             \<and> pr_progress (lb_open (snd (record_timed_endpoint ob l)) ! ix) = p))"
proof (cases "find_index (\<lambda>r. pa_id (pr_assignment r) = te_pair_id ob) (lb_open l)")
  case None
  define m where "m = l\<lparr> lb_pairs_examined := length (lb_open l) \<rparr>"
  have r: "record_timed_endpoint ob l = (if fst (record_shadow_endpoint ob m) then Inr TdShadowMeasured else Inl LeUnknownPair,
      snd (record_shadow_endpoint ob m))"
    using None by (simp add: record_timed_endpoint_def find_open_def m_def case_prod_unfold Let_def)
  have "lab_inv (snd (record_timed_endpoint ob l))"
    using inv by (intro inv_record_timed_endpoint) (simp add: pairs_inv_def)
  then have "moves (te_pair_id ob) {} l (snd (record_timed_endpoint ob l))"
    using inv by (intro moves_prunes) (simp_all add: prunes_def r pair_frame m_def open_ids_def)
  moreover have "te_pair_id ob \<notin> set (open_ids l)" using None by (auto simp: open_ids_def find_index_None)
  moreover have "fst (record_shadow_endpoint ob m) \<longleftrightarrow>
      te_pair_id ob \<in> set (shadow_ids l) \<union> set (lb_shadow_terminal l)"
    by (simp add: shadow_endpoint_known m_def shadow_ids_def)
  ultimately show ?thesis by (simp add: r expected_result_def)
next
  case (Some ix)
  let ?r = "lb_open l ! ix" and ?e = "te_endpoint ob"
  have ix: "ix < length (lb_open l)" "pa_id (pr_assignment ?r) = te_pair_id ob" using find_index_Some [OF Some] by simp_all
  then have mem: "?r \<in> set (lb_open l)" by simp
  have wf: "pair_wf (lb_origin l) ?r" using inv mem by (simp add: pairs_inv_def)
  obtain i where i: "pr_issued ?r = Some i" "ia_arm i = pe_arm ?e" "ia_issued_cycle i = te_issued_cycle ob"
    "endpoint_matches (pr_candidate ?r) ?e"
    "te_completed_cycle ob < ia_complete_not_before_cycle i \<longrightarrow> pe_horizon ?e \<noteq> HzComplete"
    using ag mem ix(2) unfolding endpoint_agrees_def by blast
  have role: "role_honest (pe_arm ?e) (pe_family ?e) (pe_execution ?e) (pe_rollback ?e)" "\<not> not_authoritative ?e"
    using rw by (simp_all add: ready_wf_def Let_def not_authoritative_def)
  have li: "lab_inv (snd (record_timed_endpoint ob l))"
    using inv by (intro inv_record_timed_endpoint) (simp add: pairs_inv_def)
  show ?thesis
  proof (cases "endpoint_invalidation_reason (pr_candidate ?r) ?e (te_completed_cycle ob) i")
    case None
    obtain w where w: "lb_open (snd (record_timed_endpoint ob l)) = (lb_open l)[ix := (stored ?e (?r\<lparr> pr_issued := None \<rparr>))
        \<lparr> pr_washout_started_cycle := w \<rparr>]"
      "fst (record_timed_endpoint ob l) = Inr (TdProgress (pr_progress (stored ?e ?r)))"
      "lb_origin (snd (record_timed_endpoint ob l)) = lb_origin l" "lb_rollout (snd (record_timed_endpoint ob l)) = lb_rollout l"
      "lb_next_pair_sequence (snd (record_timed_endpoint ob l)) = lb_next_pair_sequence l"
      "done_ids (snd (record_timed_endpoint ob l)) = done_ids l"
      using timed_progress [OF Some wf i(1-4) _ None] i(5) by (metis fst_conv snd_conv)
    have "expected_arm ?r = Some (pe_arm ?e)" using wf i(1,2) by (simp add: pair_wf_def)
    note st = stored_wf [OF wf this valid_endpoint_accepted [OF None i(4) role(1)]]
    have "moves (te_pair_id ob) {} l (snd (record_timed_endpoint ob l))"
      using st(1) w li by (intro moves_update [OF inv ix w(1)]) (simp_all add: pair_wf_def)
    moreover have "find_index (\<lambda>r. pa_id (pr_assignment r) = te_pair_id ob) (lb_open (snd (record_timed_endpoint ob l))) = Some ix"
      unfolding w(1) by (rule find_index_update [OF \<open>find_index _ _ = Some ix\<close>]) (simp add: ix(2))
    moreover have "pr_progress (lb_open (snd (record_timed_endpoint ob l)) ! ix) = pr_progress (stored ?e ?r)"
      using ix(1) by (simp add: w(1) stored_def)
    moreover have "te_pair_id ob \<in> set (open_ids l)" using mem ix(2) by (force simp: open_ids_def)
    ultimately show ?thesis using w(2) st(2) by (auto simp: expected_result_def)
  next
    case (Some reason)
    define m where "m = quarantine ?e (l\<lparr> lb_pairs_examined := Suc ix \<rparr>)"
    have m: "open_ids m = open_ids l" "lb_open m = lb_open l" "phase m = phase l" "prunes l m"
      by (simp_all add: m_def pair_frame open_ids_def prunes_def)
    have d: "distinct (open_ids m)" using pairs_inv_distinct [OF inv] m by simp
    note eff = invalidate_pair_effect [OF d, of "te_pair_id ob" reason]
    have "te_pair_id ob \<in> set (open_ids l)" using mem ix(2) by (force simp: open_ids_def)
    then obtain x where x: "fst (invalidate_pair (te_pair_id ob) reason m) = Inr x" "pi_pair_id x = te_pair_id ob"
      "pi_reason x = reason" using eff(5) m(1) by auto
    have r: "record_timed_endpoint ob l = (Inr (TdInvalidated x), snd (invalidate_pair (te_pair_id ob) reason m))"
      using i Some x by (simp add: record_timed_endpoint_def find_open_of [OF \<open>find_index _ _ = Some ix\<close>] Let_def
        m_def [symmetric] case_prod_unfold)
    have "moves (te_pair_id ob) {te_pair_id ob} l (snd (record_timed_endpoint ob l))"
      using eff m li prunes_trans by (intro moves_prunes [OF inv]) (auto simp: r)
    then show ?thesis
      using honest_invalidation [OF Some i(4) role] \<open>te_pair_id ob \<in> set (open_ids l)\<close>
      by (simp add: r x expected_result_def)
  qed
qed

subsection \<open>Closing a pair\<close>

text \<open>Two accepted endpoints, one per arm, are authoritative unless they name one decision.\<close>

lemma accepted_authoritative:
  assumes "accepted c a" and "accepted c b" and "pe_arm a = ArmControl" and "pe_arm b = ArmTreatment"
  shows "endpoints_are_authoritative c a b \<longleftrightarrow> pe_decision_id a \<noteq> pe_decision_id b"
  using assms by (auto simp: accepted_def endpoints_are_authoritative_def not_authoritative_def role_honest_def
    Let_def word_gt_0)

lemma closure_gold:
  assumes "accepted c a" and "accepted c b" and "pe_arm b = complement (pe_arm a)"
  shows "cl_evidence (fst (closure_of i c a b)) = PairGold \<longleftrightarrow> pe_decision_id a \<noteq> pe_decision_id b"
    and "cl_id (fst (closure_of i c a b)) = i"
proof -
  show "cl_evidence (fst (closure_of i c a b)) = PairGold \<longleftrightarrow> pe_decision_id a \<noteq> pe_decision_id b"
    using assms accepted_authoritative [OF assms(1,2)] accepted_authoritative [OF assms(2,1)]
    by (cases "pe_arm a") (auto simp: closure_of_def Let_def case_prod_unfold)
  show "cl_id (fst (closure_of i c a b)) = i" by (simp add: closure_of_def Let_def case_prod_unfold)
qed

lemma phase_count_closure [simp]: "ro_phase (count_rollout_closure cl r) = ro_phase r"
  by (simp add: count_rollout_closure_def Let_def split: lab_phase.split)

lemma close_pair_effect:
  assumes inv: "pairs_inv l" and ix: "find_index (\<lambda>r. pa_id (pr_assignment r) = i) (lb_open l) = Some ix"
    and ready: "pr_progress (lb_open l ! ix) = ReadyToClose"
  shows "moves i {i} l (snd (close_pair i l))" and "i \<notin> set (open_ids (snd (close_pair i l)))"
    and "\<exists>a b. pr_first_endpoint (lb_open l ! ix) = Some a \<and> pr_second_endpoint (lb_open l ! ix) = Some b
      \<and> fst (close_pair i l) = Inr (fst (closure_of i (pr_candidate (lb_open l ! ix)) a b))
      \<and> accepted (pr_candidate (lb_open l ! ix)) a \<and> accepted (pr_candidate (lb_open l ! ix)) b
      \<and> pe_arm b = complement (pe_arm a)"
proof -
  let ?r = "lb_open l ! ix"
  have len: "ix < length (lb_open l)" "pa_id (pr_assignment ?r) = i" using find_index_Some [OF ix] by simp_all
  then have mem: "?r \<in> set (lb_open l)" by simp
  have wf: "pair_wf (lb_origin l) ?r" using inv mem by (simp add: pairs_inv_def)
  then obtain a b where ab: "pr_first_endpoint ?r = Some a" "pr_second_endpoint ?r = Some b"
    "accepted (pr_candidate ?r) a" "accepted (pr_candidate ?r) b" "pe_arm b = complement (pe_arm a)"
    using ready by (auto simp: pair_wf_def recorded_ok_def endpoint_slot_def split: option.splits)
  have "i \<in> set (open_ids l)" using mem len(2) by (force simp: open_ids_def)
  then have fresh: "i \<notin> done_ids l" using inv by (auto simp: pairs_inv_def)
  then have nd: "i \<notin> set (lb_gold_dedup l)" "\<not> list_ex (\<lambda>s. cs_id s = i) (lb_completed l)"
    by (auto simp: done_ids_def list_ex_iff)
  obtain cl gold where cg: "closure_of i (pr_candidate ?r) a b = (cl, gold)" by fastforce
  define m where "m = l\<lparr> lb_pairs_examined := Suc ix, lb_open := swap_remove ix (lb_open l) \<rparr>"
  define n where "n = (if cl_evidence cl = PairGold then
      on_metrics (count_gold gold) (m\<lparr> lb_gold_dedup := push_bounded MAX_GOLD_DEDUP i (lb_gold_dedup m),
        lb_pending_gold := push_bounded MAX_GOLD_DEDUP gold (lb_pending_gold m) \<rparr>) else m)"
  define s where "s = \<lparr> cs_id = i, cs_evidence = cl_evidence cl, cs_effect_micros = cl_effect_micros cl,
      cs_effective = cl_effective cl, cs_harmful = cl_harmful cl, cs_interrupted = False \<rparr>"
  define k where "k = on_rollout (count_rollout_closure cl) (push_completed s n)"
  have r: "close_pair i l = (Inr cl, advance_rollout (ro_last_monotonic_millis (lb_rollout k)) True k)"
    using nd by (simp add: close_pair_def find_open_of [OF ix] ready ab(1,2) cg m_def n_def s_def k_def Let_def)
  have "done_ids n \<subseteq> insert i (done_ids l)"
    using push_bounded_set [of MAX_GOLD_DEDUP i "lb_gold_dedup l"]
    by (auto simp: n_def m_def done_ids_def on_metrics_def)
  then have dk: "done_ids k \<subseteq> insert i (done_ids l)"
    using done_push_completed [of s n] by (auto simp: k_def pair_frame s_def)
  have open_k: "lb_open k = swap_remove ix (lb_open l)" "lb_origin k = lb_origin l"
    "lb_next_pair_sequence k = lb_next_pair_sequence l" "phase k = phase l"
    by (simp_all add: k_def n_def m_def pair_frame)
  note ids = remove_open_ids [OF pairs_inv_distinct [OF inv] len]
  have "prunes l k"
    using dk open_k ids(1) set_swap_remove [OF len(1)] \<open>i \<in> set (open_ids l)\<close>
    by (auto simp: prunes_def open_ids_def)
  moreover have "prunes k (snd (close_pair i l))" by (simp add: r prunes_frame pair_frame)
  ultimately have "prunes l (snd (close_pair i l))" by (rule prunes_trans)
  moreover have "lab_inv (snd (close_pair i l))" using inv by (intro inv_close_pair) (simp add: pairs_inv_def)
  moreover have "phase (snd (close_pair i l)) = PhaseShadow \<Longrightarrow> phase l = PhaseShadow"
    using advance_rollout_not_shadow open_k(4) by (simp add: r)
  moreover have "set (open_ids l) \<subseteq> set (open_ids (snd (close_pair i l))) \<union> {i}"
    using ids(1) open_k(1) by (auto simp: r open_ids_def pair_frame)
  ultimately show "moves i {i} l (snd (close_pair i l))" by (rule moves_prunes [OF inv])
  show "i \<notin> set (open_ids (snd (close_pair i l)))"
    using ids(1) open_k(1) by (auto simp: r open_ids_def pair_frame)
  show "\<exists>a b. pr_first_endpoint ?r = Some a \<and> pr_second_endpoint ?r = Some b
      \<and> fst (close_pair i l) = Inr (fst (closure_of i (pr_candidate ?r) a b))
      \<and> accepted (pr_candidate ?r) a \<and> accepted (pr_candidate ?r) b \<and> pe_arm b = complement (pe_arm a)"
    using ab cg r by simp
qed

subsection \<open>Considering a candidate\<close>

text \<open>A candidate may add one pair, under an identity that was never issued before.\<close>

definition grows :: "lab \<Rightarrow> lab \<Rightarrow> bool" where
  "grows l m \<longleftrightarrow> pairs_inv m \<and> lb_origin m = lb_origin l \<and> lb_next_pair_sequence l \<le> lb_next_pair_sequence m
     \<and> set (lb_open l) \<subseteq> set (lb_open m)
     \<and> (\<forall>r \<in> set (lb_open m) - set (lb_open l).
          \<not> issued_id (lb_origin l) (lb_next_pair_sequence l) (pa_id (pr_assignment r)))
     \<and> ro_last_monotonic_millis (lb_rollout m) = ro_last_monotonic_millis (lb_rollout l)"

lemma grows_trans: "grows l m \<Longrightarrow> grows m n \<Longrightarrow> grows l n"
  unfolding grows_def using issued_id_mono by (auto intro: order.trans) blast+

lemma grows_frame:
  assumes "pairs_inv l" and "lab_inv m" and "lb_origin m = lb_origin l" and "lb_open m = lb_open l"
    and "done_ids m = done_ids l" and "phase m = PhaseShadow \<Longrightarrow> phase l = PhaseShadow"
    and "lb_next_pair_sequence l \<le> lb_next_pair_sequence m"
    and "ro_last_monotonic_millis (lb_rollout m) = ro_last_monotonic_millis (lb_rollout l)"
  shows "grows l m"
  using pairs_inv_frame [OF assms(1-6)] assms by (simp add: grows_def)

lemma frame_notes [pair_frame]:
  "done_ids (note_proposed l) = done_ids l" "done_ids (note_randomized l) = done_ids l"
  "lb_origin (note_randomized l) = lb_origin l" "lb_open (note_randomized l) = lb_open l"
  "lb_next_pair_sequence (note_randomized l) = lb_next_pair_sequence l" "lb_rollout (note_randomized l) = lb_rollout l"
  by (simp_all add: note_proposed_def note_randomized_def pair_frame)

lemma frame_push_shadow [pair_frame]:
  "lb_origin (push_shadow c a l) = lb_origin l" "lb_open (push_shadow c a l) = lb_open l"
  "lb_next_pair_sequence (push_shadow c a l) = lb_next_pair_sequence l"
  "done_ids (push_shadow c a l) = done_ids l" "lb_rollout (push_shadow c a l) = lb_rollout l"
  by (simp_all add: push_shadow_def Let_def pair_frame)

lemma checked_succ_le: "checked_succ n = Some m \<Longrightarrow> n \<le> m"
  using next_greater by (auto simp: checked_succ_Some less_imp_le)

lemma evaluate_shadow_grows:
  assumes "pairs_inv l"
  shows "grows l (snd (evaluate_shadow c g l))"
proof -
  have f: "lb_rollout (snd (evaluate_shadow c g l)) = lb_rollout l" "lb_open (snd (evaluate_shadow c g l)) = lb_open l"
    "lb_origin (snd (evaluate_shadow c g l)) = lb_origin l" "done_ids (snd (evaluate_shadow c g l)) = done_ids l"
    "lb_next_pair_sequence l \<le> lb_next_pair_sequence (snd (evaluate_shadow c g l))"
    by (auto simp: evaluate_shadow_def Let_def pair_frame checked_succ_le split: sum.split option.split)
  have "lab_inv (snd (evaluate_shadow c g l))" using assms by (intro inv_evaluate_shadow) (simp add: pairs_inv_def)
  then show ?thesis using f by (intro grows_frame [OF assms]) simp_all
qed

lemma propose_grows:
  assumes "pairs_inv l" and "phase l \<noteq> PhaseShadow"
  shows "grows l (snd (propose c g l))"
proof (cases "\<exists>a. fst (propose c g l) = Inr a")
  case False
  then have same: "lb_open (snd (propose c g l)) = lb_open l" "lb_origin (snd (propose c g l)) = lb_origin l"
    "lb_rollout (snd (propose c g l)) = lb_rollout l" "done_ids (snd (propose c g l)) = done_ids l"
    "lb_next_pair_sequence (snd (propose c g l)) = lb_next_pair_sequence l"
    by (auto simp: propose_def Let_def pair_frame split: sum.split option.split)
  have "lab_inv (snd (propose c g l))" using assms by (intro inv_propose) (simp add: pairs_inv_def)
  then show ?thesis using same by (intro grows_frame [OF assms(1)]) simp_all
next
  case True
  then obtain nxt where n: "checked_succ (lb_next_pair_sequence l) = Some nxt" "pc_origin c = lb_origin l"
    and nc: "\<not> contains_pair (pair_id_of (lb_origin l) nxt) (note_proposed l)"
    by (auto simp: propose_def Let_def split: if_splits sum.splits option.splits)
  define r where "r = \<lparr> pr_candidate = c, pr_assignment = assignment_for (lb_origin l) nxt,
    pr_first_endpoint = None, pr_second_endpoint = None, pr_washout_elapsed = 0, pr_progress = AwaitingFirst,
    pr_issued = None, pr_washout_started_cycle = None \<rparr>"
  define m where "m = snd (propose c g l)"
  have m: "lb_open m = lb_open l @ [r]" "lb_origin m = lb_origin l" "lb_next_pair_sequence m = nxt"
    "done_ids m = done_ids l" "lb_rollout m = lb_rollout l"
    using True n by (auto simp: m_def r_def propose_def Let_def pair_frame split: if_splits sum.splits option.splits)
  have "pair_wf (lb_origin l) r"
    using n(2) assignment_complement by (simp add: r_def pair_wf_def recorded_ok_def)
  moreover have "pa_id (pr_assignment r) \<notin> done_ids l"
    using nc by (auto simp: contains_pair_def done_ids_def r_def list_ex_iff note_proposed_def on_metrics_def)
  moreover have "lab_inv m" unfolding m_def using assms by (intro inv_propose) (simp add: pairs_inv_def)
  ultimately have "pairs_inv m"
    using assms m by (auto simp: pairs_inv_def open_ids_def)
  moreover have "\<not> issued_id (lb_origin l) (lb_next_pair_sequence l) (pa_id (pr_assignment r))"
    using n(1) next_greater [of "lb_next_pair_sequence l"]
    by (auto simp: r_def issued_id_def pair_id_inj checked_succ_Some dest: leD)
  ultimately show ?thesis
    using m checked_succ_le [OF n(1)] by (auto simp: grows_def simp flip: m_def)
qed

lemma candidate_clock_effect:
  assumes "pairs_inv l" and "\<not> now < ro_last_monotonic_millis (lb_rollout l)"
  shows "pairs_inv (candidate_clock now l)" and "lb_open (candidate_clock now l) = lb_open l"
    and "lb_origin (candidate_clock now l) = lb_origin l" and "phase (candidate_clock now l) = phase l"
    and "lb_next_pair_sequence (candidate_clock now l) = lb_next_pair_sequence l"
    and "ro_last_monotonic_millis (lb_rollout (candidate_clock now l)) = now"
proof -
  have f: "lb_open (candidate_clock now l) = lb_open l" "lb_origin (candidate_clock now l) = lb_origin l"
    "phase (candidate_clock now l) = phase l" "done_ids (candidate_clock now l) = done_ids l"
    "lb_next_pair_sequence (candidate_clock now l) = lb_next_pair_sequence l"
    "ro_last_monotonic_millis (lb_rollout (candidate_clock now l)) = now"
    using assms(2) by (simp_all add: candidate_clock_def Let_def pair_frame)
  have "lab_inv (candidate_clock now l)"
    using assms(1) by (simp add: candidate_clock_def Let_def lab_inv_rules pairs_inv_def)
  then show "pairs_inv (candidate_clock now l)" using f by (intro pairs_inv_frame [OF assms(1)]) simp_all
qed (use assms(2) in \<open>simp_all add: candidate_clock_def Let_def pair_frame\<close>)

lemma route_candidate_grows:
  assumes "pairs_inv l"
  shows "grows l (snd (route_candidate c g l))"
proof -
  have li: "lab_inv l" using assms by (simp add: pairs_inv_def)
  have adjust: "grows l (on_rollout f m)"
    if "grows l m" "\<And>r. ro_phase (f r) = ro_phase r" "\<And>r. ro_last_monotonic_millis (f r) = ro_last_monotonic_millis r"
      "lab_inv (on_rollout f m)" for f m
  proof -
    have "pairs_inv m" using that(1) by (simp add: grows_def)
    then have "grows m (on_rollout f m)" using that(2-4) by (intro grows_frame) (simp_all add: pair_frame)
    with that(1) show ?thesis by (rule grows_trans)
  qed
  have s: "grows l (snd (evaluate_shadow c g l))" by (rule evaluate_shadow_grows [OF assms])
  have lr: "lab_inv (snd (route_candidate c g l))" by (rule inv_route_candidate [OF li])
  show ?thesis
  proof (cases "phase l = PhaseShadow")
    case True
    obtain res m where e: "evaluate_shadow c g l = (res, m)" by fastforce
    then show ?thesis
      using s lr True by (cases res) (auto simp: route_candidate_def intro!: adjust)
  next
    case False
    have p: "grows l (snd (propose c g l))" by (rule propose_grows [OF assms False])
    obtain res m where e: "propose c g l = (res, m)" by fastforce
    have n: "grows l (note_proposed l)" "grows l (note_randomized (note_proposed l))"
      by (intro grows_frame [OF assms]; simp add: li lab_inv_rules pair_frame)+
    show ?thesis
      using p lr False e n
      by (cases res) (auto simp: route_candidate_def Let_def intro!: adjust split: lab_phase.splits sum.split)
  qed
qed

lemma consider_candidate_grows:
  assumes "pairs_inv l" and "ro_last_monotonic_millis (lb_rollout l) = now"
  shows "grows l (snd (consider_candidate c g now l))"
proof -
  define a where "a = candidate_clock now l"
  note a = candidate_clock_effect [OF assms(1), of now, folded a_def]
  have ga: "grows l a"
    using a assms(2) by (simp add: grows_def)
  obtain res m where r: "route_candidate c g a = (res, m)" by fastforce
  have gm: "grows a m" using route_candidate_grows [of a c g] a(1) assms(2) r by simp
  then have mi: "pairs_inv m" by (simp add: grows_def)
  have "grows m (advance_rollout now b m)" for b
    using mi advance_rollout_not_shadow by (intro grows_frame [OF mi]) (simp_all add: pair_frame lab_inv_rules pairs_inv_def)
  then have "grows m (snd (consider_candidate c g now l))"
    using mi by (cases res) (auto simp: consider_candidate_def a_def [symmetric] r intro: grows_frame simp: pairs_inv_def)
  with ga gm show ?thesis using grows_trans by blast
qed

end
