(* ===== verification/Runtime_Agreement.thy ===== *)
theory Runtime_Agreement
  imports Lab_Runtime Pair_Protocol
begin

text \<open>
  The laboratory and its endpoint adapter, driven together by the daemon. The two components
  only meet through directives, endpoints and invalidations; the theorems say that what the
  adapter holds always agrees with what the laboratory issued, so that no endpoint is ever
  refused as foreign, and that an action is only asked to be withheld for a pair that is open.
\<close>

subsection \<open>Agreement of the two components\<close>

definition arm_fits :: "pair_candidate \<Rightarrow> outstanding_arm \<Rightarrow> bool" where
  "arm_fits c a \<longleftrightarrow> oa_family a = pc_family c \<and> oa_action_class a = pc_action_class c
     \<and> oa_context a = pc_context c \<and> oa_action_key a = pc_action_key c
     \<and> oa_stratum_hash a = pc_stratum_hash c \<and> oa_horizon_cycles a = pc_horizon_cycles c"

definition arm_agrees :: "lab \<Rightarrow> outstanding_arm \<Rightarrow> bool" where
  "arm_agrees l a \<longleftrightarrow> (\<forall>r \<in> set (lb_open l). pa_id (pr_assignment r) = oa_pair_id a \<longrightarrow>
     (\<exists>i. pr_issued r = Some i \<and> ia_arm i = oa_arm a \<and> ia_issued_cycle i = oa_issued_cycle a
        \<and> ia_complete_not_before_cycle i = oa_complete_not_before_cycle a \<and> arm_fits (pr_candidate r) a))"

definition held_arms :: "adapter \<Rightarrow> outstanding_arm set" where
  "held_arms s = set (ad_outstanding s) \<union> bd_arm ` set (ad_bound s)"

definition item_ids :: "adapter \<Rightarrow> pair_id multiset" where
  "item_ids s = mset (map oa_pair_id (ad_outstanding s)) + mset (map (\<lambda>b. oa_pair_id (bd_arm b)) (ad_bound s))
     + mset (map te_pair_id (ad_ready s))"

definition agree :: "lab \<Rightarrow> adapter \<Rightarrow> bool" where
  "agree l s \<longleftrightarrow> (\<forall>a \<in> held_arms s. arm_agrees l a) \<and> (\<forall>t \<in> set (ad_ready s). endpoint_agrees l t)
     \<and> (\<forall>i \<in> set (open_ids l). count (item_ids s) i \<le> 1)
     \<and> (\<forall>i \<in># item_ids s. issued_id (lb_origin l) (lb_next_pair_sequence l) i)
     \<and> ad_origin s = lb_origin l"

definition live :: "lab \<Rightarrow> adapter \<Rightarrow> bool" where
  "live l s \<longleftrightarrow> (\<forall>a \<in> held_arms s. \<not> oa_observe_only a \<longrightarrow> oa_pair_id a \<in> set (open_ids l))"

definition runtime_inv :: "runtime \<Rightarrow> bool" where
  "runtime_inv s \<longleftrightarrow> pairs_inv (rt_lab s) \<and> adapter_inv (rt_adapter s) \<and> agree (rt_lab s) (rt_adapter s)
     \<and> live (rt_lab s) (rt_adapter s) \<and> rt_origin s = lb_origin (rt_lab s)"

lemma agree_less:
  assumes "agree l s" and "held_arms s' \<subseteq> held_arms s" and "\<forall>t \<in> set (ad_ready s'). endpoint_agrees l t"
    and "item_ids s' \<subseteq># item_ids s" and "ad_origin s' = ad_origin s"
  shows "agree l s'"
proof -
  have "count (item_ids s') i \<le> 1" if "i \<in> set (open_ids l)" for i
    using mset_subset_eq_count [OF assms(4), of i] assms(1) that unfolding agree_def by fastforce
  moreover have "issued_id (lb_origin l) (lb_next_pair_sequence l) i" if "i \<in># item_ids s'" for i
    using assms(1) mset_subset_eqD [OF assms(4) that] unfolding agree_def by blast
  moreover have "\<forall>a \<in> held_arms s'. arm_agrees l a" using assms(1,2) unfolding agree_def by blast
  ultimately show ?thesis using assms(1,3,5) by (simp add: agree_def)
qed

lemma live_less: "live l s \<Longrightarrow> held_arms s' \<subseteq> held_arms s \<Longrightarrow> live l s'"
  unfolding live_def by blast

lemma mset_remove_at_map: "i < length xs \<Longrightarrow> mset (map f xs) = add_mset (f (xs ! i)) (mset (map f (remove_at i xs)))"
  using mset_remove_at [of i "map f xs"] by (simp add: map_remove_at)

subsection \<open>Calls on the adapter\<close>

lemma bind_episode_cases:
  obtains "held_arms (snd (bind_episode ep cycle s)) = held_arms s" "item_ids (snd (bind_episode ep cycle s)) = item_ids s"
      "ad_ready (snd (bind_episode ep cycle s)) = ad_ready s" "ad_origin (snd (bind_episode ep cycle s)) = ad_origin s"
proof -
  have "held_arms (bind_arm ix ep cl cycle s) = held_arms s \<and> item_ids (bind_arm ix ep cl cycle s) = item_ids s"
    if ix: "ix < length (ad_outstanding s)" for ix cl
  proof
    have "insert (ad_outstanding s ! ix) (set (remove_at ix (ad_outstanding s))) = set (ad_outstanding s)"
      using mset_remove_at [OF ix] by (metis set_mset_add_mset_insert set_mset_mset)
    then show "held_arms (bind_arm ix ep cl cycle s) = held_arms s" by (auto simp: held_arms_def)
    show "item_ids (bind_arm ix ep cl cycle s) = item_ids s"
      using mset_remove_at_map [OF ix, of oa_pair_id] by (simp add: item_ids_def)
  qed
  moreover have "held_arms (on_counters f s) = held_arms s" "item_ids (on_counters f s) = item_ids s" for f
    by (simp_all add: held_arms_def item_ids_def)
  ultimately show thesis
    by (intro that) (auto simp: bind_episode_def split: sum.split option.split dest!: find_index_Some)
qed

lemma observe_episodes_same:
  "held_arms (observe_episodes eps cycle s) = held_arms s" "item_ids (observe_episodes eps cycle s) = item_ids s"
  "ad_ready (observe_episodes eps cycle s) = ad_ready s" "ad_origin (observe_episodes eps cycle s) = ad_origin s"
proof -
  have counters: "held_arms (on_counters f m) = held_arms m" "item_ids (on_counters f m) = item_ids m"
    "held_arms (count_reject e m) = held_arms m" "item_ids (count_reject e m) = item_ids m" for f m e
    by (simp_all add: held_arms_def item_ids_def)
  have one: "held_arms (observe_episode cycle ep m) = held_arms m \<and> item_ids (observe_episode cycle ep m) = item_ids m
      \<and> ad_ready (observe_episode cycle ep m) = ad_ready m \<and> ad_origin (observe_episode cycle ep m) = ad_origin m" for ep m
  proof -
    let ?m = "on_counters (\<lambda>c. c\<lparr> ac_observed_episodes := sat_add (ac_observed_episodes c) 1 \<rparr>) m"
    obtain e n where n: "bind_episode ep cycle ?m = (e, n)" by fastforce
    show ?thesis
      by (rule bind_episode_cases [of ep cycle ?m])
        (cases e; simp add: observe_episode_def n counters)
  qed
  have "held_arms (fold (observe_episode cycle) eps m) = held_arms m \<and> item_ids (fold (observe_episode cycle) eps m) = item_ids m
      \<and> ad_ready (fold (observe_episode cycle) eps m) = ad_ready m \<and> ad_origin (fold (observe_episode cycle) eps m) = ad_origin m" for m
    by (induction eps arbitrary: m) (simp_all add: one)
  moreover have "held_arms (s\<lparr> ad_last_episode_cycle := x \<rparr>) = held_arms s" "item_ids (s\<lparr> ad_last_episode_cycle := x \<rparr>) = item_ids s" for x
    by (simp_all add: held_arms_def item_ids_def)
  ultimately show "held_arms (observe_episodes eps cycle s) = held_arms s" "item_ids (observe_episodes eps cycle s) = item_ids s"
    "ad_ready (observe_episodes eps cycle s) = ad_ready s" "ad_origin (observe_episodes eps cycle s) = ad_origin s"
    by (simp_all add: observe_episodes_def Let_def counters)
qed

lemma endpoint_of_agrees:
  assumes "arm_agrees l (bd_arm b)" and "bound_wf b" and "pairs_inv l" and "og = lb_origin l"
  shows "endpoint_agrees l (endpoint_of og b sm cycle)"
proof -
  have "length (oa_action_key (bd_arm b)) \<le> MAX_ACTION_KEY_BYTES"
    using endpoint_ready_wf [OF assms(2), of og sm cycle] by (simp add: ready_wf_def endpoint_of_def Let_def)
  then show ?thesis
    using assms by (fastforce simp: endpoint_agrees_def arm_agrees_def endpoint_of_def Let_def endpoint_matches_def
      arm_fits_def horizon_of_def pairs_inv_def pair_wf_def)
qed

lemma observe_utility_agree:
  assumes "agree l s" and "adapter_inv s" and "pairs_inv l"
  shows "agree l (observe_utility cycle sm s) \<and> held_arms (observe_utility cycle sm s) \<subseteq> held_arms s"
proof (cases "find_index (\<lambda>b. bd_decision_id b = us_decision_id sm) (ad_bound s)")
  case None
  then show ?thesis using assms by (simp add: observe_utility_def)
next
  case (Some ix)
  note ix = find_index_Some [OF Some]
  let ?b = "ad_bound s ! ix"
  have mem: "?b \<in> set (ad_bound s)" using ix by simp
  then have "bound_wf ?b" "arm_agrees l (bd_arm ?b)"
    using assms(1,2) by (auto simp: adapter_inv_def list_all_iff agree_def held_arms_def)
  then have ep: "endpoint_agrees l (endpoint_of (ad_origin s) ?b sm cycle)"
    using assms(1,3) by (intro endpoint_of_agrees) (simp_all add: agree_def)
  have ms: "mset (map (\<lambda>b. oa_pair_id (bd_arm b)) (ad_bound s)) =
      add_mset (oa_pair_id (bd_arm ?b)) (mset (map (\<lambda>b. oa_pair_id (bd_arm b)) (remove_at ix (ad_bound s))))"
    using mset_remove_at_map [of ix "ad_bound s" "\<lambda>b. oa_pair_id (bd_arm b)"] ix by simp
  have sub: "held_arms (observe_utility cycle sm s) \<subseteq> held_arms s"
    using set_remove_at [of ix "ad_bound s"] Some by (auto simp: observe_utility_def Let_def held_arms_def)
  moreover have "item_ids (observe_utility cycle sm s) \<subseteq># item_ids s"
    using ms Some by (simp add: observe_utility_def Let_def item_ids_def endpoint_of_def)
  moreover have "\<forall>t \<in> set (ad_ready (observe_utility cycle sm s)). endpoint_agrees l t"
    using ep assms(1) Some by (auto simp: observe_utility_def Let_def agree_def)
  moreover have "ad_origin (observe_utility cycle sm s) = ad_origin s" using Some by (simp add: observe_utility_def Let_def)
  ultimately show ?thesis using agree_less [OF assms(1)] by blast
qed

subsection \<open>Steps of the laboratory\<close>

lemma open_id_mem: "r \<in> set (lb_open l) \<Longrightarrow> pa_id (pr_assignment r) \<in> set (open_ids l)"
  by (simp add: open_ids_def)

lemma agree_advances:
  assumes "agree l s" and "advances R l m"
  shows "agree m s"
proof -
  have same: "\<exists>r \<in> set (lb_open l). same_pair r r'" if "r' \<in> set (lb_open m)" for r'
    using assms(2) that by (simp add: advances_def)
  then have "set (open_ids m) \<subseteq> set (open_ids l)"
    by (auto simp: open_ids_def same_pair_def) (metis image_eqI)
  moreover have "arm_agrees l a \<Longrightarrow> arm_agrees m a" for a
    using same unfolding arm_agrees_def same_pair_def by metis
  moreover have "endpoint_agrees l t \<Longrightarrow> endpoint_agrees m t" for t
    using same unfolding endpoint_agrees_def same_pair_def by metis
  ultimately show ?thesis using assms by (auto simp: agree_def advances_def)
qed

text \<open>A pair that some item names must have been open before, unchanged.\<close>

lemma agree_kept:
  assumes "agree l s" and "\<forall>r \<in> set (lb_open m). pa_id (pr_assignment r) \<in># item_ids s \<longrightarrow> r \<in> set (lb_open l)"
    and "lb_origin m = lb_origin l" and "lb_next_pair_sequence l \<le> lb_next_pair_sequence m"
  shows "agree m s"
proof -
  have arm_id: "oa_pair_id a \<in># item_ids s" if "a \<in> held_arms s" for a
    using that by (auto simp: held_arms_def item_ids_def)
  have ready_id: "te_pair_id t \<in># item_ids s" if "t \<in> set (ad_ready s)" for t
    using that by (auto simp: item_ids_def)
  have "arm_agrees m a" if "a \<in> held_arms s" for a
    using assms(1,2) that arm_id [OF that] unfolding agree_def arm_agrees_def by metis
  moreover have "endpoint_agrees m t" if "t \<in> set (ad_ready s)" for t
    using assms(1,2) that ready_id [OF that] unfolding agree_def endpoint_agrees_def by metis
  moreover have "count (item_ids s) i \<le> 1" if i: "i \<in> set (open_ids m)" for i
  proof (cases "i \<in># item_ids s")
    case True
    then have "i \<in> set (open_ids l)" using i assms(2) by (auto simp: open_ids_def)
    then show ?thesis using assms(1) unfolding agree_def by blast
  qed (simp add: not_in_iff)
  moreover have "issued_id (lb_origin m) (lb_next_pair_sequence m) i" if "i \<in># item_ids s" for i
    using assms(1,3,4) that issued_id_mono unfolding agree_def by metis
  ultimately show ?thesis using assms(1,3) by (simp add: agree_def)
qed

lemma agree_moves:
  assumes "agree l (s\<lparr> ad_ready := ob # rest \<rparr>)" and "moves (te_pair_id ob) R l m"
  shows "agree m (s\<lparr> ad_ready := rest \<rparr>)"
proof (rule agree_kept)
  have ms: "item_ids (s\<lparr> ad_ready := ob # rest \<rparr>) = add_mset (te_pair_id ob) (item_ids (s\<lparr> ad_ready := rest \<rparr>))"
    by (simp add: item_ids_def)
  show "agree l (s\<lparr> ad_ready := rest \<rparr>)"
    using assms(1) by (intro agree_less [OF assms(1)]) (simp_all add: ms, simp_all add: held_arms_def agree_def)
  have "te_pair_id ob \<notin># item_ids (s\<lparr> ad_ready := rest \<rparr>)" if "te_pair_id ob \<in> set (open_ids m)"
  proof -
    have "te_pair_id ob \<in> set (open_ids l)" using assms(2) that by (auto simp: moves_def)
    then have "count (item_ids (s\<lparr> ad_ready := ob # rest \<rparr>)) (te_pair_id ob) \<le> 1"
      using assms(1) unfolding agree_def by blast
    then show ?thesis by (simp add: ms not_in_iff)
  qed
  then show "\<forall>r \<in> set (lb_open m). pa_id (pr_assignment r) \<in># item_ids (s\<lparr> ad_ready := rest \<rparr>) \<longrightarrow> r \<in> set (lb_open l)"
    using assms(2) open_id_mem unfolding moves_def by metis
qed (use assms(2) in \<open>simp_all add: moves_def\<close>)

lemma agree_moves_gone:
  assumes "agree l s" and "moves i R l m" and "i \<notin> set (open_ids m)"
  shows "agree m s"
  using assms open_id_mem by (intro agree_kept [OF assms(1)]) (auto simp: moves_def)

lemma agree_grows:
  assumes "agree l s" and "grows l m"
  shows "agree m s"
proof (rule agree_kept [OF assms(1)])
  have "issued_id (lb_origin l) (lb_next_pair_sequence l) i" if "i \<in># item_ids s" for i
    using assms(1) that unfolding agree_def by blast
  then show "\<forall>r \<in> set (lb_open m). pa_id (pr_assignment r) \<in># item_ids s \<longrightarrow> r \<in> set (lb_open l)"
    using assms(2) unfolding grows_def by blast
qed (use assms(2) in \<open>simp_all add: grows_def\<close>)

subsection \<open>The observations of a cycle\<close>

definition reported_ids :: "tick_progress \<Rightarrow> pair_id set" where
  "reported_ids t = set (map pi_pair_id (tp_invalidations t)) \<union> set (map cl_id (tp_closures t))"

definition tracks :: "tick_progress \<Rightarrow> tick_progress \<Rightarrow> bool" where
  "tracks t t' \<longleftrightarrow> lb_origin (tp_lab t') = lb_origin (tp_lab t) \<and> reported_ids t \<subseteq> reported_ids t'
     \<and> set (open_ids (tp_lab t)) \<subseteq> set (open_ids (tp_lab t')) \<union> reported_ids t'"

lemma tracks_refl: "tracks t t"
  by (simp add: tracks_def)

lemma tracks_trans: "tracks t t' \<Longrightarrow> tracks t' t'' \<Longrightarrow> tracks t t''"
  unfolding tracks_def by auto

lemma apply_observation_effect:
  assumes inv: "pairs_inv (tp_lab t)" and ag: "agree (tp_lab t) (s\<lparr> ad_ready := ob # rest \<rparr>)"
    and rw: "ready_wf (lb_origin (tp_lab t)) ob"
  shows "pairs_inv (tp_lab (apply_observation ob t)) \<and> agree (tp_lab (apply_observation ob t)) (s\<lparr> ad_ready := rest \<rparr>)
    \<and> tracks t (apply_observation ob t)"
proof -
  let ?i = "te_pair_id ob" and ?l = "tp_lab t"
  obtain res l where r: "record_timed_endpoint ob ?l = (res, l)" by fastforce
  have ea: "endpoint_agrees ?l ob" using ag by (simp add: agree_def)
  note eff = timed_endpoint_effect [OF inv ea rw, unfolded r fst_conv snd_conv]
  have mv: "moves ?i (reported_by res) ?l l" using eff by blast
  have ag1: "agree l (s\<lparr> ad_ready := rest \<rparr>)" by (rule agree_moves [OF ag mv])
  have l: "pairs_inv l" "lb_origin l = lb_origin ?l" "set (open_ids ?l) \<subseteq> set (open_ids l) \<union> reported_by res"
    using mv by (simp_all add: moves_def)
  show ?thesis
  proof (cases "res = Inr (TdProgress ReadyToClose)")
    case True
    obtain ix where ix: "find_index (\<lambda>r. pa_id (pr_assignment r) = ?i) (lb_open l) = Some ix"
      "pr_progress (lb_open l ! ix) = ReadyToClose"
      using eff True by blast
    obtain cres m where c: "close_pair ?i l = (cres, m)" by fastforce
    have mv2: "moves ?i {?i} l m" using close_pair_effect(1) [OF l(1) ix] c by simp
    obtain cl where cl: "cres = Inr cl" "cl_id cl = ?i"
      using close_pair_effect(3) [OF l(1) ix] c closure_gold(2) by fastforce
    have gone: "?i \<notin> set (open_ids m)" using close_pair_effect(2) [OF l(1) ix] c by simp
    have "tp_lab (apply_observation ob t) = m" "reported_ids (apply_observation ob t) = insert ?i (reported_ids t)"
      using True cl by (auto simp: apply_observation_def r c Let_def reported_ids_def)
    moreover have "pairs_inv m" "lb_origin m = lb_origin l" "set (open_ids l) \<subseteq> insert ?i (set (open_ids m))"
      using mv2 by (auto simp: moves_def)
    ultimately show ?thesis
      using agree_moves_gone [OF ag1 mv2 gone] l True by (auto simp: tracks_def)
  next
    case False
    then have "tp_lab (apply_observation ob t) = l" "reported_ids t \<union> reported_by res = reported_ids (apply_observation ob t)"
      by (auto simp: apply_observation_def r Let_def reported_ids_def split: sum.split timed_endpoint_disposition.split)
    then show ?thesis using l ag1 by (auto simp: tracks_def)
  qed
qed

lemma observations_effect:
  assumes "pairs_inv (tp_lab t)" and "agree (tp_lab t) (s\<lparr> ad_ready := obs @ rest \<rparr>)"
    and "list_all (ready_wf (lb_origin (tp_lab t))) obs"
  shows "pairs_inv (tp_lab (fold apply_observation obs t))
    \<and> agree (tp_lab (fold apply_observation obs t)) (s\<lparr> ad_ready := rest \<rparr>) \<and> tracks t (fold apply_observation obs t)"
  using assms
proof (induction obs arbitrary: t)
  case Nil
  then show ?case by (simp add: tracks_refl)
next
  case (Cons ob obs)
  have one: "pairs_inv (tp_lab (apply_observation ob t))"
    "agree (tp_lab (apply_observation ob t)) (s\<lparr> ad_ready := obs @ rest \<rparr>)" "tracks t (apply_observation ob t)"
    using apply_observation_effect [where t = t and s = s and ob = ob and rest = "obs @ rest"] Cons.prems by simp_all
  moreover have "list_all (ready_wf (lb_origin (tp_lab (apply_observation ob t)))) obs"
    using Cons.prems(3) one(3) by (simp add: tracks_def)
  ultimately show ?case using Cons.IH [of "apply_observation ob t"] tracks_trans by auto
qed

lemma apply_observations_effect:
  assumes "pairs_inv (tp_lab t)" and "agree (tp_lab t) (s\<lparr> ad_ready := ci_observations ci \<rparr>)"
    and "list_all (ready_wf (lb_origin (tp_lab t))) (ci_observations ci)"
    and "ro_last_monotonic_millis (lb_rollout (tp_lab t)) = ci_monotonic_millis ci"
  shows "pairs_inv (tp_lab (apply_observations ci g t)) \<and> agree (tp_lab (apply_observations ci g t)) (s\<lparr> ad_ready := [] \<rparr>)
    \<and> tracks t (apply_observations ci g t)
    \<and> ro_last_monotonic_millis (lb_rollout (tp_lab (apply_observations ci g t))) = ci_monotonic_millis ci"
proof (cases "ci_endpoint_contract_ready ci \<and> allows_pair g")
  case True
  define u where "u = fold apply_observation (ci_observations ci) t"
  note u = observations_effect [where t = t and s = s and obs = "ci_observations ci" and rest = "[]", simplified, OF assms(1-3), folded u_def]
  obtain rep m where r: "advance_cycle (ci_cycle ci) (ci_monotonic_millis ci) g (tp_lab u) = (rep, m)" by fastforce
  have adv: "advances (set (map pi_pair_id rep)) (tp_lab u) m" "ro_last_monotonic_millis (lb_rollout m) = ci_monotonic_millis ci"
    using advance_cycle_effect [OF _ r] u by blast+
  have a: "apply_observations ci g t = u\<lparr> tp_lab := m, tp_invalidations := tp_invalidations u @ rep \<rparr>"
    using True r by (simp add: apply_observations_def u_def [symmetric] Let_def)
  have "tracks u (apply_observations ci g t)"
    using adv(1) by (auto simp: a tracks_def reported_ids_def advances_def)
  then have "tracks t (apply_observations ci g t)" using u tracks_trans by blast
  moreover have "agree m (s\<lparr> ad_ready := [] \<rparr>)" using u agree_advances [OF _ adv(1)] by blast
  ultimately show ?thesis using adv by (simp add: a advances_def)
next
  case False
  have "agree (tp_lab t) (s\<lparr> ad_ready := [] \<rparr>)"
    by (rule agree_less [OF assms(2)]) (simp_all add: held_arms_def item_ids_def)
  moreover have "apply_observations ci g t = t" using False unfolding apply_observations_def by (rule if_not_P)
  ultimately show ?thesis using assms(1,4) by (simp add: tracks_refl)
qed

subsection \<open>The candidates of a cycle\<close>

lemma grows_refl: "pairs_inv l \<Longrightarrow> grows l l"
  by (simp add: grows_def)

lemma candidates_grow:
  assumes "pairs_inv (cc_lab t)" and "ro_last_monotonic_millis (lb_rollout (cc_lab t)) = now"
  shows "grows (cc_lab t) (cc_lab (fold (consider_one g now) cs t))"
  using assms
proof (induction cs arbitrary: t)
  case Nil
  then show ?case by (simp add: grows_refl)
next
  case (Cons c cs)
  have "cc_lab (consider_one g now c t) = snd (consider_candidate c g now (cc_lab t))"
    by (auto simp: consider_one_def Let_def split: prod.split sum.split candidate_disposition.split)
  then have "grows (cc_lab t) (cc_lab (consider_one g now c t))"
    using consider_candidate_grows [OF Cons.prems] by simp
  moreover from this have "grows (cc_lab (consider_one g now c t)) (cc_lab (fold (consider_one g now) cs (consider_one g now c t)))"
    using Cons.prems(2) by (intro Cons.IH) (simp_all add: grows_def)
  ultimately show ?case using grows_trans by simp
qed

subsection \<open>Issuing arms\<close>

definition wants_arm :: "pair_record \<Rightarrow> bool" where
  "wants_arm r \<longleftrightarrow> pr_issued r = None \<and> (pr_progress r = AwaitingFirst \<or> pr_progress r = AwaitingComplement)"

definition next_arm :: "u64 \<Rightarrow> pair_record \<Rightarrow> issued_arm" where
  "next_arm cycle r =
     (let not_before = sat_add cycle (ucast (pc_horizon_cycles (pr_candidate r))) in
      \<lparr> ia_arm = (if pr_progress r = AwaitingFirst then pa_first (pr_assignment r) else pa_second (pr_assignment r)),
        ia_issued_cycle = cycle, ia_complete_not_before_cycle = not_before,
        ia_expires_after_cycle = sat_add not_before ENDPOINT_GRACE_CYCLES \<rparr>)"

definition next_directive :: "u64 \<Rightarrow> pair_record \<Rightarrow> pair_directive" where
  "next_directive cycle r = directive_of (pr_candidate r) (pa_id (pr_assignment r)) (next_arm cycle r)
     (ia_arm (next_arm cycle r) = ArmTreatment \<and> pc_family (pr_candidate r) \<noteq> AF_MarkovPrewarm) False"

definition issue_one :: "u64 \<Rightarrow> pair_record \<Rightarrow> pair_record" where
  "issue_one cycle r = (if wants_arm r then r\<lparr> pr_issued := Some (next_arm cycle r) \<rparr> else r)"

lemma issue_ready_from_eq:
  "issue_ready_from cycle rs = (map (next_directive cycle) (filter wants_arm rs), map (issue_one cycle) rs)"
  by (induction cycle rs rule: issue_ready_from.induct)
    (auto simp: Let_def wants_arm_def issue_one_def next_directive_def next_arm_def)

lemma issue_one_fields [simp]:
  "pr_candidate (issue_one cycle r) = pr_candidate r" "pr_assignment (issue_one cycle r) = pr_assignment r"
  by (simp_all add: issue_one_def)

lemma issue_one_wf: "pair_wf og r \<Longrightarrow> pair_wf og (issue_one cycle r)"
  by (auto simp: issue_one_def wants_arm_def next_arm_def pair_wf_def Let_def expected_arm.simps)

text \<open>The adapter recovers the horizon of the candidate from the two cycles of a directive.\<close>

definition cycle_in_range :: "u64 \<Rightarrow> bool" where
  "cycle_in_range cycle \<longleftrightarrow> cycle < 0xFFFFFFFF00000000"

lemma horizon_recovered:
  assumes "cycle_in_range cycle"
  shows "ucast (min (sat_sub (sat_add cycle (ucast (h :: u32))) cycle) 0xFFFFFFFF) = h"
proof -
  have h: "unat h < 2 ^ 32" using unat_bound [of h] by simp
  then have uh: "unat (ucast h :: u64) = unat h" by (simp add: unat_ucast_up)
  have c: "unat cycle < 0xFFFFFFFF00000000" using assms by (simp add: cycle_in_range_def word_less_nat_alt)
  have "unat (sat_sub (sat_add cycle (ucast h)) cycle) = unat (ucast h :: u64)"
    using h c by (simp add: unat_sat_sub unat_sat_add uh)
  then have "sat_sub (sat_add cycle (ucast h)) cycle = (ucast h :: u64)" by (simp add: word_unat_eq_iff)
  moreover have "(ucast h :: u64) \<le> 0xFFFFFFFF" using h by (simp add: word_le_nat_alt uh)
  moreover have "ucast (ucast h :: u64) = h" by (rule bit_word_eqI) (simp add: bit_simps)
  ultimately show ?thesis by (simp add: min_def)
qed

lemma next_directive_fits:
  assumes "cycle_in_range cycle"
  shows "arm_fits (pr_candidate r) (arm_of_directive x (next_directive cycle r))"
  using horizon_recovered [OF assms, of "pc_horizon_cycles (pr_candidate r)"]
  by (simp add: arm_fits_def arm_of_directive_def next_directive_def directive_of_def next_arm_def Let_def)

text \<open>The directives of a cycle, as the adapter must see them: an arm of an open pair agrees with
  the record and no item names the pair yet; an observe-only arm belongs to no open pair.\<close>

definition fresh_directive :: "lab \<Rightarrow> adapter \<Rightarrow> pair_directive \<Rightarrow> bool" where
  "fresh_directive l s d \<longleftrightarrow> (\<forall>x. arm_agrees l (arm_of_directive x d))
     \<and> (pd_pair_id d \<in> set (open_ids l) \<longrightarrow> pd_pair_id d \<notin># item_ids s)
     \<and> issued_id (lb_origin l) (lb_next_pair_sequence l) (pd_pair_id d)
     \<and> (\<not> pd_observe_only d \<longrightarrow> pd_pair_id d \<in> set (open_ids l))"

definition fresh_directives :: "lab \<Rightarrow> adapter \<Rightarrow> pair_directive list \<Rightarrow> bool" where
  "fresh_directives l s ds \<longleftrightarrow> (\<forall>d \<in> set ds. fresh_directive l s d)
     \<and> distinct (filter (\<lambda>i. i \<in> set (open_ids l)) (map pd_pair_id ds))"

lemma pair_by_id:
  assumes "pairs_inv l" and "r \<in> set (lb_open l)" and "r' \<in> set (lb_open l)"
    and "pa_id (pr_assignment r) = pa_id (pr_assignment r')"
  shows "r = r'"
  using inj_on_distinct [of "\<lambda>r. pa_id (pr_assignment r)" "lb_open l"] pairs_inv_distinct [OF assms(1)] assms(2-4)
  unfolding open_ids_def by blast

lemma item_ids_cases:
  "i \<in># item_ids s \<longleftrightarrow> (\<exists>a \<in> held_arms s. oa_pair_id a = i) \<or> (\<exists>t \<in> set (ad_ready s). te_pair_id t = i)"
  by (simp add: item_ids_def held_arms_def image_iff) blast

lemma unissued_unnamed:
  assumes "agree l s" and "r \<in> set (lb_open l)" and "pr_issued r = None"
  shows "pa_id (pr_assignment r) \<notin># item_ids s"
proof
  assume "pa_id (pr_assignment r) \<in># item_ids s"
  then consider a where "a \<in> held_arms s" "oa_pair_id a = pa_id (pr_assignment r)"
    | t where "t \<in> set (ad_ready s)" "te_pair_id t = pa_id (pr_assignment r)"
    by (metis item_ids_cases)
  then show False
  proof cases
    case 1
    then have "arm_agrees l a" using assms(1) by (simp add: agree_def)
    then show False using 1 assms(2,3) unfolding arm_agrees_def by force
  next
    case 2
    then have "endpoint_agrees l t" using assms(1) by (simp add: agree_def)
    then show False using 2 assms(2,3) unfolding endpoint_agrees_def by force
  qed
qed

lemma issue_ready_effect:
  assumes inv: "pairs_inv l" and ag: "agree l s" and cyc: "cycle_in_range cycle"
  shows "pairs_inv (snd (issue_ready_arms cycle g l))" and "agree (snd (issue_ready_arms cycle g l)) s"
    and "open_ids (snd (issue_ready_arms cycle g l)) = open_ids l"
    and "fresh_directives (snd (issue_ready_arms cycle g l)) s (fst (issue_ready_arms cycle g l))"
    and "lb_origin (snd (issue_ready_arms cycle g l)) = lb_origin l"
    and "set (map pd_pair_id (fst (issue_ready_arms cycle g l))) \<subseteq> set (open_ids l)"
proof -
  define m where "m = snd (issue_ready_arms cycle g l)"
  define ds where "ds = fst (issue_ready_arms cycle g l)"
  have "pairs_inv m \<and> agree m s \<and> open_ids m = open_ids l \<and> fresh_directives m s ds \<and> lb_origin m = lb_origin l
    \<and> set (map pd_pair_id ds) \<subseteq> set (open_ids l)"
  proof (cases "phase l = PhaseShadow \<or> \<not> allows_pair g")
    case True
    then have "m = l" "ds = []" by (simp_all add: m_def ds_def issue_ready_arms_def)
    then show ?thesis using inv ag by (simp add: fresh_directives_def)
  next
    case False
    then have m: "m = l\<lparr> lb_open := map (issue_one cycle) (lb_open l) \<rparr>"
      and ds: "ds = map (next_directive cycle) (filter wants_arm (lb_open l))"
      by (auto simp: m_def ds_def issue_ready_arms_def issue_ready_from_eq)
    have ids: "open_ids m = open_ids l" by (simp add: m open_ids_def comp_def)
    have "lab_inv m" unfolding m_def using inv by (intro inv_issue_ready_arms) (simp add: pairs_inv_def)
    then have pm: "pairs_inv m"
      using inv ids issue_one_wf by (auto simp: pairs_inv_def m pair_frame)
    have kept: "r \<in> set (lb_open l)" if "r \<in> set (lb_open m)" "pa_id (pr_assignment r) \<in># item_ids s" for r
    proof -
      obtain r0 where r0: "r0 \<in> set (lb_open l)" "r = issue_one cycle r0" using \<open>r \<in> set (lb_open m)\<close> by (auto simp: m)
      then have "pr_issued r0 \<noteq> None" using unissued_unnamed [OF ag r0(1)] that(2) by auto
      then show ?thesis using r0 by (auto simp: issue_one_def wants_arm_def)
    qed
    then have am: "agree m s" using agree_kept [OF ag, of m] by (simp add: m)
    have id: "pd_pair_id (next_directive cycle r) = pa_id (pr_assignment r)" for r
      by (simp add: next_directive_def directive_of_def)
    have fd: "fresh_directive m s (next_directive cycle r)" if r: "r \<in> set (lb_open l)" "wants_arm r" for r
    proof -
      have "arm_agrees m (arm_of_directive x (next_directive cycle r))" for x
        unfolding arm_agrees_def
      proof (intro ballI impI)
        fix r' assume r': "r' \<in> set (lb_open m)"
          "pa_id (pr_assignment r') = oa_pair_id (arm_of_directive x (next_directive cycle r))"
        then obtain r0 where "r0 \<in> set (lb_open l)" "r' = issue_one cycle r0" by (auto simp: m)
        moreover from this have "r0 = r"
          using r' pair_by_id [OF inv _ r(1)] by (simp add: arm_of_directive_def id)
        ultimately have "r' = r\<lparr> pr_issued := Some (next_arm cycle r) \<rparr>" using r(2) by (simp add: issue_one_def)
        then show "\<exists>i. pr_issued r' = Some i \<and> ia_arm i = oa_arm (arm_of_directive x (next_directive cycle r))
            \<and> ia_issued_cycle i = oa_issued_cycle (arm_of_directive x (next_directive cycle r))
            \<and> ia_complete_not_before_cycle i = oa_complete_not_before_cycle (arm_of_directive x (next_directive cycle r))
            \<and> arm_fits (pr_candidate r') (arm_of_directive x (next_directive cycle r))"
          using next_directive_fits [OF cyc, of r x]
          by (simp add: arm_of_directive_def next_directive_def directive_of_def arm_fits_def)
      qed
      moreover have "pa_id (pr_assignment r) \<notin># item_ids s"
        using unissued_unnamed [OF ag r(1)] r(2) by (simp add: wants_arm_def)
      moreover have "issued_id (lb_origin m) (lb_next_pair_sequence m) (pa_id (pr_assignment r))"
        using open_id_mem [OF r(1)] pm by (auto simp: pairs_inv_def lab_inv_def ids_inv_def ids)
      ultimately show ?thesis
        using open_id_mem [OF r(1)] by (simp add: fresh_directive_def id ids)
    qed
    have "distinct (map pd_pair_id ds)"
      using pairs_inv_distinct [OF inv] by (simp add: ds comp_def id open_ids_def distinct_map_filter)
    then have "fresh_directives m s ds" using fd by (auto simp: fresh_directives_def ds)
    moreover have "set (map pd_pair_id ds) \<subseteq> set (open_ids l)" using open_id_mem by (auto simp: ds id)
    ultimately show ?thesis using pm am ids by (simp add: m)
  qed
  then show "pairs_inv (snd (issue_ready_arms cycle g l))" and "agree (snd (issue_ready_arms cycle g l)) s"
    and "open_ids (snd (issue_ready_arms cycle g l)) = open_ids l"
    and "fresh_directives (snd (issue_ready_arms cycle g l)) s (fst (issue_ready_arms cycle g l))"
    and "lb_origin (snd (issue_ready_arms cycle g l)) = lb_origin l"
    and "set (map pd_pair_id (fst (issue_ready_arms cycle g l))) \<subseteq> set (open_ids l)"
    by (simp_all add: m_def ds_def)
qed

lemma issue_shadow_from_observe:
  "d \<in> set (fst (issue_shadow_from cycle n rs)) \<Longrightarrow>
   pd_observe_only d \<and> pd_pair_id d \<in> set (map (\<lambda>r. pa_id (sp_assignment r)) rs)"
  by (induction cycle n rs rule: issue_shadow_from.induct)
    (auto simp: Let_def case_prod_unfold directive_of_def split: if_splits)

lemma issue_shadow_effect:
  assumes inv: "pairs_inv l" and ag: "agree l s"
  shows "pairs_inv (snd (issue_shadow_arms cycle g l))" and "agree (snd (issue_shadow_arms cycle g l)) s"
    and "lb_open (snd (issue_shadow_arms cycle g l)) = lb_open l"
    and "\<forall>d \<in> set (fst (issue_shadow_arms cycle g l)). fresh_directive (snd (issue_shadow_arms cycle g l)) s d
      \<and> pd_pair_id d \<notin> set (open_ids l) \<and> pd_observe_only d"
    and "lb_origin (snd (issue_shadow_arms cycle g l)) = lb_origin l"
    and "lb_next_pair_sequence (snd (issue_shadow_arms cycle g l)) = lb_next_pair_sequence l"
proof -
  define m where "m = snd (issue_shadow_arms cycle g l)"
  have fr: "lb_open m = lb_open l" "lb_origin m = lb_origin l" "lb_next_pair_sequence m = lb_next_pair_sequence l"
    "done_ids m = done_ids l" "lb_rollout m = lb_rollout l"
    by (simp_all add: m_def issue_shadow_arms_def case_prod_unfold Let_def done_ids_def)
  have "lab_inv m" unfolding m_def using inv by (intro inv_issue_shadow_arms) (simp add: pairs_inv_def)
  then have pm: "pairs_inv m" using fr by (intro pairs_inv_frame [OF inv]) simp_all
  have "agree m s" using agree_kept [OF ag, of m] fr by simp
  moreover have "fresh_directive m s d \<and> pd_pair_id d \<notin> set (open_ids l) \<and> pd_observe_only d"
    if "d \<in> set (fst (issue_shadow_arms cycle g l))" for d
  proof -
    have "d \<in> set (fst (issue_shadow_from cycle 0 (lb_shadow_open l)))"
      using that by (auto simp: issue_shadow_arms_def case_prod_unfold Let_def split: if_splits)
    then have d: "pd_observe_only d" "pd_pair_id d \<in> set (shadow_ids l)"
      using issue_shadow_from_observe unfolding shadow_ids_def by blast+
    then have out: "pd_pair_id d \<notin> set (open_ids l)"
      and iss: "issued_id (lb_origin l) (lb_next_pair_sequence l) (pd_pair_id d)"
      using inv by (auto simp: pairs_inv_def lab_inv_def ids_inv_def)
    have "open_ids m = open_ids l" by (simp add: open_ids_def fr)
    moreover have "\<forall>r \<in> set (lb_open m). pa_id (pr_assignment r) \<noteq> pd_pair_id d"
      using out fr(1) open_id_mem by metis
    then have "arm_agrees m (arm_of_directive x d)" for x by (simp add: arm_agrees_def arm_of_directive_def)
    ultimately show ?thesis using d out iss fr by (simp add: fresh_directive_def)
  qed
  ultimately show "pairs_inv (snd (issue_shadow_arms cycle g l))" and "agree (snd (issue_shadow_arms cycle g l)) s"
    and "lb_open (snd (issue_shadow_arms cycle g l)) = lb_open l"
    and "\<forall>d \<in> set (fst (issue_shadow_arms cycle g l)). fresh_directive (snd (issue_shadow_arms cycle g l)) s d
      \<and> pd_pair_id d \<notin> set (open_ids l) \<and> pd_observe_only d"
    and "lb_origin (snd (issue_shadow_arms cycle g l)) = lb_origin l"
    and "lb_next_pair_sequence (snd (issue_shadow_arms cycle g l)) = lb_next_pair_sequence l"
    using pm fr by (simp_all add: m_def)
qed

lemma fresh_directive_same:
  "lb_open m = lb_open l \<Longrightarrow> lb_origin m = lb_origin l \<Longrightarrow> lb_next_pair_sequence m = lb_next_pair_sequence l \<Longrightarrow>
   fresh_directive m s d = fresh_directive l s d"
  by (simp add: fresh_directive_def arm_agrees_def open_ids_def)

lemma issue_arms_effect:
  assumes inv: "pairs_inv l" and ag: "agree l s" and cyc: "cycle_in_range (ci_cycle ci)"
    and r: "issue_arms ci g l = (ds, m)"
  shows "pairs_inv m \<and> agree m s \<and> open_ids m = open_ids l \<and> fresh_directives m s ds \<and> lb_origin m = lb_origin l"
proof -
  let ?c = "ci_cycle ci"
  obtain rds a where a: "(if ci_endpoint_contract_ready ci \<and> allows_pair g then issue_ready_arms ?c g l else ([], l)) = (rds, a)"
    by fastforce
  obtain sds b where b: "(if ci_endpoint_contract_ready ci then issue_shadow_arms ?c g a else ([], a)) = (sds, b)"
    by fastforce
  have rb: "ds = rds @ sds" "m = b" using r by (simp_all add: issue_arms_def a b)
  have ra: "pairs_inv a \<and> agree a s \<and> open_ids a = open_ids l \<and> fresh_directives a s rds \<and> lb_origin a = lb_origin l"
  proof (cases "ci_endpoint_contract_ready ci \<and> allows_pair g")
    case True
    then show ?thesis using a issue_ready_effect [OF inv ag cyc, of g] by simp
  next
    case False
    then have "rds = [] \<and> a = l" using a by (metis prod.inject)
    then show ?thesis using inv ag by (simp add: fresh_directives_def)
  qed
  have sh: "pairs_inv b \<and> agree b s \<and> lb_open b = lb_open a \<and> lb_origin b = lb_origin a
    \<and> lb_next_pair_sequence b = lb_next_pair_sequence a
    \<and> (\<forall>d \<in> set sds. fresh_directive b s d \<and> pd_pair_id d \<notin> set (open_ids a))"
  proof (cases "ci_endpoint_contract_ready ci")
    case True
    then show ?thesis using b issue_shadow_effect [of a s ?c g] ra by simp
  next
    case False
    then show ?thesis using b ra by simp
  qed
  then have ids: "open_ids b = open_ids a" by (simp add: open_ids_def)
  have "fresh_directive b s d" if "d \<in> set rds" for d
    using ra sh that fresh_directive_same [of b a s d] by (simp add: fresh_directives_def)
  moreover have "filter (\<lambda>i. i \<in> set (open_ids a)) (map pd_pair_id sds) = []"
    using sh by (auto simp: filter_empty_conv)
  ultimately have "fresh_directives b s (rds @ sds)"
    using ra sh ids by (auto simp: fresh_directives_def)
  then show ?thesis using ra sh ids by (simp add: rb)
qed

subsection \<open>Registering and forgetting\<close>

lemma register_directive_cases:
  "held_arms (register_directive cycle d s) = held_arms s \<and> item_ids (register_directive cycle d s) = item_ids s
   \<or> (\<exists>x. held_arms (register_directive cycle d s) = insert (arm_of_directive x d) (held_arms s)
        \<and> item_ids (register_directive cycle d s) = add_mset (pd_pair_id d) (item_ids s))"
  "ad_ready (register_directive cycle d s) = ad_ready s" "ad_origin (register_directive cycle d s) = ad_origin s"
  by (auto simp: register_directive_def held_arms_def item_ids_def count_mismatch_def arm_of_directive_def
    split: sum.split)

lemma register_one_agree:
  assumes "agree l s" and "fresh_directive l s d"
  shows "agree l (register_directive cycle d s)"
proof -
  note reg = register_directive_cases [where cycle = cycle and d = d and s = s]
  from reg(1) show ?thesis
  proof (elim disjE exE conjE)
    assume "held_arms (register_directive cycle d s) = held_arms s" "item_ids (register_directive cycle d s) = item_ids s"
    then show ?thesis using agree_less [OF assms(1)] reg(2,3) assms(1) by (simp add: agree_def)
  next
    fix x
    assume "held_arms (register_directive cycle d s) = insert (arm_of_directive x d) (held_arms s)"
      and "item_ids (register_directive cycle d s) = add_mset (pd_pair_id d) (item_ids s)"
    then show ?thesis using assms reg(2,3) by (auto simp: agree_def fresh_directive_def not_in_iff)
  qed
qed

definition live_upto :: "pair_id set \<Rightarrow> lab \<Rightarrow> adapter \<Rightarrow> bool" where
  "live_upto R l s \<longleftrightarrow> (\<forall>a \<in> held_arms s. \<not> oa_observe_only a \<longrightarrow> oa_pair_id a \<in> set (open_ids l) \<union> R)"

lemma register_one_live:
  assumes "live_upto R l s" and "fresh_directive l s d"
  shows "live_upto R l (register_directive cycle d s)"
  using assms register_directive_cases(1) [where cycle = cycle and d = d and s = s]
  by (auto simp: live_upto_def fresh_directive_def arm_of_directive_def)

lemma register_agree:
  assumes "agree l s" and "live_upto R l s" and "fresh_directives l s ds"
  shows "agree l (register_directives ds cycle s) \<and> live_upto R l (register_directives ds cycle s)"
  using assms unfolding register_directives_def
proof (induction ds arbitrary: s)
  case Nil
  then show ?case by simp
next
  case (Cons d ds)
  let ?s = "register_directive cycle d s"
  have d: "fresh_directive l s d" using Cons.prems(3) by (simp add: fresh_directives_def)
  have "fresh_directive l ?s e" if e: "e \<in> set ds" for e
  proof -
    have fe: "fresh_directive l s e" using Cons.prems(3) e by (simp add: fresh_directives_def)
    moreover have "pd_pair_id e \<noteq> pd_pair_id d" if "pd_pair_id e \<in> set (open_ids l)"
    proof
      assume same: "pd_pair_id e = pd_pair_id d"
      then have "pd_pair_id d \<in> pd_pair_id ` set ds" using e by (metis imageI)
      moreover have "pd_pair_id d \<notin> pd_pair_id ` set ds"
        using Cons.prems(3) that same by (simp add: fresh_directives_def)
      ultimately show False by simp
    qed
    ultimately show ?thesis
      using register_directive_cases(1) [where cycle = cycle and d = d and s = s] by (auto simp: fresh_directive_def)
  qed
  then have "fresh_directives l ?s ds" using Cons.prems(3) by (auto simp: fresh_directives_def split: if_splits)
  then show ?case
    using Cons.IH [of ?s] register_one_agree [OF Cons.prems(1) d] register_one_live [OF Cons.prems(2) d] by simp
qed

lemma mset_map_filter: "mset (map f (filter P xs)) \<subseteq># mset (map f xs)"
  by (simp add: image_mset_subseteq_mono multiset_filter_subset)

lemma forget_pair_effect:
  "held_arms (forget_pair i s) = {a \<in> held_arms s. oa_pair_id a \<noteq> i}" "item_ids (forget_pair i s) \<subseteq># item_ids s"
  "set (ad_ready (forget_pair i s)) \<subseteq> set (ad_ready s)" "ad_origin (forget_pair i s) = ad_origin s"
proof -
  show "held_arms (forget_pair i s) = {a \<in> held_arms s. oa_pair_id a \<noteq> i}"
    by (auto simp: forget_pair_def Let_def held_arms_def)
  show "item_ids (forget_pair i s) \<subseteq># item_ids s"
    unfolding item_ids_def forget_pair_def Let_def by (simp del: mset_map) (intro subset_mset.add_mono mset_map_filter)
qed (auto simp: forget_pair_def Let_def)

lemma forget_all_effect:
  "held_arms (fold (\<lambda>x. forget_pair (f x)) xs s) = {a \<in> held_arms s. oa_pair_id a \<notin> f ` set xs}"
  "item_ids (fold (\<lambda>x. forget_pair (f x)) xs s) \<subseteq># item_ids s"
  "set (ad_ready (fold (\<lambda>x. forget_pair (f x)) xs s)) \<subseteq> set (ad_ready s)"
  "ad_origin (fold (\<lambda>x. forget_pair (f x)) xs s) = ad_origin s"
proof (induction xs arbitrary: s)
  case (Cons x xs)
  { case 1 then show ?case using Cons.IH(1) forget_pair_effect(1) by auto }
  { case 2 then show ?case using Cons.IH(2) forget_pair_effect(2) by (auto intro: subset_mset.order_trans) }
  { case 3 then show ?case using subset_trans [OF Cons.IH(3) forget_pair_effect(3)] by simp }
  { case 4 then show ?case using Cons.IH(4) forget_pair_effect(4) by simp }
qed auto

lemma prune_effect:
  "held_arms (prune cycle s) \<subseteq> held_arms s" "item_ids (prune cycle s) \<subseteq># item_ids s"
  "ad_ready (prune cycle s) = ad_ready s" "ad_origin (prune cycle s) = ad_origin s"
proof -
  show "held_arms (prune cycle s) \<subseteq> held_arms s" by (auto simp: prune_def Let_def held_arms_def)
  show "item_ids (prune cycle s) \<subseteq># item_ids s"
    unfolding item_ids_def prune_def Let_def
    by (simp del: mset_map) (intro subset_mset.add_mono mset_map_filter)
qed (simp_all add: prune_def Let_def)

lemma settle_adapter_effect:
  assumes ag: "agree l s" and lv: "live_upto R l s" and fd: "fresh_directives l s (to_directives out)"
    and R: "R \<subseteq> set (map pi_pair_id (to_invalidations out)) \<union> set (map cl_id (to_closures out))"
  shows "agree l (settle_adapter out cycle s)" and "live l (settle_adapter out cycle s)"
proof -
  define a where "a = register_directives (to_directives out) cycle s"
  define b where "b = fold (\<lambda>i. forget_pair (pi_pair_id i)) (to_invalidations out) a"
  define c where "c = fold (\<lambda>x. forget_pair (cl_id x)) (to_closures out) b"
  have a: "agree l a" "live_upto R l a" using register_agree [OF ag lv fd, of cycle] by (simp_all add: a_def)
  note eb = forget_all_effect [of pi_pair_id "to_invalidations out" a, folded b_def]
  note ec = forget_all_effect [of cl_id "to_closures out" b, folded c_def]
  have ready: "\<forall>t \<in> set (ad_ready y). endpoint_agrees l t"
    if "agree l x" "set (ad_ready y) \<subseteq> set (ad_ready x)" for x y
    using that unfolding agree_def by blast
  have b: "agree l b" using eb(1) by (intro agree_less [OF a(1) _ ready [OF a(1) eb(3)] eb(2,4)]) simp
  have c: "agree l c" using ec(1) by (intro agree_less [OF b _ ready [OF b ec(3)] ec(2,4)]) simp
  have s: "settle_adapter out cycle s = prune cycle c" by (simp add: settle_adapter_def a_def b_def c_def Let_def)
  show "agree l (settle_adapter out cycle s)"
    unfolding s using prune_effect(1,2,4) prune_effect(3) [of cycle c]
    by (intro agree_less [OF c _ ready [OF c]]) simp_all
  have "live l c"
    using a(2) R unfolding live_def live_upto_def ec(1) eb(1) by auto
  then show "live l (settle_adapter out cycle s)" unfolding s using prune_effect(1) by (rule live_less)
qed

end
