(* ===== verification/Runtime_Properties.thy ===== *)
theory Runtime_Properties
  imports Runtime_Agreement
begin

text \<open>
  The daemon's runtime as a machine: a tick, the feeds of decisions and utilities, the drain of
  the bindings, a consumed pair and a restart. Every call keeps the agreement of
  \<open>Runtime_Agreement\<close>; the properties of the composed system follow from it.
\<close>

subsection \<open>A tick\<close>

lemma drained_frame:
  "lb_open (snd (drain_pair_gold l)) = lb_open l" "lb_origin (snd (drain_pair_gold l)) = lb_origin l"
  "lb_next_pair_sequence (snd (drain_pair_gold l)) = lb_next_pair_sequence l"
  "done_ids (snd (drain_pair_gold l)) = done_ids l" "lb_rollout (snd (drain_pair_gold l)) = lb_rollout l"
  by (simp_all add: drain_pair_gold_def done_ids_def)

lemma pairs_inv_drained: "pairs_inv l \<Longrightarrow> pairs_inv (snd (drain_pair_gold l))"
  by (rule pairs_inv_frame) (simp_all add: drained_frame pairs_inv_def inv_drain)

lemma agree_frame:
  assumes "agree l s" and "lb_open m = lb_open l" and "lb_origin m = lb_origin l"
    and "lb_next_pair_sequence m = lb_next_pair_sequence l"
  shows "agree m s"
  using agree_kept [OF assms(1), of m] assms(2-4) by simp

lemma fresh_directives_same:
  "lb_open m = lb_open l \<Longrightarrow> lb_origin m = lb_origin l \<Longrightarrow> lb_next_pair_sequence m = lb_next_pair_sequence l \<Longrightarrow>
   fresh_directives m s ds = fresh_directives l s ds"
  using fresh_directive_same [of m l] by (simp add: fresh_directives_def open_ids_def)

lemma tick_controlled_effect:
  assumes inv: "pairs_inv l" and ag: "agree l (a\<lparr> ad_ready := ci_observations ci \<rparr>)"
    and rw: "list_all (ready_wf (lb_origin l)) (ci_observations ci)" and lv: "live l a"
    and cyc: "cycle_in_range (ci_cycle ci)" and r: "tick_controlled ci l = (out, m)"
  shows "pairs_inv m \<and> agree m (a\<lparr> ad_ready := [] \<rparr>) \<and> fresh_directives m (a\<lparr> ad_ready := [] \<rparr>) (to_directives out)
    \<and> live_upto (set (map pi_pair_id (to_invalidations out)) \<union> set (map cl_id (to_closures out))) m a
    \<and> lb_origin m = lb_origin l"
proof -
  define g where "g = effective_gates (ci_endpoint_contract_ready ci) (ci_gates ci)"
  obtain inva l1 where adv: "advance_cycle (ci_cycle ci) (ci_monotonic_millis ci) g l = (inva, l1)" by fastforce
  note l1 = advance_cycle_effect [OF inv adv]
  define t0 where "t0 = \<lparr> tp_blocker = initial_blocker (ci_endpoint_contract_ready ci) g, tp_closures = [],
    tp_invalidations = inva, tp_lab = l1 \<rparr>"
  define t where "t = apply_observations ci g t0"
  have t0: "tp_lab t0 = l1" "reported_ids t0 = set (map pi_pair_id inva)" by (simp_all add: t0_def reported_ids_def)
  have og1: "lb_origin l1 = lb_origin l" and p1: "pairs_inv l1" using l1(1) by (simp_all add: advances_def)
  have t: "pairs_inv (tp_lab t)" "agree (tp_lab t) (a\<lparr> ad_ready := [] \<rparr>)" "tracks t0 t"
      "ro_last_monotonic_millis (lb_rollout (tp_lab t)) = ci_monotonic_millis ci"
    using apply_observations_effect [where t = t0 and s = a and ci = ci and g = g] p1 agree_advances [OF ag l1(1)] rw l1(2) og1
    by (simp_all add: t0 t_def)
  define c where "c = fold (consider_one g (ci_monotonic_millis ci)) (ci_candidates ci)
    \<lparr> cc_opened = 0, cc_shadowed = 0, cc_sampled_out = 0, cc_blocker = tp_blocker t, cc_lab = tp_lab t \<rparr>"
  have gr: "grows (tp_lab t) (cc_lab c)"
    unfolding c_def
    using candidates_grow [of "\<lparr> cc_opened = 0, cc_shadowed = 0, cc_sampled_out = 0, cc_blocker = tp_blocker t,
      cc_lab = tp_lab t \<rparr>" "ci_monotonic_millis ci" g "ci_candidates ci"] t(1,4) by simp
  then have pc: "pairs_inv (cc_lab c)" by (simp add: grows_def)
  obtain ds k where ik: "issue_arms ci g (cc_lab c) = (ds, k)" by fastforce
  note k = issue_arms_effect [OF pc agree_grows [OF t(2) gr] cyc ik]
  have mk: "m = snd (drain_pair_gold k)" "to_directives out = ds" "to_invalidations out = tp_invalidations t"
    "to_closures out = tp_closures t"
    using r by (auto simp: tick_controlled_def Let_def case_prod_unfold adv ik
      g_def [symmetric] t0_def [symmetric] t_def [symmetric] c_def [symmetric])
  have frame: "lb_open m = lb_open k" "lb_origin m = lb_origin k" "lb_next_pair_sequence m = lb_next_pair_sequence k"
    by (simp_all add: mk drained_frame)
  have "pairs_inv m" using pairs_inv_drained k by (simp add: mk)
  moreover have "agree m (a\<lparr> ad_ready := [] \<rparr>)" using agree_frame [OF _ frame] k by blast
  moreover have "fresh_directives m (a\<lparr> ad_ready := [] \<rparr>) (to_directives out)"
    using fresh_directives_same [OF frame] k mk by simp
  moreover have "lb_origin m = lb_origin l" using k gr t(3) og1 t0 by (simp add: frame grows_def tracks_def)
  moreover have "set (open_ids l) \<subseteq> set (open_ids m) \<union> reported_ids t"
  proof -
    have "set (open_ids l) \<subseteq> set (open_ids l1) \<union> reported_ids t0" using l1(1) by (simp add: advances_def t0)
    moreover have "set (open_ids l1) \<subseteq> set (open_ids (tp_lab t)) \<union> reported_ids t" "reported_ids t0 \<subseteq> reported_ids t"
      using t(3) by (simp_all add: tracks_def t0)
    moreover have "set (open_ids (tp_lab t)) \<subseteq> set (open_ids (cc_lab c))"
      using gr by (auto simp: grows_def open_ids_def)
    moreover have "open_ids m = open_ids (cc_lab c)" using k frame by (simp add: open_ids_def)
    ultimately show ?thesis by auto
  qed
  then have "live_upto (reported_ids t) m a"
    using lv unfolding live_def live_upto_def by blast
  ultimately show ?thesis by (simp add: mk reported_ids_def)
qed

lemma tick_blocker_fields [simp]:
  "to_directives (tick_blocker ti cs n out) = to_directives out"
  "to_invalidations (tick_blocker ti cs n out) = to_invalidations out"
  "to_closures (tick_blocker ti cs n out) = to_closures out"
  by (simp_all add: tick_blocker_def)

lemma inv_forget_all [adapter_rules]: "adapter_inv s \<Longrightarrow> adapter_inv (fold (\<lambda>x. forget_pair (f x)) xs s)"
  by (induction xs arbitrary: s) (simp_all add: inv_forget)

lemma settle_adapter_inv: "adapter_inv a \<Longrightarrow> adapter_inv (settle_adapter out cycle a)"
  by (simp add: settle_adapter_def Let_def adapter_rules)

lemma settle_adapter_blocker: "settle_adapter (tick_blocker ti cs n out) = settle_adapter out"
  by (intro ext) (simp add: settle_adapter_def)

lemma runtime_tick_inv:
  assumes inv: "runtime_inv s" and cyc: "cycle_in_range (ti_cycle ti)"
  shows "runtime_inv (snd (runtime_tick ti now s)) \<and> rt_origin (snd (runtime_tick ti now s)) = rt_origin s"
proof (cases "rt_counters s")
  case None
  then show ?thesis using inv by (simp add: runtime_tick_def runtime_inv_def)
next
  case (Some previous)
  define a where "a = (rt_adapter s)\<lparr> ad_ready := [] \<rparr>"
  define ci where "ci = \<lparr> ci_cycle = ti_cycle ti, ci_monotonic_millis = now, ci_gates = ti_gates ti,
    ci_endpoint_contract_ready = contract_ready (ti_cycle ti) (rt_epoch s) a,
    ci_candidates = fst (tick_candidates ti previous (rt_origin s)), ci_observations = ad_ready (rt_adapter s) \<rparr>"
  obtain out m where r: "tick_controlled ci (rt_lab s) = (out, m)" by fastforce
  have ai: "adapter_inv (rt_adapter s)" and oo: "ad_origin (rt_adapter s) = lb_origin (rt_lab s)"
    using inv by (simp_all add: runtime_inv_def agree_def)
  have full: "a\<lparr> ad_ready := ci_observations ci \<rparr> = rt_adapter s" by (simp add: a_def ci_def)
  have "live (rt_lab s) a" using inv live_less by (auto simp: runtime_inv_def a_def held_arms_def)
  moreover have "list_all (ready_wf (lb_origin (rt_lab s))) (ci_observations ci)"
    using ai oo by (simp add: ci_def adapter_inv_def)
  ultimately have e: "pairs_inv m" "agree m a" "fresh_directives m a (to_directives out)"
    "live_upto (set (map pi_pair_id (to_invalidations out)) \<union> set (map cl_id (to_closures out))) m a"
    "lb_origin m = lb_origin (rt_lab s)"
    using tick_controlled_effect [OF _ _ _ _ _ r, of a, unfolded full] inv cyc
    by (simp_all add: runtime_inv_def) (simp_all add: a_def ci_def)
  have "adapter_inv a" using ai inv_drains(1) [of "rt_adapter s"] by (simp add: a_def drain_ready_def)
  then have si: "adapter_inv (settle_adapter out (ti_cycle ti) a)" by (rule settle_adapter_inv)
  note st = settle_adapter_effect [OF e(2,4,3) subset_refl, of "ti_cycle ti"]
  have "snd (runtime_tick ti now s) = s\<lparr> rt_counters := Some \<lparr> cb_interaction_activations = ti_interaction_activations ti,
      cb_markov_applied = ti_markov_applied ti \<rparr>, rt_lab := m, rt_adapter := settle_adapter out (ti_cycle ti) a \<rparr>"
    using r Some by (simp add: runtime_tick_def Let_def case_prod_unfold drain_ready_def settle_adapter_blocker
      ci_def a_def [symmetric])
  then show ?thesis using e st si inv by (simp add: runtime_inv_def)
qed

subsection \<open>The other calls\<close>

lemma runtime_adapter_inv:
  assumes "runtime_inv s" and "adapter_inv a" and "agree (rt_lab s) a" and "held_arms a \<subseteq> held_arms (rt_adapter s)"
  shows "runtime_inv (s\<lparr> rt_adapter := a \<rparr>)"
  using assms live_less [OF _ assms(4)] by (simp add: runtime_inv_def)

lemma observe_decisions_inv: "runtime_inv s \<Longrightarrow> runtime_inv (rt_observe_decisions eps cycle s)"
  unfolding rt_observe_decisions_def on_adapter_def
  by (rule runtime_adapter_inv) (auto simp: runtime_inv_def inv_observe_episodes observe_episodes_same agree_def)

lemma observe_utilities_effect:
  assumes "agree l s" and "adapter_inv s" and "pairs_inv l"
  shows "agree l (observe_utilities sms cycle s) \<and> held_arms (observe_utilities sms cycle s) \<subseteq> held_arms s"
proof -
  have one: "adapter_inv (observe_utility cycle sm m)" if "adapter_inv m" for sm m
    using inv_observe_utilities [OF that, of "[sm]" cycle] by (simp add: observe_utilities_def)
  have "agree l (fold (observe_utility cycle) sms m) \<and> held_arms (fold (observe_utility cycle) sms m) \<subseteq> held_arms m"
    if "agree l m" "adapter_inv m" for m
    using that
  proof (induction sms arbitrary: m)
    case (Cons sm sms)
    then show ?case using observe_utility_agree [OF Cons.prems assms(3), of cycle sm] one [of m sm] by auto
  qed simp
  then have f: "agree l (fold (observe_utility cycle) sms s)" "held_arms (fold (observe_utility cycle) sms s) \<subseteq> held_arms s"
    using assms by blast+
  have same: "held_arms (set_pending_utility m) = held_arms m" "item_ids (set_pending_utility m) = item_ids m" for m
    by (simp_all add: held_arms_def item_ids_def)
  show ?thesis using f by (simp add: observe_utilities_def same agree_def)
qed

lemma observe_utilities_inv: "runtime_inv s \<Longrightarrow> runtime_inv (rt_observe_utilities sms cycle s)"
  using runtime_adapter_inv [of s] observe_utilities_effect [of "rt_lab s" "rt_adapter s" sms cycle]
  by (simp add: rt_observe_utilities_def on_adapter_def runtime_inv_def inv_observe_utilities)

lemma drain_bindings_inv: "runtime_inv s \<Longrightarrow> runtime_inv (snd (rt_drain_new_bindings s))"
  using inv_drains(2) [of "rt_adapter s"]
  by (simp add: rt_drain_new_bindings_def drain_new_bindings_def runtime_inv_def agree_def live_def held_arms_def item_ids_def)

lemma consume_frame:
  "lb_open (snd (consume_exploration_pair p i h l)) = lb_open l"
  "lb_origin (snd (consume_exploration_pair p i h l)) = lb_origin l"
  "lb_next_pair_sequence (snd (consume_exploration_pair p i h l)) = lb_next_pair_sequence l"
  "done_ids (snd (consume_exploration_pair p i h l)) = done_ids l"
  "phase (snd (consume_exploration_pair p i h l)) = phase l"
  unfolding consume_exploration_pair_def Let_def by (simp_all add: pair_frame) (simp add: done_ids_def on_metrics_def)

lemma consume_inv: "runtime_inv s \<Longrightarrow> runtime_inv (snd (rt_consume_pair p i h s))"
proof -
  assume inv: "runtime_inv s"
  let ?m = "snd (consume_exploration_pair p i h (rt_lab s))"
  have "pairs_inv ?m"
  proof (rule pairs_inv_frame)
    show "pairs_inv (rt_lab s)" using inv by (simp add: runtime_inv_def)
    then show "lab_inv ?m" by (simp add: pairs_inv_def inv_consume)
  qed (simp_all add: consume_frame)
  moreover have "agree ?m (rt_adapter s)"
    using inv by (simp add: runtime_inv_def agree_frame [OF _ consume_frame(1-3)])
  ultimately show ?thesis
    using inv by (simp add: rt_consume_pair_def case_prod_unfold Let_def runtime_inv_def live_def open_ids_def consume_frame)
qed

subsection \<open>A restart\<close>

definition rt_restart :: "(lab_persisted \<Rightarrow> nat option) \<Rightarrow> u64 \<Rightarrow> runtime \<Rightarrow> runtime" where
  "rt_restart json_len e s = runtime_with_epoch json_len (rt_origin s) (Some (rt_persisted s)) e"

lemma fresh_runtime_inv:
  assumes "pairs_inv l" and "lb_origin l = og"
  shows "runtime_inv \<lparr> rt_origin = og, rt_lab = l, rt_adapter = adapter_new og e, rt_epoch = e, rt_counters = c,
    rt_restore = x \<rparr>"
  using assms adapter_inv_new [of og e]
  by (simp add: runtime_inv_def agree_def live_def held_arms_def item_ids_def adapter_new_def)

lemma empty_pairs_inv: "lab_inv l \<Longrightarrow> lb_open l = [] \<Longrightarrow> pairs_inv l"
  by (simp add: pairs_inv_def open_ids_def)

lemma restart_empty:
  "lb_open (fst (lab_restart json_len l)) = []" "lb_origin (fst (lab_restart json_len l)) = lb_origin l"
proof -
  show "lb_open (fst (lab_restart json_len l)) = []"
    by (rule lab_restart_cases [of json_len l]) (simp_all add: on_rollout_def restored_base_def lab_cold_start_def)
  show "lb_origin (fst (lab_restart json_len l)) = lb_origin l"
    by (rule lab_restart_cases [of json_len l])
      (simp_all add: on_rollout_def restored_base_def lab_cold_start_def drop_stale_shadow_def
        reconcile_authoritative_metrics_def interrupt_open_def on_metrics_def case_prod_unfold Let_def push_all_fields)
qed

lemma runtime_start_inv: "runtime_inv (runtime_with_epoch json_len og None e)"
  unfolding runtime_with_epoch_def Let_def option.case prod.case
proof (rule fresh_runtime_inv)
  show "lb_origin (lab_cold_start og) = og" by (simp add: lab_cold_start_def)
  show "pairs_inv (lab_cold_start og)" by (rule empty_pairs_inv [OF lab_inv_cold]) (simp add: lab_cold_start_def)
qed

lemma runtime_restart_inv: "runtime_inv s \<Longrightarrow> runtime_inv (rt_restart json_len e s)"
proof -
  assume inv: "runtime_inv s"
  define l where "l = fst (lab_restart json_len (rt_lab s))"
  have og: "rt_origin s = lb_origin (rt_lab s)" and li: "lab_inv (rt_lab s)" using inv by (simp_all add: runtime_inv_def pairs_inv_def)
  have "lab_inv l" unfolding l_def using lab_step_inv [OF li, of json_len OpRestart] by simp
  then have "pairs_inv l" "lb_origin l = rt_origin s" using restart_empty og by (simp_all add: empty_pairs_inv l_def)
  moreover have "rt_restart json_len e s = \<lparr> rt_origin = rt_origin s, rt_lab = l, rt_adapter = adapter_new (rt_origin s) e,
      rt_epoch = e, rt_counters = None, rt_restore = restore_label (snd (lab_restart json_len (rt_lab s))) \<rparr>"
    by (simp add: rt_restart_def runtime_with_epoch_def rt_persisted_def l_def lab_restart_def og Let_def case_prod_unfold)
  ultimately show ?thesis by (simp add: fresh_runtime_inv)
qed

subsection \<open>The runtime as a machine\<close>

datatype runtime_op =
    RtTick tick_input u64
  | RtDecisions "decision_episode list" u64
  | RtUtilities "utility_sample list" u64
  | RtBindings
  | RtConsume completed_pair u64 u64
  | RtRestart u64

fun runtime_step :: "(lab_persisted \<Rightarrow> nat option) \<Rightarrow> runtime_op \<Rightarrow> runtime \<Rightarrow> runtime" where
  "runtime_step json_len (RtTick ti now) s = snd (runtime_tick ti now s)"
| "runtime_step json_len (RtDecisions eps cycle) s = rt_observe_decisions eps cycle s"
| "runtime_step json_len (RtUtilities sms cycle) s = rt_observe_utilities sms cycle s"
| "runtime_step json_len RtBindings s = snd (rt_drain_new_bindings s)"
| "runtime_step json_len (RtConsume p i h) s = snd (rt_consume_pair p i h s)"
| "runtime_step json_len (RtRestart e) s = rt_restart json_len e s"

fun op_in_range :: "runtime_op \<Rightarrow> bool" where
  "op_in_range (RtTick ti now) = cycle_in_range (ti_cycle ti)"
| "op_in_range _ = True"

inductive runtime_reachable :: "(lab_persisted \<Rightarrow> nat option) \<Rightarrow> origin \<Rightarrow> runtime \<Rightarrow> bool" for json_len og where
  start: "runtime_reachable json_len og (runtime_with_epoch json_len og None e)"
| step: "runtime_reachable json_len og s \<Longrightarrow> op_in_range x \<Longrightarrow> runtime_reachable json_len og (runtime_step json_len x s)"

inductive_cases runtime_reachableE: "runtime_reachable json_len og s"

lemma runtime_step_inv: "runtime_inv s \<Longrightarrow> op_in_range x \<Longrightarrow> runtime_inv (runtime_step json_len x s)"
  by (cases x) (simp_all add: runtime_tick_inv observe_decisions_inv observe_utilities_inv drain_bindings_inv
    consume_inv runtime_restart_inv)

lemma reachable_runtime_inv: "runtime_reachable json_len og s \<Longrightarrow> runtime_inv s"
  by (induction rule: runtime_reachable.induct) (simp_all add: runtime_start_inv runtime_step_inv)

subsection \<open>Properties of the composed system\<close>

definition add_withhold :: "outstanding_arm \<Rightarrow> canonical_action list \<Rightarrow> canonical_action list" where
  "add_withhold a actions = (if oa_observe_only a then actions
     else if oa_arm a = ArmControl \<and> oa_canonical a \<notin> set actions then actions @ [oa_canonical a] else actions)"

lemma withhold_requests_iff:
  "x \<in> set (outstanding_control_actions s) \<longleftrightarrow>
   (\<exists>a \<in> set (ad_outstanding s). \<not> oa_observe_only a \<and> oa_arm a = ArmControl \<and> oa_canonical a = x)"
proof -
  have "x \<in> set (add_withhold a xs) \<longleftrightarrow> x \<in> set xs \<or> (\<not> oa_observe_only a \<and> oa_arm a = ArmControl \<and> oa_canonical a = x)" for a xs
    by (auto simp: add_withhold_def)
  then have "x \<in> set (fold add_withhold as xs) \<longleftrightarrow>
      x \<in> set xs \<or> (\<exists>a \<in> set as. \<not> oa_observe_only a \<and> oa_arm a = ArmControl \<and> oa_canonical a = x)" for as xs
    by (induction as arbitrary: xs) auto
  moreover have "outstanding_control_actions s = fold add_withhold (ad_outstanding s) []"
    unfolding outstanding_control_actions_def add_withhold_def ..
  ultimately show ?thesis by simp
qed

lemma count_map_filter: "count (mset (map f xs)) i = length (filter (\<lambda>x. f x = i) xs)"
  by (induction xs) simp_all

lemma set_filtered_map: "set (List.map_filter f xs) = {y. \<exists>x \<in> set xs. f x = Some y}"
  by (induction xs) (auto simp: List.map_filter_simps split: option.splits)

lemma apply_observations_closed:
  "\<not> (ci_endpoint_contract_ready ci \<and> allows_pair g) \<Longrightarrow> apply_observations ci g t = t"
  unfolding apply_observations_def by (rule if_not_P)

lemma observations_unread:
  "issue_arms (ci\<lparr> ci_observations := obs \<rparr>) g l = issue_arms ci g l"
  "final_blocker (ci\<lparr> ci_observations := obs \<rparr>) g c l = final_blocker ci g c l"
  by (simp_all add: issue_arms_def final_blocker_def cong: if_cong)

lemma tick_controlled_closed:
  assumes "\<not> (ci_endpoint_contract_ready ci \<and> allows_pair (ci_gates ci))"
  shows "tick_controlled ci l = tick_controlled (ci\<lparr> ci_observations := [] \<rparr>) l"
proof -
  have "allows_pair (effective_gates r g) = (r \<and> allows_pair g)" for r g
    by (simp add: effective_gates_def allows_pair_def)
  then have "\<not> (ci_endpoint_contract_ready ci \<and> allows_pair (effective_gates (ci_endpoint_contract_ready ci) (ci_gates ci)))"
    using assms by simp
  then have same: "apply_observations ci (effective_gates (ci_endpoint_contract_ready ci) (ci_gates ci)) t = t"
    "apply_observations (ci\<lparr> ci_observations := [] \<rparr>) (effective_gates (ci_endpoint_contract_ready ci) (ci_gates ci)) t = t" for t
    by (simp_all add: apply_observations_closed)
  show ?thesis
    unfolding tick_controlled_def by (simp add: same observations_unread Let_def case_prod_unfold)
qed

text \<open>The state in which a tick meets the endpoint after those of \<open>xs\<close>: the cycle has advanced and
  \<open>xs\<close> have been applied in order.\<close>

definition tick_before :: "tick_input \<Rightarrow> u64 \<Rightarrow> pair_gates \<Rightarrow> timed_pair_endpoint list \<Rightarrow> runtime \<Rightarrow> lab" where
  "tick_before ti now g xs s =
     (let (inv, l) = advance_cycle (ti_cycle ti) now g (rt_lab s) in
      tp_lab (fold apply_observation xs \<lparr> tp_blocker = initial_blocker True g, tp_closures = [],
        tp_invalidations = inv, tp_lab = l \<rparr>))"

text \<open>
  C2: No endpoint the adapter hands to the laboratory is refused as foreign, early, of the wrong
  arm or a duplicate. In every reachable runtime, and wherever in the tick it is applied, the
  endpoint of an open pair makes the pair progress, or invalidates it for a missed deadline, a
  confounder, an incomplete horizon or a failed rollback; that of a shadow pair that is open or was
  counts as a shadow measurement; and it is refused, as unknown, only when its pair is neither.
\<close>

theorem endpoints_expected:
  assumes "runtime_reachable json_len og s" and "ad_ready (rt_adapter s) = xs @ ob # ys"
  shows "let i = te_pair_id ob; l = tick_before ti now g xs s; res = fst (record_timed_endpoint ob l) in
    if \<exists>r \<in> set (lb_open l). pa_id (pr_assignment r) = i then
      res = Inr (TdProgress Washout) \<or> res = Inr (TdProgress ReadyToClose)
      \<or> (\<exists>x. res = Inr (TdInvalidated x) \<and> pi_pair_id x = i
           \<and> pi_reason x \<in> {PiDeadlineExpired, PiConfounded, PiIncompleteHorizon, PiFailedRollback})
    else if (\<exists>r \<in> set (lb_shadow_open l). pa_id (sp_assignment r) = i) \<or> i \<in> set (lb_shadow_terminal l)
    then res = Inr TdShadowMeasured
    else res = Inl LeUnknownPair"
proof -
  have inv: "runtime_inv s" by (rule reachable_runtime_inv [OF assms(1)])
  obtain rep l where adv: "advance_cycle (ti_cycle ti) now g (rt_lab s) = (rep, l)" by fastforce
  define t where "t = \<lparr> tp_blocker = initial_blocker True g, tp_closures = [], tp_invalidations = rep, tp_lab = l \<rparr>"
  have l: "advances (set (map pi_pair_id rep)) (rt_lab s) l"
    using advance_cycle_effect [OF _ adv] inv by (simp add: runtime_inv_def)
  then have "pairs_inv l" "agree l (rt_adapter s)" "lb_origin l = lb_origin (rt_lab s)"
    using inv agree_advances by (auto simp: runtime_inv_def advances_def)
  moreover have "list_all (ready_wf (lb_origin (rt_lab s))) (xs @ ob # ys)"
  proof -
    have "adapter_inv (rt_adapter s)" "ad_origin (rt_adapter s) = lb_origin (rt_lab s)"
      using inv by (simp_all add: runtime_inv_def agree_def)
    then show ?thesis unfolding adapter_inv_def assms(2) by metis
  qed
  moreover have "(rt_adapter s)\<lparr> ad_ready := xs @ ob # ys \<rparr> = rt_adapter s" using assms(2) by simp
  ultimately have t: "pairs_inv (tp_lab t)" "agree (tp_lab t) ((rt_adapter s)\<lparr> ad_ready := xs @ ob # ys \<rparr>)"
    "list_all (ready_wf (lb_origin (tp_lab t))) xs" "ready_wf (lb_origin (tp_lab t)) ob"
    by (simp_all add: t_def)
  note e = observations_effect [OF t(1-3)]
  have "endpoint_agrees (tp_lab (fold apply_observation xs t)) ob" using e by (simp add: agree_def)
  moreover have "ready_wf (lb_origin (tp_lab (fold apply_observation xs t))) ob" using e t(4) by (simp add: tracks_def)
  ultimately have "expected_result (te_pair_id ob) (tp_lab (fold apply_observation xs t))
      (fst (record_timed_endpoint ob (tp_lab (fold apply_observation xs t))))"
    using e timed_endpoint_effect by blast
  moreover have "tp_lab (fold apply_observation xs t) = tick_before ti now g xs s"
    by (simp add: tick_before_def adv t_def)
  moreover have "i \<in> set (open_ids m) \<longleftrightarrow> (\<exists>r \<in> set (lb_open m). pa_id (pr_assignment r) = i)"
    "i \<in> set (shadow_ids m) \<longleftrightarrow> (\<exists>r \<in> set (lb_shadow_open m). pa_id (sp_assignment r) = i)" for i m
    by (auto simp: open_ids_def shadow_ids_def)
  ultimately show ?thesis by (simp add: expected_result_def Let_def cong: if_cong)
qed

text \<open>
  C3: An action is only asked to be withheld for a running experiment: the runtime requests it
  only for a control arm that was issued to a pair open in the laboratory, whose treatment
  would have been that action, and only outside Shadow, after at least eight certified pairs.
\<close>

theorem withholds_justified:
  assumes "runtime_reachable json_len og s" and "x \<in> set (control_withhold_requests s)"
  shows "\<exists>r \<in> set (lb_open (rt_lab s)). (\<exists>i. pr_issued r = Some i \<and> ia_arm i = ArmControl)
    \<and> parse_action_key (pc_action_key (pr_candidate r)) = Inr x
    \<and> phase (rt_lab s) \<noteq> PhaseShadow
    \<and> SHADOW_MIN_MEASUREMENTS \<le> ro_causal_pairs_consumed (lb_rollout (rt_lab s))"
proof -
  have inv: "runtime_inv s" by (rule reachable_runtime_inv [OF assms(1)])
  obtain a where a: "a \<in> set (ad_outstanding (rt_adapter s))" "\<not> oa_observe_only a" "oa_arm a = ArmControl"
    "oa_canonical a = x"
    using assms(2) withhold_requests_iff unfolding control_withhold_requests_def by blast
  then have held: "a \<in> held_arms (rt_adapter s)" by (simp add: held_arms_def)
  then have "oa_pair_id a \<in> set (open_ids (rt_lab s))" using inv a(2) by (simp add: runtime_inv_def live_def)
  then obtain r where r: "r \<in> set (lb_open (rt_lab s))" "pa_id (pr_assignment r) = oa_pair_id a"
    by (auto simp: open_ids_def)
  have "arm_agrees (rt_lab s) a" using inv held by (simp add: runtime_inv_def agree_def)
  then obtain i where i: "pr_issued r = Some i" "ia_arm i = ArmControl" "arm_fits (pr_candidate r) a"
    using r a(3) unfolding arm_agrees_def by force
  have "arm_wf a" using inv a(1) by (simp add: runtime_inv_def adapter_inv_def list_all_iff)
  then have "parse_action_key (pc_action_key (pr_candidate r)) = Inr x"
    using i(3) a(4) by (simp add: arm_wf_def arm_fits_def)
  moreover have "phase (rt_lab s) \<noteq> PhaseShadow" using inv r(1) by (auto simp: runtime_inv_def pairs_inv_def)
  moreover have "SHADOW_MIN_MEASUREMENTS \<le> ro_causal_pairs_consumed (lb_rollout (rt_lab s))"
    using inv calculation(2) by (auto simp: runtime_inv_def pairs_inv_def lab_inv_defs)
  ultimately show ?thesis using r(1) i by blast
qed

text \<open>
  For a pair that is open there is at most one item in flight: one outstanding arm, or one
  bound decision, or one endpoint that waits for the next tick.
\<close>

theorem one_item_in_flight:
  assumes "runtime_reachable json_len og s" and "i \<in> set (open_ids (rt_lab s))"
  shows "length (filter (\<lambda>a. oa_pair_id a = i) (ad_outstanding (rt_adapter s)))
    + length (filter (\<lambda>b. oa_pair_id (bd_arm b) = i) (ad_bound (rt_adapter s)))
    + length (filter (\<lambda>t. te_pair_id t = i) (ad_ready (rt_adapter s))) \<le> 1"
proof -
  have "count (item_ids (rt_adapter s)) i \<le> 1"
    using reachable_runtime_inv [OF assms(1)] assms(2) by (simp add: runtime_inv_def agree_def)
  then show ?thesis by (simp add: item_ids_def count_map_filter del: mset_map)
qed

text \<open>
  C37: A tick that runs with closed gates, or before the endpoint contract is ready, loses every
  endpoint that was waiting: it does what it would have done had the adapter held none, the
  measurements of shadow pairs included.
\<close>

theorem closed_tick_loses_endpoints:
  assumes "rt_counters s \<noteq> None" and "\<not> (contract_ready (ti_cycle ti) (rt_epoch s) (rt_adapter s) \<and> allows_pair (ti_gates ti))"
  shows "runtime_tick ti now s = runtime_tick ti now (on_adapter (\<lambda>a. a\<lparr> ad_ready := [] \<rparr>) s)"
proof -
  let ?ready = "contract_ready (ti_cycle ti) (rt_epoch s) (rt_adapter s)"
  have closed: "tick_controlled \<lparr> ci_cycle = ti_cycle ti, ci_monotonic_millis = now, ci_gates = ti_gates ti,
      ci_endpoint_contract_ready = ?ready, ci_candidates = cs, ci_observations = obs \<rparr> l =
    tick_controlled \<lparr> ci_cycle = ti_cycle ti, ci_monotonic_millis = now, ci_gates = ti_gates ti,
      ci_endpoint_contract_ready = ?ready, ci_candidates = cs, ci_observations = [] \<rparr> l" for cs obs l
    using tick_controlled_closed [of "\<lparr> ci_cycle = ti_cycle ti, ci_monotonic_millis = now, ci_gates = ti_gates ti,
      ci_endpoint_contract_ready = ?ready, ci_candidates = cs, ci_observations = obs \<rparr>" l] assms(2) by simp
  have "contract_ready c e (a\<lparr> ad_ready := [] \<rparr>) = contract_ready c e a" for c e a
    by (simp add: contract_ready_def observation_path_live_def)
  then show ?thesis
    using assms(1) closed [of _ "ad_ready (rt_adapter s)"]
    by (auto simp: runtime_tick_def on_adapter_def drain_ready_def Let_def case_prod_unfold)
qed

text \<open>
  The published mask is exact: an actuator that consults it is told to withhold an action
  exactly when the action has a bit and was among the requests published last.
\<close>

theorem withhold_mask_exact:
  "control_withhold_requested x (publish_control_withholds xs w) = (withhold_bit x \<noteq> None \<and> x \<in> set xs)"
proof -
  have bits: "withhold_bit x = Some a \<Longrightarrow> a < 4" for x a
    by (auto simp: withhold_bit_def split: if_splits action_variant.splits)
  have folds: "bit (fold (\<lambda>b mask. mask OR push_bit b 1) bs m) k = (k \<in> set bs \<or> bit m k)"
    if "k < 4" "\<forall>b \<in> set bs. b < 4" for bs k and m :: u64
    using that by (induction bs arbitrary: m) (auto simp: bit_simps)
  have "\<forall>b \<in> set (List.map_filter withhold_bit xs). b < 4" using bits by (auto simp: set_filtered_map)
  then have mask: "bit (wh_requests (publish_control_withholds xs w)) k = (k \<in> set (List.map_filter withhold_bit xs))"
    if "k < 4" for k
    using folds [OF that, of "List.map_filter withhold_bit xs" 0] by (simp add: publish_control_withholds_def)
  have one: "(v AND push_bit k 1 \<noteq> 0) = bit v k" for v :: u64 and k
    by (simp add: bit_iff_and_push_bit_not_eq_0)
  have inj: "withhold_bit x = Some a \<Longrightarrow> withhold_bit y = Some a \<Longrightarrow> y = x" for x y a
    by (auto simp: withhold_bit_def canonical_action.equality split: if_splits action_variant.splits
      intro!: canonical_action.equality)
  show ?thesis
  proof (cases "withhold_bit x")
    case (Some b)
    have "control_withhold_requested x (publish_control_withholds xs w) = (b \<in> set (List.map_filter withhold_bit xs))"
      using one mask [OF bits [OF Some]] by (simp add: control_withhold_requested_def Some)
    also have "\<dots> = (x \<in> set xs)" unfolding set_filtered_map using inj [OF Some] Some by blast
    finally show ?thesis using Some by simp
  qed (simp add: control_withhold_requested_def)
qed

end
