(* ===== verification/Runtime_Example.thy ===== *)
theory Runtime_Example
  imports Runtime_Properties
begin

text \<open>
  A run of the daemon's runtime that leaves Shadow, opens a pair in Canary and asks for its
  control arm to be withheld, then observes the withheld action and measures it. The states are
  evaluated step by step, and the properties of \<open>Runtime_Properties\<close> applied to them.
\<close>

definition demo_gates :: pair_gates where
  "demo_gates = \<lparr> experiments_enabled = True, privacy_known = True, secure_input = False, screen_capture = False,
     camera_active = False, sensitive_context = False, inherited_safe = True \<rparr>"

definition demo_input :: "u64 \<Rightarrow> u64 \<Rightarrow> tick_input" where
  "demo_input cycle applied = \<lparr> ti_cycle = cycle, ti_interaction_activations = 0, ti_markov_applied = applied,
     ti_workload = ''w'', ti_gates = demo_gates \<rparr>"

text \<open>The episode of a prewarm that the holdout withheld: a control of the exploration scheduler.\<close>

definition demo_control :: metadata where
  "demo_control = \<lparr> md_correlation = 5, md_family = AF_MarkovPrewarm,
     md_key = \<lparr> key_family = AF_MarkovPrewarm, key_mode = Control, key_arm = MarkovCacheOnly,
       key_action_class = MarkovPredictedApp, key_context = BackgroundContext \<rparr>,
     md_arm = MarkovCacheOnly, md_treatment = False, md_committed = True, md_cancelled = None \<rparr>"

definition demo_episode :: "u64 \<Rightarrow> u64 \<Rightarrow> decision_episode" where
  "demo_episode i cycle = \<lparr> ep_id = i, ep_lifecycle = LcNoOp, ep_settled_cycle = cycle, ep_authority_eligible = False,
     ep_envelope = \<lparr> de_id = i, de_action_key = ''markov_prewarm:predicted_app'', de_target = [],
       de_proposed_cycle = cycle, de_expires_cycle = cycle, de_alternatives = [],
       de_hierarchy = \<lparr> hc_level = 0, hc_parent = None, hc_cohort = 0 \<rparr>, de_predictions = [],
       de_adviser_contributions = [], de_exploration = Some demo_control, de_lifecycle = LcNoOp,
       de_terminal_reason = [], de_terminal_attribution = Some (Local ''daemon''), de_receipt = None \<rparr> \<rparr>"

abbreviation demo_len :: "lab_persisted \<Rightarrow> nat option" where
  "demo_len \<equiv> \<lambda>_. Some 100"

definition demo_warm :: runtime where
  "demo_warm = fold (runtime_step demo_len)
     ([RtDecisions [demo_episode 1 16] 16, RtTick (demo_input 16 0) 1]
      @ map (\<lambda>i. RtConsume (lab_demo_certified i) 0 0) [1, 2, 3, 4, 5, 6, 7, 8])
     (runtime_with_epoch demo_len lab_demo_origin None 1)"

definition demo_issued :: runtime where
  "demo_issued = runtime_step demo_len (RtTick (demo_input 17 1) 1000000) demo_warm"

definition demo_measured :: runtime where
  "demo_measured = runtime_step demo_len (RtUtilities [\<lparr> us_decision_id = 9, us_utility_micros = 0,
       us_resolved_cycle = 140, us_confounded = False \<rparr>] 140)
     (runtime_step demo_len (RtDecisions [demo_episode 9 20] 20) demo_issued)"

lemma demo_reachable:
  "runtime_reachable demo_len lab_demo_origin demo_warm"
  "runtime_reachable demo_len lab_demo_origin demo_issued"
  "runtime_reachable demo_len lab_demo_origin demo_measured"
proof -
  have all: "runtime_reachable J og (fold (runtime_step J) ops s)"
    if "runtime_reachable J og s" "list_all op_in_range ops" for J og ops s
    using that by (induction ops arbitrary: s) (simp_all add: runtime_reachable.step)
  have range: "op_in_range (RtTick (demo_input 16 n) t)" "op_in_range (RtTick (demo_input 17 n) t)" for n t
    by (simp_all add: demo_input_def cycle_in_range_def)
  show w: "runtime_reachable demo_len lab_demo_origin demo_warm"
    unfolding demo_warm_def by (rule all [OF runtime_reachable.start]) (simp add: range del: op_in_range.simps(1))
  show "runtime_reachable demo_len lab_demo_origin demo_issued"
    unfolding demo_issued_def by (rule runtime_reachable.step [OF w range(2)])
  then show "runtime_reachable demo_len lab_demo_origin demo_measured"
    unfolding demo_measured_def by (intro runtime_reachable.step) simp_all
qed

subsection \<open>The state before the tick\<close>

definition demo_lab :: lab where
  "demo_lab = (lab_cold_start lab_demo_origin)\<lparr> lb_consumed_experiments := [1, 2, 3, 4, 5, 6, 7, 8],
     lb_metrics := lab_metrics_default\<lparr> lm_pairs_seen := 8, lm_pairs_accepted := 8, lm_causal_pairs_consumed := 8 \<rparr>,
     lb_rollout := rollout_default\<lparr> ro_causal_pairs_consumed := 8 \<rparr> \<rparr>"

definition demo_adapter :: adapter where
  "demo_adapter = (adapter_new lab_demo_origin 1)\<lparr> ad_last_episode_cycle := Some 16,
     ad_counters := counters_default\<lparr> ac_episodes_skipped_idle := 1 \<rparr> \<rparr>"

lemma demo_warm_eq:
  "demo_warm = \<lparr> rt_origin = lab_demo_origin, rt_lab = demo_lab, rt_adapter = demo_adapter, rt_epoch = 1,
     rt_counters = Some \<lparr> cb_interaction_activations = 0, cb_markov_applied = 0 \<rparr>, rt_restore = ''cold-start'' \<rparr>"
  by (simp add: demo_warm_def runtime_with_epoch_def rt_observe_decisions_def on_adapter_def observe_episodes_def
    adapter_new_def on_counters_def runtime_tick_def Let_def demo_input_def rt_consume_pair_def
    consume_exploration_pair_def lab_demo_certified_def lab_cold_start_def on_rollout_def on_metrics_def
    lab_metrics_default_def rollout_default_def sat_add_def push_bounded_def MAX_CONSUMED_EXPERIMENTS_def
    demo_lab_def demo_adapter_def counters_default_def)

subsection \<open>The tick that opens the pair\<close>

definition demo_candidate :: pair_candidate where
  "demo_candidate = \<lparr> pc_sequence = 70, pc_origin = lab_demo_origin, pc_family = AF_MarkovPrewarm,
     pc_action_class = MarkovPredictedApp, pc_treatment_arm = MarkovCacheOnly, pc_context = BackgroundContext,
     pc_action_key = ''markov_prewarm:predicted_app'', pc_stratum_hash = stratum_hash ''w'' 2,
     pc_horizon_cycles = 120, pc_washout_cycles = 3, pc_minimum_effect_micros = 500 \<rparr>"

lemma demo_candidates:
  "tick_candidates (demo_input 17 1) \<lparr> cb_interaction_activations = 0, cb_markov_applied = 0 \<rparr> lab_demo_origin
   = ([demo_candidate], 0)"
  by (simp add: demo_candidate_def tick_candidates_def markov_candidate_def make_candidate_def demo_input_def
    canonical_action_key_def sat_mul_def sat_add_def sat_sub_def family_horizon_cycles_def PAIR_WASHOUT_CYCLES_def
    PAIR_MINIMUM_EFFECT_MICROS_def List.map_filter_simps)

lemma demo_admitted: "canary_admitted demo_candidate CANARY_PERCENT" "stratum_hash ''w'' 2 \<noteq> 0"
  by code_simp+

definition demo_lab_advanced :: lab where
  "demo_lab_advanced = demo_lab\<lparr> lb_rollout := (lb_rollout demo_lab)\<lparr> ro_phase := PhaseCanary,
     ro_phase_started_millis := 1000000, ro_last_monotonic_millis := 1000000 \<rparr> \<rparr>"

lemma demo_advance: "advance_cycle 17 1000000 demo_gates demo_lab = ([], demo_lab_advanced)"
  by (simp add: demo_lab_def lab_cold_start_def lab_metrics_default_def rollout_default_def demo_lab_advanced_def
    advance_cycle_def demo_gates_def allows_pair_def reap_expired_shadow_pairs_def advance_rollout_def Let_def
    rollout_config_default_def SHADOW_MIN_MEASUREMENTS_def SHADOW_MIN_DURATION_MS_def sat_sub_def on_rollout_def)

lemma demo_valid: "validate_candidate demo_candidate = Inr ()"
  using demo_admitted(2)
  by (simp add: validate_candidate_def demo_candidate_def MAX_ACTION_KEY_BYTES_def lab_demo_origin_def origin_is_known_def
    hardware_is_known_def catalogued_def sat_add_def)

definition demo_record :: "issued_arm option \<Rightarrow> pair_record" where
  "demo_record i = \<lparr> pr_candidate = demo_candidate, pr_assignment = assignment_for lab_demo_origin 1,
     pr_first_endpoint = None, pr_second_endpoint = None, pr_washout_elapsed = 0,
     pr_progress = AwaitingFirst, pr_issued = i, pr_washout_started_cycle = None \<rparr>"

lemma demo_consider:
  "fst (consider_candidate demo_candidate demo_gates 1000000 demo_lab_advanced) = Inr (CdOpened (assignment_for lab_demo_origin 1))"
  "lb_open (snd (consider_candidate demo_candidate demo_gates 1000000 demo_lab_advanced)) = [demo_record None]"
  "lb_shadow_open (snd (consider_candidate demo_candidate demo_gates 1000000 demo_lab_advanced)) = []"
  "phase (snd (consider_candidate demo_candidate demo_gates 1000000 demo_lab_advanced)) = PhaseCanary"
  using demo_valid demo_admitted(1)
  by (simp_all add: consider_candidate_def candidate_clock_def route_candidate_def propose_def demo_lab_advanced_def
    demo_lab_def lab_cold_start_def rollout_default_def Let_def note_proposed_def note_randomized_def on_metrics_def
    on_rollout_def demo_gates_def allows_pair_def contains_pair_def MAX_OPEN_PAIRS_def checked_succ_def
    rollout_config_default_def advance_rollout_def demo_record_def CANARY_MIN_OPPORTUNITIES_def sat_add_def
    demo_candidate_def [THEN arg_cong [of _ _ pc_origin]])

definition demo_directive :: pair_directive where
  "demo_directive = next_directive 17 (demo_record None)"

definition demo_tick :: controlled_input where
  "demo_tick = \<lparr> ci_cycle = 17, ci_monotonic_millis = 1000000, ci_gates = demo_gates, ci_endpoint_contract_ready = True,
     ci_candidates = [demo_candidate], ci_observations = [] \<rparr>"

lemma demo_controlled:
  "to_directives (fst (tick_controlled demo_tick demo_lab)) = [demo_directive]"
  "to_invalidations (fst (tick_controlled demo_tick demo_lab)) = []"
  "to_closures (fst (tick_controlled demo_tick demo_lab)) = []"
  "lb_open (snd (tick_controlled demo_tick demo_lab)) = [demo_record (Some (next_arm 17 (demo_record None)))]"
proof -
  have g: "effective_gates True demo_gates = demo_gates" "allows_pair demo_gates"
    by (simp_all add: effective_gates_def demo_gates_def allows_pair_def)
  have again: "advance_cycle 17 1000000 demo_gates demo_lab_advanced = ([], demo_lab_advanced)"
    by (simp add: demo_lab_def lab_cold_start_def lab_metrics_default_def rollout_default_def demo_lab_advanced_def
      advance_cycle_def demo_gates_def allows_pair_def reap_expired_shadow_pairs_def advance_rollout_def Let_def
      rollout_config_default_def CANARY_MIN_OPPORTUNITIES_def on_rollout_def)
  obtain l where l: "consider_candidate demo_candidate demo_gates 1000000 demo_lab_advanced
      = (Inr (CdOpened (assignment_for lab_demo_origin 1)), l)"
    using demo_consider(1) by (metis prod.collapse)
  then have lf: "lb_open l = [demo_record None]" "lb_shadow_open l = []" "phase l = PhaseCanary"
    using demo_consider(2-4) by simp_all
  have wants: "wants_arm (demo_record None)" "issue_one 17 (demo_record None) = demo_record (Some (next_arm 17 (demo_record None)))"
    by (simp_all add: wants_arm_def issue_one_def demo_record_def)
  have issue: "issue_arms demo_tick demo_gates l
      = ([demo_directive], snd (issue_shadow_arms 17 demo_gates (l\<lparr> lb_open := [demo_record (Some (next_arm 17 (demo_record None)))] \<rparr>)))"
    using lf wants by (simp add: issue_arms_def demo_tick_def g issue_ready_arms_def issue_ready_from_eq demo_directive_def
      issue_shadow_arms_def Let_def case_prod_unfold)
  note simps = tick_controlled_def demo_tick_def [symmetric] apply_observations_def consider_one_def g again demo_advance l issue
  have t: "ci_cycle demo_tick = 17" "ci_monotonic_millis demo_tick = 1000000" "ci_gates demo_tick = demo_gates"
    "ci_endpoint_contract_ready demo_tick" "ci_candidates demo_tick = [demo_candidate]" "ci_observations demo_tick = []"
    by (simp_all add: demo_tick_def)
  show "to_directives (fst (tick_controlled demo_tick demo_lab)) = [demo_directive]"
    "to_invalidations (fst (tick_controlled demo_tick demo_lab)) = []"
    "to_closures (fst (tick_controlled demo_tick demo_lab)) = []"
    "lb_open (snd (tick_controlled demo_tick demo_lab)) = [demo_record (Some (next_arm 17 (demo_record None)))]"
    by (simp_all add: tick_controlled_def apply_observations_def consider_one_def g again demo_advance l issue t
      Let_def case_prod_unfold drain_pair_gold_def issue_shadow_arms_def)
qed

definition demo_canonical :: canonical_action where
  "demo_canonical = \<lparr> ca_family = AF_MarkovPrewarm, ca_action_class = MarkovPredictedApp, ca_variant = VNone \<rparr>"

lemma demo_key: "parse_action_key ''markov_prewarm:predicted_app'' = Inr demo_canonical"
  by code_simp

definition demo_arm :: outstanding_arm where
  "demo_arm = arm_of_directive demo_canonical demo_directive"

lemma demo_directive_fields:
  "pd_action_key demo_directive = ''markov_prewarm:predicted_app''" "pd_family demo_directive = AF_MarkovPrewarm"
  "pd_action_class demo_directive = MarkovPredictedApp" "pd_arm demo_directive = ArmControl"
  "pd_observe_only demo_directive = False" "pd_issued_cycle demo_directive = 17"
  "pd_complete_not_before_cycle demo_directive = 137" "pd_expires_after_cycle demo_directive = 17 + 120 + ENDPOINT_GRACE_CYCLES"
  "pd_pair_id demo_directive = pair_id_of lab_demo_origin 1"
  by (simp_all add: demo_directive_def next_directive_def directive_of_def next_arm_def demo_record_def demo_candidate_def
    assignment_for_def sat_add_def Let_def ENDPOINT_GRACE_CYCLES_def)

lemma demo_arm_fields:
  "oa_canonical demo_arm = demo_canonical" "oa_arm demo_arm = ArmControl" "\<not> oa_observe_only demo_arm"
  "oa_pair_id demo_arm = pair_id_of lab_demo_origin 1" "oa_issued_cycle demo_arm = 17"
  "oa_expires_after_cycle demo_arm = 17 + 120 + ENDPOINT_GRACE_CYCLES"
  by (simp_all add: demo_arm_def arm_of_directive_def demo_directive_fields)

lemma demo_issued_state:
  "ad_outstanding (rt_adapter demo_issued) = [demo_arm]" "ad_bound (rt_adapter demo_issued) = []"
  "ad_ready (rt_adapter demo_issued) = []" "ad_consumed (rt_adapter demo_issued) = []"
  "lb_open (rt_lab demo_issued) = [demo_record (Some (next_arm 17 (demo_record None)))]"
proof -
  have a: "ad_ready demo_adapter = []" "ad_outstanding demo_adapter = []" "ad_bound demo_adapter = []"
    "ad_consumed demo_adapter = []" "demo_adapter\<lparr> ad_ready := [] \<rparr> = demo_adapter"
    by (simp_all add: demo_adapter_def adapter_new_def)
  have ready: "contract_ready 17 1 demo_adapter"
    by (simp add: demo_adapter_def adapter_new_def contract_ready_def observation_path_live_def lab_demo_origin_def
      origin_is_known_def hardware_is_known_def OBSERVATION_LIVENESS_CYCLES_def sat_sub_def sat_add_def)
  obtain out l where o: "tick_controlled demo_tick demo_lab = (out, l)" by fastforce
  have of: "to_directives out = [demo_directive]" "to_invalidations out = []" "to_closures out = []"
    "lb_open l = [demo_record (Some (next_arm 17 (demo_record None)))]"
    using demo_controlled by (simp_all add: o)
  have eq: "demo_issued = demo_warm\<lparr> rt_counters := Some \<lparr> cb_interaction_activations = 0, cb_markov_applied = 1 \<rparr>,
      rt_lab := l, rt_adapter := settle_adapter out 17 demo_adapter \<rparr>"
    using o ready
    by (simp add: demo_issued_def demo_warm_eq runtime_tick_def drain_ready_def a demo_candidates settle_adapter_blocker
      demo_input_def [THEN arg_cong [of _ _ ti_cycle]] demo_input_def [THEN arg_cong [of _ _ ti_gates]]
      demo_input_def [THEN arg_cong [of _ _ ti_markov_applied]] demo_input_def [THEN arg_cong [of _ _ ti_interaction_activations]]
      demo_tick_def [symmetric])
  have "settle_adapter out 17 demo_adapter = prune 17 (register_directive 17 demo_directive demo_adapter)"
    by (simp add: settle_adapter_def of register_directives_def)
  moreover have "ad_origin demo_adapter = lab_demo_origin" by (simp add: demo_adapter_def adapter_new_def)
  ultimately show "ad_outstanding (rt_adapter demo_issued) = [demo_arm]" "ad_bound (rt_adapter demo_issued) = []"
    "ad_ready (rt_adapter demo_issued) = []" "ad_consumed (rt_adapter demo_issued) = []"
    "lb_open (rt_lab demo_issued) = [demo_record (Some (next_arm 17 (demo_record None)))]"
    by (simp_all add: eq of register_directive_def a demo_directive_fields demo_key demo_canonical_def [THEN arg_cong [of _ _ ca_family]]
      demo_canonical_def [THEN arg_cong [of _ _ ca_action_class]] prune_def Let_def demo_arm_fields ENDPOINT_GRACE_CYCLES_def
      MAX_OUTSTANDING_ARMS_def MAX_OPEN_PAIRS_def flip: demo_arm_def)
qed

subsection \<open>Binding and measuring the withheld action\<close>

lemma demo_binds:
  assumes "ad_outstanding s = [demo_arm]" and "ad_bound s = []" and "ad_ready s = []" and "ad_consumed s = []"
  shows "\<exists>b. ad_bound (observe_episodes [demo_episode 9 20] 20 s) = [b] \<and> bd_decision_id b = 9 \<and> bd_arm b = demo_arm
    \<and> ad_ready (observe_episodes [demo_episode 9 20] 20 s) = []"
proof -
  have ep: "ep_id (demo_episode 9 20) = 9" "de_action_key (ep_envelope (demo_episode 9 20)) = ''markov_prewarm:predicted_app''"
    "ep_settled_cycle (demo_episode 9 20) = 20"
    by (simp_all add: demo_episode_def)
  have cl: "endpoint_closures_of (demo_episode 9 20) demo_canonical =
      Inr \<lparr> ec_arm = ArmControl, ec_execution = ExNoOp, ec_rollback = RbNotRequiredNonKernel \<rparr>"
    by (simp add: endpoint_closures_of_def exploration_closures_def episode_attribution_def demo_episode_def demo_control_def
      demo_canonical_def)
  have acc: "arm_accepts demo_canonical ArmControl 20 demo_arm"
    by (simp add: arm_accepts_def action_matches_def demo_arm_fields ENDPOINT_GRACE_CYCLES_def)
  have "observe_episode 20 (demo_episode 9 20) m = bind_arm 0 (demo_episode 9 20)
      \<lparr> ec_arm = ArmControl, ec_execution = ExNoOp, ec_rollback = RbNotRequiredNonKernel \<rparr> 20
      (on_counters (\<lambda>c. c\<lparr> ac_observed_episodes := sat_add (ac_observed_episodes c) 1 \<rparr>) m)"
    if "ad_outstanding m = [demo_arm]" "ad_bound m = []" "ad_consumed m = []" for m
    using that by (simp add: observe_episode_def bind_episode_def ep demo_key cl acc action_matches_def demo_arm_fields
      MAX_BOUND_DECISIONS_def MAX_OPEN_PAIRS_def)
  then show ?thesis using assms by (simp add: observe_episodes_def ep)
qed

lemma demo_measured_state: "\<exists>ob. ad_ready (rt_adapter demo_measured) = [ob] \<and> te_pair_id ob = pair_id_of lab_demo_origin 1"
proof -
  let ?a = "observe_episodes [demo_episode 9 20] 20 (rt_adapter demo_issued)"
  obtain b where b: "ad_bound ?a = [b]" "bd_decision_id b = 9" "bd_arm b = demo_arm" "ad_ready ?a = []"
    using demo_binds [OF demo_issued_state(1-4)] by blast
  then show ?thesis
    by (simp add: demo_measured_def rt_observe_utilities_def rt_observe_decisions_def on_adapter_def observe_utilities_def
      observe_utility_def Let_def MAX_READY_ENDPOINTS_def MAX_OPEN_PAIRS_def endpoint_of_def demo_arm_fields)
qed

subsection \<open>The properties on this run\<close>

lemma demo_open: "open_ids (rt_lab demo_issued) = [pair_id_of lab_demo_origin 1]"
  by (simp add: open_ids_def demo_issued_state demo_record_def)

theorem endpoints_expected_witness:
  "\<exists>ob. ad_ready (rt_adapter demo_measured) = [ob] \<and> te_pair_id ob = pair_id_of lab_demo_origin 1
    \<and> (let l = tick_before (demo_input 141 1) 1000001 demo_gates [] demo_measured;
           res = fst (record_timed_endpoint ob l) in
       if \<exists>r \<in> set (lb_open l). pa_id (pr_assignment r) = te_pair_id ob then
         res = Inr (TdProgress Washout) \<or> res = Inr (TdProgress ReadyToClose)
         \<or> (\<exists>x. res = Inr (TdInvalidated x) \<and> pi_pair_id x = te_pair_id ob
              \<and> pi_reason x \<in> {PiDeadlineExpired, PiConfounded, PiIncompleteHorizon, PiFailedRollback})
       else if (\<exists>r \<in> set (lb_shadow_open l). pa_id (sp_assignment r) = te_pair_id ob)
         \<or> te_pair_id ob \<in> set (lb_shadow_terminal l)
       then res = Inr TdShadowMeasured
       else res = Inl LeUnknownPair)"
proof -
  obtain ob where ob: "ad_ready (rt_adapter demo_measured) = [ob]" "te_pair_id ob = pair_id_of lab_demo_origin 1"
    using demo_measured_state by blast
  moreover note endpoints_expected [OF demo_reachable(3), of "[]" ob "[]" "demo_input 141 1" 1000001 demo_gates]
  ultimately show ?thesis unfolding Let_def by (intro exI [of _ ob]) simp
qed

theorem withholds_justified_witness:
  "control_withhold_requests demo_issued = [demo_canonical]
    \<and> (\<exists>r \<in> set (lb_open (rt_lab demo_issued)). (\<exists>i. pr_issued r = Some i \<and> ia_arm i = ArmControl)
        \<and> parse_action_key (pc_action_key (pr_candidate r)) = Inr demo_canonical
        \<and> phase (rt_lab demo_issued) \<noteq> PhaseShadow
        \<and> SHADOW_MIN_MEASUREMENTS \<le> ro_causal_pairs_consumed (lb_rollout (rt_lab demo_issued)))"
proof
  show req: "control_withhold_requests demo_issued = [demo_canonical]"
    by (simp add: control_withhold_requests_def outstanding_control_actions_def demo_issued_state demo_arm_fields)
  show "\<exists>r \<in> set (lb_open (rt_lab demo_issued)). (\<exists>i. pr_issued r = Some i \<and> ia_arm i = ArmControl)
      \<and> parse_action_key (pc_action_key (pr_candidate r)) = Inr demo_canonical
      \<and> phase (rt_lab demo_issued) \<noteq> PhaseShadow
      \<and> SHADOW_MIN_MEASUREMENTS \<le> ro_causal_pairs_consumed (lb_rollout (rt_lab demo_issued))"
    by (rule withholds_justified [OF demo_reachable(2)]) (simp add: req)
qed

theorem one_item_in_flight_witness:
  "length (filter (\<lambda>a. oa_pair_id a = pair_id_of lab_demo_origin 1) (ad_outstanding (rt_adapter demo_issued))) = 1
    \<and> length (filter (\<lambda>b. oa_pair_id (bd_arm b) = pair_id_of lab_demo_origin 1) (ad_bound (rt_adapter demo_issued))) = 0
    \<and> length (filter (\<lambda>t. te_pair_id t = pair_id_of lab_demo_origin 1) (ad_ready (rt_adapter demo_issued))) = 0"
  using one_item_in_flight [OF demo_reachable(2), of "pair_id_of lab_demo_origin 1"]
  by (simp add: demo_open demo_issued_state demo_arm_fields)

theorem closed_tick_loses_endpoints_witness:
  "ad_ready (rt_adapter demo_measured) \<noteq> []
    \<and> runtime_tick ((demo_input 141 1)\<lparr> ti_gates := demo_gates\<lparr> experiments_enabled := False \<rparr> \<rparr>) 1000001 demo_measured
      = runtime_tick ((demo_input 141 1)\<lparr> ti_gates := demo_gates\<lparr> experiments_enabled := False \<rparr> \<rparr>) 1000001
          (on_adapter (\<lambda>a. a\<lparr> ad_ready := [] \<rparr>) demo_measured)"
proof
  show "ad_ready (rt_adapter demo_measured) \<noteq> []" using demo_measured_state by auto
  have "rt_counters demo_measured = rt_counters demo_issued"
    by (simp add: demo_measured_def rt_observe_utilities_def rt_observe_decisions_def on_adapter_def)
  also have "\<dots> \<noteq> None"
    by (simp add: demo_issued_def demo_warm_eq runtime_tick_def Let_def case_prod_unfold)
  finally show "runtime_tick ((demo_input 141 1)\<lparr> ti_gates := demo_gates\<lparr> experiments_enabled := False \<rparr> \<rparr>) 1000001 demo_measured
      = runtime_tick ((demo_input 141 1)\<lparr> ti_gates := demo_gates\<lparr> experiments_enabled := False \<rparr> \<rparr>) 1000001
          (on_adapter (\<lambda>a. a\<lparr> ad_ready := [] \<rparr>) demo_measured)"
    by (rule closed_tick_loses_endpoints) (simp add: allows_pair_def)
qed

end
