(* ===== verification/Cycle_Snapshot.thy ===== *)
theory Cycle_Snapshot
  imports Apollo_Prelude
begin

text \<open>
  \<open>engine/cycle_snapshot.rs\<close>: the immutable input of one control cycle, and the publisher that
  gives every snapshot of a daemon its sequence number. An \<open>Arc\<close> of a snapshot is the snapshot.
\<close>

definition checked_add :: "u64 \<Rightarrow> u64 \<Rightarrow> u64 option" where
  "checked_add a b = (if unat a + unat b < 2 ^ 64 then Some (a + b) else None)"

lemma checked_add_Some: "checked_add a b = Some c \<longleftrightarrow> unat a + unat b < 2 ^ 64 \<and> c = a + b"
  by (auto simp: checked_add_def)

lemma unat_checked_add: "checked_add a b = Some c \<Longrightarrow> unat c = unat a + unat b"
  by (auto simp: checked_add_Some unat_word_ariths)

text \<open>For evaluation, the sums and products are compared as binary integers.\<close>

lemma less_power_int: "x < 2 ^ n \<longleftrightarrow> int x < 2 ^ n"
  by (metis of_nat_less_iff of_nat_numeral of_nat_power)

lemma checked_add_code [code]: "checked_add a b = (if uint a + uint b < 2 ^ 64 then Some (a + b) else None)"
  by (simp only: checked_add_def less_power_int of_nat_add uint_nat)

lemma sat_add_code [code]: "sat_add a b = (if uint a + uint b < 2 ^ LENGTH('a) then a + b else - 1)" for a b :: "'a::len word"
  by (simp only: sat_add_def less_power_int of_nat_add uint_nat)

lemma sat_mul_code [code]: "sat_mul a b = (if uint a * uint b < 2 ^ LENGTH('a) then a * b else - 1)" for a b :: "'a::len word"
  by (simp only: sat_mul_def less_power_int of_nat_mult uint_nat)

record snapshot_id =
  sn_daemon_epoch :: u64
  sn_sequence :: u64

definition next_sequence_id :: "snapshot_id \<Rightarrow> snapshot_id option" where
  "next_sequence_id i = map_option (\<lambda>n. \<lparr> sn_daemon_epoch = sn_daemon_epoch i, sn_sequence = n \<rparr>)
     (checked_add (sn_sequence i) 1)"

datatype observation_status = ObsFresh | ObsStale | ObsUnavailable | ObsInvalid | ObsTruncated

fun status_is_fresh :: "observation_status \<Rightarrow> bool" where
  "status_is_fresh ObsFresh = True"
| "status_is_fresh _ = False"

record 'a source_observation =
  so_value :: "'a option"
  so_generation :: u64
  so_revision :: u64
  so_age_us_at_cut :: u64
  so_status :: observation_status

definition observation_fresh :: "'a \<Rightarrow> u64 \<Rightarrow> u64 \<Rightarrow> u64 \<Rightarrow> 'a source_observation" where
  "observation_fresh v g r age = \<lparr> so_value = Some v, so_generation = g, so_revision = r,
     so_age_us_at_cut = age, so_status = ObsFresh \<rparr>"

definition observation_unavailable :: "u64 \<Rightarrow> u64 \<Rightarrow> 'a source_observation" where
  "observation_unavailable g r = \<lparr> so_value = None, so_generation = g, so_revision = r,
     so_age_us_at_cut = 0, so_status = ObsUnavailable \<rparr>"

definition observation_stale :: "'a option \<Rightarrow> u64 \<Rightarrow> u64 \<Rightarrow> u64 \<Rightarrow> 'a source_observation" where
  "observation_stale v g r age = \<lparr> so_value = v, so_generation = g, so_revision = r,
     so_age_us_at_cut = age, so_status = ObsStale \<rparr>"

definition observation_invalid :: "u64 \<Rightarrow> u64 \<Rightarrow> 'a source_observation" where
  "observation_invalid g r = \<lparr> so_value = None, so_generation = g, so_revision = r,
     so_age_us_at_cut = 0, so_status = ObsInvalid \<rparr>"

definition observation_truncated :: "u64 \<Rightarrow> u64 \<Rightarrow> 'a source_observation" where
  "observation_truncated g r = \<lparr> so_value = None, so_generation = g, so_revision = r,
     so_age_us_at_cut = 0, so_status = ObsTruncated \<rparr>"

definition observation_map :: "('a \<Rightarrow> 'b) \<Rightarrow> 'a source_observation \<Rightarrow> 'b source_observation" where
  "observation_map f s = \<lparr> so_value = map_option f (so_value s), so_generation = so_generation s,
     so_revision = so_revision s, so_age_us_at_cut = so_age_us_at_cut s, so_status = so_status s \<rparr>"

definition fresh_value :: "'a source_observation \<Rightarrow> 'a option" where
  "fresh_value s = (if status_is_fresh (so_status s) then so_value s else None)"

text \<open>What the hand-written reader makes of a stored observation: a fresh one without a value is
  invalid, and only a fresh or stale one keeps its value.\<close>

definition observation_read :: "'a source_observation \<Rightarrow> 'a source_observation" where
  "observation_read w =
     (let (v, st) = (case (so_status w, so_value w) of
            (ObsFresh, Some v) \<Rightarrow> (Some v, ObsFresh)
          | (ObsFresh, None) \<Rightarrow> (None, ObsInvalid)
          | (ObsStale, v) \<Rightarrow> (v, ObsStale)
          | (st, _) \<Rightarrow> (None, st))
      in w\<lparr> so_value := v, so_status := st \<rparr>)"

record cycle_snapshot =
  cs_snapshot_id :: snapshot_id
  cs_cycle :: u64
  cs_cut_started_mono_us :: u64
  cs_cut_completed_mono_us :: u64
  cs_workload_id :: u64
  cs_capability_revision :: u64
  cs_thermal_power_revision :: u64
  cs_process_identity_revision :: u64
  cs_low_power :: bool
  cs_kill_switch :: bool
  cs_sleeping :: bool
  cs_pressure :: "u16 source_observation"
  cs_thermal :: "u16 source_observation"
  cs_interaction :: "u16 source_observation"

definition snapshot_default :: cycle_snapshot where
  "snapshot_default = \<lparr> cs_snapshot_id = \<lparr> sn_daemon_epoch = 0, sn_sequence = 0 \<rparr>, cs_cycle = 0,
     cs_cut_started_mono_us = 0, cs_cut_completed_mono_us = 0, cs_workload_id = 0, cs_capability_revision = 0,
     cs_thermal_power_revision = 0, cs_process_identity_revision = 0, cs_low_power = False,
     cs_kill_switch = False, cs_sleeping = False, cs_pressure = observation_unavailable 0 0,
     cs_thermal = observation_unavailable 0 0, cs_interaction = observation_unavailable 0 0 \<rparr>"

definition snapshot_new :: "snapshot_id \<Rightarrow> u64 \<Rightarrow> u64 \<Rightarrow> u64 \<Rightarrow> cycle_snapshot" where
  "snapshot_new i w c t = snapshot_default\<lparr> cs_snapshot_id := i, cs_cycle := sn_sequence i, cs_workload_id := w,
     cs_capability_revision := c, cs_thermal_power_revision := t \<rparr>"

definition with_cut_times :: "u64 \<Rightarrow> u64 \<Rightarrow> cycle_snapshot \<Rightarrow> cycle_snapshot" where
  "with_cut_times started completed s = s\<lparr> cs_cut_started_mono_us := started,
     cs_cut_completed_mono_us := max completed started \<rparr>"

record snapshot_identity =
  si_snapshot_id :: snapshot_id
  si_workload_id :: u64
  si_capability_revision :: u64
  si_thermal_power_revision :: u64
  si_process_identity_revision :: u64

definition identity_of :: "cycle_snapshot \<Rightarrow> snapshot_identity" where
  "identity_of s = \<lparr> si_snapshot_id = cs_snapshot_id s, si_workload_id = cs_workload_id s,
     si_capability_revision = cs_capability_revision s,
     si_thermal_power_revision = cs_thermal_power_revision s,
     si_process_identity_revision = cs_process_identity_revision s \<rparr>"

subsection \<open>The publisher\<close>

datatype publish_error = SequenceExhausted

record snapshot_publisher =
  pb_daemon_epoch :: u64
  pb_next_sequence :: u64
  pb_latest :: "cycle_snapshot option"

definition publisher_at :: "u64 \<Rightarrow> u64 \<Rightarrow> snapshot_publisher" where
  "publisher_at epoch n = \<lparr> pb_daemon_epoch = epoch, pb_next_sequence = n, pb_latest = None \<rparr>"

definition publisher_new :: "u64 \<Rightarrow> snapshot_publisher" where
  "publisher_new epoch = publisher_at epoch 0"

definition publisher_next_id :: "snapshot_publisher \<Rightarrow> (publish_error + snapshot_id) \<times> snapshot_publisher" where
  "publisher_next_id p =
     (case checked_add (pb_next_sequence p) 1 of
        None \<Rightarrow> (Inl SequenceExhausted, p)
      | Some n \<Rightarrow> (Inr \<lparr> sn_daemon_epoch = pb_daemon_epoch p, sn_sequence = n \<rparr>, p\<lparr> pb_next_sequence := n \<rparr>))"

definition publish :: "cycle_snapshot \<Rightarrow> snapshot_publisher \<Rightarrow> (publish_error + cycle_snapshot) \<times> snapshot_publisher" where
  "publish s p =
     (case publisher_next_id p of
        (Inl e, p) \<Rightarrow> (Inl e, p)
      | (Inr i, p) \<Rightarrow>
          (let s = s\<lparr> cs_snapshot_id := i, cs_cycle := sn_sequence i \<rparr> in (Inr s, p\<lparr> pb_latest := Some s \<rparr>)))"

definition publisher_revision :: "snapshot_publisher \<Rightarrow> u64" where
  "publisher_revision p = (case pb_latest p of None \<Rightarrow> 0 | Some s \<Rightarrow> sn_sequence (cs_snapshot_id s))"

lemma publish_Inr:
  "publish s p = (Inr t, q) \<longleftrightarrow> unat (pb_next_sequence p) + 1 < 2 ^ 64
     \<and> t = s\<lparr> cs_snapshot_id := \<lparr> sn_daemon_epoch = pb_daemon_epoch p, sn_sequence = pb_next_sequence p + 1 \<rparr>,
         cs_cycle := pb_next_sequence p + 1 \<rparr>
     \<and> q = p\<lparr> pb_next_sequence := pb_next_sequence p + 1, pb_latest := Some t \<rparr>"
  by (auto simp: publish_def publisher_next_id_def checked_add_def Let_def)

text \<open>A stored observation is read back as it was written unless it claims to be fresh without a
  value, or carries a value that its status forbids.\<close>

definition observation_wf :: "'a source_observation \<Rightarrow> bool" where
  "observation_wf s \<longleftrightarrow> (case so_status s of ObsFresh \<Rightarrow> so_value s \<noteq> None | ObsStale \<Rightarrow> True | _ \<Rightarrow> so_value s = None)"

lemma observation_read_wf: "observation_wf (observation_read w)"
  by (auto simp: observation_read_def observation_wf_def split: observation_status.splits option.splits)

lemma observation_read_id: "observation_wf s \<Longrightarrow> observation_read s = s"
  by (cases s) (auto simp: observation_read_def observation_wf_def split: observation_status.splits)

lemma constructors_wf:
  "observation_wf (observation_fresh v g r age)" "observation_wf (observation_unavailable g r)"
  "observation_wf (observation_stale w g r age)" "observation_wf (observation_invalid g r)"
  "observation_wf (observation_truncated g r)" "observation_wf s \<Longrightarrow> observation_wf (observation_map f s)"
  by (auto simp: observation_wf_def observation_fresh_def observation_unavailable_def observation_stale_def
    observation_invalid_def observation_truncated_def observation_map_def split: observation_status.splits)

end
