(* ===== verification/Value_Scheduler.thy ===== *)
theory Value_Scheduler
  imports Cycle_Snapshot "HOL-Library.Product_Lexorder"
begin

text \<open>
  \<open>engine/value_scheduler.rs\<close>: the admission of optional computation. A plan selects jobs by
  integer scores within the time budget of the cycle and gives each a permit; the daemon claims the
  permits in one handoff, and a completion is accepted only for the exact permit that is running.
  The array of 64 job states is a function on the ten job identities, the only indices that occur.
  The microseconds that a selection took are the argument \<open>latency\<close>.
\<close>

definition MAX_SELECTED_PER_CYCLE :: nat where "MAX_SELECTED_PER_CYCLE = 16"
definition MAX_JOBS :: nat where "MAX_JOBS = 64"
definition MAX_IN_FLIGHT_OPTIONAL :: nat where "MAX_IN_FLIGHT_OPTIONAL = 4"
definition MAX_COMPLETIONS_PER_CYCLE :: nat where "MAX_COMPLETIONS_PER_CYCLE = 64"
definition MIN_COST_ESTIMATE_US :: u64 where "MIN_COST_ESTIMATE_US = 50"
definition MAX_JOB_SLICE_US :: u64 where "MAX_JOB_SLICE_US = 60000"
definition NOMINAL_BUDGET_US :: u64 where "NOMINAL_BUDGET_US = 150000"
definition GUARDED_BUDGET_US :: u64 where "GUARDED_BUDGET_US = 100000"
definition CONSTRAINED_BUDGET_US :: u64 where "CONSTRAINED_BUDGET_US = 60000"
definition SCORE_SCALE :: u64 where "SCORE_SCALE = 1000000"
definition Q_MAX :: u64 where "Q_MAX = 10000"
definition JOB_COUNT :: nat where "JOB_COUNT = 10"
definition MAX_NON_TERMINAL_COMPLETIONS_PER_CYCLE :: nat where
  "MAX_NON_TERMINAL_COMPLETIONS_PER_CYCLE = MAX_COMPLETIONS_PER_CYCLE - MAX_IN_FLIGHT_OPTIONAL"

lemmas vs_limits = MAX_SELECTED_PER_CYCLE_def MAX_JOBS_def MAX_IN_FLIGHT_OPTIONAL_def MAX_COMPLETIONS_PER_CYCLE_def
  MIN_COST_ESTIMATE_US_def MAX_JOB_SLICE_US_def NOMINAL_BUDGET_US_def GUARDED_BUDGET_US_def CONSTRAINED_BUDGET_US_def
  SCORE_SCALE_def Q_MAX_def JOB_COUNT_def MAX_NON_TERMINAL_COMPLETIONS_PER_CYCLE_def

subsection \<open>The catalog of jobs\<close>

datatype job_id =
    GpuImagination | ReflexReasoningRefresh | WorldModelRefresh | AisRuntimeRefresh | HardwarePrediction
  | HoltWintersRefresh | PageReclaimRefresh | PlannerAdviceRefresh | PeriodicLearningMaintenance | TelemetryFlush

definition all_jobs :: "job_id list" where
  "all_jobs = [GpuImagination, ReflexReasoningRefresh, WorldModelRefresh, AisRuntimeRefresh, HardwarePrediction,
     HoltWintersRefresh, PageReclaimRefresh, PlannerAdviceRefresh, PeriodicLearningMaintenance, TelemetryFlush]"

fun job_index :: "job_id \<Rightarrow> nat" where
  "job_index GpuImagination = 0"
| "job_index ReflexReasoningRefresh = 1"
| "job_index WorldModelRefresh = 2"
| "job_index AisRuntimeRefresh = 3"
| "job_index HardwarePrediction = 4"
| "job_index HoltWintersRefresh = 5"
| "job_index PageReclaimRefresh = 6"
| "job_index PlannerAdviceRefresh = 7"
| "job_index PeriodicLearningMaintenance = 8"
| "job_index TelemetryFlush = 9"

fun job_as_str :: "job_id \<Rightarrow> string" where
  "job_as_str GpuImagination = ''gpu-imagination''"
| "job_as_str ReflexReasoningRefresh = ''reflex-reasoning-refresh''"
| "job_as_str WorldModelRefresh = ''world-model-refresh''"
| "job_as_str AisRuntimeRefresh = ''ais-runtime-refresh''"
| "job_as_str HardwarePrediction = ''hardware-prediction''"
| "job_as_str HoltWintersRefresh = ''holt-winters-refresh''"
| "job_as_str PageReclaimRefresh = ''page-reclaim-refresh''"
| "job_as_str PlannerAdviceRefresh = ''planner-advice-refresh''"
| "job_as_str PeriodicLearningMaintenance = ''periodic-learning-maintenance''"
| "job_as_str TelemetryFlush = ''telemetry-flush''"

record job_descriptor =
  jd_id :: job_id
  jd_base_value_q :: u32
  jd_target_max_interval_us :: u64
  jd_static_floor_us :: u64
  jd_dependencies :: "job_id list"

fun descriptor_of :: "job_id \<Rightarrow> job_descriptor" where
  "descriptor_of GpuImagination = \<lparr> jd_id = GpuImagination, jd_base_value_q = 8500,
     jd_target_max_interval_us = 10000000, jd_static_floor_us = 4000, jd_dependencies = [] \<rparr>"
| "descriptor_of ReflexReasoningRefresh = \<lparr> jd_id = ReflexReasoningRefresh, jd_base_value_q = 9800,
     jd_target_max_interval_us = 2000000, jd_static_floor_us = 2000, jd_dependencies = [] \<rparr>"
| "descriptor_of WorldModelRefresh = \<lparr> jd_id = WorldModelRefresh, jd_base_value_q = 8900,
     jd_target_max_interval_us = 5000000, jd_static_floor_us = 6000, jd_dependencies = [] \<rparr>"
| "descriptor_of AisRuntimeRefresh = \<lparr> jd_id = AisRuntimeRefresh, jd_base_value_q = 7000,
     jd_target_max_interval_us = 30000000, jd_static_floor_us = 1500, jd_dependencies = [] \<rparr>"
| "descriptor_of HardwarePrediction = \<lparr> jd_id = HardwarePrediction, jd_base_value_q = 7600,
     jd_target_max_interval_us = 5000000, jd_static_floor_us = 3000, jd_dependencies = [] \<rparr>"
| "descriptor_of HoltWintersRefresh = \<lparr> jd_id = HoltWintersRefresh, jd_base_value_q = 7800,
     jd_target_max_interval_us = 5000000, jd_static_floor_us = 1000, jd_dependencies = [] \<rparr>"
| "descriptor_of PageReclaimRefresh = \<lparr> jd_id = PageReclaimRefresh, jd_base_value_q = 8100,
     jd_target_max_interval_us = 2000000, jd_static_floor_us = 2500, jd_dependencies = [] \<rparr>"
| "descriptor_of PlannerAdviceRefresh = \<lparr> jd_id = PlannerAdviceRefresh, jd_base_value_q = 8000,
     jd_target_max_interval_us = 5000000, jd_static_floor_us = 2500, jd_dependencies = [] \<rparr>"
| "descriptor_of PeriodicLearningMaintenance = \<lparr> jd_id = PeriodicLearningMaintenance, jd_base_value_q = 5500,
     jd_target_max_interval_us = 60000000, jd_static_floor_us = 5000, jd_dependencies = [] \<rparr>"
| "descriptor_of TelemetryFlush = \<lparr> jd_id = TelemetryFlush, jd_base_value_q = 6500,
     jd_target_max_interval_us = 10000000, jd_static_floor_us = 750, jd_dependencies = [] \<rparr>"

datatype scheduler_level = LevelNominal | LevelGuarded | LevelConstrained

fun budget_us :: "scheduler_level \<Rightarrow> u64" where
  "budget_us LevelNominal = NOMINAL_BUDGET_US"
| "budget_us LevelGuarded = GUARDED_BUDGET_US"
| "budget_us LevelConstrained = CONSTRAINED_BUDGET_US"

datatype scheduler_phase = VsShadow | VsActive | VsDisabled

definition should_execute :: "scheduler_phase \<Rightarrow> bool" where
  "should_execute p \<longleftrightarrow> p = VsActive"

subsection \<open>Inputs\<close>

record scheduler_inputs =
  in_level :: scheduler_level
  in_due :: "job_id \<Rightarrow> bool"
  in_signal_q :: "job_id \<Rightarrow> u16"
  in_elapsed_us :: "job_id \<Rightarrow> u64"
  in_budget_skips :: "job_id \<Rightarrow> u32"
  in_cost_estimate :: "job_id \<Rightarrow> f64 option"
  in_in_flight :: nat
  in_kill_switch :: bool
  in_sleeping :: bool

definition inputs_default :: scheduler_inputs where
  "inputs_default = \<lparr> in_level = LevelNominal, in_due = \<lambda>_. False, in_signal_q = \<lambda>_. 0, in_elapsed_us = \<lambda>_. 0,
     in_budget_skips = \<lambda>_. 0, in_cost_estimate = \<lambda>_. None, in_in_flight = 0, in_kill_switch = False,
     in_sleeping = False \<rparr>"

definition mark_due :: "job_id \<Rightarrow> scheduler_inputs \<Rightarrow> scheduler_inputs" where
  "mark_due j i = i\<lparr> in_due := (in_due i)(j := True),
     in_elapsed_us := (in_elapsed_us i)(j := jd_target_max_interval_us (descriptor_of j)) \<rparr>"

definition all_due :: "scheduler_level \<Rightarrow> scheduler_inputs" where
  "all_due lv = fold mark_due all_jobs (inputs_default\<lparr> in_level := lv \<rparr>)"

definition with_due_jobs :: "scheduler_level \<Rightarrow> job_id list \<Rightarrow> scheduler_inputs" where
  "with_due_jobs lv js = fold mark_due (take MAX_JOBS js) (inputs_default\<lparr> in_level := lv \<rparr>)"

definition set_due :: "job_id \<Rightarrow> bool \<Rightarrow> scheduler_inputs \<Rightarrow> scheduler_inputs" where
  "set_due j due i =
     (let i = i\<lparr> in_due := (in_due i)(j := due) \<rparr> in
      if due \<and> in_elapsed_us i j = 0
      then i\<lparr> in_elapsed_us := (in_elapsed_us i)(j := jd_target_max_interval_us (descriptor_of j)) \<rparr> else i)"

definition set_signal_q :: "job_id \<Rightarrow> u16 \<Rightarrow> scheduler_inputs \<Rightarrow> scheduler_inputs" where
  "set_signal_q j q i = i\<lparr> in_signal_q := (in_signal_q i)(j := ucast (min (ucast q :: u64) Q_MAX)) \<rparr>"

text \<open>Rounding a float: half away from zero; the conversion to an integer saturates.\<close>

definition round_half_away :: "rat \<Rightarrow> int" where
  "round_half_away r = (if 0 \<le> r then \<lfloor>r + 1 / 2\<rfloor> else - \<lfloor>1 / 2 - r\<rfloor>)"

definition int_to_u64 :: "int \<Rightarrow> u64" where
  "int_to_u64 n = of_int (max 0 (min (2 ^ 64 - 1) n))"

fun sanitize_signal :: "f64 \<Rightarrow> u64" where
  "sanitize_signal (F_Fin r) = int_to_u64 (max 0 (min (uint Q_MAX) (round_half_away r)))"
| "sanitize_signal _ = 0"

definition set_signal :: "job_id \<Rightarrow> f64 \<Rightarrow> scheduler_inputs \<Rightarrow> scheduler_inputs" where
  "set_signal j x i = i\<lparr> in_signal_q := (in_signal_q i)(j := ucast (sanitize_signal x)) \<rparr>"

definition set_elapsed_since_success_us :: "job_id \<Rightarrow> u64 \<Rightarrow> scheduler_inputs \<Rightarrow> scheduler_inputs" where
  "set_elapsed_since_success_us j e i = i\<lparr> in_elapsed_us := (in_elapsed_us i)(j := e) \<rparr>"

definition set_consecutive_budget_skips :: "job_id \<Rightarrow> u32 \<Rightarrow> scheduler_inputs \<Rightarrow> scheduler_inputs" where
  "set_consecutive_budget_skips j n i = i\<lparr> in_budget_skips := (in_budget_skips i)(j := n) \<rparr>"

definition set_cost_estimate_us :: "job_id \<Rightarrow> f64 \<Rightarrow> scheduler_inputs \<Rightarrow> scheduler_inputs" where
  "set_cost_estimate_us j x i = i\<lparr> in_cost_estimate := (in_cost_estimate i)(j := Some x) \<rparr>"

definition with_in_flight :: "nat \<Rightarrow> scheduler_inputs \<Rightarrow> scheduler_inputs" where
  "with_in_flight n i = i\<lparr> in_in_flight := n \<rparr>"

definition with_kill_switch :: "bool \<Rightarrow> scheduler_inputs \<Rightarrow> scheduler_inputs" where
  "with_kill_switch b i = i\<lparr> in_kill_switch := b \<rparr>"

definition with_sleeping :: "bool \<Rightarrow> scheduler_inputs \<Rightarrow> scheduler_inputs" where
  "with_sleeping b i = i\<lparr> in_sleeping := b \<rparr>"

subsection \<open>Permits, completions and plans\<close>

record job_permit =
  jp_job :: job_id
  jp_snapshot_id :: snapshot_id
  jp_workload_id :: u64
  jp_capability_revision :: u64
  jp_thermal_power_revision :: u64
  jp_process_identity_revision :: u64
  jp_generation :: u64
  jp_submitted_mono_us :: u64
  jp_deadline_mono_us :: u64
  jp_predicted_us :: u64
  jp_value_q :: u64
  jp_score_q :: u64
  jp_dependencies :: "job_id list"
  jp_should_execute :: bool

definition permit_identity_of :: "job_permit \<Rightarrow> snapshot_identity" where
  "permit_identity_of p = \<lparr> si_snapshot_id = jp_snapshot_id p, si_workload_id = jp_workload_id p,
     si_capability_revision = jp_capability_revision p,
     si_thermal_power_revision = jp_thermal_power_revision p,
     si_process_identity_revision = jp_process_identity_revision p \<rparr>"

datatype job_completion_status = JcSucceeded | JcFailed | JcCancelled | JcTimedOut

record job_completion =
  jc_job :: job_id
  jc_snapshot_id :: snapshot_id
  jc_workload_id :: u64
  jc_capability_revision :: u64
  jc_thermal_power_revision :: u64
  jc_process_identity_revision :: u64
  jc_generation :: u64
  jc_deadline_mono_us :: u64
  jc_completed_mono_us :: u64
  jc_elapsed_us :: u32
  jc_status :: job_completion_status

definition completion_from_permit :: "job_permit \<Rightarrow> u64 \<Rightarrow> u32 \<Rightarrow> job_completion_status \<Rightarrow> job_completion" where
  "completion_from_permit p completed elapsed st = \<lparr> jc_job = jp_job p, jc_snapshot_id = jp_snapshot_id p,
     jc_workload_id = jp_workload_id p, jc_capability_revision = jp_capability_revision p,
     jc_thermal_power_revision = jp_thermal_power_revision p,
     jc_process_identity_revision = jp_process_identity_revision p, jc_generation = jp_generation p,
     jc_deadline_mono_us = jp_deadline_mono_us p, jc_completed_mono_us = completed, jc_elapsed_us = elapsed,
     jc_status = st \<rparr>"

datatype completion_disposition = CdpAccepted | CdpStale | CdpCapacity

record scheduler_plan =
  pl_level :: scheduler_level
  pl_budget_us :: u64
  pl_predicted_us :: u64
  pl_eligible_jobs :: nat
  pl_selected_jobs :: nat
  pl_in_flight_jobs :: nat
  pl_should_execute :: bool
  pl_selection_latency_us :: u64
  pl_permits :: "job_permit list"

text \<open>A handoff: the permits of one plan, all executable, of one identity, for distinct jobs.\<close>

definition handoff_from_permits :: "job_permit list \<Rightarrow> job_permit list option" where
  "handoff_from_permits ps =
     (if ps = [] \<or> length ps > MAX_IN_FLIGHT_OPTIONAL then None
      else if list_ex (\<lambda>p. \<not> jp_should_execute p \<or> permit_identity_of p \<noteq> permit_identity_of (hd ps)) ps
        \<or> \<not> distinct (map jp_job ps) then None
      else Some ps)"

definition handoff_from_plan :: "scheduler_plan \<Rightarrow> job_permit list option" where
  "handoff_from_plan pl = (if \<not> pl_should_execute pl then None else handoff_from_permits (pl_permits pl))"

subsection \<open>State\<close>

record vs_metrics =
  vm_phase :: scheduler_phase
  vm_registered_jobs :: u64
  vm_eligible_jobs :: u64
  vm_selected_jobs :: u64
  vm_selected_total :: u64
  vm_in_flight_jobs :: u64
  vm_budget_us :: u64
  vm_predicted_us :: u64
  vm_actual_us :: u64
  vm_selection_latency_us :: u64
  vm_max_selection_latency_us :: u64
  vm_completed_total :: u64
  vm_success_total :: u64
  vm_failed_total :: u64
  vm_cancelled_total :: u64
  vm_handoff_discarded_total :: u64
  vm_timed_out_total :: u64
  vm_expired_active_total :: u64
  vm_stale_total :: u64
  vm_invalid_cost_total :: u64
  vm_budget_skipped_total :: u64
  vm_capacity_skipped_total :: u64
  vm_running_skipped_total :: u64
  vm_generation_overflow_total :: u64
  vm_deadline_overflow_total :: u64
  vm_foreign_snapshot_total :: u64
  vm_regressive_snapshot_total :: u64
  vm_completion_capacity_dropped_total :: u64
  vm_completions_seen :: u64

definition vs_metrics_default :: vs_metrics where
  "vs_metrics_default = \<lparr> vm_phase = VsShadow, vm_registered_jobs = of_nat JOB_COUNT, vm_eligible_jobs = 0,
     vm_selected_jobs = 0, vm_selected_total = 0, vm_in_flight_jobs = 0, vm_budget_us = NOMINAL_BUDGET_US,
     vm_predicted_us = 0, vm_actual_us = 0, vm_selection_latency_us = 0, vm_max_selection_latency_us = 0,
     vm_completed_total = 0, vm_success_total = 0, vm_failed_total = 0, vm_cancelled_total = 0,
     vm_handoff_discarded_total = 0, vm_timed_out_total = 0, vm_expired_active_total = 0, vm_stale_total = 0,
     vm_invalid_cost_total = 0, vm_budget_skipped_total = 0, vm_capacity_skipped_total = 0,
     vm_running_skipped_total = 0, vm_generation_overflow_total = 0, vm_deadline_overflow_total = 0,
     vm_foreign_snapshot_total = 0, vm_regressive_snapshot_total = 0,
     vm_completion_capacity_dropped_total = 0, vm_completions_seen = 0 \<rparr>"

datatype permit_lifecycle = PlPending | PlRunning
datatype pending_release = PrDiscarded | PrClaimExpired

record permit_identity =
  pi_identity :: snapshot_identity
  pi_generation :: u64
  pi_submitted_mono_us :: u64
  pi_deadline_mono_us :: u64
  pi_lifecycle :: permit_lifecycle

record job_state =
  js_generation :: u64
  js_ewma_us :: u64
  js_last_observed_us :: u64
  js_last_success_sequence :: u64
  js_active :: "permit_identity option"

definition job_state_default :: job_state where
  "job_state_default = \<lparr> js_generation = 0, js_ewma_us = 0, js_last_observed_us = 0,
     js_last_success_sequence = 0, js_active = None \<rparr>"

record job_candidate =
  jcd_job :: job_id
  jcd_freshness_q :: u64
  jcd_value_q :: u64
  jcd_cost_us :: u64
  jcd_score_q :: u64
  jcd_oldest_success :: u64

record value_scheduler =
  vs_phase :: scheduler_phase
  vs_jobs :: "job_id \<Rightarrow> job_state"
  vs_metrics :: vs_metrics
  vs_current_snapshot :: "snapshot_identity option"

definition on_vm :: "(vs_metrics \<Rightarrow> vs_metrics) \<Rightarrow> value_scheduler \<Rightarrow> value_scheduler" where
  "on_vm f s = s\<lparr> vs_metrics := f (vs_metrics s) \<rparr>"

definition on_job :: "job_id \<Rightarrow> (job_state \<Rightarrow> job_state) \<Rightarrow> value_scheduler \<Rightarrow> value_scheduler" where
  "on_job j f s = s\<lparr> vs_jobs := (vs_jobs s)(j := f (vs_jobs s j)) \<rparr>"

definition vs_new :: "scheduler_phase \<Rightarrow> value_scheduler" where
  "vs_new p = \<lparr> vs_phase = p, vs_jobs = \<lambda>_. job_state_default, vs_metrics = vs_metrics_default\<lparr> vm_phase := p \<rparr>,
     vs_current_snapshot = None \<rparr>"

definition vs_set_phase :: "scheduler_phase \<Rightarrow> value_scheduler \<Rightarrow> value_scheduler" where
  "vs_set_phase p s = on_vm (\<lambda>m. m\<lparr> vm_phase := p \<rparr>) (s\<lparr> vs_phase := p \<rparr>)"

definition clamp_cost :: "u64 \<Rightarrow> u64" where
  "clamp_cost c = max MIN_COST_ESTIMATE_US (min MAX_JOB_SLICE_US c)"

definition estimated_cost_us :: "job_id \<Rightarrow> value_scheduler \<Rightarrow> u64" where
  "estimated_cost_us j s =
     clamp_cost (max (max (js_last_observed_us (vs_jobs s j)) (js_ewma_us (vs_jobs s j)))
       (jd_static_floor_us (descriptor_of j)))"

definition last_success_sequence :: "job_id \<Rightarrow> value_scheduler \<Rightarrow> u64 option" where
  "last_success_sequence j s =
     (let n = js_last_success_sequence (vs_jobs s j) in if n = 0 then None else Some n)"

definition active_jobs :: "value_scheduler \<Rightarrow> job_id list" where
  "active_jobs s = filter (\<lambda>j. js_active (vs_jobs s j) \<noteq> None) all_jobs"

definition refresh_in_flight :: "value_scheduler \<Rightarrow> value_scheduler" where
  "refresh_in_flight s = on_vm (\<lambda>m. m\<lparr> vm_in_flight_jobs := of_nat (length (active_jobs s)) \<rparr>) s"

subsection \<open>Costs and ranks\<close>

definition freshness_q :: "u64 \<Rightarrow> u64 \<Rightarrow> u64" where
  "freshness_q elapsed target = (if target = 0 then Q_MAX else min (sat_mul elapsed Q_MAX div target) Q_MAX)"

definition sanitize_elapsed :: "u32 \<Rightarrow> u64" where
  "sanitize_elapsed e = (if e = 0 then MAX_JOB_SLICE_US else clamp_cost (ucast e))"

text \<open>The cost charged to a job, and whether the caller's estimate was rejected.\<close>

definition cost_of_override :: "job_id \<Rightarrow> u64 \<Rightarrow> value_scheduler \<Rightarrow> u64" where
  "cost_of_override j observed s =
     (let old = max (js_ewma_us (vs_jobs s j)) MIN_COST_ESTIMATE_US;
          ewma = sat_add (7 * old) observed div 8
      in clamp_cost (max (max (jd_static_floor_us (descriptor_of j)) ewma) observed))"

definition cost_for :: "job_id \<Rightarrow> f64 option \<Rightarrow> value_scheduler \<Rightarrow> u64 \<times> bool" where
  "cost_for j est s =
     (case est of
        Some (F_Fin r) \<Rightarrow>
          if r \<le> 0 then (MAX_JOB_SLICE_US, True) else (cost_of_override j (int_to_u64 (round_half_away r)) s, False)
      | Some _ \<Rightarrow> (MAX_JOB_SLICE_US, True)
      | None \<Rightarrow> (estimated_cost_us j s, False))"

definition update_cost :: "job_id \<Rightarrow> u32 \<Rightarrow> value_scheduler \<Rightarrow> value_scheduler" where
  "update_cost j elapsed = on_job j (\<lambda>st.
     let observed = sanitize_elapsed elapsed;
         old = max (max (js_ewma_us st) (jd_static_floor_us (descriptor_of j))) MIN_COST_ESTIMATE_US
     in st\<lparr> js_ewma_us := clamp_cost (sat_add (7 * old) observed div 8), js_last_observed_us := observed \<rparr>)"

definition value_q :: "job_id \<Rightarrow> scheduler_inputs \<Rightarrow> u64" where
  "value_q j i =
     (let fresh = freshness_q (in_elapsed_us i j) (jd_target_max_interval_us (descriptor_of j));
          signal = min (ucast (in_signal_q i j)) Q_MAX;
          starvation = min (sat_mul (ucast (in_budget_skips i j)) 1000) Q_MAX
      in (4 * ucast (jd_base_value_q (descriptor_of j)) + 3 * fresh + 2 * signal + starvation) div 10)"

definition candidate_of :: "scheduler_inputs \<Rightarrow> value_scheduler \<Rightarrow> job_id \<Rightarrow> job_candidate" where
  "candidate_of i s j =
     (let v = value_q j i; c = fst (cost_for j (in_cost_estimate i j) s)
      in \<lparr> jcd_job = j,
           jcd_freshness_q = freshness_q (in_elapsed_us i j) (jd_target_max_interval_us (descriptor_of j)),
           jcd_value_q = v, jcd_cost_us = c, jcd_score_q = sat_mul v SCORE_SCALE div max c 1,
           jcd_oldest_success = js_last_success_sequence (vs_jobs s j) \<rparr>)"

text \<open>\<open>compare_candidates\<close>: the higher score first, then the staler job, then the one that succeeded
  longest ago, then the order of the identities.\<close>

definition candidate_rank :: "job_candidate \<Rightarrow> int \<times> int \<times> int \<times> nat" where
  "candidate_rank c = (- uint (jcd_score_q c), - uint (jcd_freshness_q c), uint (jcd_oldest_success c),
     job_index (jcd_job c))"

definition due_jobs :: "scheduler_inputs \<Rightarrow> job_id list" where
  "due_jobs i = filter (in_due i) all_jobs"

definition count_invalid_cost :: "scheduler_inputs \<Rightarrow> job_id \<Rightarrow> value_scheduler \<Rightarrow> value_scheduler" where
  "count_invalid_cost i j s =
     (if snd (cost_for j (in_cost_estimate i j) s)
      then on_vm (\<lambda>m. m\<lparr> vm_invalid_cost_total := sat_add (vm_invalid_cost_total m) 1 \<rparr>) s else s)"

definition ranked_candidates :: "scheduler_inputs \<Rightarrow> value_scheduler \<Rightarrow> job_candidate list" where
  "ranked_candidates i s = sort_key candidate_rank (map (candidate_of i s) (due_jobs i))"

subsection \<open>Planning\<close>

definition permit_expired :: "snapshot_identity \<Rightarrow> permit_identity \<Rightarrow> bool" where
  "permit_expired cur a \<longleftrightarrow>
     sn_daemon_epoch (si_snapshot_id (pi_identity a)) \<noteq> sn_daemon_epoch (si_snapshot_id cur)
   \<or> si_workload_id (pi_identity a) \<noteq> si_workload_id cur
   \<or> si_capability_revision (pi_identity a) \<noteq> si_capability_revision cur
   \<or> si_thermal_power_revision (pi_identity a) \<noteq> si_thermal_power_revision cur
   \<or> si_process_identity_revision (pi_identity a) \<noteq> si_process_identity_revision cur
   \<or> sat_sub (sn_sequence (si_snapshot_id cur)) (sn_sequence (si_snapshot_id (pi_identity a))) > 2"

definition count_expired :: "vs_metrics \<Rightarrow> vs_metrics" where
  "count_expired m = m\<lparr> vm_timed_out_total := sat_add (vm_timed_out_total m) 1,
     vm_expired_active_total := sat_add (vm_expired_active_total m) 1 \<rparr>"

definition release_job :: "job_id \<Rightarrow> value_scheduler \<Rightarrow> value_scheduler" where
  "release_job j = on_job j (\<lambda>st. st\<lparr> js_active := None \<rparr>)"

definition expire_job :: "snapshot_identity \<Rightarrow> job_id \<Rightarrow> value_scheduler \<Rightarrow> value_scheduler" where
  "expire_job cur j s =
     (case js_active (vs_jobs s j) of
        Some a \<Rightarrow> if permit_expired cur a then on_vm count_expired (release_job j s) else s
      | None \<Rightarrow> s)"

definition expire_stale_active :: "snapshot_identity \<Rightarrow> value_scheduler \<Rightarrow> value_scheduler" where
  "expire_stale_active cur s = fold (expire_job cur) all_jobs s"

definition rejected_plan :: "scheduler_level \<Rightarrow> u64 \<Rightarrow> u64 \<Rightarrow> value_scheduler \<Rightarrow> scheduler_plan \<times> value_scheduler" where
  "rejected_plan lv budget latency s =
     (let n = length (active_jobs s)
      in (\<lparr> pl_level = lv, pl_budget_us = budget, pl_predicted_us = 0, pl_eligible_jobs = 0, pl_selected_jobs = 0,
            pl_in_flight_jobs = n, pl_should_execute = False, pl_selection_latency_us = latency, pl_permits = [] \<rparr>,
          on_vm (\<lambda>m. m\<lparr> vm_eligible_jobs := 0, vm_selected_jobs := 0, vm_in_flight_jobs := of_nat n,
            vm_selection_latency_us := latency,
            vm_max_selection_latency_us := max (vm_max_selection_latency_us m) latency \<rparr>) s))"

text \<open>The variables of the selection loop.\<close>

record selection =
  se_sched :: value_scheduler
  se_predicted_us :: u64
  se_permits :: "job_permit list"
  se_flags :: "job_id \<Rightarrow> bool"
  se_in_flight :: nat

definition skip :: "(vs_metrics \<Rightarrow> vs_metrics) \<Rightarrow> selection \<Rightarrow> selection" where
  "skip f a = a\<lparr> se_sched := on_vm f (se_sched a) \<rparr>"

definition count_running_skip :: "vs_metrics \<Rightarrow> vs_metrics" where
  "count_running_skip m = m\<lparr> vm_running_skipped_total := sat_add (vm_running_skipped_total m) 1 \<rparr>"

definition count_capacity_skip :: "vs_metrics \<Rightarrow> vs_metrics" where
  "count_capacity_skip m = m\<lparr> vm_capacity_skipped_total := sat_add (vm_capacity_skipped_total m) 1 \<rparr>"

definition count_budget_skip :: "vs_metrics \<Rightarrow> vs_metrics" where
  "count_budget_skip m = m\<lparr> vm_budget_skipped_total := sat_add (vm_budget_skipped_total m) 1 \<rparr>"

definition count_generation_overflow :: "vs_metrics \<Rightarrow> vs_metrics" where
  "count_generation_overflow m = m\<lparr> vm_generation_overflow_total := sat_add (vm_generation_overflow_total m) 1 \<rparr>"

definition count_deadline_overflow :: "vs_metrics \<Rightarrow> vs_metrics" where
  "count_deadline_overflow m = m\<lparr> vm_deadline_overflow_total := sat_add (vm_deadline_overflow_total m) 1 \<rparr>"

definition lifecycle_of :: "job_id \<Rightarrow> value_scheduler \<Rightarrow> permit_lifecycle option" where
  "lifecycle_of j s = map_option pi_lifecycle (js_active (vs_jobs s j))"

definition permit_for :: "cycle_snapshot \<Rightarrow> bool \<Rightarrow> job_candidate \<Rightarrow> u64 \<Rightarrow> u64 \<Rightarrow> job_permit" where
  "permit_for sn exec c g dl = \<lparr> jp_job = jcd_job c, jp_snapshot_id = cs_snapshot_id sn,
     jp_workload_id = cs_workload_id sn, jp_capability_revision = cs_capability_revision sn,
     jp_thermal_power_revision = cs_thermal_power_revision sn,
     jp_process_identity_revision = cs_process_identity_revision sn, jp_generation = g,
     jp_submitted_mono_us = cs_cut_completed_mono_us sn, jp_deadline_mono_us = dl,
     jp_predicted_us = jcd_cost_us c, jp_value_q = jcd_value_q c, jp_score_q = jcd_score_q c,
     jp_dependencies = jd_dependencies (descriptor_of (jcd_job c)), jp_should_execute = exec \<rparr>"

definition activate :: "cycle_snapshot \<Rightarrow> u64 \<Rightarrow> u64 \<Rightarrow> job_state \<Rightarrow> job_state" where
  "activate sn g dl st = st\<lparr> js_generation := g, js_active := Some \<lparr> pi_identity = identity_of sn,
     pi_generation = g, pi_submitted_mono_us = cs_cut_completed_mono_us sn, pi_deadline_mono_us = dl,
     pi_lifecycle = PlPending \<rparr> \<rparr>"

definition admit :: "cycle_snapshot \<Rightarrow> bool \<Rightarrow> job_candidate \<Rightarrow> u64 \<Rightarrow> u64 \<Rightarrow> selection \<Rightarrow> selection" where
  "admit sn exec c g dl a =
     (let j = jcd_job c;
          replacing = exec \<and> lifecycle_of j (se_sched a) = Some PlPending
      in a\<lparr> se_sched := (if exec then on_job j (activate sn g dl) (se_sched a) else se_sched a),
            se_in_flight := (if exec \<and> \<not> replacing then se_in_flight a + 1 else se_in_flight a),
            se_flags := (se_flags a)(j := True),
            se_predicted_us := sat_add (se_predicted_us a) (jcd_cost_us c),
            se_permits := se_permits a @ [permit_for sn exec c g dl] \<rparr>)"

definition consider_candidate :: "cycle_snapshot \<Rightarrow> u64 \<Rightarrow> bool \<Rightarrow> job_candidate \<Rightarrow> selection \<Rightarrow> selection" where
  "consider_candidate sn budget exec c a =
     (let lc = lifecycle_of (jcd_job c) (se_sched a) in
      if exec \<and> lc = Some PlRunning then skip count_running_skip a
      else if exec \<and> se_in_flight a \<ge> MAX_IN_FLIGHT_OPTIONAL \<and> lc \<noteq> Some PlPending then skip count_capacity_skip a
      else if jcd_cost_us c > sat_sub budget (se_predicted_us a) then skip count_budget_skip a
      else if list_ex (\<lambda>d. \<not> se_flags a d) (jd_dependencies (descriptor_of (jcd_job c)))
        then skip count_budget_skip a
      else (case checked_add (js_generation (vs_jobs (se_sched a) (jcd_job c))) 1 of
              None \<Rightarrow> skip count_generation_overflow a
            | Some g \<Rightarrow>
                (case checked_add (cs_cut_completed_mono_us sn) (jcd_cost_us c) of
                   None \<Rightarrow> skip count_deadline_overflow a
                 | Some dl \<Rightarrow> admit sn exec c g dl a)))"

fun select_candidates :: "cycle_snapshot \<Rightarrow> u64 \<Rightarrow> bool \<Rightarrow> job_candidate list \<Rightarrow> selection \<Rightarrow> selection" where
  "select_candidates sn budget exec [] a = a"
| "select_candidates sn budget exec (c # cs) a =
     (if length (se_permits a) \<ge> MAX_SELECTED_PER_CYCLE then a
      else select_candidates sn budget exec cs (consider_candidate sn budget exec c a))"

definition blocked :: "cycle_snapshot \<Rightarrow> scheduler_inputs \<Rightarrow> value_scheduler \<Rightarrow> bool" where
  "blocked sn i s \<longleftrightarrow> vs_phase s = VsDisabled \<or> in_kill_switch i \<or> in_sleeping i \<or> cs_kill_switch sn \<or> cs_sleeping sn"

definition record_plan :: "nat \<Rightarrow> u64 \<Rightarrow> u64 \<Rightarrow> selection \<Rightarrow> value_scheduler" where
  "record_plan eligible budget latency a = on_vm (\<lambda>m. m\<lparr> vm_eligible_jobs := of_nat eligible,
     vm_selected_jobs := of_nat (length (se_permits a)),
     vm_selected_total := sat_add (vm_selected_total m) (of_nat (length (se_permits a))),
     vm_in_flight_jobs := of_nat (se_in_flight a), vm_budget_us := budget, vm_predicted_us := se_predicted_us a,
     vm_selection_latency_us := latency,
     vm_max_selection_latency_us := max (vm_max_selection_latency_us m) latency \<rparr>) (se_sched a)"

text \<open>A plan for a snapshot that is of this daemon and newer than the last one.\<close>

definition open_cycle :: "cycle_snapshot \<Rightarrow> value_scheduler \<Rightarrow> value_scheduler" where
  "open_cycle sn s = expire_stale_active (identity_of sn)
     (on_vm (\<lambda>m. m\<lparr> vm_completions_seen := 0, vm_actual_us := 0 \<rparr>) (s\<lparr> vs_current_snapshot := Some (identity_of sn) \<rparr>))"

definition plan_candidates :: "cycle_snapshot \<Rightarrow> scheduler_inputs \<Rightarrow> value_scheduler \<Rightarrow> job_candidate list" where
  "plan_candidates sn i s = (if blocked sn i s then [] else ranked_candidates i s)"

definition plan_selection :: "cycle_snapshot \<Rightarrow> scheduler_inputs \<Rightarrow> value_scheduler \<Rightarrow> selection" where
  "plan_selection sn i s =
     (let counted = (if blocked sn i s then s else fold (count_invalid_cost i) (due_jobs i) s)
      in select_candidates sn (budget_us (in_level i)) (should_execute (vs_phase s)) (plan_candidates sn i s)
           \<lparr> se_sched = counted, se_predicted_us = 0, se_permits = [], se_flags = \<lambda>_. False,
             se_in_flight = max (in_in_flight i) (length (active_jobs s)) \<rparr>)"

definition accepted_plan :: "cycle_snapshot \<Rightarrow> scheduler_inputs \<Rightarrow> u64 \<Rightarrow> value_scheduler \<Rightarrow> scheduler_plan \<times> value_scheduler" where
  "accepted_plan sn i latency s =
     (let s = open_cycle sn s;
          a = plan_selection sn i s;
          budget = budget_us (in_level i);
          eligible = length (plan_candidates sn i s)
      in (\<lparr> pl_level = in_level i, pl_budget_us = budget, pl_predicted_us = se_predicted_us a,
            pl_eligible_jobs = eligible, pl_selected_jobs = length (se_permits a),
            pl_in_flight_jobs = se_in_flight a,
            pl_should_execute = (should_execute (vs_phase s) \<and> \<not> blocked sn i s),
            pl_selection_latency_us = latency, pl_permits = se_permits a \<rparr>,
          record_plan eligible budget latency a))"

definition vs_plan :: "cycle_snapshot \<Rightarrow> scheduler_inputs \<Rightarrow> u64 \<Rightarrow> value_scheduler \<Rightarrow> scheduler_plan \<times> value_scheduler" where
  "vs_plan sn i latency s =
     (case vs_current_snapshot s of
        Some cur \<Rightarrow>
          if sn_daemon_epoch (cs_snapshot_id sn) \<noteq> sn_daemon_epoch (si_snapshot_id cur)
          then rejected_plan (in_level i) (budget_us (in_level i)) latency
                 (on_vm (\<lambda>m. m\<lparr> vm_foreign_snapshot_total := sat_add (vm_foreign_snapshot_total m) 1 \<rparr>) s)
          else if sn_sequence (cs_snapshot_id sn) \<le> sn_sequence (si_snapshot_id cur)
          then rejected_plan (in_level i) (budget_us (in_level i)) latency
                 (on_vm (\<lambda>m. m\<lparr> vm_regressive_snapshot_total := sat_add (vm_regressive_snapshot_total m) 1 \<rparr>) s)
          else accepted_plan sn i latency s
      | None \<Rightarrow> accepted_plan sn i latency s)"

subsection \<open>Claiming, discarding and completing\<close>

definition pending_match :: "job_permit \<Rightarrow> value_scheduler \<Rightarrow> bool" where
  "pending_match p s \<longleftrightarrow> (case js_active (vs_jobs s (jp_job p)) of
      None \<Rightarrow> False
    | Some a \<Rightarrow> pi_lifecycle a = PlPending \<and> pi_identity a = permit_identity_of p
        \<and> pi_generation a = jp_generation p \<and> pi_submitted_mono_us a = jp_submitted_mono_us p
        \<and> pi_deadline_mono_us a = jp_deadline_mono_us p)"

definition mark_running :: "job_permit \<Rightarrow> value_scheduler \<Rightarrow> bool \<times> value_scheduler" where
  "mark_running p s =
     (if \<not> pending_match p s then (False, s)
      else (True, on_job (jp_job p) (\<lambda>st. st\<lparr> js_active := map_option (\<lambda>a. a\<lparr> pi_lifecycle := PlRunning \<rparr>) (js_active st) \<rparr>) s))"

fun count_release :: "pending_release \<Rightarrow> vs_metrics \<Rightarrow> vs_metrics" where
  "count_release PrDiscarded m = m\<lparr> vm_handoff_discarded_total := sat_add (vm_handoff_discarded_total m) 1 \<rparr>"
| "count_release PrClaimExpired m = count_expired m"

definition release_pending :: "pending_release \<Rightarrow> job_permit \<Rightarrow> value_scheduler \<Rightarrow> bool \<times> value_scheduler" where
  "release_pending r p s =
     (if \<not> pending_match p s then (False, s) else (True, on_vm (count_release r) (release_job (jp_job p) s)))"

definition claim_step :: "u64 \<Rightarrow> job_permit \<Rightarrow> job_permit list \<times> value_scheduler \<Rightarrow> job_permit list \<times> value_scheduler" where
  "claim_step now p = (\<lambda>(claimed, s).
     if now > jp_deadline_mono_us p then (claimed, snd (release_pending PrClaimExpired p s))
     else (case mark_running p s of (ok, s) \<Rightarrow> (if ok then claimed @ [p] else claimed, s)))"

definition claim_handoff :: "job_permit list \<Rightarrow> u64 \<Rightarrow> value_scheduler \<Rightarrow> job_permit list option \<times> value_scheduler" where
  "claim_handoff batch now s =
     (case fold (claim_step now) batch ([], s) of (claimed, s) \<Rightarrow> (handoff_from_permits claimed, refresh_in_flight s))"

definition discard_step :: "job_permit \<Rightarrow> nat \<times> value_scheduler \<Rightarrow> nat \<times> value_scheduler" where
  "discard_step p = (\<lambda>(n, s). case release_pending PrDiscarded p s of (ok, s) \<Rightarrow> (if ok then n + 1 else n, s))"

definition discard_handoff :: "job_permit list \<Rightarrow> value_scheduler \<Rightarrow> nat \<times> value_scheduler" where
  "discard_handoff batch s =
     (case fold discard_step batch (0, s) of (n, s) \<Rightarrow> (n, refresh_in_flight s))"

definition permit_matches :: "job_completion \<Rightarrow> permit_identity \<Rightarrow> bool" where
  "permit_matches c a \<longleftrightarrow> pi_lifecycle a = PlRunning
     \<and> si_snapshot_id (pi_identity a) = jc_snapshot_id c
     \<and> si_workload_id (pi_identity a) = jc_workload_id c
     \<and> si_capability_revision (pi_identity a) = jc_capability_revision c
     \<and> si_thermal_power_revision (pi_identity a) = jc_thermal_power_revision c
     \<and> si_process_identity_revision (pi_identity a) = jc_process_identity_revision c
     \<and> pi_generation a = jc_generation c \<and> pi_deadline_mono_us a = jc_deadline_mono_us c"

definition revision_is_current :: "job_completion \<Rightarrow> value_scheduler \<Rightarrow> bool" where
  "revision_is_current c s \<longleftrightarrow> (case vs_current_snapshot s of
      None \<Rightarrow> False
    | Some cur \<Rightarrow> sn_daemon_epoch (si_snapshot_id cur) = sn_daemon_epoch (jc_snapshot_id c)
        \<and> sn_sequence (si_snapshot_id cur) \<ge> sn_sequence (jc_snapshot_id c)
        \<and> sat_sub (sn_sequence (si_snapshot_id cur)) (sn_sequence (jc_snapshot_id c)) \<le> 2)"

fun count_status :: "job_completion_status \<Rightarrow> vs_metrics \<Rightarrow> vs_metrics" where
  "count_status JcSucceeded m = m\<lparr> vm_success_total := sat_add (vm_success_total m) 1 \<rparr>"
| "count_status JcFailed m = m\<lparr> vm_failed_total := sat_add (vm_failed_total m) 1 \<rparr>"
| "count_status JcCancelled m = m\<lparr> vm_cancelled_total := sat_add (vm_cancelled_total m) 1 \<rparr>"
| "count_status JcTimedOut m = m\<lparr> vm_timed_out_total := sat_add (vm_timed_out_total m) 1 \<rparr>"

definition note_success :: "job_id \<Rightarrow> u64 \<Rightarrow> bool \<Rightarrow> value_scheduler \<Rightarrow> value_scheduler" where
  "note_success j n ok s = (if ok then on_job j (\<lambda>st. st\<lparr> js_last_success_sequence := n \<rparr>) s else s)"

definition accept_completion :: "job_completion \<Rightarrow> value_scheduler \<Rightarrow> value_scheduler" where
  "accept_completion c s =
     (let j = jc_job c;
          s = on_vm (\<lambda>m. m\<lparr> vm_completions_seen := sat_add (vm_completions_seen m) 1 \<rparr>) s;
          s = refresh_in_flight (release_job j s);
          s = on_vm (\<lambda>m. m\<lparr> vm_completed_total := sat_add (vm_completed_total m) 1,
                vm_actual_us := sat_add (vm_actual_us m) (ucast (jc_elapsed_us c)) \<rparr>) s;
          s = update_cost j (jc_elapsed_us c) s;
          s = note_success j (sn_sequence (jc_snapshot_id c)) (jc_status c = JcSucceeded) s
      in on_vm (count_status (jc_status c)) s)"

definition count_dropped :: "vs_metrics \<Rightarrow> vs_metrics" where
  "count_dropped m = m\<lparr> vm_completion_capacity_dropped_total := sat_add (vm_completion_capacity_dropped_total m) 1 \<rparr>"

definition count_stale :: "vs_metrics \<Rightarrow> vs_metrics" where
  "count_stale m = m\<lparr> vm_stale_total := sat_add (vm_stale_total m) 1 \<rparr>"

definition complete_job :: "job_completion \<Rightarrow> value_scheduler \<Rightarrow> completion_disposition \<times> value_scheduler" where
  "complete_job c s =
     (let active = js_active (vs_jobs s (jc_job c));
          matches = (case active of None \<Rightarrow> False | Some a \<Rightarrow> permit_matches c a);
          identity_matches = (case active of None \<Rightarrow> False | Some a \<Rightarrow> revision_is_current c s \<and> matches
            \<and> jc_completed_mono_us c \<ge> pi_submitted_mono_us a \<and> jc_completed_mono_us c \<le> pi_deadline_mono_us a)
      in
      if \<not> identity_matches then
        (if matches then (CdpStale, on_vm (count_stale \<circ> count_expired) (refresh_in_flight (release_job (jc_job c) s)))
         else if unat (vm_completions_seen (vs_metrics s)) \<ge> MAX_NON_TERMINAL_COMPLETIONS_PER_CYCLE
           then (CdpCapacity, on_vm count_dropped s)
         else (CdpStale, on_vm (\<lambda>m. count_stale (m\<lparr> vm_completions_seen := sat_add (vm_completions_seen m) 1 \<rparr>)) s))
      else if unat (vm_completions_seen (vs_metrics s)) \<ge> MAX_COMPLETIONS_PER_CYCLE
        then (CdpCapacity, on_vm count_dropped s)
      else (CdpAccepted, accept_completion c s))"

definition observe_legacy_run :: "job_id \<Rightarrow> snapshot_id \<Rightarrow> u32 \<Rightarrow> bool \<Rightarrow> value_scheduler \<Rightarrow> value_scheduler" where
  "observe_legacy_run j sn elapsed ok s = note_success j (sn_sequence sn) ok (update_cost j elapsed s)"

end
