(* ===== verification/Value_Scheduler_Properties.thy ===== *)
theory Value_Scheduler_Properties
  imports Value_Scheduler "HOL-Library.Sublist"
begin

text \<open>
  What the value scheduler guarantees. The slots of the running jobs and the budget of a plan are kept
  by every call; a plan is a bounded greedy selection that can be handed off and claimed whole; and a
  completion of a running permit is accepted once, and only once, whatever the calls in between.
\<close>

subsection \<open>Components of the state\<close>

lemma on_vm_sel [simp]:
  "vs_jobs (on_vm f s) = vs_jobs s" "vs_phase (on_vm f s) = vs_phase s"
  "vs_current_snapshot (on_vm f s) = vs_current_snapshot s" "vs_metrics (on_vm f s) = f (vs_metrics s)"
  by (simp_all add: on_vm_def)

lemma on_job_sel [simp]:
  "vs_jobs (on_job j f s) = (vs_jobs s)(j := f (vs_jobs s j))" "vs_phase (on_job j f s) = vs_phase s"
  "vs_current_snapshot (on_job j f s) = vs_current_snapshot s" "vs_metrics (on_job j f s) = vs_metrics s"
  by (simp_all add: on_job_def)

definition busy :: "value_scheduler \<Rightarrow> job_id set" where
  "busy s = {j. js_active (vs_jobs s j) \<noteq> None}"

lemma set_all_jobs [simp]: "set all_jobs = UNIV"
  by (auto simp: all_jobs_def intro: job_id.exhaust)

lemma distinct_all_jobs [simp]: "distinct all_jobs"
  by (simp add: all_jobs_def)

instance job_id :: finite
  by standard (metis set_all_jobs List.finite_set)

lemma active_jobs_busy: "length (active_jobs s) = card (busy s)"
proof -
  have "length (active_jobs s) = card (set (active_jobs s))"
    by (rule distinct_card [symmetric]) (simp add: active_jobs_def)
  also have "set (active_jobs s) = busy s" by (simp add: active_jobs_def busy_def)
  finally show ?thesis .
qed

lemma busy_on_vm [simp]: "busy (on_vm f s) = busy s"
  by (simp add: busy_def)

lemma busy_on_job:
  "busy (on_job j f s) = (if js_active (f (vs_jobs s j)) = None then busy s - {j} else insert j (busy s))"
  by (auto simp: busy_def)

lemma busy_release [simp]: "busy (release_job j s) = busy s - {j}"
  by (simp add: release_job_def busy_on_job)

lemma release_sel [simp]:
  "vs_jobs (release_job j s) = (vs_jobs s)(j := (vs_jobs s j)\<lparr> js_active := None \<rparr>)"
  "vs_phase (release_job j s) = vs_phase s" "vs_current_snapshot (release_job j s) = vs_current_snapshot s"
  "vs_metrics (release_job j s) = vs_metrics s"
  by (simp_all add: release_job_def)

lemma refresh_sel [simp]:
  "vs_jobs (refresh_in_flight s) = vs_jobs s" "vs_phase (refresh_in_flight s) = vs_phase s"
  "vs_current_snapshot (refresh_in_flight s) = vs_current_snapshot s" "busy (refresh_in_flight s) = busy s"
  "vm_completions_seen (vs_metrics (refresh_in_flight s)) = vm_completions_seen (vs_metrics s)"
  by (simp_all add: refresh_in_flight_def)

lemma counters_keep_seen [simp]:
  "vm_completions_seen (count_expired m) = vm_completions_seen m"
  "vm_completions_seen (count_running_skip m) = vm_completions_seen m"
  "vm_completions_seen (count_capacity_skip m) = vm_completions_seen m"
  "vm_completions_seen (count_budget_skip m) = vm_completions_seen m"
  "vm_completions_seen (count_generation_overflow m) = vm_completions_seen m"
  "vm_completions_seen (count_deadline_overflow m) = vm_completions_seen m"
  "vm_completions_seen (count_dropped m) = vm_completions_seen m"
  "vm_completions_seen (count_stale m) = vm_completions_seen m"
  "vm_completions_seen (count_release r m) = vm_completions_seen m"
  "vm_completions_seen (count_status st m) = vm_completions_seen m"
  by (cases r; cases st; simp add: count_expired_def count_running_skip_def count_capacity_skip_def
    count_budget_skip_def count_generation_overflow_def count_deadline_overflow_def count_dropped_def count_stale_def)+

lemma clamp_cost_bounds: "MIN_COST_ESTIMATE_US \<le> clamp_cost c" "clamp_cost c \<le> MAX_JOB_SLICE_US"
  by (auto simp: clamp_cost_def vs_limits)

lemma sanitize_elapsed_bounds: "MIN_COST_ESTIMATE_US \<le> sanitize_elapsed e \<and> sanitize_elapsed e \<le> MAX_JOB_SLICE_US"
  using clamp_cost_bounds by (auto simp: sanitize_elapsed_def vs_limits)

lemma cost_for_bounds: "MIN_COST_ESTIMATE_US \<le> fst (cost_for j est s) \<and> fst (cost_for j est s) \<le> MAX_JOB_SLICE_US"
proof (cases "\<exists>r. est = Some (F_Fin r) \<and> 0 < r \<or> est = None")
  case True
  then show ?thesis
    using clamp_cost_bounds by (auto simp: cost_for_def cost_of_override_def estimated_cost_us_def Let_def)
next
  case False
  then have "fst (cost_for j est s) = MAX_JOB_SLICE_US"
    by (auto simp: cost_for_def split: option.splits f64.splits)
  then show ?thesis by (simp add: vs_limits)
qed

subsection \<open>The invariant\<close>

definition job_ok :: "job_state \<Rightarrow> bool" where
  "job_ok st \<longleftrightarrow> js_ewma_us st \<le> MAX_JOB_SLICE_US \<and> js_last_observed_us st \<le> MAX_JOB_SLICE_US
     \<and> (case js_active st of None \<Rightarrow> True | Some a \<Rightarrow> pi_generation a = js_generation st)"

definition vs_inv :: "value_scheduler \<Rightarrow> bool" where
  "vs_inv s \<longleftrightarrow> card (busy s) \<le> MAX_IN_FLIGHT_OPTIONAL
     \<and> unat (vm_completions_seen (vs_metrics s)) + card (busy s) \<le> MAX_COMPLETIONS_PER_CYCLE
     \<and> (\<forall>j. job_ok (vs_jobs s j))"

lemma vs_invI:
  assumes "card (busy s) \<le> MAX_IN_FLIGHT_OPTIONAL"
    and "unat (vm_completions_seen (vs_metrics s)) + card (busy s) \<le> MAX_COMPLETIONS_PER_CYCLE"
    and "\<And>j. job_ok (vs_jobs s j)"
  shows "vs_inv s"
  using assms by (simp add: vs_inv_def)

text \<open>A call that takes no slot, counts no completion and changes the job states well.\<close>

lemma vs_inv_frame:
  assumes "vs_inv s" and "busy t \<subseteq> busy s"
    and "vm_completions_seen (vs_metrics t) = vm_completions_seen (vs_metrics s)"
    and "\<And>j. job_ok (vs_jobs s j) \<Longrightarrow> job_ok (vs_jobs t j)"
  shows "vs_inv t"
proof -
  have "card (busy t) \<le> card (busy s)" using assms(2) by (simp add: card_mono)
  then show ?thesis using assms(1,3,4) by (simp add: vs_inv_def)
qed

lemma vs_inv_on_vm: "vs_inv s \<Longrightarrow> vm_completions_seen (f (vs_metrics s)) = vm_completions_seen (vs_metrics s) \<Longrightarrow>
    vs_inv (on_vm f s)"
  by (erule vs_inv_frame) simp_all

lemma job_ok_release [simp]: "job_ok st \<Longrightarrow> job_ok (st\<lparr> js_active := None \<rparr>)"
  by (simp add: job_ok_def)

lemma vs_inv_job: "vs_inv s \<Longrightarrow> job_ok (vs_jobs s j)"
  by (simp add: vs_inv_def)

lemma release_inv: "vs_inv s \<Longrightarrow> vs_inv (release_job j s)"
  by (erule vs_inv_frame) auto

lemma refresh_inv: "vs_inv s \<Longrightarrow> vs_inv (refresh_in_flight s)"
  by (simp add: vs_inv_def)

lemma expire_job_inv: "vs_inv s \<Longrightarrow> vs_inv (expire_job cur j s)"
  by (auto simp: expire_job_def intro!: vs_inv_on_vm release_inv split: option.splits)

interpretation vs_expiry: invariant_machine "expire_job cur" vs_inv for cur
  by unfold_locales (rule expire_job_inv)

lemma set_phase_inv: "vs_inv s \<Longrightarrow> vs_inv (vs_set_phase p s)"
  by (simp add: vs_set_phase_def vs_inv_def busy_def)

lemma update_cost_job_ok: "job_ok (vs_jobs s k) \<Longrightarrow> job_ok (vs_jobs (update_cost j e s) k)"
  by (auto simp: update_cost_def Let_def job_ok_def clamp_cost_bounds sanitize_elapsed_bounds split: option.splits)

lemma note_success_job_ok: "job_ok (vs_jobs s k) \<Longrightarrow> job_ok (vs_jobs (note_success j n ok s) k)"
  by (auto simp: note_success_def job_ok_def split: option.splits)

lemma update_cost_inv: "vs_inv s \<Longrightarrow> vs_inv (update_cost j e s)"
  by (erule vs_inv_frame) (auto simp: update_cost_job_ok, auto simp: update_cost_def busy_def Let_def split: if_splits)

lemma note_success_inv: "vs_inv s \<Longrightarrow> vs_inv (note_success j n ok s)"
  by (erule vs_inv_frame) (auto simp: note_success_job_ok, auto simp: note_success_def busy_def split: if_splits)

lemma mark_running_inv: "vs_inv s \<Longrightarrow> vs_inv (snd (mark_running p s))"
  by (erule vs_inv_frame) (auto simp: mark_running_def pending_match_def busy_on_job busy_def job_ok_def
    split: option.splits)

lemma release_pending_inv: "vs_inv s \<Longrightarrow> vs_inv (snd (release_pending r p s))"
  by (auto simp: release_pending_def intro!: vs_inv_on_vm release_inv)

lemma claim_steps_inv: "vs_inv (snd a) \<Longrightarrow> vs_inv (snd (fold (claim_step now) ps a))"
proof (induction ps arbitrary: a)
  case (Cons p ps)
  have "vs_inv (snd (claim_step now p a))"
    using Cons.prems mark_running_inv [of "snd a" p] release_pending_inv [of "snd a"]
    by (auto simp: claim_step_def split: prod.splits)
  then show ?case by (simp add: Cons.IH)
qed simp

lemma discard_steps_inv: "vs_inv (snd a) \<Longrightarrow> vs_inv (snd (fold discard_step ps a))"
proof (induction ps arbitrary: a)
  case (Cons p ps)
  have "vs_inv (snd (discard_step p a))"
    using Cons.prems release_pending_inv [of "snd a"] by (auto simp: discard_step_def split: prod.splits)
      (metis snd_conv)
  then show ?case by (simp add: Cons.IH)
qed simp

lemma claim_handoff_inv: "vs_inv s \<Longrightarrow> vs_inv (snd (claim_handoff b now s))"
  using claim_steps_inv [of "([], s)" now b] by (auto simp: claim_handoff_def refresh_inv split: prod.splits)

lemma discard_handoff_inv: "vs_inv s \<Longrightarrow> vs_inv (snd (discard_handoff b s))"
  using discard_steps_inv [of "(0, s)" b] by (auto simp: discard_handoff_def refresh_inv split: prod.splits)

subsection \<open>The selection loop\<close>

lemma consider_cases:
  obtains (skipped) f where "consider_candidate sn budget exec c a = skip f a"
      and "\<And>m. vm_completions_seen (f m) = vm_completions_seen m"
  | (admitted) g dl where "consider_candidate sn budget exec c a = admit sn exec c g dl a"
      and "exec \<Longrightarrow> lifecycle_of (jcd_job c) (se_sched a) \<noteq> Some PlRunning"
      and "exec \<Longrightarrow> se_in_flight a < MAX_IN_FLIGHT_OPTIONAL \<or> lifecycle_of (jcd_job c) (se_sched a) = Some PlPending"
      and "jcd_cost_us c \<le> sat_sub budget (se_predicted_us a)"
      and "checked_add (js_generation (vs_jobs (se_sched a) (jcd_job c))) 1 = Some g"
      and "checked_add (cs_cut_completed_mono_us sn) (jcd_cost_us c) = Some dl"
proof -
  let ?j = "jcd_job c"
  let ?r = "consider_candidate sn budget exec c a"
  consider "exec \<and> lifecycle_of ?j (se_sched a) = Some PlRunning"
    | "\<not> (exec \<and> lifecycle_of ?j (se_sched a) = Some PlRunning)"
      "exec \<and> se_in_flight a \<ge> MAX_IN_FLIGHT_OPTIONAL \<and> lifecycle_of ?j (se_sched a) \<noteq> Some PlPending
       \<or> jcd_cost_us c > sat_sub budget (se_predicted_us a)
       \<or> list_ex (\<lambda>d. \<not> se_flags a d) (jd_dependencies (descriptor_of ?j))
       \<or> checked_add (js_generation (vs_jobs (se_sched a) ?j)) 1 = None
       \<or> checked_add (cs_cut_completed_mono_us sn) (jcd_cost_us c) = None"
    | g dl where "\<not> (exec \<and> lifecycle_of ?j (se_sched a) = Some PlRunning)"
      "\<not> (exec \<and> se_in_flight a \<ge> MAX_IN_FLIGHT_OPTIONAL \<and> lifecycle_of ?j (se_sched a) \<noteq> Some PlPending)"
      "\<not> jcd_cost_us c > sat_sub budget (se_predicted_us a)"
      "\<not> list_ex (\<lambda>d. \<not> se_flags a d) (jd_dependencies (descriptor_of ?j))"
      "checked_add (js_generation (vs_jobs (se_sched a) ?j)) 1 = Some g"
      "checked_add (cs_cut_completed_mono_us sn) (jcd_cost_us c) = Some dl"
    by (metis not_Some_eq)
  then show thesis
  proof cases
    case 1
    then have "?r = skip count_running_skip a" by (simp add: consider_candidate_def)
    then show ?thesis by (rule skipped) simp
  next
    case 2
    then have "?r \<in> {skip f a |f. f \<in> {count_capacity_skip, count_budget_skip, count_generation_overflow, count_deadline_overflow}}"
      by (auto simp: consider_candidate_def Let_def split: option.splits)
    then show ?thesis using skipped by auto
  next
    case 3
    then have "?r = admit sn exec c g dl a" by (auto simp: consider_candidate_def Let_def)
    then show ?thesis by (rule admitted) (use 3 in \<open>auto simp: not_less\<close>)
  qed
qed

lemma skip_sel [simp]:
  "se_sched (skip f a) = on_vm f (se_sched a)" "se_permits (skip f a) = se_permits a"
  "se_predicted_us (skip f a) = se_predicted_us a" "se_in_flight (skip f a) = se_in_flight a"
  by (simp_all add: skip_def)

lemma admit_sel:
  "se_sched (admit sn exec c g dl a)
     = (if exec then on_job (jcd_job c) (activate sn g dl) (se_sched a) else se_sched a)"
  "se_in_flight (admit sn exec c g dl a)
     = (if exec \<and> lifecycle_of (jcd_job c) (se_sched a) \<noteq> Some PlPending then se_in_flight a + 1 else se_in_flight a)"
  "se_predicted_us (admit sn exec c g dl a) = sat_add (se_predicted_us a) (jcd_cost_us c)"
  "se_permits (admit sn exec c g dl a) = se_permits a @ [permit_for sn exec c g dl]"
  by (auto simp: admit_def Let_def)

lemma permit_for_sel [simp]:
  "jp_job (permit_for sn exec c g dl) = jcd_job c" "jp_predicted_us (permit_for sn exec c g dl) = jcd_cost_us c"
  "permit_identity_of (permit_for sn exec c g dl) = identity_of sn"
  "jp_generation (permit_for sn exec c g dl) = g" "jp_deadline_mono_us (permit_for sn exec c g dl) = dl"
  "jp_submitted_mono_us (permit_for sn exec c g dl) = cs_cut_completed_mono_us sn"
  "jp_value_q (permit_for sn exec c g dl) = jcd_value_q c" "jp_score_q (permit_for sn exec c g dl) = jcd_score_q c"
  "jp_should_execute (permit_for sn exec c g dl) = exec"
  by (simp_all add: permit_for_def permit_identity_of_def identity_of_def)

lemma consider_permits:
  obtains ps where "se_permits (consider_candidate sn budget exec c a) = se_permits a @ ps"
    and "ps = [] \<or> map jp_job ps = [jcd_job c]"
proof (cases rule: consider_cases [of sn budget exec c a])
  case (skipped f)
  then show ?thesis using that [of "[]"] by simp
next
  case (admitted g dl)
  then show ?thesis using that [of "[permit_for sn exec c g dl]"] by (simp add: admit_def Let_def)
qed

lemma select_permits_subseq:
  "\<exists>ps. se_permits (select_candidates sn budget exec cs a) = se_permits a @ ps
     \<and> subseq (map jp_job ps) (map jcd_job cs)"
proof (induction cs arbitrary: a)
  case (Cons c cs)
  obtain ps where ps: "se_permits (consider_candidate sn budget exec c a) = se_permits a @ ps"
    "ps = [] \<or> map jp_job ps = [jcd_job c]" using consider_permits by blast
  obtain qs where qs: "se_permits (select_candidates sn budget exec cs (consider_candidate sn budget exec c a))
      = se_permits (consider_candidate sn budget exec c a) @ qs"
    "subseq (map jp_job qs) (map jcd_job cs)" using Cons.IH by blast
  have "subseq (map jp_job (ps @ qs)) (map jcd_job (c # cs))" using ps(2) qs(2) by auto
  then show ?case using ps(1) qs(1)
    by (cases "length (se_permits a) \<ge> MAX_SELECTED_PER_CYCLE") (force intro: exI [of _ "[]"], fastforce)
qed simp

text \<open>What a permit takes over from its candidate: the job, the cost, the value and the score.\<close>

definition permit_view :: "job_permit \<Rightarrow> job_id \<times> u64 \<times> u64 \<times> u64" where
  "permit_view p = (jp_job p, jp_predicted_us p, jp_value_q p, jp_score_q p)"

definition candidate_view :: "job_candidate \<Rightarrow> job_id \<times> u64 \<times> u64 \<times> u64" where
  "candidate_view c = (jcd_job c, jcd_cost_us c, jcd_value_q c, jcd_score_q c)"

lemma select_views_subseq:
  "\<exists>ps. se_permits (select_candidates sn budget exec cs a) = se_permits a @ ps
     \<and> subseq (map permit_view ps) (map candidate_view cs)"
proof (induction cs arbitrary: a)
  case (Cons c cs)
  let ?b = "consider_candidate sn budget exec c a"
  obtain ps where ps: "se_permits ?b = se_permits a @ ps" "ps = [] \<or> map permit_view ps = [candidate_view c]"
  proof (cases rule: consider_cases [of sn budget exec c a])
    case (skipped f)
    then show ?thesis using that [of "[]"] by simp
  next
    case (admitted g dl)
    then show ?thesis using that [of "[permit_for sn exec c g dl]"]
      by (simp add: admit_sel permit_view_def candidate_view_def)
  qed
  obtain qs where qs: "se_permits (select_candidates sn budget exec cs ?b) = se_permits ?b @ qs"
    "subseq (map permit_view qs) (map candidate_view cs)" using Cons.IH by blast
  have "subseq (map permit_view (ps @ qs)) (map candidate_view (c # cs))" using ps(2) qs(2) by auto
  then show ?case using ps(1) qs(1)
    by (cases "length (se_permits a) \<ge> MAX_SELECTED_PER_CYCLE") (force intro: exI [of _ "[]"], fastforce)
qed simp

lemma disjoint_insert_mono: "S \<subseteq> insert c B \<Longrightarrow> c \<notin> A \<Longrightarrow> A \<inter> B = {} \<Longrightarrow> A \<inter> S = {}"
  by blast

lemma select_invariant:
  assumes "P a" and "distinct (map jcd_job cs)" and "set (map jcd_job cs) \<inter> jp_job ` set (se_permits a) = {}"
    and step: "\<And>c a. c \<in> set cs \<Longrightarrow> jcd_job c \<notin> jp_job ` set (se_permits a) \<Longrightarrow> P a
      \<Longrightarrow> P (consider_candidate sn budget exec c a)"
  shows "P (select_candidates sn budget exec cs a)"
  using assms
proof (induction cs arbitrary: a)
  case (Cons c cs)
  let ?b = "consider_candidate sn budget exec c a"
  obtain ps where "se_permits ?b = se_permits a @ ps" "ps = [] \<or> map jp_job ps = [jcd_job c]"
    using consider_permits by blast
  then have sub: "jp_job ` set (se_permits ?b) \<subseteq> insert (jcd_job c) (jp_job ` set (se_permits a))"
    by auto
  have b: "P ?b" using Cons.prems by (intro Cons.prems(4)) auto
  moreover have "distinct (map jcd_job cs)" using Cons.prems(2) by simp
  moreover have "set (map jcd_job cs) \<inter> jp_job ` set (se_permits ?b) = {}"
    by (rule disjoint_insert_mono [OF sub]) (use Cons.prems(2,3) in simp_all)
  ultimately have "P (select_candidates sn budget exec cs ?b)"
    using Cons.prems(4) by (intro Cons.IH) auto
  then show ?case using Cons.prems(1) by simp
qed simp

lemma due_jobs_distinct: "distinct (due_jobs i)"
  by (simp add: due_jobs_def)

lemma plan_candidates_jobs:
  "distinct (map jcd_job (plan_candidates sn i s))"
  "c \<in> set (plan_candidates sn i s) \<Longrightarrow> \<not> blocked sn i s \<and> in_due i (jcd_job c) \<and> c = candidate_of i s (jcd_job c)"
proof -
  have "mset (map jcd_job (ranked_candidates i s)) = mset (due_jobs i)"
    by (simp add: ranked_candidates_def candidate_of_def Let_def image_mset.compositionality comp_def)
  then have "distinct (map jcd_job (ranked_candidates i s))"
    using due_jobs_distinct mset_eq_imp_distinct_iff by blast
  then show "distinct (map jcd_job (plan_candidates sn i s))" by (simp add: plan_candidates_def)
  show "\<not> blocked sn i s \<and> in_due i (jcd_job c) \<and> c = candidate_of i s (jcd_job c)"
    if "c \<in> set (plan_candidates sn i s)"
    using that by (auto simp: plan_candidates_def ranked_candidates_def due_jobs_def candidate_of_def Let_def
      split: if_splits)
qed

definition sel_ok :: "bool \<Rightarrow> u64 \<Rightarrow> selection \<Rightarrow> bool" where
  "sel_ok exec budget a \<longleftrightarrow> vs_inv (se_sched a) \<and> vm_completions_seen (vs_metrics (se_sched a)) = 0
     \<and> card (busy (se_sched a)) \<le> se_in_flight a
     \<and> unat (se_predicted_us a) = sum_list (map (\<lambda>p. unat (jp_predicted_us p)) (se_permits a))
     \<and> se_predicted_us a \<le> budget
     \<and> (exec \<longrightarrow> (\<forall>p \<in> set (se_permits a). pending_match p (se_sched a)))"

definition permit_ok :: "cycle_snapshot \<Rightarrow> scheduler_inputs \<Rightarrow> bool \<Rightarrow> job_permit \<Rightarrow> bool" where
  "permit_ok sn i exec p \<longleftrightarrow> in_due i (jp_job p) \<and> MIN_COST_ESTIMATE_US \<le> jp_predicted_us p
     \<and> jp_predicted_us p \<le> MAX_JOB_SLICE_US \<and> jp_value_q p \<le> Q_MAX
     \<and> permit_identity_of p = identity_of sn \<and> jp_submitted_mono_us p = cs_cut_completed_mono_us sn
     \<and> unat (jp_deadline_mono_us p) = unat (cs_cut_completed_mono_us sn) + unat (jp_predicted_us p)
     \<and> jp_should_execute p = exec"

lemma lifecycle_None: "lifecycle_of j s = None \<longleftrightarrow> j \<notin> busy s"
  by (simp add: lifecycle_of_def busy_def)

lemma busy_activate: "busy (on_job j (activate sn g dl) s) = insert j (busy s)"
  by (simp add: busy_on_job activate_def)

lemma budget_left: "cost \<le> sat_sub budget pred \<Longrightarrow> pred \<le> budget \<Longrightarrow>
    unat (sat_add pred cost) = unat pred + unat cost \<and> sat_add pred cost \<le> budget" for cost :: "'a::len word"
  using unat_le_max [of budget] by (simp add: word_nat min_def) linarith

lemma activate_inv:
  assumes s: "vs_inv s" "vm_completions_seen (vs_metrics s) = 0"
    and free: "card (busy s) < MAX_IN_FLIGHT_OPTIONAL \<or> j \<in> busy s"
  shows "vs_inv (on_job j (activate sn g dl) s)"
proof (rule vs_invI)
  show card: "card (busy (on_job j (activate sn g dl) s)) \<le> MAX_IN_FLIGHT_OPTIONAL"
    using s free by (auto simp: busy_activate card_insert_if vs_inv_def)
  show "unat (vm_completions_seen (vs_metrics (on_job j (activate sn g dl) s)))
      + card (busy (on_job j (activate sn g dl) s)) \<le> MAX_COMPLETIONS_PER_CYCLE"
    using card s(2) by (simp add: MAX_COMPLETIONS_PER_CYCLE_def MAX_IN_FLIGHT_OPTIONAL_def)
  show "job_ok (vs_jobs (on_job j (activate sn g dl) s) k)" for k
    using vs_inv_job [OF s(1), of k] by (auto simp: activate_def job_ok_def)
qed

lemma admit_sel_ok:
  assumes a: "sel_ok exec budget a" and new: "jcd_job c \<notin> jp_job ` set (se_permits a)"
    and not_running: "exec \<Longrightarrow> lifecycle_of (jcd_job c) (se_sched a) \<noteq> Some PlRunning"
    and free: "exec \<Longrightarrow> se_in_flight a < MAX_IN_FLIGHT_OPTIONAL \<or> lifecycle_of (jcd_job c) (se_sched a) = Some PlPending"
    and cost: "jcd_cost_us c \<le> sat_sub budget (se_predicted_us a)"
  shows "sel_ok exec budget (admit sn exec c g dl a)"
proof -
  let ?j = "jcd_job c" and ?s = "se_sched a" and ?b = "admit sn exec c g dl a"
  have inv: "vs_inv ?s" "vm_completions_seen (vs_metrics ?s) = 0" "card (busy ?s) \<le> se_in_flight a"
    using a by (simp_all add: sel_ok_def)
  have slot: "card (busy ?s) < MAX_IN_FLIGHT_OPTIONAL \<or> ?j \<in> busy ?s" if exec
    using free [OF that] inv(3) lifecycle_None [of ?j ?s] by auto
  have sched: "se_sched ?b = (if exec then on_job ?j (activate sn g dl) ?s else ?s)"
    by (simp add: admit_sel)
  have "vs_inv (se_sched ?b)"
    using inv activate_inv [OF inv(1,2) slot] by (simp add: sched)
  moreover have "card (busy (se_sched ?b)) \<le> se_in_flight ?b"
    using inv(3) not_running lifecycle_None [of ?j ?s]
    by (cases "lifecycle_of ?j ?s") (auto simp: admit_sel busy_activate card_insert_if intro: permit_lifecycle.exhaust)
  moreover have "unat (se_predicted_us ?b) = sum_list (map (\<lambda>p. unat (jp_predicted_us p)) (se_permits ?b))
      \<and> se_predicted_us ?b \<le> budget"
    using budget_left [OF cost] a by (simp add: admit_sel sel_ok_def)
  moreover have "pending_match p (se_sched ?b)" if "exec" "p \<in> set (se_permits ?b)" for p
  proof (cases "p = permit_for sn exec c g dl")
    case True
    then show ?thesis using that(1) by (simp add: admit_sel pending_match_def activate_def)
  next
    case False
    then have "p \<in> set (se_permits a)" using that(2) by (auto simp: admit_sel)
    then have "pending_match p ?s" "jp_job p \<noteq> ?j" using a new that(1) by (auto simp: sel_ok_def image_iff)
    then show ?thesis using that(1) by (simp add: admit_sel pending_match_def)
  qed
  ultimately show ?thesis using inv(2) by (simp add: sel_ok_def sched)
qed

lemma consider_sel_ok:
  assumes "sel_ok exec budget a" and "jcd_job c \<notin> jp_job ` set (se_permits a)"
  shows "sel_ok exec budget (consider_candidate sn budget exec c a)"
proof (cases rule: consider_cases [of sn budget exec c a])
  case (skipped f)
  moreover have "pending_match p (on_vm f s) = pending_match p s" for p s by (simp add: pending_match_def)
  ultimately show ?thesis using assms(1) by (simp add: sel_ok_def vs_inv_on_vm)
next
  case (admitted g dl)
  show ?thesis using admit_sel_ok [OF assms] admitted by metis
qed

lemma value_q_bound: "value_q j i \<le> Q_MAX"
proof -
  define f where "f = freshness_q (in_elapsed_us i j) (jd_target_max_interval_us (descriptor_of j))"
  define g where "g = min (ucast (in_signal_q i j)) Q_MAX"
  define v where "v = min (sat_mul (ucast (in_budget_skips i j)) 1000) Q_MAX"
  define b where "b = (ucast (jd_base_value_q (descriptor_of j)) :: u64)"
  have le: "unat f \<le> 10000" "unat g \<le> 10000" "unat v \<le> 10000"
    by (simp_all add: f_def g_def v_def freshness_q_def Q_MAX_def min_def word_nat)
  have b: "unat b \<le> 9800" by (cases j) (simp_all add: b_def)
  have "unat (4 * b + 3 * f + 2 * g + v) = 4 * unat b + 3 * unat f + 2 * unat g + unat v"
    using le b by (simp add: unat_word_ariths)
  then have "unat (value_q j i) = (4 * unat b + 3 * unat f + 2 * unat g + unat v) div 10"
    by (simp add: value_q_def Let_def f_def g_def v_def b_def unat_div)
  also have "\<dots> \<le> 10000" using le b by simp
  finally show ?thesis by (simp add: Q_MAX_def word_nat)
qed

lemma consider_permit_ok:
  assumes "\<forall>p \<in> set (se_permits a). permit_ok sn i exec p" and "c = candidate_of i s (jcd_job c)" "in_due i (jcd_job c)"
  shows "\<forall>p \<in> set (se_permits (consider_candidate sn budget exec c a)). permit_ok sn i exec p"
proof (cases rule: consider_cases [of sn budget exec c a])
  case (skipped f)
  then show ?thesis using assms(1) by simp
next
  case (admitted g dl)
  have "jcd_cost_us c = fst (cost_for (jcd_job c) (in_cost_estimate i (jcd_job c)) s)" "jcd_value_q c = value_q (jcd_job c) i"
    by (subst assms(2), simp add: candidate_of_def Let_def)+
  then have "permit_ok sn i exec (permit_for sn exec c g dl)"
    using assms(3) admitted cost_for_bounds value_q_bound
    by (auto simp: permit_ok_def unat_checked_add)
  then show ?thesis using assms(1) admitted by (simp add: admit_sel)
qed

subsection \<open>Plans\<close>

lemma expire_job_sel [simp]:
  "vs_phase (expire_job cur j s) = vs_phase s" "vs_current_snapshot (expire_job cur j s) = vs_current_snapshot s"
  "vm_completions_seen (vs_metrics (expire_job cur j s)) = vm_completions_seen (vs_metrics s)"
  by (auto simp: expire_job_def split: option.splits)

lemma expire_fold_sel [simp]:
  "vs_phase (fold (expire_job cur) js s) = vs_phase s"
  "vs_current_snapshot (fold (expire_job cur) js s) = vs_current_snapshot s"
  "vm_completions_seen (vs_metrics (fold (expire_job cur) js s)) = vm_completions_seen (vs_metrics s)"
  by (induction js arbitrary: s) simp_all

lemma open_cycle_sel [simp]:
  "vs_phase (open_cycle sn s) = vs_phase s" "vs_current_snapshot (open_cycle sn s) = Some (identity_of sn)"
  "vm_completions_seen (vs_metrics (open_cycle sn s)) = 0"
  by (simp_all add: open_cycle_def expire_stale_active_def)

lemma open_cycle_success [simp]:
  "js_last_success_sequence (vs_jobs (open_cycle sn s) j) = js_last_success_sequence (vs_jobs s j)"
proof -
  have "js_last_success_sequence (vs_jobs (expire_job cur k t) j) = js_last_success_sequence (vs_jobs t j)" for cur k t
    by (auto simp: expire_job_def release_job_def split: option.split)
  then have "js_last_success_sequence (vs_jobs (fold (expire_job cur) js t) j) = js_last_success_sequence (vs_jobs t j)"
    for cur js t by (induction js arbitrary: t) simp_all
  then show ?thesis by (simp add: open_cycle_def expire_stale_active_def)
qed

lemma open_cycle_inv: "vs_inv s \<Longrightarrow> vs_inv (open_cycle sn s)"
  unfolding open_cycle_def expire_stale_active_def
  by (rule vs_expiry.run_inv) (auto simp: vs_inv_def busy_def)

lemma count_invalid_sel [simp]:
  "vs_jobs (fold (count_invalid_cost i) js s) = vs_jobs s" "vs_phase (fold (count_invalid_cost i) js s) = vs_phase s"
  "vs_current_snapshot (fold (count_invalid_cost i) js s) = vs_current_snapshot s"
  "vm_completions_seen (vs_metrics (fold (count_invalid_cost i) js s)) = vm_completions_seen (vs_metrics s)"
  by (induction js arbitrary: s) (simp_all add: count_invalid_cost_def)

lemma admit_frame [simp]:
  "vs_phase (se_sched (consider_candidate sn budget exec c a)) = vs_phase (se_sched a)"
  "vs_current_snapshot (se_sched (consider_candidate sn budget exec c a)) = vs_current_snapshot (se_sched a)"
  by (cases rule: consider_cases [of sn budget exec c a]; simp add: admit_sel)+

lemma select_frame [simp]:
  "vs_phase (se_sched (select_candidates sn budget exec cs a)) = vs_phase (se_sched a)"
  "vs_current_snapshot (se_sched (select_candidates sn budget exec cs a)) = vs_current_snapshot (se_sched a)"
  by (induction cs arbitrary: a) simp_all

lemma plan_selection_sel_ok:
  assumes "vs_inv s" and "vm_completions_seen (vs_metrics s) = 0"
  shows "sel_ok (should_execute (vs_phase s)) (budget_us (in_level i)) (plan_selection sn i s)"
  unfolding plan_selection_def Let_def
proof (rule select_invariant)
  define s' where "s' = (if blocked sn i s then s else fold (count_invalid_cost i) (due_jobs i) s)"
  have "busy s' = busy s" "vm_completions_seen (vs_metrics s') = vm_completions_seen (vs_metrics s)"
    "vs_jobs s' = vs_jobs s" by (simp_all add: s'_def busy_def)
  then have "vs_inv s'" "vm_completions_seen (vs_metrics s') = 0" "busy s' = busy s"
    using assms by (simp_all add: vs_inv_def)
  then show "sel_ok (should_execute (vs_phase s)) (budget_us (in_level i))
      \<lparr> se_sched = if blocked sn i s then s else fold (count_invalid_cost i) (due_jobs i) s,
        se_predicted_us = 0, se_permits = [], se_flags = \<lambda>_. False,
        se_in_flight = max (in_in_flight i) (length (active_jobs s)) \<rparr>"
    unfolding s'_def [symmetric] by (simp add: sel_ok_def active_jobs_busy)
qed (simp_all add: plan_candidates_jobs(1) consider_sel_ok)

lemma plan_selection_permits:
  "\<forall>p \<in> set (se_permits (plan_selection sn i s)). permit_ok sn i (should_execute (vs_phase s)) p \<and> \<not> blocked sn i s"
proof -
  have "\<forall>p \<in> set (se_permits (plan_selection sn i s)). permit_ok sn i (should_execute (vs_phase s)) p"
    unfolding plan_selection_def Let_def
  proof (rule select_invariant)
    fix c and a :: selection
    assume c: "c \<in> set (plan_candidates sn i s)"
      and a: "\<forall>p \<in> set (se_permits a). permit_ok sn i (should_execute (vs_phase s)) p"
    show "\<forall>p \<in> set (se_permits (consider_candidate sn (budget_us (in_level i)) (should_execute (vs_phase s)) c a)).
        permit_ok sn i (should_execute (vs_phase s)) p"
      using consider_permit_ok [OF a] plan_candidates_jobs(2) [OF c] by blast
  qed (simp_all add: plan_candidates_jobs(1))
  moreover have "se_permits (plan_selection sn i s) = []" if "blocked sn i s"
    using that by (simp add: plan_selection_def plan_candidates_def)
  ultimately show ?thesis by auto
qed

lemma plan_selection_order:
  "subseq (map jp_job (se_permits (plan_selection sn i s))) (map jcd_job (plan_candidates sn i s))"
proof -
  let ?a = "\<lparr> se_sched = (if blocked sn i s then s else fold (count_invalid_cost i) (due_jobs i) s),
    se_predicted_us = 0, se_permits = [], se_flags = \<lambda>_. False,
    se_in_flight = max (in_in_flight i) (length (active_jobs s)) \<rparr>"
  show ?thesis
    using select_permits_subseq [of sn "budget_us (in_level i)" "should_execute (vs_phase s)" "plan_candidates sn i s" ?a]
    by (auto simp: plan_selection_def Let_def)
qed

lemma plan_selection_views:
  "subseq (map permit_view (se_permits (plan_selection sn i s))) (map candidate_view (plan_candidates sn i s))"
proof -
  let ?a = "\<lparr> se_sched = (if blocked sn i s then s else fold (count_invalid_cost i) (due_jobs i) s),
    se_predicted_us = 0, se_permits = [], se_flags = \<lambda>_. False,
    se_in_flight = max (in_in_flight i) (length (active_jobs s)) \<rparr>"
  show ?thesis
    using select_views_subseq [of sn "budget_us (in_level i)" "should_execute (vs_phase s)" "plan_candidates sn i s" ?a]
    by (auto simp: plan_selection_def Let_def)
qed

text \<open>
  One permit ranks before another: the higher score first, then the staler job, then the one that
  succeeded longest ago, then the order of the identities.
\<close>

definition outranks :: "scheduler_inputs \<Rightarrow> value_scheduler \<Rightarrow> job_permit \<Rightarrow> job_permit \<Rightarrow> bool" where
  "outranks i s p q \<longleftrightarrow>
     (let fresh = \<lambda>p. freshness_q (in_elapsed_us i (jp_job p)) (jd_target_max_interval_us (descriptor_of (jp_job p)));
          last = \<lambda>p. js_last_success_sequence (vs_jobs s (jp_job p)) in
      jp_score_q q < jp_score_q p \<or> jp_score_q q = jp_score_q p \<and>
        (fresh q < fresh p \<or> fresh q = fresh p \<and>
           (last p < last q \<or> last p = last q \<and> job_index (jp_job p) < job_index (jp_job q))))"

definition view_rank :: "scheduler_inputs \<Rightarrow> value_scheduler \<Rightarrow> job_id \<times> u64 \<times> u64 \<times> u64 \<Rightarrow> int \<times> int \<times> int \<times> nat" where
  "view_rank i s v = (- uint (snd (snd (snd v))),
     - uint (freshness_q (in_elapsed_us i (fst v)) (jd_target_max_interval_us (descriptor_of (fst v)))),
     uint (js_last_success_sequence (vs_jobs s (fst v))), job_index (fst v))"

lemma job_index_inj: "job_index j = job_index k \<longleftrightarrow> j = k"
  by (cases j; cases k) simp_all

lemma view_rank_outranks: "view_rank i s (permit_view p) < view_rank i s (permit_view q) \<longleftrightarrow> outranks i s p q"
  by (auto simp: view_rank_def permit_view_def outranks_def Let_def less_prod_def' word_less_def
      simp flip: word_uint_eq_iff)

lemma candidate_of_sel:
  "jcd_job (candidate_of i s j) = j" "jcd_value_q (candidate_of i s j) = value_q j i"
  "jcd_score_q (candidate_of i s j) = sat_mul (value_q j i) SCORE_SCALE div max (jcd_cost_us (candidate_of i s j)) 1"
  "jcd_freshness_q (candidate_of i s j) = freshness_q (in_elapsed_us i j) (jd_target_max_interval_us (descriptor_of j))"
  "jcd_oldest_success (candidate_of i s j) = js_last_success_sequence (vs_jobs s j)"
  by (simp_all add: candidate_of_def Let_def)

lemma candidate_view_rank: "view_rank i s (candidate_view (candidate_of i s j)) = candidate_rank (candidate_of i s j)"
  by (simp add: view_rank_def candidate_view_def candidate_rank_def candidate_of_sel)

lemma subseq_distinct: "subseq xs ys \<Longrightarrow> distinct ys \<Longrightarrow> distinct xs"
proof -
  assume "subseq xs ys" "distinct ys"
  then have "distinct xs \<and> set xs \<subseteq> set ys" by (induction rule: list_emb.induct) auto
  then show ?thesis ..
qed

lemma plan_selection_distinct: "distinct (map jp_job (se_permits (plan_selection sn i s)))"
  using plan_selection_order plan_candidates_jobs(1) subseq_distinct by blast

lemma subseq_members: "subseq xs ys \<Longrightarrow> set xs \<subseteq> set ys"
  by (induction rule: list_emb.induct) auto

lemma sorted_subseq: "subseq xs ys \<Longrightarrow> sorted ys \<Longrightarrow> sorted xs"
  by (induction rule: list_emb.induct) (auto dest: subseq_members)

text \<open>The permits of a selection stand in rank order, with the value and the score of their jobs.\<close>

lemma plan_selection_ranked:
  "sorted_wrt (outranks i s) (se_permits (plan_selection sn i s))"
  "p \<in> set (se_permits (plan_selection sn i s)) \<Longrightarrow> jp_value_q p = value_q (jp_job p) i
     \<and> jp_score_q p = sat_mul (jp_value_q p) SCORE_SCALE div max (jp_predicted_us p) 1"
proof -
  let ?ps = "se_permits (plan_selection sn i s)" and ?cs = "plan_candidates sn i s"
  have cand: "c = candidate_of i s (jcd_job c)" if "c \<in> set ?cs" for c using plan_candidates_jobs(2) [OF that] by simp
  have "sorted (map candidate_rank ?cs)" by (simp add: plan_candidates_def ranked_candidates_def)
  moreover have "map candidate_rank ?cs = map (view_rank i s) (map candidate_view ?cs)"
  proof -
    have "candidate_rank c = view_rank i s (candidate_view c)" if "c \<in> set ?cs" for c
      using candidate_view_rank [of i s "jcd_job c"] by (simp flip: cand [OF that])
    then show ?thesis by simp
  qed
  ultimately have "sorted (map (view_rank i s) (map candidate_view ?cs))" by simp
  moreover have "subseq (map (view_rank i s) (map permit_view ?ps)) (map (view_rank i s) (map candidate_view ?cs))"
    by (rule subseq_map) (rule plan_selection_views)
  ultimately have "sorted (map (view_rank i s) (map permit_view ?ps))" by (rule sorted_subseq [rotated])
  moreover have "distinct (map (view_rank i s) (map permit_view ?ps))"
  proof -
    have "distinct (map (job_index \<circ> jp_job) ?ps)"
      using plan_selection_distinct [of sn i s] by (auto simp: distinct_map inj_on_def job_index_inj)
    moreover have "map (job_index \<circ> jp_job) ?ps = map (\<lambda>v. snd (snd (snd v))) (map (view_rank i s) (map permit_view ?ps))"
      by (simp add: view_rank_def permit_view_def)
    ultimately show ?thesis by (metis distinct_map)
  qed
  ultimately have "sorted_wrt (<) (map (view_rank i s) (map permit_view ?ps))"
    by (simp only: strict_sorted_iff)
  then show "sorted_wrt (outranks i s) ?ps" by (simp add: sorted_wrt_map view_rank_outranks)
  show "jp_value_q p = value_q (jp_job p) i
      \<and> jp_score_q p = sat_mul (jp_value_q p) SCORE_SCALE div max (jp_predicted_us p) 1" if p: "p \<in> set ?ps"
  proof -
    have "permit_view p \<in> set (map candidate_view ?cs)"
      using p subseq_members [OF plan_selection_views [of sn i s]] by auto
    then obtain c where c: "c \<in> set ?cs" "permit_view p = candidate_view c" by auto
    have "jcd_value_q c = value_q (jcd_job c) i"
      "jcd_score_q c = sat_mul (value_q (jcd_job c) i) SCORE_SCALE div max (jcd_cost_us c) 1"
      using candidate_of_sel(2,3) [of i s "jcd_job c"] unfolding cand [OF c(1), symmetric] by simp_all
    then show ?thesis using c(2) by (simp add: permit_view_def candidate_view_def)
  qed
qed

lemma plan_selection_frame [simp]:
  "vs_phase (se_sched (plan_selection sn i s)) = vs_phase s"
  "vs_current_snapshot (se_sched (plan_selection sn i s)) = vs_current_snapshot s"
  by (simp_all add: plan_selection_def Let_def)

text \<open>An executing plan holds at most as many permits as there are slots.\<close>

lemma plan_selection_slots:
  assumes "vs_inv s" and "vm_completions_seen (vs_metrics s) = 0" and "should_execute (vs_phase s)"
  shows "length (se_permits (plan_selection sn i s)) \<le> MAX_IN_FLIGHT_OPTIONAL"
proof -
  let ?a = "plan_selection sn i s"
  have ok: "sel_ok True (budget_us (in_level i)) ?a"
    using plan_selection_sel_ok [OF assms(1,2), of i sn] assms(3) by simp
  then have "set (map jp_job (se_permits ?a)) \<subseteq> busy (se_sched ?a)"
    by (auto simp: sel_ok_def pending_match_def busy_def split: option.splits)
  then have "card (set (map jp_job (se_permits ?a))) \<le> card (busy (se_sched ?a))" by (simp add: card_mono)
  then have "length (se_permits ?a) \<le> card (busy (se_sched ?a))"
    using distinct_card [OF plan_selection_distinct] by simp
  then show ?thesis using ok by (simp add: sel_ok_def vs_inv_def)
qed

definition snapshot_fresh :: "cycle_snapshot \<Rightarrow> value_scheduler \<Rightarrow> bool" where
  "snapshot_fresh sn s \<longleftrightarrow> (case vs_current_snapshot s of None \<Rightarrow> True
     | Some cur \<Rightarrow> sn_daemon_epoch (cs_snapshot_id sn) = sn_daemon_epoch (si_snapshot_id cur)
        \<and> sn_sequence (si_snapshot_id cur) < sn_sequence (cs_snapshot_id sn))"

lemma vs_plan_fresh: "snapshot_fresh sn s \<Longrightarrow> vs_plan sn i lat s = accepted_plan sn i lat s"
  by (auto simp: vs_plan_def snapshot_fresh_def split: option.splits)

lemma vs_plan_not_fresh:
  assumes "\<not> snapshot_fresh sn s"
  shows "pl_permits (fst (vs_plan sn i lat s)) = []" "pl_should_execute (fst (vs_plan sn i lat s)) = False"
    "vs_jobs (snd (vs_plan sn i lat s)) = vs_jobs s"
    "vs_current_snapshot (snd (vs_plan sn i lat s)) = vs_current_snapshot s"
    "vm_completions_seen (vs_metrics (snd (vs_plan sn i lat s))) = vm_completions_seen (vs_metrics s)"
    "pl_predicted_us (fst (vs_plan sn i lat s)) = 0"
  using assms by (auto simp: vs_plan_def snapshot_fresh_def rejected_plan_def Let_def split: option.splits)

lemma record_plan_sel [simp]:
  "vs_jobs (record_plan n budget lat a) = vs_jobs (se_sched a)" "vs_phase (record_plan n budget lat a) = vs_phase (se_sched a)"
  "vs_current_snapshot (record_plan n budget lat a) = vs_current_snapshot (se_sched a)"
  "busy (record_plan n budget lat a) = busy (se_sched a)"
  "vm_completions_seen (vs_metrics (record_plan n budget lat a)) = vm_completions_seen (vs_metrics (se_sched a))"
  by (simp_all add: record_plan_def)

lemma accepted_plan_sel:
  "pl_permits (fst (accepted_plan sn i lat s)) = se_permits (plan_selection sn i (open_cycle sn s))"
  "pl_predicted_us (fst (accepted_plan sn i lat s)) = se_predicted_us (plan_selection sn i (open_cycle sn s))"
  "pl_should_execute (fst (accepted_plan sn i lat s)) = (vs_phase s = VsActive \<and> \<not> blocked sn i s)"
  "vs_jobs (snd (accepted_plan sn i lat s)) = vs_jobs (se_sched (plan_selection sn i (open_cycle sn s)))"
  "vs_current_snapshot (snd (accepted_plan sn i lat s)) = Some (identity_of sn)"
  by (simp_all add: accepted_plan_def Let_def should_execute_def blocked_def)

lemma vs_plan_inv:
  assumes "vs_inv s"
  shows "vs_inv (snd (vs_plan sn i lat s))"
proof (cases "snapshot_fresh sn s")
  case True
  have "vs_inv (se_sched (plan_selection sn i (open_cycle sn s)))"
    using plan_selection_sel_ok [OF open_cycle_inv [OF assms]] by (simp add: sel_ok_def)
  then show ?thesis using vs_plan_fresh [OF True] by (simp add: accepted_plan_def Let_def vs_inv_def)
next
  case False
  show ?thesis
    by (rule vs_inv_frame [OF assms]) (simp_all add: vs_plan_not_fresh [OF False] busy_def)
qed

subsection \<open>Completions\<close>

lemma update_cost_sel [simp]:
  "vs_phase (update_cost j e s) = vs_phase s" "vs_current_snapshot (update_cost j e s) = vs_current_snapshot s"
  "vs_metrics (update_cost j e s) = vs_metrics s" "busy (update_cost j e s) = busy s"
  "js_active (vs_jobs (update_cost j e s) k) = js_active (vs_jobs s k)"
  "js_generation (vs_jobs (update_cost j e s) k) = js_generation (vs_jobs s k)"
  "js_last_success_sequence (vs_jobs (update_cost j e s) k) = js_last_success_sequence (vs_jobs s k)"
  by (auto simp: update_cost_def Let_def busy_def)

lemma note_success_sel [simp]:
  "vs_phase (note_success j n ok s) = vs_phase s" "vs_current_snapshot (note_success j n ok s) = vs_current_snapshot s"
  "vs_metrics (note_success j n ok s) = vs_metrics s" "busy (note_success j n ok s) = busy s"
  "js_active (vs_jobs (note_success j n ok s) k) = js_active (vs_jobs s k)"
  "js_generation (vs_jobs (note_success j n ok s) k) = js_generation (vs_jobs s k)"
  "js_last_success_sequence (vs_jobs (note_success j n ok s) k)
     = (if ok \<and> k = j then n else js_last_success_sequence (vs_jobs s k))"
  by (auto simp: note_success_def busy_def)

lemma accept_completion_sel [simp]:
  "vs_phase (accept_completion c s) = vs_phase s" "vs_current_snapshot (accept_completion c s) = vs_current_snapshot s"
  "busy (accept_completion c s) = busy s - {jc_job c}"
  "vm_completions_seen (vs_metrics (accept_completion c s)) = sat_add (vm_completions_seen (vs_metrics s)) 1"
  "js_active (vs_jobs (accept_completion c s) k) = (if k = jc_job c then None else js_active (vs_jobs s k))"
  "js_generation (vs_jobs (accept_completion c s) k) = js_generation (vs_jobs s k)"
  "js_last_success_sequence (vs_jobs (accept_completion c s) (jc_job c))
     = (if jc_status c = JcSucceeded then sn_sequence (jc_snapshot_id c)
        else js_last_success_sequence (vs_jobs s (jc_job c)))"
  by (simp_all add: accept_completion_def Let_def)

lemma accept_completion_job_ok: "vs_inv s \<Longrightarrow> job_ok (vs_jobs (accept_completion c s) k)"
  by (auto simp: accept_completion_def Let_def vs_inv_job intro!: note_success_job_ok update_cost_job_ok)

definition accepts :: "job_completion \<Rightarrow> value_scheduler \<Rightarrow> bool" where
  "accepts c s \<longleftrightarrow> revision_is_current c s \<and> (\<exists>a. js_active (vs_jobs s (jc_job c)) = Some a \<and> permit_matches c a
     \<and> pi_submitted_mono_us a \<le> jc_completed_mono_us c \<and> jc_completed_mono_us c \<le> pi_deadline_mono_us a)"

text \<open>The slots reserved for running permits keep a completion from being dropped for capacity.\<close>

lemma complete_job_accepts:
  assumes "vs_inv s" and "accepts c s"
  shows "complete_job c s = (CdpAccepted, accept_completion c s)"
proof -
  have "jc_job c \<in> busy s" using assms(2) by (auto simp: accepts_def busy_def)
  then have "0 < card (busy s)" by (auto simp: card_gt_0_iff)
  then have "unat (vm_completions_seen (vs_metrics s)) < MAX_COMPLETIONS_PER_CYCLE"
    using assms(1) by (simp add: vs_inv_def)
  then show ?thesis using assms(2) by (auto simp: complete_job_def accepts_def Let_def)
qed

lemma complete_job_refuses:
  assumes "\<not> accepts c s"
  obtains (late) f where "complete_job c s = (CdpStale, on_vm f (refresh_in_flight (release_job (jc_job c) s)))"
      and "\<And>m. vm_completions_seen (f m) = vm_completions_seen m"
  | (dropped) "complete_job c s = (CdpCapacity, on_vm count_dropped s)"
  | (stale) "complete_job c s = (CdpStale, on_vm (\<lambda>m. count_stale (m\<lparr> vm_completions_seen := sat_add (vm_completions_seen m) 1 \<rparr>)) s)"
      and "unat (vm_completions_seen (vs_metrics s)) < MAX_NON_TERMINAL_COMPLETIONS_PER_CYCLE"
proof -
  have no: "\<not> (case js_active (vs_jobs s (jc_job c)) of None \<Rightarrow> False | Some a \<Rightarrow> revision_is_current c s
      \<and> (case js_active (vs_jobs s (jc_job c)) of None \<Rightarrow> False | Some a \<Rightarrow> permit_matches c a)
      \<and> jc_completed_mono_us c \<ge> pi_submitted_mono_us a \<and> jc_completed_mono_us c \<le> pi_deadline_mono_us a)"
    using assms by (auto simp: accepts_def split: option.splits)
  consider "case js_active (vs_jobs s (jc_job c)) of None \<Rightarrow> False | Some a \<Rightarrow> permit_matches c a"
    | "\<not> (case js_active (vs_jobs s (jc_job c)) of None \<Rightarrow> False | Some a \<Rightarrow> permit_matches c a)"
      "unat (vm_completions_seen (vs_metrics s)) \<ge> MAX_NON_TERMINAL_COMPLETIONS_PER_CYCLE"
    | "\<not> (case js_active (vs_jobs s (jc_job c)) of None \<Rightarrow> False | Some a \<Rightarrow> permit_matches c a)"
      "unat (vm_completions_seen (vs_metrics s)) < MAX_NON_TERMINAL_COMPLETIONS_PER_CYCLE"
    by linarith
  then show thesis
  proof cases
    case 1
    then show ?thesis using no late [of "count_stale \<circ> count_expired"] by (simp add: complete_job_def Let_def)
  next
    case 2
    then show ?thesis using no dropped by (simp add: complete_job_def Let_def)
  next
    case 3
    then show ?thesis using no stale by (simp add: complete_job_def Let_def)
  qed
qed

lemma complete_job_inv:
  assumes "vs_inv s"
  shows "vs_inv (snd (complete_job c s))"
proof (cases "accepts c s")
  case True
  then have "jc_job c \<in> busy s" by (auto simp: accepts_def busy_def)
  then have card: "card (busy s) = Suc (card (busy s - {jc_job c}))" by (intro card.remove) simp_all
  have "vs_inv (accept_completion c s)"
    using assms card unfolding vs_inv_def [of s]
    by (intro vs_invI accept_completion_job_ok [OF assms]) (simp_all add: unat_sat_inc min_def)
  then show ?thesis using complete_job_accepts [OF assms True] by simp
next
  case False
  from this show ?thesis
  proof (cases rule: complete_job_refuses)
    case (late f)
    then show ?thesis using assms by (simp add: vs_inv_on_vm refresh_inv release_inv)
  next
    case dropped
    then show ?thesis using assms by (simp add: vs_inv_on_vm)
  next
    case stale
    then have "busy (snd (complete_job c s)) = busy s" "vs_jobs (snd (complete_job c s)) = vs_jobs s"
      "vm_completions_seen (vs_metrics (snd (complete_job c s))) = sat_add (vm_completions_seen (vs_metrics s)) 1"
      by simp_all
    then show ?thesis using assms stale(2)
      by (simp add: vs_inv_def unat_sat_inc MAX_COMPLETIONS_PER_CYCLE_def MAX_IN_FLIGHT_OPTIONAL_def
        MAX_NON_TERMINAL_COMPLETIONS_PER_CYCLE_def)
  qed
qed

subsection \<open>Runs\<close>

datatype vs_event =
    VePlan cycle_snapshot scheduler_inputs u64 | VeMark job_permit | VeClaim "job_permit list" u64
  | VeDiscard "job_permit list" | VeComplete job_completion | VeLegacy job_id snapshot_id u32 bool
  | VePhase scheduler_phase

fun vs_step :: "vs_event \<Rightarrow> value_scheduler \<Rightarrow> value_scheduler" where
  "vs_step (VePlan sn i lat) s = snd (vs_plan sn i lat s)"
| "vs_step (VeMark p) s = snd (mark_running p s)"
| "vs_step (VeClaim b now) s = snd (claim_handoff b now s)"
| "vs_step (VeDiscard b) s = snd (discard_handoff b s)"
| "vs_step (VeComplete c) s = snd (complete_job c s)"
| "vs_step (VeLegacy j sn e ok) s = observe_legacy_run j sn e ok s"
| "vs_step (VePhase p) s = vs_set_phase p s"

interpretation vs: invariant_machine vs_step vs_inv
proof
  show "vs_inv (vs_step e s)" if "vs_inv s" for e s
    using that by (cases e) (simp_all add: vs_plan_inv mark_running_inv claim_handoff_inv discard_handoff_inv
      complete_job_inv observe_legacy_run_def note_success_inv update_cost_inv set_phase_inv)
qed

lemma vs_new_inv: "vs_inv (vs_new p)"
  by (simp add: vs_new_def vs_inv_def busy_def job_state_default_def job_ok_def vs_metrics_default_def vs_limits)

subsection \<open>Generations\<close>

text \<open>Every call keeps the permit of a job, drops it, or gives the job one with a higher generation.\<close>

definition job_evolves :: "job_state \<Rightarrow> job_state \<Rightarrow> bool" where
  "job_evolves st st' \<longleftrightarrow> js_generation st \<le> js_generation st'
     \<and> (\<forall>a'. js_active st' = Some a' \<longrightarrow>
           (\<exists>a. js_active st = Some a \<and> pi_generation a = pi_generation a') \<or> js_generation st < pi_generation a')"

definition evolves :: "value_scheduler \<Rightarrow> value_scheduler \<Rightarrow> bool" where
  "evolves s t \<longleftrightarrow> (\<forall>j. job_evolves (vs_jobs s j) (vs_jobs t j))"

lemma job_evolves_trans:
  assumes "job_evolves st su" and "job_evolves su sv"
  shows "job_evolves st sv"
proof -
  have "(\<exists>a. js_active st = Some a \<and> pi_generation a = pi_generation a') \<or> js_generation st < pi_generation a'"
    if "js_active sv = Some a'" for a'
  proof (cases "js_generation su < pi_generation a'")
    case True
    then show ?thesis using assms(1) by (auto simp: job_evolves_def)
  next
    case False
    then obtain b where "js_active su = Some b" "pi_generation b = pi_generation a'"
      using assms(2) \<open>js_active sv = Some a'\<close> by (auto simp: job_evolves_def)
    then show ?thesis using assms(1) by (auto simp: job_evolves_def)
  qed
  then show ?thesis using assms by (auto simp: job_evolves_def)
qed

lemma evolves_refl [simp]: "evolves s s"
  by (simp add: evolves_def job_evolves_def)

lemma evolves_trans: "evolves s t \<Longrightarrow> evolves t u \<Longrightarrow> evolves s u"
  unfolding evolves_def by (meson job_evolves_trans)

lemma evolves_kept:
  assumes "\<And>j. js_generation (vs_jobs t j) = js_generation (vs_jobs s j)"
    and "\<And>j. js_active (vs_jobs t j) = js_active (vs_jobs s j) \<or> js_active (vs_jobs t j) = None"
  shows "evolves s t"
  unfolding evolves_def job_evolves_def using assms by (metis option.distinct(1) order.refl)

lemma evolves_fold: "(\<And>x s. evolves s (f x s)) \<Longrightarrow> evolves s (fold f xs s)"
  by (induction xs arbitrary: s) (auto intro: evolves_trans)

lemma evolves_fold_snd: "(\<And>x a. evolves (snd a) (snd (f x a))) \<Longrightarrow> evolves (snd a) (snd (fold f xs a))"
proof (induction xs arbitrary: a)
  case (Cons x xs)
  show ?case using evolves_trans [OF Cons.prems [of a x] Cons.IH [OF Cons.prems]] by simp
qed simp

lemma evolves_on_vm [simp]: "evolves s (on_vm f t) = evolves s t"
  by (simp add: evolves_def)

lemma evolves_release [simp]: "evolves s (release_job j s)"
  by (rule evolves_kept) simp_all

lemma evolves_refresh [simp]: "evolves s (refresh_in_flight t) = evolves s t"
  by (simp add: evolves_def)

lemma evolves_pending: "evolves s (snd (release_pending r p s))"
  by (auto simp: release_pending_def)

lemma evolves_mark: "evolves s (snd (mark_running p s))"
  by (auto simp: mark_running_def pending_match_def evolves_def job_evolves_def)

lemma evolves_activate:
  "checked_add (js_generation (vs_jobs s j)) 1 = Some g \<Longrightarrow> evolves s (on_job j (activate sn g dl) s)"
  by (auto simp: evolves_def job_evolves_def activate_def word_nat dest!: unat_checked_add)

lemma evolves_consider: "evolves (se_sched a) (se_sched (consider_candidate sn budget exec c a))"
proof (cases rule: consider_cases [of sn budget exec c a])
  case (admitted g dl)
  then show ?thesis by (simp add: admit_sel evolves_activate)
qed simp

lemma evolves_select: "evolves (se_sched a) (se_sched (select_candidates sn budget exec cs a))"
  by (induction cs arbitrary: a) (auto intro: evolves_trans evolves_consider)

lemma evolves_expire: "evolves s (expire_job cur j s)"
  by (auto simp: expire_job_def split: option.splits)

lemma evolves_plan: "evolves s (snd (vs_plan sn i lat s))"
proof (cases "snapshot_fresh sn s")
  case True
  have "evolves s (s\<lparr> vs_current_snapshot := Some (identity_of sn) \<rparr>)" by (rule evolves_kept) simp_all
  then have "evolves s (open_cycle sn s)"
    unfolding open_cycle_def expire_stale_active_def
    by (intro evolves_trans [OF _ evolves_fold] evolves_expire) simp
  moreover have "evolves (open_cycle sn s) (se_sched (plan_selection sn i (open_cycle sn s)))"
    unfolding plan_selection_def Let_def
    by (rule evolves_trans [OF _ evolves_select]) (rule evolves_kept; simp)
  ultimately show ?thesis
    using vs_plan_fresh [OF True] by (auto simp: accepted_plan_def Let_def record_plan_def intro: evolves_trans)
next
  case False
  show ?thesis by (rule evolves_kept) (simp_all add: vs_plan_not_fresh [OF False])
qed

lemma evolves_claim: "evolves s (snd (claim_handoff b now s))"
proof -
  have step: "evolves (snd a) (snd (claim_step now p a))" for p a
    using evolves_pending [of "snd a" PrClaimExpired p] evolves_mark [of "snd a" p]
    by (auto simp: claim_step_def split: prod.splits)
  have "evolves (snd ([] :: job_permit list, s)) (snd (fold (claim_step now) b ([], s)))" by (rule evolves_fold_snd, rule step)
  then show ?thesis
    by (auto simp: claim_handoff_def split: prod.splits)
qed

lemma evolves_discard: "evolves s (snd (discard_handoff b s))"
proof -
  have step: "evolves (snd a) (snd (discard_step p a))" for p a
    using evolves_pending [of "snd a" PrDiscarded p] by (auto simp: discard_step_def split: prod.splits)
  have "evolves (snd (0 :: nat, s)) (snd (fold discard_step b (0, s)))" by (rule evolves_fold_snd, rule step)
  then show ?thesis
    by (auto simp: discard_handoff_def split: prod.splits)
qed

lemma evolves_complete:
  assumes "vs_inv s"
  shows "evolves s (snd (complete_job c s))"
proof (cases "accepts c s")
  case True
  show ?thesis using complete_job_accepts [OF assms True] by (intro evolves_kept) auto
next
  case False
  from this show ?thesis
    by (cases rule: complete_job_refuses) simp_all
qed

lemma evolves_step:
  assumes "vs_inv s"
  shows "evolves s (vs_step e s)"
proof (cases e)
  case (VeLegacy j sn el ok)
  then show ?thesis by (auto simp: observe_legacy_run_def intro!: evolves_kept)
next
  case (VePhase p)
  then show ?thesis by (auto simp: vs_set_phase_def intro!: evolves_kept)
qed (use assms in \<open>simp_all add: evolves_plan evolves_mark evolves_claim evolves_discard evolves_complete\<close>)

lemma evolves_run: "vs_inv s \<Longrightarrow> evolves s (fold vs_step es s)"
proof (induction es arbitrary: s)
  case (Cons e es)
  then show ?case using evolves_trans [OF evolves_step [OF Cons.prems] Cons.IH] vs.step_inv by simp
qed simp

text \<open>A generation that is over for a job: no permit of it runs, and none will.\<close>

definition spent :: "job_id \<Rightarrow> u64 \<Rightarrow> value_scheduler \<Rightarrow> bool" where
  "spent j g s \<longleftrightarrow> g \<le> js_generation (vs_jobs s j) \<and> (\<forall>a. js_active (vs_jobs s j) = Some a \<longrightarrow> g < pi_generation a)"

lemma spent_evolves:
  assumes "spent j g s" and "evolves s t"
  shows "spent j g t"
proof -
  have s: "g \<le> js_generation (vs_jobs s j)" "\<And>a. js_active (vs_jobs s j) = Some a \<Longrightarrow> g < pi_generation a"
    using assms(1) by (auto simp: spent_def)
  have st: "js_generation (vs_jobs s j) \<le> js_generation (vs_jobs t j)"
    "\<And>a'. js_active (vs_jobs t j) = Some a' \<Longrightarrow>
      (\<exists>a. js_active (vs_jobs s j) = Some a \<and> pi_generation a = pi_generation a') \<or> js_generation (vs_jobs s j) < pi_generation a'"
    using assms(2) by (auto simp: evolves_def job_evolves_def)
  have "g < pi_generation a'" if "js_active (vs_jobs t j) = Some a'" for a'
    using st(2) [OF that] s by (metis order.strict_trans1)
  moreover have "g \<le> js_generation (vs_jobs t j)" using s(1) st(1) by (rule order.trans)
  ultimately show ?thesis by (simp add: spent_def)
qed

lemma spent_refuses: "spent (jc_job c) (jc_generation c) s \<Longrightarrow> \<not> accepts c s"
  by (auto simp: spent_def accepts_def permit_matches_def)

lemma complete_job_accepted_iff: "vs_inv s \<Longrightarrow> fst (complete_job c s) = CdpAccepted \<longleftrightarrow> accepts c s"
  using complete_job_accepts [of s c] by (cases "accepts c s") (auto elim!: complete_job_refuses)

lemma accepted_spent:
  assumes "vs_inv s" and "accepts c s"
  shows "spent (jc_job c) (jc_generation c) (accept_completion c s)"
proof -
  obtain a where a: "js_active (vs_jobs s (jc_job c)) = Some a" "pi_generation a = jc_generation c"
    using assms(2) by (auto simp: accepts_def permit_matches_def)
  then have "js_generation (vs_jobs s (jc_job c)) = jc_generation c"
    using vs_inv_job [OF assms(1), of "jc_job c"] by (simp add: job_ok_def)
  then show ?thesis by (simp add: spent_def)
qed

subsection \<open>Claiming a plan\<close>

definition running :: "job_permit \<Rightarrow> value_scheduler \<Rightarrow> bool" where
  "running p s \<longleftrightarrow> js_active (vs_jobs s (jp_job p)) = Some \<lparr> pi_identity = permit_identity_of p,
     pi_generation = jp_generation p, pi_submitted_mono_us = jp_submitted_mono_us p,
     pi_deadline_mono_us = jp_deadline_mono_us p, pi_lifecycle = PlRunning \<rparr>"

lemma mark_running_pending:
  assumes "pending_match p s"
  shows "fst (mark_running p s)" and "running p (snd (mark_running p s))"
    and "jp_job q \<noteq> jp_job p \<Longrightarrow> pending_match q (snd (mark_running p s)) = pending_match q s"
    and "jp_job q \<noteq> jp_job p \<Longrightarrow> running q (snd (mark_running p s)) = running q s"
    and "vs_current_snapshot (snd (mark_running p s)) = vs_current_snapshot s"
  using assms by (auto simp: mark_running_def pending_match_def running_def split: option.splits)

lemma claim_all:
  assumes "distinct (map jp_job ps)" and "\<forall>p \<in> set ps. pending_match p s \<and> now \<le> jp_deadline_mono_us p"
  shows "\<exists>t. fold (claim_step now) ps (cl, s) = (cl @ ps, t) \<and> (\<forall>p \<in> set ps. running p t)
    \<and> (\<forall>q. jp_job q \<notin> set (map jp_job ps) \<longrightarrow> running q t = running q s)
    \<and> vs_current_snapshot t = vs_current_snapshot s"
  using assms
proof (induction ps arbitrary: cl s)
  case (Cons p ps)
  define s' where "s' = snd (mark_running p s)"
  have p: "pending_match p s" "now \<le> jp_deadline_mono_us p" using Cons.prems(2) by auto
  note m = mark_running_pending [OF p(1)]
  have step: "claim_step now p (cl, s) = (cl @ [p], s')"
    using m(1) p(2) by (cases "mark_running p s") (simp add: claim_step_def s'_def)
  have rest: "\<forall>q \<in> set ps. pending_match q s' \<and> now \<le> jp_deadline_mono_us q"
  proof
    fix q assume q: "q \<in> set ps"
    then have "jp_job q \<noteq> jp_job p" using Cons.prems(1) by (auto simp: image_iff)
    then show "pending_match q s' \<and> now \<le> jp_deadline_mono_us q"
      using m(3) Cons.prems(2) q by (simp add: s'_def)
  qed
  have "distinct (map jp_job ps)" "jp_job p \<notin> set (map jp_job ps)" using Cons.prems(1) by simp_all
  from Cons.IH [OF this(1) rest, of "cl @ [p]"] obtain t where
    t: "fold (claim_step now) ps (cl @ [p], s') = (cl @ p # ps, t)" "\<forall>p \<in> set ps. running p t"
      "\<forall>q. jp_job q \<notin> set (map jp_job ps) \<longrightarrow> running q t = running q s'"
      "vs_current_snapshot t = vs_current_snapshot s'" by auto
  have "running p t" using t(3) \<open>jp_job p \<notin> _\<close> m(2) by (simp add: s'_def)
  moreover have "running q t = running q s" if "jp_job q \<notin> set (map jp_job (p # ps))" for q
    using t(3) that m(4) by (simp add: s'_def)
  ultimately show ?case using t step m(5) by (auto simp: s'_def)
qed simp

lemma claim_handoff_all:
  assumes "handoff_from_permits ps = Some ps" and "\<forall>p \<in> set ps. pending_match p s \<and> now \<le> jp_deadline_mono_us p"
  shows "fst (claim_handoff ps now s) = Some ps" and "\<forall>p \<in> set ps. running p (snd (claim_handoff ps now s))"
    and "vs_current_snapshot (snd (claim_handoff ps now s)) = vs_current_snapshot s"
proof -
  have "distinct (map jp_job ps)" using assms(1) by (auto simp: handoff_from_permits_def split: if_splits)
  from claim_all [OF this assms(2), of "[]"] obtain t where
    t: "fold (claim_step now) ps ([], s) = (ps, t)" "\<forall>p \<in> set ps. running p t"
      "vs_current_snapshot t = vs_current_snapshot s" by auto
  then show "fst (claim_handoff ps now s) = Some ps" "\<forall>p \<in> set ps. running p (snd (claim_handoff ps now s))"
    "vs_current_snapshot (snd (claim_handoff ps now s)) = vs_current_snapshot s"
    using assms(1) by (simp_all add: claim_handoff_def running_def)
qed

lemma running_accepts:
  assumes "running p s" and "vs_current_snapshot s = Some (permit_identity_of p)"
    and "jp_submitted_mono_us p \<le> finished" and "finished \<le> jp_deadline_mono_us p"
  shows "accepts (completion_from_permit p finished el st) s"
  using assms by (simp add: accepts_def revision_is_current_def running_def completion_from_permit_def
    permit_matches_def permit_identity_of_def sat_sub_def)

text \<open>What a plan in the executing phase leaves behind.\<close>

lemma executing_plan:
  assumes "vs_inv s" and "pl_should_execute (fst (vs_plan sn i lat s))"
  shows "length (pl_permits (fst (vs_plan sn i lat s))) \<le> MAX_IN_FLIGHT_OPTIONAL"
    and "distinct (map jp_job (pl_permits (fst (vs_plan sn i lat s))))"
    and "\<forall>p \<in> set (pl_permits (fst (vs_plan sn i lat s))). permit_ok sn i True p
      \<and> pending_match p (snd (vs_plan sn i lat s))"
    and "vs_current_snapshot (snd (vs_plan sn i lat s)) = Some (identity_of sn)"
proof -
  let ?s = "open_cycle sn s"
  have fresh: "snapshot_fresh sn s" using assms(2) vs_plan_not_fresh(2) by blast
  have plan: "vs_plan sn i lat s = accepted_plan sn i lat s" by (rule vs_plan_fresh [OF fresh])
  have exec: "should_execute (vs_phase ?s)" using assms(2) by (simp add: plan accepted_plan_sel should_execute_def)
  have ok: "vs_inv ?s" "vm_completions_seen (vs_metrics ?s) = 0" using assms(1) by (simp_all add: open_cycle_inv)
  have "sel_ok True (budget_us (in_level i)) (plan_selection sn i ?s)"
    using plan_selection_sel_ok [OF ok, of i sn] exec by simp
  then have "\<forall>p \<in> set (pl_permits (fst (vs_plan sn i lat s))). pending_match p (snd (vs_plan sn i lat s))"
    by (simp add: plan accepted_plan_sel sel_ok_def pending_match_def)
  then show "\<forall>p \<in> set (pl_permits (fst (vs_plan sn i lat s))). permit_ok sn i True p
      \<and> pending_match p (snd (vs_plan sn i lat s))"
    using plan_selection_permits [of sn i ?s] exec by (simp add: plan accepted_plan_sel)
  show "length (pl_permits (fst (vs_plan sn i lat s))) \<le> MAX_IN_FLIGHT_OPTIONAL"
    using plan_selection_slots [OF ok exec] by (simp add: plan accepted_plan_sel)
  show "distinct (map jp_job (pl_permits (fst (vs_plan sn i lat s))))"
    by (simp add: plan accepted_plan_sel plan_selection_distinct)
  show "vs_current_snapshot (snd (vs_plan sn i lat s)) = Some (identity_of sn)"
    by (simp add: plan accepted_plan_sel)
qed

lemma handoff_of_plan:
  assumes "vs_inv s"
  shows "handoff_from_plan (fst (vs_plan sn i lat s)) =
    (if pl_should_execute (fst (vs_plan sn i lat s)) \<and> pl_permits (fst (vs_plan sn i lat s)) \<noteq> []
     then Some (pl_permits (fst (vs_plan sn i lat s))) else None)"
proof (cases "pl_should_execute (fst (vs_plan sn i lat s))")
  case True
  let ?ps = "pl_permits (fst (vs_plan sn i lat s))"
  note ex = executing_plan [OF assms True]
  have "permit_identity_of p = identity_of sn \<and> jp_should_execute p" if "p \<in> set ?ps" for p
    using ex(3) that by (simp add: permit_ok_def)
  then have "\<not> list_ex (\<lambda>p. \<not> jp_should_execute p \<or> permit_identity_of p \<noteq> permit_identity_of (hd ?ps)) ?ps"
    by (auto simp: list_ex_iff) (metis hd_in_set list.set_intros(1) equals0D empty_set)
  then show ?thesis using ex(1,2) True by (simp add: handoff_from_plan_def handoff_from_permits_def)
next
  case False
  then show ?thesis by (simp add: handoff_from_plan_def)
qed

end
