(* ===== verification/Scheduler_Guarantees.thy ===== *)
theory Scheduler_Guarantees
  imports Value_Scheduler_Properties
begin

text \<open>
  The guarantees of the value scheduler and of the snapshots it plans for, over every sequence of calls
  from a new scheduler, and an evaluated cycle in which two jobs are planned, claimed and completed.
\<close>

lemma vs_run_inv: "vs_inv (fold vs_step es (vs_new p))"
  by (rule vs.run_inv [OF vs_new_inv])

definition demo_snapshot :: cycle_snapshot where
  "demo_snapshot = with_cut_times 900 1000 (snapshot_new \<lparr> sn_daemon_epoch = 7, sn_sequence = 1 \<rparr> 3 1 1)"

definition demo_inputs :: scheduler_inputs where
  "demo_inputs = set_signal_q TelemetryFlush 5000 (with_due_jobs LevelNominal [TelemetryFlush, HoltWintersRefresh])"

definition demo_permit :: "job_id \<Rightarrow> u64 \<Rightarrow> u64 \<Rightarrow> u64 \<Rightarrow> job_permit" where
  "demo_permit j cost v sc = \<lparr> jp_job = j, jp_snapshot_id = \<lparr> sn_daemon_epoch = 7, sn_sequence = 1 \<rparr>, jp_workload_id = 3,
     jp_capability_revision = 1, jp_thermal_power_revision = 1, jp_process_identity_revision = 0, jp_generation = 1,
     jp_submitted_mono_us = 1000, jp_deadline_mono_us = 1000 + cost, jp_predicted_us = cost, jp_value_q = v,
     jp_score_q = sc, jp_dependencies = [], jp_should_execute = True \<rparr>"

definition demo_permits :: "job_permit list" where
  "demo_permits = [demo_permit TelemetryFlush 750 6600 8800000, demo_permit HoltWintersRefresh 1000 6120 6120000]"

definition demo_completion :: job_completion where
  "demo_completion = completion_from_permit (demo_permit TelemetryFlush 750 6600 8800000) 1600 600 JcSucceeded"

definition demo_events :: "vs_event list" where
  "demo_events = [VePlan demo_snapshot demo_inputs 40, VeClaim demo_permits 1100]"

lemma demo_plan:
  "pl_permits (fst (vs_plan demo_snapshot demo_inputs 40 (vs_new VsActive))) = demo_permits"
  "pl_should_execute (fst (vs_plan demo_snapshot demo_inputs 40 (vs_new VsActive)))"
  by code_simp+

text \<open>C22: A plan never overspends. Whatever calls came before, the costs of the permits of a plan add
  up to the predicted time, which is within the budget of the level; no job is selected twice; every permit is for a due job, of the
  snapshot planned for, with a cost, a value and a deadline in range, and is executable exactly in the
  executing phase; its score is its value per cost; and every permit stands before those of a lower
  score, at the same score before those of fresher jobs, then before those that succeeded later.\<close>

theorem plan_within_budget:
  "let s = fold vs_step es (vs_new p0); pl = fst (vs_plan sn i lat s)
   in (\<Sum>p\<leftarrow>pl_permits pl. unat (jp_predicted_us p)) = unat (pl_predicted_us pl)
    \<and> pl_predicted_us pl \<le> budget_us (in_level i)
    \<and> distinct (map jp_job (pl_permits pl))
    \<and> list_all (permit_ok sn i (should_execute (vs_phase s))) (pl_permits pl)
    \<and> list_all (\<lambda>p. jp_value_q p = value_q (jp_job p) i
        \<and> jp_score_q p = sat_mul (jp_value_q p) SCORE_SCALE div max (jp_predicted_us p) 1) (pl_permits pl)
    \<and> sorted_wrt (outranks i s) (pl_permits pl)"
proof -
  define s where "s = fold vs_step es (vs_new p0)"
  have inv: "vs_inv (open_cycle sn s)" unfolding s_def by (rule open_cycle_inv [OF vs_run_inv])
  have ok: "sel_ok (should_execute (vs_phase s)) (budget_us (in_level i)) (plan_selection sn i (open_cycle sn s))"
    using plan_selection_sel_ok [OF inv, of i sn] by simp
  show ?thesis
  proof (cases "snapshot_fresh sn s")
    case True
    then show ?thesis
      using ok plan_selection_permits [of sn i "open_cycle sn s"] plan_selection_distinct
        plan_selection_ranked [where i = i and s = "open_cycle sn s" and sn = sn]
      unfolding Let_def s_def [symmetric] list_all_iff
      by (simp add: vs_plan_fresh accepted_plan_sel sel_ok_def outranks_def [abs_def])
  next
    case False
    then show ?thesis unfolding Let_def s_def [symmetric] by (simp add: vs_plan_not_fresh)
  qed
qed

text \<open>A plan is handed off whole or not at all: the daemon receives exactly the permits of
  the plan when the scheduler executes and selected something, and nothing otherwise. In particular an
  executing plan never exceeds the slots of a batch, repeats a job or mixes identities.\<close>

theorem plan_handoff_exact:
  "let pl = fst (vs_plan sn i lat (fold vs_step es (vs_new p0)))
   in handoff_from_plan pl
      = (if pl_should_execute pl \<and> pl_permits pl \<noteq> [] then Some (pl_permits pl) else None)"
  unfolding Let_def by (rule handoff_of_plan [OF vs_run_inv])

text \<open>The work that a daemon has done: a permit, when it ended, how long it took and with what status.\<close>

type_synonym finished_work = "job_permit \<times> u64 \<times> u32 \<times> job_completion_status"

definition completion_of :: "finished_work \<Rightarrow> job_completion" where
  "completion_of x = (case x of (p, finished, elapsed, st) \<Rightarrow> completion_from_permit p finished elapsed st)"

definition complete_all :: "finished_work list \<Rightarrow> value_scheduler \<Rightarrow> value_scheduler" where
  "complete_all xs s = fold (\<lambda>x s. snd (complete_job (completion_of x) s)) xs s"

lemma complete_all_simps [simp]:
  "complete_all [] s = s"
  "complete_all (x # xs) s = complete_all xs (snd (complete_job (completion_of x) s))"
  by (simp_all add: complete_all_def)

text \<open>Completions of running permits of one snapshot, for distinct jobs, are accepted in any order.\<close>

lemma completions_accepted:
  assumes "vs_inv u" and "vs_current_snapshot u = Some idn" and "distinct (map (jp_job \<circ> fst) xs)"
    and "\<forall>(p, finished, el, st) \<in> set xs. running p u \<and> permit_identity_of p = idn
      \<and> jp_submitted_mono_us p \<le> finished \<and> finished \<le> jp_deadline_mono_us p"
  shows "(\<forall>n < length xs. fst (complete_job (completion_of (xs ! n)) (complete_all (take n xs) u)) = CdpAccepted)
    \<and> (\<forall>(p, finished, el, st) \<in> set xs. js_active (vs_jobs (complete_all xs u) (jp_job p)) = None
        \<and> (st = JcSucceeded \<longrightarrow> js_last_success_sequence (vs_jobs (complete_all xs u) (jp_job p))
              = sn_sequence (si_snapshot_id idn)))
    \<and> (\<forall>j. j \<notin> set (map (jp_job \<circ> fst) xs) \<longrightarrow> vs_jobs (complete_all xs u) j = vs_jobs u j)"
  using assms
proof (induction xs arbitrary: u)
  case (Cons x xs)
  obtain p finished el st where x: "x = (p, finished, el, st)" by (cases x)
  define c where "c = completion_of x"
  have p: "running p u" "permit_identity_of p = idn" "jp_submitted_mono_us p \<le> finished" "finished \<le> jp_deadline_mono_us p"
    using Cons.prems(4) by (auto simp: x)
  have "accepts c u" unfolding c_def x completion_of_def prod.case
    by (rule running_accepts) (use p Cons.prems(2) in simp_all)
  then have acc: "complete_job c u = (CdpAccepted, accept_completion c u)" by (rule complete_job_accepts [OF Cons.prems(1)])
  have c: "jc_job c = jp_job p" "jc_status c = st" "jc_snapshot_id c = si_snapshot_id idn"
    using p(2) by (auto simp: c_def x completion_of_def completion_from_permit_def permit_identity_of_def)
  have jobs: "vs_jobs (accept_completion c u) j = vs_jobs u j" if "j \<noteq> jp_job p" for j
    using that c(1) by (simp add: accept_completion_def update_cost_def note_success_def release_job_def refresh_in_flight_def Let_def)
  have "\<forall>(q, f, e, s) \<in> set xs. running q (accept_completion c u) \<and> permit_identity_of q = idn
      \<and> jp_submitted_mono_us q \<le> f \<and> f \<le> jp_deadline_mono_us q"
  proof (rule ballI, clarify)
    fix q f e s assume q: "(q, f, e, s) \<in> set xs"
    then have "jp_job q \<noteq> jp_job p" using Cons.prems(3) by (force simp: x)
    then show "running q (accept_completion c u) \<and> permit_identity_of q = idn
        \<and> jp_submitted_mono_us q \<le> f \<and> f \<le> jp_deadline_mono_us q"
      using Cons.prems(4) q jobs by (auto simp: running_def)
  qed
  moreover have "vs_inv (accept_completion c u)" using complete_job_inv [OF Cons.prems(1), of c] acc by simp
  moreover have "vs_current_snapshot (accept_completion c u) = Some idn" using Cons.prems(2) by simp
  moreover have "distinct (map (jp_job \<circ> fst) xs)" using Cons.prems(3) by (simp add: comp_def)
  ultimately have rest: "(\<forall>n < length xs. fst (complete_job (completion_of (xs ! n))
        (complete_all (take n xs) (accept_completion c u))) = CdpAccepted)
      \<and> (\<forall>(p, finished, el, st) \<in> set xs. js_active (vs_jobs (complete_all xs (accept_completion c u)) (jp_job p)) = None
        \<and> (st = JcSucceeded \<longrightarrow> js_last_success_sequence (vs_jobs (complete_all xs (accept_completion c u)) (jp_job p))
              = sn_sequence (si_snapshot_id idn)))
      \<and> (\<forall>j. j \<notin> set (map (jp_job \<circ> fst) xs) \<longrightarrow>
            vs_jobs (complete_all xs (accept_completion c u)) j = vs_jobs (accept_completion c u) j)"
    by (intro Cons.IH)
  have this_job: "js_active (vs_jobs (accept_completion c u) (jp_job p)) = None"
    "st = JcSucceeded \<Longrightarrow> js_last_success_sequence (vs_jobs (accept_completion c u) (jp_job p))
        = sn_sequence (si_snapshot_id idn)"
    using accept_completion_sel(7) [of c u] c by simp_all
  have apart: "jp_job p \<notin> set (map (jp_job \<circ> fst) xs)" using Cons.prems(3) by (simp add: x)
  have step: "complete_all (x # xs) u = complete_all xs (accept_completion c u)" by (simp add: acc flip: c_def)
  have "fst (complete_job (completion_of ((x # xs) ! n)) (complete_all (take n (x # xs)) u)) = CdpAccepted"
    if "n < length (x # xs)" for n
    using that rest acc by (cases n) (simp_all flip: c_def)
  moreover have "vs_jobs (complete_all (x # xs) u) (jp_job p) = vs_jobs (accept_completion c u) (jp_job p)"
    using rest apart unfolding step by blast
  moreover have "vs_jobs (complete_all (x # xs) u) j = vs_jobs u j" if "j \<notin> set (map (jp_job \<circ> fst) (x # xs))" for j
    using that rest jobs [of j] unfolding step by (simp add: x)
  ultimately show ?case using rest this_job unfolding step by (auto simp: x)
qed simp

text \<open>C25: The work of a plan can always be finished. A handoff that is claimed right after its plan,
  before its deadlines, is claimed whole; then, whichever of its permits the daemon completes, in
  whichever order, each completion that falls between submission and deadline is accepted, a
  success is recorded under the sequence of the snapshot, and the permits left are still running.\<close>

theorem claimed_permit_completes:
  assumes "vs_plan sn i lat (fold vs_step es (vs_new p0)) = (pl, t)" and "handoff_from_plan pl = Some ps"
    and "list_all (\<lambda>q. now \<le> jp_deadline_mono_us q) ps"
    and "distinct (map fst xs)"
    and "\<forall>(p, finished, elapsed, st) \<in> set xs. p \<in> set ps
      \<and> cs_cut_completed_mono_us sn \<le> finished \<and> finished \<le> jp_deadline_mono_us p"
  shows "fst (claim_handoff ps now t) = Some ps
    \<and> (let u = snd (claim_handoff ps now t); v = complete_all xs u in
      (\<forall>n < length xs. fst (complete_job (completion_of (xs ! n)) (complete_all (take n xs) u)) = CdpAccepted)
      \<and> (\<forall>(p, finished, elapsed, st) \<in> set xs. js_active (vs_jobs v (jp_job p)) = None
          \<and> (st = JcSucceeded \<longrightarrow> js_last_success_sequence (vs_jobs v (jp_job p)) = sn_sequence (cs_snapshot_id sn)))
      \<and> (\<forall>p \<in> set ps - set (map fst xs). \<exists>a. js_active (vs_jobs v (jp_job p)) = Some a
          \<and> pi_lifecycle a = PlRunning \<and> pi_generation a = jp_generation p))"
proof -
  define s where "s = fold vs_step es (vs_new p0)"
  have inv: "vs_inv s" unfolding s_def by (rule vs_run_inv)
  have pl: "fst (vs_plan sn i lat s) = pl" "snd (vs_plan sn i lat s) = t" using assms(1) by (simp_all add: s_def)
  have exec: "pl_should_execute (fst (vs_plan sn i lat s))" and ps: "pl_permits pl = ps"
    using assms(2) handoff_of_plan [OF inv, of sn i lat] by (auto simp: pl split: if_splits)
  note ex = executing_plan [OF inv exec, unfolded pl ps]
  have batch: "handoff_from_permits ps = Some ps"
    using assms(2) ps by (simp add: handoff_from_plan_def split: if_splits)
  have "\<forall>q \<in> set ps. pending_match q t \<and> now \<le> jp_deadline_mono_us q"
    using ex(3) assms(3) by (simp add: list_all_iff)
  note claim = claim_handoff_all [OF batch this]
  define u where "u = snd (claim_handoff ps now t)"
  have inj: "inj_on jp_job (set ps)" using ex(2) by (simp add: distinct_map)
  have sub: "set (map fst xs) \<subseteq> set ps" using assms(5) by auto
  have jobs: "distinct (map (jp_job \<circ> fst) xs)"
    using assms(4) inj_on_subset [OF inj sub] by (auto simp: distinct_map intro: comp_inj_on)
  have p: "permit_identity_of p = identity_of sn" "jp_submitted_mono_us p = cs_cut_completed_mono_us sn" if "p \<in> set ps" for p
    using ex(3) that by (auto simp: permit_ok_def)
  have run: "running q u" if "q \<in> set ps" for q using claim(2) that by (simp add: u_def)
  have "vs_inv u" unfolding u_def using vs_plan_inv [OF inv, of sn i lat] pl(2) by (intro claim_handoff_inv) simp
  moreover have "vs_current_snapshot u = Some (identity_of sn)" using claim(3) ex(4) by (simp add: u_def)
  moreover have "\<forall>(p, finished, el, st) \<in> set xs. running p u \<and> permit_identity_of p = identity_of sn
      \<and> jp_submitted_mono_us p \<le> finished \<and> finished \<le> jp_deadline_mono_us p"
    using assms(5) p run by fastforce
  ultimately have fin: "(\<forall>n < length xs. fst (complete_job (completion_of (xs ! n)) (complete_all (take n xs) u)) = CdpAccepted)
    \<and> (\<forall>(p, finished, el, st) \<in> set xs. js_active (vs_jobs (complete_all xs u) (jp_job p)) = None
        \<and> (st = JcSucceeded \<longrightarrow> js_last_success_sequence (vs_jobs (complete_all xs u) (jp_job p))
              = sn_sequence (si_snapshot_id (identity_of sn))))
    \<and> (\<forall>j. j \<notin> set (map (jp_job \<circ> fst) xs) \<longrightarrow> vs_jobs (complete_all xs u) j = vs_jobs u j)"
    by (intro completions_accepted jobs)
  have "\<exists>a. js_active (vs_jobs (complete_all xs u) (jp_job q)) = Some a \<and> pi_lifecycle a = PlRunning
      \<and> pi_generation a = jp_generation q" if q: "q \<in> set ps - set (map fst xs)" for q
  proof -
    have "jp_job q \<notin> set (map (jp_job \<circ> fst) xs)"
    proof
      assume "jp_job q \<in> set (map (jp_job \<circ> fst) xs)"
      then have "jp_job q \<in> jp_job ` set (map fst xs)" by (simp add: image_image comp_def)
      then obtain r where "r \<in> set (map fst xs)" "jp_job r = jp_job q" by (metis imageE)
      then show False using inj_onD [OF inj, of r q] sub q by auto
    qed
    then show ?thesis using fin run [of q] q by (simp add: running_def)
  qed
  then show ?thesis
    using claim(1) fin by (simp add: Let_def identity_of_def flip: u_def)
qed

theorem claimed_permit_completes_witness:
  "let u = snd (claim_handoff demo_permits 1100 (snd (vs_plan demo_snapshot demo_inputs 40 (vs_new VsActive))));
       first = (demo_permit HoltWintersRefresh 1000 6120 6120000, 1700, 650, JcFailed);
       second = (demo_permit TelemetryFlush 750 6600 8800000, 1600, 600, JcSucceeded)
   in fst (complete_job (completion_of first) u) = CdpAccepted
    \<and> fst (complete_job (completion_of second) (snd (complete_job (completion_of first) u))) = CdpAccepted
    \<and> js_last_success_sequence (vs_jobs (complete_all [first, second] u) TelemetryFlush) = 1"
proof -
  let ?r = "vs_plan demo_snapshot demo_inputs 40 (vs_new VsActive)"
  let ?xs = "[(demo_permit HoltWintersRefresh 1000 6120 6120000, 1700, 650, JcFailed),
    (demo_permit TelemetryFlush 750 6600 8800000, 1600, 600, JcSucceeded)] :: finished_work list"
  have plan: "vs_plan demo_snapshot demo_inputs 40 (fold vs_step [] (vs_new VsActive)) = (fst ?r, snd ?r)" by simp
  have off: "handoff_from_plan (fst ?r) = Some demo_permits"
    using handoff_of_plan [OF vs_new_inv, of demo_snapshot demo_inputs 40 VsActive] demo_plan
    by (simp add: demo_permits_def)
  have "list_all (\<lambda>q. 1100 \<le> jp_deadline_mono_us q) demo_permits" "distinct (map fst ?xs)"
    "\<forall>(p, finished, elapsed, st) \<in> set ?xs. p \<in> set demo_permits
      \<and> cs_cut_completed_mono_us demo_snapshot \<le> finished \<and> finished \<le> jp_deadline_mono_us p"
    by (simp_all add: demo_permits_def demo_permit_def demo_snapshot_def with_cut_times_def snapshot_new_def)
  note all = claimed_permit_completes [OF plan off this, THEN conjunct2, unfolded Let_def]
  have "\<forall>n < 2. fst (complete_job (completion_of (?xs ! n)) (complete_all (take n ?xs)
      (snd (claim_handoff demo_permits 1100 (snd ?r))))) = CdpAccepted" using all by simp
  from this [rule_format, of 0] this [rule_format, of 1] all show ?thesis
    by (simp add: Let_def demo_permit_def demo_snapshot_def with_cut_times_def snapshot_new_def)
qed

text \<open>C23: A completion is accepted at most once. After a completion was accepted, no sequence of
  further calls makes the scheduler accept the same completion again.\<close>

theorem completion_accepted_once:
  assumes "complete_job c (fold vs_step es (vs_new p0)) = (CdpAccepted, t)"
  shows "fst (complete_job c (fold vs_step es' t)) \<noteq> CdpAccepted"
proof -
  define s where "s = fold vs_step es (vs_new p0)"
  have inv: "vs_inv s" unfolding s_def by (rule vs_run_inv)
  have acc: "accepts c s" using complete_job_accepted_iff [OF inv, of c] assms by (simp add: s_def)
  have t: "t = accept_completion c s" using complete_job_accepts [OF inv acc] assms by (simp add: s_def)
  have inv_t: "vs_inv t" using complete_job_inv [OF inv, of c] complete_job_accepts [OF inv acc] t by simp
  have "spent (jc_job c) (jc_generation c) (fold vs_step es' t)"
    using accepted_spent [OF inv acc] evolves_run [OF inv_t] unfolding t by (rule spent_evolves)
  then show ?thesis
    using complete_job_accepted_iff [OF vs.run_inv [OF inv_t]] spent_refuses by blast
qed

theorem completion_accepted_once_witness:
  "\<exists>t. complete_job demo_completion (fold vs_step demo_events (vs_new VsActive)) = (CdpAccepted, t)
    \<and> fst (complete_job demo_completion (fold vs_step [VeLegacy TelemetryFlush \<lparr> sn_daemon_epoch = 7, sn_sequence = 1 \<rparr> 5 True] t)) \<noteq> CdpAccepted"
proof -
  have "fst (complete_job demo_completion (fold vs_step demo_events (vs_new VsActive))) = CdpAccepted"
    by code_simp
  then have "complete_job demo_completion (fold vs_step demo_events (vs_new VsActive))
      = (CdpAccepted, snd (complete_job demo_completion (fold vs_step demo_events (vs_new VsActive))))"
    by (metis prod.collapse)
  then show ?thesis using completion_accepted_once by blast
qed

text \<open>C26: The slots are bounded and a valid completion is never dropped. At any time at most four
  permits are pending or running, and a completion is accepted exactly when the permit of its job is
  running, was issued for the same snapshot, workload and revisions, in the same generation and with
  the same deadline, the work ended between submission and deadline, and the snapshot is of this daemon
  and at most two behind the current one: the reserved room means that it is never refused for
  capacity.\<close>

theorem acceptance_exact:
  "let s = fold vs_step es (vs_new p0)
   in length (active_jobs s) \<le> 4
    \<and> (fst (complete_job c s) = CdpAccepted \<longleftrightarrow>
        (\<exists>a cur. js_active (vs_jobs s (jc_job c)) = Some a \<and> vs_current_snapshot s = Some cur
          \<and> pi_lifecycle a = PlRunning
          \<and> pi_identity a = \<lparr> si_snapshot_id = jc_snapshot_id c, si_workload_id = jc_workload_id c,
              si_capability_revision = jc_capability_revision c,
              si_thermal_power_revision = jc_thermal_power_revision c,
              si_process_identity_revision = jc_process_identity_revision c \<rparr>
          \<and> pi_generation a = jc_generation c \<and> pi_deadline_mono_us a = jc_deadline_mono_us c
          \<and> pi_submitted_mono_us a \<le> jc_completed_mono_us c \<and> jc_completed_mono_us c \<le> jc_deadline_mono_us c
          \<and> sn_daemon_epoch (jc_snapshot_id c) = sn_daemon_epoch (si_snapshot_id cur)
          \<and> unat (sn_sequence (jc_snapshot_id c)) \<le> unat (sn_sequence (si_snapshot_id cur))
          \<and> unat (sn_sequence (si_snapshot_id cur)) \<le> unat (sn_sequence (jc_snapshot_id c)) + 2))"
proof -
  have recent: "revision_is_current c s \<longleftrightarrow> (\<exists>cur. vs_current_snapshot s = Some cur
      \<and> sn_daemon_epoch (jc_snapshot_id c) = sn_daemon_epoch (si_snapshot_id cur)
      \<and> unat (sn_sequence (jc_snapshot_id c)) \<le> unat (sn_sequence (si_snapshot_id cur))
      \<and> unat (sn_sequence (si_snapshot_id cur)) \<le> unat (sn_sequence (jc_snapshot_id c)) + 2)" for s
    by (auto simp: revision_is_current_def word_le_nat_alt unat_sat_sub split: option.split)
  have same: "permit_matches c a \<longleftrightarrow> pi_lifecycle a = PlRunning
      \<and> pi_identity a = \<lparr> si_snapshot_id = jc_snapshot_id c, si_workload_id = jc_workload_id c,
          si_capability_revision = jc_capability_revision c,
          si_thermal_power_revision = jc_thermal_power_revision c,
          si_process_identity_revision = jc_process_identity_revision c \<rparr>
      \<and> pi_generation a = jc_generation c \<and> pi_deadline_mono_us a = jc_deadline_mono_us c" for a
    by (cases "pi_identity a") (auto simp: permit_matches_def)
  have "length (active_jobs (fold vs_step es (vs_new p0))) \<le> 4"
    using vs_run_inv [of es p0] by (simp add: active_jobs_busy vs_inv_def MAX_IN_FLIGHT_OPTIONAL_def)
  then show ?thesis
    unfolding Let_def complete_job_accepted_iff [OF vs_run_inv] accepts_def recent same by auto
qed

text \<open>A stored observation is read back well formed, whatever was stored: a fresh one has a value,
  an unavailable, invalid or truncated one has none; reading twice changes nothing; and every observation
  that the constructors make is read back unchanged.\<close>

theorem observation_read_typed:
  "observation_wf (observation_read w)
   \<and> observation_read (observation_read w) = observation_read w
   \<and> observation_read (observation_fresh v g r age) = observation_fresh v g r age
   \<and> observation_read (observation_stale v' g r age) = observation_stale v' g r age
   \<and> fresh_value (observation_read w) = fresh_value w"
proof -
  have "fresh_value (observation_read w) = fresh_value w"
    by (auto simp: fresh_value_def observation_read_def split: observation_status.splits option.splits)
  then show ?thesis by (simp add: observation_read_wf observation_read_id constructors_wf)
qed

text \<open>The publisher and the scheduler agree on what is fresh. A snapshot that the publisher
  of the daemon stamps after the one the scheduler last planned for is never rejected: the plan is made for
  it, and the next one published is fresh again.\<close>

theorem published_snapshot_accepted:
  assumes "vs_current_snapshot s = Some cur" and "sn_daemon_epoch (si_snapshot_id cur) = pb_daemon_epoch p"
    and "sn_sequence (si_snapshot_id cur) \<le> pb_next_sequence p" and "publish sn p = (Inr sn', q)"
  shows "vs_plan sn' i lat s = accepted_plan sn' i lat s
    \<and> (\<exists>cur'. vs_current_snapshot (snd (vs_plan sn' i lat s)) = Some cur'
      \<and> sn_daemon_epoch (si_snapshot_id cur') = pb_daemon_epoch q
      \<and> sn_sequence (si_snapshot_id cur') \<le> pb_next_sequence q)"
proof -
  have sn': "cs_snapshot_id sn' = \<lparr> sn_daemon_epoch = pb_daemon_epoch p, sn_sequence = pb_next_sequence p + 1 \<rparr>"
    and q: "pb_daemon_epoch q = pb_daemon_epoch p" "pb_next_sequence q = pb_next_sequence p + 1"
    and room: "unat (pb_next_sequence p) + 1 < 2 ^ 64"
    using assms(4) by (auto simp: publish_Inr)
  have "pb_next_sequence p < pb_next_sequence p + 1"
    using room by (simp add: word_less_nat_alt unat_word_ariths)
  then have "snapshot_fresh sn' s"
    using assms(1-3) sn' by (auto simp: snapshot_fresh_def)
  then have plan: "vs_plan sn' i lat s = accepted_plan sn' i lat s" by (rule vs_plan_fresh)
  show ?thesis unfolding plan by (simp add: accepted_plan_sel identity_of_def sn' q)
qed

theorem published_snapshot_accepted_witness:
  "\<exists>cur'. vs_current_snapshot (snd (vs_plan (demo_snapshot\<lparr> cs_snapshot_id := \<lparr> sn_daemon_epoch = 7, sn_sequence = 2 \<rparr>,
      cs_cycle := 2 \<rparr>) demo_inputs 40 (snd (vs_plan demo_snapshot demo_inputs 40 (vs_new VsActive))))) = Some cur'
    \<and> sn_daemon_epoch (si_snapshot_id cur') = 7 \<and> sn_sequence (si_snapshot_id cur') \<le> 2"
proof -
  let ?s = "snd (vs_plan demo_snapshot demo_inputs 40 (vs_new VsActive))"
  have fresh: "snapshot_fresh demo_snapshot (vs_new VsActive)" by (simp add: snapshot_fresh_def vs_new_def)
  have cur: "vs_current_snapshot ?s = Some (identity_of demo_snapshot)"
    by (simp add: vs_plan_fresh [OF fresh] accepted_plan_sel)
  have id: "cs_snapshot_id demo_snapshot = \<lparr> sn_daemon_epoch = 7, sn_sequence = 1 \<rparr>"
    by (simp add: demo_snapshot_def with_cut_times_def snapshot_new_def)
  have pub: "publish demo_snapshot (publisher_at 7 1) = (Inr (demo_snapshot\<lparr> cs_snapshot_id :=
      \<lparr> sn_daemon_epoch = 7, sn_sequence = 2 \<rparr>, cs_cycle := 2 \<rparr>), snd (publish demo_snapshot (publisher_at 7 1)))"
    by (simp add: publish_def publisher_next_id_def publisher_at_def checked_add_def Let_def)
  then have q: "pb_daemon_epoch (snd (publish demo_snapshot (publisher_at 7 1))) = 7"
    "pb_next_sequence (snd (publish demo_snapshot (publisher_at 7 1))) = 2"
    by (simp_all add: publish_def publisher_next_id_def publisher_at_def checked_add_def Let_def)
  have le: "sn_daemon_epoch (si_snapshot_id (identity_of demo_snapshot)) = pb_daemon_epoch (publisher_at 7 1)"
    "sn_sequence (si_snapshot_id (identity_of demo_snapshot)) \<le> pb_next_sequence (publisher_at 7 1)"
    by (simp_all add: identity_of_def id publisher_at_def)
  from published_snapshot_accepted [OF cur le pub, of demo_inputs 40, THEN conjunct2]
  show ?thesis unfolding q .
qed

end
