(* ===== verification/Action_Accumulator.thy ===== *)
theory Action_Accumulator
  imports Root_Action
begin

text \<open>
  \<open>engine/action_accumulator.rs\<close>: the typed builder through which every subsystem emits the actions of a
  cycle, and the part of \<open>LockFreeMetrics\<close> it writes. The \<open>+= 1\<close> and \<open>fetch_add\<close> of the code wrap at 64
  bits. A call takes and returns the pair of the accumulator and the counters of the process; the
  tracing of each push is not modelled.
\<close>

datatype action_phase =
    PhaseDecide
  | PhaseLearnedPolicy
  | PhaseSkillTick
  | PhaseClusterActions
  | PhaseAgentActions
  | PhasePagingHints
  | PhaseHeuristic
  | PhaseStaleApps
  | PhaseSurvival
  | PhaseFreezeExecutor
  | PhaseSysctlGovernor
  | PhaseNetworkOptimizer
  | PhaseDispatchTick
  | PhaseReactor
  | PhaseOther

record emit_context =
  ec_phase :: action_phase
  ec_site :: string
  ec_reason :: string

record phase_counters =
  phc_decide :: u64
  phc_learned_policy :: u64
  phc_skill_tick :: u64
  phc_cluster_actions :: u64
  phc_agent_actions :: u64
  phc_paging_hints :: u64
  phc_heuristic :: u64
  phc_stale_apps :: u64
  phc_survival :: u64
  phc_freeze_executor :: u64
  phc_sysctl_governor :: u64
  phc_network_optimizer :: u64
  phc_dispatch_tick :: u64
  phc_reactor :: u64
  phc_other :: u64

definition phase_counters_default :: phase_counters where
  "phase_counters_default = \<lparr> phc_decide = 0, phc_learned_policy = 0, phc_skill_tick = 0, phc_cluster_actions = 0, phc_agent_actions = 0, phc_paging_hints = 0, phc_heuristic = 0, phc_stale_apps = 0, phc_survival = 0, phc_freeze_executor = 0, phc_sysctl_governor = 0, phc_network_optimizer = 0, phc_dispatch_tick = 0, phc_reactor = 0, phc_other = 0 \<rparr>"

record accumulator =
  acc_actions :: "root_action list"
  push_count_throttle :: u64
  push_count_freeze :: u64
  push_count_unfreeze :: u64
  push_count_boost :: u64
  push_count_set_memorystatus :: u64
  push_count_set_thread_qos :: u64
  push_count_set_sysctl :: u64
  push_count_toggle_spotlight :: u64
  push_count_quarantine_daemon :: u64
  push_count_raw :: u64
  rejected_shape :: u64
  phase_counts :: phase_counters

definition accumulator_new :: accumulator where
  "accumulator_new = \<lparr> acc_actions = [], push_count_throttle = 0, push_count_freeze = 0, push_count_unfreeze = 0, push_count_boost = 0, push_count_set_memorystatus = 0, push_count_set_thread_qos = 0, push_count_set_sysctl = 0, push_count_toggle_spotlight = 0, push_count_quarantine_daemon = 0,
     push_count_raw = 0, rejected_shape = 0, phase_counts = phase_counters_default \<rparr>"

text \<open>The counters of the process that a push adds to.\<close>

record lf_metrics =
  actions_pushed_throttle_total :: u64
  actions_pushed_freeze_total :: u64
  actions_pushed_unfreeze_total :: u64
  actions_pushed_boost_total :: u64
  actions_pushed_set_memorystatus_total :: u64
  actions_pushed_set_thread_qos_total :: u64
  actions_pushed_set_sysctl_total :: u64
  actions_pushed_toggle_spotlight_total :: u64
  actions_pushed_quarantine_daemon_total :: u64
  actions_pushed_raw_total :: u64
  actions_rejected_shape_total :: u64

definition finalize :: "accumulator \<Rightarrow> root_action list" where
  "finalize a = acc_actions a"

fun bump_phase :: "action_phase \<Rightarrow> phase_counters \<Rightarrow> phase_counters" where
  "bump_phase PhaseDecide c = c\<lparr> phc_decide := phc_decide c + 1 \<rparr>"
| "bump_phase PhaseLearnedPolicy c = c\<lparr> phc_learned_policy := phc_learned_policy c + 1 \<rparr>"
| "bump_phase PhaseSkillTick c = c\<lparr> phc_skill_tick := phc_skill_tick c + 1 \<rparr>"
| "bump_phase PhaseClusterActions c = c\<lparr> phc_cluster_actions := phc_cluster_actions c + 1 \<rparr>"
| "bump_phase PhaseAgentActions c = c\<lparr> phc_agent_actions := phc_agent_actions c + 1 \<rparr>"
| "bump_phase PhasePagingHints c = c\<lparr> phc_paging_hints := phc_paging_hints c + 1 \<rparr>"
| "bump_phase PhaseHeuristic c = c\<lparr> phc_heuristic := phc_heuristic c + 1 \<rparr>"
| "bump_phase PhaseStaleApps c = c\<lparr> phc_stale_apps := phc_stale_apps c + 1 \<rparr>"
| "bump_phase PhaseSurvival c = c\<lparr> phc_survival := phc_survival c + 1 \<rparr>"
| "bump_phase PhaseFreezeExecutor c = c\<lparr> phc_freeze_executor := phc_freeze_executor c + 1 \<rparr>"
| "bump_phase PhaseSysctlGovernor c = c\<lparr> phc_sysctl_governor := phc_sysctl_governor c + 1 \<rparr>"
| "bump_phase PhaseNetworkOptimizer c = c\<lparr> phc_network_optimizer := phc_network_optimizer c + 1 \<rparr>"
| "bump_phase PhaseDispatchTick c = c\<lparr> phc_dispatch_tick := phc_dispatch_tick c + 1 \<rparr>"
| "bump_phase PhaseReactor c = c\<lparr> phc_reactor := phc_reactor c + 1 \<rparr>"
| "bump_phase PhaseOther c = c\<lparr> phc_other := phc_other c + 1 \<rparr>"

definition bump_phase_counter :: "action_phase \<Rightarrow> accumulator \<Rightarrow> accumulator" where
  "bump_phase_counter p a = a\<lparr> phase_counts := bump_phase p (phase_counts a) \<rparr>"

definition append_action :: "root_action \<Rightarrow> accumulator \<Rightarrow> accumulator" where
  "append_action x a = a\<lparr> acc_actions := acc_actions a @ [x] \<rparr>"

fun count_variant :: "root_action \<Rightarrow> accumulator \<Rightarrow> accumulator" where
  "count_variant (ThrottleProcess _ _ _ _ _ _ _) a = a\<lparr> push_count_throttle := push_count_throttle a + 1 \<rparr>"
| "count_variant (FreezeProcess _ _ _ _ _ _) a = a\<lparr> push_count_freeze := push_count_freeze a + 1 \<rparr>"
| "count_variant (UnfreezeProcess _ _ _ _ _ _) a = a\<lparr> push_count_unfreeze := push_count_unfreeze a + 1 \<rparr>"
| "count_variant (BoostProcess _ _ _ _ _ _) a = a\<lparr> push_count_boost := push_count_boost a + 1 \<rparr>"
| "count_variant (SetMemorystatus _ _ _ _) a = a\<lparr> push_count_set_memorystatus := push_count_set_memorystatus a + 1 \<rparr>"
| "count_variant (SetThreadQoS _ _ _ _ _ _ _ _ _) a = a\<lparr> push_count_set_thread_qos := push_count_set_thread_qos a + 1 \<rparr>"
| "count_variant (SetSysctl _) a = a\<lparr> push_count_set_sysctl := push_count_set_sysctl a + 1 \<rparr>"
| "count_variant (ToggleSpotlight _ _ _) a = a\<lparr> push_count_toggle_spotlight := push_count_toggle_spotlight a + 1 \<rparr>"
| "count_variant (QuarantineDaemon _ _ _ _) a = a\<lparr> push_count_quarantine_daemon := push_count_quarantine_daemon a + 1 \<rparr>"

fun count_variant_total :: "root_action \<Rightarrow> lf_metrics \<Rightarrow> lf_metrics" where
  "count_variant_total (ThrottleProcess _ _ _ _ _ _ _) m = m\<lparr> actions_pushed_throttle_total := actions_pushed_throttle_total m + 1 \<rparr>"
| "count_variant_total (FreezeProcess _ _ _ _ _ _) m = m\<lparr> actions_pushed_freeze_total := actions_pushed_freeze_total m + 1 \<rparr>"
| "count_variant_total (UnfreezeProcess _ _ _ _ _ _) m = m\<lparr> actions_pushed_unfreeze_total := actions_pushed_unfreeze_total m + 1 \<rparr>"
| "count_variant_total (BoostProcess _ _ _ _ _ _) m = m\<lparr> actions_pushed_boost_total := actions_pushed_boost_total m + 1 \<rparr>"
| "count_variant_total (SetMemorystatus _ _ _ _) m = m\<lparr> actions_pushed_set_memorystatus_total := actions_pushed_set_memorystatus_total m + 1 \<rparr>"
| "count_variant_total (SetThreadQoS _ _ _ _ _ _ _ _ _) m = m\<lparr> actions_pushed_set_thread_qos_total := actions_pushed_set_thread_qos_total m + 1 \<rparr>"
| "count_variant_total (SetSysctl _) m = m\<lparr> actions_pushed_set_sysctl_total := actions_pushed_set_sysctl_total m + 1 \<rparr>"
| "count_variant_total (ToggleSpotlight _ _ _) m = m\<lparr> actions_pushed_toggle_spotlight_total := actions_pushed_toggle_spotlight_total m + 1 \<rparr>"
| "count_variant_total (QuarantineDaemon _ _ _ _) m = m\<lparr> actions_pushed_quarantine_daemon_total := actions_pushed_quarantine_daemon_total m + 1 \<rparr>"

subsection \<open>Pushes\<close>

definition reject_shape :: "accumulator \<times> lf_metrics \<Rightarrow> accumulator \<times> lf_metrics" where
  "reject_shape = (\<lambda>(a, m). (a\<lparr> rejected_shape := rejected_shape a + 1 \<rparr>,
     m\<lparr> actions_rejected_shape_total := actions_rejected_shape_total m + 1 \<rparr>))"

definition push_throttle :: "u32 \<Rightarrow> string \<Rightarrow> bool \<Rightarrow> string \<Rightarrow> decision_reason \<Rightarrow> u64 \<Rightarrow> u64 \<Rightarrow> emit_context
    \<Rightarrow> accumulator \<times> lf_metrics \<Rightarrow> accumulator \<times> lf_metrics" where
  "push_throttle pid name aggressive reason d ss su ctx = (\<lambda>(a, m).
     if pid = 0 \<or> name = [] then reject_shape (a, m)
     else (append_action (ThrottleProcess pid name aggressive reason d ss su)
             (bump_phase_counter (ec_phase ctx) (a\<lparr> push_count_throttle := push_count_throttle a + 1 \<rparr>)),
           m\<lparr> actions_pushed_throttle_total := actions_pushed_throttle_total m + 1 \<rparr>))"

definition push_freeze :: "u32 \<Rightarrow> string \<Rightarrow> string \<Rightarrow> decision_reason \<Rightarrow> u64 \<Rightarrow> u64 \<Rightarrow> emit_context
    \<Rightarrow> accumulator \<times> lf_metrics \<Rightarrow> accumulator \<times> lf_metrics" where
  "push_freeze pid name reason d ss su ctx = (\<lambda>(a, m).
     if pid = 0 \<or> name = [] then reject_shape (a, m)
     else (append_action (FreezeProcess pid name reason d ss su)
             (bump_phase_counter (ec_phase ctx) (a\<lparr> push_count_freeze := push_count_freeze a + 1 \<rparr>)),
           m\<lparr> actions_pushed_freeze_total := actions_pushed_freeze_total m + 1 \<rparr>))"

definition push_set_sysctl_clamped :: "string \<Rightarrow> string \<Rightarrow> string \<Rightarrow> decision_reason \<Rightarrow> emit_context
    \<Rightarrow> accumulator \<times> lf_metrics \<Rightarrow> accumulator \<times> lf_metrics" where
  "push_set_sysctl_clamped key value reason d ctx = (\<lambda>(a, m).
     if key = [] then reject_shape (a, m)
     else (append_action (set_sysctl key value reason d)
             (bump_phase_counter (ec_phase ctx) (a\<lparr> push_count_set_sysctl := push_count_set_sysctl a + 1 \<rparr>)),
           m\<lparr> actions_pushed_set_sysctl_total := actions_pushed_set_sysctl_total m + 1 \<rparr>))"

definition push_raw :: "root_action \<Rightarrow> emit_context \<Rightarrow> accumulator \<times> lf_metrics \<Rightarrow> accumulator \<times> lf_metrics" where
  "push_raw x ctx = (\<lambda>(a, m).
     (append_action x (bump_phase_counter (ec_phase ctx)
        (count_variant x (a\<lparr> push_count_raw := push_count_raw a + 1 \<rparr>))),
      count_variant_total x (m\<lparr> actions_pushed_raw_total := actions_pushed_raw_total m + 1 \<rparr>)))"

definition extend_raw :: "root_action list \<Rightarrow> emit_context \<Rightarrow> accumulator \<times> lf_metrics \<Rightarrow> accumulator \<times> lf_metrics" where
  "extend_raw xs ctx = fold (\<lambda>x. push_raw x ctx) xs"

subsection \<open>Telemetry and labels\<close>

record accumulator_telemetry =
  at_throttle :: u64
  at_freeze :: u64
  at_unfreeze :: u64
  at_boost :: u64
  at_set_memorystatus :: u64
  at_set_thread_qos :: u64
  at_set_sysctl :: u64
  at_toggle_spotlight :: u64
  at_quarantine_daemon :: u64
  at_raw :: u64
  at_rejected_shape :: u64
  at_total_pushed :: u64
  at_phase_decide :: u64
  at_phase_learned_policy :: u64
  at_phase_skill_tick :: u64
  at_phase_cluster_actions :: u64
  at_phase_agent_actions :: u64
  at_phase_paging_hints :: u64
  at_phase_heuristic :: u64
  at_phase_stale_apps :: u64
  at_phase_survival :: u64
  at_phase_freeze_executor :: u64
  at_phase_sysctl_governor :: u64
  at_phase_network_optimizer :: u64
  at_phase_dispatch_tick :: u64
  at_phase_reactor :: u64
  at_phase_other :: u64

definition telemetry :: "accumulator \<Rightarrow> accumulator_telemetry" where
  "telemetry a = \<lparr> at_throttle = push_count_throttle a, at_freeze = push_count_freeze a, at_unfreeze = push_count_unfreeze a, at_boost = push_count_boost a, at_set_memorystatus = push_count_set_memorystatus a, at_set_thread_qos = push_count_set_thread_qos a, at_set_sysctl = push_count_set_sysctl a, at_toggle_spotlight = push_count_toggle_spotlight a, at_quarantine_daemon = push_count_quarantine_daemon a,
     at_raw = push_count_raw a, at_rejected_shape = rejected_shape a,
     at_total_pushed = of_nat (length (acc_actions a)),
     at_phase_decide = phc_decide (phase_counts a), at_phase_learned_policy = phc_learned_policy (phase_counts a), at_phase_skill_tick = phc_skill_tick (phase_counts a), at_phase_cluster_actions = phc_cluster_actions (phase_counts a), at_phase_agent_actions = phc_agent_actions (phase_counts a), at_phase_paging_hints = phc_paging_hints (phase_counts a), at_phase_heuristic = phc_heuristic (phase_counts a), at_phase_stale_apps = phc_stale_apps (phase_counts a), at_phase_survival = phc_survival (phase_counts a), at_phase_freeze_executor = phc_freeze_executor (phase_counts a), at_phase_sysctl_governor = phc_sysctl_governor (phase_counts a), at_phase_network_optimizer = phc_network_optimizer (phase_counts a), at_phase_dispatch_tick = phc_dispatch_tick (phase_counts a), at_phase_reactor = phc_reactor (phase_counts a), at_phase_other = phc_other (phase_counts a) \<rparr>"

fun action_variant_name :: "root_action \<Rightarrow> string" where
  "action_variant_name (ThrottleProcess _ _ _ _ _ _ _) = ''throttle''"
| "action_variant_name (FreezeProcess _ _ _ _ _ _) = ''freeze''"
| "action_variant_name (UnfreezeProcess _ _ _ _ _ _) = ''unfreeze''"
| "action_variant_name (BoostProcess _ _ _ _ _ _) = ''boost''"
| "action_variant_name (SetMemorystatus _ _ _ _) = ''set_memorystatus''"
| "action_variant_name (SetThreadQoS _ _ _ _ _ _ _ _ _) = ''set_thread_qos''"
| "action_variant_name (SetSysctl _) = ''set_sysctl''"
| "action_variant_name (ToggleSpotlight _ _ _) = ''toggle_spotlight''"
| "action_variant_name (QuarantineDaemon _ _ _ _) = ''quarantine_daemon''"

text \<open>\<open>format!\<close> of an unsigned number, and of a boolean.\<close>

definition u32_to_string :: "u32 \<Rightarrow> string" where
  "u32_to_string n = nat_to_string (unat n)"

definition bool_to_string :: "bool \<Rightarrow> string" where
  "bool_to_string b = (if b then ''true'' else ''false'')"

fun outcome_name :: "root_action \<Rightarrow> string option" where
  "outcome_name (ThrottleProcess _ name _ _ _ _ _) = Some (''throttle:'' @ name)"
| "outcome_name (FreezeProcess _ name _ _ _ _) = Some (''freeze:'' @ name)"
| "outcome_name (UnfreezeProcess _ name _ _ _ _) = Some (''unfreeze:'' @ name)"
| "outcome_name (BoostProcess _ name _ _ _ _) = Some (''boost:'' @ name)"
| "outcome_name (SetMemorystatus pid _ _ _) = Some (''memstatus:pid:'' @ u32_to_string pid)"
| "outcome_name (SetThreadQoS _ name _ tier _ _ _ _ _) = Some (''thread_qos:'' @ name @ '':tier'' @ tier)"
| "outcome_name (SetSysctl a) = Some (''sysctl:'' @ ssa_key a)"
| "outcome_name (ToggleSpotlight enabled _ _) = Some (''spotlight:'' @ bool_to_string enabled)"
| "outcome_name (QuarantineDaemon daemon _ _ _) = Some (''quarantine:'' @ daemon)"

subsection \<open>Accounting\<close>

definition typed_sum :: "accumulator \<Rightarrow> u64" where
  "typed_sum a = push_count_throttle a + push_count_freeze a + push_count_unfreeze a + push_count_boost a + push_count_set_memorystatus a + push_count_set_thread_qos a + push_count_set_sysctl a + push_count_toggle_spotlight a + push_count_quarantine_daemon a"

definition phase_sum :: "phase_counters \<Rightarrow> u64" where
  "phase_sum c = phc_decide c + phc_learned_policy c + phc_skill_tick c + phc_cluster_actions c + phc_agent_actions c + phc_paging_hints c + phc_heuristic c + phc_stale_apps c + phc_survival c + phc_freeze_executor c + phc_sysctl_governor c + phc_network_optimizer c + phc_dispatch_tick c + phc_reactor c + phc_other c"

definition pushed_sum :: "lf_metrics \<Rightarrow> u64" where
  "pushed_sum m = actions_pushed_throttle_total m + actions_pushed_freeze_total m + actions_pushed_unfreeze_total m + actions_pushed_boost_total m + actions_pushed_set_memorystatus_total m + actions_pushed_set_thread_qos_total m + actions_pushed_set_sysctl_total m + actions_pushed_toggle_spotlight_total m + actions_pushed_quarantine_daemon_total m"

datatype acc_event =
    AePushThrottle u32 string bool string decision_reason u64 u64 emit_context
  | AePushFreeze u32 string string decision_reason u64 u64 emit_context
  | AePushSysctl string string string decision_reason emit_context
  | AePushRaw root_action emit_context
  | AeExtendRaw "root_action list" emit_context

fun acc_step :: "acc_event \<Rightarrow> accumulator \<times> lf_metrics \<Rightarrow> accumulator \<times> lf_metrics" where
  "acc_step (AePushThrottle pid name ag reason d ss su ctx) s = push_throttle pid name ag reason d ss su ctx s"
| "acc_step (AePushFreeze pid name reason d ss su ctx) s = push_freeze pid name reason d ss su ctx s"
| "acc_step (AePushSysctl key value reason d ctx) s = push_set_sysctl_clamped key value reason d ctx s"
| "acc_step (AePushRaw x ctx) s = push_raw x ctx s"
| "acc_step (AeExtendRaw xs ctx) s = extend_raw xs ctx s"

text \<open>What a call contributes: the specification of the builder is the concatenation of these.\<close>

fun emitted :: "acc_event \<Rightarrow> root_action list" where
  "emitted (AePushThrottle pid name ag reason d ss su ctx) =
     (if pid = 0 \<or> name = [] then [] else [throttle_full pid name ag reason ss su d])"
| "emitted (AePushFreeze pid name reason d ss su ctx) =
     (if pid = 0 \<or> name = [] then [] else [freeze_full pid name reason ss su d])"
| "emitted (AePushSysctl key value reason d ctx) = (if key = [] then [] else [set_sysctl key value reason d])"
| "emitted (AePushRaw x ctx) = [x]"
| "emitted (AeExtendRaw xs ctx) = xs"

text \<open>The three tallies of accepted actions: by variant, by phase, and the process counters since \<open>m0\<close>.\<close>

definition acc_balanced :: "lf_metrics \<Rightarrow> accumulator \<times> lf_metrics \<Rightarrow> bool" where
  "acc_balanced m0 = (\<lambda>(a, m). typed_sum a = of_nat (length (acc_actions a))
     \<and> phase_sum (phase_counts a) = of_nat (length (acc_actions a))
     \<and> pushed_sum m = pushed_sum m0 + of_nat (length (acc_actions a))
     \<and> actions_rejected_shape_total m = actions_rejected_shape_total m0 + rejected_shape a
     \<and> actions_pushed_raw_total m = actions_pushed_raw_total m0 + push_count_raw a)"

lemma phase_sum_bump [simp]: "phase_sum (bump_phase p c) = phase_sum c + 1"
  by (cases p) (simp_all add: phase_sum_def)

lemma bump_phase_counter_sel [simp]:
  "acc_actions (bump_phase_counter p a) = acc_actions a" "typed_sum (bump_phase_counter p a) = typed_sum a"
  "rejected_shape (bump_phase_counter p a) = rejected_shape a" "push_count_raw (bump_phase_counter p a) = push_count_raw a"
  "phase_counts (bump_phase_counter p a) = bump_phase p (phase_counts a)"
  by (simp_all add: bump_phase_counter_def typed_sum_def)

lemma append_action_sel [simp]:
  "acc_actions (append_action x a) = acc_actions a @ [x]" "typed_sum (append_action x a) = typed_sum a"
  "rejected_shape (append_action x a) = rejected_shape a" "push_count_raw (append_action x a) = push_count_raw a"
  "phase_counts (append_action x a) = phase_counts a"
  by (simp_all add: append_action_def typed_sum_def)

lemma count_variant_sel [simp]:
  "acc_actions (count_variant x a) = acc_actions a" "typed_sum (count_variant x a) = typed_sum a + 1"
  "rejected_shape (count_variant x a) = rejected_shape a" "push_count_raw (count_variant x a) = push_count_raw a"
  "phase_counts (count_variant x a) = phase_counts a"
  by (cases x; simp add: typed_sum_def)+

lemma count_variant_total_sel [simp]:
  "pushed_sum (count_variant_total x m) = pushed_sum m + 1"
  "actions_rejected_shape_total (count_variant_total x m) = actions_rejected_shape_total m"
  "actions_pushed_raw_total (count_variant_total x m) = actions_pushed_raw_total m"
  by (cases x; simp add: pushed_sum_def)+

lemma sum_updates [simp]:
  "typed_sum (a\<lparr> push_count_raw := n \<rparr>) = typed_sum a" "typed_sum (a\<lparr> rejected_shape := n \<rparr>) = typed_sum a"
  "typed_sum (a\<lparr> push_count_throttle := push_count_throttle a + 1 \<rparr>) = typed_sum a + 1"
  "typed_sum (a\<lparr> push_count_freeze := push_count_freeze a + 1 \<rparr>) = typed_sum a + 1"
  "typed_sum (a\<lparr> push_count_set_sysctl := push_count_set_sysctl a + 1 \<rparr>) = typed_sum a + 1"
  "pushed_sum (m\<lparr> actions_pushed_raw_total := n \<rparr>) = pushed_sum m"
  "pushed_sum (m\<lparr> actions_rejected_shape_total := n \<rparr>) = pushed_sum m"
  "pushed_sum (m\<lparr> actions_pushed_throttle_total := actions_pushed_throttle_total m + 1 \<rparr>) = pushed_sum m + 1"
  "pushed_sum (m\<lparr> actions_pushed_freeze_total := actions_pushed_freeze_total m + 1 \<rparr>) = pushed_sum m + 1"
  "pushed_sum (m\<lparr> actions_pushed_set_sysctl_total := actions_pushed_set_sysctl_total m + 1 \<rparr>) = pushed_sum m + 1"
  by (simp_all add: typed_sum_def pushed_sum_def)

lemma push_raw_effect:
  "acc_actions (fst (push_raw x ctx s)) = acc_actions (fst s) @ [x]"
  "acc_balanced m0 s \<Longrightarrow> acc_balanced m0 (push_raw x ctx s)"
  by (cases s; simp add: push_raw_def acc_balanced_def)+

lemma extend_raw_effect:
  "acc_actions (fst (extend_raw xs ctx s)) = acc_actions (fst s) @ xs"
  "acc_balanced m0 s \<Longrightarrow> acc_balanced m0 (extend_raw xs ctx s)"
  by (induction xs arbitrary: s) (simp_all add: extend_raw_def push_raw_effect)

lemma acc_step_actions: "acc_actions (fst (acc_step e s)) = acc_actions (fst s) @ emitted e"
  by (cases e; cases s) (auto simp: push_throttle_def push_freeze_def push_set_sysctl_clamped_def reject_shape_def
    throttle_full_def freeze_full_def push_raw_effect extend_raw_effect)

lemma reject_balanced: "acc_balanced m0 (a, m) \<Longrightarrow> acc_balanced m0 (reject_shape (a, m))"
  by (simp add: reject_shape_def acc_balanced_def)

lemma accept_balanced:
  assumes "acc_balanced m0 (a, m)" and "typed_sum b = typed_sum a + 1" and "pushed_sum n = pushed_sum m + 1"
    and "phase_counts b = phase_counts a" "acc_actions b = acc_actions a" "rejected_shape b = rejected_shape a"
    "push_count_raw b = push_count_raw a" "actions_rejected_shape_total n = actions_rejected_shape_total m"
    "actions_pushed_raw_total n = actions_pushed_raw_total m"
  shows "acc_balanced m0 (append_action x (bump_phase_counter p b), n)"
  using assms by (simp add: acc_balanced_def)

lemma acc_step_balanced: "acc_balanced m0 s \<Longrightarrow> acc_balanced m0 (acc_step e s)"
  by (cases e; cases s) (auto simp: push_throttle_def push_freeze_def push_set_sysctl_clamped_def push_raw_effect
    extend_raw_effect intro!: reject_balanced elim!: accept_balanced)

interpretation builder: invariant_machine acc_step "acc_balanced m0" for m0
  by unfold_locales (rule acc_step_balanced)

lemma accumulator_new_balanced: "acc_balanced m0 (accumulator_new, m0)"
  by (simp add: acc_balanced_def accumulator_new_def typed_sum_def phase_sum_def phase_counters_default_def)

lemma acc_run_actions: "acc_actions (fst (fold acc_step es s)) = acc_actions (fst s) @ concat (map emitted es)"
  by (induction es arbitrary: s) (simp_all add: acc_step_actions)

text \<open>The builder emits what was pushed, and accounts for all of it. After any calls from a new
  builder the finished list is the accepted pushes in their order, typed pushes rejected exactly for a
  zero process, an empty name or an empty key; the variant counters, the phase counters and
  the reported total all equal its length, and the process counters moved by the same amounts.\<close>

theorem builder_accounts:
  "let (a, m) = fold acc_step es (accumulator_new, m0); n = of_nat (length (finalize a))
   in finalize a = concat (map emitted es) \<and> typed_sum a = n \<and> phase_sum (phase_counts a) = n
    \<and> at_total_pushed (telemetry a) = n \<and> pushed_sum m = pushed_sum m0 + n
    \<and> actions_rejected_shape_total m = actions_rejected_shape_total m0 + rejected_shape a"
proof -
  obtain a m where am: "fold acc_step es (accumulator_new, m0) = (a, m)" by fastforce
  then have "acc_balanced m0 (a, m)"
    using builder.run_inv [OF accumulator_new_balanced, of m0 es] by simp
  moreover have "finalize a = concat (map emitted es)"
    using acc_run_actions [of es "(accumulator_new, m0)"] am by (simp add: finalize_def accumulator_new_def)
  ultimately show ?thesis by (simp add: am acc_balanced_def finalize_def telemetry_def)
qed

lemma outcome_differs: "action_variant_name x \<noteq> action_variant_name y \<Longrightarrow> outcome_name y \<noteq> outcome_name x"
  by (cases x; cases y; simp)

lemma outcome_present: "outcome_name x \<noteq> None"
  by (cases x) simp_all

text \<open>Every action leaves feedback. Each of the nine variants has an outcome label, and the
  labels of two actions of different variants differ.\<close>

theorem outcome_labels:
  "outcome_name x \<noteq> None \<and> (outcome_name x = outcome_name y \<longrightarrow> action_variant_name x = action_variant_name y)"
  using outcome_differs outcome_present by metis

end
