(* ===== verification/Effect_Decay.thy ===== *)
theory Effect_Decay
  imports Apollo_Prelude
begin

text \<open>
  \<open>engine/effect_decay.rs\<close>: the watchdog that re-reads an effect after it should have settled. Each kind
  of observation has its own bounded ring; disagreements on hard-protected processes are kept for five
  minutes. \<open>Instant::now()\<close> is an argument. The counters of the process that the watchdog and its client
  add to are a record passed along; their \<open>fetch_add\<close> wraps.
\<close>

datatype obs_kind = JetsamTier | MachPolicy | SysctlKind

definition ALL_OBS_KINDS :: "obs_kind list" where
  "ALL_OBS_KINDS = [JetsamTier, MachPolicy, SysctlKind]"

record pending_observation =
  po_effect_id :: u64
  po_pid :: u32
  po_kind :: obs_kind
  po_key :: "string option"
  po_value_post :: i64
  po_deadline :: instant
  po_hard_protected :: bool

definition RING_CAP :: nat where "RING_CAP = 64"
definition SETTLE :: duration where "SETTLE = 5 * 1000000000"
definition HP_DECAY_RING_CAP :: nat where "HP_DECAY_RING_CAP = 32"
definition HP_DECAY_WINDOW :: duration where "HP_DECAY_WINDOW = 5 * 60 * 1000000000"

record decay_counters =
  effect_decay_detected_total :: u64
  effect_decay_hp_mach_attempts_total :: u64
  policy_rollback_evaluations_total :: u64
  policy_rollback_executions_total :: u64
  policy_rollback_triggered_by_decay_total :: u64

record decay_watchdog =
  wd_rings :: "obs_kind \<Rightarrow> pending_observation list"
  wd_hp_decays :: "instant list"
  wd_hp_decay_pids :: "(instant \<times> u32) list"

definition watchdog_new :: decay_watchdog where
  "watchdog_new = \<lparr> wd_rings = \<lambda>_. [], wd_hp_decays = [], wd_hp_decay_pids = [] \<rparr>"

definition watchdog_len :: "decay_watchdog \<Rightarrow> nat" where
  "watchdog_len w = sum_list (map (\<lambda>k. length (wd_rings w k)) ALL_OBS_KINDS)"

definition record_observation :: "pending_observation \<Rightarrow> decay_watchdog \<Rightarrow> decay_watchdog" where
  "record_observation ob w =
     w\<lparr> wd_rings := (wd_rings w)(po_kind ob := push_bounded RING_CAP ob (wd_rings w (po_kind ob))) \<rparr>"

fun drain_ring :: "instant \<Rightarrow> pending_observation list \<Rightarrow> pending_observation list \<times> pending_observation list" where
  "drain_ring now [] = ([], [])"
| "drain_ring now (ob # obs) =
     (if po_deadline ob \<le> now then (case drain_ring now obs of (d, r) \<Rightarrow> (ob # d, r)) else ([], ob # obs))"

definition drain_expired :: "instant \<Rightarrow> decay_watchdog \<Rightarrow> pending_observation list \<times> decay_watchdog" where
  "drain_expired now w =
     (concat (map (\<lambda>k. fst (drain_ring now (wd_rings w k))) ALL_OBS_KINDS),
      w\<lparr> wd_rings := \<lambda>k. snd (drain_ring now (wd_rings w k)) \<rparr>)"

definition decay_in_window :: "instant \<Rightarrow> instant \<Rightarrow> bool" where
  "decay_in_window now t \<longleftrightarrow> t \<le> now \<and> now - t \<le> HP_DECAY_WINDOW"

fun prune_front :: "('a \<Rightarrow> bool) \<Rightarrow> 'a list \<Rightarrow> 'a list" where
  "prune_front P [] = []"
| "prune_front P (x # xs) = (if P x then x # xs else prune_front P xs)"

definition prune_hp_decays :: "instant \<Rightarrow> decay_watchdog \<Rightarrow> decay_watchdog" where
  "prune_hp_decays now w = w\<lparr> wd_hp_decays := prune_front (decay_in_window now) (wd_hp_decays w),
     wd_hp_decay_pids := prune_front (\<lambda>e. decay_in_window now (fst e)) (wd_hp_decay_pids w) \<rparr>"

definition note_hp_decay :: "instant \<Rightarrow> u32 \<Rightarrow> decay_watchdog \<Rightarrow> decay_watchdog" where
  "note_hp_decay now pid w = prune_hp_decays now
     (w\<lparr> wd_hp_decays := push_bounded HP_DECAY_RING_CAP now (wd_hp_decays w),
         wd_hp_decay_pids := push_bounded HP_DECAY_RING_CAP (now, pid) (wd_hp_decay_pids w) \<rparr>)"

definition inc_effect_decay_detected :: "decay_counters \<Rightarrow> decay_counters" where
  "inc_effect_decay_detected c = c\<lparr> effect_decay_detected_total := effect_decay_detected_total c + 1 \<rparr>"

definition inc_effect_decay_hp_mach_attempt :: "decay_counters \<Rightarrow> decay_counters" where
  "inc_effect_decay_hp_mach_attempt c =
     c\<lparr> effect_decay_hp_mach_attempts_total := effect_decay_hp_mach_attempts_total c + 1 \<rparr>"

definition report_disagreement :: "decay_watchdog \<times> decay_counters \<Rightarrow> decay_watchdog \<times> decay_counters" where
  "report_disagreement = (\<lambda>(w, c). (w, inc_effect_decay_detected c))"

definition report_disagreement_with :: "instant \<Rightarrow> pending_observation
    \<Rightarrow> decay_watchdog \<times> decay_counters \<Rightarrow> decay_watchdog \<times> decay_counters" where
  "report_disagreement_with now ob = (\<lambda>(w, c).
     (if po_hard_protected ob then note_hp_decay now (po_pid ob) w else w, inc_effect_decay_detected c))"

definition record_hp_mach_attempt :: "instant \<Rightarrow> pending_observation
    \<Rightarrow> decay_watchdog \<times> decay_counters \<Rightarrow> decay_watchdog \<times> decay_counters" where
  "record_hp_mach_attempt now ob = (\<lambda>(w, c).
     (note_hp_decay now (po_pid ob) w, inc_effect_decay_hp_mach_attempt c))"

definition hard_protected_decay_count_5min :: "instant \<Rightarrow> decay_watchdog \<Rightarrow> nat \<times> decay_watchdog" where
  "hard_protected_decay_count_5min now w =
     (let w = prune_hp_decays now w in (length (wd_hp_decays w), w))"

definition hard_protected_decay_pids :: "instant \<Rightarrow> decay_watchdog \<Rightarrow> u32 list \<times> decay_watchdog" where
  "hard_protected_decay_pids now w =
     (let w = prune_hp_decays now w in (map snd (rev (wd_hp_decay_pids w)), w))"

subsection \<open>Invariant\<close>

text \<open>The rings are bounded and hold their own kind; the two sides of the window name the same events.\<close>

definition wd_inv :: "decay_watchdog \<Rightarrow> bool" where
  "wd_inv w \<longleftrightarrow> (\<forall>k. length (wd_rings w k) \<le> RING_CAP \<and> (\<forall>ob \<in> set (wd_rings w k). po_kind ob = k))
     \<and> length (wd_hp_decays w) \<le> HP_DECAY_RING_CAP \<and> map fst (wd_hp_decay_pids w) = wd_hp_decays w"

lemma prune_front_eq: "prune_front P xs = dropWhile (\<lambda>x. \<not> P x) xs"
  by (induction xs) auto

lemma drain_ring_eq: "drain_ring now obs = (takeWhile (\<lambda>ob. po_deadline ob \<le> now) obs, dropWhile (\<lambda>ob. po_deadline ob \<le> now) obs)"
  by (induction obs) auto

lemma length_dropWhile_bound: "length xs \<le> n \<Longrightarrow> length (dropWhile P xs) \<le> n"
  using length_dropWhile_le [of P xs] by linarith

lemma map_push_bounded: "map f (push_bounded n x xs) = push_bounded n (f x) (map f xs)"
  by (simp add: push_bounded_def map_tl)

lemma record_observation_inv: "wd_inv w \<Longrightarrow> wd_inv (record_observation ob w)"
  using push_bounded_set [of RING_CAP ob "wd_rings w (po_kind ob)"]
  by (auto simp: wd_inv_def record_observation_def RING_CAP_def intro!: push_bounded_length)

lemma drain_expired_inv: "wd_inv w \<Longrightarrow> wd_inv (snd (drain_expired now w))"
  by (auto simp: wd_inv_def drain_expired_def drain_ring_eq length_dropWhile_bound dest!: set_dropWhileD)

lemma prune_hp_decays_inv:
  assumes "wd_inv w"
  shows "wd_inv (prune_hp_decays now w)"
proof -
  have "map fst (wd_hp_decay_pids w) = wd_hp_decays w" using assms by (simp add: wd_inv_def)
  then have "map fst (prune_front (\<lambda>e. decay_in_window now (fst e)) (wd_hp_decay_pids w))
      = prune_front (decay_in_window now) (wd_hp_decays w)"
    by (simp add: prune_front_eq dropWhile_map comp_def flip: \<open>map fst (wd_hp_decay_pids w) = wd_hp_decays w\<close>)
  then show ?thesis using assms
    by (simp add: wd_inv_def prune_hp_decays_def prune_front_eq length_dropWhile_bound)
qed

lemma note_hp_decay_inv: "wd_inv w \<Longrightarrow> wd_inv (note_hp_decay now pid w)"
  unfolding note_hp_decay_def
  by (rule prune_hp_decays_inv) (simp add: wd_inv_def map_push_bounded HP_DECAY_RING_CAP_def push_bounded_length)

lemma watchdog_new_inv: "wd_inv watchdog_new"
  by (simp add: wd_inv_def watchdog_new_def)

subsection \<open>Draining\<close>

text \<open>With deadlines in order, which holds when the clock of the producers does not go back, a drain
  takes exactly the expired observations.\<close>

lemma takeWhile_sorted: "sorted (map po_deadline obs) \<Longrightarrow>
    takeWhile (\<lambda>ob. po_deadline ob \<le> now) obs = filter (\<lambda>ob. po_deadline ob \<le> now) obs"
  by (induction obs) (auto simp: filter_empty_conv intro!: sym [OF filter_False])

lemma dropWhile_sorted: "sorted (map po_deadline obs) \<Longrightarrow>
    dropWhile (\<lambda>ob. po_deadline ob \<le> now) obs = filter (\<lambda>ob. \<not> po_deadline ob \<le> now) obs"
  by (induction obs) (auto intro!: sym [OF filter_True])

text \<open>An observation stays enrolled while fewer than 64 of its own kind follow it, however many of the
  other kinds do.\<close>

lemma records_ring: "wd_rings (fold record_observation obs w) k
    = fold (push_bounded RING_CAP) (filter (\<lambda>ob. po_kind ob = k) obs) (wd_rings w k)"
  by (induction obs arbitrary: w) (auto simp: record_observation_def)

lemma push_bounded_keeps_last:
  "x \<in> set (drop (length q - n) q) \<Longrightarrow> n \<le> length q \<Longrightarrow> n + length xs \<le> cap \<Longrightarrow> x \<in> set (fold (push_bounded cap) xs q)"
proof (induction xs arbitrary: q n)
  case Nil
  then show ?case by (auto dest: in_set_dropD)
next
  case (Cons y ys)
  have "x \<in> set (drop (length (push_bounded cap y q) - Suc n) (push_bounded cap y q))"
    using Cons.prems by (intro push_bounded_remembers) auto
  moreover have "Suc n \<le> length (push_bounded cap y q)"
    using Cons.prems by (cases q) (auto simp: push_bounded_def)
  ultimately show ?case using Cons.IH [of "push_bounded cap y q" "Suc n"] Cons.prems(3) by simp
qed

text \<open>A burst of one kind cannot evict another. An enrolled observation is still pending after any
  further enrolments of which fewer than 64 are of its own kind, and the next drain after its deadline
  returns it when the deadlines of its ring are in order.\<close>

theorem observation_survives:
  assumes "length (filter (\<lambda>o'. po_kind o' = po_kind ob) obs) < RING_CAP"
    and "w' = fold record_observation obs (record_observation ob w)"
  shows "ob \<in> set (wd_rings w' (po_kind ob))
    \<and> (sorted (map po_deadline (wd_rings w' (po_kind ob))) \<and> po_deadline ob \<le> now
        \<longrightarrow> ob \<in> set (fst (drain_expired now w')))"
proof -
  let ?q = "push_bounded RING_CAP ob (wd_rings w (po_kind ob))"
  have "ob \<in> set (drop (length ?q - 1) ?q)" "1 \<le> length ?q" by (auto simp: push_bounded_def)
  from push_bounded_keeps_last [OF this, of "filter (\<lambda>o'. po_kind o' = po_kind ob) obs" RING_CAP]
  have mem: "ob \<in> set (wd_rings w' (po_kind ob))"
    using assms by (simp add: records_ring) (simp add: record_observation_def)
  moreover have "ob \<in> set (fst (drain_expired now w'))"
    if "sorted (map po_deadline (wd_rings w' (po_kind ob)))" "po_deadline ob \<le> now"
    using mem that by (cases "po_kind ob") (auto simp: drain_expired_def ALL_OBS_KINDS_def drain_ring_eq takeWhile_sorted)
  ultimately show ?thesis by blast
qed

definition demo_observation :: "obs_kind \<Rightarrow> instant \<Rightarrow> pending_observation" where
  "demo_observation k d = \<lparr> po_effect_id = 0, po_pid = 41, po_kind = k, po_key = None, po_value_post = 0,
     po_deadline = d, po_hard_protected = True \<rparr>"

theorem observation_survives_witness:
  "demo_observation JetsamTier 10 \<in> set (fst (drain_expired 20
     (fold record_observation (replicate 200 (demo_observation MachPolicy 12))
       (record_observation (demo_observation JetsamTier 10) watchdog_new))))"
proof -
  define obs where "obs = replicate 200 (demo_observation MachPolicy 12)"
  have none: "filter (\<lambda>o'. po_kind o' = po_kind (demo_observation JetsamTier 10)) obs = []"
    by (simp add: obs_def demo_observation_def)
  have "wd_rings (fold record_observation obs (record_observation (demo_observation JetsamTier 10) watchdog_new)) JetsamTier
      = [demo_observation JetsamTier 10]"
    using none by (simp add: records_ring) (simp add: record_observation_def demo_observation_def watchdog_new_def push_bounded_def RING_CAP_def)
  then show ?thesis
    using observation_survives [of "demo_observation JetsamTier 10" obs _ watchdog_new 20] none
    by (simp add: RING_CAP_def demo_observation_def obs_def)
qed

subsection \<open>The window of hard-protected disagreements\<close>

definition last_n :: "nat \<Rightarrow> 'a list \<Rightarrow> 'a list" where
  "last_n n xs = drop (length xs - n) xs"

text \<open>What the window should hold: of the last 32 events, those of the last five minutes.\<close>

definition recent :: "instant \<Rightarrow> instant list \<Rightarrow> instant list" where
  "recent now ts = filter (decay_in_window now) (last_n HP_DECAY_RING_CAP ts)"

lemma sorted_last_n: "sorted ts \<Longrightarrow> sorted (last_n n ts)"
  by (simp add: last_n_def sorted_wrt_drop)

lemma set_last_n: "set (last_n n ts) \<subseteq> set ts"
  by (auto simp: last_n_def dest: in_set_dropD)

lemma decay_in_window_mono: "decay_in_window n t \<Longrightarrow> m \<le> n \<Longrightarrow> t \<le> m \<Longrightarrow> decay_in_window m t"
  by (auto simp: decay_in_window_def)

text \<open>On times in order and in the past, dropping old ones from the front drops all old ones.\<close>

lemma prune_sorted:
  "sorted ts \<Longrightarrow> \<forall>t \<in> set ts. t \<le> now \<Longrightarrow> prune_front (decay_in_window now) ts = filter (decay_in_window now) ts"
proof (induction ts)
  case (Cons t ts)
  have "decay_in_window now u" if "decay_in_window now t" "u \<in> set ts" for u
    using that Cons.prems by (auto simp: decay_in_window_def)
  then show ?case using Cons by (auto intro!: sym [OF filter_True])
qed simp

lemma prune_recent:
  assumes "sorted ts" and "\<forall>t \<in> set ts. t \<le> m" and "m \<le> now"
  shows "prune_front (decay_in_window now) (recent m ts) = recent now ts"
proof -
  have past: "t \<le> m" if "t \<in> set (last_n HP_DECAY_RING_CAP ts)" for t
    using assms(2) subsetD [OF set_last_n that] by simp
  have "prune_front (decay_in_window now) (recent m ts) = filter (decay_in_window now) (recent m ts)"
    using past assms(3) unfolding recent_def
    by (intro prune_sorted sorted_filter [of id, simplified] sorted_last_n assms(1)) fastforce
  also have "\<dots> = recent now ts"
    unfolding recent_def filter_filter
    by (rule filter_cong) (use past assms(3) decay_in_window_mono in \<open>auto\<close>)
  finally show ?thesis .
qed

lemma last_n_snoc: "0 < n \<Longrightarrow> last_n n (xs @ [x]) = push_bounded n x (last_n n xs)"
proof (cases "n \<le> length xs")
  case True
  moreover have "Suc (length xs) - n = Suc (length xs - n)" using True by (rule Suc_diff_le)
  ultimately show "0 < n \<Longrightarrow> ?thesis"
    by (simp add: last_n_def push_bounded_def drop_Suc flip: tl_drop)
next
  case False
  then show "0 < n \<Longrightarrow> ?thesis" by (simp add: last_n_def push_bounded_def)
qed

lemma recent_snoc:
  assumes "sorted (ts @ [now])" and "\<forall>t \<in> set ts. t \<le> m" and "m \<le> now"
  shows "prune_front (decay_in_window now) (push_bounded HP_DECAY_RING_CAP now (recent m ts)) = recent now (ts @ [now])"
proof -
  let ?l = "last_n HP_DECAY_RING_CAP ts" and ?w = "decay_in_window"
  have l: "sorted ?l" "\<forall>t \<in> set ?l. t \<le> m" "length ?l \<le> HP_DECAY_RING_CAP"
    using assms sorted_last_n set_last_n [of HP_DECAY_RING_CAP ts] by (auto simp: sorted_append last_n_def dest: in_set_dropD)
  have narrower: "filter (?w now) (filter (?w m) xs) = filter (?w now) xs" if "set xs \<subseteq> set ?l" for xs
    unfolding filter_filter by (rule filter_cong) (use that l(2) assms(3) decay_in_window_mono in auto)
  have pb: "sorted (push_bounded HP_DECAY_RING_CAP now (recent m ts))"
    "\<forall>t \<in> set (push_bounded HP_DECAY_RING_CAP now (recent m ts)). t \<le> now"
  proof -
    have r: "sorted (recent m ts)" "\<forall>t \<in> set (recent m ts). t \<le> now"
      using l(1,2) assms(3) unfolding recent_def by (auto intro: sorted_filter [of id, simplified])
    then show "sorted (push_bounded HP_DECAY_RING_CAP now (recent m ts))"
      by (cases "recent m ts") (auto simp: push_bounded_def sorted_append)
    show "\<forall>t \<in> set (push_bounded HP_DECAY_RING_CAP now (recent m ts)). t \<le> now"
      using r(2) push_bounded_set by fastforce
  qed
  have now: "?w now now" by (simp add: decay_in_window_def)
  have "filter (?w now) (push_bounded HP_DECAY_RING_CAP now (recent m ts))
      = filter (?w now) (push_bounded HP_DECAY_RING_CAP now ?l)"
  proof (cases "length (recent m ts) \<ge> HP_DECAY_RING_CAP")
    case True
    then have "recent m ts = ?l"
      using l(3) length_filter_le [of "?w m" ?l] unfolding recent_def
      by (intro filter_id_conv [THEN iffD2] ballI) (metis length_filter_less order.antisym order.trans not_less)
    then show ?thesis by simp
  next
    case False
    show ?thesis
    proof (cases "length ?l \<ge> HP_DECAY_RING_CAP")
      case full: True
      then have "recent m ts \<noteq> ?l" using False by auto
      then obtain t u where tu: "?l = t # u" "\<not> ?w m t"
      proof (cases ?l)
        case (Cons t u)
        have "?w m v" if "?w m t" "v \<in> set u" for v
          using that l(1,2) Cons by (auto simp: decay_in_window_def)
        then have "\<not> ?w m t" using \<open>recent m ts \<noteq> ?l\<close> Cons by (auto simp: recent_def filter_id_conv)
        then show ?thesis using that Cons by blast
      qed (simp add: recent_def)
      moreover from tu have "set u \<subseteq> set ?l" by auto
      from narrower [OF this] have "filter (?w now) u = filter (?w now) (recent m ts)"
        using tu by (simp add: recent_def)
      ultimately have "filter (?w now) u = filter (?w now) (recent m ts)" by simp
      then show ?thesis using False full tu now by (simp add: push_bounded_def)
    next
      case short: False
      then show ?thesis using False narrower [of ?l] now by (simp add: push_bounded_def recent_def)
    qed
  qed
  then show ?thesis
    using prune_sorted [OF pb] by (simp add: recent_def [of now] last_n_snoc HP_DECAY_RING_CAP_def)
qed

lemma note_hp_decay_recent:
  assumes "wd_hp_decays w = recent m ts" and "sorted (ts @ [now])" "\<forall>t \<in> set ts. t \<le> m" "m \<le> now"
  shows "wd_hp_decays (note_hp_decay now pid w) = recent now (ts @ [now])"
  using recent_snoc [OF assms(2-4)] assms(1) by (simp add: note_hp_decay_def prune_hp_decays_def)

lemma notes_recent:
  "sorted (ts @ map fst es) \<Longrightarrow> \<forall>t \<in> set ts. t \<le> m \<Longrightarrow> \<forall>e \<in> set es. m \<le> fst e \<Longrightarrow> wd_hp_decays w = recent m ts
   \<Longrightarrow> wd_hp_decays (fold (\<lambda>e. note_hp_decay (fst e) (snd e)) es w) = recent (last (m # map fst es)) (ts @ map fst es)"
proof (induction es arbitrary: ts m w)
  case (Cons e es)
  have "sorted (ts @ [fst e])" using Cons.prems(1) by (auto simp: sorted_append)
  then have "wd_hp_decays (note_hp_decay (fst e) (snd e) w) = recent (fst e) (ts @ [fst e])"
    using Cons.prems by (intro note_hp_decay_recent [OF Cons.prems(4)]) auto
  then show ?case
    using Cons.IH [of "ts @ [fst e]" "fst e" "note_hp_decay (fst e) (snd e) w"] Cons.prems(1,2,3)
    by (auto simp: sorted_append)
qed simp

text \<open>The five-minute window is exact. When the disagreements of hard-protected processes are
  reported in the order of the clock, the count at a later time is the number of those in the last five minutes,
  among the 32 newest, although the watchdog prunes at every report; and as many processes are named.\<close>

theorem window_count_exact:
  assumes "sorted (map fst es)" and "\<forall>e \<in> set es. fst e \<le> now"
    and "w = fold (\<lambda>e. note_hp_decay (fst e) (snd e)) es watchdog_new"
  shows "fst (hard_protected_decay_count_5min now w)
      = length (filter (decay_in_window now) (last_n 32 (map fst es)))
    \<and> length (fst (hard_protected_decay_pids now w)) = fst (hard_protected_decay_count_5min now w)"
proof -
  have "wd_hp_decays w = recent (last (0 # map fst es)) (map fst es)"
    using notes_recent [of "[]" es 0 watchdog_new] assms(1,3) by (simp add: watchdog_new_def recent_def last_n_def)
  moreover have "\<forall>t \<in> set (map fst es). t \<le> last (0 # map fst es)"
    using assms(1) by (cases es rule: rev_cases) (auto simp: sorted_append)
  moreover have "last (0 # map fst es) \<le> now" using assms(2) by (cases es rule: rev_cases) auto
  ultimately have "prune_front (decay_in_window now) (wd_hp_decays w) = recent now (map fst es)"
    using prune_recent [OF assms(1)] by simp
  then have count: "fst (hard_protected_decay_count_5min now w) = length (recent now (map fst es))"
    by (simp add: hard_protected_decay_count_5min_def prune_hp_decays_def Let_def)
  have "wd_inv (fold (\<lambda>e. note_hp_decay (fst e) (snd e)) es v)" if "wd_inv v" for v
    using that by (induction es arbitrary: v) (auto intro: note_hp_decay_inv)
  then have "wd_inv (prune_hp_decays now w)" using assms(3) watchdog_new_inv prune_hp_decays_inv by blast
  then have "length (fst (hard_protected_decay_pids now w)) = fst (hard_protected_decay_count_5min now w)"
    by (simp add: wd_inv_def hard_protected_decay_pids_def hard_protected_decay_count_5min_def Let_def)
      (metis length_map)
  then show ?thesis using count by (simp add: recent_def HP_DECAY_RING_CAP_def)
qed

theorem window_count_exact_witness:
  "fst (hard_protected_decay_count_5min 350000000000
     (fold (\<lambda>e. note_hp_decay (fst e) (snd e)) [(1, 7), (60000000000, 8), (300000000000, 9)] watchdog_new)) = 2"
  using window_count_exact [of "[(1, 7), (60000000000, 8), (300000000000, 9)]" 350000000000, OF _ _ refl]
  by (simp add: decay_in_window_def HP_DECAY_WINDOW_def last_n_def)

end
