(* ===== verification/Rollback_Guard.thy ===== *)
theory Rollback_Guard
  imports Effect_Decay
begin

text \<open>
  The policy rollback guard of \<open>engine/learned_state.rs\<close>, its two callers (\<open>self_improve\<close>, on the quality of
  a restore, and \<open>poke_rollback_guard_via_decay\<close>, on the disagreements of the watchdog) and the drain of
  \<open>daemon_cycle_tail.rs\<close> that feeds the latter. A \<open>SystemTime\<close> is a number of nanoseconds, possibly before the
  epoch; of \<open>LearnableParams\<close> the fields that the guard can restore are modelled.
\<close>

type_synonym system_time = int

datatype policy_shift_kind = OverflowThresholdBgPressure | RlBandUpper | ZoneAlpha

definition POLICY_ROLLBACK_RING_CAP :: nat where "POLICY_ROLLBACK_RING_CAP = 20"
definition POLICY_ROLLBACK_RECENT_WINDOW :: int where "POLICY_ROLLBACK_RECENT_WINDOW = 5 * 60 * 1000000000"
definition POLICY_ROLLBACK_COOLDOWN :: int where "POLICY_ROLLBACK_COOLDOWN = 10 * 60 * 1000000000"
definition HARD_PROTECTED_DECAY_THRESHOLD :: nat where "HARD_PROTECTED_DECAY_THRESHOLD = 5"

record policy_shift =
  ps_at :: system_time
  ps_kind :: policy_shift_kind
  ps_pre_value :: f64

record rollback_entry =
  re_kind :: policy_shift_kind
  re_pre_value :: f64

type_synonym rollback_plan = "rollback_entry list"

record rollback_guard =
  rg_recent_shifts :: "policy_shift list"
  rg_safety_floor :: f64
  rg_cooldown_until :: "system_time option"

definition guard_new :: "f64 \<Rightarrow> rollback_guard" where
  "guard_new safety = \<lparr> rg_recent_shifts = [], rg_safety_floor = safety, rg_cooldown_until = None \<rparr>"

definition record_shift :: "policy_shift_kind \<Rightarrow> f64 \<Rightarrow> system_time \<Rightarrow> rollback_guard \<Rightarrow> rollback_guard" where
  "record_shift k pre t g =
     (let q = (if length (rg_recent_shifts g) = POLICY_ROLLBACK_RING_CAP then tl (rg_recent_shifts g)
               else rg_recent_shifts g)
      in g\<lparr> rg_recent_shifts := q @ [\<lparr> ps_at = t, ps_kind = k, ps_pre_value = pre \<rparr>] \<rparr>)"

definition shift_in_window :: "system_time \<Rightarrow> policy_shift \<Rightarrow> bool" where
  "shift_in_window now r \<longleftrightarrow> ps_at r \<le> now \<and> now - ps_at r \<le> POLICY_ROLLBACK_RECENT_WINDOW"

definition entry_of :: "policy_shift \<Rightarrow> rollback_entry" where
  "entry_of r = \<lparr> re_kind = ps_kind r, re_pre_value = ps_pre_value r \<rparr>"

definition window_entries :: "system_time \<Rightarrow> rollback_guard \<Rightarrow> rollback_plan" where
  "window_entries now g = map entry_of (filter (shift_in_window now) (rev (rg_recent_shifts g)))"

definition cooling :: "system_time \<Rightarrow> rollback_guard \<Rightarrow> bool" where
  "cooling now g \<longleftrightarrow> (case rg_cooldown_until g of Some until \<Rightarrow> now < until | None \<Rightarrow> False)"

definition plan_of_entries :: "rollback_plan \<Rightarrow> rollback_plan option" where
  "plan_of_entries es = (if es = [] then None else Some es)"

definition inc_policy_rollback_evaluation :: "decay_counters \<Rightarrow> decay_counters" where
  "inc_policy_rollback_evaluation c = c\<lparr> policy_rollback_evaluations_total := policy_rollback_evaluations_total c + 1 \<rparr>"

definition inc_policy_rollback_execution :: "decay_counters \<Rightarrow> decay_counters" where
  "inc_policy_rollback_execution c = c\<lparr> policy_rollback_executions_total := policy_rollback_executions_total c + 1 \<rparr>"

definition inc_policy_rollback_triggered_by_decay :: "decay_counters \<Rightarrow> decay_counters" where
  "inc_policy_rollback_triggered_by_decay c =
     c\<lparr> policy_rollback_triggered_by_decay_total := policy_rollback_triggered_by_decay_total c + 1 \<rparr>"

definition evaluate_quality :: "f64 \<Rightarrow> system_time \<Rightarrow> rollback_guard \<Rightarrow> rollback_plan option" where
  "evaluate_quality quality now g =
     (if f64_le (rg_safety_floor g) quality then None
      else if cooling now g then None
      else plan_of_entries (window_entries now g))"

definition evaluate_from_decay :: "nat \<Rightarrow> system_time \<Rightarrow> rollback_guard \<Rightarrow> rollback_plan option" where
  "evaluate_from_decay hp_count now g =
     (if hp_count < HARD_PROTECTED_DECAY_THRESHOLD then None
      else if cooling now g then None
      else plan_of_entries (window_entries now g))"

definition mark_executed_silent :: "system_time \<Rightarrow> rollback_guard \<Rightarrow> rollback_guard" where
  "mark_executed_silent now g = g\<lparr> rg_cooldown_until := Some (now + POLICY_ROLLBACK_COOLDOWN), rg_recent_shifts := [] \<rparr>"

definition mark_executed :: "system_time \<Rightarrow> rollback_guard \<times> decay_counters \<Rightarrow> rollback_guard \<times> decay_counters" where
  "mark_executed now = (\<lambda>(g, c). (mark_executed_silent now g, inc_policy_rollback_execution c))"

subsection \<open>Restoring parameters\<close>

record learn_params =
  lp_zone_alpha :: f64
  lp_rl_pressure_bands :: "f64 list"
  lp_guard :: "rollback_guard option"

text \<open>The loop over the entries of a plan: the flags say which kinds were already seen.\<close>

fun apply_entries :: "bool \<Rightarrow> bool \<Rightarrow> bool \<Rightarrow> rollback_plan \<Rightarrow> string list \<times> learn_params \<Rightarrow> string list \<times> learn_params" where
  "apply_entries za rl ov [] s = s"
| "apply_entries za rl ov (e # es) (names, lp) =
     (case re_kind e of
        ZoneAlpha \<Rightarrow>
          if za then apply_entries za rl ov es (names, lp)
          else apply_entries True rl ov es (names @ [''zone_alpha''], lp\<lparr> lp_zone_alpha := re_pre_value e \<rparr>)
      | RlBandUpper \<Rightarrow>
          if rl then apply_entries za rl ov es (names, lp)
          else apply_entries za True ov es (names @ [''rl_band_upper''],
            lp\<lparr> lp_rl_pressure_bands := (lp_rl_pressure_bands lp)[2 := re_pre_value e] \<rparr>)
      | OverflowThresholdBgPressure \<Rightarrow>
          if ov then apply_entries za rl ov es (names, lp)
          else apply_entries za rl True es (names @ [''overflow_bg_pressure(deferred)''], lp))"

definition apply_rollback_plan :: "rollback_plan \<Rightarrow> learn_params \<Rightarrow> string list \<times> learn_params" where
  "apply_rollback_plan plan lp = apply_entries False False False plan ([], lp)"

definition poke_rollback_guard_via_decay ::
  "nat \<Rightarrow> system_time \<Rightarrow> learn_params \<times> decay_counters \<Rightarrow> bool \<times> learn_params \<times> decay_counters" where
  "poke_rollback_guard_via_decay hp_count now = (\<lambda>(lp, c).
     case lp_guard lp of
       None \<Rightarrow> (False, lp, c)
     | Some g \<Rightarrow>
         (let c = inc_policy_rollback_evaluation c in
          case evaluate_from_decay hp_count now g of
            None \<Rightarrow> (False, lp, c)
          | Some plan \<Rightarrow>
              (let lp = snd (apply_rollback_plan plan lp);
                   lp = lp\<lparr> lp_guard := map_option (mark_executed_silent now) (lp_guard lp) \<rparr>
               in (True, lp, inc_policy_rollback_triggered_by_decay c))))"

text \<open>The tail of \<open>self_improve\<close>: the clock is read once to evaluate and once to mark.\<close>

definition auto_revert :: "f64 option \<Rightarrow> system_time \<Rightarrow> system_time \<Rightarrow> learn_params \<times> decay_counters
    \<Rightarrow> learn_params \<times> decay_counters" where
  "auto_revert last_quality now now' = (\<lambda>(lp, c).
     case lp_guard lp of
       None \<Rightarrow> (lp, c)
     | Some g \<Rightarrow>
         (let quality = (case last_quality of Some q \<Rightarrow> q | None \<Rightarrow> F_Fin 1);
              c = inc_policy_rollback_evaluation c
          in case evaluate_quality quality now g of
               None \<Rightarrow> (lp, c)
             | Some plan \<Rightarrow>
                 (let c = inc_policy_rollback_execution c;
                      lp = snd (apply_rollback_plan plan lp);
                      (g, c) = mark_executed now' (g, c)
                  in (lp\<lparr> lp_guard := Some g \<rparr>, c))))"

definition note_shift :: "policy_shift_kind \<Rightarrow> f64 \<Rightarrow> system_time \<Rightarrow> learn_params \<Rightarrow> learn_params" where
  "note_shift k pre t lp =
     (let g = (case lp_guard lp of Some g \<Rightarrow> g | None \<Rightarrow> guard_new (F_Fin (35 / 100)))
      in lp\<lparr> lp_guard := Some (record_shift k pre t g) \<rparr>)"

subsection \<open>The drain of the daemon\<close>

text \<open>The kernel is read back through parameters: the jetsam priority of a process, and a numeric sysctl.\<close>

definition read_effect_observation ::
  "(u32 \<Rightarrow> int option) \<Rightarrow> (string \<Rightarrow> i64 option) \<Rightarrow> obs_kind \<Rightarrow> u32 \<Rightarrow> string option \<Rightarrow> i64 option" where
  "read_effect_observation get_priority read_numeric k pid key =
     (case k of
        JetsamTier \<Rightarrow> get_priority pid
      | SysctlKind \<Rightarrow> Option.bind key read_numeric
      | MachPolicy \<Rightarrow> None)"

definition consume_expired :: "(u32 \<Rightarrow> int option) \<Rightarrow> (string \<Rightarrow> i64 option) \<Rightarrow> instant \<Rightarrow> pending_observation
    \<Rightarrow> decay_watchdog \<times> decay_counters \<Rightarrow> decay_watchdog \<times> decay_counters" where
  "consume_expired get_priority read_numeric now ob s =
     (if po_kind ob = MachPolicy then (if po_hard_protected ob then record_hp_mach_attempt now ob s else s)
      else case read_effect_observation get_priority read_numeric (po_kind ob) (po_pid ob) (po_key ob) of
             Some actual \<Rightarrow> if actual \<noteq> po_value_post ob then report_disagreement_with now ob s else s
           | None \<Rightarrow> s)"

text \<open>\<open>clk k\<close> is what the clock shows at the \<open>k\<close>-th observation, and \<open>late\<close> after the last.\<close>

fun consume_all :: "(u32 \<Rightarrow> int option) \<Rightarrow> (string \<Rightarrow> i64 option) \<Rightarrow> (nat \<Rightarrow> instant) \<Rightarrow> nat
    \<Rightarrow> pending_observation list \<Rightarrow> decay_watchdog \<times> decay_counters \<Rightarrow> decay_watchdog \<times> decay_counters" where
  "consume_all gp rn clk k [] s = s"
| "consume_all gp rn clk k (ob # obs) s = consume_all gp rn clk (Suc k) obs (consume_expired gp rn (clk k) ob s)"

record decay_world =
  dw_watchdog :: decay_watchdog
  dw_params :: learn_params
  dw_counters :: decay_counters

definition drain_effect_decay :: "(u32 \<Rightarrow> int option) \<Rightarrow> (string \<Rightarrow> i64 option) \<Rightarrow> instant \<Rightarrow> (nat \<Rightarrow> instant)
    \<Rightarrow> instant \<Rightarrow> system_time \<Rightarrow> decay_world \<Rightarrow> bool \<times> decay_world" where
  "drain_effect_decay gp rn start clk late wall s =
     (let (expired, w) = drain_expired start (dw_watchdog s);
          (w, c) = consume_all gp rn clk 0 expired (w, dw_counters s);
          (n, w) = hard_protected_decay_count_5min late w;
          (pids, w) = hard_protected_decay_pids late w;
          (fired, lp, c) = poke_rollback_guard_via_decay n wall (dw_params s, c)
      in (fired, \<lparr> dw_watchdog = w, dw_params = lp, dw_counters = c \<rparr>))"

subsection \<open>What a rollback restores\<close>

definition newest_value :: "policy_shift_kind \<Rightarrow> rollback_plan \<Rightarrow> f64 option" where
  "newest_value k plan = map_option re_pre_value (find (\<lambda>e. re_kind e = k) plan)"

definition restored :: "f64 option \<Rightarrow> f64 \<Rightarrow> f64" where
  "restored v old = (case v of Some x \<Rightarrow> x | None \<Rightarrow> old)"

lemma apply_entries_sel:
  "lp_zone_alpha (snd (apply_entries za rl ov es (names, lp)))
     = (if za then lp_zone_alpha lp else restored (newest_value ZoneAlpha es) (lp_zone_alpha lp))"
  "lp_rl_pressure_bands (snd (apply_entries za rl ov es (names, lp)))
     = (if rl then lp_rl_pressure_bands lp
        else case newest_value RlBandUpper es of Some x \<Rightarrow> (lp_rl_pressure_bands lp)[2 := x] | None \<Rightarrow> lp_rl_pressure_bands lp)"
  "lp_guard (snd (apply_entries za rl ov es (names, lp))) = lp_guard lp"
  by (induction es arbitrary: za rl ov names lp)
    (auto simp: newest_value_def restored_def split: policy_shift_kind.splits option.splits)

lemma apply_rollback_plan_sel [simp]:
  "lp_zone_alpha (snd (apply_rollback_plan plan lp)) = restored (newest_value ZoneAlpha plan) (lp_zone_alpha lp)"
  "lp_rl_pressure_bands (snd (apply_rollback_plan plan lp)) =
     (case newest_value RlBandUpper plan of Some x \<Rightarrow> (lp_rl_pressure_bands lp)[2 := x] | None \<Rightarrow> lp_rl_pressure_bands lp)"
  "lp_guard (snd (apply_rollback_plan plan lp)) = lp_guard lp"
  by (simp_all add: apply_rollback_plan_def apply_entries_sel)

lemma window_entries_empty: "window_entries now g = [] \<longleftrightarrow> (\<forall>r \<in> set (rg_recent_shifts g). \<not> shift_in_window now r)"
  by (auto simp: window_entries_def filter_empty_conv)

text \<open>The shifts of one kind that were recorded in the last five minutes, oldest first.\<close>

definition recent_of :: "policy_shift_kind \<Rightarrow> system_time \<Rightarrow> rollback_guard \<Rightarrow> policy_shift list" where
  "recent_of k now g = filter (\<lambda>r. ps_at r \<le> now \<and> now - ps_at r \<le> 300000000000 \<and> ps_kind r = k) (rg_recent_shifts g)"

lemma newest_window_value:
  "newest_value k (window_entries now g) =
     (if recent_of k now g = [] then None else Some (ps_pre_value (last (recent_of k now g))))"
proof -
  have "newest_value k (map entry_of (filter (shift_in_window now) (rev rs))) =
      (let xs = filter (\<lambda>r. shift_in_window now r \<and> ps_kind r = k) rs
       in if xs = [] then None else Some (ps_pre_value (last xs)))" for rs
    by (induction rs rule: rev_induct) (auto simp: newest_value_def entry_of_def Let_def)
  then show ?thesis
    by (simp add: window_entries_def recent_of_def shift_in_window_def POLICY_ROLLBACK_RECENT_WINDOW_def Let_def conj_assoc)
qed

text \<open>C24: When the drain of the daemon reverts learned parameters, and to what. It reverts exactly
  when the window of the watchdog, after this cycle's disagreements, holds at least five events, the guard
  exists and is not cooling down, and a shift was recorded in the last five minutes. Then the zone rate
  and the upper pressure band each get the value that the newest such shift of their kind replaced, and
  stay as they were if there is none; the shifts are forgotten and a ten-minute cooldown starts.
  Otherwise the parameters and the guard stay as they were.\<close>

theorem decay_rollback_exact:
  assumes "drain_expired start (dw_watchdog s) = (expired, w0)"
    and "consume_all gp rn clk 0 expired (w0, dw_counters s) = (w, c)"
    and "drain_effect_decay gp rn start clk late wall s = (fired, t)"
  shows "fired = (5 \<le> fst (hard_protected_decay_count_5min late w)
      \<and> (\<exists>g. lp_guard (dw_params s) = Some g
          \<and> (\<forall>until. rg_cooldown_until g = Some until \<longrightarrow> until \<le> wall) 
          \<and> (\<exists>r \<in> set (rg_recent_shifts g). ps_at r \<le> wall \<and> wall - ps_at r \<le> 300000000000)))
    \<and> (\<not> fired \<longrightarrow> dw_params t = dw_params s)
    \<and> (fired \<longrightarrow> (let g = the (lp_guard (dw_params s)); zone = recent_of ZoneAlpha wall g;
          upper = recent_of RlBandUpper wall g in
         lp_zone_alpha (dw_params t) = (if zone = [] then lp_zone_alpha (dw_params s) else ps_pre_value (last zone))
       \<and> lp_rl_pressure_bands (dw_params t) = (if upper = [] then lp_rl_pressure_bands (dw_params s)
            else (lp_rl_pressure_bands (dw_params s))[2 := ps_pre_value (last upper)])
       \<and> lp_guard (dw_params t) = Some (g\<lparr> rg_recent_shifts := [],
            rg_cooldown_until := Some (wall + 600000000000) \<rparr>)))"
proof -
  have warm: "\<not> cooling wall g \<longleftrightarrow> (\<forall>until. rg_cooldown_until g = Some until \<longrightarrow> until \<le> wall)" for g
    by (auto simp: cooling_def split: option.split)
  have recent: "shift_in_window wall r \<longleftrightarrow> ps_at r \<le> wall \<and> wall - ps_at r \<le> 300000000000" for r
    by (simp add: shift_in_window_def POLICY_ROLLBACK_RECENT_WINDOW_def)
  obtain n w1 where n: "hard_protected_decay_count_5min late w = (n, w1)" by fastforce
  obtain pids w2 where "hard_protected_decay_pids late w1 = (pids, w2)" by fastforce
  then have drain: "poke_rollback_guard_via_decay n wall (dw_params s, c) = (fired, dw_params t, dw_counters t)"
    using assms by (simp add: drain_effect_decay_def n Let_def split: prod.splits) auto
  show ?thesis
  proof (cases "lp_guard (dw_params s)")
    case None
    then show ?thesis using drain by (auto simp: poke_rollback_guard_via_decay_def)
  next
    case (Some g)
    show ?thesis
    proof (cases "evaluate_from_decay n wall g")
      case None
      moreover have "\<not> (5 \<le> n \<and> \<not> cooling wall g \<and> (\<exists>r \<in> set (rg_recent_shifts g). shift_in_window wall r))"
        using None window_entries_empty [of wall g]
        by (auto simp: evaluate_from_decay_def plan_of_entries_def HARD_PROTECTED_DECAY_THRESHOLD_def split: if_splits)
      ultimately show ?thesis using drain Some n
        by (auto simp: poke_rollback_guard_via_decay_def warm recent)
    next
      case plan: (Some plan)
      then have "5 \<le> n" "\<not> cooling wall g" "plan = window_entries wall g" "window_entries wall g \<noteq> []"
        by (auto simp: evaluate_from_decay_def plan_of_entries_def HARD_PROTECTED_DECAY_THRESHOLD_def split: if_splits)
      moreover have "dw_params t = (snd (apply_rollback_plan plan (dw_params s)))
          \<lparr> lp_guard := map_option (mark_executed_silent wall) (lp_guard (dw_params s)) \<rparr>" "fired"
        using drain Some plan by (simp_all add: poke_rollback_guard_via_decay_def Let_def)
      ultimately show ?thesis using Some n window_entries_empty [of wall g]
        by (auto simp: Let_def newest_window_value restored_def mark_executed_silent_def
            POLICY_ROLLBACK_COOLDOWN_def warm recent)
    qed
  qed
qed

definition demo_shift :: learn_params where
  "demo_shift = note_shift RlBandUpper (F_Fin (8 / 10)) 75 (note_shift ZoneAlpha (F_Fin (1 / 100)) 70
     \<lparr> lp_zone_alpha = F_Fin (2 / 100), lp_rl_pressure_bands = [F_Fin 0, F_Fin 0, F_Fin 1], lp_guard = None \<rparr>)"

definition demo_world :: decay_world where
  "demo_world = \<lparr> dw_watchdog = fold (\<lambda>k. record_observation (demo_observation MachPolicy k)) [1, 2, 3, 4, 5] watchdog_new,
     dw_params = demo_shift, dw_counters = \<lparr> effect_decay_detected_total = 0, effect_decay_hp_mach_attempts_total = 0,
       policy_rollback_evaluations_total = 0, policy_rollback_executions_total = 0,
       policy_rollback_triggered_by_decay_total = 0 \<rparr> \<rparr>"

theorem decay_rollback_exact_witness:
  "\<exists>t. drain_effect_decay (\<lambda>_. None) (\<lambda>_. None) 10 (\<lambda>k. 11) 12 80 demo_world = (True, t)
    \<and> lp_zone_alpha (dw_params t) = F_Fin (1 / 100)
    \<and> lp_rl_pressure_bands (dw_params t) = [F_Fin 0, F_Fin 0, F_Fin (8 / 10)]"
proof -
  let ?s = "demo_world"
  obtain expired w0 where e: "drain_expired 10 (dw_watchdog ?s) = (expired, w0)" by fastforce
  obtain w c where wc: "consume_all (\<lambda>_. None) (\<lambda>_. None) (\<lambda>k. 11) 0 expired (w0, dw_counters ?s) = (w, c)" by fastforce
  obtain fired t where t: "drain_effect_decay (\<lambda>_. None) (\<lambda>_. None) 10 (\<lambda>k. 11) 12 80 ?s = (fired, t)" by fastforce
  have ex: "expired = map (\<lambda>k. demo_observation MachPolicy k) [1, 2, 3, 4, 5]" and w0: "wd_hp_decays w0 = []" "wd_hp_decay_pids w0 = []"
    using e by (auto simp: demo_world_def drain_expired_def ALL_OBS_KINDS_def record_observation_def demo_observation_def
      watchdog_new_def push_bounded_def RING_CAP_def)
  have "wd_hp_decays w = [11, 11, 11, 11, 11]"
    using wc w0 by (simp add: ex consume_expired_def demo_observation_def record_hp_mach_attempt_def note_hp_decay_def
      prune_hp_decays_def push_bounded_def HP_DECAY_RING_CAP_def decay_in_window_def demo_world_def) auto
  then have n: "fst (hard_protected_decay_count_5min 12 w) = 5"
    by (simp add: hard_protected_decay_count_5min_def prune_hp_decays_def decay_in_window_def HP_DECAY_WINDOW_def)
  show ?thesis
    using decay_rollback_exact [OF e wc t] t n
    by (auto simp: demo_world_def demo_shift_def note_shift_def record_shift_def guard_new_def
      POLICY_ROLLBACK_RING_CAP_def recent_of_def Let_def)
qed

subsection \<open>The cooldown, and the counters\<close>

datatype guard_event =
    GePoke nat system_time | GeAuto "f64 option" system_time system_time
  | GeShift policy_shift_kind f64 system_time

fun guard_step :: "guard_event \<Rightarrow> learn_params \<times> decay_counters \<Rightarrow> learn_params \<times> decay_counters" where
  "guard_step (GePoke n now) s = snd (poke_rollback_guard_via_decay n now s)"
| "guard_step (GeAuto q now now') s = auto_revert q now now' s"
| "guard_step (GeShift k v now) (lp, c) = (note_shift k v now lp, c)"

fun event_time :: "guard_event \<Rightarrow> system_time" where
  "event_time (GePoke n now) = now"
| "event_time (GeAuto q now now') = now"
| "event_time (GeShift k v now) = now"

text \<open>The parameters and rollback counters while a guard cools down.\<close>

definition held :: "system_time \<Rightarrow> learn_params \<times> decay_counters \<Rightarrow> learn_params \<times> decay_counters \<Rightarrow> bool" where
  "held until s0 s \<longleftrightarrow> lp_zone_alpha (fst s) = lp_zone_alpha (fst s0)
     \<and> lp_rl_pressure_bands (fst s) = lp_rl_pressure_bands (fst s0)
     \<and> policy_rollback_executions_total (snd s) = policy_rollback_executions_total (snd s0)
     \<and> policy_rollback_triggered_by_decay_total (snd s) = policy_rollback_triggered_by_decay_total (snd s0)
     \<and> (\<exists>g. lp_guard (fst s) = Some g \<and> rg_cooldown_until g = Some until)"

lemma guard_step_held:
  assumes "held until s0 s" and "event_time e < until"
  shows "held until s0 (guard_step e s)"
proof -
  obtain lp c g where s: "s = (lp, c)" "lp_guard lp = Some g" "rg_cooldown_until g = Some until"
    using assms(1) by (cases s) (auto simp: held_def)
  show ?thesis
  proof (cases e)
    case (GePoke n now)
    then have "evaluate_from_decay n now g = None" using s assms(2) by (simp add: evaluate_from_decay_def cooling_def)
    then show ?thesis using assms(1) s GePoke
      by (simp add: held_def poke_rollback_guard_via_decay_def inc_policy_rollback_evaluation_def Let_def)
  next
    case (GeAuto q now now')
    then have "evaluate_quality r now g = None" for r
      using s assms(2) by (simp add: evaluate_quality_def cooling_def)
    then show ?thesis using assms(1) s GeAuto
      by (simp add: held_def auto_revert_def inc_policy_rollback_evaluation_def Let_def)
  next
    case (GeShift k v now)
    then show ?thesis using assms(1) s by (simp add: held_def note_shift_def record_shift_def Let_def)
  qed
qed

lemma guard_run_held: "held until s0 s \<Longrightarrow> \<forall>e \<in> set es. event_time e < until \<Longrightarrow> held until s0 (fold guard_step es s)"
proof (induction es arbitrary: s)
  case (Cons e es)
  have "held until s0 (guard_step e s)" using Cons.prems by (intro guard_step_held) simp_all
  then show ?case using Cons.IH Cons.prems(2) by simp
qed simp

text \<open>C27: A rollback is not repeated within ten minutes. After one, whether the disagreements of the
  watchdog triggered it or a quality below the floor, no call of the guard before the end of the cooldown
  restores a parameter or counts a rollback, whichever of its two callers makes it, however many
  disagreements or however low a quality it brings, and whatever shifts are recorded meanwhile. The
  cooldown starts at the reading of the clock that marks the rollback.\<close>

theorem rollback_cooldown:
  assumes "(\<exists>n. poke_rollback_guard_via_decay n wall s0 = (True, s1))
      \<or> (\<exists>q now. auto_revert q now wall s0 = s1
          \<and> policy_rollback_executions_total (snd s1) \<noteq> policy_rollback_executions_total (snd s0))"
    and "\<forall>e \<in> set es. event_time e < wall + 600000000000"
  shows "lp_zone_alpha (fst (fold guard_step es s1)) = lp_zone_alpha (fst s1)
    \<and> lp_rl_pressure_bands (fst (fold guard_step es s1)) = lp_rl_pressure_bands (fst s1)
    \<and> policy_rollback_executions_total (snd (fold guard_step es s1)) = policy_rollback_executions_total (snd s1)
    \<and> policy_rollback_triggered_by_decay_total (snd (fold guard_step es s1)) = policy_rollback_triggered_by_decay_total (snd s1)"
proof -
  obtain lp c where s0: "s0 = (lp, c)" by fastforce
  have "\<exists>g. lp_guard (fst s1) = Some g \<and> rg_cooldown_until g = Some (wall + 600000000000)"
    using assms(1)
  proof (elim disjE exE conjE)
    fix n assume "poke_rollback_guard_via_decay n wall s0 = (True, s1)"
    then show ?thesis by (auto simp: s0 poke_rollback_guard_via_decay_def mark_executed_silent_def
      POLICY_ROLLBACK_COOLDOWN_def Let_def split: option.splits)
  next
    fix q now assume "auto_revert q now wall s0 = s1"
      "policy_rollback_executions_total (snd s1) \<noteq> policy_rollback_executions_total (snd s0)"
    then show ?thesis by (auto simp: s0 auto_revert_def mark_executed_def mark_executed_silent_def
      inc_policy_rollback_evaluation_def POLICY_ROLLBACK_COOLDOWN_def Let_def split: option.splits)
  qed
  then have "held (wall + 600000000000) s1 s1" by (simp add: held_def)
  from guard_run_held [OF this assms(2)] show ?thesis by (simp add: held_def)
qed

text \<open>Both ways into the cooldown, evaluated.\<close>

theorem rollback_cooldown_witness:
  "let es = [GeShift ZoneAlpha (F_Fin 7) 90, GePoke 9 95, GeAuto (Some F_NaN) 96 97];
       c = dw_counters demo_world
   in lp_zone_alpha (fst (fold guard_step es (snd (poke_rollback_guard_via_decay 5 80 (demo_shift, c))))) = F_Fin (1 / 100)
    \<and> lp_zone_alpha (fst (fold guard_step es (auto_revert (Some (F_Fin (1 / 10))) 79 80 (demo_shift, c)))) = F_Fin (1 / 100)"
proof -
  let ?es = "[GeShift ZoneAlpha (F_Fin 7) 90, GePoke 9 95, GeAuto (Some F_NaN) 96 97]"
  let ?poke = "poke_rollback_guard_via_decay 5 80 (demo_shift, dw_counters demo_world)"
  let ?auto = "auto_revert (Some (F_Fin (1 / 10))) 79 80 (demo_shift, dw_counters demo_world)"
  note defs = demo_shift_def note_shift_def record_shift_def guard_new_def cooling_def shift_in_window_def
    POLICY_ROLLBACK_RECENT_WINDOW_def POLICY_ROLLBACK_RING_CAP_def window_entries_def entry_of_def newest_value_def
    restored_def plan_of_entries_def Let_def
  have poke: "fst ?poke" "lp_zone_alpha (fst (snd ?poke)) = F_Fin (1 / 100)"
    by (simp_all add: poke_rollback_guard_via_decay_def defs evaluate_from_decay_def HARD_PROTECTED_DECAY_THRESHOLD_def)
  then have "?poke = (True, snd ?poke)" by (metis (full_types) prod.collapse)
  then have p: "lp_zone_alpha (fst (fold guard_step ?es (snd ?poke))) = F_Fin (1 / 100)"
    using rollback_cooldown [OF disjI1, of 80 "(demo_shift, dw_counters demo_world)" "snd ?poke" ?es] poke(2) by auto
  have auto: "policy_rollback_executions_total (snd ?auto) \<noteq> policy_rollback_executions_total (dw_counters demo_world)"
    "lp_zone_alpha (fst ?auto) = F_Fin (1 / 100)"
    by (simp_all add: auto_revert_def evaluate_quality_def mark_executed_def inc_policy_rollback_execution_def
      inc_policy_rollback_evaluation_def defs demo_world_def)
  then have a: "lp_zone_alpha (fst (fold guard_step ?es ?auto)) = F_Fin (1 / 100)"
    using rollback_cooldown [OF disjI2, of 80 "(demo_shift, dw_counters demo_world)" ?auto ?es] by auto
  show ?thesis using p a by (simp only: Let_def)
qed

text \<open>C38: The quality path counts each rollback twice: it adds one before restoring and \<open>mark_executed\<close> adds
  another, so the counter of executions grows by two while one rollback happened.\<close>

theorem quality_rollback_counted_twice:
  assumes "lp_guard lp = Some g" and "evaluate_quality (case q of Some x \<Rightarrow> x | None \<Rightarrow> F_Fin 1) now g = Some plan"
  shows "policy_rollback_executions_total (snd (auto_revert q now now' (lp, c))) = policy_rollback_executions_total c + 2
    \<and> lp_zone_alpha (fst (auto_revert q now now' (lp, c))) = restored (newest_value ZoneAlpha plan) (lp_zone_alpha lp)"
  using assms by (simp add: auto_revert_def mark_executed_def inc_policy_rollback_execution_def
    inc_policy_rollback_evaluation_def Let_def)

theorem quality_rollback_counted_twice_witness:
  "policy_rollback_executions_total (snd (auto_revert (Some (F_Fin (1 / 10))) 80 81 (demo_shift, dw_counters demo_world))) = 2"
proof -
  define g where "g = the (lp_guard demo_shift)"
  have g: "lp_guard demo_shift = Some g"
    by (simp add: g_def demo_shift_def note_shift_def)
  have "evaluate_quality (case Some (F_Fin (1 / 10)) of Some x \<Rightarrow> x | None \<Rightarrow> F_Fin 1) 80 g
      = Some [\<lparr> re_kind = RlBandUpper, re_pre_value = F_Fin (8 / 10) \<rparr>,
          \<lparr> re_kind = ZoneAlpha, re_pre_value = F_Fin (1 / 100) \<rparr>]"
    by (simp add: g_def demo_shift_def note_shift_def record_shift_def guard_new_def evaluate_quality_def cooling_def
      plan_of_entries_def window_entries_def entry_of_def shift_in_window_def POLICY_ROLLBACK_RECENT_WINDOW_def
      POLICY_ROLLBACK_RING_CAP_def Let_def)
  from quality_rollback_counted_twice [OF g this, of 81 "dw_counters demo_world"] show ?thesis
    by (simp add: demo_world_def)
qed

end
