(* ===== verification/Mediated_Saga.thy ===== *)
theory Mediated_Saga
  imports Apollo_Prelude
begin

text \<open>
  The saga coordinator of \<open>engine/mediator.rs\<close> (\<open>run_saga\<close>) and the two-step instance of it
  that freezes a process (\<open>run_freeze_saga\<close> in \<open>engine/execute_actions.rs\<close>). The closures of
  the caller act on a shared state \<open>'s\<close>; a step is the number that the code passes to them. The
  two bitsets stay 64-bit words. \<open>saga_spec\<close> is what the coordinator promises, over lists of
  steps instead of words.
\<close>

definition MAX_SAGA_STEPS :: nat where "MAX_SAGA_STEPS = 64"

datatype saga_state =
    SagaReady
  | SagaApplying nat
  | SagaCompensating nat
  | SagaCommitted
  | SagaCompensated
  | SagaRecoveryRequired
  | SagaRejected nat

datatype saga_step = StepApplied | StepNoOp

record 'e saga_report =
  sr_state :: saga_state
  sr_applied_steps :: u64
  sr_compensated_steps :: u64
  sr_apply_failure :: "(nat \<times> 'e) option"
  sr_compensation_failure :: "(nat \<times> 'e) option"

definition saga_committed :: "'e saga_report \<Rightarrow> bool" where
  "saga_committed r \<longleftrightarrow> sr_state r = SagaCommitted"

definition applied_step :: "'e saga_report \<Rightarrow> nat \<Rightarrow> bool" where
  "applied_step r step \<longleftrightarrow> step < MAX_SAGA_STEPS \<and> sr_applied_steps r AND push_bit step 1 \<noteq> 0"

definition compensated_step :: "'e saga_report \<Rightarrow> nat \<Rightarrow> bool" where
  "compensated_step r step \<longleftrightarrow>
     step < MAX_SAGA_STEPS \<and> sr_compensated_steps r AND push_bit step 1 \<noteq> 0"

text \<open>The inner loop: the earlier steps, the last one first.\<close>

fun compensate_prior :: "(nat \<Rightarrow> 's \<Rightarrow> ('e + unit) \<times> 's) \<Rightarrow> u64 \<Rightarrow> nat \<Rightarrow> u64 \<Rightarrow> (nat \<times> 'e) option \<Rightarrow>
    's \<Rightarrow> u64 \<times> (nat \<times> 'e) option \<times> 's" where
  "compensate_prior cmp applied 0 done failure s = (done, failure, s)"
| "compensate_prior cmp applied (Suc prior) done failure s =
     (let bit = push_bit prior 1 in
      if applied AND bit = 0 then compensate_prior cmp applied prior done failure s
      else case cmp prior s of
          (Inr _, s) \<Rightarrow> compensate_prior cmp applied prior (done OR bit) failure s
        | (Inl e, s) \<Rightarrow> compensate_prior cmp applied prior done
            (case failure of None \<Rightarrow> Some (prior, e) | Some f \<Rightarrow> Some f) s)"

definition saga_compensate :: "(nat \<Rightarrow> 's \<Rightarrow> ('e + unit) \<times> 's) \<Rightarrow> (saga_state \<Rightarrow> 's \<Rightarrow> 's) \<Rightarrow>
    u64 \<Rightarrow> nat \<Rightarrow> 'e \<Rightarrow> 's \<Rightarrow> 'e saga_report \<times> 's" where
  "saga_compensate cmp observe applied step e s =
     (let s = observe (SagaCompensating step) s;
          (done, failure, s) = compensate_prior cmp applied step 0 None s;
          terminal = (if failure = None then SagaCompensated else SagaRecoveryRequired)
      in (\<lparr> sr_state = terminal, sr_applied_steps = applied, sr_compensated_steps = done,
            sr_apply_failure = Some (step, e), sr_compensation_failure = failure \<rparr>,
          observe terminal s))"

text \<open>The outer loop, over the steps that are left.\<close>

fun saga_apply :: "(nat \<Rightarrow> 's \<Rightarrow> ('e + saga_step) \<times> 's) \<Rightarrow> (nat \<Rightarrow> 's \<Rightarrow> ('e + unit) \<times> 's) \<Rightarrow>
    (saga_state \<Rightarrow> 's \<Rightarrow> 's) \<Rightarrow> nat list \<Rightarrow> u64 \<Rightarrow> 's \<Rightarrow> 'e saga_report \<times> 's" where
  "saga_apply app cmp observe [] applied s =
     (\<lparr> sr_state = SagaCommitted, sr_applied_steps = applied, sr_compensated_steps = 0,
        sr_apply_failure = None, sr_compensation_failure = None \<rparr>, observe SagaCommitted s)"
| "saga_apply app cmp observe (step # steps) applied s =
     (case app step (observe (SagaApplying step) s) of
        (Inr StepApplied, s) \<Rightarrow> saga_apply app cmp observe steps (applied OR push_bit step 1) s
      | (Inr StepNoOp, s) \<Rightarrow> saga_apply app cmp observe steps applied s
      | (Inl e, s) \<Rightarrow> saga_compensate cmp observe applied step e s)"

definition run_saga_observed :: "nat \<Rightarrow> (nat \<Rightarrow> 's \<Rightarrow> ('e + saga_step) \<times> 's) \<Rightarrow>
    (nat \<Rightarrow> 's \<Rightarrow> ('e + unit) \<times> 's) \<Rightarrow> (saga_state \<Rightarrow> 's \<Rightarrow> 's) \<Rightarrow> 's \<Rightarrow> 'e saga_report \<times> 's" where
  "run_saga_observed step_count app cmp observe s =
     (let s = observe SagaReady s in
      if MAX_SAGA_STEPS < step_count
      then (\<lparr> sr_state = SagaRejected step_count, sr_applied_steps = 0, sr_compensated_steps = 0,
              sr_apply_failure = None, sr_compensation_failure = None \<rparr>,
            observe (SagaRejected step_count) s)
      else saga_apply app cmp observe [0..<step_count] 0 s)"

definition run_saga :: "nat \<Rightarrow> (nat \<Rightarrow> 's \<Rightarrow> ('e + saga_step) \<times> 's) \<Rightarrow>
    (nat \<Rightarrow> 's \<Rightarrow> ('e + unit) \<times> 's) \<Rightarrow> 's \<Rightarrow> 'e saga_report \<times> 's" where
  "run_saga step_count app cmp s = run_saga_observed step_count app cmp (\<lambda>_ s. s) s"

text \<open>
  \<open>run_freeze_saga\<close>: the optional preparation, then the stop. Both closures are called only
  with the steps 0 and 1, so the branch marked unreachable is the stop here.
\<close>

definition run_freeze_saga :: "('s \<Rightarrow> ('e + bool) \<times> 's) \<Rightarrow> ('s \<Rightarrow> ('e + unit) \<times> 's) \<Rightarrow>
    ('s \<Rightarrow> ('e + unit) \<times> 's) \<Rightarrow> 's \<Rightarrow> 'e saga_report \<times> 's" where
  "run_freeze_saga prepare stop restore s =
     run_saga 2
       (\<lambda>step s. if step = 0
          then (case prepare s of
                  (Inr applied, s) \<Rightarrow> (Inr (if applied then StepApplied else StepNoOp), s)
                | (Inl e, s) \<Rightarrow> (Inl e, s))
          else (case stop s of (Inr _, s) \<Rightarrow> (Inr StepApplied, s) | (Inl e, s) \<Rightarrow> (Inl e, s)))
       (\<lambda>step s. if step = 0 then restore s else (Inr (), s)) s"

subsection \<open>What the coordinator promises\<close>

text \<open>
  The steps up to the first error, as the list of those that mutated something; then the
  undoing of a list of steps, which goes on after an error and keeps the first one.
\<close>

fun attempt :: "(nat \<Rightarrow> 's \<Rightarrow> ('e + saga_step) \<times> 's) \<Rightarrow> nat list \<Rightarrow> 's \<Rightarrow>
    nat list \<times> (nat \<times> 'e) option \<times> 's" where
  "attempt app [] s = ([], None, s)"
| "attempt app (step # steps) s =
     (case app step s of
        (Inl e, s) \<Rightarrow> ([], Some (step, e), s)
      | (Inr r, s) \<Rightarrow> (let (done, failure, s) = attempt app steps s
                    in (if r = StepApplied then step # done else done, failure, s)))"

fun undo_steps :: "(nat \<Rightarrow> 's \<Rightarrow> ('e + unit) \<times> 's) \<Rightarrow> nat list \<Rightarrow> 's \<Rightarrow>
    nat list \<times> (nat \<times> 'e) option \<times> 's" where
  "undo_steps cmp [] s = ([], None, s)"
| "undo_steps cmp (step # steps) s =
     (let (r, s) = cmp step s; (done, failure, s) = undo_steps cmp steps s
      in case r of Inr _ \<Rightarrow> (step # done, failure, s) | Inl e \<Rightarrow> (done, Some (step, e), s))"

definition saga_spec :: "(nat \<Rightarrow> 's \<Rightarrow> ('e + saga_step) \<times> 's) \<Rightarrow> (nat \<Rightarrow> 's \<Rightarrow> ('e + unit) \<times> 's) \<Rightarrow>
    nat \<Rightarrow> 's \<Rightarrow> (saga_state \<times> nat list \<times> nat list \<times> (nat \<times> 'e) option \<times> (nat \<times> 'e) option) \<times> 's" where
  "saga_spec app cmp n s =
     (case attempt app [0..<n] s of
        (done, None, s) \<Rightarrow> ((SagaCommitted, done, [], None, None), s)
      | (done, Some f, s) \<Rightarrow>
          (let (undone, failure, s) = undo_steps cmp (rev done) s
           in ((if failure = None then SagaCompensated else SagaRecoveryRequired,
                done, rev undone, Some f, failure), s)))"

text \<open>The abstraction of a report: the words are read as increasing lists of steps.\<close>

definition steps_of :: "u64 \<Rightarrow> nat list" where
  "steps_of w = filter (bit w) [0..<64]"

definition report_abs :: "'e saga_report \<Rightarrow>
    saga_state \<times> nat list \<times> nat list \<times> (nat \<times> 'e) option \<times> (nat \<times> 'e) option" where
  "report_abs r = (sr_state r, steps_of (sr_applied_steps r), steps_of (sr_compensated_steps r),
     sr_apply_failure r, sr_compensation_failure r)"

subsection \<open>The words as lists of steps\<close>

lemmas mask_test [simp] = and_exp_eq_0_iff_not_bit

lemma bit_or_exp [simp]: "i < 64 \<Longrightarrow> bit (w OR 2 ^ i) j \<longleftrightarrow> bit w j \<or> j = i" for w :: u64
  by (auto simp: bit_simps)

lemma upt_split_at: "k < n \<Longrightarrow> [0..<n] = [0..<k] @ k # [Suc k..<n]"
  using upt_add_eq_append [of 0 k "n - k"] by (simp add: upt_conv_Cons)

lemma steps_of_zero [simp]: "steps_of 0 = []"
  by (simp add: steps_of_def)

lemma steps_of_below:
  assumes "\<And>i. bit w i \<Longrightarrow> i < k" "k \<le> 64"
  shows "steps_of w = filter (bit w) [0..<k]"
proof -
  have "[0..<64] = [0..<k] @ [k..<64]"
    using upt_add_eq_append [of 0 k "64 - k"] assms(2) by simp
  moreover have "filter (bit w) [k..<64] = []" using assms(1) by (force simp: filter_empty_conv)
  ultimately show ?thesis by (simp add: steps_of_def)
qed

lemma steps_of_append:
  assumes "\<And>i. bit w i \<Longrightarrow> i < k" "k < 64"
  shows "steps_of (w OR 2 ^ k) = steps_of w @ [k]"
proof -
  have "steps_of (w OR 2 ^ k) = filter (bit (w OR 2 ^ k)) [0..<Suc k]"
    using assms by (intro steps_of_below) (auto simp: less_Suc_eq)
  moreover have "filter (bit (w OR 2 ^ k)) [0..<k] = filter (bit w) [0..<k]"
    using assms(2) by (intro filter_cong) auto
  ultimately show ?thesis using steps_of_below [of w k] assms by simp
qed

lemma steps_of_cons:
  assumes "\<And>i. bit w i \<Longrightarrow> k < i" "k < 64"
  shows "steps_of (w OR 2 ^ k) = k # steps_of w"
proof -
  have below: "\<not> bit w i" if "i \<le> k" for i using assms(1) that by force
  have "filter (bit (w OR 2 ^ k)) [Suc k..<64] = filter (bit w) [Suc k..<64]"
    using assms(2) by (intro filter_cong) auto
  moreover have "filter (bit w) [0..<k] = []" "filter (bit (w OR 2 ^ k)) [0..<k] = []"
    using below assms(2) by (auto simp: filter_empty_conv)
  ultimately show ?thesis
    using below [of k] assms(2) by (simp add: steps_of_def upt_split_at [of k 64])
qed

subsection \<open>The loops against their specification\<close>

lemma compensate_prior_spec:
  assumes "undo_steps cmp (rev (filter (bit applied) [0..<p])) s = (undone, f, s')"
    "\<And>i. bit done i \<Longrightarrow> p \<le> i" "p \<le> 64"
  shows "\<exists>w. compensate_prior cmp applied p done failure s =
      (w, case failure of None \<Rightarrow> f | Some x \<Rightarrow> Some x, s') \<and> steps_of w = rev undone @ steps_of done"
  using assms
proof (induction p arbitrary: "done" failure s undone f)
  case 0
  then show ?case by (auto split: option.splits)
next
  case (Suc p)
  show ?case
  proof (cases "bit applied p")
    case False
    have "\<And>i. bit done i \<Longrightarrow> p \<le> i" using Suc.prems(2) by force
    then show ?thesis
      using Suc.prems(1,3) False Suc.IH [of s undone f "done" failure] by simp
  next
    case True
    obtain r s1 where r: "cmp p s = (r, s1)" by (cases "cmp p s")
    obtain u g where u: "undo_steps cmp (rev (filter (bit applied) [0..<p])) s1 = (u, g, s')"
      using Suc.prems(1) True r
      by (cases "undo_steps cmp (rev (filter (bit applied) [0..<p])) s1") (auto split: sum.splits)
    show ?thesis
    proof (cases r)
      case (Inl e)
      have "\<And>i. bit done i \<Longrightarrow> p \<le> i" using Suc.prems(2) by force
      then show ?thesis
        using Suc.prems True r u Inl
          Suc.IH [OF u, of "done" "case failure of None \<Rightarrow> Some (p, e) | Some f \<Rightarrow> Some f"]
        by (auto split: option.splits)
    next
      case (Inr x)
      have "\<And>i. bit (done OR 2 ^ p) i \<Longrightarrow> p \<le> i" using Suc.prems(2,3) by force
      moreover have "steps_of (done OR 2 ^ p) = p # steps_of done"
        using Suc.prems(2,3) by (intro steps_of_cons) (auto simp: Suc_le_eq)
      ultimately show ?thesis
        using Suc.prems True r u Inr Suc.IH [OF u, of "done OR 2 ^ p" failure] by auto
    qed
  qed
qed

definition saga_outcome :: "(nat \<Rightarrow> 's \<Rightarrow> ('e + unit) \<times> 's) \<Rightarrow> nat list \<Rightarrow>
    nat list \<times> (nat \<times> 'e) option \<times> 's \<Rightarrow>
    (saga_state \<times> nat list \<times> nat list \<times> (nat \<times> 'e) option \<times> (nat \<times> 'e) option) \<times> 's" where
  "saga_outcome cmp earlier t = (case t of
     (done, None, s) \<Rightarrow> ((SagaCommitted, earlier @ done, [], None, None), s)
   | (done, Some f, s) \<Rightarrow>
       (let (undone, failure, s) = undo_steps cmp (rev (earlier @ done)) s
        in ((if failure = None then SagaCompensated else SagaRecoveryRequired,
             earlier @ done, rev undone, Some f, failure), s)))"

lemma saga_spec_outcome: "saga_spec app cmp n s = saga_outcome cmp [] (attempt app [0..<n] s)"
  by (simp add: saga_spec_def saga_outcome_def split: prod.splits option.splits)

lemma saga_compensate_spec:
  assumes "\<And>i. bit applied i \<Longrightarrow> i < step" "step \<le> 64"
  shows "apfst report_abs (saga_compensate cmp (\<lambda>_ s. s) applied step e s) =
    saga_outcome cmp (steps_of applied) ([], Some (step, e), s)"
proof -
  obtain undone f s' where u: "undo_steps cmp (rev (steps_of applied)) s = (undone, f, s')"
    by (cases "undo_steps cmp (rev (steps_of applied)) s")
  then have "\<exists>w. compensate_prior cmp applied step 0 None s = (w, f, s')
      \<and> steps_of w = rev undone @ steps_of 0"
    using compensate_prior_spec [of cmp applied step s undone f s' 0 None]
      steps_of_below [of applied step] assms by simp
  then show ?thesis
    using u by (auto simp: saga_compensate_def saga_outcome_def report_abs_def)
qed

lemma saga_outcome_cons:
  "saga_outcome cmp earlier (k # ds, f, s) = saga_outcome cmp (earlier @ [k]) (ds, f, s)"
  by (cases f) (simp_all add: saga_outcome_def)

lemma saga_apply_spec:
  assumes "\<And>i. bit applied i \<Longrightarrow> i < k" "n \<le> 64"
  shows "apfst report_abs (saga_apply app cmp (\<lambda>_ s. s) [k..<n] applied s) =
    saga_outcome cmp (steps_of applied) (attempt app [k..<n] s)"
  using assms
proof (induction "n - k" arbitrary: k applied s)
  case 0
  then show ?case by (simp add: report_abs_def saga_outcome_def)
next
  case (Suc d)
  then have k: "[k..<n] = k # [Suc k..<n]" "k < 64" by (simp_all add: upt_conv_Cons)
  obtain r s1 where r: "app k s = (r, s1)" by (cases "app k s")
  obtain ds g s2 where a: "attempt app [Suc k..<n] s1 = (ds, g, s2)"
    by (cases "attempt app [Suc k..<n] s1")
  have later: "\<And>i. bit applied i \<Longrightarrow> i < Suc k" "\<And>i. bit (applied OR 2 ^ k) i \<Longrightarrow> i < Suc k"
    using Suc.prems(1) k(2) by (auto dest: less_SucI)
  have d: "d = n - Suc k" using Suc.hyps(2) by simp
  consider (err) e where "r = Inl e" | (app) "r = Inr StepApplied" | (noop) "r = Inr StepNoOp"
    by (metis saga_step.exhaust sum.exhaust)
  then show ?case
  proof cases
    case err
    then show ?thesis
      using saga_compensate_spec [of applied k cmp e s1] Suc.prems(1) k r by simp
  next
    case app
    then show ?thesis
      using Suc.hyps(1) [of "Suc k" "applied OR 2 ^ k" s1, OF d later(2) Suc.prems(2)] k r a
        steps_of_append [of applied k] Suc.prems(1) by (simp add: saga_outcome_cons)
  next
    case noop
    then show ?thesis using Suc.hyps(1) [OF d later(1) Suc.prems(2), where s = s1] k r a by simp
  qed
qed

text \<open>
  C4: The coordinator with its two 64-bit words refines the specification over lists: every step runs
  in order until the first error, and then exactly the steps that had mutated something are
  undone, the last one first, whatever the earlier undoings answered. The report is read from
  those lists, and more than 64 steps are refused with no step run.
\<close>

theorem saga_refines_spec:
  "apfst report_abs (run_saga n app cmp s) =
     (if n \<le> MAX_SAGA_STEPS then saga_spec app cmp n s else ((SagaRejected n, [], [], None, None), s))"
  using saga_apply_spec [of 0 0 n app cmp s]
  by (auto simp: run_saga_def run_saga_observed_def MAX_SAGA_STEPS_def saga_spec_outcome report_abs_def)

subsection \<open>The observed states\<close>

text \<open>The transitions between the observed states that the diagram of the coordinator has.\<close>

inductive saga_next :: "saga_state \<Rightarrow> saga_state \<Rightarrow> bool" where
  reject: "saga_next SagaReady (SagaRejected n)"
| start: "saga_next SagaReady (SagaApplying 0)"
| empty: "saga_next SagaReady SagaCommitted"
| advance: "saga_next (SagaApplying k) (SagaApplying (Suc k))"
| commit: "saga_next (SagaApplying k) SagaCommitted"
| fail: "saga_next (SagaApplying k) (SagaCompensating k)"
| compensated: "saga_next (SagaCompensating k) SagaCompensated"
| recovery: "saga_next (SagaCompensating k) SagaRecoveryRequired"

fun saga_path :: "saga_state list \<Rightarrow> bool" where
  "saga_path (a # b # xs) \<longleftrightarrow> saga_next a b \<and> saga_path (b # xs)"
| "saga_path _ \<longleftrightarrow> True"

text \<open>An observer that writes each state down, beside closures that do not see what it wrote.\<close>

definition log_state :: "saga_state \<Rightarrow> 's \<times> saga_state list \<Rightarrow> 's \<times> saga_state list" where
  "log_state st p = (fst p, snd p @ [st])"

definition unlogged :: "(nat \<Rightarrow> 's \<Rightarrow> 'r \<times> 's) \<Rightarrow> nat \<Rightarrow> 's \<times> saga_state list \<Rightarrow>
    'r \<times> 's \<times> saga_state list" where
  "unlogged f i p = (let (r, s) = f i (fst p) in (r, s, snd p))"

lemma saga_path_snoc: "xs \<noteq> [] \<Longrightarrow> saga_path (xs @ [x]) \<longleftrightarrow> saga_path xs \<and> saga_next (last xs) x"
  by (induction xs rule: saga_path.induct) auto

lemma saga_path_snoc2:
  "xs \<noteq> [] \<Longrightarrow>
     saga_path (xs @ [x, y]) \<longleftrightarrow> saga_path xs \<and> saga_next (last xs) x \<and> saga_next x y"
  using saga_path_snoc [of xs x] saga_path_snoc [of "xs @ [x]" y] by auto

lemma compensate_logged:
  "compensate_prior (unlogged cmp) applied p done failure (s, tr) =
     (let (d, f, s') = compensate_prior cmp applied p done failure s in (d, f, s', tr))"
  by (induction p arbitrary: "done" failure s)
    (auto simp: unlogged_def Let_def split: prod.splits sum.splits option.splits)

lemma saga_apply_logged:
  assumes "saga_path tr" "tr \<noteq> []"
    "last tr = (if k = 0 then SagaReady else SagaApplying (k - 1))"
    "saga_apply (unlogged app) (unlogged cmp) log_state [k..<n] applied (s, tr) = (r, s', tr')"
  shows "saga_path tr' \<and> hd tr' = hd tr \<and> tr' \<noteq> [] \<and> last tr' = sr_state r"
  using assms
proof (induction "n - k" arbitrary: k applied s tr)
  case 0
  then show ?case
    by (auto simp: log_state_def saga_path_snoc hd_append intro: saga_next.intros split: if_splits)
next
  case (Suc d)
  then have k: "[k..<n] = k # [Suc k..<n]" by (simp add: upt_conv_Cons)
  define tr1 where "tr1 = tr @ [SagaApplying k]"
  have tr: "saga_path tr1" "tr1 \<noteq> []" "hd tr1 = hd tr" "last tr1 = SagaApplying k"
    unfolding tr1_def using Suc.prems(1-3) saga_next.start saga_next.advance [of "k - 1"]
    by (auto simp: saga_path_snoc hd_append split: if_splits)
  obtain a s1 where a: "app k s = (a, s1)" by (cases "app k s")
  note IH = Suc.hyps(1) [of "Suc k" tr1]
  show ?case
  proof (cases a)
    case (Inr x)
    then show ?thesis
      using IH Suc.prems(4) Suc.hyps(2) tr k a
      by (cases x) (force simp: unlogged_def log_state_def tr1_def [symmetric])+
  next
    case (Inl e)
    show ?thesis
      using Suc.prems(4) Inl k a tr
      by (auto simp: unlogged_def log_state_def tr1_def [symmetric] saga_compensate_def compensate_logged Let_def
            saga_path_snoc2 intro: saga_next.intros split: prod.splits if_splits)
  qed
qed

text \<open>
  What an observer sees is a path of the coordinator's diagram: it starts in the ready state,
  every two consecutive states are a transition, and the last one is the state of the report.
\<close>

theorem saga_trace_path:
  assumes "run_saga_observed n (unlogged app) (unlogged cmp) log_state (s, []) = (r, s', tr)"
  shows "saga_path tr \<and> hd tr = SagaReady \<and> last tr = sr_state r"
proof (cases "MAX_SAGA_STEPS < n")
  case True
  then show ?thesis
    using assms by (auto simp: run_saga_observed_def log_state_def intro: saga_next.intros)
next
  case False
  then have "saga_apply (unlogged app) (unlogged cmp) log_state [0..<n] 0 (s, [SagaReady]) = (r, s', tr)"
    using assms by (simp add: run_saga_observed_def log_state_def)
  from saga_apply_logged [OF _ _ _ this] show ?thesis by simp
qed

text \<open>Three steps on a counter: the last one is refused and the two earlier ones are taken back.\<close>

definition demo_apply :: "nat \<Rightarrow> nat list \<Rightarrow> (string + saga_step) \<times> nat list" where
  "demo_apply i s = (if i = 2 then (Inl ''refused'', s) else (Inr StepApplied, i # s))"

definition demo_undo :: "nat \<Rightarrow> nat list \<Rightarrow> (string + unit) \<times> nat list" where
  "demo_undo i s = (Inr (), removeAll i s)"

lemma saga_trace_path_witness:
  "saga_path [SagaReady, SagaApplying 0, SagaApplying 1, SagaApplying 2, SagaCompensating 2, SagaCompensated]"
proof -
  let ?r = "\<lparr> sr_state = SagaCompensated, sr_applied_steps = 3, sr_compensated_steps = 3,
    sr_apply_failure = Some (2, ''refused''), sr_compensation_failure = None \<rparr>"
  have "run_saga_observed 3 (unlogged demo_apply) (unlogged demo_undo) log_state ([], []) =
    (?r, [], [SagaReady, SagaApplying 0, SagaApplying 1, SagaApplying 2, SagaCompensating 2, SagaCompensated])"
    by code_simp
  from saga_trace_path [OF this] show ?thesis by simp
qed

subsection \<open>The freeze\<close>

text \<open>
  The freeze on every branch. A failed preparation stops it before the stop is asked for; a
  failed stop calls the restore exactly when the preparation had mutated something, and the
  report asks for recovery exactly when that restore failed.
\<close>

theorem freeze_saga_exact:
  "run_freeze_saga prepare stop restore s =
     (case prepare s of
        (Inl e, s) \<Rightarrow> (\<lparr> sr_state = SagaCompensated, sr_applied_steps = 0, sr_compensated_steps = 0,
           sr_apply_failure = Some (0, e), sr_compensation_failure = None \<rparr>, s)
      | (Inr prepared, s) \<Rightarrow>
          (let bits = if prepared then 1 else 0 in
           case stop s of
             (Inr _, s) \<Rightarrow> (\<lparr> sr_state = SagaCommitted, sr_applied_steps = bits + 2,
                sr_compensated_steps = 0, sr_apply_failure = None, sr_compensation_failure = None \<rparr>, s)
           | (Inl e, s) \<Rightarrow>
               (case if prepared then restore s else (Inr (), s) of
                  (Inr _, s) \<Rightarrow> (\<lparr> sr_state = SagaCompensated, sr_applied_steps = bits,
                     sr_compensated_steps = bits, sr_apply_failure = Some (1, e),
                     sr_compensation_failure = None \<rparr>, s)
                | (Inl e', s) \<Rightarrow> (\<lparr> sr_state = SagaRecoveryRequired, sr_applied_steps = bits,
                     sr_compensated_steps = 0, sr_apply_failure = Some (1, e),
                     sr_compensation_failure = Some (0, e') \<rparr>, s))))"
  by (auto simp: run_freeze_saga_def run_saga_def run_saga_observed_def MAX_SAGA_STEPS_def
        numeral_2_eq_2 saga_compensate_def Let_def split: prod.splits sum.splits)

end
