(* ===== verification/Host_Calls.thy ===== *)
theory Host_Calls
  imports Mach_Qos Root_Action
begin

text \<open>
  The wrappers of operating system calls that the mediated effects use beside those of
  \<open>Mach_Qos\<close> and \<open>Jetsam_Control\<close>: process identity (\<open>engine/process_identity.rs\<close>), typed
  sysctl access (\<open>engine/sysctl_direct.rs\<close>), the purgeable walk of
  \<open>engine/compressor_aware.rs\<close>, and the port count and the affinity tag of
  \<open>engine/mach_qos.rs\<close>. The calls themselves are functions of a \<open>host\<close> over a world \<open>'w\<close>. A
  read of a sysctl returns the code, the size it reports and the bytes it wrote; text from the
  kernel is the string of its bytes.
\<close>

record 'w host =
  h_kernel :: "'w kernel"
  h_kill :: "u32 \<Rightarrow> i32 \<Rightarrow> 'w \<Rightarrow> i32 \<times> 'w"
  h_unix_secs :: "'w \<Rightarrow> u64 option"
  h_bsdinfo :: "u32 \<Rightarrow> 'w \<Rightarrow> i32 \<times> u64 \<times> u64"
  h_proc_name :: "u32 \<Rightarrow> 'w \<Rightarrow> i32 \<times> string"
  h_port_names :: "u32 \<Rightarrow> 'w \<Rightarrow> i32 \<times> u32 list \<times> u32 list \<times> 'w"
  h_self_pid :: u32
  h_self_task :: u32
  h_vm_region :: "u32 \<Rightarrow> u64 \<Rightarrow> 'w \<Rightarrow> (u64 \<times> u64 \<times> u8 \<times> u32) option"
  h_purgable_control :: "u32 \<Rightarrow> u64 \<Rightarrow> 'w \<Rightarrow> i32 \<times> 'w"
  h_sysctl_size :: "string \<Rightarrow> 'w \<Rightarrow> i32 \<times> nat"
  h_sysctl_read :: "string \<Rightarrow> nat \<Rightarrow> 'w \<Rightarrow> i32 \<times> nat \<times> u8 list"
  h_sysctl_write :: "string \<Rightarrow> u8 list \<Rightarrow> 'w \<Rightarrow> i32 \<times> 'w"

subsection \<open>Process identity\<close>

record process_identity =
  pid_of :: u32
  pid_start_sec :: u64
  pid_start_usec :: u64
  pid_name :: string

definition proc_name_for_pid :: "'w host \<Rightarrow> u32 \<Rightarrow> 'w \<Rightarrow> string option" where
  "proc_name_for_pid H pid w =
     (let (ret, name) = h_proc_name H pid w in if ret \<le> 0 then None else Some name)"

definition from_pid :: "'w host \<Rightarrow> u32 \<Rightarrow> 'w \<Rightarrow> process_identity option" where
  "from_pid H pid w =
     (let (ret, sec, usec) = h_bsdinfo H pid w in
      if ret \<le> 0 then None
      else Some \<lparr> pid_of = pid, pid_start_sec = sec, pid_start_usec = usec,
                  pid_name = (case proc_name_for_pid H pid w of Some n \<Rightarrow> n | None \<Rightarrow> []) \<rparr>)"

definition is_still_valid :: "'w host \<Rightarrow> process_identity \<Rightarrow> 'w \<Rightarrow> bool" where
  "is_still_valid H i w =
     (case from_pid H (pid_of i) w of
        Some current \<Rightarrow> pid_start_sec current = pid_start_sec i \<and> pid_start_usec current = pid_start_usec i
      | None \<Rightarrow> False)"

definition starts_with :: "string \<Rightarrow> string \<Rightarrow> bool" where
  "starts_with s pre \<longleftrightarrow> take (length pre) s = pre"

definition identity_matches :: "process_identity \<Rightarrow> string option \<Rightarrow> u64 \<Rightarrow> u64 \<Rightarrow> bool" where
  "identity_matches i expected_name start_sec start_usec =
     (if 0 < start_sec \<and> pid_start_sec i \<noteq> start_sec then False
      else if 0 < start_sec \<and> 0 < start_usec \<and> pid_start_usec i \<noteq> start_usec then False
      else case expected_name of
          None \<Rightarrow> True
        | Some expected \<Rightarrow> pid_name i = expected
            \<or> (6 \<le> length (pid_name i) \<and> starts_with expected (pid_name i))
            \<or> (6 \<le> length expected \<and> starts_with (pid_name i) expected))"

definition verify_identity :: "'w host \<Rightarrow> u32 \<Rightarrow> string option \<Rightarrow> u64 \<Rightarrow> u64 \<Rightarrow> 'w \<Rightarrow> bool" where
  "verify_identity H pid expected_name start_sec start_usec w =
     (case from_pid H pid w of
        Some i \<Rightarrow> identity_matches i expected_name start_sec start_usec
      | None \<Rightarrow> False)"

subsection \<open>Sysctl access\<close>

text \<open>Native integers are little-endian; a value written past the end of a buffer is cut.\<close>

fun from_le :: "u8 list \<Rightarrow> nat" where
  "from_le [] = 0"
| "from_le (b # bs) = unat b + 256 * from_le bs"

fun to_le :: "nat \<Rightarrow> int \<Rightarrow> u8 list" where
  "to_le 0 v = []"
| "to_le (Suc n) v = word_of_int v # to_le n (v div 256)"

definition is_i32 :: "int \<Rightarrow> bool" where
  "is_i32 x \<longleftrightarrow> - (2 ^ 31) \<le> x \<and> x < 2 ^ 31"

definition read_fixed :: "'w host \<Rightarrow> string \<Rightarrow> nat \<Rightarrow> 'w \<Rightarrow> nat option" where
  "read_fixed H key n w =
     (if CHR 0x00 \<in> set key then None
      else let (ret, _, bytes) = h_sysctl_read H key n w in
        if ret \<noteq> 0 then None else Some (from_le (take n (bytes @ replicate n 0))))"

definition read_i32 :: "'w host \<Rightarrow> string \<Rightarrow> 'w \<Rightarrow> i32 option" where
  "read_i32 H key w = map_option (\<lambda>v. signed_take_bit 31 (int v)) (read_fixed H key 4 w)"

definition read_u64 :: "'w host \<Rightarrow> string \<Rightarrow> 'w \<Rightarrow> u64 option" where
  "read_u64 H key w = map_option word_of_nat (read_fixed H key 8 w)"

definition read_i64 :: "'w host \<Rightarrow> string \<Rightarrow> 'w \<Rightarrow> i64 option" where
  "read_i64 H key w = map_option (\<lambda>v. signed_take_bit 63 (int v)) (read_fixed H key 8 w)"

definition read_u32_val :: "'w host \<Rightarrow> string \<Rightarrow> 'w \<Rightarrow> u32 option" where
  "read_u32_val H key w = map_option word_of_int (read_i32 H key w)"

datatype numeric_width = WidthI32 | WidthI64

definition read_numeric :: "'w host \<Rightarrow> string \<Rightarrow> 'w \<Rightarrow> (i64 \<times> numeric_width) option" where
  "read_numeric H key w =
     (if CHR 0x00 \<in> set key then None
      else let (ret, sz) = h_sysctl_size H key w in
        if ret \<noteq> 0 then None
        else if sz = 4 then map_option (\<lambda>v. (v, WidthI32)) (read_i32 H key w)
        else if sz = 8 then map_option (\<lambda>v. (v, WidthI64)) (read_i64 H key w)
        else None)"

text \<open>
  \<open>String::from_utf8\<close>: one character and its length, with the shortest form required, no
  surrogate and nothing above \<open>0x10FFFF\<close>.
\<close>

definition utf8_tail :: "nat \<Rightarrow> bool" where
  "utf8_tail b \<longleftrightarrow> 0x80 \<le> b \<and> b < 0xC0"

definition utf8_char :: "nat \<Rightarrow> nat list \<Rightarrow> (nat \<times> nat) option" where
  "utf8_char b bs =
     (if b < 0x80 then Some (b, 0)
      else if 0xC2 \<le> b \<and> b < 0xE0 then
        (case bs of
           c # _ \<Rightarrow> if utf8_tail c then Some ((b - 0xC0) * 64 + (c - 0x80), 1) else None
         | _ \<Rightarrow> None)
      else if 0xE0 \<le> b \<and> b < 0xF0 then
        (case bs of
           c # d # _ \<Rightarrow> let v = (b - 0xE0) * 4096 + (c - 0x80) * 64 + (d - 0x80) in
             if utf8_tail c \<and> utf8_tail d \<and> 0x800 \<le> v \<and> \<not> (0xD800 \<le> v \<and> v < 0xE000)
             then Some (v, 2) else None
         | _ \<Rightarrow> None)
      else if 0xF0 \<le> b \<and> b < 0xF5 then
        (case bs of
           c # d # e # _ \<Rightarrow>
             let v = (b - 0xF0) * 262144 + (c - 0x80) * 4096 + (d - 0x80) * 64 + (e - 0x80) in
             if utf8_tail c \<and> utf8_tail d \<and> utf8_tail e \<and> 0x10000 \<le> v \<and> v < 0x110000
             then Some (v, 3) else None
         | _ \<Rightarrow> None)
      else None)"

fun utf8_decode :: "nat list \<Rightarrow> nat list option" where
  "utf8_decode [] = Some []"
| "utf8_decode (b # bs) =
     (case utf8_char b bs of
        None \<Rightarrow> None
      | Some (v, n) \<Rightarrow> map_option (Cons v) (utf8_decode (drop n bs)))"

definition unicode_space :: "nat \<Rightarrow> bool" where
  "unicode_space v \<longleftrightarrow> (0x09 \<le> v \<and> v \<le> 0x0D) \<or> (0x2000 \<le> v \<and> v \<le> 0x200A) \<or>
     v \<in> {0x20, 0x85, 0xA0, 0x1680, 0x2028, 0x2029, 0x202F, 0x205F, 0x3000}"

definition utf8_trim :: "nat list \<Rightarrow> nat list" where
  "utf8_trim cs = rev (dropWhile unicode_space (rev (dropWhile unicode_space cs)))"

definition printable_text :: "u8 list \<Rightarrow> string option" where
  "printable_text bytes =
     (case utf8_decode (map unat (takeWhile (\<lambda>b. b \<noteq> 0) bytes)) of
        None \<Rightarrow> None
      | Some cs \<Rightarrow> let trimmed = utf8_trim cs in
          if trimmed \<noteq> [] \<and> list_all (\<lambda>c. 0x20 \<le> c \<and> c \<le> 0x7E) trimmed
          then Some (map char_of trimmed) else None)"

definition read_str :: "'w host \<Rightarrow> string \<Rightarrow> 'w \<Rightarrow> string option" where
  "read_str H key w =
     (if CHR 0x00 \<in> set key then None
      else let (ret, sz) = h_sysctl_size H key w in
        if ret \<noteq> 0 \<or> sz = 0 then None
        else let (ret, sz', bytes) = h_sysctl_read H key sz w in
          if ret \<noteq> 0 then None
          else let raw = take sz' (take sz (bytes @ replicate sz 0)) in
            case printable_text raw of
              Some t \<Rightarrow> Some t
            | None \<Rightarrow>
                if 4 \<le> length raw \<and> sz' = 4
                then Some (i64_to_string (signed_take_bit 31 (int (from_le (take 4 raw)))))
                else if 8 \<le> length raw \<and> sz' = 8
                then Some (i64_to_string (signed_take_bit 63 (int (from_le (take 8 raw)))))
                else None)"

definition write_raw :: "'w host \<Rightarrow> string \<Rightarrow> u8 list \<Rightarrow> 'w \<Rightarrow> bool \<times> 'w" where
  "write_raw H key bytes w =
     (if CHR 0x00 \<in> set key then (False, w)
      else let (ret, w) = h_sysctl_write H key bytes w in (ret = 0, w))"

definition write_i32 :: "'w host \<Rightarrow> string \<Rightarrow> i32 \<Rightarrow> 'w \<Rightarrow> bool \<times> 'w" where
  "write_i32 H key v w = write_raw H key (to_le 4 v) w"

definition write_i64 :: "'w host \<Rightarrow> string \<Rightarrow> i64 \<Rightarrow> 'w \<Rightarrow> bool \<times> 'w" where
  "write_i64 H key v w = write_raw H key (to_le 8 v) w"

definition write_numeric :: "'w host \<Rightarrow> string \<Rightarrow> i64 \<Rightarrow> numeric_width \<Rightarrow> 'w \<Rightarrow> bool \<times> 'w" where
  "write_numeric H key v width w =
     (case width of
        WidthI32 \<Rightarrow> if is_i32 v then write_i32 H key v w else (False, w)
      | WidthI64 \<Rightarrow> write_i64 H key v w)"

text \<open>\<open>str::parse::<i32>\<close> accepts what the 64-bit parse accepts and the range keeps.\<close>

definition parse_i32 :: "string \<Rightarrow> i32 option" where
  "parse_i32 s = (case parse_i64 s of Some n \<Rightarrow> if is_i32 n then Some n else None | None \<Rightarrow> None)"

definition write_str_value :: "'w host \<Rightarrow> string \<Rightarrow> string \<Rightarrow> 'w \<Rightarrow> bool \<times> 'w" where
  "write_str_value H key value w =
     (case parse_i32 value of
        Some n \<Rightarrow> write_i32 H key n w
      | None \<Rightarrow>
          (case parse_i64 value of
             Some n \<Rightarrow> write_raw H key (to_le 8 n) w
           | None \<Rightarrow> write_raw H key (map of_char value) w))"

subsection \<open>Ports and affinity\<close>

text \<open>
  The arrays of \<open>mach_port_names\<close> are the lists of names and types; a null pointer is the empty
  list, and releasing an array of the given length does not change which rights are held.
\<close>

definition get_mach_port_count :: "'w host \<Rightarrow> u32 \<Rightarrow> 'w \<Rightarrow> u32 option \<times> 'w" where
  "get_mach_port_count H pid w =
     (let K = h_kernel H; (kr, task, w) = k_task_for_pid K pid w in
      if kr \<noteq> KERN_SUCCESS \<or> task = MACH_PORT_NULL then (None, w)
      else let (kr, names, types, w) = h_port_names H task w;
               w = k_port_deallocate K task w in
        if kr \<noteq> KERN_SUCCESS then (None, w)
        else let w = (if names = [] then w else k_vm_deallocate K names w);
                 w = (if types = [] then w else k_vm_deallocate K types w)
          in (Some (word_of_nat (length names)), w))"

definition THREAD_AFFINITY_POLICY :: i32 where "THREAD_AFFINITY_POLICY = 4"

definition set_thread_affinity_tag :: "'w kernel \<Rightarrow> u32 \<Rightarrow> u32 \<Rightarrow> u32 \<Rightarrow> mach_qos_manager \<Rightarrow> 'w \<Rightarrow>
    bool \<times> 'w" where
  "set_thread_affinity_tag K pid idx tag m w =
     (if is_blocked m pid then (True, w)
      else let (kr, port, w) = k_task_for_pid K pid w in
        if kr \<noteq> KERN_SUCCESS then (False, w)
        else let (kr, threads, w) = k_task_threads K port w;
                 w = k_port_deallocate K port w in
          if kr \<noteq> KERN_SUCCESS \<or> length threads \<le> unat idx
          then (False, release_thread_list K threads w)
          else let (kr_aff, w) = k_thread_policy_set K (threads ! unat idx) THREAD_AFFINITY_POLICY
                                   [sint tag] w
            in (kr_aff = KERN_SUCCESS, release_thread_list K threads w))"

subsection \<open>The purgeable walk\<close>

definition SM_PRIVATE :: u8 where "SM_PRIVATE = 1"

text \<open>
  The loop over the regions of a task, from an address up. Nothing in the code bounds it, so a
  walk that never ends is \<open>None\<close>.
\<close>

partial_function (option) purge_regions :: "'w host \<Rightarrow> u32 \<Rightarrow> u64 \<Rightarrow> u32 \<Rightarrow> 'w \<Rightarrow> (u32 \<times> 'w) option" where
  "purge_regions H task address purged w =
     (case h_vm_region H task address w of
        None \<Rightarrow> Some (purged, w)
      | Some (start, sz, share_mode, private_resident) \<Rightarrow>
          (let (purged, w) =
             (if share_mode = SM_PRIVATE \<and> 0 < private_resident
              then let (kr, w) = h_purgable_control H task start w
                in (if kr = KERN_SUCCESS then purged + 1 else purged, w)
              else (purged, w)) in
           if start + sz = 0 then Some (purged, w)
           else purge_regions H task (start + sz) purged w))"

definition purge_purgeable_regions :: "'w host \<Rightarrow> u32 \<Rightarrow> 'w \<Rightarrow> (u32 option \<times> 'w) option" where
  "purge_purgeable_regions H pid w =
     (if pid = h_self_pid H
      then map_option (\<lambda>(n, w). (Some n, w)) (purge_regions H (h_self_task H) 0 0 w)
      else let (kr, port, w) = k_task_for_pid (h_kernel H) pid w in
        if kr \<noteq> KERN_SUCCESS then Some (None, w)
        else map_option (\<lambda>(n, w). (Some n, k_port_deallocate (h_kernel H) port w))
               (purge_regions H port 0 0 w))"

subsection \<open>Facts of the wrappers\<close>

lemma from_le_bound: "from_le bs < 256 ^ length bs"
proof (induction bs)
  case (Cons b bs)
  have "unat b < 256" using unat_bound [of b] by simp
  then show ?case using Cons by simp
qed simp

lemma from_to_le: "int (from_le (to_le n v)) = v mod 256 ^ n"
proof (induction n arbitrary: v)
  case (Suc n)
  have "v mod (256 * 256 ^ n) = v mod 256 + 256 * (v div 256 mod 256 ^ n)"
    by (simp add: zmod_zmult2_eq)
  then show ?case using Suc by (simp add: unat_eq_nat_uint uint_word_of_int)
qed simp

lemma length_to_le [simp]: "length (to_le n v) = n"
  by (induction n arbitrary: v) simp_all

lemma i32_le_roundtrip: "signed_take_bit 31 (int (from_le (to_le 4 v))) = v" if "is_i32 v"
proof -
  have "int (from_le (to_le 4 v)) = take_bit 32 v" by (simp add: from_to_le take_bit_eq_mod)
  then show ?thesis
    using that by (simp add: signed_take_bit_take_bit signed_take_bit_int_eq_self is_i32_def)
qed

lemma write_str_value_decimal:
  assumes "is_i64 v"
  shows "write_str_value H key (i64_to_string v) w =
    write_raw H key (to_le (if is_i32 v then 4 else 8) v) w"
  using assms by (simp add: write_str_value_def parse_i32_def write_i32_def)

text \<open>The rights are as they were when the port count has been read.\<close>

definition host_rules :: "'w host \<Rightarrow> ('w \<Rightarrow> u32 multiset) \<Rightarrow> bool" where
  "host_rules H held \<longleftrightarrow> port_rules (h_kernel H) held \<and>
     (\<forall>task w. held (snd (snd (snd (h_port_names H task w)))) = held w)"

lemma port_count_held:
  assumes "host_rules H held"
  shows "held (snd (get_mach_port_count H pid w)) = held w"
proof -
  have rules: "port_rules (h_kernel H) held" "\<And>task w. held (snd (snd (snd (h_port_names H task w)))) = held w"
    using assms by (auto simp: host_rules_def)
  show ?thesis
    using port_rulesD [OF rules(1)] rules(2)
    by (auto simp: get_mach_port_count_def Let_def case_prod_unfold rights_def)
qed

lemma affinity_tag_held:
  assumes "port_rules K held"
  shows "held (snd (set_thread_affinity_tag K pid idx tag m w)) = held w"
  using port_rulesD [OF assms] release_threads_held [OF assms]
  by (simp add: set_thread_affinity_tag_def Let_def case_prod_unfold)

text \<open>
  \<open>mach_vm_region\<close> is documented to answer with the region that contains the address, or, where
  none does, with the first region after it. Either way the region ends after the address, and it
  ends within the address space; its start may lie below the address.
\<close>

definition region_rules :: "'w host \<Rightarrow> bool" where
  "region_rules H \<longleftrightarrow> (\<forall>task a w start sz sm n. h_vm_region H task a w = Some (start, sz, sm, n) \<longrightarrow>
     unat a < unat start + unat sz \<and> unat start + unat sz \<le> 2 ^ 64)"

lemma region_advances:
  assumes "region_rules H" "h_vm_region H task a w = Some (start, sz, sm, n)" "start + sz \<noteq> 0"
  shows "unat a < unat (start + sz)"
proof -
  have r: "unat a < unat start + unat sz" "unat start + unat sz \<le> 2 ^ 64"
    using assms(1) [unfolded region_rules_def, rule_format, OF assms(2)] by simp_all
  have "unat (start + sz) \<noteq> 0" using assms(3) by (simp add: unat_eq_zero)
  then have "unat start + unat sz \<noteq> 2 ^ 64" by (auto simp: unat_word_ariths)
  then have "unat (start + sz) = unat start + unat sz"
    using r(2) by (simp add: unat_word_ariths)
  then show ?thesis using r(1) by simp
qed

lemma purge_regions_returns:
  assumes "region_rules H"
  shows "\<exists>r. purge_regions H task a purged w = Some r"
proof (induction "2 ^ 64 - unat a" arbitrary: a purged w rule: less_induct)
  case less
  show ?case
  proof (cases "h_vm_region H task a w")
    case None
    then show ?thesis by (subst purge_regions.simps) simp
  next
    case (Some r)
    obtain start sz sm n where r: "r = (start, sz, sm, n)" by (cases r)
    show ?thesis
    proof (cases "start + sz = 0")
      case True
      then show ?thesis using Some r
        by (subst purge_regions.simps) (simp add: case_prod_unfold Let_def)
    next
      case False
      have "unat a < unat (start + sz)" using region_advances [OF assms] Some r False by simp
      moreover have "unat (start + sz) < 2 ^ 64" using unat_bound [of "start + sz"] by simp
      ultimately have "2 ^ 64 - unat (start + sz) < 2 ^ 64 - unat a" by linarith
      note IH = less [OF this]
      show ?thesis using Some r False IH
        by (subst purge_regions.simps) (simp add: case_prod_unfold Let_def)
    qed
  qed
qed

subsection \<open>A host to compute with\<close>

text \<open>
  Every process is alive, was started at second 7 and is in the one jetsam band of the world;
  whether a signal is delivered is a switch of the world, a delivered SIGSTOP stops its target,
  and a task has 6000 port names and one private region.
\<close>

record demo_world =
  dw_band :: i32
  dw_delivers :: bool
  dw_held :: "u32 multiset"
  dw_stopped :: "u32 set"

definition demo_kernel :: "demo_world kernel" where
  "demo_kernel = \<lparr> k_now = (\<lambda>_. 0), k_pidpath = (\<lambda>_ _. (4, ''/App'')), k_kill0 = (\<lambda>_ _. 0),
     k_start_time = (\<lambda>_ _. Some (7, 0)),
     k_task_for_pid = (\<lambda>_ w. (0, 77, w\<lparr> dw_held := add_mset 77 (dw_held w) \<rparr>)),
     k_task_policy_set = (\<lambda>_ _ _ w. (0, w)),
     k_port_deallocate = (\<lambda>p w. w\<lparr> dw_held := dw_held w - rights p \<rparr>),
     k_task_threads = (\<lambda>_ w. (5, [], w)), k_vm_deallocate = (\<lambda>_ w. w),
     k_thread_info = (\<lambda>_ _. (5, \<lparr> tbi_user_seconds = 0, tbi_user_microseconds = 0,
        tbi_system_seconds = 0, tbi_system_microseconds = 0, tbi_cpu_usage = 0, tbi_run_state = 0 \<rparr>)),
     k_thread_policy_set = (\<lambda>_ _ _ w. (0, w)), k_setpriority = (\<lambda>_ _ _ w. (0, w)),
     k_memorystatus_set = (\<lambda>_ _ fields w. case fields of prio # _ \<Rightarrow> (0, w\<lparr> dw_band := prio \<rparr>) | [] \<Rightarrow> (- 1, w)),
     k_memorystatus_get = (\<lambda>_ pid w. (1, [sint pid, dw_band w])), k_errno = (\<lambda>_. 3) \<rparr>"

definition demo_host :: "demo_world host" where
  "demo_host = \<lparr> h_kernel = demo_kernel, h_kill = (\<lambda>pid sig w. if dw_delivers w
       then (0, if sig = 17 then w\<lparr> dw_stopped := insert pid (dw_stopped w) \<rparr> else w) else (- 1, w)),
     h_unix_secs = (\<lambda>_. Some 1), h_bsdinfo = (\<lambda>_ _. (1, 7, 0)), h_proc_name = (\<lambda>_ _. (1, ''p'')),
     h_port_names = (\<lambda>_ w. (0, replicate 6000 1, replicate 6000 1, w)), h_self_pid = 1, h_self_task = 9,
     h_vm_region = (\<lambda>_ a _. if a < 8192 then Some (4096, 4096, 1, 1) else None),
     h_purgable_control = (\<lambda>_ _ w. (0, w)), h_sysctl_size = (\<lambda>_ _. (- 1, 0)),
     h_sysctl_read = (\<lambda>_ _ _. (- 1, 0, [])), h_sysctl_write = (\<lambda>_ _ w. (- 1, w)) \<rparr>"

definition demo_start :: "bool \<Rightarrow> demo_world" where
  "demo_start delivers = \<lparr> dw_band = 9, dw_delivers = delivers, dw_held = {#}, dw_stopped = {} \<rparr>"

lemma demo_host_rules: "host_rules demo_host dw_held"
  by (auto simp: host_rules_def port_rules_def demo_host_def demo_kernel_def rights_def MACH_PORT_NULL_def
      KERN_SUCCESS_def)

lemma demo_region_rules: "region_rules demo_host"
  by (auto simp: region_rules_def demo_host_def word_less_nat_alt split: if_splits)

end
