(* ===== verification/Action_Mediator.thy ===== *)
theory Action_Mediator
  imports Host_Calls Jetsam_Control
begin

text \<open>
  \<open>engine/mediator.rs\<close> without the saga: the effects, the effectors over the kernel wrappers
  and \<open>mediate\<close>, the one function through which a mutation of the system passes. The state that
  an effector acts on is the world, the QoS manager behind its mutex and the counters of
  \<open>engine/lse_counters.rs\<close> that the mediator raises. An effector is a function of the effect and
  that state; the walk of the purgeable effector may not return, which is \<open>None\<close>. Error texts are
  values with what they print, and the trace line that \<open>mediate\<close> logs is left out.
\<close>

subsection \<open>Effects, receipts and reasons\<close>

datatype sysctl_value = SysI32 i32 | SysI64 i64 | SysStr string

datatype jetsam_tier_kind = KindForeground | KindBackground | KindSuspended | KindIdle | KindExact i32

datatype mach_policy_kind =
  PolicyUserInteractive | PolicyUserInitiated | PolicyDefault | PolicyUtility | PolicyBackground

datatype effect =
    SigStop u32 u64
  | SigCont u32 u64
  | SetSysctlEffect string sysctl_value sysctl_value
  | SetJetsamTier u32 u64 jetsam_tier_kind
  | SetMachPolicy u32 u64 mach_policy_kind
  | SetThreadPolicy u32 u64 u32 thread_tier "u32 option"
  | PurgeHint u32 u64 u64
  | FileWrite string bool u64

record pre_condition =
  pc_pid_identity :: "(u32 \<times> u64) option"
  pc_min_memory_pressure :: "f64 option"
  pc_require_not_protected :: bool
  pc_require_jetsam_tier :: "jetsam_tier_kind option"

definition pre_condition_default :: pre_condition where
  "pre_condition_default = \<lparr> pc_pid_identity = None, pc_min_memory_pressure = None,
     pc_require_not_protected = False, pc_require_jetsam_tier = None \<rparr>"

datatype violated =
    UnsupportedVariant string
  | SysctlNotExpected string
  | PortHubProtection u32 u32 scheduling_tier
  | ThreadQosRefused

datatype os_context =
    KillContext u32 i32
  | SysctlWriteContext string
  | JetsamContext u32 i32 jetsam_error

datatype mediator_block =
    IdentityMismatch u32 u64
  | PreconditionViolated violated
  | ProcessProtected string
  | NoOpDetected
  | OsError i32 os_context
  | BudgetExhausted string
  | GateRejected string

record receipt_snapshot =
  sn_sysctl_value :: "sysctl_value option"
  sn_jetsam_tier :: "jetsam_tier_kind option"
  sn_mach_policy :: "mach_policy_kind option"
  sn_pid_alive :: "bool option"

definition snapshot_default :: receipt_snapshot where
  "snapshot_default = \<lparr> sn_sysctl_value = None, sn_jetsam_tier = None, sn_mach_policy = None,
     sn_pid_alive = None \<rparr>"

record receipt =
  rc_timestamp_unix :: u64
  rc_before :: receipt_snapshot
  rc_after :: receipt_snapshot
  rc_no_op :: bool
  rc_syscall_us :: u64
  rc_applied_count :: u32

record mediator_counters =
  mediator_blocks_total :: u64
  mediator_noop_writes_total :: u64
  mediator_thread_policy_total :: u64
  pid_recycle_blocks_total :: u64
  mediator_port_hub_blocks_total :: u64
  mediator_port_hub_probe_unavailable_total :: u64

definition inc_mediator_block :: "mediator_counters \<Rightarrow> mediator_counters" where
  "inc_mediator_block c = c\<lparr> mediator_blocks_total := mediator_blocks_total c + 1 \<rparr>"

definition inc_mediator_noop_write :: "mediator_counters \<Rightarrow> mediator_counters" where
  "inc_mediator_noop_write c = c\<lparr> mediator_noop_writes_total := mediator_noop_writes_total c + 1 \<rparr>"

definition inc_mediator_thread_policy :: "mediator_counters \<Rightarrow> mediator_counters" where
  "inc_mediator_thread_policy c = c\<lparr> mediator_thread_policy_total := mediator_thread_policy_total c + 1 \<rparr>"

definition inc_pid_recycle_block :: "mediator_counters \<Rightarrow> mediator_counters" where
  "inc_pid_recycle_block c = c\<lparr> pid_recycle_blocks_total := pid_recycle_blocks_total c + 1 \<rparr>"

definition inc_mediator_port_hub_block :: "mediator_counters \<Rightarrow> mediator_counters" where
  "inc_mediator_port_hub_block c =
     c\<lparr> mediator_port_hub_blocks_total := mediator_port_hub_blocks_total c + 1 \<rparr>"

definition inc_mediator_port_hub_probe_unavailable :: "mediator_counters \<Rightarrow> mediator_counters" where
  "inc_mediator_port_hub_probe_unavailable c =
     c\<lparr> mediator_port_hub_probe_unavailable_total := mediator_port_hub_probe_unavailable_total c + 1 \<rparr>"

record 'w mediated =
  md_world :: 'w
  md_qos :: mach_qos_manager
  md_counters :: mediator_counters

type_synonym 'w applied = "(mediator_block + receipt) \<times> 'w mediated"

definition count_with :: "(mediator_counters \<Rightarrow> mediator_counters) \<Rightarrow> 'w mediated \<Rightarrow> 'w mediated" where
  "count_with inc s = s\<lparr> md_counters := inc (md_counters s) \<rparr>"

definition unsupported :: "string \<Rightarrow> 'w mediated \<Rightarrow> 'w applied" where
  "unsupported who s = (Inl (PreconditionViolated (UnsupportedVariant who)), s)"

definition elapsed_us :: "'w host \<Rightarrow> 'w \<Rightarrow> 'w \<Rightarrow> u64" where
  "elapsed_us H w0 w1 =
     word_of_nat (min ((k_now (h_kernel H) w1 - k_now (h_kernel H) w0) div 1000) (2 ^ 64 - 1))"

definition unix_now :: "'w host \<Rightarrow> 'w \<Rightarrow> u64" where
  "unix_now H w = (case h_unix_secs H w of Some t \<Rightarrow> t | None \<Rightarrow> 0)"

definition unit_count :: "bool \<Rightarrow> u32" where
  "unit_count no_op = (if no_op then 0 else 1)"

subsection \<open>The effectors\<close>

definition SIGSTOP :: i32 where "SIGSTOP = 17"
definition SIGCONT :: i32 where "SIGCONT = 19"

fun signal_of :: "effect \<Rightarrow> (u32 \<times> i32) option" where
  "signal_of (SigStop pid _) = Some (pid, SIGSTOP)"
| "signal_of (SigCont pid _) = Some (pid, SIGCONT)"
| "signal_of _ = None"

definition signal_apply :: "'w host \<Rightarrow> effect \<Rightarrow> 'w mediated \<Rightarrow> 'w applied" where
  "signal_apply H eff s =
     (case signal_of eff of
        None \<Rightarrow> unsupported ''SignalEffector'' s
      | Some (pid, sig) \<Rightarrow>
          (let w0 = md_world s;
               before = snapshot_default\<lparr> sn_pid_alive := Some (k_kill0 (h_kernel H) pid w0 = 0) \<rparr>;
               (rc, w1) = h_kill H pid sig w0;
               us = elapsed_us H w0 w1;
               s = s\<lparr> md_world := w1 \<rparr> in
           if rc \<noteq> 0 then (Inl (OsError (k_errno (h_kernel H) w1) (KillContext pid sig)), s)
           else let after = snapshot_default\<lparr> sn_pid_alive := Some (k_kill0 (h_kernel H) pid w1 = 0) \<rparr>;
                    no_op = (sn_pid_alive before = Some False \<and> sn_pid_alive after = Some False)
             in (Inr \<lparr> rc_timestamp_unix = unix_now H w1, rc_before = before, rc_after = after,
                       rc_no_op = no_op, rc_syscall_us = us, rc_applied_count = unit_count no_op \<rparr>, s)))"

definition sysctl_read :: "'w host \<Rightarrow> string \<Rightarrow> sysctl_value \<Rightarrow> 'w \<Rightarrow> sysctl_value option" where
  "sysctl_read H key kind_hint w =
     (case kind_hint of
        SysI32 _ \<Rightarrow> map_option SysI32 (read_i32 H key w)
      | SysI64 _ \<Rightarrow> map_option (\<lambda>v. SysI64 (sint v)) (read_u64 H key w)
      | SysStr _ \<Rightarrow> map_option SysStr (read_str H key w))"

definition sysctl_write :: "'w host \<Rightarrow> string \<Rightarrow> sysctl_value \<Rightarrow> 'w \<Rightarrow> bool \<times> 'w" where
  "sysctl_write H key v w =
     (case v of
        SysI32 n \<Rightarrow> write_i32 H key n w
      | SysI64 n \<Rightarrow> write_str_value H key (i64_to_string n) w
      | SysStr t \<Rightarrow> write_str_value H key t w)"

definition sysctl_apply :: "'w host \<Rightarrow> effect \<Rightarrow> 'w mediated \<Rightarrow> 'w applied" where
  "sysctl_apply H eff s =
     (case eff of
        SetSysctlEffect key v expected_before \<Rightarrow>
          (let w0 = md_world s; live_before = sysctl_read H key v w0 in
           if live_before \<noteq> None \<and> live_before \<noteq> Some expected_before
           then (Inl (PreconditionViolated (SysctlNotExpected key)), s)
           else let (ok, w1) = sysctl_write H key v w0;
                    us = elapsed_us H w0 w1;
                    s = s\<lparr> md_world := w1 \<rparr> in
             if \<not> ok then (Inl (OsError 0 (SysctlWriteContext key)), s)
             else let live_after = sysctl_read H key v w1;
                      no_op = (live_before \<noteq> None \<and> live_after = live_before)
               in (Inr \<lparr> rc_timestamp_unix = unix_now H w1,
                         rc_before = snapshot_default\<lparr> sn_sysctl_value := live_before \<rparr>,
                         rc_after = snapshot_default\<lparr> sn_sysctl_value := live_after \<rparr>,
                         rc_no_op = no_op, rc_syscall_us = us, rc_applied_count = unit_count no_op \<rparr>, s))
      | _ \<Rightarrow> unsupported ''SysctlEffector'' s)"

fun to_priority :: "jetsam_tier_kind \<Rightarrow> i32" where
  "to_priority KindForeground = JETSAM_FOREGROUND"
| "to_priority KindBackground = JETSAM_BACKGROUND"
| "to_priority KindSuspended = JETSAM_BACKGROUND"
| "to_priority KindIdle = JETSAM_BACKGROUND"
| "to_priority (KindExact prio) = prio"

definition jetsam_apply :: "'w host \<Rightarrow> effect \<Rightarrow> 'w mediated \<Rightarrow> 'w applied" where
  "jetsam_apply H eff s =
     (case eff of
        SetJetsamTier pid _ tier \<Rightarrow>
          (let K = h_kernel H; w0 = md_world s;
               before_priority = jetsam_get_priority K pid w0;
               snap = snapshot_default\<lparr> sn_jetsam_tier := Some tier \<rparr>;
               prio = to_priority tier;
               (result, w1) = jetsam_set_priority K pid prio w0;
               us = elapsed_us H w0 w1;
               s = s\<lparr> md_world := w1 \<rparr> in
           case result of
             Inl msg \<Rightarrow> (Inl (OsError 0 (JetsamContext pid prio msg)), s)
           | Inr _ \<Rightarrow>
               (let after_priority = jetsam_get_priority K pid w1;
                    no_op = (before_priority \<noteq> None \<and> after_priority = before_priority)
                in (Inr \<lparr> rc_timestamp_unix = unix_now H w1, rc_before = snap, rc_after = snap,
                          rc_no_op = no_op, rc_syscall_us = us, rc_applied_count = unit_count no_op \<rparr>, s)))
      | _ \<Rightarrow> unsupported ''JetsamEffector'' s)"

definition PORT_HUB_THRESHOLD :: u32 where "PORT_HUB_THRESHOLD = 5000"

fun to_sched_tier :: "mach_policy_kind \<Rightarrow> scheduling_tier" where
  "to_sched_tier PolicyUserInteractive = TierForeground"
| "to_sched_tier PolicyUserInitiated = TierForeground"
| "to_sched_tier PolicyDefault = TierNormal"
| "to_sched_tier PolicyUtility = TierBackground"
| "to_sched_tier PolicyBackground = TierBackground"

fun from_sched_tier :: "scheduling_tier \<Rightarrow> mach_policy_kind" where
  "from_sched_tier TierForeground = PolicyUserInitiated"
| "from_sched_tier TierNormal = PolicyDefault"
| "from_sched_tier TierBackground = PolicyBackground"

definition is_demote_target :: "scheduling_tier \<Rightarrow> bool" where
  "is_demote_target t \<longleftrightarrow> t = TierBackground"

text \<open>The gate in front of a demotion: the refusal, if there is one, and the state after the probe.\<close>

definition port_hub_gate :: "'w host \<Rightarrow> u32 \<Rightarrow> scheduling_tier \<Rightarrow> 'w mediated \<Rightarrow>
    mediator_block option \<times> 'w mediated" where
  "port_hub_gate H pid tier s =
     (if \<not> is_demote_target tier then (None, s)
      else let (ports, w) = get_mach_port_count H pid (md_world s); s = s\<lparr> md_world := w \<rparr> in
        case ports of
          Some n \<Rightarrow> if PORT_HUB_THRESHOLD < n
            then (Some (PreconditionViolated (PortHubProtection pid n tier)),
                  count_with inc_mediator_port_hub_block s)
            else (None, s)
        | None \<Rightarrow> (None, count_with inc_mediator_port_hub_probe_unavailable s))"

definition mach_policy_apply :: "'w host \<Rightarrow> effect \<Rightarrow> 'w mediated \<Rightarrow> 'w applied" where
  "mach_policy_apply H eff s =
     (case eff of
        SetMachPolicy pid _ policy \<Rightarrow>
          (let tier = to_sched_tier policy; w0 = md_world s; (refusal, s) = port_hub_gate H pid tier s in
           case refusal of
             Some b \<Rightarrow> (Inl b, s)
           | None \<Rightarrow>
               (let before = map_option from_sched_tier (current_tier (md_qos s) pid);
                    (out, m, w1) = set_tier (h_kernel H) pid tier (md_qos s) (md_world s);
                    after = map_option from_sched_tier (current_tier m pid);
                    s = s\<lparr> md_world := w1, md_qos := m \<rparr>
                in (Inr \<lparr> rc_timestamp_unix = unix_now H w1,
                          rc_before = snapshot_default\<lparr> sn_mach_policy := before \<rparr>,
                          rc_after = snapshot_default\<lparr> sn_mach_policy := after \<rparr>,
                          rc_no_op = (\<not> qo_mutated out), rc_syscall_us = elapsed_us H w0 w1,
                          rc_applied_count = unit_count (\<not> qo_mutated out) \<rparr>, s)))
      | _ \<Rightarrow> unsupported ''MachPolicyEffector'' s)"

definition thread_apply_raw :: "'w host \<Rightarrow> u32 \<Rightarrow> u32 \<Rightarrow> thread_tier \<Rightarrow> u32 option \<Rightarrow> 'w mediated \<Rightarrow>
    (bool \<times> u64 \<times> u32) \<times> 'w mediated" where
  "thread_apply_raw H pid idx tier affinity_tag s =
     (let K = h_kernel H; w0 = md_world s;
          (ok, m, w) = set_thread_qos K pid idx tier (md_qos s) w0;
          w = (case affinity_tag of
                 Some tag \<Rightarrow> if tag \<noteq> 0 then snd (set_thread_affinity_tag K pid idx tag m w) else w
               | None \<Rightarrow> w);
          s = s\<lparr> md_world := w, md_qos := m \<rparr>
      in ((ok, elapsed_us H w0 w, unit_count (\<not> ok)),
          if ok then count_with inc_mediator_thread_policy s else s))"

definition thread_policy_apply :: "'w host \<Rightarrow> effect \<Rightarrow> 'w mediated \<Rightarrow> 'w applied" where
  "thread_policy_apply H eff s =
     (case eff of
        SetThreadPolicy pid _ idx tier affinity_tag \<Rightarrow>
          (let ((ok, us, n), s) = thread_apply_raw H pid idx tier affinity_tag s in
           if \<not> ok then (Inl (PreconditionViolated ThreadQosRefused), s)
           else (Inr \<lparr> rc_timestamp_unix = unix_now H (md_world s), rc_before = snapshot_default,
                       rc_after = snapshot_default, rc_no_op = False, rc_syscall_us = us,
                       rc_applied_count = n \<rparr>, s))
      | _ \<Rightarrow> unsupported ''ThreadPolicyEffector'' s)"

definition purgeable_apply :: "'w host \<Rightarrow> effect \<Rightarrow> 'w mediated \<Rightarrow> 'w applied option" where
  "purgeable_apply H eff s =
     (case eff of
        PurgeHint pid _ _ \<Rightarrow>
          (case purge_purgeable_regions H pid (md_world s) of
             None \<Rightarrow> None
           | Some (found, w1) \<Rightarrow>
               (let n = (case found of Some n \<Rightarrow> n | None \<Rightarrow> 0)
                in Some (Inr \<lparr> rc_timestamp_unix = unix_now H w1, rc_before = snapshot_default,
                               rc_after = snapshot_default, rc_no_op = (n = 0),
                               rc_syscall_us = elapsed_us H (md_world s) w1, rc_applied_count = n \<rparr>,
                         s\<lparr> md_world := w1 \<rparr>)))
      | _ \<Rightarrow> Some (unsupported ''PurgeableEffector'' s))"

definition file_write_apply :: "'w host \<Rightarrow> effect \<Rightarrow> 'w mediated \<Rightarrow> 'w applied" where
  "file_write_apply H eff s =
     (case eff of
        FileWrite _ _ byte_len \<Rightarrow>
          (Inr \<lparr> rc_timestamp_unix = unix_now H (md_world s), rc_before = snapshot_default,
                 rc_after = snapshot_default, rc_no_op = (byte_len = 0), rc_syscall_us = 0,
                 rc_applied_count = unit_count (byte_len = 0) \<rparr>, s)
      | _ \<Rightarrow> unsupported ''FileWriteEffector'' s)"

subsection \<open>Mediation\<close>

fun effect_target :: "effect \<Rightarrow> u32 option" where
  "effect_target (SigStop pid _) = Some pid"
| "effect_target (SigCont pid _) = Some pid"
| "effect_target (SetJetsamTier pid _ _) = Some pid"
| "effect_target (SetMachPolicy pid _ _) = Some pid"
| "effect_target (SetThreadPolicy pid _ _ _ _) = Some pid"
| "effect_target (PurgeHint pid _ _) = Some pid"
| "effect_target (SetSysctlEffect _ _ _) = None"
| "effect_target (FileWrite _ _ _) = None"

text \<open>The identity guard: the process and the start time that the block names, if it refuses.\<close>

definition identity_guard :: "'w host \<Rightarrow> effect \<Rightarrow> pre_condition \<Rightarrow> 'w \<Rightarrow> (u32 \<times> u64) option" where
  "identity_guard H eff pre w =
     (case pc_pid_identity pre of
        None \<Rightarrow> None
      | Some (expected_pid, expected_start_sec) \<Rightarrow>
          (case effect_target eff of
             None \<Rightarrow> None
           | Some actual_pid \<Rightarrow>
               if actual_pid = expected_pid \<and> verify_identity H actual_pid None expected_start_sec 0 w
               then None else Some (actual_pid, expected_start_sec)))"

definition refuse_identity :: "u32 \<times> u64 \<Rightarrow> 'w mediated \<Rightarrow> 'w applied" where
  "refuse_identity x s =
     (Inl (IdentityMismatch (fst x) (snd x)),
      count_with inc_pid_recycle_block (count_with inc_mediator_block s))"

definition account_outcome :: "'w applied \<Rightarrow> 'w applied" where
  "account_outcome a =
     (case a of
        (Inr r, s) \<Rightarrow> (Inr r, if rc_no_op r then count_with inc_mediator_noop_write s else s)
      | (Inl b, s) \<Rightarrow> (Inl b, count_with inc_mediator_block s))"

definition mediate :: "'w host \<Rightarrow> effect \<Rightarrow> pre_condition \<Rightarrow> (effect \<Rightarrow> 'w mediated \<Rightarrow> 'w applied) \<Rightarrow>
    'w mediated \<Rightarrow> 'w applied" where
  "mediate H eff pre effector s =
     (case identity_guard H eff pre (md_world s) of
        Some x \<Rightarrow> refuse_identity x s
      | None \<Rightarrow> account_outcome (effector eff s))"

text \<open>The same for an effector that may not return.\<close>

definition mediate_walk :: "'w host \<Rightarrow> effect \<Rightarrow> pre_condition \<Rightarrow>
    (effect \<Rightarrow> 'w mediated \<Rightarrow> 'w applied option) \<Rightarrow> 'w mediated \<Rightarrow> 'w applied option" where
  "mediate_walk H eff pre effector s =
     (case identity_guard H eff pre (md_world s) of
        Some x \<Rightarrow> Some (refuse_identity x s)
      | None \<Rightarrow> map_option account_outcome (effector eff s))"

subsection \<open>The contract of an effector\<close>

lemmas counter_defs = inc_mediator_block_def inc_mediator_noop_write_def inc_mediator_thread_policy_def
  inc_pid_recycle_block_def inc_mediator_port_hub_block_def inc_mediator_port_hub_probe_unavailable_def

lemma count_with_simps [simp]:
  "md_world (count_with f s) = md_world s" "md_qos (count_with f s) = md_qos s"
  "md_counters (count_with f s) = f (md_counters s)"
  by (simp_all add: count_with_def)

lemma unit_count_zero [simp]: "unit_count b = 0 \<longleftrightarrow> b"
  by (simp add: unit_count_def)

text \<open>The three counters that belong to the mediator alone.\<close>

definition outcome_counters :: "'w mediated \<Rightarrow> u64 \<times> u64 \<times> u64" where
  "outcome_counters s = (mediator_blocks_total (md_counters s), mediator_noop_writes_total (md_counters s),
     pid_recycle_blocks_total (md_counters s))"

lemma outcome_counters_world [simp]:
  "outcome_counters (s\<lparr> md_world := w \<rparr>) = outcome_counters s"
  "outcome_counters (s\<lparr> md_qos := m \<rparr>) = outcome_counters s"
  by (simp_all add: outcome_counters_def)

text \<open>
  What the client of an effector relies on: the effector leaves the counters of the mediator
  alone, and its receipt counts no unit of work exactly when it reports a no-op. It names no
  identity, because it performs no identity check.
\<close>

locale mediated_effector =
  fixes effector_apply :: "effect \<Rightarrow> 'w mediated \<Rightarrow> 'w applied"
  assumes counters_kept: "outcome_counters (snd (effector_apply eff s)) = outcome_counters s"
    and receipt_count: "fst (effector_apply eff s) = Inr r \<Longrightarrow> rc_applied_count r = 0 \<longleftrightarrow> rc_no_op r"
    and no_identity: "fst (effector_apply eff s) \<noteq> Inl (IdentityMismatch p t)"
begin

lemma mediate_outcome:
  "case mediate H eff pre effector_apply s of
     (Inr r, s') \<Rightarrow> (rc_applied_count r = 0 \<longleftrightarrow> rc_no_op r) \<and> outcome_counters s' =
        (case outcome_counters s of (b, n, i) \<Rightarrow> (b, if rc_no_op r then n + 1 else n, i))
   | (Inl b, s') \<Rightarrow> outcome_counters s' = (case outcome_counters s of
        (k, n, i) \<Rightarrow> (k + 1, n, case b of IdentityMismatch _ _ \<Rightarrow> i + 1 | _ \<Rightarrow> i))"
proof (cases "identity_guard H eff pre (md_world s)")
  case None
  obtain a s' where a: "effector_apply eff s = (a, s')" by (cases "effector_apply eff s")
  show ?thesis
    using None a counters_kept [of eff s] receipt_count [of eff s] no_identity [of eff s]
    by (cases a) (auto simp: mediate_def account_outcome_def outcome_counters_def counter_defs
        split: mediator_block.splits)
next
  case (Some x)
  then show ?thesis
    by (simp add: mediate_def refuse_identity_def outcome_counters_def counter_defs)
qed

end

lemma unsupported_simps [simp]:
  "fst (unsupported who s) = Inl (PreconditionViolated (UnsupportedVariant who))"
  "snd (unsupported who s) = s"
  by (simp_all add: unsupported_def)

interpretation signal_effector: mediated_effector "signal_apply H" for H
  by unfold_locales
    (auto simp: signal_apply_def Let_def case_prod_unfold split: option.splits if_splits)

interpretation sysctl_effector: mediated_effector "sysctl_apply H" for H
  by unfold_locales
    (auto simp: sysctl_apply_def Let_def case_prod_unfold split: effect.splits if_splits)

interpretation jetsam_effector: mediated_effector "jetsam_apply H" for H
  by unfold_locales
    (auto simp: jetsam_apply_def Let_def case_prod_unfold split: effect.splits sum.splits)

lemma port_hub_gate_counters [simp]:
  "outcome_counters (snd (port_hub_gate H pid tier s)) = outcome_counters s"
  by (auto simp: port_hub_gate_def Let_def case_prod_unfold outcome_counters_def counter_defs
      split: option.splits)

lemma port_hub_gate_refusal:
  "fst (port_hub_gate H pid tier s) = Some b \<Longrightarrow> \<exists>n. PORT_HUB_THRESHOLD < n \<and>
     fst (get_mach_port_count H pid (md_world s)) = Some n \<and> tier = TierBackground \<and>
     b = PreconditionViolated (PortHubProtection pid n tier)"
  by (auto simp: port_hub_gate_def is_demote_target_def Let_def case_prod_unfold
      split: if_splits option.splits)

text \<open>The walk of the purgeable effector, where it returns, keeps the same contract.\<close>

definition purgeable_returned :: "'w host \<Rightarrow> effect \<Rightarrow> 'w mediated \<Rightarrow> 'w applied" where
  "purgeable_returned H eff s =
     (case purgeable_apply H eff s of Some a \<Rightarrow> a | None \<Rightarrow> unsupported ''PurgeableEffector'' s)"

interpretation purgeable_effector: mediated_effector "purgeable_returned H" for H
  by unfold_locales
    (auto simp: purgeable_returned_def purgeable_apply_def Let_def split: effect.splits option.splits)

lemma mediate_walk_returned:
  "mediate_walk H eff pre (purgeable_apply H) s = Some (answer, s') \<Longrightarrow>
     mediate H eff pre (purgeable_returned H) s = (answer, s')"
  by (auto simp: mediate_walk_def mediate_def purgeable_returned_def split: option.splits)

interpretation mach_policy_effector: mediated_effector "mach_policy_apply H" for H
proof unfold_locales
  fix eff s r p t
  show "outcome_counters (snd (mach_policy_apply H eff s)) = outcome_counters s"
    by (auto simp: mach_policy_apply_def Let_def case_prod_unfold split: effect.splits option.splits)
  show "fst (mach_policy_apply H eff s) = Inr r \<Longrightarrow> rc_applied_count r = 0 \<longleftrightarrow> rc_no_op r"
    by (auto simp: mach_policy_apply_def Let_def case_prod_unfold split: effect.splits option.splits)
  show "fst (mach_policy_apply H eff s) \<noteq> Inl (IdentityMismatch p t)"
    by (auto simp: mach_policy_apply_def Let_def case_prod_unfold dest: port_hub_gate_refusal
        split: effect.splits option.splits)
qed

interpretation thread_policy_effector: mediated_effector "thread_policy_apply H" for H
  by unfold_locales
    (auto simp: thread_policy_apply_def thread_apply_raw_def outcome_counters_def counter_defs Let_def
      case_prod_unfold unit_count_def split: effect.splits if_splits)

interpretation file_write_effector: mediated_effector "file_write_apply H" for H
  by unfold_locales (auto simp: file_write_apply_def split: effect.splits)

subsection \<open>Properties\<close>


definition demo_mediated :: "bool \<Rightarrow> demo_world mediated" where
  "demo_mediated delivers = \<lparr> md_world = demo_start delivers, md_qos = qos_manager_new,
     md_counters = \<lparr> mediator_blocks_total = 0, mediator_noop_writes_total = 0,
       mediator_thread_policy_total = 0, pid_recycle_blocks_total = 0,
       mediator_port_hub_blocks_total = 0, mediator_port_hub_probe_unavailable_total = 0 \<rparr> \<rparr>"

lemmas demo_simps = demo_mediated_def demo_start_def demo_host_def demo_kernel_def


text \<open>
  C5: When the process that the effect names is not the expected one, is gone or was
  started at another time, the effector is not run: the world and the manager are as before and
  the answer names the process and the expected start. With the expected process alive and
  started then, the effector runs.
\<close>

theorem identity_guards_the_effector:
  assumes "pc_pid_identity pre = Some (pid, start_sec)" "effect_target eff = Some target"
  shows "mediate H eff pre effector s =
    (if target = pid \<and> (\<exists>i. from_pid H target (md_world s) = Some i
          \<and> (start_sec = 0 \<or> pid_start_sec i = start_sec))
     then account_outcome (effector eff s)
     else (Inl (IdentityMismatch target start_sec),
           s\<lparr> md_counters := inc_pid_recycle_block (inc_mediator_block (md_counters s)) \<rparr>))"
proof -
  have "verify_identity H target None start_sec 0 (md_world s) =
      (\<exists>i. from_pid H target (md_world s) = Some i \<and> (start_sec = 0 \<or> pid_start_sec i = start_sec))"
    by (auto simp: verify_identity_def identity_matches_def word_gt_0 split: option.splits)
  note live = this [symmetric]
  show ?thesis
    unfolding live using assms
    by (auto simp: mediate_def identity_guard_def refuse_identity_def count_with_def)
qed

lemma identity_guards_the_effector_witness:
  "fst (mediate demo_host (SigStop 42 8) (pre_condition_default\<lparr> pc_pid_identity := Some (42, 8) \<rparr>)
     (signal_apply demo_host) (demo_mediated True)) = Inl (IdentityMismatch 42 8)"
  using identity_guards_the_effector [of "pre_condition_default\<lparr> pc_pid_identity := Some (42, 8) \<rparr>" 42 8
      "SigStop 42 8" 42 demo_host "signal_apply demo_host" "demo_mediated True"]
  by (simp add: from_pid_def demo_simps)

text \<open>The other three fields of a precondition are not read.\<close>

theorem only_identity_is_checked:
  "mediate H eff (pre\<lparr> pc_min_memory_pressure := p, pc_require_not_protected := b,
      pc_require_jetsam_tier := t \<rparr>) effector s = mediate H eff pre effector s"
  by (simp add: mediate_def identity_guard_def)

text \<open>
  C13: The port-hub gate. A request for a background policy on a process that holds more
  than 5000 Mach ports is refused before the manager is touched, with its own counter raised, and
  no right is leaked by the probe. Every other request reaches the manager, and the answer is then
  a receipt: a tier that the kernel refused is a receipt that says no-op, never an error.
\<close>

theorem port_hub_protected:
  assumes "host_rules H held"
  shows "let tier = to_sched_tier policy; probe = get_mach_port_count H pid (md_world s);
             (r, s') = mach_policy_apply H (SetMachPolicy pid t policy) s in
    (case fst probe of
       Some n \<Rightarrow> if tier = TierBackground \<and> 5000 < n
         then r = Inl (PreconditionViolated (PortHubProtection pid n tier)) \<and> md_qos s' = md_qos s
           \<and> md_world s' = snd probe \<and> held (md_world s') = held (md_world s)
           \<and> md_counters s' = inc_mediator_port_hub_block (md_counters s)
         else \<exists>rc. r = Inr rc
     | None \<Rightarrow> \<exists>rc. r = Inr rc)"
proof -
  note held = port_count_held [OF assms, of pid "md_world s"]
  show ?thesis
    using held
    by (auto simp: mach_policy_apply_def port_hub_gate_def is_demote_target_def PORT_HUB_THRESHOLD_def
        Let_def case_prod_unfold count_with_def split: option.splits)
qed

lemma port_hub_protected_witness:
  "fst (mach_policy_apply demo_host (SetMachPolicy 42 7 PolicyUtility) (demo_mediated True)) =
     Inl (PreconditionViolated (PortHubProtection 42 6000 TierBackground))"
proof -
  have "fst (get_mach_port_count demo_host 42 (md_world (demo_mediated True))) = Some 6000"
    by (simp add: get_mach_port_count_def demo_simps KERN_SUCCESS_def MACH_PORT_NULL_def Let_def)
  then show ?thesis
    using port_hub_protected [OF demo_host_rules, of PolicyUtility 42 "demo_mediated True" 7]
    by (simp add: Let_def case_prod_unfold)
qed

text \<open>
  A 64-bit value goes out as decimal text, which the writer parses back; a value in the 32-bit
  range then takes the 32-bit branch and is written as four bytes.
\<close>

lemma i64_write_width:
  "is_i64 n \<Longrightarrow> sysctl_write H key (SysI64 n) w = write_raw H key (to_le (if is_i32 n then 4 else 8) n) w"
  by (simp add: sysctl_write_def write_str_value_decimal)

text \<open>
  A sysctl is written only where the live value is the one that the caller expected or cannot be
  read: a stale expectation leaves the state as it was.
\<close>

lemma stale_sysctl_untouched:
  "sysctl_read H key v (md_world s) = Some live \<Longrightarrow> live \<noteq> expected \<Longrightarrow>
     sysctl_apply H (SetSysctlEffect key v expected) s = (Inl (PreconditionViolated (SysctlNotExpected key)), s)"
  by (simp add: sysctl_apply_def)

text \<open>
  C40: A purge hint through the mediator returns, for every process and every world, when
  the kernel answers each query with the region that contains the address asked for or, failing
  that, with one after it, and no region reaches past the end of the address space.
\<close>

theorem purge_hint_returns:
  assumes "region_rules H"
  shows "\<exists>r. mediate_walk H (PurgeHint pid t n) pre (purgeable_apply H) s = Some r"
proof -
  have "\<exists>r. purge_purgeable_regions H pid (md_world s) = Some r"
  proof -
    let ?w = "md_world s"
    obtain kr port w' where "k_task_for_pid (h_kernel H) pid ?w = (kr, port, w')"
      by (cases "k_task_for_pid (h_kernel H) pid ?w")
    then show ?thesis
      using purge_regions_returns [OF assms, of "h_self_task H" 0 0 ?w]
        purge_regions_returns [OF assms, of port 0 0 w']
      by (auto simp: purge_purgeable_regions_def)
  qed
  then obtain found w' where "purge_purgeable_regions H pid (md_world s) = Some (found, w')" by auto
  then show ?thesis
    by (simp add: mediate_walk_def purgeable_apply_def Let_def split: option.splits)
qed

lemma purge_hint_returns_witness:
  "\<exists>r. mediate_walk demo_host (PurgeHint 42 7 0) pre_condition_default (purgeable_apply demo_host)
     (demo_mediated True) = Some r"
  by (rule purge_hint_returns [OF demo_region_rules])

end
