(* ===== verification/Freeze_Transaction.thy ===== *)
theory Freeze_Transaction
  imports Mediated_Saga Action_Mediator Effect_Reconcile Effect_Decay
begin

text \<open>
  The freeze of one process in \<open>engine/execute_actions.rs\<close>, from the captured jetsam priority to
  the end of the branch that is not a dry run: the saga of a mediated jetsam demotion and a
  mediated SIGSTOP, the ledger entry that a failed compensation leaves, and what follows a
  commit. The guards in front of it (protection, coalitions, assertions, zombies) decide whether
  this code runs and are not part of it. The result of the name test for a hard-protected process
  is an argument, and error texts are values with what they print.
\<close>

datatype freeze_failure =
    StopWithoutMutation u32
  | StopFailed u32 mediator_block
  | RestoreFailed i32 u32 mediator_block

datatype freeze_error =
    FreezeSagaFailed saga_state "(nat \<times> freeze_failure) option"
  | FreezeCompensationFailed saga_state "(nat \<times> freeze_failure) option" "nat \<times> freeze_failure"

record 'w freeze_state =
  fz_med :: "'w mediated"
  fz_ledger :: effect_ledger
  fz_watchdog :: "decay_watchdog option"
  fz_frozen :: "u32 set"
  fz_freezes_applied :: u64
  fz_newly_frozen_pids :: "u32 list"
  fz_newly_frozen_identity :: "(u32 \<times> u64 \<times> i32 option) list"

definition freeze_precondition :: "u32 \<Rightarrow> u64 \<Rightarrow> pre_condition" where
  "freeze_precondition pid start_sec = pre_condition_default\<lparr> pc_pid_identity := Some (pid, start_sec) \<rparr>"

definition capture_priority :: "'w host \<Rightarrow> bool \<Rightarrow> u32 \<Rightarrow> 'w \<Rightarrow> i32 option" where
  "capture_priority H can_memorystatus pid w =
     (if can_memorystatus then jetsam_get_priority (h_kernel H) pid w else None)"

definition freeze_prepare :: "'w host \<Rightarrow> bool \<Rightarrow> i32 option \<Rightarrow> u32 \<Rightarrow> u64 \<Rightarrow> 'w mediated \<Rightarrow>
    (freeze_failure + bool) \<times> 'w mediated" where
  "freeze_prepare H can_memorystatus captured pid start_sec s =
     (if \<not> can_memorystatus \<or> captured = None then (Inr False, s)
      else case mediate H (SetJetsamTier pid start_sec KindBackground) (freeze_precondition pid start_sec)
                  (jetsam_apply H) s of
          (Inr r, s) \<Rightarrow> (Inr (0 < rc_applied_count r), s)
        | (Inl _, s) \<Rightarrow> (Inr False, s))"

definition freeze_stop :: "'w host \<Rightarrow> u32 \<Rightarrow> u64 \<Rightarrow> 'w mediated \<Rightarrow> (freeze_failure + unit) \<times> 'w mediated" where
  "freeze_stop H pid start_sec s =
     (case mediate H (SigStop pid start_sec) (freeze_precondition pid start_sec) (signal_apply H) s of
        (Inr r, s) \<Rightarrow> (if 0 < rc_applied_count r then Inr () else Inl (StopWithoutMutation pid), s)
      | (Inl b, s) \<Rightarrow> (Inl (StopFailed pid b), s))"

definition freeze_restore :: "'w host \<Rightarrow> i32 option \<Rightarrow> u32 \<Rightarrow> u64 \<Rightarrow> 'w mediated \<Rightarrow>
    (freeze_failure + unit) \<times> 'w mediated" where
  "freeze_restore H captured pid start_sec s =
     (case captured of
        None \<Rightarrow> (Inr (), s)
      | Some prio \<Rightarrow>
          (case mediate H (SetJetsamTier pid start_sec (KindExact prio)) (freeze_precondition pid start_sec)
                  (jetsam_apply H) s of
             (Inr _, s) \<Rightarrow> (Inr (), s)
           | (Inl b, s) \<Rightarrow> (Inl (RestoreFailed prio pid b), s)))"

definition FREEZE_RETRY :: string where
  "FREEZE_RETRY = ''freeze-saga: retry jetsam compensation''"

definition fz_world :: "'w freeze_state \<Rightarrow> 'w" where
  "fz_world st = md_world (fz_med st)"

definition fz_now :: "'w host \<Rightarrow> 'w freeze_state \<Rightarrow> instant" where
  "fz_now H st = k_now (h_kernel H) (fz_world st)"

text \<open>What follows a commit: the advisory I/O tier, the observation and the accounts.\<close>

definition freeze_committed :: "'w host \<Rightarrow> bool \<Rightarrow> bool \<Rightarrow> i32 option \<Rightarrow> u32 \<Rightarrow> u64 \<Rightarrow>
    freeze_failure saga_report \<Rightarrow> 'w freeze_state \<Rightarrow> 'w freeze_state" where
  "freeze_committed H can_taskpolicy is_hp captured pid start_sec report st =
     (let w = (if can_taskpolicy then snd (k_setpriority (h_kernel H) PRIO_DARWIN_BG pid 1 (fz_world st))
               else fz_world st);
          st = st\<lparr> fz_med := (fz_med st)\<lparr> md_world := w \<rparr> \<rparr>;
          ob = \<lparr> po_effect_id = 0, po_pid = pid, po_kind = JetsamTier, po_key = None,
                 po_value_post = JETSAM_BACKGROUND, po_deadline = fz_now H st + SETTLE,
                 po_hard_protected = is_hp \<rparr>;
          st = (if applied_step report 0
                then st\<lparr> fz_watchdog := map_option (record_observation ob) (fz_watchdog st) \<rparr> else st)
      in st\<lparr> fz_frozen := insert pid (fz_frozen st),
             fz_freezes_applied := fz_freezes_applied st + 1,
             fz_newly_frozen_pids := fz_newly_frozen_pids st @ [pid],
             fz_newly_frozen_identity := fz_newly_frozen_identity st @ [(pid, start_sec, captured)] \<rparr>)"

text \<open>The answer is whether an action was applied.\<close>

definition freeze_process :: "'w host \<Rightarrow> bool \<Rightarrow> bool \<Rightarrow> bool \<Rightarrow> u32 \<Rightarrow> u64 \<Rightarrow> 'w freeze_state \<Rightarrow>
    (freeze_error + bool) \<times> 'w freeze_state" where
  "freeze_process H can_memorystatus can_taskpolicy is_hp pid start_sec st =
     (let captured = capture_priority H can_memorystatus pid (fz_world st);
          (report, s) = run_freeze_saga (freeze_prepare H can_memorystatus captured pid start_sec)
            (freeze_stop H pid start_sec) (freeze_restore H captured pid start_sec) (fz_med st);
          st = st\<lparr> fz_med := s \<rparr> in
      if \<not> saga_committed report then
        (case sr_compensation_failure report of
           Some f \<Rightarrow>
             (Inl (FreezeCompensationFailed (sr_state report) (sr_apply_failure report) f),
              case captured of
                Some prior \<Rightarrow> st\<lparr> fz_ledger := ledger_record (fz_now H st) (JetsamPriority pid prior) 0
                  start_sec FREEZE_RETRY (fz_ledger st) \<rparr>
              | None \<Rightarrow> st)
         | None \<Rightarrow> (Inl (FreezeSagaFailed (sr_state report) (sr_apply_failure report)), st))
      else if applied_step report 1
        then (Inr True, freeze_committed H can_taskpolicy is_hp captured pid start_sec report st)
        else (Inr False, st))"

subsection \<open>The band of the process\<close>

text \<open>
  What \<open>memorystatus_control\<close> and \<open>kill\<close> are documented to do to jetsam bands: a priority
  request that succeeds leaves the process in the band asked for, a failed one changes no band,
  and neither does a stop or continue signal.
\<close>

definition band_rules :: "'w host \<Rightarrow> bool" where
  "band_rules H \<longleftrightarrow> (let K = h_kernel H in
     (\<forall>pid prio w. let (ret, w') = k_memorystatus_set K CMD_SET_PRIORITY_PROPERTIES pid [prio, 0] w in
        jetsam_get_priority K pid w' = (if ret = 0 then Some prio else jetsam_get_priority K pid w)) \<and>
     (\<forall>pid p sig w. jetsam_get_priority K p (snd (h_kill H pid sig w)) = jetsam_get_priority K p w))"

definition band :: "'w host \<Rightarrow> u32 \<Rightarrow> 'w mediated \<Rightarrow> i32 option" where
  "band H pid s = jetsam_get_priority (h_kernel H) pid (md_world s)"

lemma band_count [simp]: "band H pid (count_with f s) = band H pid s"
  by (simp add: band_def)

lemma band_refuse [simp]: "band H pid (snd (refuse_identity x s)) = band H pid s"
  by (simp add: refuse_identity_def)

lemma band_account [simp]: "band H pid (snd (account_outcome a)) = band H pid (snd a)"
  by (auto simp: account_outcome_def case_prod_unfold split: sum.split)

lemma fst_account [simp]: "fst (account_outcome a) = fst a"
  by (auto simp: account_outcome_def case_prod_unfold split: sum.split)

lemma jetsam_apply_band:
  assumes "band_rules H"
  shows "case jetsam_apply H (SetJetsamTier pid t tier) s of
     (Inr r, s') \<Rightarrow> band H pid s' = Some (to_priority tier)
        \<and> (rc_applied_count r = 0 \<longrightarrow> band H pid s' = band H pid s)
   | (Inl _, s') \<Rightarrow> band H pid s' = band H pid s"
proof -
  have rules: "jetsam_get_priority (h_kernel H) pid
      (snd (k_memorystatus_set (h_kernel H) CMD_SET_PRIORITY_PROPERTIES pid [prio, 0] w)) =
    (if fst (k_memorystatus_set (h_kernel H) CMD_SET_PRIORITY_PROPERTIES pid [prio, 0] w) = 0
     then Some prio else jetsam_get_priority (h_kernel H) pid w)" for prio w
    using assms by (simp add: band_rules_def Let_def case_prod_unfold)
  show ?thesis
    by (auto simp: jetsam_apply_def jetsam_set_priority_def band_def rules Let_def case_prod_unfold)
qed

lemma jetsam_mediated_band:
  assumes "band_rules H"
  shows "case mediate H (SetJetsamTier pid t tier) pre (jetsam_apply H) s of
     (Inr r, s') \<Rightarrow> band H pid s' = Some (to_priority tier)
        \<and> (rc_applied_count r = 0 \<longrightarrow> band H pid s' = band H pid s)
   | (Inl _, s') \<Rightarrow> band H pid s' = band H pid s"
proof (cases "identity_guard H (SetJetsamTier pid t tier) pre (md_world s)")
  case None
  obtain r s' where r: "jetsam_apply H (SetJetsamTier pid t tier) s = (r, s')"
    by (cases "jetsam_apply H (SetJetsamTier pid t tier) s")
  show ?thesis
    using None r jetsam_apply_band [OF assms, where pid = pid and t = t and tier = tier and s = s]
    by (cases r) (auto simp: mediate_def account_outcome_def)
next
  case (Some x)
  then show ?thesis by (simp add: mediate_def refuse_identity_def)
qed

lemma freeze_stop_band:
  assumes "band_rules H"
  shows "band H pid (snd (freeze_stop H pid t s)) = band H pid s"
proof -
  have "band H pid (snd (signal_apply H (SigStop pid t) s)) = band H pid s"
    using assms by (auto simp: signal_apply_def band_rules_def band_def Let_def case_prod_unfold)
  then have "band H pid (snd (mediate H (SigStop pid t) pre (signal_apply H) s)) = band H pid s" for pre
    by (simp add: mediate_def split: option.split)
  then show ?thesis by (auto simp: freeze_stop_def case_prod_unfold split: sum.split)
qed

text \<open>A preparation never fails; it reports a mutation only where a band was captured.\<close>

lemma freeze_prepare_band:
  assumes "band_rules H" "captured = capture_priority H can_mem pid (md_world s)"
    "freeze_prepare H can_mem captured pid t s = (r, s')"
  shows "\<exists>b. r = Inr b \<and> (if b then captured \<noteq> None \<and> captured = band H pid s
     else band H pid s' = band H pid s)"
proof (cases "\<not> can_mem \<or> captured = None")
  case True
  then show ?thesis using assms(3) by (auto simp: freeze_prepare_def)
next
  case False
  then have c: "captured = band H pid s" using assms(2) by (simp add: capture_priority_def band_def)
  from False have open_gate: "\<not> (\<not> can_mem \<or> captured = None)" by blast
  obtain a s1 where m: "mediate H (SetJetsamTier pid t KindBackground) (freeze_precondition pid t)
      (jetsam_apply H) s = (a, s1)" by fastforce
  have eq: "freeze_prepare H can_mem captured pid t s = (case (a, s1) of
      (Inr r, s) \<Rightarrow> (Inr (0 < rc_applied_count r), s) | (Inl _, s) \<Rightarrow> (Inr False, s))"
    unfolding freeze_prepare_def m by (rule if_not_P [OF open_gate])
  note b = jetsam_mediated_band [OF assms(1), where pid = pid and t = t and tier = KindBackground
      and pre = "freeze_precondition pid t" and s = s, unfolded m]
  show ?thesis
  proof (cases a)
    case (Inl e)
    then have "r = Inr False" "s' = s1" using assms(3) eq by simp_all
    then show ?thesis using Inl b by (intro exI [of _ False]) simp
  next
    case (Inr rc)
    then have "r = Inr (0 < rc_applied_count rc)" "s' = s1"
      using assms(3) eq by simp_all
    then show ?thesis using Inr b c False
      by (intro exI [of _ "0 < rc_applied_count rc"]) (auto simp: word_gt_0)
  qed
qed

lemma freeze_restore_band:
  assumes "band_rules H" "freeze_restore H (Some prio) pid t s = (Inr x, s')"
  shows "band H pid s' = Some prio"
proof -
  obtain a s1 where m: "mediate H (SetJetsamTier pid t (KindExact prio)) (freeze_precondition pid t)
      (jetsam_apply H) s = (a, s1)" by fastforce
  show ?thesis
    using assms(2) m jetsam_mediated_band [OF assms(1), where pid = pid and t = t
        and tier = "KindExact prio" and pre = "freeze_precondition pid t" and s = s, unfolded m]
    by (cases a) (simp_all add: freeze_restore_def)
qed

lemma freeze_stop_signalled:
  assumes "freeze_stop H pid t s = (Inr x, s')"
  shows "\<exists>w. verify_identity H pid None t 0 w \<and> fst (h_kill H pid SIGSTOP w) = 0"
proof -
  obtain r s1 where m: "mediate H (SigStop pid t) (freeze_precondition pid t) (signal_apply H) s = (Inr r, s1)"
    using assms by (auto simp: freeze_stop_def split: prod.splits sum.splits)
  then have "verify_identity H pid None t 0 (md_world s)" "fst (signal_apply H (SigStop pid t) s) = Inr r"
    by (auto simp: mediate_def identity_guard_def freeze_precondition_def pre_condition_default_def
        refuse_identity_def account_outcome_def split: if_splits prod.splits sum.splits)
  moreover from this(2) have "fst (h_kill H pid SIGSTOP (md_world s)) = 0"
    by (auto simp: signal_apply_def Let_def case_prod_unfold split: if_splits)
  ultimately show ?thesis by blast
qed

lemma applied_step_bits [simp]:
  "applied_step r (Suc 0) \<longleftrightarrow> bit (sr_applied_steps r) 1" "applied_step r 0 \<longleftrightarrow> bit (sr_applied_steps r) 0"
  using and_exp_eq_0_iff_not_bit [of "sr_applied_steps r" 1]
    and_exp_eq_0_iff_not_bit [of "sr_applied_steps r" 0]
  by (simp_all add: applied_step_def MAX_SAGA_STEPS_def)

subsection \<open>Which processes are stopped\<close>

text \<open>
  What the same two calls are documented to do to run states: a priority request stops or
  continues nothing, a \<open>kill\<close> that fails delivers no signal, and a \<open>kill\<close> succeeds only where the
  test for the existence of its target, signal zero, succeeds too.
\<close>

definition stop_rules :: "'w host \<Rightarrow> (u32 \<Rightarrow> 'w \<Rightarrow> bool) \<Rightarrow> bool" where
  "stop_rules H stopped \<longleftrightarrow> (let K = h_kernel H in
     (\<forall>cmd pid fields w p. stopped p (snd (k_memorystatus_set K cmd pid fields w)) = stopped p w) \<and>
     (\<forall>pid sig w. let (ret, w') = h_kill H pid sig w in
        (ret \<noteq> 0 \<longrightarrow> (\<forall>p. stopped p w' = stopped p w)) \<and> (ret = 0 \<longrightarrow> k_kill0 K pid w = 0)))"

lemma kill_rules:
  assumes "stop_rules H stopped"
  shows "fst (h_kill H pid sig w) \<noteq> 0 \<Longrightarrow> stopped p (snd (h_kill H pid sig w)) = stopped p w"
    and "fst (h_kill H pid sig w) = 0 \<Longrightarrow> k_kill0 (h_kernel H) pid w = 0"
  using assms by (simp_all add: stop_rules_def case_prod_unfold Let_def)

lemma mediate_world:
  "md_world (snd (mediate H eff pre effector s)) =
     (case identity_guard H eff pre (md_world s) of
        Some _ \<Rightarrow> md_world s | None \<Rightarrow> md_world (snd (effector eff s)))"
  by (auto simp: mediate_def refuse_identity_def account_outcome_def case_prod_unfold
      split: option.split sum.split)

lemma jetsam_stops_nothing:
  assumes "stop_rules H stopped"
  shows "stopped p (md_world (snd (mediate H (SetJetsamTier pid t tier) pre (jetsam_apply H) s)))
    = stopped p (md_world s)"
  using assms
  by (auto simp: mediate_world jetsam_apply_def jetsam_set_priority_def stop_rules_def Let_def
      case_prod_unfold split: option.split)

lemma freeze_prepare_stops_nothing:
  assumes "stop_rules H stopped"
  shows "stopped p (md_world (snd (freeze_prepare H can_mem captured pid t s))) = stopped p (md_world s)"
  using jetsam_stops_nothing [OF assms, of p pid t KindBackground "freeze_precondition pid t" s]
  by (auto simp: freeze_prepare_def case_prod_unfold split: sum.split)

lemma freeze_restore_stops_nothing:
  assumes "stop_rules H stopped"
  shows "stopped p (md_world (snd (freeze_restore H captured pid t s))) = stopped p (md_world s)"
  using jetsam_stops_nothing [OF assms, of p pid t _ "freeze_precondition pid t" s]
  by (auto simp: freeze_restore_def case_prod_unfold split: option.split sum.split)

text \<open>A stop step that reports a failure has delivered no signal.\<close>

lemma freeze_stop_failed:
  assumes "stop_rules H stopped" "freeze_stop H pid t s = (Inl e, s')"
  shows "stopped p (md_world s') = stopped p (md_world s)"
proof -
  obtain a s1 where m: "mediate H (SigStop pid t) (freeze_precondition pid t) (signal_apply H) s = (a, s1)"
    by fastforce
  have unit: "(0 :: u32) < unit_count b \<longleftrightarrow> \<not> b" for b by (simp add: unit_count_def)
  have s1: "s' = s1" and failed: "\<And>rc. a = Inr rc \<Longrightarrow> \<not> 0 < rc_applied_count rc"
    using assms(2) m by (auto simp: freeze_stop_def split: sum.splits if_splits)
  obtain ret w' where k: "h_kill H pid SIGSTOP (md_world s) = (ret, w')" by fastforce
  have rules: "ret \<noteq> 0 \<Longrightarrow> stopped p w' = stopped p (md_world s)"
    "ret = 0 \<Longrightarrow> k_kill0 (h_kernel H) pid (md_world s) = 0"
    using kill_rules [OF assms(1), of pid SIGSTOP "md_world s"] k by simp_all
  show ?thesis
  proof (cases "identity_guard H (SigStop pid t) (freeze_precondition pid t) (md_world s)")
    case None
    have "ret \<noteq> 0"
    proof
      assume "ret = 0"
      then show False using None m k rules(2) failed
        by (auto simp: mediate_def account_outcome_def signal_apply_def Let_def unit)
    qed
    then show ?thesis using None m k rules(1) s1 mediate_world [of H "SigStop pid t" "freeze_precondition pid t"
        "signal_apply H" s] by (simp add: signal_apply_def Let_def)
  next
    case (Some x)
    then show ?thesis using m s1 mediate_world [of H "SigStop pid t" "freeze_precondition pid t"
        "signal_apply H" s] by simp
  qed
qed

subsection \<open>The freeze as a transaction\<close>

text \<open>
  C1: A freeze that reports an error has frozen nothing: no process is stopped that was not
  stopped before and none is continued, and no account, observation or frozen process is added. It
  leaves no demotion behind that is not taken back: the process is in the jetsam band that it had
  before, or the ledger holds its exact former band under its identity, due at the first
  reconciliation in which the process is not the foreground process.
\<close>

theorem freeze_failure_recovers:
  assumes "band_rules H" "stop_rules H stopped"
    "freeze_process H can_mem can_task hp pid t st = (Inl e, st')"
  shows "(\<forall>p. stopped p (fz_world st') = stopped p (fz_world st))
    \<and> fz_frozen st' = fz_frozen st \<and> fz_freezes_applied st' = fz_freezes_applied st
    \<and> fz_newly_frozen_pids st' = fz_newly_frozen_pids st
    \<and> fz_newly_frozen_identity st' = fz_newly_frozen_identity st \<and> fz_watchdog st' = fz_watchdog st
    \<and> (band H pid (fz_med st') = band H pid (fz_med st)
       \<or> (\<exists>prior entry. band H pid (fz_med st) = Some prior
            \<and> ledger_get (JetsamPriority pid prior) (fz_ledger st') = Some entry
            \<and> le_effect entry = JetsamPriority pid prior \<and> le_start_sec entry = t
            \<and> (\<forall>now fg. fg \<noteq> Some pid \<longrightarrow> entry_expired now fg (effect_key_of (le_effect entry)) entry)))"
proof -
  let ?c = "capture_priority H can_mem pid (fz_world st)"
  obtain p s1 where p: "freeze_prepare H can_mem ?c pid t (fz_med st) = (p, s1)" by fastforce
  obtain x s2 where x: "freeze_stop H pid t s1 = (x, s2)" by fastforce
  obtain y s3 where y: "freeze_restore H ?c pid t s2 = (y, s3)" by fastforce
  obtain b where b: "p = Inr b" "if b then ?c \<noteq> None \<and> ?c = band H pid (fz_med st)
      else band H pid s1 = band H pid (fz_med st)"
    using freeze_prepare_band [OF assms(1) _ p] by (auto simp: fz_world_def)
  have stop: "band H pid s2 = band H pid s1"
    using freeze_stop_band [OF assms(1), of pid t s1] x by simp
  have restored: "band H pid s3 = Some prio" if "?c = Some prio" "y = Inr ()" for prio
    using freeze_restore_band [OF assms(1)] y that by simp
  note prepared = freeze_prepare_stops_nothing [OF assms(2), of _ can_mem ?c pid t "fz_med st", unfolded p snd_conv]
  note still = freeze_restore_stops_nothing [OF assms(2), of _ ?c pid t s2, unfolded y snd_conv]
  note saga = freeze_saga_exact [of "freeze_prepare H can_mem ?c pid t" "freeze_stop H pid t"
      "freeze_restore H ?c pid t" "fz_med st"]
  show ?thesis
  proof (cases x)
    case (Inr u)
    then show ?thesis using assms(3) p x b(1)
      by (simp add: freeze_process_def saga saga_committed_def Let_def split: if_split_asm)
  next
    case (Inl e1)
    have unstopped: "stopped q (md_world s2) = stopped q (fz_world st)" for q
      using freeze_stop_failed [OF assms(2), of pid t s1 e1 s2 q] x Inl prepared [of q] by (simp add: fz_world_def)
    show ?thesis
    proof (cases b)
      case False
      have "st' = st\<lparr> fz_med := s2 \<rparr>"
        using Inl False assms(3) p x b(1) by (simp add: freeze_process_def saga saga_committed_def Let_def)
      then show ?thesis using False b(2) stop unstopped by (simp add: fz_world_def)
    next
      case True
      then obtain prio where c: "?c = Some prio" using b(2) by (metis not_None_eq)
      have before: "band H pid (fz_med st) = Some prio" using b(2) True c by simp
      show ?thesis
      proof (cases y)
        case (Inr v)
        have "st' = st\<lparr> fz_med := s3 \<rparr>"
          using Inl True Inr assms(3) p x y b(1) by (simp add: freeze_process_def saga saga_committed_def Let_def)
        then show ?thesis using restored [OF c] Inr before unstopped still by (simp add: fz_world_def)
      next
        case (Inl e2)
        let ?st = "st\<lparr> fz_med := s3 \<rparr>"
        have "st' = ?st\<lparr> fz_ledger := ledger_record (fz_now H ?st) (JetsamPriority pid prio) 0 t
            FREEZE_RETRY (fz_ledger ?st) \<rparr>"
          using \<open>x = Inl e1\<close> True Inl assms(3) p x y b(1) c
          by (simp add: freeze_process_def saga [unfolded c] saga_committed_def Let_def)
        then show ?thesis using before unstopped still
          by (simp add: fz_world_def ledger_get_def ledger_record_def entry_expired_def effect_key_of_def)
      qed
    qed
  qed
qed

definition demo_freeze :: "bool \<Rightarrow> demo_world freeze_state" where
  "demo_freeze delivers = \<lparr> fz_med = demo_mediated delivers, fz_ledger = ledger_new, fz_watchdog = None,
     fz_frozen = {}, fz_freezes_applied = 0, fz_newly_frozen_pids = [], fz_newly_frozen_identity = [] \<rparr>"

text \<open>What a freeze evaluates on the example host.\<close>

lemmas freeze_eval = freeze_process_def freeze_saga_exact saga_committed_def capture_priority_def
  freeze_prepare_def freeze_stop_def freeze_restore_def mediate_def identity_guard_def
  freeze_precondition_def pre_condition_default_def verify_identity_def from_pid_def
  identity_matches_def proc_name_for_pid_def account_outcome_def jetsam_apply_def
  jetsam_set_priority_def jetsam_get_priority_def signal_apply_def unit_count_def SIGSTOP_def
  JETSAM_BACKGROUND_def fz_world_def demo_freeze_def demo_simps Let_def

lemma demo_band_rules: "band_rules demo_host"
  by (simp add: band_rules_def demo_host_def demo_kernel_def jetsam_get_priority_def)

lemma demo_stop_rules: "stop_rules demo_host (\<lambda>p w. p \<in> dw_stopped w)"
  by (simp add: stop_rules_def demo_host_def demo_kernel_def split: list.split)

lemma freeze_failure_recovers_witness:
  "fst (freeze_process demo_host True True False 42 7 (demo_freeze False)) =
     Inl (FreezeSagaFailed SagaCompensated (Some (1, StopFailed 42 (OsError 3 (KillContext 42 17)))))
   \<and> 42 \<notin> dw_stopped (fz_world (snd (freeze_process demo_host True True False 42 7 (demo_freeze False))))
   \<and> fz_frozen (snd (freeze_process demo_host True True False 42 7 (demo_freeze False))) = {}"
proof -
  let ?f = "freeze_process demo_host True True False 42 7 (demo_freeze False)"
  have e: "fst ?f = Inl (FreezeSagaFailed SagaCompensated
      (Some (1, StopFailed 42 (OsError 3 (KillContext 42 17)))))" by (simp add: freeze_eval)
  then have "?f = (Inl (FreezeSagaFailed SagaCompensated
      (Some (1, StopFailed 42 (OsError 3 (KillContext 42 17))))), snd ?f)" by (simp add: prod_eq_iff)
  from freeze_failure_recovers [OF demo_band_rules demo_stop_rules this] e show ?thesis
    by (simp add: demo_freeze_def fz_world_def demo_simps)
qed

text \<open>
  C12: A freeze that returns has stopped the process: SIGSTOP was delivered to a live process
  with the expected start time, the process is among the frozen ones with its captured band, the
  counter went up by one and the ledger is as it was.
\<close>

theorem freeze_commit_stopped:
  assumes "freeze_process H can_mem can_task hp pid t st = (Inr b, st')"
  shows "b \<and> (\<exists>w. verify_identity H pid None t 0 w \<and> fst (h_kill H pid SIGSTOP w) = 0)
    \<and> fz_frozen st' = insert pid (fz_frozen st) \<and> fz_freezes_applied st' = fz_freezes_applied st + 1
    \<and> fz_newly_frozen_pids st' = fz_newly_frozen_pids st @ [pid]
    \<and> fz_newly_frozen_identity st' = fz_newly_frozen_identity st
        @ [(pid, t, capture_priority H can_mem pid (fz_world st))]
    \<and> fz_ledger st' = fz_ledger st"
proof -
  let ?c = "capture_priority H can_mem pid (fz_world st)"
  obtain p s1 where p: "freeze_prepare H can_mem ?c pid t (fz_med st) = (p, s1)" by fastforce
  obtain x s2 where x: "freeze_stop H pid t s1 = (x, s2)" by fastforce
  obtain y s3 where y: "freeze_restore H ?c pid t s2 = (y, s3)" by fastforce
  note saga = freeze_saga_exact [of "freeze_prepare H can_mem ?c pid t" "freeze_stop H pid t"
      "freeze_restore H ?c pid t" "fz_med st"]
  note defs = freeze_process_def saga saga_committed_def Let_def
  obtain a where a: "p = Inr a"
    using p by (auto simp: freeze_prepare_def split: if_splits prod.splits sum.splits)
  obtain u where u: "x = Inr u"
    using assms p x y a by (cases x; cases y) (auto simp: defs split: if_splits)
  have "bit (3 :: u64) 1" "bit (2 :: u64) 1" by (simp_all add: bit_iff_odd)
  then show ?thesis
    using assms p x a u freeze_stop_signalled [of H pid t s1 u s2]
    by (auto simp: defs freeze_committed_def split: if_splits)
qed

lemma freeze_commit_stopped_witness:
  "fst (freeze_process demo_host True True False 42 7 (demo_freeze True)) = Inr True
   \<and> fz_frozen (snd (freeze_process demo_host True True False 42 7 (demo_freeze True))) = {42}"
proof -
  let ?f = "freeze_process demo_host True True False 42 7 (demo_freeze True)"
  have e: "fst ?f = Inr True" by (simp add: freeze_eval)
  then have "?f = (Inr True, snd ?f)" by (simp add: prod_eq_iff)
  from freeze_commit_stopped [OF this] e show ?thesis by (simp add: demo_freeze_def)
qed

end
