(* ===== verification/Spec2Isabelle.thy ===== *)
theory Spec2Isabelle
  imports Action_Queue Circuit_Breaker Perceptual_Store Exploration_Scheduler Micro_Canary
    Effect_Reconcile Lab_Properties Decision_Properties Runtime_Example
    Scheduler_Guarantees Action_Accumulator Rollback_Guard Freeze_Transaction
begin

text \<open>
  A verification development of the decision and actuation core of apollo-silicon-reactor.

  The program is a macOS daemon that watches the machine, proposes actions (thread priorities,
  quality of service, memory limits, sysctls), executes them through the kernel, undoes them,
  and learns from small controlled experiments whether an action helped. The learners may be
  wrong; what keeps the machine safe is the machinery around them, and that machinery is what is
  modelled: who may act, when, how often, what is remembered, what is undone, and what counts
  as evidence. Sources are named below relative to \<open>src/crates/apollo-engine/src/engine/\<close>,
  except \<open>microexperiment_tick.rs\<close> and \<open>daemon_cycle_tail.rs\<close>, which are in
  \<open>src/src/bin/apollo-optimizerd/\<close>.

  PARTS AND THEORIES

  \<^item> \<open>Apollo_Prelude\<close>: machine integers (the saturating and checked operations of Rust on
    words), bounded queues, the locale \<open>invariant_machine\<close> (a step function that keeps an
    invariant, so that every run keeps it), which most components interpret. \<open>Hash_Map\<close>: maps
    as association lists, for code whose result depends on the order of a map.
  \<^item> \<open>Root_Action\<close> (\<open>action_types.rs\<close>, \<open>sysctl_limits.rs\<close>, parts of \<open>safety.rs\<close>,
    \<open>audit_types.rs\<close>): the actions, their reversibility and audit names, and the constructor that
    clamps a sysctl to its allowlisted range.
  \<^item> \<open>Action_Queue\<close> (\<open>action_queue.rs\<close>): the three-tier queue between proposers and actuators.
    \<open>Recently_Applied\<close> (\<open>recently_applied.rs\<close>): the cache that suppresses repeated actions.
    \<open>Circuit_Breaker\<close> (\<open>circuit_breaker.rs\<close>): the breaker around each actuator.
  \<^item> \<open>Kernel_Interface\<close>, \<open>Mach_Qos\<close> (\<open>mach_qos.rs\<close>), \<open>Jetsam_Control\<close> (\<open>jetsam_control.rs\<close>):
    the actuators. The kernel is a record of functions on an abstract world, a parameter of every
    operation; nothing is assumed of what it answers. \<open>Effect_Ledger\<close> (\<open>effect_ledger.rs\<close>):
    the deadlines of the effects in force; \<open>Effect_Reconcile\<close>: the pass that undoes what expired,
    through both the ledger and the actuators.
  \<^item> \<open>Perceptual_Types\<close>, \<open>Perceptual_Store\<close> (\<open>perceptual/\<close>): the observations, the validation of
    an envelope, and the bounded store with its index and its persistence.
  \<^item> \<open>Exploration_Types\<close>, \<open>Exploration_Scheduler\<close> (\<open>exploration_scheduler.rs\<close>): who may try an
    action whose effect is not known: gates, budgets, cooldowns, and one reservation at a time.
  \<^item> \<open>Exploration_Pair\<close>, \<open>Micro_Canary\<close> (\<open>exploration_pair.rs\<close>, \<open>micro_canary.rs\<close>): two arms of
    one experiment certified as a pair.
  \<^item> \<open>Decision_Types\<close>, \<open>Decision_Ledger\<close>, \<open>Decision_Properties\<close> (\<open>decision_ledger.rs\<close>): the life
    of a decision from proposal to resolved episode. \<open>Action_Keys\<close>
    (\<open>microexperiment_actions.rs\<close>): the catalog of action keys.
  \<^item> \<open>Lab_Types\<close>, \<open>Microexperiment_Lab\<close>, \<open>Lab_Properties\<close> (\<open>microexperiment_lab.rs\<close>): the
    laboratory, which compares a treatment with a control in pairs and earns authority in the
    phases Shadow, Canary and Active.
  \<^item> \<open>Lab_Endpoints\<close>, \<open>Endpoint_Properties\<close> (\<open>microexperiment_endpoints.rs\<close>): the adapter that
    turns resolved decisions into endpoints of pairs. \<open>Lab_Runtime\<close>
    (\<open>microexperiment_tick.rs\<close>): the tick that drives laboratory and adapter. \<open>Pair_Frame\<close>,
    \<open>Pair_Protocol\<close>, \<open>Runtime_Agreement\<close>, \<open>Runtime_Properties\<close>, \<open>Runtime_Example\<close>: the theorems
    on the two together.

  \<^item> \<open>Action_Accumulator\<close> (\<open>action_accumulator.rs\<close>): the builder through which the subsystems emit
    the actions of a cycle.
  \<^item> \<open>Cycle_Snapshot\<close> (\<open>cycle_snapshot.rs\<close>): the immutable input of a cycle and its publisher.
    \<open>Value_Scheduler\<close>, \<open>Value_Scheduler_Properties\<close>, \<open>Scheduler_Guarantees\<close>
    (\<open>value_scheduler.rs\<close>): which optional computation a cycle may run, within its time budget.
  \<^item> \<open>Effect_Decay\<close> (\<open>effect_decay.rs\<close>): the watchdog that re-reads effects after they settle.
    \<open>Rollback_Guard\<close> (parts of \<open>learned_state.rs\<close>, \<open>lse_counters.rs\<close> and
    \<open>daemon_cycle_tail.rs\<close>): the guard that reverts learned parameters when the watchdog, or the
    quality of a restore, says so.

  \<^item> \<open>Mediated_Saga\<close> (\<open>run_saga\<close> in \<open>mediator.rs\<close>, \<open>run_freeze_saga\<close> in
    \<open>execute_actions.rs\<close>): the coordinator of a multi-step mutation, against a specification over
    lists. \<open>Host_Calls\<close> (\<open>process_identity.rs\<close>, \<open>sysctl_direct.rs\<close>, parts of \<open>mach_qos.rs\<close> and
    \<open>compressor_aware.rs\<close>): the remaining kernel wrappers; their kernel is the record \<open>host\<close>.
    \<open>Action_Mediator\<close> (\<open>mediator.rs\<close>): the effectors and \<open>mediate\<close>, whose contract is the
    locale \<open>mediated_effector\<close>. \<open>Freeze_Transaction\<close> (the freeze branch of
    \<open>execute_actions.rs\<close>): the saga of a mediated demotion and a mediated stop, with the ledger
    and the watchdog.

  HOW THE PARTS MEET

  The exploration scheduler reserves an experiment; the micro-canary certifies its two arms as a
  pair; the laboratory counts certified pairs as evidence (\<open>consume_exploration_pair\<close>) and only
  then leaves Shadow and issues arms that act; the adapter observes the resolved decisions of the
  ledger and reports endpoints back. Actuators record every effect with a deadline in the effect
  ledger, and the reconcile pass undoes it. \<open>Runtime_Properties\<close> states what the composition of
  laboratory, adapter and tick promises: no endpoint is refused as foreign, and an action is
  withheld only for a running experiment. The value scheduler plans for the snapshots of the
  publisher, and its permits come back as completions. The drain of the watchdog feeds the rollback
  guard: \<open>decay_rollback_exact\<close> says when the two together revert a learned parameter. A freeze
  goes through the mediator and the saga to the jetsam wrappers and to \<open>kill\<close>, records its
  observation in the watchdog and, when its compensation failed, its former band in the effect
  ledger; \<open>freeze_failure_recovers\<close> says that an error leaves no process stopped and no
  demotion behind. The decision ledger keeps the identity of an announced decision while others
  come and go and across restarts (\<open>correlated_decision_roundtrip\<close>), and \<open>arms_need_evidence\<close>
  traces the count that lets the laboratory act back to the calls that brought certified pairs.
  A local restart of the exploration scheduler loses its limits in one case, a wall clock that
  stepped back between two commits (\<open>restart_keeps_limits\<close>).

  HOW THE CODE IS RENDERED

  A struct is a record, an enum a datatype, an integer of Rust a word of its width, with the
  wrapping or saturating operation the source uses; \<open>usize\<close> lengths are natural numbers. A
  method that mutates takes and returns the state; \<open>Result\<close> is a sum with the error on the
  left; a panic is a value of its own where it could be reached. Hash maps and sets are lists
  or functions, whichever the code can observe. Text is a list of characters and its length in
  bytes is its length, so text is taken to be ASCII. The clock, the kernel, the liveness of a
  process and the size of a serialised value (\<open>json_len\<close>) are arguments; floating-point values
  that are only stored or compared are an abstract order in the decision ledger.

  WHAT THE LEMMAS SHOW

  For each component: its invariant, kept by every operation and hence in every state that a
  sequence of calls can reach (\<open>..._reachable_inv\<close>); what each operation returns on every
  branch; what a restart keeps and what it revokes; which budgets and cooldowns cannot be
  bypassed; and, where the code promises something that it does not do, the theorem that shows
  it. Termination is by structural recursion or a measure; the search for a free decision
  identity is the one loop that the source bounds by a count and ends in \<open>unreachable!\<close>, and
  \<open>ledger_never_panics\<close> shows that it is not reached. The walk over the memory regions of a task
  is the one loop that nothing bounds: it is a partial function, and \<open>purge_hint_returns\<close> shows
  that it ends when every region that the kernel answers with contains the address asked for or
  follows it, and none reaches past the end of the address space (\<open>region_rules\<close>). The freeze
  theorems assume of the kernel what \<open>band_rules\<close> says of jetsam bands and \<open>stop_rules\<close> of
  signals: a jetsam request or a failed \<open>kill\<close> stops nothing, and a process that a signal
  reached answers signal zero. The rights of Mach ports rest on \<open>port_rules\<close> and \<open>host_rules\<close>. \<open>Runtime_Properties\<close> needs cycle numbers
  below \<open>2^64 - 2^32\<close>, where a horizon of 32 bits can still be added without saturation.

  NOT MODELLED

  Code that computes with floating point to learn or to score (Kalman filters, belief revision,
  causal graphs, world model, outcome tracking, intelligence score, medallion telemetry): its
  laws would be statements on rounding, and the safety machinery does not rely on them. Code that
  only reads hardware or the system (IOKit, SMC, kpc, collectors), the command-line tool, menu bar
  and dashboards, the other actions and the guards of \<open>execute_actions\<close>, the daemon's main loop and its logging, and the serialisation format. The
  perceptual adapters and the regime classifier, which are floating point. The copies of counters
  into metrics records.
\<close>

end
